(* ===== verification/Prelude.thy ===== *)
theory Prelude
  imports Main "HOL-Library.Sublist" "HOL-Library.List_Lexorder" "HOL-Library.Char_ord"
    "HOL-Library.Product_Lexorder"
begin

text \<open>
  Shared vocabulary of the development: identifiers, time, the API error envelope
  (\<^verbatim>\<open>app/core/errors.py\<close>), results, JSON values, the bulk operations on lists of rows that the
  model of the relational store is built from, and the lemma collections and generic list facts
  the component theories use.
\<close>

named_theorems row_simps \<open>equations about reads and bulk updates of tables\<close>
named_theorems frame_simps \<open>operations that leave a part of the state alone\<close>
named_theorems inv_intros \<open>operations that keep an invariant\<close>

section \<open>Identifiers, time, errors\<close>

text \<open>
  Identifiers are the strings of \<open>String(36)\<close> columns. Time is an exact count of microseconds
  (the resolution of Python's \<open>datetime\<close>).
\<close>

type_synonym ident = string
type_synonym timestamp = int

definition seconds :: "int \<Rightarrow> timestamp" where
  "seconds n = n * 1000000"

lemma seconds_mono [simp]: "seconds m \<le> seconds n \<longleftrightarrow> m \<le> n"
  by (simp add: seconds_def)

lemma seconds_pos [simp]: "0 < seconds n \<longleftrightarrow> 0 < n"
  by (simp add: seconds_def)

text \<open>
  The error envelope: machine code, i18n key and HTTP status. The human-readable message and the
  \<open>details\<close> dictionary are presentation and are left out.
\<close>

datatype eyot_error = EyotError (error_code: string) (message_key: string) (status_code: int)

definition NotFoundError :: "string \<Rightarrow> string \<Rightarrow> eyot_error" where
  "NotFoundError code key = EyotError code key 404"

definition ValidationError :: "string \<Rightarrow> string \<Rightarrow> eyot_error" where
  "ValidationError code key = EyotError code key 422"

definition UnauthorizedError :: "string \<Rightarrow> string \<Rightarrow> eyot_error" where
  "UnauthorizedError code key = EyotError code key 401"

definition ForbiddenError :: "string \<Rightarrow> string \<Rightarrow> eyot_error" where
  "ForbiddenError code key = EyotError code key 403"

definition ConflictError :: "string \<Rightarrow> string \<Rightarrow> eyot_error" where
  "ConflictError code key = EyotError code key 409"

definition InternalError :: "string \<Rightarrow> string \<Rightarrow> eyot_error" where
  "InternalError code key = EyotError code key 500"

text \<open>
  The envelopes of \<open>app/main.py\<close> for a request body that fails its schema and for any exception
  that no handler catches.
\<close>

definition request_validation_error :: eyot_error where
  "request_validation_error = EyotError ''validation_error'' ''errors.validation'' 422"

definition unhandled_error :: eyot_error where
  "unhandled_error = EyotError ''internal_error'' ''errors.internal'' 500"

lemmas eyot_errors = request_validation_error_def unhandled_error_def
  NotFoundError_def ValidationError_def UnauthorizedError_def ForbiddenError_def
  ConflictError_def InternalError_def

text \<open>
  A field of a PATCH body: absent (\<open>None\<close>, left out by \<open>exclude_unset\<close>) or given, where the
  given value may itself be \<open>null\<close>.
\<close>

type_synonym 'a patch = "'a option option"

type_synonym 'a result = "eyot_error + 'a"

definition is_ok :: "'a result \<Rightarrow> bool" where
  "is_ok r = (case r of Inl _ \<Rightarrow> False | Inr _ \<Rightarrow> True)"

lemma is_ok_simps [simp]: "is_ok (Inr v)" "\<not> is_ok (Inl e)"
  by (simp_all add: is_ok_def)

lemma is_okE: "is_ok r \<Longrightarrow> (\<And>v. r = Inr v \<Longrightarrow> P) \<Longrightarrow> P"
  by (cases r) auto

section \<open>JSON values\<close>

text \<open>
  Payloads, manifests and configuration columns. Objects keep the insertion order of the Python
  dictionary. Numbers are integers, and \<open>JSeconds n\<close> is the float of \<open>n\<close> microseconds in
  seconds, the only other numbers the modelled payloads carry.
\<close>

datatype json =
    JNull
  | JBool bool
  | JInt int
  | JSeconds int
  | JStr string
  | JList "json list"
  | JObj "(string \<times> json) list"

type_synonym json_obj = "(string \<times> json) list"

definition jget :: "json_obj \<Rightarrow> string \<Rightarrow> json option" where
  "jget ob k = map_of ob k"

text \<open>Assignment \<open>d[k] = v\<close>: an existing key keeps its place, a new key goes last.\<close>

fun jset :: "string \<Rightarrow> json \<Rightarrow> json_obj \<Rightarrow> json_obj" where
  "jset k v [] = [(k, v)]"
| "jset k v ((k', v') # ob) = (if k = k' then (k, v) # ob else (k', v') # jset k v ob)"

lemma jget_jset [simp]: "jget (jset k v ob) k' = (if k = k' then Some v else jget ob k')"
  by (induction k v ob rule: jset.induct) (auto simp: jget_def)

lemma jget_Nil [simp]: "jget [] k = None"
  by (simp add: jget_def)

lemma jget_Cons [simp]: "jget ((k', v) # ob) k = (if k' = k then Some v else jget ob k)"
  by (simp add: jget_def)

text \<open>\<open>d.get(k)\<close> with \<open>None\<close> as JSON null, and the truth value of a JSON value.\<close>

definition jget_null :: "json_obj \<Rightarrow> string \<Rightarrow> json" where
  "jget_null ob k = (case jget ob k of None \<Rightarrow> JNull | Some v \<Rightarrow> v)"

fun json_true :: "json \<Rightarrow> bool" where
  "json_true JNull = False"
| "json_true (JBool b) = b"
| "json_true (JInt n) = (n \<noteq> 0)"
| "json_true (JSeconds n) = (n \<noteq> 0)"
| "json_true (JStr s) = (s \<noteq> [])"
| "json_true (JList js) = (js \<noteq> [])"
| "json_true (JObj ob) = (ob \<noteq> [])"

text \<open>Python truthiness of an optional string: \<open>None\<close> and the empty string are false.\<close>

definition truthy :: "string option \<Rightarrow> bool" where
  "truthy x = (case x of None \<Rightarrow> False | Some s \<Rightarrow> s \<noteq> [])"

lemma truthy_simps [simp]: "\<not> truthy None" "truthy (Some s) \<longleftrightarrow> s \<noteq> []"
  by (simp_all add: truthy_def)

text \<open>\<open>a or b\<close> on an optional string and a fallback.\<close>

definition str_or :: "string option \<Rightarrow> string \<Rightarrow> string" where
  "str_or x d = (case x of Some s \<Rightarrow> (if s = [] then d else s) | None \<Rightarrow> d)"

lemma str_or_simps [simp]:
  "str_or None d = d" "str_or (Some []) d = d" "s \<noteq> [] \<Longrightarrow> str_or (Some s) d = s"
  by (simp_all add: str_or_def)

section \<open>Bulk operations on lists of rows\<close>

text \<open>\<open>UPDATE ... SET ... WHERE P\<close>: every row satisfying \<open>P\<close> is replaced in place.\<close>

definition update_where :: "('r \<Rightarrow> bool) \<Rightarrow> ('r \<Rightarrow> 'r) \<Rightarrow> 'r list \<Rightarrow> 'r list" where
  "update_where P f rows = map (\<lambda>r. if P r then f r else r) rows"

lemma update_where_Nil [simp]: "update_where P f [] = []"
  by (simp add: update_where_def)

lemma update_where_Cons [simp]:
  "update_where P f (r # rows) = (if P r then f r else r) # update_where P f rows"
  by (simp add: update_where_def)

lemma update_where_append [simp]:
  "update_where P f (xs @ ys) = update_where P f xs @ update_where P f ys"
  by (simp add: update_where_def)

lemma length_update_where [simp]: "length (update_where P f rows) = length rows"
  by (simp add: update_where_def)

lemma in_update_where_iff:
  "r \<in> set (update_where P f rows) \<longleftrightarrow> (\<exists>s \<in> set rows. r = (if P s then f s else s))"
  by (auto simp: update_where_def)

lemma update_whereE:
  assumes "r \<in> set (update_where P f rows)"
  obtains s where "s \<in> set rows" "P s" "r = f s" | "r \<in> set rows" "\<not> P r"
  using assms by (auto simp: in_update_where_iff split: if_splits)

lemma update_where_keep: "r \<in> set rows \<Longrightarrow> \<not> P r \<Longrightarrow> r \<in> set (update_where P f rows)"
  by (force simp: in_update_where_iff)

lemma update_where_hit: "r \<in> set rows \<Longrightarrow> P r \<Longrightarrow> f r \<in> set (update_where P f rows)"
  by (force simp: in_update_where_iff)

lemma map_update_where [row_simps]:
  "(\<And>r. P r \<Longrightarrow> g (f r) = g r) \<Longrightarrow> map g (update_where P f rows) = map g rows"
  by (induction rows) auto

lemma filter_update_where_same [row_simps]:
  "(\<And>r. P r \<Longrightarrow> Q r = Q (f r)) \<Longrightarrow> filter Q (update_where P f rows) = update_where P f (filter Q rows)"
  by (induction rows) auto

lemma filter_update_where_drop [row_simps]:
  "(\<And>r. P r \<Longrightarrow> \<not> Q (f r)) \<Longrightarrow>
   filter Q (update_where P f rows) = filter (\<lambda>r. Q r \<and> \<not> P r) rows"
  by (induction rows) auto

lemma filter_update_where_other [row_simps]:
  "(\<And>r. P r \<Longrightarrow> \<not> Q r \<and> \<not> Q (f r)) \<Longrightarrow> filter Q (update_where P f rows) = filter Q rows"
  by (induction rows) auto

lemma update_where_none [simp]: "(\<And>r. r \<in> set rows \<Longrightarrow> \<not> P r) \<Longrightarrow> update_where P f rows = rows"
  by (induction rows) auto

text \<open>The number of rows an \<open>UPDATE\<close> matched (\<open>result.rowcount\<close>).\<close>

definition count_where :: "('r \<Rightarrow> bool) \<Rightarrow> 'r list \<Rightarrow> nat" where
  "count_where P rows = length (filter P rows)"

text \<open>\<open>scalars().first()\<close>: the first matching row, if any.\<close>

abbreviation first_where :: "('r \<Rightarrow> bool) \<Rightarrow> 'r list \<Rightarrow> 'r option" where
  "first_where P rows \<equiv> find P rows"

lemma first_where_SomeD: "first_where P rows = Some r \<Longrightarrow> r \<in> set rows \<and> P r"
  by (induction rows) (auto split: if_splits)

lemma first_where_None_iff: "first_where P rows = None \<longleftrightarrow> (\<forall>r \<in> set rows. \<not> P r)"
  by (induction rows) auto

lemma first_where_update:
  assumes "first_where P rows = Some r" and "P r'"
  shows "first_where P (update_where (\<lambda>x. key x = key r) (\<lambda>_. r') rows) = Some r'"
  using assms by (induction rows) (auto split: if_splits)

lemma first_where_append:
  "first_where P (xs @ ys) =
    (case first_where P xs of Some r \<Rightarrow> Some r | None \<Rightarrow> first_where P ys)"
  by (induction xs) auto

lemma first_where_unique:
  assumes "r \<in> set rows" and "P r" and "\<And>s. s \<in> set rows \<Longrightarrow> P s \<Longrightarrow> s = r"
  shows "first_where P rows = Some r"
proof (cases "first_where P rows")
  case None
  with assms(1,2) show ?thesis by (auto simp: first_where_None_iff)
next
  case (Some s)
  then show ?thesis using assms(3) first_where_SomeD [OF Some] by blast
qed

lemma first_where_update_other [row_simps]:
  "(\<And>r. P r \<Longrightarrow> \<not> Q r \<and> \<not> Q (f r)) \<Longrightarrow>
   first_where Q (update_where P f rows) = first_where Q rows"
  by (induction rows) auto

section \<open>Lists\<close>

lemma sorted_take_le_drop:
  assumes "sorted (map f xs)" and "a \<in> set (take n xs)" and "b \<in> set (drop n xs)"
  shows "f a \<le> f b"
proof -
  have "sorted (map f (take n xs) @ map f (drop n xs))"
    using assms(1) by (simp flip: map_append)
  then show ?thesis
    using assms(2,3) by (auto simp: sorted_append)
qed

lemma takeWhile_all: "c \<in> set (takeWhile P s) \<Longrightarrow> P c"
  by (induction s) (auto split: if_splits)

lemma hd_dropWhile_not: "dropWhile P s \<noteq> [] \<Longrightarrow> \<not> P (hd (dropWhile P s))"
  by (induction s) auto

lemma dropWhile_length_le [simp]: "length (dropWhile P s) \<le> length s"
  by (induction s) auto

lemma foldl_prefix_inv:
  assumes "\<And>s x. \<exists>t. f s x = s @ t"
  shows "\<exists>t. foldl f s xs = s @ t"
proof (induction xs arbitrary: s)
  case (Cons x xs)
  obtain t where "f s x = s @ t" using assms by blast
  moreover obtain t' where "foldl f (s @ t) xs = (s @ t) @ t'" using Cons by blast
  ultimately show ?case by auto
qed simp

text \<open>\<open>dict.fromkeys\<close>: the elements without their repetitions, in the order of first occurrence.\<close>

definition first_occurrences :: "'a list \<Rightarrow> 'a list" where
  "first_occurrences xs = rev (remdups (rev xs))"

lemma first_occurrences_simps [simp]: "set (first_occurrences xs) = set xs" "distinct (first_occurrences xs)"
  by (simp_all add: first_occurrences_def)

end
