(* ===== verification/Py_Str.thy ===== *)
theory Py_Str
  imports Prelude
begin

text \<open>
  The operations of Python's \<open>str\<close> that the backend uses. A \<open>string\<close> stands for the
  sequence of its code points, here those below 256: lengths and slices count code points as
  Python's do, and \<open>is_space\<close> is exactly \<open>str.isspace\<close> (and the \<open>\s\<close> of a
  \<open>str\<close> regular expression) on them.
\<close>

section \<open>Character classes\<close>

definition is_space :: "char \<Rightarrow> bool" where
  "is_space c = (let n = (of_char c :: nat) in
     (9 \<le> n \<and> n \<le> 13) \<or> (28 \<le> n \<and> n \<le> 32) \<or> n = 133 \<or> n = 160)"

definition is_lower :: "char \<Rightarrow> bool" where
  "is_lower c = (let n = (of_char c :: nat) in 97 \<le> n \<and> n \<le> 122)"

definition is_upper :: "char \<Rightarrow> bool" where
  "is_upper c = (let n = (of_char c :: nat) in 65 \<le> n \<and> n \<le> 90)"

definition is_digit :: "char \<Rightarrow> bool" where
  "is_digit c = (let n = (of_char c :: nat) in 48 \<le> n \<and> n \<le> 57)"

abbreviation newline :: char where
  "newline \<equiv> CHR 0x0A"

lemma is_space_simps [simp]:
  "is_space CHR '' ''" "is_space newline" "\<not> is_space CHR ''@''" "\<not> is_space CHR ''/''"
  "\<not> is_space CHR '':''" "\<not> is_space CHR ''-''" "\<not> is_space CHR ''_''"
  by (simp_all add: is_space_def)

lemma not_space_class:
  "is_lower c \<Longrightarrow> \<not> is_space c" "is_upper c \<Longrightarrow> \<not> is_space c" "is_digit c \<Longrightarrow> \<not> is_space c"
  by (auto simp: is_lower_def is_upper_def is_digit_def is_space_def Let_def)

section \<open>strip, split, join\<close>

definition lstrip :: "string \<Rightarrow> string" where
  "lstrip s = dropWhile is_space s"

definition rstrip :: "string \<Rightarrow> string" where
  "rstrip s = rev (dropWhile is_space (rev s))"

definition strip :: "string \<Rightarrow> string" where
  "strip s = rstrip (lstrip s)"

text \<open>\<open>s.split()\<close>: the maximal runs of non-space characters.\<close>

fun split_ws :: "string \<Rightarrow> string list" where
  "split_ws [] = []"
| "split_ws (c # s) =
     (if is_space c then split_ws s
      else (c # takeWhile (\<lambda>d. \<not> is_space d) s) # split_ws (dropWhile (\<lambda>d. \<not> is_space d) s))"

text \<open>\<open>s.split(sep)\<close> for a one-character separator: empty pieces are kept.\<close>

fun split_on :: "char \<Rightarrow> string \<Rightarrow> string list" where
  "split_on d [] = [[]]"
| "split_on d (c # s) =
     (if c = d then [] # split_on d s
      else (case split_on d s of [] \<Rightarrow> [[c]] | w # ws \<Rightarrow> (c # w) # ws))"

fun join :: "string \<Rightarrow> string list \<Rightarrow> string" where
  "join sep [] = []"
| "join sep [w] = w"
| "join sep (w # ws) = w @ sep @ join sep ws"

definition starts_with :: "string \<Rightarrow> string \<Rightarrow> bool" where
  "starts_with p s = (take (length p) s = p)"

text \<open>\<open>str.lower\<close> on code points below 256 (ASCII and Latin-1 capitals).\<close>

definition lower_char :: "char \<Rightarrow> char" where
  "lower_char c = (let n = (of_char c :: nat) in
     if (65 \<le> n \<and> n \<le> 90) \<or> (192 \<le> n \<and> n \<le> 222 \<and> n \<noteq> 215) then char_of (n + 32) else c)"

definition lower :: "string \<Rightarrow> string" where
  "lower s = map lower_char s"

text \<open>\<open>str.upper\<close>, used by the program on ASCII text only.\<close>

definition upper_char :: "char \<Rightarrow> char" where
  "upper_char c = (if is_lower c then char_of ((of_char c :: nat) - 32) else c)"

definition upper_ascii :: "string \<Rightarrow> string" where
  "upper_ascii s = map upper_char s"

text \<open>\<open>str(n)\<close> and \<open>int(s)\<close> (digits with an optional sign and surrounding blanks).\<close>

definition digit_char :: "nat \<Rightarrow> char" where
  "digit_char d = char_of (48 + d)"

definition digit_val :: "char \<Rightarrow> nat" where
  "digit_val c = (of_char c :: nat) - 48"

fun str_of_nat :: "nat \<Rightarrow> string" where
  "str_of_nat n = (if n < 10 then [digit_char n] else str_of_nat (n div 10) @ [digit_char (n mod 10)])"

declare str_of_nat.simps [simp del]

definition str_of_int :: "int \<Rightarrow> string" where
  "str_of_int i = (if i < 0 then CHR ''-'' # str_of_nat (nat (- i)) else str_of_nat (nat i))"

definition parse_nat :: "string \<Rightarrow> nat option" where
  "parse_nat s = (if s \<noteq> [] \<and> list_all is_digit s
                  then Some (foldl (\<lambda>n c. n * 10 + digit_val c) 0 s) else None)"

definition parse_int :: "string \<Rightarrow> int option" where
  "parse_int s = (case strip s of
      [] \<Rightarrow> None
    | c # t \<Rightarrow> if c = CHR ''-'' then map_option (\<lambda>n. - int n) (parse_nat t)
              else if c = CHR ''+'' then map_option int (parse_nat t)
              else map_option int (parse_nat (c # t)))"

section \<open>repr and str of JSON values\<close>

definition hex_digit :: "nat \<Rightarrow> char" where
  "hex_digit d = (if d < 10 then digit_char d else char_of (87 + d))"

definition repr_char :: "char \<Rightarrow> char \<Rightarrow> string" where
  "repr_char q c = (let n = (of_char c :: nat); bs = CHR 0x5C in
     if c = q \<or> c = bs then [bs, c]
     else if n = 10 then [bs, CHR ''n''] else if n = 13 then [bs, CHR ''r'']
     else if n = 9 then [bs, CHR ''t'']
     else if n < 32 \<or> (127 \<le> n \<and> n \<le> 160) \<or> n = 173
     then [bs, CHR ''x'', hex_digit (n div 16), hex_digit (n mod 16)]
     else [c])"

definition repr_str :: "string \<Rightarrow> string" where
  "repr_str s = (let q = (if CHR 0x27 \<in> set s \<and> CHR 0x22 \<notin> set s then CHR 0x22 else CHR 0x27)
                 in q # concat (map (repr_char q) s) @ [q])"

text \<open>The float of \<open>n\<close> microseconds in seconds, below the range of the exponent notation.\<close>

definition repr_frac :: "nat \<Rightarrow> string" where
  "repr_frac n = (let ds = rev (dropWhile (\<lambda>c. c = CHR ''0'')
       (rev (tl (str_of_nat (1000000 + n))))) in if ds = [] then ''0'' else ds)"

definition repr_float :: "nat \<Rightarrow> string" where
  "repr_float n =
     (if 0 < n \<and> n < 10 then str_of_nat n @ ''e-06''
      else if 10 \<le> n \<and> n < 100
      then str_of_nat (n div 10) @ (if n mod 10 = 0 then [] else ''.'' @ str_of_nat (n mod 10)) @ ''e-05''
      else str_of_nat (n div 1000000) @ ''.'' @ repr_frac (n mod 1000000))"

fun py_repr :: "json \<Rightarrow> string" where
  "py_repr JNull = ''None''"
| "py_repr (JBool b) = (if b then ''True'' else ''False'')"
| "py_repr (JInt n) = str_of_int n"
| "py_repr (JSeconds n) = (if n < 0 then CHR ''-'' # repr_float (nat (- n)) else repr_float (nat n))"
| "py_repr (JStr s) = repr_str s"
| "py_repr (JList js) = ''['' @ join '', '' (map py_repr js) @ '']''"
| "py_repr (JObj ob) = ''{'' @ join '', '' (map (\<lambda>(k, v). repr_str k @ '': '' @ py_repr v) ob) @ ''}''"

definition py_str :: "json \<Rightarrow> string" where
  "py_str j = (case j of JStr s \<Rightarrow> s | _ \<Rightarrow> py_repr j)"

section \<open>Facts\<close>

lemma digit_char_simps:
  assumes "d < 10"
  shows "is_digit (digit_char d)" "digit_val (digit_char d) = d" "\<not> is_space (digit_char d)"
    "digit_char d \<noteq> CHR ''-''" "digit_char d \<noteq> CHR ''+''"
proof -
  have "d \<in> {0, 1, 2, 3, 4, 5, 6, 7, 8, 9}" using assms by auto
  then show dig: "is_digit (digit_char d)" and "digit_val (digit_char d) = d"
    and "\<not> is_space (digit_char d)"
    by (auto simp: is_digit_def digit_char_def digit_val_def is_space_def Let_def)
  have "\<not> is_digit CHR ''-''" "\<not> is_digit CHR ''+''" by (simp_all add: is_digit_def)
  with dig show "digit_char d \<noteq> CHR ''-''" "digit_char d \<noteq> CHR ''+''" by auto
qed

lemma str_of_nat_digits: "str_of_nat n \<noteq> [] \<and> list_all is_digit (str_of_nat n)"
proof (induction n rule: str_of_nat.induct)
  case (1 n)
  then show ?case
    by (subst str_of_nat.simps, subst (2) str_of_nat.simps)
      (auto simp: digit_char_simps simp del: str_of_nat.simps)
qed

lemma parse_str_of_nat: "parse_nat (str_of_nat n) = Some n"
proof (induction n rule: str_of_nat.induct)
  case (1 n)
  show ?case
  proof (cases "n < 10")
    case True
    then show ?thesis by (subst str_of_nat.simps) (simp add: parse_nat_def digit_char_simps)
  next
    case False
    with 1 have IH: "parse_nat (str_of_nat (n div 10)) = Some (n div 10)" by simp
    then have "foldl (\<lambda>n c. n * 10 + digit_val c) 0 (str_of_nat (n div 10)) = n div 10"
      and "list_all is_digit (str_of_nat (n div 10))"
      by (auto simp: parse_nat_def split: if_splits)
    with False show ?thesis
      by (subst str_of_nat.simps) (simp add: parse_nat_def digit_char_simps)
  qed
qed

lemma rstrip_Nil [simp]: "rstrip [] = []"
  by (simp add: rstrip_def)

lemma strip_Nil [simp]: "strip [] = []"
  by (simp add: strip_def lstrip_def)

lemma rstrip_snoc: "rstrip (s @ [c]) = (if is_space c then rstrip s else s @ [c])"
  by (simp add: rstrip_def)

lemma rstrip_empty_iff: "rstrip s = [] \<longleftrightarrow> (\<forall>c \<in> set s. is_space c)"
  by (simp add: rstrip_def dropWhile_eq_Nil_conv)

lemma lstrip_empty_iff: "lstrip s = [] \<longleftrightarrow> (\<forall>c \<in> set s. is_space c)"
  by (simp add: lstrip_def dropWhile_eq_Nil_conv)

lemma strip_empty_iff: "strip s = [] \<longleftrightarrow> (\<forall>c \<in> set s. is_space c)"
proof
  assume "strip s = []"
  then have all: "\<forall>c \<in> set (lstrip s). is_space c" by (simp add: strip_def rstrip_empty_iff)
  show "\<forall>c \<in> set s. is_space c"
  proof (cases "lstrip s")
    case Nil
    then show ?thesis by (simp add: lstrip_empty_iff)
  next
    case (Cons c t)
    then have "\<not> is_space c" using hd_dropWhile_not [of is_space s] by (simp add: lstrip_def)
    with all Cons show ?thesis by simp
  qed
next
  assume "\<forall>c \<in> set s. is_space c"
  then show "strip s = []" by (simp add: strip_def lstrip_empty_iff [THEN iffD2])
qed

lemma rstrip_prefix: "prefix (rstrip s) s"
  by (induction s rule: rev_induct) (auto simp: rstrip_snoc)

lemma set_rstrip: "set (rstrip s) \<subseteq> set s"
  using rstrip_prefix [THEN set_mono_prefix] .

lemma set_strip: "set (strip s) \<subseteq> set s"
  using set_rstrip [of "lstrip s"] set_dropWhileD [of _ is_space s]
  by (auto simp: strip_def lstrip_def)

lemma rstrip_last: "rstrip s \<noteq> [] \<Longrightarrow> \<not> is_space (last (rstrip s))"
  by (induction s rule: rev_induct) (auto simp: rstrip_snoc)

lemma hd_rstrip: "rstrip s \<noteq> [] \<Longrightarrow> hd (rstrip s) = hd s"
  using rstrip_prefix [of s] by (metis hd_append2 prefix_def)

text \<open>A stripped string is empty or starts and ends with a non-space character.\<close>

lemma strip_hd: "strip s \<noteq> [] \<Longrightarrow> \<not> is_space (hd (strip s))"
proof -
  assume ne: "strip s \<noteq> []"
  then have "hd (strip s) = hd (lstrip s)" and "lstrip s \<noteq> []"
    by (auto simp: strip_def hd_rstrip)
  then show ?thesis using hd_dropWhile_not [of is_space s] by (simp add: lstrip_def)
qed

lemma strip_last: "strip s \<noteq> [] \<Longrightarrow> \<not> is_space (last (strip s))"
  by (simp add: strip_def rstrip_last)

lemma rstrip_id: "s = [] \<or> \<not> is_space (last s) \<Longrightarrow> rstrip s = s"
  by (cases s rule: rev_cases) (auto simp: rstrip_snoc)

lemma lstrip_id: "s = [] \<or> \<not> is_space (hd s) \<Longrightarrow> lstrip s = s"
  by (cases s) (auto simp: lstrip_def)

lemma strip_id: "s = [] \<or> (\<not> is_space (hd s) \<and> \<not> is_space (last s)) \<Longrightarrow> strip s = s"
  by (auto simp: strip_def lstrip_id rstrip_id)

lemma strip_idem [simp]: "strip (strip s) = strip s"
  by (rule strip_id) (auto simp: strip_hd strip_last)

text \<open>A non-empty prefix of a stripped string is not blank.\<close>

lemma strip_take_nonempty: "strip s \<noteq> [] \<Longrightarrow> 0 < n \<Longrightarrow> strip (take n (strip s)) \<noteq> []"
proof -
  assume ne: "strip s \<noteq> []" and n: "0 < n"
  then have "hd (strip s) \<in> set (take n (strip s))"
    by (cases "strip s"; cases n) auto
  with strip_hd [OF ne] show ?thesis by (auto simp: strip_empty_iff)
qed

lemma split_ws_nonempty: "w \<in> set (split_ws s) \<Longrightarrow> w \<noteq> []"
  by (induction s rule: split_ws.induct) (auto split: if_splits)

lemma split_ws_no_space: "w \<in> set (split_ws s) \<Longrightarrow> c \<in> set w \<Longrightarrow> \<not> is_space c"
  by (induction s rule: split_ws.induct) (auto split: if_splits dest: takeWhile_all)

lemma split_ws_skip: "(\<And>c. c \<in> set p \<Longrightarrow> is_space c) \<Longrightarrow> split_ws (p @ s) = split_ws s"
  by (induction p) auto

lemma split_ws_word:
  assumes "w \<noteq> []" and "\<And>c. c \<in> set w \<Longrightarrow> \<not> is_space c" and "s = [] \<or> is_space (hd s)"
  shows "split_ws (w @ s) = w # split_ws s"
proof -
  obtain c v where w: "w = c # v" using assms(1) by (cases w) auto
  have tw: "takeWhile (\<lambda>d. \<not> is_space d) (v @ s) = v"
    and dw: "dropWhile (\<lambda>d. \<not> is_space d) (v @ s) = s"
    using assms(2,3) w by (cases s; auto simp: takeWhile_append2 dropWhile_append2)+
  show ?thesis using assms(2) w tw dw by simp
qed

text \<open>Joining words with a blank and splitting again gives the words back.\<close>

lemma split_ws_join:
  "(\<And>w. w \<in> set ws \<Longrightarrow> w \<noteq> [] \<and> (\<forall>c \<in> set w. \<not> is_space c)) \<Longrightarrow>
   split_ws (join '' '' ws) = ws"
proof (induction "'' ''" ws rule: join.induct)
  case (2 w)
  then show ?case using split_ws_word [of w "[]"] by simp
next
  case (3 w v vs)
  then have "split_ws (w @ '' '' @ join '' '' (v # vs)) = w # split_ws ('' '' @ join '' '' (v # vs))"
    by (intro split_ws_word) auto
  moreover have "split_ws (join '' '' (v # vs)) = v # vs"
    using 3 by (metis list.set_intros(2))
  ultimately show ?case by simp
qed simp

lemma split_on_nonempty [simp]: "split_on d s \<noteq> []"
  by (induction d s rule: split_on.induct) (auto split: list.splits)

lemma join_split_on: "join [d] (split_on d s) = s"
proof (induction d s rule: split_on.induct)
  case (2 d c s)
  show ?case
  proof (cases "split_on d s")
    case Nil
    then show ?thesis using split_on_nonempty by blast
  next
    case (Cons w ws)
    with 2 show ?thesis by (cases ws) auto
  qed
qed simp

lemma split_on_no_sep: "w \<in> set (split_on d s) \<Longrightarrow> d \<notin> set w"
  by (induction d s arbitrary: w rule: split_on.induct) (auto split: if_splits list.splits)

lemma split_on_word: "d \<notin> set s \<Longrightarrow> split_on d s = [s]"
  by (induction d s rule: split_on.induct) auto

end
