(* ===== verification/Models.thy ===== *)
theory Models
  imports Py_Str
begin

text \<open>
  The rows of the relational store (\<^verbatim>\<open>app/models/*.py\<close>) and the store itself. Every model class
  is a record extending \<open>base_row\<close>; a table is the list of its rows, soft-deleted ones
  included, in insertion order. Partial unique indexes are the \<open>uq_\<close> predicates. Primary
  keys come from an arbitrary stream of identifiers (\<open>uuid4\<close>), consumed one per row.
\<close>

section \<open>BaseModel\<close>

record base_row =
  row_id :: ident
  created_at :: timestamp
  updated_at :: timestamp
  deleted_at :: "timestamp option"

definition live :: "'a base_row_scheme \<Rightarrow> bool" where
  "live r = (deleted_at r = None)"

text \<open>\<open>onupdate\<close>: a flushed change of the row refreshes \<open>updated_at\<close>.\<close>

definition touch :: "timestamp \<Rightarrow> 'a base_row_scheme \<Rightarrow> 'a base_row_scheme" where
  "touch now r = r\<lparr>updated_at := now\<rparr>"

definition soft_delete :: "timestamp \<Rightarrow> 'a base_row_scheme \<Rightarrow> 'a base_row_scheme" where
  "soft_delete now r = touch now (r\<lparr>deleted_at := Some now\<rparr>)"

text \<open>An ORM change that leaves every column as it was is not flushed.\<close>

definition modified :: "timestamp \<Rightarrow> 'a base_row_scheme \<Rightarrow> 'a base_row_scheme \<Rightarrow> 'a base_row_scheme" where
  "modified now old new = (if new = old then old else touch now new)"

lemma modified_field: "f (touch now new) = f new \<Longrightarrow> f (modified now old new) = f new"
  by (simp add: modified_def)

lemma live_simps [simp]:
  "\<not> live (soft_delete now r)" "live (touch now r) = live r"
  "row_id (soft_delete now r) = row_id r" "row_id (touch now r) = row_id r"
  "created_at (soft_delete now r) = created_at r" "created_at (touch now r) = created_at r"
  "deleted_at (touch now r) = deleted_at r" "deleted_at (soft_delete now r) = Some now"
  by (simp_all add: live_def soft_delete_def touch_def)

lemma more_simps [simp]:
  "base_row.more (soft_delete now r) = base_row.more r"
  "base_row.more (touch now r) = base_row.more r"
  by (simp_all add: soft_delete_def touch_def)

text \<open>\<open>SELECT ... WHERE id = i AND deleted_at IS NULL\<close>.\<close>

definition get_live :: "'a base_row_scheme list \<Rightarrow> ident \<Rightarrow> 'a base_row_scheme option" where
  "get_live rows i = first_where (\<lambda>r. row_id r = i \<and> live r) rows"

text \<open>\<open>scalar_one_or_none()\<close>: \<open>MultipleResultsFound\<close> on two rows or more.\<close>

definition scalar_one_or_none :: "'r list \<Rightarrow> 'r option result" where
  "scalar_one_or_none rows = (case rows of
      [] \<Rightarrow> Inr None
    | [r] \<Rightarrow> Inr (Some r)
    | _ \<Rightarrow> Inl unhandled_error)"

lemma scalar_one_simps [simp]:
  "scalar_one_or_none [] = Inr None" "scalar_one_or_none [r] = Inr (Some r)"
  "scalar_one_or_none (r # q # rows) = Inl unhandled_error"
  by (simp_all add: scalar_one_or_none_def)

lemma scalar_one_SomeD: "scalar_one_or_none rows = Inr (Some r) \<Longrightarrow> rows = [r]"
  by (auto simp: scalar_one_or_none_def split: list.splits)

lemma scalar_one_ok: "length rows \<le> 1 \<Longrightarrow> is_ok (scalar_one_or_none rows)"
  by (cases rows; cases "tl rows") (auto simp: scalar_one_or_none_def)

text \<open>The target of a foreign key exists (soft-deleted rows still satisfy the constraint).\<close>

definition fk_exists :: "'a base_row_scheme list \<Rightarrow> ident \<Rightarrow> bool" where
  "fk_exists rows i = list_ex (\<lambda>r. row_id r = i) rows"

text \<open>A partial unique index: the rows in its \<open>WHERE\<close> have distinct keys.\<close>

definition unique_on :: "('r \<Rightarrow> bool) \<Rightarrow> ('r \<Rightarrow> 'k) \<Rightarrow> 'r list \<Rightarrow> bool" where
  "unique_on P key rows = distinct (map key (filter P rows))"

section \<open>Tenancy: Organization, Namespace, User\<close>

record organization = base_row +
  org_slug :: string
  org_name :: string
  org_description :: "string option"
  system_hub_provider_id :: "ident option"
  system_hub_model :: "string option"
  cerebellum_default_provider_id :: "ident option"
  cerebellum_default_model :: "string option"
  use_proxy :: bool
  proxy_host :: "string option"
  proxy_port :: "int option"
  proxy_username :: "string option"
  proxy_password :: "string option"

record namespace = base_row +
  ns_org_id :: ident
  ns_slug :: string
  ns_name :: string
  ns_description :: "string option"
  ns_tags :: "json option"

record user = base_row +
  username :: string
  nickname :: "string option"
  email :: string
  password_hash :: string
  is_super_admin :: bool

section \<open>Contracts and user genes\<close>

datatype effect_scope = S_platform | S_org | S_namespace | S_workspace

record user_gene = base_row +
  ug_slug :: string
  ug_name :: string
  ug_kind :: string
  effect_scope :: effect_scope
  ug_description :: "string option"

record user_user_gene = base_row +
  uug_user_id :: ident
  uug_user_gene_id :: ident

record organization_contract = base_row +
  oc_organization_id :: ident
  oc_user_id :: ident
  source_pack :: "string option"

record organization_contract_gene = base_row +
  ocg_contract_id :: ident
  ocg_user_gene_id :: ident

record namespace_contract = base_row +
  nc_namespace_id :: ident
  nc_user_id :: ident

record namespace_contract_gene = base_row +
  ncg_contract_id :: ident
  ncg_user_gene_id :: ident

section \<open>Workspace, Membership, Passage\<close>

record workspace = base_row +
  ws_namespace_id :: ident
  ws_name :: string
  ws_slug :: string

record membership = base_row +
  mem_workspace_id :: ident
  mem_user_id :: "ident option"
  mem_instance_id :: "ident option"
  posx :: int
  posy :: int
  mem_permissions :: "json_obj option"

record passage = base_row +
  psg_workspace_id :: ident
  from_membership_id :: ident
  to_membership_id :: ident
  is_active :: bool
  psg_mode :: string
  edge_meta :: "json_obj option"

definition ck_memberships_exclusive_fk :: "membership list \<Rightarrow> bool" where
  "ck_memberships_exclusive_fk rows =
     list_all (\<lambda>m. (mem_user_id m \<noteq> None) \<noteq> (mem_instance_id m \<noteq> None)) rows"

definition uq_memberships_workspace_instance :: "membership list \<Rightarrow> bool" where
  "uq_memberships_workspace_instance =
     unique_on (\<lambda>m. live m \<and> mem_instance_id m \<noteq> None)
       (\<lambda>m. (mem_workspace_id m, mem_instance_id m))"

definition uq_memberships_workspace_user :: "membership list \<Rightarrow> bool" where
  "uq_memberships_workspace_user =
     unique_on (\<lambda>m. live m \<and> mem_user_id m \<noteq> None) (\<lambda>m. (mem_workspace_id m, mem_user_id m))"

definition uq_memberships_workspace_pos :: "membership list \<Rightarrow> bool" where
  "uq_memberships_workspace_pos =
     unique_on live (\<lambda>m. (mem_workspace_id m, posx m, posy m))"

definition uq_passages_active_edge :: "passage list \<Rightarrow> bool" where
  "uq_passages_active_edge =
     unique_on (\<lambda>p. is_active p \<and> live p)
       (\<lambda>p. (psg_workspace_id p, from_membership_id p, to_membership_id p))"

section \<open>Entity and Instance\<close>

datatype instance_status =
  I_creating | I_pending | I_deploying | I_running | I_restarting | I_failed | I_deleting

record entity = base_row +
  ent_namespace_id :: ident
  ent_name :: string
  ent_slug :: string
  preset_slug :: "string option"
  display_name :: "string option"
  display_color :: "string option"
  system_prompt :: "string option"
  config_override :: "json_obj option"
  has_knowledge :: "string list option"
  migration_hash :: "string option"
  is_cerebellum :: bool

record instance_row = base_row +
  ins_entity_id :: ident
  ins_workspace_id :: ident
  workspace_path :: "string option"
  ins_status :: instance_status
  runtime_config :: "json_obj option"
  proxy_token :: "string option"
  active_hash :: "string option"

definition uq_instances_workspace_entity :: "instance_row list \<Rightarrow> bool" where
  "uq_instances_workspace_entity =
     unique_on live (\<lambda>i. (ins_workspace_id i, ins_entity_id i))"

definition uq_entities_namespace_slug :: "entity list \<Rightarrow> bool" where
  "uq_entities_namespace_slug = unique_on live (\<lambda>e. (ent_namespace_id e, ent_slug e))"

definition uq_entities_cerebellum_per_ns :: "entity list \<Rightarrow> bool" where
  "uq_entities_cerebellum_per_ns = unique_on (\<lambda>e. is_cerebellum e \<and> live e) ent_namespace_id"

section \<open>Audit events, inject queue, loop state, composer transcript\<close>

record event_row = base_row +
  ev_type :: string
  actor_type :: string
  actor_id :: "string option"
  resource_type :: "string option"
  resource_id :: "string option"
  ev_payload :: json_obj
  request_id :: "string option"

datatype inject_status = Inj_pending | Inj_delivered | Inj_acked | Inj_failed | Inj_expired

record inject_row = base_row +
  inj_instance_id :: ident
  inj_kind :: string
  delivery_mode :: string
  inj_payload :: json_obj
  inj_status :: inject_status
  expires_at :: timestamp
  acked_at :: "timestamp option"
  error_message :: "string option"

datatype loop_status_t = L_idle | L_running | L_paused | L_interrupted | L_completed | L_failed

record loop_state = base_row +
  ls_instance_id :: ident
  loop_status :: loop_status_t
  current_plan_ref :: "string option"
  continuation_count :: int
  total_token_estimate :: int
  wall_clock_started_at :: "timestamp option"
  last_checkpoint_at :: "timestamp option"
  boulder_snapshot :: "json option"
  notepad_refs :: "json option"
  max_continuations :: int
  max_wall_clock_seconds :: int
  max_token_estimate :: int
  idle_timeout_seconds :: int

definition uq_loop_states_instance :: "loop_state list \<Rightarrow> bool" where
  "uq_loop_states_instance = unique_on live ls_instance_id"

record composer_message = base_row +
  cm_namespace_id :: ident
  cm_workspace_id :: ident
  cm_role :: string
  cm_content :: string
  target_entity :: "string option"
  cm_instance_id :: "ident option"
  turn_id :: "ident option"
  cm_status :: string
  author_user_id :: "ident option"

section \<open>Central hub and memory\<close>

record central_hub = base_row +
  ch_workspace_id :: ident
  ch_content :: "string option"
  manual_notes :: "string option"

definition uq_central_hubs_workspace :: "central_hub list \<Rightarrow> bool" where
  "uq_central_hubs_workspace = unique_on live ch_workspace_id"

datatype memory_kind = MK_experience | MK_lesson | MK_decision | MK_problem | MK_notepad

text \<open>The table has no \<open>updated_at\<close> column: that field of the record is unused.\<close>

record memory_row = base_row +
  mm_entity_id :: ident
  mm_kind :: memory_kind
  mm_key :: "string option"
  mm_content :: "string option"
  source_instance_id :: "ident option"

section \<open>Meetings and deploy records\<close>

datatype meeting_status = M_scheduled | M_active | M_ended | M_cancelled

record meeting = base_row +
  mt_workspace_id :: ident
  mt_title :: string
  agenda :: "string option"
  mt_status :: meeting_status
  scheduled_at :: timestamp
  ended_at :: "timestamp option"
  created_by_user_id :: ident

record meeting_participant = base_row +
  mp_meeting_id :: ident
  mp_membership_id :: ident
  role_in_meeting :: "string option"

datatype deploy_action = DA_deploy | DA_rebuild | DA_restore
datatype deploy_status = DS_pending | DS_running | DS_success | DS_failed | DS_cancelled

record deploy_record = base_row +
  dr_instance_id :: ident
  revision :: int
  dr_action :: deploy_action
  dr_status :: deploy_status
  image_version :: "string option"
  config_snapshot :: "json_obj option"
  dr_message :: "string option"
  triggered_by :: "ident option"
  started_at :: "timestamp option"
  finished_at :: "timestamp option"

section \<open>Capability market, genes, base classes\<close>

record capability_entry = base_row +
  cap_name :: string
  cap_type :: string
  cap_scope :: string
  cap_organization_id :: "ident option"
  cap_namespace_id :: "ident option"
  cap_description :: "string option"
  config_template :: "json_obj option"
  required_knowledge :: "string list option"
  cap_tags :: "string list option"
  cap_created_by :: "ident option"
  created_via :: string
  source_entity_slug :: "string option"

definition uq_capability_market_name :: "capability_entry list \<Rightarrow> bool" where
  "uq_capability_market_name = unique_on live cap_name"

record ai_gene = base_row +
  ag_slug :: string
  ag_name :: string
  ag_scope :: string
  ag_organization_id :: "ident option"
  ag_namespace_id :: "ident option"
  ag_tags :: "json list option"
  ag_manifest :: "json_obj option"
  ag_description :: "string option"

definition uq_ai_genes_slug :: "ai_gene list \<Rightarrow> bool" where
  "uq_ai_genes_slug = unique_on live ag_slug"

record base_class = base_row +
  bcl_slug :: string
  bcl_name :: string
  bcl_display_name :: "string option"
  bcl_description :: "string option"
  bcl_manifest :: "json_obj option"
  bcl_has_knowledge :: "string list option"
  bcl_scope :: string
  bcl_organization_id :: "ident option"
  bcl_namespace_id :: "ident option"
  bcl_version :: "string option"
  bcl_tags :: "string list option"

definition uq_base_classes_slug :: "base_class list \<Rightarrow> bool" where
  "uq_base_classes_slug = unique_on live bcl_slug"

record base_class_capability = base_row +
  bcc_base_class_id :: ident
  bcc_capability_id :: ident

record entity_capability = base_row +
  ec_entity_id :: ident
  ec_capability_id :: ident

record entity_ai_gene = base_row +
  eg_entity_id :: ident
  eg_ai_gene_id :: ident

record base_class_ai_gene = base_row +
  bcg_base_class_id :: ident
  bcg_ai_gene_id :: ident

section \<open>Knowledge\<close>

record knowledge_entry = base_row +
  kn_key :: string
  kn_title :: string
  kn_body :: string
  dimension_id :: "ident option"
  kn_scope :: string
  kn_organization_id :: "ident option"
  kn_namespace_id :: "ident option"
  kn_workspace_id :: "ident option"
  kn_entity_id :: "ident option"
  kn_instance_id :: "ident option"

record knowledge_dimension = base_row +
  kd_name :: string
  kd_slug :: string
  kd_description :: "string option"
  kd_scope :: string
  kd_organization_id :: "ident option"
  kd_namespace_id :: "ident option"
  kd_workspace_id :: "ident option"

section \<open>The store\<close>

record db =
  id_source :: "nat \<Rightarrow> ident"
  id_next :: nat
  organizations :: "organization list"
  namespaces :: "namespace list"
  users :: "user list"
  user_genes :: "user_gene list"
  user_user_genes :: "user_user_gene list"
  organization_contracts :: "organization_contract list"
  organization_contract_genes :: "organization_contract_gene list"
  namespace_contracts :: "namespace_contract list"
  namespace_contract_genes :: "namespace_contract_gene list"
  workspaces :: "workspace list"
  memberships :: "membership list"
  passages :: "passage list"
  entities :: "entity list"
  instances :: "instance_row list"
  events :: "event_row list"
  inject_queue :: "inject_row list"
  loop_states :: "loop_state list"
  composer_messages :: "composer_message list"
  meetings :: "meeting list"
  meeting_participants :: "meeting_participant list"
  deploy_records :: "deploy_record list"
  central_hubs :: "central_hub list"
  memories :: "memory_row list"
  capability_market :: "capability_entry list"
  ai_genes :: "ai_gene list"
  base_classes :: "base_class list"
  base_class_capabilities :: "base_class_capability list"
  entity_capabilities :: "entity_capability list"
  entity_ai_genes :: "entity_ai_gene list"
  base_class_ai_genes :: "base_class_ai_gene list"
  knowledge_entries :: "knowledge_entry list"
  knowledge_dimensions :: "knowledge_dimension list"

definition empty_db :: "(nat \<Rightarrow> ident) \<Rightarrow> db" where
  "empty_db ids = \<lparr>id_source = ids, id_next = 0, organizations = [], namespaces = [], users = [],
     user_genes = [], user_user_genes = [], organization_contracts = [],
     organization_contract_genes = [], namespace_contracts = [], namespace_contract_genes = [],
     workspaces = [], memberships = [], passages = [], entities = [], instances = [], events = [],
     inject_queue = [], loop_states = [], composer_messages = [], meetings = [],
     meeting_participants = [], deploy_records = [], central_hubs = [], memories = [],
     capability_market = [], ai_genes = [], base_classes = [], base_class_capabilities = [],
     entity_capabilities = [], entity_ai_genes = [], base_class_ai_genes = [], knowledge_entries = [],
     knowledge_dimensions = []\<rparr>"

text \<open>\<open>default=lambda: str(uuid.uuid4())\<close>: the next identifier of the stream.\<close>

definition new_id :: "'z db_scheme \<Rightarrow> ident" where
  "new_id s = id_source s (id_next s)"

definition take_id :: "'z db_scheme \<Rightarrow> 'z db_scheme" where
  "take_id s = s\<lparr>id_next := Suc (id_next s)\<rparr>"

text \<open>\<open>used_ids\<close>: the identifiers already drawn.\<close>

definition used_ids :: "'z db_scheme \<Rightarrow> ident set" where
  "used_ids s = id_source s ` {..<id_next s}"

lemma new_id_fresh: "inj (id_source s) \<Longrightarrow> new_id s \<notin> used_ids s"
  by (auto simp: new_id_def used_ids_def inj_def)

lemma used_ids_take [simp]: "used_ids (take_id s) = insert (new_id s) (used_ids s)"
  by (auto simp: used_ids_def take_id_def new_id_def lessThan_Suc)

lemma take_id_source [simp]: "id_source (take_id s) = id_source s"
  by (simp add: take_id_def)

lemma take_id_tables [simp]:
  "passages (take_id s) = passages s" "memberships (take_id s) = memberships s"
  "instances (take_id s) = instances s" "workspaces (take_id s) = workspaces s"
  "events (take_id s) = events s" "inject_queue (take_id s) = inject_queue s"
  "loop_states (take_id s) = loop_states s" "composer_messages (take_id s) = composer_messages s"
  "organizations (take_id s) = organizations s" "namespaces (take_id s) = namespaces s"
  "users (take_id s) = users s" "user_genes (take_id s) = user_genes s"
  "organization_contracts (take_id s) = organization_contracts s"
  "organization_contract_genes (take_id s) = organization_contract_genes s"
  "namespace_contracts (take_id s) = namespace_contracts s"
  "namespace_contract_genes (take_id s) = namespace_contract_genes s"
  "entities (take_id s) = entities s" "meetings (take_id s) = meetings s"
  "meeting_participants (take_id s) = meeting_participants s" "central_hubs (take_id s) = central_hubs s"
  "memories (take_id s) = memories s" "capability_market (take_id s) = capability_market s"
  "ai_genes (take_id s) = ai_genes s" "base_classes (take_id s) = base_classes s"
  "base_class_capabilities (take_id s) = base_class_capabilities s"
  "entity_capabilities (take_id s) = entity_capabilities s" "entity_ai_genes (take_id s) = entity_ai_genes s"
  "base_class_ai_genes (take_id s) = base_class_ai_genes s"
  "id_next (take_id s) = Suc (id_next s)"
  by (simp_all add: take_id_def)

section \<open>Facts about lookups\<close>

lemma get_live_SomeD:
  "get_live rows i = Some r \<Longrightarrow> r \<in> set rows \<and> row_id r = i \<and> live r"
  unfolding get_live_def by (drule first_where_SomeD) simp

lemma get_live_ex: "get_live rows i \<noteq> None \<Longrightarrow> \<exists>r \<in> set rows. row_id r = i \<and> live r"
  by (cases "get_live rows i") (auto dest: get_live_SomeD)

lemma get_live_None_iff: "get_live rows i = None \<longleftrightarrow> (\<forall>r \<in> set rows. row_id r = i \<longrightarrow> \<not> live r)"
  by (auto simp: get_live_def first_where_None_iff)

lemma get_live_Nil [simp]: "get_live [] i = None"
  by (simp add: get_live_def)

lemma get_live_Cons [simp]:
  "get_live (r # rows) i = (if row_id r = i \<and> live r then Some r else get_live rows i)"
  by (simp add: get_live_def)

lemma get_live_unique:
  assumes "distinct (map row_id rows)" and "r \<in> set rows" and "live r"
  shows "get_live rows (row_id r) = Some r"
  unfolding get_live_def
proof (rule first_where_unique)
  show "s = r" if "s \<in> set rows" "row_id s = row_id r \<and> live s" for s
    using that assms(1,2) by (meson inj_on_contraD distinct_map)
qed (use assms in auto)

lemma unique_onD:
  assumes "unique_on P key rows" and "r \<in> set rows" "s \<in> set rows" "P r" "P s" "key r = key s"
  shows "r = s"
proof -
  have "inj_on key (set (filter P rows))" using assms(1) by (simp add: unique_on_def distinct_map)
  with assms(2-6) show ?thesis by (auto dest: inj_onD)
qed

lemma unique_on_Cons [simp]:
  "unique_on P key (r # rows) \<longleftrightarrow>
   unique_on P key rows \<and> (P r \<longrightarrow> (\<forall>s \<in> set rows. P s \<longrightarrow> key r \<noteq> key s))"
  by (auto simp: unique_on_def image_iff dest: sym)

lemma unique_on_Nil [simp]: "unique_on P key []"
  by (simp add: unique_on_def)

lemma unique_on_append:
  "unique_on P key (rows @ [r]) \<longleftrightarrow>
   unique_on P key rows \<and> (P r \<longrightarrow> (\<forall>s \<in> set rows. P s \<longrightarrow> key r \<noteq> key s))"
  by (auto simp: unique_on_def image_iff dest: sym)

lemma unique_on_update:
  assumes "unique_on P key rows" and "\<And>r. Q r \<Longrightarrow> P (f r) \<Longrightarrow> P r \<and> key (f r) = key r"
  shows "unique_on P key (update_where Q f rows)"
  using assms(1)
proof (induction rows)
  case (Cons r rows)
  have head: "P r \<and> key (if Q r then f r else r) = key r" if "P (if Q r then f r else r)"
    using that assms(2) [of r] by (cases "Q r") auto
  have tail: "\<exists>u \<in> set rows. P u \<and> key t = key u"
    if "t \<in> set (update_where Q f rows)" "P t" for t
    using that assms(2) by (auto elim!: update_whereE)
  have "key (if Q r then f r else r) \<noteq> key t"
    if "t \<in> set (update_where Q f rows)" "P t" "P (if Q r then f r else r)" for t
    using head [OF that(3)] tail [OF that(1,2)] Cons.prems by auto
  with Cons show ?case by simp
qed simp

lemma same_id_row:
  "distinct (map row_id rows) \<Longrightarrow> get_live rows i = Some m \<Longrightarrow> r \<in> set rows \<Longrightarrow> row_id r = i \<Longrightarrow> r = m"
  using get_live_SomeD by (metis inj_on_contraD distinct_map)

lemma used_ids_mono:
  "id_source s' = id_source s \<Longrightarrow> id_next s \<le> id_next s' \<Longrightarrow> used_ids s \<subseteq> used_ids s'"
  by (auto simp: used_ids_def)

section \<open>An identifier stream to evaluate on\<close>

definition sample_ids :: "nat \<Rightarrow> ident" where
  "sample_ids n = replicate (Suc n) CHR ''i''"

lemma sample_ids_ok: "inj sample_ids" "sample_ids n \<noteq> []"
  by (auto simp: inj_def sample_ids_def dest: arg_cong [where f = length])

end
