(* ===== verification/Passages.thy ===== *)
theory Passages
  imports Models
begin

text \<open>
  Duplex passages between memberships (\<^verbatim>\<open>app/core/passages.py\<close>), the acyclicity check
  (\<^verbatim>\<open>app/core/topology.py\<close>) and the clean-up of edges at deleted seats
  (\<^verbatim>\<open>app/core/topology_cleanup.py\<close>). The breadth-first search is proved to decide connectivity,
  and the live active edges of a workspace are proved to stay a forest under the operations that
  consult it or delete edges.
\<close>

section \<open>Edges and neighbours\<close>

definition PASSAGE_MODE_DUAL :: string where
  "PASSAGE_MODE_DUAL = ''dual''"

definition normalize_endpoints :: "ident \<Rightarrow> ident \<Rightarrow> ident \<times> ident" where
  "normalize_endpoints a b = (if a \<le> b then (a, b) else (b, a))"

text \<open>The filter every query over passages shares: one workspace, active, not deleted.\<close>

definition active_in :: "ident \<Rightarrow> passage \<Rightarrow> bool" where
  "active_in ws p = (psg_workspace_id p = ws \<and> is_active p \<and> live p)"

definition touches :: "ident \<Rightarrow> passage \<Rightarrow> bool" where
  "touches m p = (from_membership_id p = m \<or> to_membership_id p = m)"

definition ends :: "passage \<Rightarrow> ident \<times> ident" where
  "ends p = (from_membership_id p, to_membership_id p)"

definition active_edges :: "ident \<Rightarrow> passage list \<Rightarrow> (ident \<times> ident) list" where
  "active_edges ws ps = map ends (filter (active_in ws) ps)"

definition find_active_passage_between ::
    "passage list \<Rightarrow> ident \<Rightarrow> ident \<Rightarrow> ident \<Rightarrow> passage option" where
  "find_active_passage_between ps ws a b =
     (case normalize_endpoints a b of (lo, hi) \<Rightarrow>
        first_where (\<lambda>p. active_in ws p \<and> (ends p = (lo, hi) \<or> ends p = (hi, lo))) ps)"

fun collect_neighbors :: "ident \<Rightarrow> passage list \<Rightarrow> ident list \<Rightarrow> ident list" where
  "collect_neighbors m [] acc = acc"
| "collect_neighbors m (p # ps) acc =
     (let other = (if from_membership_id p = m then to_membership_id p else from_membership_id p)
      in collect_neighbors m ps
           (if other \<noteq> [] \<and> other \<notin> set acc then acc @ [other] else acc))"

definition neighbor_membership_ids :: "passage list \<Rightarrow> ident \<Rightarrow> ident \<Rightarrow> ident list" where
  "neighbor_membership_ids ps ws m =
     collect_neighbors m (filter (\<lambda>p. active_in ws p \<and> touches m p) ps) []"

section \<open>The acyclicity check\<close>

text \<open>
  One round of the search: the rows incident to \<open>current\<close> in order; \<open>None\<close> is the early
  \<open>return False\<close>, otherwise the visited set and the queue are extended.
\<close>

definition other_end :: "ident \<Rightarrow> ident \<times> ident \<Rightarrow> ident" where
  "other_end cur e = (if fst e = cur then snd e else fst e)"

fun scan_rows ::
    "ident \<Rightarrow> ident \<Rightarrow> (ident \<times> ident) list \<Rightarrow> ident list \<Rightarrow> ident list \<Rightarrow> (ident list \<times> ident list) option"
where
  "scan_rows goal cur [] visited q = Some (visited, q)"
| "scan_rows goal cur (e # rows) visited q =
     (let nb = other_end cur e in
      if nb = goal then None
      else if nb \<notin> set visited then scan_rows goal cur rows (nb # visited) (q @ [nb])
      else scan_rows goal cur rows visited q)"

definition incident_edges :: "(ident \<times> ident) list \<Rightarrow> ident \<Rightarrow> (ident \<times> ident) list" where
  "incident_edges E v = filter (\<lambda>(a, b). a = v \<or> b = v) E"

definition vertices :: "(ident \<times> ident) list \<Rightarrow> ident set" where
  "vertices E = fst ` set E \<union> snd ` set E"

lemma finite_vertices [simp]: "finite (vertices E)"
  by (simp add: vertices_def)

lemma scan_rows_measure:
  assumes "scan_rows goal cur rows visited q = Some (visited', q')"
    and "set rows \<subseteq> set E"
  shows "card (vertices E - set visited') + length q' = card (vertices E - set visited) + length q"
  using assms
proof (induction goal cur rows visited q rule: scan_rows.induct)
  case (2 goal cur e rows visited q)
  let ?nb = "other_end cur e"
  have nbE: "?nb \<in> vertices E" using 2(4) by (force simp: vertices_def other_end_def)
  show ?case
  proof (cases "?nb \<in> set visited")
    case False
    have "vertices E - set visited = insert ?nb (vertices E - set (?nb # visited))"
      using nbE False by auto
    then have "card (vertices E - set visited) = Suc (card (vertices E - set (?nb # visited)))"
      by (metis DiffD2 card_insert_disjoint finite_Diff finite_vertices list.set_intros(1))
    moreover have "card (vertices E - set visited') + length q' =
        card (vertices E - set (?nb # visited)) + length (q @ [?nb])"
      using 2(1) 2(3,4) False by (auto simp: Let_def split: if_splits)
    ultimately show ?thesis by simp
  next
    case True
    with 2(2-4) show ?thesis by (auto simp: Let_def split: if_splits)
  qed
qed simp

function bfs_acyclic :: "(ident \<times> ident) list \<Rightarrow> ident \<Rightarrow> ident list \<Rightarrow> ident list \<Rightarrow> bool" where
  "bfs_acyclic E goal visited [] = True"
| "bfs_acyclic E goal visited (cur # q) =
     (case scan_rows goal cur (incident_edges E cur) visited q of
        None \<Rightarrow> False
      | Some (visited', q') \<Rightarrow> bfs_acyclic E goal visited' q')"
  by pat_completeness auto
termination
proof (relation "measure (\<lambda>(E, goal, visited, q). card (vertices E - set visited) + length q)")
  fix E goal visited cur q p visited' q'
  assume a: "scan_rows goal cur (incident_edges E cur) visited q = Some p" "(visited', q') = p"
  have "set (incident_edges E cur) \<subseteq> set E" by (auto simp: incident_edges_def)
  from scan_rows_measure [OF _ this] a
  show "((E, goal, visited', q'), (E, goal, visited, cur # q))
        \<in> measure (\<lambda>(E, goal, visited, q). card (vertices E - set visited) + length q)"
    by fastforce
qed simp

definition check_acyclic :: "passage list \<Rightarrow> ident \<Rightarrow> ident \<Rightarrow> ident \<Rightarrow> bool" where
  "check_acyclic ps ws from_id to_id =
     (if from_id = to_id then False
      else bfs_acyclic (active_edges ws ps) from_id [to_id] [to_id])"

section \<open>Clean-up of incident passages\<close>

definition soft_delete_passages_touching ::
    "timestamp \<Rightarrow> ident list \<Rightarrow> passage list \<Rightarrow> passage list \<times> nat" where
  "soft_delete_passages_touching now membership_ids ps =
     (let ids = filter (\<lambda>i. i \<noteq> []) membership_ids;
          hit = (\<lambda>p. live p \<and> (from_membership_id p \<in> set ids \<or> to_membership_id p \<in> set ids))
      in if ids = [] then (ps, 0)
         else (update_where hit (\<lambda>p. soft_delete now (p\<lparr>is_active := False\<rparr>)) ps,
               count_where hit ps))"

section \<open>Connectivity\<close>

definition adj :: "(ident \<times> ident) set \<Rightarrow> (ident \<times> ident) set" where
  "adj E = E \<union> E\<inverse>"

abbreviation connected :: "(ident \<times> ident) set \<Rightarrow> ident \<Rightarrow> ident \<Rightarrow> bool" where
  "connected E a b \<equiv> (a, b) \<in> (adj E)\<^sup>*"

lemma sym_adj: "sym (adj E)"
  by (auto simp: adj_def sym_def)

lemma connected_sym: "connected E a b \<Longrightarrow> connected E b a"
  using sym_rtrancl [OF sym_adj] by (auto dest: symD)

lemma connected_trans: "connected E a b \<Longrightarrow> connected E b c \<Longrightarrow> connected E a c"
  by (rule rtrancl_trans)

lemma connected_edge: "(a, b) \<in> E \<Longrightarrow> connected E a b"
  by (auto simp: adj_def)

lemma connected_mono: "E \<subseteq> F \<Longrightarrow> connected E a b \<Longrightarrow> connected F a b"
  using rtrancl_mono [of "adj E" "adj F"] by (auto simp: adj_def)

lemma connected_insert:
  "connected (insert (a, b) E) x y \<longleftrightarrow>
   connected E x y \<or> (connected E x a \<and> connected E b y) \<or> (connected E x b \<and> connected E a y)"
proof -
  have adj_ins: "adj (insert (a, b) E) = insert (a, b) (insert (b, a) (adj E))"
    by (auto simp: adj_def)
  show ?thesis
    unfolding adj_ins rtrancl_insert
    by (auto intro: connected_trans connected_sym)
qed

text \<open>What one round of the search does.\<close>

lemma scan_rows_None:
  "scan_rows goal cur rows visited q = None \<longleftrightarrow>
   goal \<in> other_end cur ` set rows"
  by (induction goal cur rows visited q rule: scan_rows.induct) (auto simp: Let_def)

lemma scan_rows_Some:
  assumes "scan_rows goal cur rows visited q = Some (visited', q')"
  shows "set visited' = set visited \<union> other_end cur ` set rows"
    and "set q' = set q \<union> (other_end cur ` set rows - set visited)"
  using assms
  by (induction goal cur rows visited q rule: scan_rows.induct)
    (auto simp: Let_def split: if_splits)

lemma incident_neighbours:
  "other_end v ` set (incident_edges E v) = {w. (v, w) \<in> adj (set E)}"
  by (auto simp: incident_edges_def adj_def image_iff other_end_def split: if_splits) force+

lemma closed_under_adj:
  assumes "start \<in> V" and "\<And>v w. v \<in> V \<Longrightarrow> (v, w) \<in> adj E \<Longrightarrow> w \<in> V" and "connected E start x"
  shows "x \<in> V"
  using assms(3,1) by (induction rule: rtrancl_induct) (auto intro: assms(2))

text \<open>
  The search invariant: everything visited is connected to the start, the goal has not been seen,
  and the neighbours of a visited vertex that is no longer queued have been visited.
\<close>

definition bfs_inv ::
    "(ident \<times> ident) set \<Rightarrow> ident \<Rightarrow> ident \<Rightarrow> ident set \<Rightarrow> ident set \<Rightarrow> bool" where
  "bfs_inv E start goal V Q \<longleftrightarrow>
     start \<in> V \<and> goal \<notin> V \<and> Q \<subseteq> V \<and> (\<forall>v \<in> V. connected E start v) \<and>
     (\<forall>v \<in> V - Q. \<forall>w. (v, w) \<in> adj E \<longrightarrow> w \<in> V)"

lemma bfs_inv_step:
  assumes inv: "bfs_inv (set E) start goal (set V) (set (cur # Q))"
    and step: "scan_rows goal cur (incident_edges E cur) V Q = Some (V', Q')"
  shows "bfs_inv (set E) start goal (set V') (set Q')"
proof -
  let ?N = "{w. (cur, w) \<in> adj (set E)}"
  have V': "set V' = set V \<union> ?N" and Q': "set Q' = set Q \<union> (?N - set V)"
    using scan_rows_Some [OF step] by (simp_all add: incident_neighbours)
  have goal: "goal \<notin> ?N"
    using step scan_rows_None [of goal cur "incident_edges E cur" V Q]
    unfolding incident_neighbours by simp
  have conn: "connected (set E) start w" if "w \<in> ?N" for w
  proof -
    have "connected (set E) start cur" using inv by (simp add: bfs_inv_def)
    with that show ?thesis by (simp add: rtrancl_into_rtrancl)
  qed
  have closed: "w \<in> set V'" if "v \<in> set V' - set Q'" "(v, w) \<in> adj (set E)" for v w
  proof -
    have v: "v \<in> set V" "v \<notin> set Q" using that(1) V' Q' by auto
    show ?thesis
    proof (cases "v = cur")
      case False
      with v have "v \<in> set V - set (cur # Q)" by simp
      with inv that(2) have "w \<in> set V" unfolding bfs_inv_def by blast
      then show ?thesis by (simp add: V')
    qed (use that(2) V' in simp)
  qed
  have old: "start \<in> set V" "goal \<notin> set V" "set Q \<subseteq> set V"
      "\<And>v. v \<in> set V \<Longrightarrow> connected (set E) start v"
    using inv by (simp_all add: bfs_inv_def)
  show ?thesis
    unfolding bfs_inv_def
  proof (intro conjI ballI allI impI)
    show "set Q' \<subseteq> set V'" using old(3) V' Q' by auto
    show "connected (set E) start v" if "v \<in> set V'" for v
      using that V' old(4) conn by auto
  qed (use old goal closed V' in auto)
qed

lemma bfs_acyclic_correct:
  "bfs_inv (set E) start goal (set V) (set Q) \<Longrightarrow>
   bfs_acyclic E goal V Q \<longleftrightarrow> \<not> connected (set E) start goal"
proof (induction E goal V Q rule: bfs_acyclic.induct)
  case (1 E goal V)
  then have "connected (set E) start goal \<Longrightarrow> goal \<in> set V"
    by (intro closed_under_adj [of start "set V" "set E" goal]) (auto simp: bfs_inv_def)
  with 1 show ?case by (auto simp: bfs_inv_def)
next
  case (2 E goal V cur Q)
  show ?case
  proof (cases "scan_rows goal cur (incident_edges E cur) V Q")
    case None
    then have "(cur, goal) \<in> adj (set E)" unfolding scan_rows_None incident_neighbours by simp
    moreover have "connected (set E) start cur" using 2(2) by (simp add: bfs_inv_def)
    ultimately have "connected (set E) start goal" by (rule rtrancl_into_rtrancl [rotated])
    then show ?thesis using None by simp
  next
    case (Some p)
    then obtain V' Q' where p: "scan_rows goal cur (incident_edges E cur) V Q = Some (V', Q')"
      by (cases p) auto
    show ?thesis using 2(1) [OF p refl bfs_inv_step [OF 2(2) p]] p by simp
  qed
qed

lemma check_acyclic_iff:
  "check_acyclic ps ws a b \<longleftrightarrow> \<not> connected (set (active_edges ws ps)) a b"
proof (cases "a = b")
  case False
  have "bfs_inv (set (active_edges ws ps)) b a (set [b]) (set [b])"
    using False by (simp add: bfs_inv_def)
  from bfs_acyclic_correct [OF this] False show ?thesis
    by (auto simp: check_acyclic_def dest: connected_sym)
qed (simp add: check_acyclic_def)

section \<open>Forests\<close>

text \<open>Every edge occurs once and is a bridge: removing it separates its end points.\<close>

definition forest :: "(ident \<times> ident) list \<Rightarrow> bool" where
  "forest E \<longleftrightarrow> distinct E \<and> (\<forall>(a, b) \<in> set E. \<not> connected (set E - {(a, b)}) a b)"

lemma forest_Nil [simp]: "forest []"
  by (simp add: forest_def)

lemma forest_single: "a \<noteq> b \<Longrightarrow> forest [(a, b)]"
  by (simp add: forest_def adj_def)

lemma forest_bridge: "forest E \<Longrightarrow> e \<in> set E \<Longrightarrow> \<not> connected (set E - {e}) (fst e) (snd e)"
  by (cases e) (auto simp: forest_def)

lemma forest_subset:
  assumes "forest E" and "distinct F" and "set F \<subseteq> set E"
  shows "forest F"
proof -
  have "\<not> connected (set F - {e}) (fst e) (snd e)" if "e \<in> set F" for e
    using forest_bridge [OF assms(1)] assms(3) that
      connected_mono [of "set F - {e}" "set E - {e}"] by blast
  with assms(2) show ?thesis by (auto simp: forest_def)
qed

lemma forest_add:
  assumes F: "forest E" and new: "\<not> connected (set E) a b"
  shows "forest (E @ [(a, b)])"
proof -
  have fresh: "(a, b) \<notin> set E" using new connected_edge by blast
  have bridge: "\<not> connected (insert (a, b) (set E - {(u, v)})) u v" if uv: "(u, v) \<in> set E" for u v
  proof
    let ?R = "set E - {(u, v)}"
    have sub: "connected ?R x y \<Longrightarrow> connected (set E) x y" for x y
      by (rule connected_mono) auto
    have uvE: "connected (set E) u v" "connected (set E) v u"
      using connected_edge [OF uv] connected_sym by auto
    assume "connected (insert (a, b) ?R) u v"
    moreover have "\<not> connected ?R u v" using F uv by (auto simp: forest_def)
    ultimately consider "connected ?R u a" "connected ?R b v" | "connected ?R u b" "connected ?R a v"
      by (auto simp: connected_insert)
    then have "connected (set E) a b"
      by cases (meson sub uvE connected_sym connected_trans)+
    with new show False by contradiction
  qed
  have "insert (a, b) (set E) - {(u, v)} = insert (a, b) (set E - {(u, v)})" if "(u, v) \<in> set E" for u v
    using that fresh by auto
  with F new fresh bridge show ?thesis
    by (auto simp: forest_def)
qed

text \<open>Deleting or deactivating passages only removes edges.\<close>

lemma active_edges_append:
  "active_edges ws (ps @ [p]) = active_edges ws ps @ (if active_in ws p then [ends p] else [])"
  by (simp add: active_edges_def)

lemma active_edges_update_drop:
  assumes "\<And>p. P p \<Longrightarrow> \<not> active_in ws (f p)"
  shows "active_edges ws (update_where P f ps) = map ends (filter (\<lambda>p. active_in ws p \<and> \<not> P p) ps)"
  unfolding active_edges_def by (subst filter_update_where_drop) (auto simp: assms)

lemma forest_update_drop:
  assumes "forest (active_edges ws ps)" and "\<And>p. P p \<Longrightarrow> \<not> active_in ws (f p)"
  shows "forest (active_edges ws (update_where P f ps))"
proof (rule forest_subset [OF assms(1)])
  let ?F = "map ends (filter (\<lambda>p. active_in ws p \<and> \<not> P p) ps)"
  have eq: "active_edges ws (update_where P f ps) = ?F"
    using assms(2) by (rule active_edges_update_drop)
  have "distinct (map ends (filter (active_in ws) ps))"
    using assms(1) by (simp add: forest_def active_edges_def)
  then have "distinct (map ends (filter (\<lambda>p. \<not> P p) (filter (active_in ws) ps)))"
    by (rule distinct_map_filter)
  then show "distinct (active_edges ws (update_where P f ps))"
    by (simp add: eq conj_commute)
  show "set (active_edges ws (update_where P f ps)) \<subseteq> set (active_edges ws ps)"
    unfolding eq by (auto simp: active_edges_def)
qed

lemma forest_update_same:
  assumes "forest (active_edges ws ps)"
    and "\<And>p. P p \<Longrightarrow> active_in ws (f p) = active_in ws p \<and> ends (f p) = ends p"
  shows "forest (active_edges ws (update_where P f ps))"
proof -
  have "filter (active_in ws) (update_where P f ps) = update_where P f (filter (active_in ws) ps)"
    using assms(2) by (intro filter_update_where_same) simp
  then have "active_edges ws (update_where P f ps) = active_edges ws ps"
    unfolding active_edges_def using assms(2) by (simp add: map_update_where)
  with assms(1) show ?thesis by simp
qed

definition topology_ok :: "passage list \<Rightarrow> bool" where
  "topology_ok ps \<longleftrightarrow> (\<forall>ws. forest (active_edges ws ps))"

lemma topology_ok_Nil [simp, inv_intros]: "topology_ok []"
  by (simp add: topology_ok_def active_edges_def)

lemma topology_ok_touching [inv_intros]:
  "topology_ok ps \<Longrightarrow> topology_ok (fst (soft_delete_passages_touching now ids ps))"
  by (auto simp: topology_ok_def soft_delete_passages_touching_def Let_def active_in_def
      intro!: forest_update_drop)

lemma topology_ok_update_drop:
  assumes "topology_ok ps" and "\<And>p. P p \<Longrightarrow> \<not> (is_active (f p) \<and> live (f p))"
  shows "topology_ok (update_where P f ps)"
  using assms by (auto simp: topology_ok_def active_in_def intro!: forest_update_drop)

lemma topology_ok_add:
  assumes "topology_ok ps" and "check_acyclic ps (psg_workspace_id p) (from_membership_id p) (to_membership_id p)"
  shows "topology_ok (ps @ [p])"
  using assms
  by (auto simp: topology_ok_def active_edges_append active_in_def ends_def check_acyclic_iff
      intro: forest_add)

section \<open>Neighbours as an undirected graph\<close>

lemma collect_neighbors_set:
  "set (collect_neighbors m ps acc) = set acc \<union>
     {w. w \<noteq> [] \<and> (\<exists>p \<in> set ps. w = (if from_membership_id p = m then to_membership_id p else from_membership_id p))}"
  by (induction m ps acc rule: collect_neighbors.induct) (auto simp: Let_def)

lemma collect_neighbors_distinct:
  "distinct acc \<Longrightarrow> distinct (collect_neighbors m ps acc)"
  by (induction m ps acc rule: collect_neighbors.induct) (auto simp: Let_def)

lemma neighbors_adj:
  "w \<in> set (neighbor_membership_ids ps ws m) \<longleftrightarrow> w \<noteq> [] \<and> (m, w) \<in> adj (set (active_edges ws ps))"
  by (auto simp: neighbor_membership_ids_def collect_neighbors_set adj_def active_edges_def
      touches_def ends_def image_iff; fastforce)

end
