(* ===== verification/Messaging.thy ===== *)
theory Messaging
  imports Passages
begin

text \<open>
  Membership and passage endpoints (\<^verbatim>\<open>app/api/v1/messaging.py\<close>), with their request bodies
  (\<^verbatim>\<open>app/schemas/membership.py\<close>, \<^verbatim>\<open>app/schemas/passage.py\<close>) and the contract they ensure
  (\<^verbatim>\<open>app/core/namespace_contract.py\<close>). A handler returns the error it raises or the committed
  store with its answer; an error leaves the caller with the store it had (the session is rolled
  back). A failed flush or commit that the handler does not catch is \<open>unhandled_error\<close>. The
  best-effort Kubernetes calls, which swallow every exception, are a list of commands.
\<close>

section \<open>Contracts\<close>

definition ensure_namespace_contract ::
    "timestamp \<Rightarrow> ident \<Rightarrow> ident \<Rightarrow> db \<Rightarrow> (db \<times> namespace_contract) result" where
  "ensure_namespace_contract now ns uid s =
     (case first_where (\<lambda>c. nc_namespace_id c = ns \<and> nc_user_id c = uid \<and> live c)
             (namespace_contracts s) of
        Some c \<Rightarrow> Inr (s, c)
      | None \<Rightarrow>
          let c = \<lparr>row_id = new_id s, created_at = now, updated_at = now, deleted_at = None,
                    nc_namespace_id = ns, nc_user_id = uid\<rparr>
          in if fk_exists (namespaces s) ns \<and> fk_exists (users s) uid
             then Inr ((take_id s)\<lparr>namespace_contracts := namespace_contracts s @ [c]\<rparr>, c)
             else Inl unhandled_error)"

section \<open>Memberships\<close>

record membership_create =
  mc_workspace_id :: ident
  mc_user_id :: "ident option"
  mc_instance_id :: "ident option"
  mc_posx :: int
  mc_posy :: int

text \<open>The model validator of the body: exactly one of the two is given.\<close>

definition check_exclusive_fk :: "membership_create \<Rightarrow> bool" where
  "check_exclusive_fk b = ((mc_user_id b = None) \<noteq> (mc_instance_id b = None))"

record membership_update =
  mu_posx :: "int patch"
  mu_posy :: "int patch"

definition list_memberships ::
    "ident \<Rightarrow> string option \<Rightarrow> nat \<Rightarrow> nat \<Rightarrow> db \<Rightarrow> membership list \<times> nat" where
  "list_memberships ws kind offset limit s =
     (let base = sort_key created_at
             (filter (\<lambda>m. live m \<and> mem_workspace_id m = ws) (memberships s));
          rows = (if kind = Some ''user'' then filter (\<lambda>m. mem_user_id m \<noteq> None) base
                  else if kind = Some ''instance''
                  then filter (\<lambda>m. mem_instance_id m \<noteq> None) base else base)
      in (take limit (drop offset rows), length rows))"

definition get_membership :: "ident \<Rightarrow> db \<Rightarrow> membership result" where
  "get_membership mid s =
     (case get_live (memberships s) mid of
        None \<Rightarrow> Inl (NotFoundError ''membership.not_found'' ''errors.membership.not_found'')
      | Some m \<Rightarrow> Inr m)"

text \<open>What the database checks when a new or changed membership row is flushed.\<close>

definition memberships_integrity :: "'z db_scheme \<Rightarrow> membership list \<Rightarrow> membership \<Rightarrow> bool" where
  "memberships_integrity s rows m \<longleftrightarrow>
     fk_exists (workspaces s) (mem_workspace_id m) \<and>
     list_all (fk_exists (users s)) (case mem_user_id m of None \<Rightarrow> [] | Some u \<Rightarrow> [u]) \<and>
     list_all (fk_exists (instances s)) (case mem_instance_id m of None \<Rightarrow> [] | Some i \<Rightarrow> [i]) \<and>
     ck_memberships_exclusive_fk rows \<and> uq_memberships_workspace_user rows \<and>
     uq_memberships_workspace_instance rows \<and> uq_memberships_workspace_pos rows"

definition same_seat :: "membership_create \<Rightarrow> membership \<Rightarrow> bool" where
  "same_seat b m \<longleftrightarrow> mem_workspace_id m = mc_workspace_id b \<and>
     (if mc_user_id b \<noteq> None then mem_user_id m = mc_user_id b
      else mc_instance_id b \<noteq> None \<and> mem_instance_id m = mc_instance_id b)"

definition ensure_seat_contract ::
    "timestamp \<Rightarrow> ident \<Rightarrow> ident option \<Rightarrow> db \<Rightarrow> db result" where
  "ensure_seat_contract now ns uid s =
     (case uid of None \<Rightarrow> Inr s
      | Some u \<Rightarrow> (case ensure_namespace_contract now ns u s of
                    Inl e \<Rightarrow> Inl e | Inr (s', _) \<Rightarrow> Inr s'))"

definition create_membership ::
    "timestamp \<Rightarrow> membership_create \<Rightarrow> db \<Rightarrow> (db \<times> membership) result" where
  "create_membership now b s =
     (if \<not> check_exclusive_fk b then Inl request_validation_error
      else case get_live (workspaces s) (mc_workspace_id b) of
        None \<Rightarrow> Inl (NotFoundError ''workspace.not_found'' ''errors.workspace.not_found'')
      | Some w \<Rightarrow>
         (case first_where (same_seat b) (memberships s) of
            Some m \<Rightarrow>
              if live m
              then Inl (ConflictError ''membership.duplicate'' ''errors.membership.duplicate'')
              else (case ensure_seat_contract now (ws_namespace_id w) (mc_user_id b) s of
                      Inl e \<Rightarrow> Inl e
                    | Inr s1 \<Rightarrow>
                        let m' = touch now (m\<lparr>deleted_at := None, posx := mc_posx b, posy := mc_posy b\<rparr>);
                            rows = update_where (\<lambda>r. row_id r = row_id m) (\<lambda>_. m') (memberships s1)
                        in if memberships_integrity s1 rows m'
                           then Inr (s1\<lparr>memberships := rows\<rparr>, m')
                           else Inl unhandled_error)
          | None \<Rightarrow>
              (case ensure_seat_contract now (ws_namespace_id w) (mc_user_id b) s of
                 Inl e \<Rightarrow> Inl e
               | Inr s1 \<Rightarrow>
                   let m = \<lparr>row_id = new_id s1, created_at = now, updated_at = now,
                             deleted_at = None, mem_workspace_id = mc_workspace_id b,
                             mem_user_id = mc_user_id b, mem_instance_id = mc_instance_id b,
                             posx = mc_posx b, posy = mc_posy b, mem_permissions = None\<rparr>;
                       rows = memberships s1 @ [m]
                   in if memberships_integrity s1 rows m
                      then Inr ((take_id s1)\<lparr>memberships := rows\<rparr>, m)
                      else Inl (ConflictError ''membership.position_taken''
                                              ''errors.membership.position_taken''))))"

definition update_membership ::
    "timestamp \<Rightarrow> ident \<Rightarrow> membership_update \<Rightarrow> db \<Rightarrow> (db \<times> membership) result" where
  "update_membership now mid b s =
     (case get_live (memberships s) mid of
        None \<Rightarrow> Inl (NotFoundError ''membership.not_found'' ''errors.membership.not_found'')
      | Some m \<Rightarrow>
          let taken = Inl (ConflictError ''membership.position_taken''
                                         ''errors.membership.position_taken'')
          in if mu_posx b = Some None \<or> mu_posy b = Some None then taken
             else let m1 = (case mu_posx b of Some (Some x) \<Rightarrow> m\<lparr>posx := x\<rparr> | _ \<Rightarrow> m);
                      m2 = (case mu_posy b of Some (Some y) \<Rightarrow> m1\<lparr>posy := y\<rparr> | _ \<Rightarrow> m1);
                      m' = modified now m m2;
                      rows = update_where (\<lambda>r. row_id r = mid) (\<lambda>_. m') (memberships s)
                  in if uq_memberships_workspace_pos rows
                     then Inr (s\<lparr>memberships := rows\<rparr>, m')
                     else taken)"

datatype runtime_cmd = Scale_runtime ident nat | Teardown_namespace ident

definition set_passages :: "passage list \<Rightarrow> db \<Rightarrow> db" where
  "set_passages ps s = s\<lparr>passages := ps\<rparr>"

definition delete_membership ::
    "timestamp \<Rightarrow> ident \<Rightarrow> db \<Rightarrow> (db \<times> runtime_cmd list) result" where
  "delete_membership now mid s =
     (case get_live (memberships s) mid of
        None \<Rightarrow> Inl (NotFoundError ''membership.not_found'' ''errors.membership.not_found'')
      | Some m \<Rightarrow>
         (case (case mem_instance_id m of None \<Rightarrow> None | Some iid \<Rightarrow> get_live (instances s) iid) of
            Some i \<Rightarrow>
              let iid = row_id i;
                  seat = (\<lambda>r. mem_instance_id r = Some iid \<and> live r);
                  sibling_ids = map row_id (filter seat (memberships s));
                  s1 = s\<lparr>instances := update_where (\<lambda>r. row_id r = iid)
                                       (\<lambda>r. soft_delete now (r\<lparr>ins_status := I_deleting\<rparr>)) (instances s),
                         memberships := update_where seat (soft_delete now) (memberships s)\<rparr>
              in Inr (set_passages (fst (soft_delete_passages_touching now sibling_ids (passages s1))) s1,
                      (if ins_status i = I_running then [Scale_runtime iid 0] else [])
                        @ [Teardown_namespace iid])
          | None \<Rightarrow>
              let s1 = s\<lparr>memberships := update_where (\<lambda>r. row_id r = mid) (soft_delete now)
                                         (memberships s)\<rparr>
              in Inr (set_passages (fst (soft_delete_passages_touching now [mid] (passages s1))) s1,
                      [])))"

section \<open>Passages\<close>

record passage_create =
  pc_workspace_id :: ident
  pc_from_membership_id :: ident
  pc_to_membership_id :: ident
  pc_is_active :: bool
  pc_edge_meta :: "json_obj option"

record passage_update =
  pu_is_active :: "bool patch"
  pu_edge_meta :: "json_obj patch"

definition list_passages :: "ident \<Rightarrow> nat \<Rightarrow> nat \<Rightarrow> db \<Rightarrow> passage list \<times> nat" where
  "list_passages ws offset limit s =
     (let rows = sort_key created_at (filter (\<lambda>p. live p \<and> psg_workspace_id p = ws) (passages s))
      in (take limit (drop offset rows), length rows))"

definition get_passage :: "ident \<Rightarrow> db \<Rightarrow> passage result" where
  "get_passage pid s =
     (case get_live (passages s) pid of
        None \<Rightarrow> Inl (NotFoundError ''passage.not_found'' ''errors.passage.not_found'')
      | Some p \<Rightarrow> Inr p)"

text \<open>The row of either orientation for the pair, deleted rows included.\<close>

definition pair_row :: "ident \<Rightarrow> ident \<Rightarrow> ident \<Rightarrow> passage \<Rightarrow> bool" where
  "pair_row ws a b p \<longleftrightarrow> psg_workspace_id p = ws \<and> (ends p = (a, b) \<or> ends p = (b, a))"

definition create_passage ::
    "timestamp \<Rightarrow> passage_create \<Rightarrow> db \<Rightarrow> (db \<times> passage) result" where
  "create_passage now b s =
     (case normalize_endpoints (pc_from_membership_id b) (pc_to_membership_id b) of (from_id, to_id) \<Rightarrow>
      if get_live (memberships s) from_id = None \<or> get_live (memberships s) to_id = None
      then Inl (NotFoundError ''membership.not_found'' ''errors.membership.not_found'')
      else case first_where (pair_row (pc_workspace_id b) from_id to_id) (passages s) of
        Some p \<Rightarrow>
          if live p then Inl (ConflictError ''passage.duplicate'' ''errors.passage.duplicate'')
          else let p' = touch now (p\<lparr>deleted_at := None, is_active := True,
                          psg_mode := PASSAGE_MODE_DUAL,
                          from_membership_id := from_id, to_membership_id := to_id\<rparr>);
                   rows = update_where (\<lambda>r. row_id r = row_id p) (\<lambda>_. p') (passages s)
               in if uq_passages_active_edge rows then Inr (set_passages rows s, p')
                  else Inl unhandled_error
      | None \<Rightarrow>
          if \<not> check_acyclic (passages s) (pc_workspace_id b) from_id to_id
          then Inl (ConflictError ''passage.would_create_cycle'' ''errors.passage.would_create_cycle'')
          else let p = \<lparr>row_id = new_id s, created_at = now, updated_at = now, deleted_at = None,
                         psg_workspace_id = pc_workspace_id b, from_membership_id = from_id,
                         to_membership_id = to_id, is_active = True,
                         psg_mode = PASSAGE_MODE_DUAL, edge_meta = pc_edge_meta b\<rparr>;
                   rows = passages s @ [p]
               in if fk_exists (workspaces s) (pc_workspace_id b) \<and> uq_passages_active_edge rows
                  then Inr (set_passages rows (take_id s), p)
                  else Inl (ConflictError ''passage.duplicate'' ''errors.passage.duplicate''))"

definition update_passage ::
    "timestamp \<Rightarrow> ident \<Rightarrow> passage_update \<Rightarrow> db \<Rightarrow> (db \<times> passage) result" where
  "update_passage now pid b s =
     (case get_live (passages s) pid of
        None \<Rightarrow> Inl (NotFoundError ''passage.not_found'' ''errors.passage.not_found'')
      | Some p \<Rightarrow>
          if pu_is_active b = Some None then Inl unhandled_error
          else let p1 = (case pu_is_active b of Some (Some v) \<Rightarrow> p\<lparr>is_active := v\<rparr> | _ \<Rightarrow> p);
                   p2 = (case pu_edge_meta b of Some v \<Rightarrow> p1\<lparr>edge_meta := v\<rparr> | _ \<Rightarrow> p1);
                   p' = modified now p p2;
                   rows = update_where (\<lambda>r. row_id r = pid) (\<lambda>_. p') (passages s)
               in if uq_passages_active_edge rows then Inr (set_passages rows s, p')
                  else Inl unhandled_error)"

definition delete_passage :: "timestamp \<Rightarrow> ident \<Rightarrow> db \<Rightarrow> db result" where
  "delete_passage now pid s =
     (case get_live (passages s) pid of
        None \<Rightarrow> Inl (NotFoundError ''passage.not_found'' ''errors.passage.not_found'')
      | Some p \<Rightarrow>
          Inr (set_passages (update_where (\<lambda>r. row_id r = pid) (soft_delete now) (passages s)) s))"

section \<open>What each operation does to the tables\<close>

lemma set_passages_simps [simp]:
  "passages (set_passages ps s) = ps" "memberships (set_passages ps s) = memberships s"
  "instances (set_passages ps s) = instances s" "id_source (set_passages ps s) = id_source s"
  "users (set_passages ps s) = users s" "workspaces (set_passages ps s) = workspaces s"
  "id_next (set_passages ps s) = id_next s"
  by (simp_all add: set_passages_def)

lemma ensure_seat_contract_frame [frame_simps]:
  assumes "ensure_seat_contract now ns uid s = Inr s'"
  shows "passages s' = passages s" "memberships s' = memberships s" "instances s' = instances s"
    "id_source s' = id_source s" "workspaces s' = workspaces s" "users s' = users s"
  using assms
  by (auto simp: ensure_seat_contract_def ensure_namespace_contract_def Let_def take_id_def
      split: option.splits if_splits)

text \<open>The outcomes of \<open>create_membership\<close>: a reactivated row or a new one.\<close>

lemma create_membership_cases:
  assumes "create_membership now b s = Inr (s', m')"
  obtains (reactivate) w m s1 where
      "get_live (workspaces s) (mc_workspace_id b) = Some w"
      "first_where (same_seat b) (memberships s) = Some m" "\<not> live m"
      "ensure_seat_contract now (ws_namespace_id w) (mc_user_id b) s = Inr s1"
      "m' = touch now (m\<lparr>deleted_at := None, posx := mc_posx b, posy := mc_posy b\<rparr>)"
      "s' = s1\<lparr>memberships := update_where (\<lambda>r. row_id r = row_id m) (\<lambda>_. m') (memberships s)\<rparr>"
      "memberships_integrity s1 (memberships s') m'"
  | (fresh) w s1 where
      "get_live (workspaces s) (mc_workspace_id b) = Some w"
      "first_where (same_seat b) (memberships s) = None"
      "ensure_seat_contract now (ws_namespace_id w) (mc_user_id b) s = Inr s1"
      "live m'" "row_id m' = new_id s1" "mem_workspace_id m' = mc_workspace_id b"
      "s' = (take_id s1)\<lparr>memberships := memberships s @ [m']\<rparr>"
      "memberships_integrity s1 (memberships s') m'"
proof -
  from assms obtain w where w: "get_live (workspaces s) (mc_workspace_id b) = Some w"
    and rest: "check_exclusive_fk b"
    by (auto simp: create_membership_def split: if_splits option.splits)
  show thesis
  proof (cases "first_where (same_seat b) (memberships s)")
    case None
    with assms w rest show thesis
      by (auto simp: create_membership_def Let_def live_def split: sum.splits if_splits
          dest: ensure_seat_contract_frame intro!: fresh)
  next
    case (Some m)
    with assms w rest show thesis
      by (auto simp: create_membership_def Let_def split: sum.splits if_splits
          dest: ensure_seat_contract_frame intro!: reactivate)
  qed
qed

lemma update_membership_cases:
  assumes "update_membership now mid b s = Inr (s', m')"
  obtains m where "get_live (memberships s) mid = Some m"
    "s' = s\<lparr>memberships := update_where (\<lambda>r. row_id r = mid) (\<lambda>_. m') (memberships s)\<rparr>"
    "live m'" "row_id m' = mid" "mem_workspace_id m' = mem_workspace_id m"
    "mem_user_id m' = mem_user_id m" "mem_instance_id m' = mem_instance_id m"
    "uq_memberships_workspace_pos (memberships s')"
proof -
  from assms obtain m where m: "get_live (memberships s) mid = Some m"
    by (auto simp: update_membership_def split: option.splits)
  then have "live m" "row_id m = mid" using get_live_SomeD by blast+
  with assms m show thesis
    by (auto simp: update_membership_def Let_def modified_def touch_def live_def
        split: option.splits if_splits intro!: that)
qed

lemma delete_membership_cases:
  assumes "delete_membership now mid s = Inr (s', cmds)"
  obtains P ids where
    "memberships s' = update_where P (soft_delete now) (memberships s)"
    "passages s' = fst (soft_delete_passages_touching now ids (passages s))"
    "\<And>r. r \<in> set (memberships s) \<Longrightarrow> P r \<Longrightarrow> live r \<Longrightarrow> row_id r \<in> set ids"
    "id_source s' = id_source s" "id_next s' = id_next s"
proof -
  from assms obtain m where m: "get_live (memberships s) mid = Some m"
    by (auto simp: delete_membership_def split: option.splits)
  let ?i = "case mem_instance_id m of None \<Rightarrow> None | Some iid \<Rightarrow> get_live (instances s) iid"
  show thesis
  proof (cases ?i)
    case None
    with assms m show thesis
      by (auto simp: delete_membership_def Let_def
          intro!: that [of "\<lambda>r. row_id r = mid" "[mid]"])
  next
    case (Some i)
    with assms m show thesis
      by (auto simp: delete_membership_def Let_def
          intro!: that [of "\<lambda>r. mem_instance_id r = Some (row_id i) \<and> live r"
            "map row_id (filter (\<lambda>r. mem_instance_id r = Some (row_id i) \<and> live r) (memberships s))"])
  qed
qed

lemma create_passage_cases:
  assumes "create_passage now b s = Inr (s', p')"
  obtains (reactivate) p where
      "first_where (pair_row (pc_workspace_id b) (from_membership_id p') (to_membership_id p'))
         (passages s) = Some p" "\<not> live p"
      "s' = set_passages (update_where (\<lambda>r. row_id r = row_id p) (\<lambda>_. p') (passages s)) s"
      "row_id p' = row_id p" "psg_workspace_id p' = pc_workspace_id b" "live p'" "is_active p'"
      "ends p' = normalize_endpoints (pc_from_membership_id b) (pc_to_membership_id b)"
      "get_live (memberships s) (from_membership_id p') \<noteq> None"
      "get_live (memberships s) (to_membership_id p') \<noteq> None"
  | (fresh)
      "first_where (pair_row (pc_workspace_id b) (from_membership_id p') (to_membership_id p'))
         (passages s) = None"
      "check_acyclic (passages s) (pc_workspace_id b) (from_membership_id p') (to_membership_id p')"
      "s' = set_passages (passages s @ [p']) (take_id s)" "row_id p' = new_id s"
      "psg_workspace_id p' = pc_workspace_id b" "live p'" "is_active p'"
      "ends p' = normalize_endpoints (pc_from_membership_id b) (pc_to_membership_id b)"
      "get_live (memberships s) (from_membership_id p') \<noteq> None"
      "get_live (memberships s) (to_membership_id p') \<noteq> None"
proof -
  obtain a c where ac: "normalize_endpoints (pc_from_membership_id b) (pc_to_membership_id b) = (a, c)"
    by (cases "normalize_endpoints (pc_from_membership_id b) (pc_to_membership_id b)")
  have seats: "get_live (memberships s) a \<noteq> None" "get_live (memberships s) c \<noteq> None"
    using assms ac by (auto simp: create_passage_def split: if_splits)
  show thesis
  proof (cases "first_where (pair_row (pc_workspace_id b) a c) (passages s)")
    case None
    with assms ac seats show thesis
      by (auto simp: create_passage_def Let_def ends_def live_def split: if_splits intro!: fresh)
  next
    case (Some p)
    then have "psg_workspace_id p = pc_workspace_id b"
      by (auto dest: first_where_SomeD simp: pair_row_def)
    with Some assms ac seats show thesis
      by (auto simp: create_passage_def Let_def ends_def live_def touch_def split: if_splits
          intro!: reactivate)
  qed
qed

lemma update_passage_cases:
  assumes "update_passage now pid b s = Inr (s', p')"
  obtains p where "get_live (passages s) pid = Some p"
    "s' = set_passages (update_where (\<lambda>r. row_id r = pid) (\<lambda>_. p') (passages s)) s"
    "row_id p' = pid" "live p'" "ends p' = ends p" "psg_workspace_id p' = psg_workspace_id p"
    "pu_is_active b = None \<Longrightarrow> is_active p' = is_active p"
proof -
  from assms obtain p where p: "get_live (passages s) pid = Some p"
    by (auto simp: update_passage_def split: option.splits)
  then have "live p" "row_id p = pid" using get_live_SomeD by blast+
  with assms p show thesis
    by (auto simp: update_passage_def Let_def modified_def touch_def live_def ends_def
        split: option.splits if_splits intro!: that)
qed

lemma delete_passage_cases:
  assumes "delete_passage now pid s = Inr s'"
  shows "s' = set_passages (update_where (\<lambda>r. row_id r = pid) (soft_delete now) (passages s)) s"
  using assms by (auto simp: delete_passage_def split: option.splits)

section \<open>The messaging endpoints as a step relation\<close>

inductive messaging_step :: "db \<Rightarrow> db \<Rightarrow> bool" where
  m_create: "create_membership now b s = Inr (s', m) \<Longrightarrow> messaging_step s s'"
| m_update: "update_membership now mid u s = Inr (s', m) \<Longrightarrow> messaging_step s s'"
| m_delete: "delete_membership now mid s = Inr (s', cmds) \<Longrightarrow> messaging_step s s'"
| p_create: "create_passage now c s = Inr (s', p) \<Longrightarrow> messaging_step s s'"
| p_update: "update_passage now pid v s = Inr (s', p) \<Longrightarrow> messaging_step s s'"
| p_delete: "delete_passage now pid s = Inr s' \<Longrightarrow> messaging_step s s'"

text \<open>
  The steps that consult the acyclicity check or only remove edges: a passage is created for a pair
  without an earlier row, and an update does not switch a passage on.
\<close>

inductive tree_step :: "db \<Rightarrow> db \<Rightarrow> bool" where
  t_m_create: "create_membership now b s = Inr (s', m) \<Longrightarrow> tree_step s s'"
| t_m_update: "update_membership now mid u s = Inr (s', m) \<Longrightarrow> tree_step s s'"
| t_m_delete: "delete_membership now mid s = Inr (s', cmds) \<Longrightarrow> tree_step s s'"
| t_p_create: "create_passage now c s = Inr (s', p) \<Longrightarrow>
    first_where (pair_row (pc_workspace_id c) (from_membership_id p) (to_membership_id p))
      (passages s) = None \<Longrightarrow> tree_step s s'"
| t_p_update: "update_passage now pid v s = Inr (s', p) \<Longrightarrow> pu_is_active v = None \<Longrightarrow> tree_step s s'"
| t_p_delete: "delete_passage now pid s = Inr s' \<Longrightarrow> tree_step s s'"

lemma tree_step_messaging: "tree_step s s' \<Longrightarrow> messaging_step s s'"
  by (erule tree_step.cases) (auto intro: messaging_step.intros)

section \<open>Primary keys\<close>

definition keys_ok :: "db \<Rightarrow> bool" where
  "keys_ok s \<longleftrightarrow> inj (id_source s) \<and> (\<forall>n. id_source s n \<noteq> []) \<and>
     distinct (map row_id (memberships s)) \<and> row_id ` set (memberships s) \<subseteq> used_ids s \<and>
     distinct (map row_id (passages s)) \<and> row_id ` set (passages s) \<subseteq> used_ids s"

lemma ensure_seat_contract_ids:
  assumes "ensure_seat_contract now ns uid s = Inr s'"
  shows "used_ids s \<subseteq> used_ids s'"
proof (rule used_ids_mono)
  show "id_source s' = id_source s" using ensure_seat_contract_frame [OF assms] by simp
  show "id_next s \<le> id_next s'" using assms
    by (auto simp: ensure_seat_contract_def ensure_namespace_contract_def Let_def take_id_def
        split: option.splits if_splits)
qed

lemma used_ids_update [simp]:
  "used_ids (s\<lparr>memberships := ms\<rparr>) = used_ids s" "used_ids (set_passages ps s) = used_ids s"
  by (simp_all add: used_ids_def set_passages_def)

lemma map_row_id_update [simp]:
  "(\<And>r. P r \<Longrightarrow> row_id (f r) = row_id r) \<Longrightarrow> map row_id (update_where P f rows) = map row_id rows"
  by (rule map_update_where)

lemma map_row_id_touching [simp]:
  "map row_id (fst (soft_delete_passages_touching now ids ps)) = map row_id ps"
  by (simp add: soft_delete_passages_touching_def Let_def)

lemma keys_ok_frame:
  assumes "keys_ok s" "id_source s' = id_source s" "used_ids s \<subseteq> used_ids s'"
    and "map row_id (memberships s') = map row_id (memberships s)"
    and "map row_id (passages s') = map row_id (passages s)"
  shows "keys_ok s'"
proof -
  have "row_id ` set (memberships s') = row_id ` set (memberships s)"
    and "row_id ` set (passages s') = row_id ` set (passages s)"
    using assms(4,5) by (metis set_map)+
  with assms show ?thesis by (auto simp: keys_ok_def)
qed

lemma new_id_ok: "keys_ok s \<Longrightarrow> new_id s \<notin> used_ids s \<and> new_id s \<noteq> []"
  by (auto simp: keys_ok_def new_id_fresh) (simp add: new_id_def)

lemma keys_ok_step [inv_intros]:
  assumes "messaging_step s s'" and ok: "keys_ok s"
  shows "keys_ok s'"
  using assms(1)
proof cases
  case (m_create now b m)
  then show ?thesis
  proof (cases rule: create_membership_cases)
    case (reactivate w r s1)
    have "map row_id (memberships s') = map row_id (memberships s)"
      using reactivate by simp
    with reactivate ok show ?thesis
      using ensure_seat_contract_frame [of now _ _ s s1] ensure_seat_contract_ids
      by (intro keys_ok_frame [OF ok]) auto
  next
    case (fresh w s1)
    note f = ensure_seat_contract_frame [OF fresh(3)]
    have ok1: "keys_ok s1"
      by (rule keys_ok_frame [OF ok]) (use f ensure_seat_contract_ids [OF fresh(3)] in auto)
    with new_id_ok [OF ok1] fresh f show ?thesis
      by (auto simp: keys_ok_def)
  qed
next
  case (m_update now mid u m)
  then show ?thesis
    by (cases rule: update_membership_cases) (auto intro!: keys_ok_frame [OF ok])
next
  case (m_delete now mid cmds)
  then show ?thesis
    by (cases rule: delete_membership_cases) (auto intro!: keys_ok_frame [OF ok] simp: used_ids_def)
next
  case (p_create now c p)
  then show ?thesis
  proof (cases rule: create_passage_cases)
    case (reactivate q)
    then show ?thesis by (auto intro!: keys_ok_frame [OF ok])
  next
    case fresh
    with new_id_ok [OF ok] ok show ?thesis by (auto simp: keys_ok_def)
  qed
next
  case (p_update now pid v p)
  then show ?thesis
    by (cases rule: update_passage_cases) (auto intro!: keys_ok_frame [OF ok])
next
  case (p_delete now pid)
  from delete_passage_cases [OF this] show ?thesis
    by (auto intro!: keys_ok_frame [OF ok])
qed

section \<open>Seats stay unique\<close>

definition seats_ok :: "membership list \<Rightarrow> bool" where
  "seats_ok rows \<longleftrightarrow> ck_memberships_exclusive_fk rows \<and> uq_memberships_workspace_user rows \<and>
     uq_memberships_workspace_instance rows \<and> uq_memberships_workspace_pos rows"

lemma memberships_integrity_seats: "memberships_integrity s rows m \<Longrightarrow> seats_ok rows"
  by (simp add: memberships_integrity_def seats_ok_def)

lemma ck_memberships_update:
  assumes "ck_memberships_exclusive_fk rows"
    and "\<And>r. r \<in> set rows \<Longrightarrow> P r \<Longrightarrow>
           mem_user_id (f r) = mem_user_id r \<and> mem_instance_id (f r) = mem_instance_id r"
  shows "ck_memberships_exclusive_fk (update_where P f rows)"
  using assms by (auto simp: ck_memberships_exclusive_fk_def list_all_iff elim!: update_whereE)

lemma soft_delete_seat [simp]:
  "mem_user_id (soft_delete now r) = mem_user_id r"
  "mem_instance_id (soft_delete now r) = mem_instance_id r"
  "mem_workspace_id (soft_delete now r) = mem_workspace_id r"
  "posx (soft_delete now r) = posx r" "posy (soft_delete now r) = posy r"
  by (simp_all add: soft_delete_def touch_def)

lemma seats_ok_soft_delete:
  "seats_ok rows \<Longrightarrow> seats_ok (update_where P (soft_delete now) rows)"
  by (auto simp: seats_ok_def uq_memberships_workspace_user_def uq_memberships_workspace_pos_def
      uq_memberships_workspace_instance_def intro!: ck_memberships_update unique_on_update)

text \<open>Replacing the rows of one identifier by a row with the same owner and workspace.\<close>

lemma update_where_cong:
  "(\<And>r. r \<in> set rows \<Longrightarrow> P r \<Longrightarrow> f r = g r) \<Longrightarrow> update_where P f rows = update_where P g rows"
  by (induction rows) auto

lemma seats_ok_move:
  assumes ok: "seats_ok rows" and d: "distinct (map row_id rows)"
    and m: "get_live rows mid = Some m" and live: "live m'"
    and same: "mem_workspace_id m' = mem_workspace_id m" "mem_user_id m' = mem_user_id m"
      "mem_instance_id m' = mem_instance_id m"
    and pos: "uq_memberships_workspace_pos (update_where (\<lambda>r. row_id r = mid) (\<lambda>_. m') rows)"
  shows "seats_ok (update_where (\<lambda>r. row_id r = mid) (\<lambda>_. m') rows)"
proof -
  let ?U = "update_where (\<lambda>r. row_id r = mid) (\<lambda>_. m') rows"
  let ?f = "\<lambda>r. if r = m then m' else r"
  have eq: "?U = update_where (\<lambda>r. row_id r = mid) ?f rows"
    by (rule update_where_cong) (simp add: same_id_row [OF d m])
  have lm: "live m" using m get_live_SomeD by blast
  have "ck_memberships_exclusive_fk ?U"
    by (rule ck_memberships_update)
      (use ok same same_id_row [OF d m] in \<open>auto simp: seats_ok_def\<close>)
  moreover have "uq_memberships_workspace_user ?U" "uq_memberships_workspace_instance ?U"
    using ok same lm unfolding eq seats_ok_def uq_memberships_workspace_user_def
      uq_memberships_workspace_instance_def
    by (auto intro!: unique_on_update split: if_splits)
  ultimately show ?thesis using pos by (simp add: seats_ok_def)
qed

lemma seats_ok_step [inv_intros]:
  assumes "messaging_step s s'" and keys: "keys_ok s" and ok: "seats_ok (memberships s)"
  shows "seats_ok (memberships s')"
  using assms(1)
proof cases
  case (m_create now b m)
  then show ?thesis
    by (cases rule: create_membership_cases) (auto dest: memberships_integrity_seats)
next
  case (m_update now mid u m)
  then show ?thesis
  proof (cases rule: update_membership_cases)
    case (1 r)
    with keys ok seats_ok_move [of "memberships s" mid r m] show ?thesis
      by (simp add: keys_ok_def)
  qed
next
  case (m_delete now mid cmds)
  then show ?thesis by (cases rule: delete_membership_cases) (simp add: ok seats_ok_soft_delete)
next
  case (p_create now c p)
  then show ?thesis by (cases rule: create_passage_cases) (auto simp: ok)
next
  case (p_update now pid v p)
  then show ?thesis by (cases rule: update_passage_cases) (simp add: ok)
next
  case (p_delete now pid)
  from delete_passage_cases [OF this] show ?thesis by (simp add: ok)
qed

section \<open>No edge at a deleted seat\<close>

definition no_zombies :: "db \<Rightarrow> bool" where
  "no_zombies s \<longleftrightarrow> (\<forall>p \<in> set (passages s). live p \<longrightarrow>
     get_live (memberships s) (from_membership_id p) \<noteq> None \<and>
     get_live (memberships s) (to_membership_id p) \<noteq> None)"

lemma get_live_append: "get_live rows i \<noteq> None \<Longrightarrow> get_live (rows @ xs) i \<noteq> None"
  by (auto simp: get_live_None_iff)

lemma get_live_update:
  assumes "get_live rows i \<noteq> None"
    and "\<And>r. r \<in> set rows \<Longrightarrow> P r \<Longrightarrow> live r \<Longrightarrow> row_id r = i \<Longrightarrow> row_id (f r) = i \<and> live (f r)"
  shows "get_live (update_where P f rows) i \<noteq> None"
proof -
  obtain r where r: "r \<in> set rows" "row_id r = i" "live r"
    using get_live_ex [OF assms(1)] by blast
  then have "(if P r then f r else r) \<in> set (update_where P f rows)"
    by (auto simp: update_where_hit update_where_keep)
  with r assms(2) show ?thesis by (auto simp: get_live_None_iff split: if_splits)
qed

lemma no_zombies_memberships:
  assumes "no_zombies s" and "passages s' = passages s"
    and "\<And>i. get_live (memberships s) i \<noteq> None \<Longrightarrow> get_live (memberships s') i \<noteq> None"
  shows "no_zombies s'"
  using assms by (auto simp: no_zombies_def)

lemma touching_survivor:
  assumes "p \<in> set (fst (soft_delete_passages_touching now ids ps))" and "live p"
  shows "p \<in> set ps \<and> (from_membership_id p \<in> set ids \<longrightarrow> from_membership_id p = []) \<and>
         (to_membership_id p \<in> set ids \<longrightarrow> to_membership_id p = [])"
  using assms
  by (auto simp: soft_delete_passages_touching_def Let_def filter_empty_conv
      split: if_splits elim!: update_whereE)

lemma no_zombies_step [inv_intros]:
  assumes "messaging_step s s'" and keys: "keys_ok s" and ok: "no_zombies s"
  shows "no_zombies s'"
  using assms(1)
proof cases
  case (m_create now b m)
  then show ?thesis
  proof (cases rule: create_membership_cases)
    case (reactivate w r s1)
    have m': "row_id m = row_id r" "live m"
      unfolding reactivate(5) by (simp_all add: live_def)
    have "get_live (memberships s') i \<noteq> None" if "get_live (memberships s) i \<noteq> None" for i
    proof -
      have "get_live (update_where (\<lambda>q. row_id q = row_id r) (\<lambda>_. m) (memberships s)) i \<noteq> None"
        by (rule get_live_update [OF that]) (simp_all add: m')
      then show ?thesis by (simp add: reactivate(6))
    qed
    then show ?thesis
      by (intro no_zombies_memberships [OF ok])
        (simp_all add: reactivate(6) ensure_seat_contract_frame [OF reactivate(4)])
  next
    case (fresh w s1)
    have "get_live (memberships s') i \<noteq> None" if "get_live (memberships s) i \<noteq> None" for i
      using get_live_append [OF that] by (simp add: fresh(7))
    then show ?thesis
      by (intro no_zombies_memberships [OF ok])
        (simp_all add: fresh(7) ensure_seat_contract_frame [OF fresh(3)])
  qed
next
  case (m_update now mid u m)
  then show ?thesis
  proof (cases rule: update_membership_cases)
    case (1 r)
    have "get_live (memberships s') i \<noteq> None" if "get_live (memberships s) i \<noteq> None" for i
    proof -
      have "get_live (update_where (\<lambda>q. row_id q = mid) (\<lambda>_. m) (memberships s)) i \<noteq> None"
        by (rule get_live_update [OF that]) (simp_all add: 1)
      then show ?thesis by (simp add: 1(2))
    qed
    then show ?thesis by (intro no_zombies_memberships [OF ok]) (simp_all add: 1(2))
  qed
next
  case (m_delete now mid cmds)
  then show ?thesis
  proof (cases rule: delete_membership_cases)
    case (1 P ids)
    have keep: "get_live (memberships s') i \<noteq> None"
      if "get_live (memberships s) i \<noteq> None" "i \<notin> set ids" for i
      unfolding 1(1) using that 1(3) by (intro get_live_update) auto
    have ne: "i \<noteq> []" if seat: "get_live (memberships s) i \<noteq> None" for i
    proof -
      obtain r where "r \<in> set (memberships s)" "row_id r = i"
        using get_live_ex [OF seat] by blast
      with keys show ?thesis by (auto simp: keys_ok_def used_ids_def)
    qed
    have "get_live (memberships s') (from_membership_id p) \<noteq> None \<and>
          get_live (memberships s') (to_membership_id p) \<noteq> None"
      if p: "p \<in> set (passages s')" "live p" for p
    proof -
      note q = touching_survivor [OF p(1) [unfolded 1(2)] p(2)]
      with ok p(2) have "get_live (memberships s) (from_membership_id p) \<noteq> None"
        "get_live (memberships s) (to_membership_id p) \<noteq> None"
        unfolding no_zombies_def by blast+
      with q keep ne show ?thesis by blast
    qed
    then show ?thesis unfolding no_zombies_def by blast
  qed
next
  case (p_create now c p)
  then show ?thesis
    by (cases rule: create_passage_cases)
      (use ok in \<open>auto simp: no_zombies_def elim!: update_whereE\<close>)
next
  case (p_update now pid v p)
  then show ?thesis
  proof (cases rule: update_passage_cases)
    case (1 q)
    with ok get_live_SomeD [OF 1(1)] show ?thesis
      by (auto simp: no_zombies_def ends_def elim!: update_whereE)
  qed
next
  case (p_delete now pid)
  from delete_passage_cases [OF this] ok show ?thesis
    by (auto simp: no_zombies_def elim!: update_whereE)
qed

section \<open>The topology stays a forest\<close>

lemma ends_eq [simp]: "ends p = (from_membership_id p, to_membership_id p)"
  by (simp add: ends_def)

lemma forest_update_id:
  assumes "forest (active_edges ws ps)" and d: "distinct (map row_id ps)"
    and q: "get_live ps pid = Some q"
    and same: "ends p = ends q" "psg_workspace_id p = psg_workspace_id q" "is_active p = is_active q"
      "live p"
  shows "forest (active_edges ws (update_where (\<lambda>r. row_id r = pid) (\<lambda>_. p) ps))"
proof -
  have lq: "live q" using q get_live_SomeD by blast
  let ?f = "\<lambda>r. if r = q then p else r"
  have "update_where (\<lambda>r. row_id r = pid) (\<lambda>_. p) ps = update_where (\<lambda>r. row_id r = pid) ?f ps"
    by (rule update_where_cong) (simp add: same_id_row [OF d q])
  moreover have "active_in ws (?f r) = active_in ws r \<and> ends (?f r) = ends r" for r
    using same lq by (cases "r = q") (simp_all add: active_in_def)
  ultimately show ?thesis by (simp only:) (rule forest_update_same [OF assms(1)])
qed

lemma topology_ok_tree_step [inv_intros]:
  assumes "tree_step s s'" and keys: "keys_ok s" and ok: "topology_ok (passages s)"
  shows "topology_ok (passages s')"
  using assms(1)
proof cases
  case (t_m_create now b m)
  then show ?thesis
    by (cases rule: create_membership_cases) (auto simp: ok dest: ensure_seat_contract_frame)
next
  case (t_m_update now mid u m)
  then show ?thesis by (cases rule: update_membership_cases) (simp add: ok)
next
  case (t_m_delete now mid cmds)
  then show ?thesis by (cases rule: delete_membership_cases) (simp add: topology_ok_touching ok)
next
  case (t_p_create now c p)
  from t_p_create(1) show ?thesis
    by (cases rule: create_passage_cases) (use t_p_create(2) ok in \<open>auto intro: topology_ok_add\<close>)
next
  case (t_p_update now pid v p)
  from t_p_update(1) show ?thesis
  proof (cases rule: update_passage_cases)
    case (1 q)
    with ok keys t_p_update(2) forest_update_id [of _ "passages s" pid q p] show ?thesis
      by (simp add: topology_ok_def keys_ok_def)
  qed
next
  case (t_p_delete now pid)
  from delete_passage_cases [OF this] show ?thesis
    by (simp add: topology_ok_update_drop ok)
qed

text \<open>The three store invariants together, along any run of the endpoints.\<close>

lemma messaging_run_ok:
  assumes "messaging_step\<^sup>*\<^sup>* s s'" "keys_ok s" "seats_ok (memberships s)" "no_zombies s"
  shows "keys_ok s' \<and> seats_ok (memberships s') \<and> no_zombies s'"
  using assms
  by (induction rule: rtranclp_induct) (simp_all add: keys_ok_step seats_ok_step no_zombies_step)

lemma tree_run_ok:
  assumes "tree_step\<^sup>*\<^sup>* s s'" "keys_ok s" "topology_ok (passages s)"
  shows "keys_ok s' \<and> topology_ok (passages s')"
  using assms
proof (induction rule: rtranclp_induct)
  case (step y z)
  then have y: "keys_ok y" "topology_ok (passages y)" by auto
  show ?case
    using keys_ok_step [OF tree_step_messaging [OF step.hyps(2)] y(1)]
      topology_ok_tree_step [OF step.hyps(2) y] by simp
qed simp

section \<open>A store to evaluate on\<close>

text \<open>Three seats of one workspace; two live edges and one deleted edge between them.\<close>

definition sample_seat :: "ident \<Rightarrow> int \<Rightarrow> membership" where
  "sample_seat i x = \<lparr>row_id = i, created_at = 0, updated_at = 0, deleted_at = None,
     mem_workspace_id = ''w'', mem_user_id = Some i, mem_instance_id = None,
     posx = x, posy = 0, mem_permissions = None\<rparr>"

definition sample_edge :: "ident \<Rightarrow> ident \<Rightarrow> ident \<Rightarrow> timestamp option \<Rightarrow> passage" where
  "sample_edge i a b del = \<lparr>row_id = i, created_at = 0, updated_at = 0, deleted_at = del,
     psg_workspace_id = ''w'', from_membership_id = a, to_membership_id = b,
     is_active = (del = None), psg_mode = ''dual'', edge_meta = None\<rparr>"

definition sample_workspace :: workspace where
  "sample_workspace = \<lparr>row_id = ''w'', created_at = 0, updated_at = 0, deleted_at = None,
     ws_namespace_id = ''ns'', ws_name = ''w'', ws_slug = ''w''\<rparr>"

definition sample_topology :: "passage list \<Rightarrow> db" where
  "sample_topology ps = (empty_db sample_ids)\<lparr>id_next := 6, workspaces := [sample_workspace],
     memberships := [sample_seat ''i'' 0, sample_seat ''ii'' 1, sample_seat ''iii'' 2],
     passages := ps\<rparr>"

definition sample_body :: "ident \<Rightarrow> ident \<Rightarrow> passage_create" where
  "sample_body a b = \<lparr>pc_workspace_id = ''w'', pc_from_membership_id = a,
     pc_to_membership_id = b, pc_is_active = True, pc_edge_meta = None\<rparr>"

lemmas sample_defs = sample_ids_def sample_seat_def sample_edge_def sample_workspace_def
  sample_topology_def sample_body_def empty_db_def

lemma sample_used: "n < 6 \<Longrightarrow> sample_ids n \<in> used_ids (sample_topology ps)"
  by (auto simp: used_ids_def sample_topology_def empty_db_def)

lemma sample_keys_ok: "keys_ok (sample_topology [])"
proof -
  have "''i'' \<in> used_ids (sample_topology [])" "''ii'' \<in> used_ids (sample_topology [])"
    "''iii'' \<in> used_ids (sample_topology [])"
    using sample_used [of 0 "[]"] sample_used [of 1 "[]"] sample_used [of 2 "[]"]
    by (simp_all add: sample_ids_def numeral_2_eq_2)
  then show ?thesis
    unfolding keys_ok_def
    by (simp add: sample_topology_def empty_db_def sample_ids_ok sample_seat_def)
qed

section \<open>Properties\<close>



lemma sample_create_passage:
  "\<exists>s' p. create_passage 5 (sample_body ''i'' ''ii'') (sample_topology []) = Inr (s', p) \<and>
     first_where (pair_row ''w'' (from_membership_id p) (to_membership_id p)) [] = None \<and>
     passages s' = [p] \<and> memberships s' = memberships (sample_topology [])"
  by (simp add: create_passage_def normalize_endpoints_def sample_defs sample_ids_def Let_def live_def
      check_acyclic_def active_edges_def incident_edges_def fk_exists_def
      uq_passages_active_edge_def)

text \<open>
  C2. Starting from a forest, every run of the endpoints that adds passages through the acyclicity
  check (a pair without an earlier row), creates, moves or deletes seats, edits or deletes passages
  leaves every workspace's live active passages a forest.
\<close>

theorem topology_forest_invariant:
  assumes "tree_step\<^sup>*\<^sup>* s s'" and "keys_ok s" and "topology_ok (passages s)"
  shows "forest (active_edges ws (passages s'))"
  using tree_run_ok [OF assms] by (simp add: topology_ok_def)

lemma topology_forest_invariant_witness:
  "\<exists>s' p. create_passage 5 (sample_body ''i'' ''ii'') (sample_topology []) = Inr (s', p) \<and>
     forest (active_edges ''w'' (passages s'))"
proof -
  obtain s' p where r: "create_passage 5 (sample_body ''i'' ''ii'') (sample_topology []) = Inr (s', p)"
    "first_where (pair_row ''w'' (from_membership_id p) (to_membership_id p)) [] = None"
    using sample_create_passage by blast
  have "tree_step (sample_topology []) s'"
    by (rule t_p_create [OF r(1)]) (simp add: sample_body_def sample_topology_def)
  then have "forest (active_edges ''w'' (passages s'))"
    by (intro topology_forest_invariant [OF r_into_rtranclp sample_keys_ok])
      (simp_all add: sample_topology_def)
  with r(1) show ?thesis by blast
qed

text \<open>
  C8. No zombie edges and no shared seats: along every run of the endpoints, reactivations and
  switches included, a live passage joins two live memberships, no position of a workspace carries
  two live memberships, and no user or instance has two of them in one workspace.
\<close>

theorem messaging_store_invariant:
  assumes "messaging_step\<^sup>*\<^sup>* s s'" and "keys_ok s" and "seats_ok (memberships s)"
    and "no_zombies s"
  shows "no_zombies s' \<and> seats_ok (memberships s')"
  using messaging_run_ok [OF assms] by simp

lemma messaging_store_invariant_witness:
  "\<exists>s' p. create_passage 5 (sample_body ''i'' ''ii'') (sample_topology []) = Inr (s', p) \<and>
     no_zombies s' \<and> seats_ok (memberships s') \<and> passages s' \<noteq> []"
proof -
  obtain s' p where r: "create_passage 5 (sample_body ''i'' ''ii'') (sample_topology []) = Inr (s', p)"
    "passages s' = [p]"
    using sample_create_passage by blast
  have "messaging_step (sample_topology []) s'" by (rule p_create [OF r(1)])
  moreover have "seats_ok (memberships (sample_topology []))"
    by (simp add: seats_ok_def ck_memberships_exclusive_fk_def uq_memberships_workspace_user_def
        uq_memberships_workspace_instance_def uq_memberships_workspace_pos_def sample_defs)
  ultimately have "no_zombies s' \<and> seats_ok (memberships s')"
    by (intro messaging_store_invariant [OF r_into_rtranclp sample_keys_ok])
      (simp_all add: sample_topology_def no_zombies_def)
  with r show ?thesis by auto
qed

lemma forest_unique_edges:
  assumes "\<And>ws. distinct (active_edges ws ps)"
  shows "uq_passages_active_edge ps"
  unfolding uq_passages_active_edge_def using assms
proof (induction ps)
  case (Cons p ps)
  have "distinct (active_edges ws ps)" for ws
    using Cons.prems [of ws] by (simp add: active_edges_def split: if_splits)
  moreover have "(psg_workspace_id p, from_membership_id p, to_membership_id p)
      \<noteq> (psg_workspace_id q, from_membership_id q, to_membership_id q)"
    if "q \<in> set ps" "is_active q \<and> live q" "is_active p \<and> live p" for q
  proof
    assume eq: "(psg_workspace_id p, from_membership_id p, to_membership_id p)
      = (psg_workspace_id q, from_membership_id q, to_membership_id q)"
    then have "ends p \<in> set (active_edges (psg_workspace_id p) ps)"
      using that by (force simp: active_edges_def active_in_def)
    with Cons.prems [of "psg_workspace_id p"] that show False
      by (simp add: active_edges_def active_in_def)
  qed
  ultimately show ?case using Cons.IH by simp
qed simp

text \<open>
  What creating a passage between two seats without an earlier row answers: 404 if a seat is not
  live, 409 if the seats are already connected, and otherwise the new passage in canonical
  orientation, active and dual; on a forest the unique index then never rejects it.
\<close>

theorem create_passage_outcome:
  assumes "topology_ok (passages s)" and "fk_exists (workspaces s) (pc_workspace_id b)"
    and "normalize_endpoints (pc_from_membership_id b) (pc_to_membership_id b) = (lo, hi)"
    and "first_where (pair_row (pc_workspace_id b) lo hi) (passages s) = None"
  shows "create_passage now b s =
    (if get_live (memberships s) lo = None \<or> get_live (memberships s) hi = None
     then Inl (NotFoundError ''membership.not_found'' ''errors.membership.not_found'')
     else if connected (set (active_edges (pc_workspace_id b) (passages s))) lo hi
     then Inl (ConflictError ''passage.would_create_cycle'' ''errors.passage.would_create_cycle'')
     else let p = \<lparr>row_id = new_id s, created_at = now, updated_at = now, deleted_at = None,
                    psg_workspace_id = pc_workspace_id b, from_membership_id = lo,
                    to_membership_id = hi, is_active = True, psg_mode = ''dual'',
                    edge_meta = pc_edge_meta b\<rparr>
          in Inr (set_passages (passages s @ [p]) (take_id s), p))"
proof -
  have old: "uq_passages_active_edge (passages s)"
    using assms(1) by (intro forest_unique_edges) (simp add: topology_ok_def forest_def)
  have uq: "uq_passages_active_edge (passages s @ [p])"
    if "psg_workspace_id p = pc_workspace_id b" "from_membership_id p = lo" "to_membership_id p = hi"
    for p
    using old assms(4) that
    by (auto simp: uq_passages_active_edge_def unique_on_append first_where_None_iff pair_row_def)
  show ?thesis
    using assms(2-4) by (simp add: create_passage_def Let_def check_acyclic_iff PASSAGE_MODE_DUAL_def uq)
qed

lemma create_passage_outcome_witness:
  "create_passage 5 (sample_body ''ii'' ''zz'') (sample_topology []) =
     Inl (NotFoundError ''membership.not_found'' ''errors.membership.not_found'')"
  by (subst create_passage_outcome [where lo = "''ii''" and hi = "''zz''"])
    (simp_all add: sample_defs normalize_endpoints_def fk_exists_def)


end
