(* ===== verification/Events.thy ===== *)
theory Events
  imports Models
begin

text \<open>
  The in-process event dispatcher (\<^verbatim>\<open>app/core/events.py\<close>) and the event types the model uses
  (\<^verbatim>\<open>app/core/event_types.py\<close>). A handler is a state transformer together with the flag that
  it raised; the dispatcher keeps what the handler did and drops the exception. The state is any
  extension of the store, so that handlers may also change process-local state.
\<close>

section \<open>Event types\<close>

definition HARNESS_LOOP_STARTED :: string where "HARNESS_LOOP_STARTED = ''harness.loop_started''"
definition HARNESS_CHECKPOINT :: string where "HARNESS_CHECKPOINT = ''harness.checkpoint''"
definition HARNESS_CONTINUATION_INJECTED :: string where
  "HARNESS_CONTINUATION_INJECTED = ''harness.continuation_injected''"
definition HARNESS_LOOP_STOPPED :: string where "HARNESS_LOOP_STOPPED = ''harness.loop_stopped''"
definition HARNESS_BREAKER_TRIPPED :: string where
  "HARNESS_BREAKER_TRIPPED = ''harness.breaker_tripped''"
definition HARNESS_PAUSED :: string where "HARNESS_PAUSED = ''harness.paused''"
definition HARNESS_RESUMED :: string where "HARNESS_RESUMED = ''harness.resumed''"
definition HARNESS_INTERRUPTED :: string where "HARNESS_INTERRUPTED = ''harness.interrupted''"
definition HARNESS_CONTROL_SENT :: string where "HARNESS_CONTROL_SENT = ''harness.control_sent''"
definition MESSAGING_MESSAGE_SENT :: string where
  "MESSAGING_MESSAGE_SENT = ''messaging.message_sent''"
definition MESSAGING_DELIVERY_BLOCKED :: string where
  "MESSAGING_DELIVERY_BLOCKED = ''messaging.delivery_blocked''"
definition MESSAGING_ACTIVATION_TRIGGERED :: string where
  "MESSAGING_ACTIVATION_TRIGGERED = ''messaging.activation_triggered''"
definition CHAT_RESPONSE_CHUNK :: string where "CHAT_RESPONSE_CHUNK = ''chat.response.chunk''"
definition CHAT_RESPONSE_DONE :: string where "CHAT_RESPONSE_DONE = ''chat.response.done''"
definition CHAT_RESPONSE_ERROR :: string where "CHAT_RESPONSE_ERROR = ''chat.response.error''"
definition CHAT_RESPONSE_ACTIVITY :: string where
  "CHAT_RESPONSE_ACTIVITY = ''chat.response.activity''"
definition LEARNING_CAPABILITY_INJECTED :: string where
  "LEARNING_CAPABILITY_INJECTED = ''learning.capability_injected''"
definition LEARNING_GENE_INJECTED :: string where
  "LEARNING_GENE_INJECTED = ''learning.gene_injected''"
definition HARNESS_INJECT_REQUESTED :: string where
  "HARNESS_INJECT_REQUESTED = ''harness.inject_requested''"
definition HARNESS_INJECT_APPLIED :: string where
  "HARNESS_INJECT_APPLIED = ''harness.inject_applied''"
definition HARNESS_INJECT_FAILED :: string where
  "HARNESS_INJECT_FAILED = ''harness.inject_failed''"

lemmas event_types =
  HARNESS_LOOP_STARTED_def HARNESS_CHECKPOINT_def HARNESS_CONTINUATION_INJECTED_def
  HARNESS_LOOP_STOPPED_def HARNESS_BREAKER_TRIPPED_def HARNESS_PAUSED_def HARNESS_RESUMED_def
  HARNESS_INTERRUPTED_def HARNESS_CONTROL_SENT_def MESSAGING_MESSAGE_SENT_def
  MESSAGING_DELIVERY_BLOCKED_def MESSAGING_ACTIVATION_TRIGGERED_def
  CHAT_RESPONSE_CHUNK_def CHAT_RESPONSE_DONE_def CHAT_RESPONSE_ERROR_def CHAT_RESPONSE_ACTIVITY_def
  LEARNING_CAPABILITY_INJECTED_def LEARNING_GENE_INJECTED_def HARNESS_INJECT_REQUESTED_def
  HARNESS_INJECT_APPLIED_def HARNESS_INJECT_FAILED_def

definition SYSTEM_STARTUP :: string where "SYSTEM_STARTUP = ''system.startup''"
definition SYSTEM_SHUTDOWN :: string where "SYSTEM_SHUTDOWN = ''system.shutdown''"
definition FORNIX_FILE_CREATED :: string where "FORNIX_FILE_CREATED = ''fornix.file_created''"
definition FORNIX_FILE_UPDATED :: string where "FORNIX_FILE_UPDATED = ''fornix.file_updated''"
definition FORNIX_FILE_ARCHIVED :: string where "FORNIX_FILE_ARCHIVED = ''fornix.file_archived''"
definition FORNIX_FILE_RESTORED :: string where "FORNIX_FILE_RESTORED = ''fornix.file_restored''"
definition FORNIX_SYNC_FAILED :: string where "FORNIX_SYNC_FAILED = ''fornix.sync_failed''"
definition FORNIX_FILE_WRITTEN :: string where "FORNIX_FILE_WRITTEN = ''fornix.file_written''"
definition MEMORY_ENTRY_APPENDED :: string where "MEMORY_ENTRY_APPENDED = ''memory.entry_appended''"
definition INSTANCE_CREATED :: string where "INSTANCE_CREATED = ''instance.created''"
definition INSTANCE_DEPLOYED :: string where "INSTANCE_DEPLOYED = ''instance.deployed''"
definition INSTANCE_STARTED :: string where "INSTANCE_STARTED = ''instance.started''"
definition INSTANCE_RESTARTED :: string where "INSTANCE_RESTARTED = ''instance.restarted''"
definition INSTANCE_STOPPED :: string where "INSTANCE_STOPPED = ''instance.stopped''"
definition INSTANCE_FAILED :: string where "INSTANCE_FAILED = ''instance.failed''"
definition INSTANCE_DELETED :: string where "INSTANCE_DELETED = ''instance.deleted''"
definition LEARNING_DISTILLATION_COMPLETED :: string where
  "LEARNING_DISTILLATION_COMPLETED = ''learning.distillation_completed''"
definition LEARNING_REAPED :: string where "LEARNING_REAPED = ''learning.reaped''"
definition LEARNING_PROMOTED :: string where "LEARNING_PROMOTED = ''learning.promoted''"
definition LEARNING_TRANSMUTED :: string where "LEARNING_TRANSMUTED = ''learning.transmuted''"
definition LEARNING_COMPOSED :: string where "LEARNING_COMPOSED = ''learning.composed''"
definition LEARNING_NOTEPAD_MIGRATION_ORPHAN :: string where
  "LEARNING_NOTEPAD_MIGRATION_ORPHAN = ''learning.notepad_migration_orphan''"
definition HARNESS_REPORT_RECEIVED :: string where
  "HARNESS_REPORT_RECEIVED = ''harness.report_received''"
definition INSTANCE_BATCH_RESTARTED :: string where
  "INSTANCE_BATCH_RESTARTED = ''instance.batch_restarted''"
definition INSTANCE_KNOWLEDGE_INCONSISTENT :: string where
  "INSTANCE_KNOWLEDGE_INCONSISTENT = ''instance.knowledge_inconsistent''"
definition BASE_CLASS_CLONED :: string where "BASE_CLASS_CLONED = ''base_class.cloned''"
definition ENTITY_CLONED :: string where "ENTITY_CLONED = ''entity.cloned''"
definition ORGANIZATION_CLONED :: string where "ORGANIZATION_CLONED = ''organization.cloned''"
definition WORKSPACE_CLONED :: string where "WORKSPACE_CLONED = ''workspace.cloned''"
definition WORKSPACE_CLONE_PASSAGE_DROPPED :: string where
  "WORKSPACE_CLONE_PASSAGE_DROPPED = ''workspace.clone_passage_dropped''"
definition MEETING_CREATED :: string where "MEETING_CREATED = ''meeting.created''"
definition MEETING_STARTED :: string where "MEETING_STARTED = ''meeting.started''"
definition MEETING_ENDED :: string where "MEETING_ENDED = ''meeting.ended''"
definition MEETING_CANCELLED :: string where "MEETING_CANCELLED = ''meeting.cancelled''"
definition MEETING_PARTICIPANT_WAKE_FAILED :: string where
  "MEETING_PARTICIPANT_WAKE_FAILED = ''meeting.participant_wake_failed''"
definition MEETING_PARTICIPANT_NO_INSTANCE :: string where
  "MEETING_PARTICIPANT_NO_INSTANCE = ''meeting.participant_no_instance''"
definition SCHEDULE_CREATED :: string where "SCHEDULE_CREATED = ''schedule.created''"
definition SCHEDULE_CANCELLED :: string where "SCHEDULE_CANCELLED = ''schedule.cancelled''"
definition SCHEDULE_FIRED :: string where "SCHEDULE_FIRED = ''schedule.fired''"

lemmas more_event_types =
  SYSTEM_STARTUP_def SYSTEM_SHUTDOWN_def FORNIX_FILE_CREATED_def
  FORNIX_FILE_UPDATED_def FORNIX_FILE_ARCHIVED_def FORNIX_FILE_RESTORED_def
  FORNIX_SYNC_FAILED_def FORNIX_FILE_WRITTEN_def MEMORY_ENTRY_APPENDED_def
  INSTANCE_CREATED_def INSTANCE_DEPLOYED_def INSTANCE_STARTED_def
  INSTANCE_RESTARTED_def INSTANCE_STOPPED_def INSTANCE_FAILED_def
  INSTANCE_DELETED_def LEARNING_DISTILLATION_COMPLETED_def LEARNING_REAPED_def
  LEARNING_PROMOTED_def LEARNING_TRANSMUTED_def LEARNING_COMPOSED_def
  LEARNING_NOTEPAD_MIGRATION_ORPHAN_def HARNESS_REPORT_RECEIVED_def INSTANCE_BATCH_RESTARTED_def
  INSTANCE_KNOWLEDGE_INCONSISTENT_def BASE_CLASS_CLONED_def ENTITY_CLONED_def
  ORGANIZATION_CLONED_def WORKSPACE_CLONED_def WORKSPACE_CLONE_PASSAGE_DROPPED_def
  MEETING_CREATED_def MEETING_STARTED_def MEETING_ENDED_def
  MEETING_CANCELLED_def MEETING_PARTICIPANT_WAKE_FAILED_def MEETING_PARTICIPANT_NO_INSTANCE_def
  SCHEDULE_CREATED_def SCHEDULE_CANCELLED_def SCHEDULE_FIRED_def

section \<open>Patterns\<close>

text \<open>\<open>fnmatch.fnmatchcase\<close> with its two wildcards; no pattern of the program has a bracket.\<close>

fun fnmatchcase :: "string \<Rightarrow> string \<Rightarrow> bool" where
  "fnmatchcase s [] = (s = [])"
| "fnmatchcase [] (p # ps) = (p = CHR ''*'' \<and> fnmatchcase [] ps)"
| "fnmatchcase (c # s) (p # ps) =
     (if p = CHR ''*'' then fnmatchcase (c # s) ps \<or> fnmatchcase s (p # ps)
      else (p = CHR ''?'' \<or> p = c) \<and> fnmatchcase s ps)"

lemma fnmatch_star [simp]: "fnmatchcase s ''*''"
  by (induction s) auto

lemma fnmatch_literal_star:
  "CHR ''*'' \<notin> set p \<Longrightarrow> CHR ''?'' \<notin> set p \<Longrightarrow> fnmatchcase s (p @ ''*'') \<longleftrightarrow> prefix p s"
proof (induction p arbitrary: s)
  case (Cons c p)
  then show ?case by (cases s) auto
qed simp

lemma fnmatch_literal:
  "CHR ''*'' \<notin> set p \<Longrightarrow> CHR ''?'' \<notin> set p \<Longrightarrow> fnmatchcase s p \<longleftrightarrow> s = p"
proof (induction p arbitrary: s)
  case (Cons c p)
  then show ?case by (cases s) auto
qed simp

section \<open>emit\<close>

record event_args =
  ea_type :: string
  ea_actor_type :: string
  ea_actor_id :: "string option"
  ea_resource_type :: "string option"
  ea_resource_id :: "string option"
  ea_payload :: json_obj
  ea_request_id :: "string option"

type_synonym 'w handler = "event_row \<Rightarrow> 'w \<Rightarrow> 'w \<times> bool"
type_synonym 'w handlers = "(string \<times> 'w handler) list"

definition register_handler :: "string \<Rightarrow> 'w handler \<Rightarrow> 'w handlers \<Rightarrow> 'w handlers" where
  "register_handler pattern h hs = hs @ [(pattern, h)]"

definition new_event :: "timestamp \<Rightarrow> event_args \<Rightarrow> 'z db_scheme \<Rightarrow> event_row" where
  "new_event now a s = \<lparr>row_id = new_id s, created_at = now, updated_at = now, deleted_at = None,
     ev_type = ea_type a, actor_type = ea_actor_type a, actor_id = ea_actor_id a,
     resource_type = ea_resource_type a, resource_id = ea_resource_id a,
     ev_payload = ea_payload a, request_id = ea_request_id a\<rparr>"

fun dispatch :: "'w handlers \<Rightarrow> event_row \<Rightarrow> 'w \<Rightarrow> 'w" where
  "dispatch [] e w = w"
| "dispatch ((pattern, h) # hs) e w =
     (if fnmatchcase (ev_type e) pattern
      then (case h e w of (w', raised) \<Rightarrow> dispatch hs e w')
      else dispatch hs e w)"

definition emit ::
    "'z db_scheme handlers \<Rightarrow> timestamp \<Rightarrow> event_args \<Rightarrow> 'z db_scheme \<Rightarrow> 'z db_scheme \<times> event_row" where
  "emit hs now a s =
     (let e = new_event now a s
      in (dispatch hs e ((take_id s)\<lparr>events := events s @ [e]\<rparr>), e))"

text \<open>The emission most of the program uses: an actor of type \<open>system\<close>.\<close>

definition system_event :: "string \<Rightarrow> string \<Rightarrow> ident \<Rightarrow> json_obj \<Rightarrow> event_args" where
  "system_event ty rt rid payload = \<lparr>ea_type = ty, ea_actor_type = ''system'', ea_actor_id = None,
     ea_resource_type = Some rt, ea_resource_id = Some rid, ea_payload = payload,
     ea_request_id = None\<rparr>"

lemma new_event_simps [simp]:
  "ev_type (new_event now a s) = ea_type a" "resource_id (new_event now a s) = ea_resource_id a"
  "ev_payload (new_event now a s) = ea_payload a" "live (new_event now a s)"
  "row_id (new_event now a s) = new_id s"
  by (simp_all add: new_event_def live_def)

lemma system_event_simps [simp]:
  "ea_type (system_event ty rt rid pl) = ty" "ea_payload (system_event ty rt rid pl) = pl"
  "ea_resource_id (system_event ty rt rid pl) = Some rid"
  "ea_resource_type (system_event ty rt rid pl) = Some rt"
  by (simp_all add: system_event_def)

section \<open>What handlers leave alone\<close>

text \<open>
  Handlers that relate the state before and after by \<open>R\<close> on the events considered; dispatch and
  emission inherit every such relation that is reflexive and transitive.
\<close>

definition handlers_respect ::
    "('w \<Rightarrow> 'w \<Rightarrow> bool) \<Rightarrow> (event_row \<Rightarrow> bool) \<Rightarrow> 'w handlers \<Rightarrow> bool" where
  "handlers_respect R Q hs \<longleftrightarrow>
     (\<forall>(p, h) \<in> set hs. \<forall>e w. Q e \<longrightarrow> fnmatchcase (ev_type e) p \<longrightarrow> R w (fst (h e w)))"

lemma respect_Nil [simp]: "handlers_respect R Q []"
  by (simp add: handlers_respect_def)

lemma respects_Cons:
  "handlers_respect R Q ((p, h) # hs) \<longleftrightarrow>
   (\<forall>e w. Q e \<longrightarrow> fnmatchcase (ev_type e) p \<longrightarrow> R w (fst (h e w))) \<and> handlers_respect R Q hs"
  by (auto simp: handlers_respect_def)

lemma dispatch_respects:
  assumes "reflp R" and "transp R"
  shows "handlers_respect R Q hs \<Longrightarrow> Q e \<Longrightarrow> R w (dispatch hs e w)"
proof (induction hs e w rule: dispatch.induct)
  case (1 e w)
  then show ?case using assms(1) by (simp add: reflpD)
next
  case (2 pattern h hs e w)
  have rest: "handlers_respect R Q hs" using 2(3) by (simp add: respects_Cons)
  show ?case
  proof (cases "fnmatchcase (ev_type e) pattern")
    case True
    obtain w' r where h: "h e w = (w', r)" by (cases "h e w")
    have "R w (fst (h e w))" using 2(3,4) True by (simp add: respects_Cons)
    moreover have "R w' (dispatch hs e w')" using 2(1) [OF True h [symmetric] rest 2(4)] .
    ultimately show ?thesis using True h assms(2) by (auto dest: transpD)
  next
    case False
    with 2(2) rest 2(4) show ?thesis by simp
  qed
qed

lemma emit_respects:
  assumes "reflp R" "transp R" "handlers_respect R Q hs" "Q (new_event now a s)"
    and "R s ((take_id s)\<lparr>events := events s @ [new_event now a s]\<rparr>)"
  shows "R s (fst (emit hs now a s))"
  using transpD [OF assms(2,5) dispatch_respects [OF assms(1-4)]] by (simp add: emit_def Let_def)

text \<open>Handlers that only append to the audit log.\<close>

definition log_grows :: "'z db_scheme \<Rightarrow> 'z db_scheme \<Rightarrow> bool" where
  "log_grows s t \<longleftrightarrow> prefix (events s) (events t)"

lemma log_grows_order: "reflp log_grows" "transp log_grows"
  by (auto simp: log_grows_def reflp_def transp_def intro: prefix_order.trans)

lemma emit_log:
  assumes "handlers_respect log_grows Q hs" and "Q (new_event now a s)"
  shows "prefix (events s @ [snd (emit hs now a s)]) (events (fst (emit hs now a s)))"
  using dispatch_respects [OF log_grows_order assms, of "(take_id s)\<lparr>events := events s @ [new_event now a s]\<rparr>"]
  by (simp add: emit_def Let_def log_grows_def)

end
