(* ===== verification/Priority_Inbox.thy ===== *)
theory Priority_Inbox
  imports Prelude
begin

text \<open>
  The contract shared by the two queues of the program: items wait in the order of a key, a new
  item takes its place by that order, and the items handed out are the first ones. The in-memory
  task queue and the durable inject queue are its two implementations.
\<close>

locale priority_inbox =
  fixes key :: "'x \<Rightarrow> 'k::linorder"
    and ok :: "'s \<Rightarrow> bool"
    and accepts :: "'x \<Rightarrow> 's \<Rightarrow> bool"
    and items :: "'s \<Rightarrow> 'x list"
    and put :: "'x \<Rightarrow> 's \<Rightarrow> 's"
    and select :: "nat \<Rightarrow> 's \<Rightarrow> 'x list"
    and remove :: "nat \<Rightarrow> 's \<Rightarrow> 's"
  assumes items_sorted: "ok s \<Longrightarrow> sorted (map key (items s))"
    and items_distinct: "ok s \<Longrightarrow> distinct (map key (items s))"
    and put_ok: "ok s \<Longrightarrow> accepts x s \<Longrightarrow> ok (put x s)"
    and put_items: "ok s \<Longrightarrow> accepts x s \<Longrightarrow> items (put x s) = insort_key key x (items s)"
    and select_items: "ok s \<Longrightarrow> select n s = take n (items s)"
    and remove_ok: "ok s \<Longrightarrow> ok (remove n s)"
    and remove_items: "ok s \<Longrightarrow> items (remove n s) = drop n (items s)"
begin

lemma selected_first:
  assumes "ok s" and "x \<in> set (select n s)" and "y \<in> set (items (remove n s))"
  shows "key x < key y"
proof -
  have le: "key x \<le> key y"
    using sorted_take_le_drop [OF items_sorted [OF assms(1)]] assms
    by (simp add: select_items remove_items)
  have "distinct (map key (take n (items s)) @ map key (drop n (items s)))"
    using items_distinct [OF assms(1)] by (simp flip: map_append)
  then have "key x \<noteq> key y"
    using assms by (auto simp: select_items remove_items)
  with le show ?thesis by simp
qed

lemma selected_once:
  assumes "ok s"
  shows "set (select n s) \<inter> set (items (remove n s)) = {}"
  using selected_first [OF assms] by fastforce

lemma nothing_lost:
  assumes "ok s"
  shows "items s = select n s @ items (remove n s)"
  using assms by (simp add: select_items remove_items)

lemma select_select:
  assumes "ok s"
  shows "select m s @ select n (remove m s) = select (m + n) s"
  using assms by (simp add: select_items remove_items remove_ok take_add)

text \<open>An item with the largest key goes last: arrival in key order makes the inbox a FIFO.\<close>

lemma put_last:
  assumes "ok s" and "accepts x s" and "\<And>y. y \<in> set (items s) \<Longrightarrow> key y < key x"
  shows "items (put x s) = items s @ [x]"
proof -
  have "insort_key key x ys = ys @ [x]" if "\<And>y. y \<in> set ys \<Longrightarrow> key y < key x" for ys
    using that
  proof (induction ys)
    case (Cons a ys)
    then have "\<not> key x \<le> key a" by (simp add: not_le)
    with Cons show ?case by simp
  qed simp
  with assms show ?thesis by (simp add: put_items)
qed

lemma put_keeps:
  assumes "ok s" and "accepts x s"
  shows "set (items (put x s)) = insert x (set (items s))"
  using assms by (simp add: put_items set_insort_key)

text \<open>Serving the whole inbox one batch at a time.\<close>

fun drain :: "nat list \<Rightarrow> 's \<Rightarrow> 'x list" where
  "drain [] s = []"
| "drain (n # ns) s = select n s @ drain ns (remove n s)"

lemma drain_in_order: "ok s \<Longrightarrow> drain ns s = take (sum_list ns) (items s)"
  by (induction ns s rule: drain.induct)
    (simp_all add: select_items remove_items remove_ok take_add)

lemma drain_once: "ok s \<Longrightarrow> distinct (map key (drain ns s))"
  by (simp add: drain_in_order items_distinct distinct_take flip: take_map)

end

section \<open>Sorting by a key\<close>

lemma sort_key_insert_last:
  assumes "key x \<notin> key ` set xs"
  shows "sort_key key (xs @ [x]) = insort_key key x (sort_key key xs)"
  using assms
proof (induction xs)
  case (Cons y xs)
  then have "key x \<noteq> key y" by auto
  with Cons show ?case by (simp add: insort_key_left_comm)
qed simp

lemma filter_sort_key: "filter P (sort_key key xs) = sort_key key (filter P xs)"
  by (simp add: filter_sort)

end
