(* ===== verification/Inject_Queue.thy ===== *)
theory Inject_Queue
  imports Events Priority_Inbox
begin

text \<open>
  The durable downlink queue to the instances (\<^verbatim>\<open>app/core/inject_queue.py\<close>) and the request
  rules it reuses (\<^verbatim>\<open>app/schemas/internal.py\<close>). Rows are handed out oldest first, at most
  once, never after their expiry; every state change follows the life cycle
  pending, delivered, acked with the exits failed and expired.
\<close>

section \<open>Request rules\<close>

definition TLDR_MAX_CHARS :: nat where "TLDR_MAX_CHARS = 200"
definition PROSE_THRESHOLD_CHARS :: nat where "PROSE_THRESHOLD_CHARS = 240"

definition INJECT_KINDS :: "string list" where
  "INJECT_KINDS = [''collab_inject'', ''gene_inject'', ''capability_inject'', ''cerebellum_route'']"

definition DELIVERY_MODES :: "string list" where
  "DELIVERY_MODES = [''notify'', ''soft_inject'', ''wake'']"

definition list_string_length :: "json option \<Rightarrow> nat" where
  "list_string_length items =
     (case items of
        Some (JList js) \<Rightarrow> sum_list (map (\<lambda>j. case j of JStr t \<Rightarrow> length t | _ \<Rightarrow> 0) js)
      | _ \<Rightarrow> 0)"

definition report_prose_length :: "json option \<Rightarrow> nat" where
  "report_prose_length report =
     (case report of
        Some (JObj ob) \<Rightarrow> list_string_length (jget ob ''changes'')
          + list_string_length (jget ob ''validation'') + list_string_length (jget ob ''blockers'')
      | _ \<Rightarrow> 0)"

definition text_length :: "json option \<Rightarrow> nat" where
  "text_length v = (case v of Some (JStr t) \<Rightarrow> length t | _ \<Rightarrow> 0)"

definition compute_prose_length :: "json_obj \<Rightarrow> nat" where
  "compute_prose_length payload =
     text_length (jget payload ''text'') + text_length (jget payload ''body'')
       + report_prose_length (jget payload ''report'')"

definition validate_tldr :: "string option \<Rightarrow> nat \<Rightarrow> unit result" where
  "validate_tldr tldr prose_length =
     (if (case tldr of Some t \<Rightarrow> TLDR_MAX_CHARS < length t | None \<Rightarrow> False)
      then Inl (EyotError ''internal.tldr_too_long'' ''errors.internal.tldr_too_long'' 400)
      else if PROSE_THRESHOLD_CHARS < prose_length
              \<and> \<not> (case tldr of Some t \<Rightarrow> t \<noteq> [] \<and> strip t \<noteq> [] | None \<Rightarrow> False)
      then Inl (EyotError ''internal.tldr_required'' ''errors.internal.tldr_required'' 400)
      else Inr ())"

text \<open>
  Building the request DTO: the literal types of \<open>kind\<close> and \<open>delivery_mode\<close>, then its model
  validator (no report is passed, so only the length of the tldr matters there).
\<close>

definition inject_enqueue_request :: "string \<Rightarrow> string \<Rightarrow> string option \<Rightarrow> unit result" where
  "inject_enqueue_request kind mode tldr =
     (if kind \<notin> set INJECT_KINDS \<or> mode \<notin> set DELIVERY_MODES then Inl unhandled_error
      else validate_tldr tldr (report_prose_length None))"

section \<open>Operations\<close>

definition DEFAULT_TTL :: timestamp where "DEFAULT_TTL = seconds 3600"
definition COMPLETED_SWEEP_AGE :: timestamp where "COMPLETED_SWEEP_AGE = seconds (7 * 24 * 3600)"

definition ACKED_MODES :: "string list" where "ACKED_MODES = [''soft_inject'', ''wake'']"

definition COMPLETED_STATUSES :: "inject_status list" where
  "COMPLETED_STATUSES = [Inj_acked, Inj_failed, Inj_expired]"

definition opt_json :: "string option \<Rightarrow> json" where
  "opt_json v = (case v of None \<Rightarrow> JNull | Some t \<Rightarrow> JStr t)"

definition jget_default :: "json_obj \<Rightarrow> string \<Rightarrow> json \<Rightarrow> json" where
  "jget_default ob k d = (case jget ob k of None \<Rightarrow> d | Some v \<Rightarrow> v)"

definition set_inject :: "inject_row list \<Rightarrow> 'z db_scheme \<Rightarrow> 'z db_scheme" where
  "set_inject rows s = s\<lparr>inject_queue := rows\<rparr>"

definition new_inject_row ::
    "timestamp \<Rightarrow> ident \<Rightarrow> ident \<Rightarrow> string \<Rightarrow> string \<Rightarrow> json_obj \<Rightarrow> inject_row" where
  "new_inject_row now i iid kind mode payload = \<lparr>row_id = i, created_at = now, updated_at = now,
     deleted_at = None, inj_instance_id = iid, inj_kind = kind, delivery_mode = mode,
     inj_payload = payload, inj_status = Inj_pending, expires_at = now + DEFAULT_TTL,
     acked_at = None, error_message = None\<rparr>"

definition queue_payload :: "inject_row \<Rightarrow> json_obj" where
  "queue_payload r = [(''queue_id'', JStr (row_id r)), (''kind'', JStr (inj_kind r)),
                      (''delivery_mode'', JStr (delivery_mode r))]"

text \<open>The learning-side audit event that pairs with a capability or gene inject.\<close>

definition emit_learning_injected ::
    "'z db_scheme handlers \<Rightarrow> timestamp \<Rightarrow> inject_row \<Rightarrow> json_obj \<Rightarrow> string option
     \<Rightarrow> 'z db_scheme \<Rightarrow> 'z db_scheme" where
  "emit_learning_injected hs now r payload tldr s =
     (if inj_kind r = ''capability_inject'' then
        fst (emit hs now (system_event LEARNING_CAPABILITY_INJECTED ''instance'' (inj_instance_id r)
          (queue_payload r @ [(''capability_ids'', jget_default payload ''capability_ids'' (JList [])),
                              (''tldr'', opt_json tldr)])) s)
      else if inj_kind r = ''gene_inject'' then
        fst (emit hs now (system_event LEARNING_GENE_INJECTED ''instance'' (inj_instance_id r)
          (queue_payload r @ [(''gene_ids'', jget_default payload ''gene_ids'' (JList [])),
                              (''tldr'', opt_json tldr)])) s)
      else s)"

definition enqueue_inject ::
    "'z db_scheme handlers \<Rightarrow> timestamp \<Rightarrow> ident \<Rightarrow> string \<Rightarrow> string \<Rightarrow> json_obj \<Rightarrow> string option
     \<Rightarrow> 'z db_scheme \<Rightarrow> ('z db_scheme \<times> inject_row) result" where
  "enqueue_inject hs now iid kind mode payload tldr s =
     (case inject_enqueue_request kind mode tldr of
        Inl e \<Rightarrow> Inl e
      | Inr _ \<Rightarrow>
         (case validate_tldr tldr (compute_prose_length payload) of
            Inl e \<Rightarrow> Inl e
          | Inr _ \<Rightarrow>
              if \<not> fk_exists (instances s) iid then Inl unhandled_error
              else let r = new_inject_row now (new_id s) iid kind mode payload;
                       s1 = set_inject (inject_queue s @ [r]) (take_id s);
                       s2 = fst (emit hs now (system_event HARNESS_INJECT_REQUESTED ''instance'' iid
                              (queue_payload r @ [(''tldr'', opt_json tldr)])) s1)
                   in Inr (emit_learning_injected hs now r payload tldr s2, r)))"

definition is_pending :: "ident \<Rightarrow> inject_row \<Rightarrow> bool" where
  "is_pending iid r = (inj_instance_id r = iid \<and> inj_status r = Inj_pending \<and> live r)"

definition expire_row :: "timestamp \<Rightarrow> inject_row \<Rightarrow> inject_row" where
  "expire_row now r = touch now (r\<lparr>inj_status := Inj_expired\<rparr>)"

definition deliver_row :: "timestamp \<Rightarrow> inject_row \<Rightarrow> inject_row" where
  "deliver_row now r = touch now (r\<lparr>inj_status := Inj_delivered\<rparr>)"

text \<open>\<open>ORDER BY created_at, id LIMIT n\<close> over the unexpired pending rows of one instance.\<close>

definition fifo_key :: "inject_row \<Rightarrow> timestamp \<times> ident" where
  "fifo_key r = (created_at r, row_id r)"

definition poll_select :: "timestamp \<Rightarrow> ident \<Rightarrow> nat \<Rightarrow> inject_row list \<Rightarrow> inject_row list" where
  "poll_select now iid limit rows =
     take limit (sort_key fifo_key (filter (\<lambda>r. is_pending iid r \<and> now < expires_at r) rows))"

definition poll_expire :: "timestamp \<Rightarrow> ident \<Rightarrow> inject_row list \<Rightarrow> inject_row list" where
  "poll_expire now iid rows =
     update_where (\<lambda>r. is_pending iid r \<and> expires_at r \<le> now) (expire_row now) rows"

definition poll_deliver :: "timestamp \<Rightarrow> ident \<Rightarrow> nat \<Rightarrow> inject_row list \<Rightarrow> inject_row list" where
  "poll_deliver now iid limit rows =
     update_where (\<lambda>r. row_id r \<in> set (map row_id (poll_select now iid limit rows)))
       (deliver_row now) rows"

definition poll_pending_injects ::
    "timestamp \<Rightarrow> ident \<Rightarrow> nat \<Rightarrow> 'z db_scheme \<Rightarrow> 'z db_scheme \<times> inject_row list" where
  "poll_pending_injects now iid limit s =
     (let rows = poll_expire now iid (inject_queue s)
      in (set_inject (poll_deliver now iid limit rows) s,
          map (deliver_row now) (poll_select now iid limit rows)))"

definition ack_row :: "timestamp \<Rightarrow> inject_row \<Rightarrow> inject_row" where
  "ack_row now r = touch now (r\<lparr>inj_status := Inj_acked, acked_at := Some now\<rparr>)"

definition replace_inject :: "inject_row \<Rightarrow> 'z db_scheme \<Rightarrow> 'z db_scheme" where
  "replace_inject r s =
     set_inject (update_where (\<lambda>q. row_id q = row_id r) (\<lambda>_. r) (inject_queue s)) s"

fun ack_rows ::
    "'z db_scheme handlers \<Rightarrow> timestamp \<Rightarrow> inject_row list \<Rightarrow> 'z db_scheme \<times> nat \<Rightarrow> 'z db_scheme \<times> nat"
where
  "ack_rows hs now [] (s, n) = (s, n)"
| "ack_rows hs now (r # rs) (s, n) =
     (if inj_status r \<noteq> Inj_delivered then ack_rows hs now rs (s, n)
      else let r' = ack_row now r;
               s1 = replace_inject r' s;
               s2 = (if delivery_mode r \<in> set ACKED_MODES
                     then fst (emit hs now (system_event HARNESS_INJECT_APPLIED ''instance''
                            (inj_instance_id r) (queue_payload r')) s1)
                     else s1)
           in ack_rows hs now rs (s2, Suc n))"

definition ack_injects ::
    "'z db_scheme handlers \<Rightarrow> timestamp \<Rightarrow> ident list \<Rightarrow> 'z db_scheme \<Rightarrow> 'z db_scheme \<times> nat" where
  "ack_injects hs now queue_ids s =
     (if queue_ids = [] then (s, 0)
      else ack_rows hs now (filter (\<lambda>r. row_id r \<in> set queue_ids \<and> live r) (inject_queue s)) (s, 0))"

definition mark_inject_failed ::
    "'z db_scheme handlers \<Rightarrow> timestamp \<Rightarrow> ident \<Rightarrow> string \<Rightarrow> 'z db_scheme
     \<Rightarrow> 'z db_scheme \<times> inject_row option" where
  "mark_inject_failed hs now qid msg s =
     (case get_live (inject_queue s) qid of
        None \<Rightarrow> (s, None)
      | Some r \<Rightarrow>
          let r' = modified now r (r\<lparr>inj_status := Inj_failed, error_message := Some msg\<rparr>);
              s1 = replace_inject r' s
          in (fst (emit hs now (system_event HARNESS_INJECT_FAILED ''instance'' (inj_instance_id r)
                (queue_payload r' @ [(''error_message'', JStr msg)])) s1), Some r'))"

definition overdue :: "timestamp \<Rightarrow> inject_row \<Rightarrow> bool" where
  "overdue now r = (inj_status r = Inj_pending \<and> expires_at r \<le> now \<and> live r)"

definition sweep_expired :: "timestamp \<Rightarrow> 'z db_scheme \<Rightarrow> 'z db_scheme \<times> nat" where
  "sweep_expired now s =
     (set_inject (update_where (overdue now) (expire_row now) (inject_queue s)) s,
      count_where (overdue now) (inject_queue s))"

definition completed_old :: "timestamp \<Rightarrow> inject_row \<Rightarrow> bool" where
  "completed_old now r = (inj_status r \<in> set COMPLETED_STATUSES
     \<and> updated_at r < now - COMPLETED_SWEEP_AGE \<and> live r)"

definition sweep_old_completed :: "timestamp \<Rightarrow> 'z db_scheme \<Rightarrow> 'z db_scheme \<times> nat" where
  "sweep_old_completed now s =
     (set_inject (update_where (completed_old now) (soft_delete now) (inject_queue s)) s,
      count_where (completed_old now) (inject_queue s))"

section \<open>The queue as a priority inbox\<close>

definition waiting :: "timestamp \<Rightarrow> ident \<Rightarrow> inject_row list \<Rightarrow> inject_row list" where
  "waiting now iid rows =
     sort_key fifo_key (filter (\<lambda>r. is_pending iid r \<and> now < expires_at r) rows)"

definition inject_accepts :: "timestamp \<Rightarrow> ident \<Rightarrow> inject_row \<Rightarrow> inject_row list \<Rightarrow> bool" where
  "inject_accepts now iid r rows \<longleftrightarrow>
     row_id r \<notin> row_id ` set rows \<and> is_pending iid r \<and> now < expires_at r"

lemma filter_drop_selected:
  assumes "distinct (map f xs)"
  shows "filter (\<lambda>x. f x \<notin> f ` set (take n xs)) xs = drop n xs"
proof -
  have d: "distinct (map f (take n xs) @ map f (drop n xs))"
    using assms by (simp flip: map_append)
  let ?P = "\<lambda>x. f x \<notin> f ` set (take n xs)"
  have "filter ?P (take n xs) = []" by (auto simp: filter_empty_conv)
  moreover have "filter ?P (drop n xs) = drop n xs" using d by (auto simp: filter_id_conv)
  ultimately show ?thesis by (metis append_take_drop_id append_Nil filter_append)
qed

lemma deliver_row_simps [simp]:
  "row_id (deliver_row now r) = row_id r" "inj_status (deliver_row now r) = Inj_delivered"
  "\<not> is_pending iid (deliver_row now r)"
  by (simp_all add: deliver_row_def touch_def is_pending_def)

lemma expire_row_simps [simp]:
  "row_id (expire_row now r) = row_id r" "inj_status (expire_row now r) = Inj_expired"
  "\<not> is_pending iid (expire_row now r)"
  by (simp_all add: expire_row_def touch_def is_pending_def)

lemma waiting_set:
  "set (waiting now iid rows) = {r \<in> set rows. is_pending iid r \<and> now < expires_at r}"
  by (auto simp: waiting_def)

lemma waiting_distinct: "distinct (map row_id rows) \<Longrightarrow> distinct (map row_id (waiting now iid rows))"
  by (auto simp: waiting_def distinct_map intro: inj_on_subset)

lemma waiting_deliver:
  assumes "distinct (map row_id rows)"
  shows "waiting now iid (poll_deliver now iid n rows) = drop n (waiting now iid rows)"
proof -
  let ?W = "\<lambda>r. is_pending iid r \<and> now < expires_at r"
  let ?P = "\<lambda>r. row_id r \<in> row_id ` set (take n (waiting now iid rows))"
  have "filter ?W (poll_deliver now iid n rows) = filter (\<lambda>r. ?W r \<and> \<not> ?P r) rows"
    unfolding poll_deliver_def poll_select_def waiting_def [symmetric]
    by (subst filter_update_where_drop) (auto simp: set_map)
  also have "\<dots> = filter (\<lambda>r. \<not> ?P r) (filter ?W rows)" by (simp add: conj_commute)
  finally have "waiting now iid (poll_deliver now iid n rows) = filter (\<lambda>r. \<not> ?P r) (waiting now iid rows)"
    by (simp add: waiting_def filter_sort)
  also have "\<dots> = drop n (waiting now iid rows)"
    by (rule filter_drop_selected [OF waiting_distinct [OF assms]])
  finally show ?thesis .
qed

lemma poll_deliver_ids [simp]: "map row_id (poll_deliver now iid n rows) = map row_id rows"
  unfolding poll_deliver_def by (rule map_update_where) simp

lemma poll_expire_ids [simp]: "map row_id (poll_expire now iid rows) = map row_id rows"
  unfolding poll_expire_def by (rule map_update_where) simp

lemma waiting_expire [simp]: "waiting now iid (poll_expire now iid rows) = waiting now iid rows"
  unfolding waiting_def poll_expire_def by (subst filter_update_where_other) auto

interpretation inbox: priority_inbox fifo_key "\<lambda>rows. distinct (map row_id rows)"
    "inject_accepts now iid" "waiting now iid" "\<lambda>r rows. rows @ [r]" "poll_select now iid"
    "poll_deliver now iid" for now iid
proof unfold_locales
  fix rows :: "inject_row list" and r n
  assume d: "distinct (map row_id rows)"
  show "sorted (map fifo_key (waiting now iid rows))" by (simp add: waiting_def)
  show "distinct (map fifo_key (waiting now iid rows))"
    using waiting_distinct [OF d, of now iid]
    by (auto simp: distinct_map fifo_key_def inj_on_def)
  show "poll_select now iid n rows = take n (waiting now iid rows)"
    by (simp add: poll_select_def waiting_def)
  show "distinct (map row_id (poll_deliver now iid n rows))" using d by simp
  show "waiting now iid (poll_deliver now iid n rows) = drop n (waiting now iid rows)"
    by (rule waiting_deliver [OF d])
  assume "inject_accepts now iid r rows"
  then have a: "row_id r \<notin> row_id ` set rows" "is_pending iid r" "now < expires_at r"
    by (simp_all add: inject_accepts_def)
  show "distinct (map row_id (rows @ [r]))" using d a(1) by simp
  have "fifo_key r \<notin> fifo_key ` set (filter (\<lambda>r. is_pending iid r \<and> now < expires_at r) rows)"
    using a(1) by (auto simp: fifo_key_def)
  then show "waiting now iid (rows @ [r]) = insort_key fifo_key r (waiting now iid rows)"
    using a by (simp add: waiting_def sort_key_insert_last)
qed

section \<open>Effect of each operation on the table\<close>

text \<open>Handlers that leave the queue and the identifier stream alone on the queue's own events.\<close>

definition inject_frame :: "'z db_scheme \<Rightarrow> 'z db_scheme \<Rightarrow> bool" where
  "inject_frame s t \<longleftrightarrow> inject_queue t = inject_queue s \<and> id_source t = id_source s \<and>
     id_next s \<le> id_next t"

definition inject_event :: "event_row \<Rightarrow> bool" where
  "inject_event e \<longleftrightarrow> ev_type e \<in> {HARNESS_INJECT_REQUESTED, HARNESS_INJECT_APPLIED,
     HARNESS_INJECT_FAILED, LEARNING_CAPABILITY_INJECTED, LEARNING_GENE_INJECTED}"

lemma inject_frame_order: "reflp inject_frame" "transp inject_frame"
  by (auto simp: inject_frame_def reflp_def transp_def)

definition audit_handlers :: "'z db_scheme handlers \<Rightarrow> bool" where
  "audit_handlers hs = handlers_respect inject_frame inject_event hs"

lemma audit_handlers_Nil [simp]: "audit_handlers []"
  by (simp add: audit_handlers_def)

lemma emit_inject_frame:
  assumes "audit_handlers hs" and "inject_event (new_event now a s)"
  shows "inject_frame s (fst (emit hs now a s))"
  using assms emit_respects [OF inject_frame_order, of inject_event hs now a s]
  unfolding audit_handlers_def by (simp add: inject_frame_def take_id_def)

lemma set_inject_simps [simp]:
  "inject_queue (set_inject rows s) = rows" "id_source (set_inject rows s) = id_source s"
  "id_next (set_inject rows s) = id_next s" "instances (set_inject rows s) = instances s"
  "events (set_inject rows s) = events s"
  by (simp_all add: set_inject_def)

lemma learning_frame:
  "audit_handlers hs \<Longrightarrow> inject_frame s (emit_learning_injected hs now r payload tldr s)"
  unfolding emit_learning_injected_def
  by (auto intro!: emit_inject_frame simp: inject_event_def inject_frame_def [of s s])

lemma enqueue_inject_effect:
  assumes "audit_handlers hs" and "enqueue_inject hs now iid kind mode payload tldr s = Inr (s', r)"
  shows "r = new_inject_row now (new_id s) iid kind mode payload"
    and "inject_queue s' = inject_queue s @ [r]"
    and "id_source s' = id_source s" and "id_next s < id_next s'"
proof -
  let ?r = "new_inject_row now (new_id s) iid kind mode payload"
  let ?s1 = "set_inject (inject_queue s @ [?r]) (take_id s)"
  let ?s2 = "fst (emit hs now (system_event HARNESS_INJECT_REQUESTED ''instance'' iid
                   (queue_payload ?r @ [(''tldr'', opt_json tldr)])) ?s1)"
  have r: "r = ?r" and s': "s' = emit_learning_injected hs now ?r payload tldr ?s2"
    using assms(2) by (auto simp: enqueue_inject_def Let_def split: sum.splits if_splits)
  have "inject_frame ?s1 ?s2"
    by (rule emit_inject_frame [OF assms(1)]) (simp add: inject_event_def)
  with learning_frame [OF assms(1), of ?s2 now ?r payload tldr]
  have f: "inject_frame ?s1 s'" unfolding s' using inject_frame_order(2) by (blast dest: transpD)
  show "r = ?r" by (fact r)
  show "inject_queue s' = inject_queue s @ [r]" "id_source s' = id_source s" "id_next s < id_next s'"
    using f r by (auto simp: inject_frame_def)
qed

text \<open>Acking in one bulk equation: exactly the delivered live rows that were named.\<close>

definition ackable :: "ident list \<Rightarrow> inject_row \<Rightarrow> bool" where
  "ackable ids r \<longleftrightarrow> row_id r \<in> set ids \<and> live r \<and> inj_status r = Inj_delivered"

lemma ack_row_simps [simp]:
  "row_id (ack_row now r) = row_id r" "inj_status (ack_row now r) = Inj_acked"
  by (simp_all add: ack_row_def touch_def)

lemma replace_inject_ack:
  assumes "distinct (map row_id (inject_queue s))" and "r \<in> set (inject_queue s)"
  shows "inject_queue (replace_inject (ack_row now r) s)
       = update_where (\<lambda>q. q = r) (ack_row now) (inject_queue s)"
proof -
  have "row_id q = row_id r \<longleftrightarrow> q = r" if "q \<in> set (inject_queue s)" for q
    using assms that by (meson inj_on_contraD distinct_map)
  then show ?thesis
    by (auto simp: replace_inject_def update_where_def)
qed

lemma ack_rows_effect:
  assumes "audit_handlers hs"
  shows "distinct (map row_id (inject_queue s)) \<Longrightarrow> set rs \<subseteq> set (inject_queue s) \<Longrightarrow> distinct rs \<Longrightarrow>
    ack_rows hs now rs (s, n) = (s', m) \<Longrightarrow>
    inject_queue s' = update_where (\<lambda>r. r \<in> set rs \<and> inj_status r = Inj_delivered) (ack_row now)
                        (inject_queue s) \<and>
    m = n + length (filter (\<lambda>r. inj_status r = Inj_delivered) rs) \<and>
    id_source s' = id_source s \<and> id_next s \<le> id_next s'"
proof (induction rs arbitrary: s n)
  case (Cons r rs)
  show ?case
  proof (cases "inj_status r = Inj_delivered")
    case False
    then have "ack_rows hs now rs (s, n) = (s', m)" using Cons.prems(4) by simp
    from Cons.IH [OF Cons.prems(1) _ _ this] Cons.prems(2,3)
    have IH: "inject_queue s' = update_where (\<lambda>r. r \<in> set rs \<and> inj_status r = Inj_delivered)
        (ack_row now) (inject_queue s) \<and> m = n + length (filter (\<lambda>r. inj_status r = Inj_delivered) rs) \<and>
        id_source s' = id_source s \<and> id_next s \<le> id_next s'" by simp
    have "(\<lambda>q. q \<in> set (r # rs) \<and> inj_status q = Inj_delivered)
        = (\<lambda>q. q \<in> set rs \<and> inj_status q = Inj_delivered)" using False by auto
    with IH False show ?thesis by simp
  next
    case True
    let ?s1 = "replace_inject (ack_row now r) s"
    let ?s2 = "if delivery_mode r \<in> set ACKED_MODES
      then fst (emit hs now (system_event HARNESS_INJECT_APPLIED ''instance'' (inj_instance_id r)
             (queue_payload (ack_row now r))) ?s1) else ?s1"
    have f: "inject_frame ?s1 ?s2"
      using emit_inject_frame [OF assms] inject_frame_order(1)
      by (auto simp: inject_event_def inject_frame_def)
    have q1: "inject_queue ?s1 = update_where (\<lambda>q. q = r) (ack_row now) (inject_queue s)"
      using Cons.prems by (intro replace_inject_ack) auto
    have q2: "inject_queue ?s2 = update_where (\<lambda>q. q = r) (ack_row now) (inject_queue s)"
      using f q1 by (simp add: inject_frame_def)
    have run: "ack_rows hs now rs (?s2, Suc n) = (s', m)"
      using Cons.prems(4) True by (simp add: Let_def)
    have d: "distinct (map row_id (inject_queue ?s2))"
      unfolding q2 using Cons.prems(1) by (simp add: map_update_where)
    have sub: "set rs \<subseteq> set (inject_queue ?s2)"
      unfolding q2 using Cons.prems(2,3) by (auto intro!: update_where_keep)
    note IH = Cons.IH [OF d sub _ run]
    have comp: "update_where (\<lambda>q. q \<in> set rs \<and> inj_status q = Inj_delivered) (ack_row now)
        (update_where (\<lambda>q. q = r) (ack_row now) rows)
      = update_where (\<lambda>q. q \<in> set (r # rs) \<and> inj_status q = Inj_delivered) (ack_row now) rows" for rows
      using True Cons.prems(3) by (induction rows) auto
    have src: "id_source ?s2 = id_source s" "id_next s \<le> id_next ?s2"
      using f by (auto simp: inject_frame_def replace_inject_def)
    show ?thesis
      using IH Cons.prems(3) True src comp [of "inject_queue s"] by (simp add: q2 del: if_split)
  qed
qed simp

lemma ack_injects_effect:
  assumes "audit_handlers hs" and "distinct (map row_id (inject_queue s))"
    and "ack_injects hs now ids s = (s', n)"
  shows "inject_queue s' = update_where (ackable ids) (ack_row now) (inject_queue s)"
    and "n = count_where (ackable ids) (inject_queue s)"
    and "id_source s' = id_source s" and "id_next s \<le> id_next s'"
proof -
  let ?rs = "filter (\<lambda>r. row_id r \<in> set ids \<and> live r) (inject_queue s)"
  have dist: "distinct ?rs" using assms(2) by (simp add: distinct_map)
  have eq: "update_where (\<lambda>r. r \<in> set ?rs \<and> inj_status r = Inj_delivered) (ack_row now) (inject_queue s)
      = update_where (ackable ids) (ack_row now) (inject_queue s)"
    by (auto simp: update_where_def ackable_def)
  have cnt: "length (filter (\<lambda>r. inj_status r = Inj_delivered) ?rs)
      = count_where (ackable ids) (inject_queue s)"
    by (simp add: count_where_def ackable_def [abs_def] conj_ac)
  have all: "inject_queue s' = update_where (ackable ids) (ack_row now) (inject_queue s) \<and>
      n = count_where (ackable ids) (inject_queue s) \<and> id_source s' = id_source s \<and>
      id_next s \<le> id_next s'"
  proof (cases "ids = []")
    case True
    then have "\<not> ackable ids r" for r by (simp add: ackable_def)
    with True assms(3) show ?thesis by (simp add: ack_injects_def count_where_def)
  next
    case False
    with assms(3) have "ack_rows hs now ?rs (s, 0) = (s', n)" by (simp add: ack_injects_def)
    from ack_rows_effect [OF assms(1,2) _ dist this] show ?thesis
      unfolding eq cnt by auto
  qed
  then show "inject_queue s' = update_where (ackable ids) (ack_row now) (inject_queue s)"
    "n = count_where (ackable ids) (inject_queue s)" "id_source s' = id_source s"
    "id_next s \<le> id_next s'" by auto
qed

lemma mark_inject_failed_effect:
  assumes "audit_handlers hs" and "mark_inject_failed hs now qid msg s = (s', out)"
  shows "id_source s' = id_source s" "id_next s \<le> id_next s'"
    "out = None \<Longrightarrow> inject_queue s' = inject_queue s"
    "out = Some r' \<Longrightarrow> \<exists>r. get_live (inject_queue s) qid = Some r \<and>
        r' = modified now r (r\<lparr>inj_status := Inj_failed, error_message := Some msg\<rparr>) \<and>
        inject_queue s' = update_where (\<lambda>q. row_id q = qid) (\<lambda>_. r') (inject_queue s)"
proof -
  have all: "id_source s' = id_source s \<and> id_next s \<le> id_next s' \<and>
    (case get_live (inject_queue s) qid of
       None \<Rightarrow> out = None \<and> inject_queue s' = inject_queue s
     | Some r \<Rightarrow> out = Some (modified now r (r\<lparr>inj_status := Inj_failed, error_message := Some msg\<rparr>)) \<and>
         inject_queue s' = update_where (\<lambda>q. row_id q = qid) (\<lambda>_. the out) (inject_queue s))"
  proof (cases "get_live (inject_queue s) qid")
    case None
    with assms(2) show ?thesis by (simp add: mark_inject_failed_def)
  next
    case (Some r)
    let ?r' = "modified now r (r\<lparr>inj_status := Inj_failed, error_message := Some msg\<rparr>)"
    have id: "row_id ?r' = qid"
      using get_live_SomeD [OF Some] by (simp add: modified_def)
    have f: "inject_frame (replace_inject ?r' s) s'" and out: "out = Some ?r'"
      using assms(2) Some emit_inject_frame [OF assms(1)]
      by (auto simp: mark_inject_failed_def Let_def inject_event_def)
    from f have "inject_queue s' = inject_queue (replace_inject ?r' s)" "id_source s' = id_source s"
      "id_next s \<le> id_next s'" by (auto simp: inject_frame_def replace_inject_def)
    with Some out id show ?thesis by (simp add: replace_inject_def)
  qed
  then show "id_source s' = id_source s" "id_next s \<le> id_next s'" by auto
  from all show "out = None \<Longrightarrow> inject_queue s' = inject_queue s"
    by (auto split: option.splits)
  from all show "out = Some r' \<Longrightarrow> \<exists>r. get_live (inject_queue s) qid = Some r \<and>
        r' = modified now r (r\<lparr>inj_status := Inj_failed, error_message := Some msg\<rparr>) \<and>
        inject_queue s' = update_where (\<lambda>q. row_id q = qid) (\<lambda>_. r') (inject_queue s)"
    by (auto split: option.splits)
qed

section \<open>Runs of the queue\<close>

text \<open>One operation of the service; the label lists the rows a poll handed to the host.\<close>

inductive inject_step ::
    "'z db_scheme handlers \<Rightarrow> 'z db_scheme \<Rightarrow> inject_row list \<Rightarrow> 'z db_scheme \<Rightarrow> bool"
  for hs :: "'z db_scheme handlers" where
  i_enqueue: "enqueue_inject hs now iid kind mode payload tldr s = Inr (s', r) \<Longrightarrow>
    inject_step hs s [] s'"
| i_poll: "poll_pending_injects now iid limit s = (s', rows) \<Longrightarrow> inject_step hs s rows s'"
| i_ack: "ack_injects hs now ids s = (s', n) \<Longrightarrow> inject_step hs s [] s'"
| i_fail: "mark_inject_failed hs now qid msg s = (s', r') \<Longrightarrow> inject_step hs s [] s'"
| i_sweep: "sweep_expired now s = (s', n) \<Longrightarrow> inject_step hs s [] s'"
| i_clean: "sweep_old_completed now s = (s', n) \<Longrightarrow> inject_step hs s [] s'"

inductive inject_run ::
    "'z db_scheme handlers \<Rightarrow> 'z db_scheme \<Rightarrow> inject_row list \<Rightarrow> 'z db_scheme \<Rightarrow> bool"
  for hs :: "'z db_scheme handlers" where
  run_nil: "inject_run hs s [] s"
| run_step: "inject_run hs s ds t \<Longrightarrow> inject_step hs t rows u \<Longrightarrow> inject_run hs s (ds @ rows) u"

definition inject_ok :: "'z db_scheme \<Rightarrow> bool" where
  "inject_ok s \<longleftrightarrow> inj (id_source s) \<and> distinct (map row_id (inject_queue s)) \<and>
     row_id ` set (inject_queue s) \<subseteq> used_ids s"

text \<open>The life cycle, its transitive closure included, and what never changes in a row.\<close>

definition life_le :: "inject_status \<Rightarrow> inject_status \<Rightarrow> bool" where
  "life_le a b \<longleftrightarrow> a = b \<or> a = Inj_pending \<or> b = Inj_failed \<or> (a = Inj_delivered \<and> b = Inj_acked)"

lemma life_le_refl [simp]: "life_le a a"
  by (simp add: life_le_def)

lemma life_le_trans: "life_le a b \<Longrightarrow> life_le b c \<Longrightarrow> life_le a c"
  by (cases a; cases b; cases c) (auto simp: life_le_def)

definition inject_moves :: "inject_row \<Rightarrow> inject_row \<Rightarrow> bool" where
  "inject_moves r r' \<longleftrightarrow> row_id r' = row_id r \<and> inj_instance_id r' = inj_instance_id r \<and>
     inj_kind r' = inj_kind r \<and> delivery_mode r' = delivery_mode r \<and>
     inj_payload r' = inj_payload r \<and> expires_at r' = expires_at r \<and>
     life_le (inj_status r) (inj_status r') \<and> (live r' \<longrightarrow> live r)"

lemma inject_moves_refl [simp]: "inject_moves r r"
  by (simp add: inject_moves_def)

lemma inject_moves_trans: "inject_moves a b \<Longrightarrow> inject_moves b c \<Longrightarrow> inject_moves a c"
  by (auto simp: inject_moves_def intro: life_le_trans)

definition table_moves :: "inject_row list \<Rightarrow> inject_row list \<Rightarrow> bool" where
  "table_moves q q' \<longleftrightarrow> (\<exists>q1 q2. q' = q1 @ q2 \<and> list_all2 inject_moves q q1)"

lemma table_moves_refl: "table_moves q q"
  unfolding table_moves_def by (metis append_Nil2 inject_moves_refl list.rel_refl)

lemma table_moves_append: "table_moves q (q @ rs)"
  unfolding table_moves_def by (metis inject_moves_refl list.rel_refl)

lemma table_moves_trans: "table_moves a b \<Longrightarrow> table_moves b c \<Longrightarrow> table_moves a c"
proof -
  assume "table_moves a b" and "table_moves b c"
  then obtain b1 b2 c1 c2 where b: "b = b1 @ b2" "list_all2 inject_moves a b1"
    and c: "c = c1 @ c2" "list_all2 inject_moves b c1"
    by (auto simp: table_moves_def)
  then obtain d1 d2 where d: "c1 = d1 @ d2" "list_all2 inject_moves b1 d1"
    by (auto simp: list_all2_append1)
  have "list_all2 inject_moves a d1"
    by (rule list_all2_trans [OF _ b(2) d(2)]) (rule inject_moves_trans)
  with c d show "table_moves a c" by (auto simp: table_moves_def)
qed

lemma table_moves_update:
  assumes "\<And>r. r \<in> set q \<Longrightarrow> P r \<Longrightarrow> inject_moves r (f r)"
  shows "table_moves q (update_where P f q)"
proof -
  have "list_all2 inject_moves q (update_where P f q)"
    using assms by (induction q) auto
  then show ?thesis unfolding table_moves_def by (metis append_Nil2)
qed

lemma table_movesE:
  assumes "table_moves q q'" and "r \<in> set q"
  obtains r' where "r' \<in> set q'" "inject_moves r r'"
proof -
  obtain q1 q2 i where q: "q' = q1 @ q2" "list_all2 inject_moves q q1" "i < length q" "r = q ! i"
    using assms by (auto simp: table_moves_def in_set_conv_nth)
  then have "q1 ! i \<in> set q'" "inject_moves r (q1 ! i)"
    by (auto simp: list_all2_conv_all_nth)
  then show thesis by (rule that)
qed

lemma moves_simps [simp]:
  "is_pending iid r \<Longrightarrow> inject_moves r (deliver_row now r)"
  "is_pending iid r \<Longrightarrow> inject_moves r (expire_row now r)"
  "inj_status r = Inj_delivered \<Longrightarrow> inject_moves r (ack_row now r)"
  "inj_status r = Inj_pending \<Longrightarrow> inject_moves r (expire_row now r)"
  "inject_moves r (soft_delete now r)"
  by (auto simp: inject_moves_def deliver_row_def expire_row_def ack_row_def soft_delete_def touch_def
      is_pending_def life_le_def live_def)

lemma poll_selected:
  assumes "r \<in> set (poll_select now iid n rows)"
  shows "r \<in> set rows" "is_pending iid r" "now < expires_at r"
  using assms in_set_takeD by (fastforce simp: poll_select_def)+

lemma poll_deliver_moves:
  assumes "distinct (map row_id rows)"
  shows "table_moves rows (poll_deliver now iid n rows)"
  unfolding poll_deliver_def
proof (rule table_moves_update)
  fix r assume r: "r \<in> set rows" "row_id r \<in> set (map row_id (poll_select now iid n rows))"
  then obtain q where q: "q \<in> set (poll_select now iid n rows)" "row_id q = row_id r" by auto
  then have "q = r"
    using assms r(1) poll_selected(1) [OF q(1)] by (meson inj_on_contraD distinct_map)
  with poll_selected(2) [OF q(1)] show "inject_moves r (deliver_row now r)" by simp
qed

lemma inject_step_moves:
  assumes "inject_step hs s rows s'" and "audit_handlers hs" and ok: "inject_ok s"
  shows "table_moves (inject_queue s) (inject_queue s') \<and> inject_ok s'"
  using assms(1)
proof cases
  case (i_enqueue now iid kind mode payload tldr r)
  note e = enqueue_inject_effect [OF assms(2) i_enqueue(2)]
  have "row_id r = new_id s" by (simp add: e(1) new_inject_row_def)
  moreover have "new_id s \<notin> used_ids s" "used_ids s \<subseteq> used_ids s'" "new_id s \<in> used_ids s'"
    using ok e(3,4) new_id_fresh by (auto simp: inject_ok_def used_ids_def new_id_def)
  ultimately show ?thesis
    using ok e by (auto simp: inject_ok_def table_moves_append)
next
  case (i_poll now iid limit)
  let ?q = "poll_expire now iid (inject_queue s)"
  have d: "distinct (map row_id ?q)" using ok by (simp add: inject_ok_def)
  have "table_moves (inject_queue s) ?q"
    unfolding poll_expire_def by (rule table_moves_update) auto
  then have "table_moves (inject_queue s) (inject_queue s')"
    using i_poll poll_deliver_moves [OF d] table_moves_trans
    by (auto simp: poll_pending_injects_def Let_def)
  moreover have "map row_id (inject_queue s') = map row_id (inject_queue s)" "used_ids s' = used_ids s"
    "id_source s' = id_source s"
    using i_poll by (auto simp: poll_pending_injects_def Let_def used_ids_def)
  ultimately show ?thesis using ok unfolding inject_ok_def by (metis set_map)
next
  case (i_ack now ids n)
  have "distinct (map row_id (inject_queue s))" using ok by (simp add: inject_ok_def)
  note e = ack_injects_effect [OF assms(2) this i_ack(2)]
  have "table_moves (inject_queue s) (inject_queue s')"
    unfolding e(1) by (rule table_moves_update) (simp add: ackable_def)
  moreover have "map row_id (inject_queue s') = map row_id (inject_queue s)"
    unfolding e(1) by (rule map_update_where) simp
  moreover have "used_ids s \<subseteq> used_ids s'" by (rule used_ids_mono) (use e in auto)
  ultimately show ?thesis using ok e(3) unfolding inject_ok_def by (metis set_map subset_trans)
next
  case (i_fail now qid msg r')
  note e = mark_inject_failed_effect [OF assms(2) i_fail(2)]
  have ids: "used_ids s \<subseteq> used_ids s'" by (rule used_ids_mono) (use e in auto)
  show ?thesis
  proof (cases r')
    case None
    with e ids ok show ?thesis by (auto simp: inject_ok_def table_moves_refl)
  next
    case (Some x)
    then obtain r where r: "get_live (inject_queue s) qid = Some r"
      "x = modified now r (r\<lparr>inj_status := Inj_failed, error_message := Some msg\<rparr>)"
      "inject_queue s' = update_where (\<lambda>q. row_id q = qid) (\<lambda>_. x) (inject_queue s)"
      using e(4) by blast
    have d: "distinct (map row_id (inject_queue s))" using ok by (simp add: inject_ok_def)
    have x: "inject_moves r x" "row_id x = qid"
      using get_live_SomeD [OF r(1)] r(2)
      by (auto simp: inject_moves_def modified_def touch_def life_le_def live_def)
    have "table_moves (inject_queue s) (inject_queue s')"
      unfolding r(3) by (rule table_moves_update) (use same_id_row [OF d r(1)] x in auto)
    moreover have "map row_id (inject_queue s') = map row_id (inject_queue s)"
      unfolding r(3) by (rule map_update_where) (simp add: x)
    ultimately show ?thesis using ok ids e(1) unfolding inject_ok_def by (metis set_map subset_trans)
  qed
next
  case (i_sweep now n)
  have q: "inject_queue s' = update_where (overdue now) (expire_row now) (inject_queue s)"
    "id_source s' = id_source s" "used_ids s' = used_ids s"
    using i_sweep by (auto simp: sweep_expired_def used_ids_def)
  have "table_moves (inject_queue s) (inject_queue s')"
    unfolding q(1) by (rule table_moves_update) (simp add: overdue_def)
  moreover have "map row_id (inject_queue s') = map row_id (inject_queue s)"
    unfolding q(1) by (rule map_update_where) simp
  ultimately show ?thesis using ok q(2,3) unfolding inject_ok_def by (metis set_map)
next
  case (i_clean now n)
  have q: "inject_queue s' = update_where (completed_old now) (soft_delete now) (inject_queue s)"
    "id_source s' = id_source s" "used_ids s' = used_ids s"
    using i_clean by (auto simp: sweep_old_completed_def used_ids_def)
  have "table_moves (inject_queue s) (inject_queue s')"
    unfolding q(1) by (rule table_moves_update) simp
  moreover have "map row_id (inject_queue s') = map row_id (inject_queue s)"
    unfolding q(1) by (rule map_update_where) simp
  ultimately show ?thesis using ok q(2,3) unfolding inject_ok_def by (metis set_map)
qed

lemma inject_run_moves:
  assumes "inject_run hs s ds t" and "audit_handlers hs" and "inject_ok s"
  shows "table_moves (inject_queue s) (inject_queue t) \<and> inject_ok t"
  using assms(1,3)
proof induction
  case (run_step s ds t rows u)
  then show ?case using inject_step_moves [OF run_step.hyps(2) assms(2)] table_moves_trans by blast
qed (simp add: table_moves_refl)

text \<open>A row handed out is stored as delivered, and was pending before.\<close>

lemma poll_rows:
  assumes "poll_pending_injects now iid limit s = (s', rows)" and ok: "inject_ok s"
  shows "distinct (map row_id rows)"
    and "d \<in> set rows \<Longrightarrow> \<exists>r \<in> set (inject_queue s). row_id r = row_id d \<and> is_pending iid r"
    and "d \<in> set rows \<Longrightarrow> \<exists>r \<in> set (inject_queue s'). row_id r = row_id d \<and> inj_status r = Inj_delivered"
proof -
  let ?q = "poll_expire now iid (inject_queue s)"
  let ?sel = "poll_select now iid limit ?q"
  have rows: "rows = map (deliver_row now) ?sel" and q': "inject_queue s' = poll_deliver now iid limit ?q"
    using assms(1) by (auto simp: poll_pending_injects_def Let_def)
  have d: "distinct (map row_id ?q)" using ok by (simp add: inject_ok_def)
  have "?sel = take limit (waiting now iid ?q)" by (simp add: poll_select_def waiting_def)
  then have "distinct (map row_id ?sel)"
    using waiting_distinct [OF d, of now iid] by (simp only: take_map [symmetric] distinct_take)
  then show "distinct (map row_id rows)" by (simp add: rows comp_def)
  assume "d \<in> set rows"
  then obtain r where r: "r \<in> set ?sel" "d = deliver_row now r" by (auto simp: rows)
  note sel = poll_selected [OF r(1)]
  from sel(1,2) obtain r0 where "r0 \<in> set (inject_queue s)" "row_id r0 = row_id r" "is_pending iid r0"
    unfolding poll_expire_def by (auto elim!: update_whereE)
  then show "\<exists>r \<in> set (inject_queue s). row_id r = row_id d \<and> is_pending iid r"
    using r(2) by auto
  have "deliver_row now r \<in> set (inject_queue s')"
    unfolding q' poll_deliver_def using sel(1) r(1) by (intro update_where_hit) auto
  then show "\<exists>r \<in> set (inject_queue s'). row_id r = row_id d \<and> inj_status r = Inj_delivered"
    using r(2) by (auto intro!: bexI [of _ "deliver_row now r"])
qed

lemma inject_step_rows:
  assumes "inject_step hs s rows s'"
  shows "rows = [] \<or> (\<exists>now iid limit. poll_pending_injects now iid limit s = (s', rows))"
  using assms by cases blast+

lemma inject_run_once:
  assumes "inject_run hs s ds t" and "audit_handlers hs" and "inject_ok s"
  shows "distinct (map row_id ds) \<and>
    (\<forall>d \<in> set ds. \<exists>r \<in> set (inject_queue t). row_id r = row_id d \<and> inj_status r \<noteq> Inj_pending)"
  using assms(1,3)
proof induction
  case (run_step s ds t rows u)
  have ok: "inject_ok t" using inject_run_moves [OF run_step.hyps(1) assms(2) run_step.prems] by simp
  have mv: "table_moves (inject_queue t) (inject_queue u)"
    using inject_step_moves [OF run_step.hyps(2) assms(2) ok] by simp
  have old: "\<exists>r \<in> set (inject_queue u). row_id r = row_id d \<and> inj_status r \<noteq> Inj_pending"
    if d: "d \<in> set ds" for d
  proof -
    obtain r where r: "r \<in> set (inject_queue t)" "row_id r = row_id d" "inj_status r \<noteq> Inj_pending"
      using run_step.IH [OF run_step.prems] d by blast
    obtain r' where "r' \<in> set (inject_queue u)" "inject_moves r r'" by (rule table_movesE [OF mv r(1)])
    moreover have "inj_status r' \<noteq> Inj_pending" using calculation(2) r(3)
      by (auto simp: inject_moves_def life_le_def)
    ultimately show ?thesis using r(2) by (auto simp: inject_moves_def)
  qed
  from inject_step_rows [OF run_step.hyps(2)] show ?case
  proof
    assume "rows = []"
    with run_step.IH [OF run_step.prems] old show ?case by simp
  next
    assume "\<exists>now iid limit. poll_pending_injects now iid limit t = (u, rows)"
    then obtain now iid limit where p: "poll_pending_injects now iid limit t = (u, rows)" by blast
    note P = poll_rows [OF p ok]
    have "row_id d \<noteq> row_id d'" if d: "d \<in> set ds" and d': "d' \<in> set rows" for d d'
    proof
      assume eq: "row_id d = row_id d'"
      obtain r where r: "r \<in> set (inject_queue t)" "row_id r = row_id d" "inj_status r \<noteq> Inj_pending"
        using run_step.IH [OF run_step.prems] d by blast
      obtain r' where r': "r' \<in> set (inject_queue t)" "row_id r' = row_id d'" "is_pending iid r'"
        using P(2) [OF d'] by blast
      have "inj_on row_id (set (inject_queue t))" using ok by (simp add: inject_ok_def distinct_map)
      then have "r = r'" by (rule inj_onD) (simp_all add: r r' eq [symmetric])
      with r r' show False by (simp add: is_pending_def)
    qed
    then have "distinct (map row_id (ds @ rows))"
      using P(1) run_step.IH [OF run_step.prems] by (auto simp: image_iff)
    moreover have "\<exists>r \<in> set (inject_queue u). row_id r = row_id d \<and> inj_status r \<noteq> Inj_pending"
      if "d \<in> set rows" for d
      using P(3) [OF that] by fastforce
    ultimately show ?case using old by auto
  qed
qed simp

section \<open>A queue to evaluate on\<close>

definition sample_instance :: instance_row where
  "sample_instance = \<lparr>row_id = ''x'', created_at = 0, updated_at = 0, deleted_at = None,
     ins_entity_id = ''e'', ins_workspace_id = ''w'', workspace_path = None,
     ins_status = I_running, runtime_config = None, proxy_token = None, active_hash = None\<rparr>"

definition sample_inbox :: db where
  "sample_inbox = (empty_db sample_ids)\<lparr>instances := [sample_instance],
     inject_queue := [new_inject_row 10 ''i'' ''x'' ''collab_inject'' ''wake'' [(''text'', JStr ''a'')],
                      new_inject_row 20 ''ii'' ''x'' ''gene_inject'' ''notify'' []],
     id_next := 2\<rparr>"

lemma sample_inbox_ok: "inject_ok sample_inbox"
proof -
  have "''i'' = sample_ids 0" "''ii'' = sample_ids 1" by (simp_all add: sample_ids_def)
  then have "{''i'', ''ii''} \<subseteq> sample_ids ` {..<2}" by auto
  then show ?thesis
    by (simp add: inject_ok_def sample_inbox_def empty_db_def sample_ids_ok new_inject_row_def
        used_ids_def)
qed

lemma sample_poll:
  "\<exists>s' d. poll_pending_injects 30 ''x'' 1 sample_inbox = (s', [d]) \<and> row_id d = ''i''"
  by (simp add: poll_pending_injects_def poll_select_def poll_expire_def poll_deliver_def
      sample_inbox_def empty_db_def new_inject_row_def is_pending_def fifo_key_def DEFAULT_TTL_def
      seconds_def live_def deliver_row_def touch_def)

section \<open>Properties\<close>

text \<open>
  C3. At most once: along every run of enqueues, polls, acknowledgements, failures and sweeps, no
  row is handed to the host twice, whatever handlers are registered that leave the queue alone.
\<close>

theorem inject_at_most_once:
  assumes "inject_run hs s delivered t" and "audit_handlers hs" and "inject_ok s"
  shows "distinct (map row_id delivered)"
  using inject_run_once [OF assms] by simp

lemma inject_at_most_once_witness:
  "\<exists>s1 s2 d ds. poll_pending_injects 30 ''x'' 1 sample_inbox = (s1, [d]) \<and> row_id d = ''i'' \<and>
     poll_pending_injects 31 ''x'' 5 s1 = (s2, ds) \<and> distinct (map row_id ([d] @ ds))"
proof -
  obtain s1 d where p1: "poll_pending_injects 30 ''x'' 1 sample_inbox = (s1, [d])" "row_id d = ''i''"
    using sample_poll by blast
  obtain s2 ds where p2: "poll_pending_injects 31 ''x'' 5 s1 = (s2, ds)" by fastforce
  have "inject_run [] sample_inbox ([] @ [d]) s1" by (rule run_step [OF run_nil i_poll [OF p1(1)]])
  then have "inject_run [] sample_inbox (([] @ [d]) @ ds) s2" by (rule run_step [OF _ i_poll [OF p2]])
  from inject_at_most_once [OF this _ sample_inbox_ok] p1 p2 show ?thesis by auto
qed

text \<open>
  C6. Polling refines taking from a FIFO: it hands out the first \<open>limit\<close> waiting rows of the
  instance in the order of creation, marked as delivered, leaves exactly the others waiting, and
  every row it hands out is unexpired and precedes every row still waiting.
\<close>

theorem poll_refines_fifo:
  assumes "distinct (map row_id (inject_queue s))"
    and "poll_pending_injects now iid limit s = (s', rows)"
  shows "rows = map (deliver_row now) (take limit (waiting now iid (inject_queue s))) \<and>
    waiting now iid (inject_queue s') = drop limit (waiting now iid (inject_queue s)) \<and>
    (\<forall>d \<in> set rows. now < expires_at d \<and>
       (\<forall>r \<in> set (waiting now iid (inject_queue s')). fifo_key d < fifo_key r))"
proof -
  let ?q = "poll_expire now iid (inject_queue s)"
  have d: "distinct (map row_id ?q)" using assms(1) by simp
  have rows: "rows = map (deliver_row now) (poll_select now iid limit ?q)"
    and q': "inject_queue s' = poll_deliver now iid limit ?q"
    using assms(2) by (auto simp: poll_pending_injects_def Let_def)
  have "fifo_key x < fifo_key r"
    if "x \<in> set (poll_select now iid limit ?q)" "r \<in> set (waiting now iid (inject_queue s'))" for x r
    using inbox.selected_first [OF d that(1)] that(2) by (simp add: q')
  moreover have "fifo_key (deliver_row now x) = fifo_key x" "expires_at (deliver_row now x) = expires_at x"
    for x by (simp_all add: fifo_key_def deliver_row_def touch_def)
  moreover have "now < expires_at x" if "x \<in> set (take limit (waiting now iid (inject_queue s)))" for x
    using in_set_takeD [OF that] by (simp add: waiting_set)
  ultimately show ?thesis
    using inbox.select_items [OF d, of now iid limit] inbox.remove_items [OF d, of now iid limit]
    by (auto simp: rows q')
qed

lemma poll_refines_fifo_witness:
  "\<exists>s' rows. poll_pending_injects 30 ''x'' 1 sample_inbox = (s', rows) \<and> map row_id rows = [''i''] \<and>
     map row_id (waiting 30 ''x'' (inject_queue s')) = [''ii'']"
proof -
  obtain s' d where p: "poll_pending_injects 30 ''x'' 1 sample_inbox = (s', [d])" "row_id d = ''i''"
    using sample_poll by blast
  have d: "distinct (map row_id (inject_queue sample_inbox))"
    using sample_inbox_ok by (simp add: inject_ok_def)
  have w: "map row_id (waiting 30 ''x'' (inject_queue sample_inbox)) = [''i'', ''ii'']"
    by (simp add: waiting_def sample_inbox_def new_inject_row_def is_pending_def live_def fifo_key_def
        DEFAULT_TTL_def seconds_def)
  from poll_refines_fifo [OF d p(1)]
  have "waiting 30 ''x'' (inject_queue s') = drop 1 (waiting 30 ''x'' (inject_queue sample_inbox))"
    by blast
  then have "map row_id (waiting 30 ''x'' (inject_queue s')) = drop 1 [''i'', ''ii'']"
    by (simp only: drop_map [symmetric] w)
  with p show ?thesis by auto
qed



text \<open>
  Acknowledging: exactly the live delivered rows that were named become acked and are counted,
  and acknowledging the same identifiers again changes nothing and counts none.
\<close>

theorem ack_injects_idempotent:
  assumes "audit_handlers hs" and "distinct (map row_id (inject_queue s))"
    and "ack_injects hs now ids s = (s1, n)" and "ack_injects hs later ids s1 = (s2, m)"
  shows "inject_queue s1 = update_where (ackable ids) (ack_row now) (inject_queue s) \<and>
    n = count_where (ackable ids) (inject_queue s) \<and> inject_queue s2 = inject_queue s1 \<and> m = 0"
proof -
  note e1 = ack_injects_effect [OF assms(1-3)]
  have "map row_id (inject_queue s1) = map row_id (inject_queue s)"
    unfolding e1(1) by (rule map_update_where) simp
  then have "distinct (map row_id (inject_queue s1))" using assms(2) by simp
  note e2 = ack_injects_effect [OF assms(1) this assms(4)]
  have none: "\<not> ackable ids r" if "r \<in> set (inject_queue s1)" for r
    using that unfolding e1(1) by (auto simp: ackable_def elim!: update_whereE)
  then have "filter (ackable ids) (inject_queue s1) = []" by (simp add: filter_empty_conv)
  with e1 e2 none show ?thesis by (simp add: count_where_def)
qed

lemma ack_injects_idempotent_witness:
  "snd (ack_injects [] 40 [''i''] (fst (ack_injects [] 40 [''i'']
     (fst (poll_pending_injects 30 ''x'' 1 sample_inbox))))) = 0"
proof -
  let ?s = "fst (poll_pending_injects 30 ''x'' 1 sample_inbox)"
  obtain s1 n where a1: "ack_injects [] 40 [''i''] ?s = (s1, n)" by fastforce
  obtain s2 m where a2: "ack_injects [] 40 [''i''] s1 = (s2, m)" by fastforce
  have "distinct (map row_id (inject_queue ?s))"
    using sample_inbox_ok by (simp add: inject_ok_def poll_pending_injects_def Let_def)
  from ack_injects_idempotent [OF audit_handlers_Nil this a1 a2] a1 a2 show ?thesis by simp
qed

text \<open>
  Admission: an inject is accepted if and only if its kind and mode are known, its instance
  exists, a given tldr has at most 200 characters, and prose of more than 240 characters comes with
  a tldr that is not blank.
\<close>

theorem enqueue_inject_accepts:
  "is_ok (enqueue_inject hs now iid kind mode payload tldr s) \<longleftrightarrow>
     kind \<in> {''collab_inject'', ''gene_inject'', ''capability_inject'', ''cerebellum_route''} \<and>
     mode \<in> {''notify'', ''soft_inject'', ''wake''} \<and> fk_exists (instances s) iid \<and>
     (case tldr of None \<Rightarrow> compute_prose_length payload \<le> 240
      | Some t \<Rightarrow> length t \<le> 200 \<and> (if strip t = [] then compute_prose_length payload \<le> 240 else True))"
  by (auto simp: enqueue_inject_def inject_enqueue_request_def validate_tldr_def report_prose_length_def
      INJECT_KINDS_def DELIVERY_MODES_def TLDR_MAX_CHARS_def PROSE_THRESHOLD_CHARS_def Let_def
      split: option.splits if_splits)

text \<open>
  First in, first out: an accepted inject whose creation time is later than that of the rows
  waiting goes to the end of its instance's queue and disturbs nobody else's.
\<close>

theorem enqueue_goes_last:
  assumes "audit_handlers hs" and "inject_ok s"
    and "enqueue_inject hs now iid kind mode payload tldr s = Inr (s', r)"
    and "\<And>q. q \<in> set (waiting now iid (inject_queue s)) \<Longrightarrow> created_at q < now"
  shows "waiting now iid (inject_queue s') = waiting now iid (inject_queue s) @ [r] \<and>
    (other \<noteq> iid \<longrightarrow> waiting now other (inject_queue s') = waiting now other (inject_queue s))"
proof -
  note e = enqueue_inject_effect [OF assms(1,3)]
  have r: "row_id r = new_id s" "is_pending iid r" "now < expires_at r" "created_at r = now"
    "other \<noteq> iid \<Longrightarrow> \<not> is_pending other r"
    by (simp_all add: e(1) new_inject_row_def is_pending_def live_def DEFAULT_TTL_def seconds_def)
  have "row_id r \<notin> row_id ` set (inject_queue s)"
    using assms(2) r(1) new_id_fresh by (auto simp: inject_ok_def)
  then have acc: "inject_accepts now iid r (inject_queue s)" using r by (simp add: inject_accepts_def)
  have "fifo_key q < fifo_key r" if "q \<in> set (waiting now iid (inject_queue s))" for q
    using assms(4) [OF that] r by (simp add: fifo_key_def less_prod_def)
  with acc assms(2) have "waiting now iid (inject_queue s @ [r]) = waiting now iid (inject_queue s) @ [r]"
    by (intro inbox.put_last) (simp_all add: inject_ok_def)
  with e(2) r(5) show ?thesis by (simp add: waiting_def)
qed

lemma enqueue_goes_last_witness:
  "\<exists>s' r. enqueue_inject [] 30 ''x'' ''collab_inject'' ''wake'' [] None sample_inbox = Inr (s', r) \<and>
     waiting 30 ''x'' (inject_queue s') = waiting 30 ''x'' (inject_queue sample_inbox) @ [r]"
proof -
  have "is_ok (enqueue_inject [] 30 ''x'' ''collab_inject'' ''wake'' [] None sample_inbox)"
    by (simp add: enqueue_inject_def inject_enqueue_request_def validate_tldr_def
        INJECT_KINDS_def DELIVERY_MODES_def compute_prose_length_def report_prose_length_def
        text_length_def PROSE_THRESHOLD_CHARS_def fk_exists_def sample_inbox_def sample_instance_def
        Let_def)
  then obtain s' r where r: "enqueue_inject [] 30 ''x'' ''collab_inject'' ''wake'' [] None sample_inbox
      = Inr (s', r)" by (auto elim!: is_okE)
  have "created_at q < 30" if "q \<in> set (waiting 30 ''x'' (inject_queue sample_inbox))" for q
    using that by (auto simp: waiting_set sample_inbox_def new_inject_row_def)
  from enqueue_goes_last [OF audit_handlers_Nil sample_inbox_ok r this] r show ?thesis by blast
qed

end
