(* ===== verification/Task_Queue.thy ===== *)
theory Task_Queue
  imports Priority_Inbox "HOL-Library.Multiset"
begin

text \<open>
  The delayed task queue (\<^verbatim>\<open>app/core/queue.py\<close>). \<open>asyncio.PriorityQueue\<close> is the list of its
  entries in heap order, smallest \<open>(run_at, seq)\<close> first. The worker coroutine is a state machine
  whose states are the points where it can be suspended; clients (enqueue, register, start, stop)
  and the clock interleave with it, one atomic section at a time. The event loop's clock is a
  count of microseconds.
\<close>

section \<open>State\<close>

record task =
  run_at :: int
  task_seq :: nat
  task_id :: ident
  task_name :: string
  task_payload :: json_obj

datatype worker =
    NotStarted          \<comment> \<open>\<open>_worker_task is None\<close>\<close>
  | LoopTop             \<comment> \<open>about to test \<open>while not self._stopping\<close>\<close>
  | WaitWakeup          \<comment> \<open>\<open>await self._wakeup.wait()\<close> on the empty queue\<close>
  | Sleeping task       \<comment> \<open>\<open>asyncio.wait_for\<close>, holding the popped head\<close>
  | Executing task      \<comment> \<open>inside \<open>_execute\<close>\<close>
  | Finished            \<comment> \<open>left the loop\<close>

record task_queue =
  tq_queue :: "task list"
  tq_handlers :: "string list"
  tq_seq :: nat
  tq_wakeup :: bool
  tq_stopping :: bool
  tq_worker :: worker

definition tq_init :: task_queue where
  "tq_init = \<lparr>tq_queue = [], tq_handlers = [], tq_seq = 0, tq_wakeup = False,
              tq_stopping = False, tq_worker = NotStarted\<rparr>"

definition task_key :: "task \<Rightarrow> int \<times> nat" where
  "task_key t = (run_at t, task_seq t)"

datatype queue_error = UnknownTask string | AlreadyRegistered string

section \<open>Operations\<close>

definition tq_enqueue ::
    "int \<Rightarrow> ident \<Rightarrow> string \<Rightarrow> int \<Rightarrow> json_obj option \<Rightarrow> task_queue \<Rightarrow> queue_error + task_queue \<times> task"
where
  "tq_enqueue now tid name delay payload q =
     (if name \<notin> set (tq_handlers q) then Inl (UnknownTask name)
      else let t = \<lparr>run_at = now + delay, task_seq = Suc (tq_seq q), task_id = tid,
                    task_name = name,
                    task_payload = (case payload of None \<Rightarrow> [] | Some p \<Rightarrow> p)\<rparr>
           in Inr (q\<lparr>tq_seq := Suc (tq_seq q), tq_queue := insort_key task_key t (tq_queue q),
                     tq_wakeup := True\<rparr>, t))"

definition register_task :: "string \<Rightarrow> task_queue \<Rightarrow> queue_error + task_queue" where
  "register_task name q =
     (if name \<in> set (tq_handlers q) then Inl (AlreadyRegistered name)
      else Inr (q\<lparr>tq_handlers := tq_handlers q @ [name]\<rparr>))"

definition tq_start :: "task_queue \<Rightarrow> task_queue" where
  "tq_start q = (if tq_worker q \<noteq> NotStarted then q
                 else q\<lparr>tq_stopping := False, tq_worker := LoopTop\<rparr>)"

text \<open>\<open>stop\<close> up to \<open>await self._worker_task\<close>, and its rest once the worker has left the loop.\<close>

definition tq_stop :: "task_queue \<Rightarrow> task_queue" where
  "tq_stop q = q\<lparr>tq_stopping := True, tq_wakeup := True\<rparr>"

definition tq_stopped :: "task_queue \<Rightarrow> task_queue option" where
  "tq_stopped q = (if tq_worker q = Finished then Some (q\<lparr>tq_worker := NotStarted\<rparr>) else None)"

text \<open>
  One atomic section of \<open>_worker_loop\<close>; \<open>None\<close> when the coroutine is suspended (or not running).
  The second component is the task whose handler starts in this section.
\<close>

definition worker_step :: "int \<Rightarrow> task_queue \<Rightarrow> (task_queue \<times> task option) option" where
  "worker_step now q =
     (case tq_worker q of
        NotStarted \<Rightarrow> None
      | Finished \<Rightarrow> None
      | LoopTop \<Rightarrow>
          if tq_stopping q then Some (q\<lparr>tq_worker := Finished\<rparr>, None)
          else (case tq_queue q of
             [] \<Rightarrow> Some (q\<lparr>tq_wakeup := False, tq_worker := WaitWakeup\<rparr>, None)
           | t # ts \<Rightarrow>
               if run_at t - now \<le> 0
               then Some (q\<lparr>tq_queue := ts, tq_worker := Executing t\<rparr>, Some t)
               else Some (q\<lparr>tq_queue := ts, tq_wakeup := False, tq_worker := Sleeping t\<rparr>, None))
      | WaitWakeup \<Rightarrow> if tq_wakeup q then Some (q\<lparr>tq_worker := LoopTop\<rparr>, None) else None
      | Sleeping t \<Rightarrow>
          if tq_wakeup q
          then Some (q\<lparr>tq_queue := insort_key task_key t (tq_queue q), tq_worker := LoopTop\<rparr>, None)
          else if run_at t \<le> now then Some (q\<lparr>tq_worker := Executing t\<rparr>, Some t)
          else None
      | Executing t \<Rightarrow> Some (q\<lparr>tq_worker := LoopTop\<rparr>, None))"

section \<open>The heap as a priority inbox\<close>

interpretation heap: priority_inbox task_key
    "\<lambda>ts. sorted (map task_key ts) \<and> distinct (map task_key ts)"
    "\<lambda>t ts. task_key t \<notin> task_key ` set ts" "\<lambda>ts. ts" "insort_key task_key" take drop
  by unfold_locales
    (auto simp: sorted_insort_key distinct_map set_insort_key sorted_wrt_drop drop_map[symmetric]
      distinct_insort inj_on_insert dest: in_set_dropD intro: inj_on_subset)

section \<open>Interleavings\<close>

datatype tq_label = Tau | Enq task | Exec int task

inductive tq_step :: "int \<times> task_queue \<Rightarrow> tq_label \<Rightarrow> int \<times> task_queue \<Rightarrow> bool" where
  s_tick: "0 \<le> d \<Longrightarrow> tq_step (now, q) Tau (now + d, q)"
| s_enqueue: "tq_enqueue now tid name delay payload q = Inr (q', t) \<Longrightarrow>
    tq_step (now, q) (Enq t) (now, q')"
| s_register: "register_task name q = Inr q' \<Longrightarrow> tq_step (now, q) Tau (now, q')"
| s_start: "tq_step (now, q) Tau (now, tq_start q)"
| s_stop: "tq_step (now, q) Tau (now, tq_stop q)"
| s_stopped: "tq_stopped q = Some q' \<Longrightarrow> tq_step (now, q) Tau (now, q')"
| s_worker: "worker_step now q = Some (q', None) \<Longrightarrow> tq_step (now, q) Tau (now, q')"
| s_exec: "worker_step now q = Some (q', Some t) \<Longrightarrow> tq_step (now, q) (Exec now t) (now, q')"

inductive_cases tq_stepE: "tq_step c l c'"

inductive tq_run :: "int \<times> task_queue \<Rightarrow> tq_label list \<Rightarrow> int \<times> task_queue \<Rightarrow> bool" where
  r_nil: "tq_run c [] c"
| r_snoc: "tq_run c ls c' \<Longrightarrow> tq_step c' l c'' \<Longrightarrow> tq_run c (ls @ [l]) c''"

fun label_enq :: "tq_label \<Rightarrow> task list" where
  "label_enq (Enq t) = [t]" | "label_enq l = []"

fun label_exec :: "tq_label \<Rightarrow> task list" where
  "label_exec (Exec now t) = [t]" | "label_exec l = []"

definition enqueued :: "tq_label list \<Rightarrow> task list" where
  "enqueued ls = concat (map label_enq ls)"

definition executed :: "tq_label list \<Rightarrow> task list" where
  "executed ls = concat (map label_exec ls)"

lemma trace_simps [simp]:
  "enqueued [] = []" "executed [] = []"
  "enqueued (ls @ [l]) = enqueued ls @ label_enq l"
  "executed (ls @ [l]) = executed ls @ label_exec l"
  by (simp_all add: enqueued_def executed_def)

text \<open>The task the worker has popped and not yet started.\<close>

fun in_hand :: "worker \<Rightarrow> task list" where
  "in_hand (Sleeping t) = [t]" | "in_hand w = []"

definition pending_tasks :: "task_queue \<Rightarrow> task list" where
  "pending_tasks q = in_hand (tq_worker q) @ tq_queue q"

text \<open>
  The invariant: the heap is ordered, sequence numbers are distinct and not above the counter, and
  no wake-up is lost: while the flag is clear, a worker waiting on the empty queue has an empty
  queue, and a sleeping worker holds the least task.
\<close>

definition tq_ok :: "task_queue \<Rightarrow> bool" where
  "tq_ok q \<longleftrightarrow> sorted (map task_key (tq_queue q)) \<and>
     distinct (map task_seq (pending_tasks q)) \<and>
     (\<forall>t \<in> set (pending_tasks q). task_seq t \<le> tq_seq q) \<and>
     (tq_worker q = WaitWakeup \<and> \<not> tq_wakeup q \<longrightarrow> tq_queue q = []) \<and>
     (\<forall>t. tq_worker q = Sleeping t \<and> \<not> tq_wakeup q \<longrightarrow>
        (\<forall>x \<in> set (tq_queue q). task_key t < task_key x))"

lemma tq_init_ok [simp]: "tq_ok tq_init"
  by (simp add: tq_ok_def tq_init_def pending_tasks_def)

lemma seq_distinct_key: "distinct (map task_seq ts) \<Longrightarrow> distinct (map task_key ts)"
  by (auto simp: distinct_map task_key_def inj_on_def)

lemma fresh_seq_key: "task_seq t \<notin> task_seq ` set ts \<Longrightarrow> task_key t \<notin> task_key ` set ts"
  by (auto simp: task_key_def)

lemma distinct_insort_seq:
  "distinct (map task_seq (insort_key task_key t ts)) \<longleftrightarrow>
   task_seq t \<notin> task_seq ` set ts \<and> distinct (map task_seq ts)"
  by (induction ts) (auto simp: set_insort_key)

lemma tq_enqueue_cases:
  assumes "tq_enqueue now tid name delay payload q = Inr (q', t)"
  obtains "t = \<lparr>run_at = now + delay, task_seq = Suc (tq_seq q), task_id = tid, task_name = name,
      task_payload = (case payload of None \<Rightarrow> [] | Some p \<Rightarrow> p)\<rparr>"
    "q' = q\<lparr>tq_seq := Suc (tq_seq q), tq_queue := insort_key task_key t (tq_queue q),
            tq_wakeup := True\<rparr>"
    "name \<in> set (tq_handlers q)"
  using assms by (auto simp: tq_enqueue_def Let_def split: if_splits)

lemma tq_enqueue_ok:
  assumes "tq_ok q" and "tq_enqueue now tid name delay payload q = Inr (q', t)"
  shows "tq_ok q'"
  using assms(2)
proof (rule tq_enqueue_cases)
  assume t: "t = \<lparr>run_at = now + delay, task_seq = Suc (tq_seq q), task_id = tid, task_name = name,
      task_payload = (case payload of None \<Rightarrow> [] | Some p \<Rightarrow> p)\<rparr>"
    and q': "q' = q\<lparr>tq_seq := Suc (tq_seq q), tq_queue := insort_key task_key t (tq_queue q),
            tq_wakeup := True\<rparr>"
  have seq: "task_seq t = Suc (tq_seq q)" by (simp add: t)
  have fresh: "task_seq t \<notin> task_seq ` set (pending_tasks q)"
    using assms(1) by (fastforce simp: tq_ok_def seq)
  with assms(1) seq show ?thesis
    by (auto simp: tq_ok_def q' pending_tasks_def sorted_insort_key distinct_insort_seq set_insort_key
        le_SucI)
qed

lemma worker_step_ok:
  assumes ok: "tq_ok q" and step: "worker_step now q = Some (q', out)"
  shows "tq_ok q'"
proof (cases "tq_worker q")
  case LoopTop
  show ?thesis
  proof (cases "tq_stopping q \<or> tq_queue q = []")
    case True
    with LoopTop step ok show ?thesis
      by (auto simp: worker_step_def tq_ok_def pending_tasks_def split: if_splits)
  next
    case False
    then obtain t ts where q: "tq_queue q = t # ts" by (auto simp: neq_Nil_conv)
    have "distinct (map task_key (t # ts))"
      using ok LoopTop q by (intro seq_distinct_key) (simp add: tq_ok_def pending_tasks_def)
    then have "\<forall>x \<in> set ts. task_key t < task_key x"
      using ok q by (auto simp: tq_ok_def less_le image_iff)
    with LoopTop step ok False q show ?thesis
      by (auto simp: worker_step_def tq_ok_def pending_tasks_def split: if_splits)
  qed
next
  case (Sleeping t)
  with step ok show ?thesis
    by (auto simp: worker_step_def tq_ok_def pending_tasks_def sorted_insort_key distinct_insort_seq
        set_insort_key split: if_splits)
qed (use step ok in \<open>auto simp: worker_step_def tq_ok_def pending_tasks_def split: if_splits\<close>)

lemma tq_ok_frame:
  assumes "tq_ok q" "tq_queue q' = tq_queue q" "in_hand (tq_worker q') = in_hand (tq_worker q)"
    "tq_seq q' = tq_seq q" "tq_wakeup q \<longrightarrow> tq_wakeup q'"
    "tq_worker q' = tq_worker q \<or> tq_worker q' \<in> {NotStarted, LoopTop, Finished}"
  shows "tq_ok q'"
proof -
  have p: "pending_tasks q' = pending_tasks q" using assms(2,3) by (simp add: pending_tasks_def)
  have "tq_queue q = []" if "tq_worker q' = WaitWakeup \<and> \<not> tq_wakeup q'"
    using assms(1,5,6) that by (auto simp: tq_ok_def)
  moreover have "\<forall>x \<in> set (tq_queue q). task_key t < task_key x"
    if "tq_worker q' = Sleeping t \<and> \<not> tq_wakeup q'" for t
    using assms(1,5,6) that by (auto simp: tq_ok_def)
  ultimately show ?thesis using assms(1,2,4) by (simp add: tq_ok_def p)
qed

lemma tq_step_ok [inv_intros]:
  assumes "tq_step (now, q) l (now', q')" and "tq_ok q"
  shows "tq_ok q'"
  using assms(1)
proof cases
  case s_register
  then show ?thesis
    by (intro tq_ok_frame [OF assms(2)]) (auto simp: register_task_def split: if_splits)
next
  case s_start
  then show ?thesis by (intro tq_ok_frame [OF assms(2)]) (auto simp: tq_start_def)
next
  case s_stop
  then show ?thesis by (intro tq_ok_frame [OF assms(2)]) (auto simp: tq_stop_def)
next
  case s_stopped
  then show ?thesis
    by (intro tq_ok_frame [OF assms(2)]) (auto simp: tq_stopped_def split: if_splits)
next
  case s_enqueue
  then show ?thesis using tq_enqueue_ok [OF assms(2)] by blast
next
  case s_worker
  then show ?thesis using worker_step_ok [OF assms(2)] by blast
next
  case s_exec
  then show ?thesis using worker_step_ok [OF assms(2)] by blast
qed (use assms(2) in simp)

text \<open>What a worker section does to the tasks in the queue.\<close>

lemma worker_step_tasks:
  assumes "worker_step now q = Some (q', out)"
  shows "mset (pending_tasks q) = mset (pending_tasks q') + mset (case out of None \<Rightarrow> [] | Some t \<Rightarrow> [t])"
    and "tq_seq q' = tq_seq q"
    and "out = Some t \<Longrightarrow> run_at t \<le> now"
  using assms
  by (auto simp: worker_step_def pending_tasks_def split: worker.splits if_splits list.splits)

lemma executed_is_least:
  assumes ok: "tq_ok q" and step: "worker_step now q = Some (q', Some t)" and x: "x \<in> set (pending_tasks q')"
  shows "task_key t < task_key x"
proof (cases "tq_worker q")
  case LoopTop
  then have q: "tq_queue q = t # tq_queue q'" and w: "tq_worker q' = Executing t"
    using step by (auto simp: worker_step_def split: if_splits list.splits)
  have d: "distinct (map task_key (t # tq_queue q'))"
    using ok LoopTop unfolding q [symmetric] by (intro seq_distinct_key) (simp add: tq_ok_def pending_tasks_def)
  have "sorted (map task_key (tq_queue q))" using ok by (simp add: tq_ok_def)
  then show ?thesis
    using heap.selected_first [of "tq_queue q" t 1 x] d x w by (simp add: q pending_tasks_def)
next
  case (Sleeping u)
  then show ?thesis
    using step ok x by (auto simp: worker_step_def tq_ok_def pending_tasks_def split: if_splits)
qed (use step in \<open>auto simp: worker_step_def split: if_splits\<close>)

section \<open>Facts about runs\<close>

lemma tq_run_ok:
  "tq_run c ls c' \<Longrightarrow> tq_ok (snd c) \<Longrightarrow> tq_ok (snd c')"
proof (induction rule: tq_run.induct)
  case (r_snoc c ls c' l c'')
  then show ?case using tq_step_ok [of "fst c'" "snd c'" l "fst c''" "snd c''"] by simp
qed simp

lemma tq_step_tasks:
  assumes "tq_step (now, q) l (now', q')"
  shows "mset (pending_tasks q) + mset (label_enq l) = mset (pending_tasks q') + mset (label_exec l)"
    and "tq_seq q' = tq_seq q + length (label_enq l)"
    and "map task_seq (label_enq l) = [Suc (tq_seq q)..<Suc (tq_seq q')]"
  using assms
proof -
  have "mset (pending_tasks q) + mset (label_enq l) = mset (pending_tasks q') + mset (label_exec l) \<and>
    tq_seq q' = tq_seq q + length (label_enq l) \<and>
    map task_seq (label_enq l) = [Suc (tq_seq q)..<Suc (tq_seq q')]"
    using assms
  proof cases
    case (s_enqueue tid name delay payload t)
    then show ?thesis by (auto simp: pending_tasks_def elim!: tq_enqueue_cases)
  next
    case s_worker
    from worker_step_tasks [OF s_worker(3)] show ?thesis by (simp add: s_worker)
  next
    case (s_exec t)
    from worker_step_tasks [OF s_exec(3)] show ?thesis by (simp add: s_exec)
  next
    case s_start
    then show ?thesis by (auto simp: tq_start_def pending_tasks_def)
  qed (auto simp: pending_tasks_def register_task_def tq_stop_def tq_stopped_def split: if_splits)
  then show "mset (pending_tasks q) + mset (label_enq l) = mset (pending_tasks q') + mset (label_exec l)"
    "tq_seq q' = tq_seq q + length (label_enq l)"
    "map task_seq (label_enq l) = [Suc (tq_seq q)..<Suc (tq_seq q')]" by auto
qed

lemma tq_run_tasks:
  "tq_run c ls c' \<Longrightarrow>
   mset (pending_tasks (snd c)) + mset (enqueued ls) = mset (pending_tasks (snd c')) + mset (executed ls) \<and>
   tq_seq (snd c) \<le> tq_seq (snd c') \<and>
   map task_seq (enqueued ls) = [Suc (tq_seq (snd c))..<Suc (tq_seq (snd c'))]"
proof (induction rule: tq_run.induct)
  case (r_snoc c ls c' l c'')
  obtain n q where c': "c' = (n, q)" by (cases c')
  obtain n' q' where c'': "c'' = (n', q')" by (cases c'')
  note st = tq_step_tasks [OF r_snoc.hyps(2) [unfolded c' c'']]
  have "[Suc (tq_seq (snd c))..<Suc (tq_seq q)] @ [Suc (tq_seq q)..<Suc (tq_seq q')]
      = [Suc (tq_seq (snd c))..<Suc (tq_seq q')]"
    using r_snoc.IH st(2) c' upt_add_eq_append [of "Suc (tq_seq (snd c))" "Suc (tq_seq q)" "length (label_enq l)"]
    by simp
  with r_snoc.IH st show ?case
    by (simp add: c' c'') (metis add.assoc add.commute)
qed simp

text \<open>A stop request is never slept through.\<close>

definition stop_seen :: "task_queue \<Rightarrow> bool" where
  "stop_seen q \<longleftrightarrow> (tq_stopping q \<longrightarrow> tq_wakeup q \<or> (tq_worker q \<noteq> WaitWakeup \<and> in_hand (tq_worker q) = []))"

lemma stop_seen_step:
  assumes "tq_step (now, q) l (now', q')" and "stop_seen q"
  shows "stop_seen q'"
  using assms(1)
proof cases
  case s_enqueue
  then show ?thesis by (auto simp: stop_seen_def elim!: tq_enqueue_cases)
next
  case s_worker
  with assms(2) show ?thesis
    by (auto simp: worker_step_def stop_seen_def split: worker.splits if_splits list.splits)
next
  case s_exec
  with assms(2) show ?thesis
    by (auto simp: worker_step_def stop_seen_def split: worker.splits if_splits list.splits)
next
  case s_register
  with assms(2) show ?thesis by (auto simp: register_task_def stop_seen_def split: if_splits)
qed (use assms(2) in \<open>auto simp: tq_start_def tq_stop_def tq_stopped_def stop_seen_def split: if_splits\<close>)

lemma stop_seen_run: "tq_run c ls c' \<Longrightarrow> stop_seen (snd c) \<Longrightarrow> stop_seen (snd c')"
proof (induction rule: tq_run.induct)
  case (r_snoc c ls c' l c'')
  then show ?case using stop_seen_step [of "fst c'" "snd c'" l "fst c''" "snd c''"] by simp
qed simp

section \<open>A run to evaluate on\<close>

text \<open>Register, start, enqueue a task due at once, run the worker into its handler.\<close>

definition sample_task :: task where
  "sample_task = \<lparr>run_at = 5, task_seq = 1, task_id = ''t'', task_name = ''a'', task_payload = []\<rparr>"

lemma sample_tq_run:
  "\<exists>q. tq_run (5, tq_init) [Tau, Tau, Enq sample_task, Exec 5 sample_task] (5, q) \<and> tq_queue q = []"
proof -
  let ?q1 = "tq_init\<lparr>tq_handlers := [''a'']\<rparr>"
  let ?q2 = "tq_start ?q1"
  let ?q3 = "?q2\<lparr>tq_seq := 1, tq_queue := [sample_task], tq_wakeup := True\<rparr>"
  let ?q4 = "?q3\<lparr>tq_queue := [], tq_worker := Executing sample_task\<rparr>"
  have "tq_step (5, tq_init) Tau (5, ?q1)"
    by (rule s_register [of "''a''"]) (simp add: register_task_def tq_init_def)
  then have "tq_run (5, tq_init) ([] @ [Tau]) (5, ?q1)" by (rule r_snoc [OF r_nil])
  then have "tq_run (5, tq_init) (([] @ [Tau]) @ [Tau]) (5, ?q2)" by (rule r_snoc [OF _ s_start])
  moreover have "tq_step (5, ?q2) (Enq sample_task) (5, ?q3)"
    by (rule s_enqueue [of _ "''t''" "''a''" 0 None])
      (simp add: tq_enqueue_def tq_start_def tq_init_def sample_task_def Let_def)
  ultimately have "tq_run (5, tq_init) ((([] @ [Tau]) @ [Tau]) @ [Enq sample_task]) (5, ?q3)"
    by (rule r_snoc)
  moreover have "tq_step (5, ?q3) (Exec 5 sample_task) (5, ?q4)"
    by (rule s_exec) (simp add: worker_step_def tq_start_def tq_init_def sample_task_def)
  ultimately have "tq_run (5, tq_init)
      (((([] @ [Tau]) @ [Tau]) @ [Enq sample_task]) @ [Exec 5 sample_task]) (5, ?q4)" by (rule r_snoc)
  then show ?thesis by auto
qed

section \<open>Properties\<close>

text \<open>
  C5. Exactly once: in every interleaving of clients, clock and worker, the tasks enqueued so far
  are the tasks executed so far plus the tasks still pending, with sequence numbers 1, 2, 3, ...:
  nothing is lost, nothing runs twice, also across stop and restart.
\<close>

theorem tasks_conserved:
  assumes "tq_run (t0, tq_init) ls (now, q)"
  shows "mset (enqueued ls) = mset (executed ls) + mset (pending_tasks q) \<and>
    map task_seq (enqueued ls) = [1..<Suc (length (enqueued ls))] \<and>
    distinct (map task_seq (executed ls))"
proof -
  have init: "pending_tasks tq_init = []" "tq_seq tq_init = 0"
    by (simp_all add: tq_init_def pending_tasks_def)
  note r = tq_run_tasks [OF assms, simplified, unfolded init]
  from r have ms: "mset (enqueued ls) = mset (executed ls) + mset (pending_tasks q)"
    by (simp add: add.commute)
  from r have seqs: "map task_seq (enqueued ls) = [1..<Suc (tq_seq q)]" by simp
  then have len: "length (enqueued ls) = tq_seq q"
    by (metis length_map length_upt diff_Suc_1)
  have "mset (map task_seq (enqueued ls)) = mset (map task_seq (executed ls @ pending_tasks q))"
    using ms by simp
  then have "distinct (map task_seq (executed ls @ pending_tasks q))"
    using seqs by (metis distinct_upt mset_eq_imp_distinct_iff)
  with ms seqs len show ?thesis by simp
qed

lemma tasks_conserved_witness:
  "\<exists>q ls. tq_run (5, tq_init) ls (5, q) \<and> enqueued ls = [sample_task] \<and>
     mset (enqueued ls) = mset (executed ls) + mset (pending_tasks q)"
proof -
  obtain q where r: "tq_run (5, tq_init) [Tau, Tau, Enq sample_task, Exec 5 sample_task] (5, q)"
    using sample_tq_run by blast
  have "enqueued [Tau, Tau, Enq sample_task, Exec 5 sample_task] = [sample_task]"
    by (simp add: enqueued_def)
  with tasks_conserved [OF r] r show ?thesis by blast
qed

text \<open>
  On time and in order: whenever the worker starts a task in a reachable state, the task is due,
  and every task still pending comes later in the order of due time and arrival.
\<close>

theorem execution_due_and_least:
  assumes "tq_run (t0, tq_init) ls (now, q)" and "tq_step (now, q) (Exec n t) (now', q')"
  shows "n = now \<and> run_at t \<le> now \<and>
    (\<forall>x \<in> set (pending_tasks q'). run_at t < run_at x \<or> (run_at t = run_at x \<and> task_seq t < task_seq x))"
proof -
  have ok: "tq_ok q" using tq_run_ok [OF assms(1)] by simp
  from assms(2) have n: "n = now" and w: "worker_step now q = Some (q', Some t)"
    by (auto elim: tq_stepE)
  have "task_key t < task_key x" if "x \<in> set (pending_tasks q')" for x
    by (rule executed_is_least [OF ok w that])
  then have "run_at t < run_at x \<or> (run_at t = run_at x \<and> task_seq t < task_seq x)"
    if "x \<in> set (pending_tasks q')" for x
    using that by (fastforce simp: task_key_def less_prod_def)
  with n worker_step_tasks(3) [OF w] show ?thesis by blast
qed

lemma execution_due_and_least_witness:
  "\<exists>q q'. tq_step (5, q) (Exec 5 sample_task) (5, q') \<and> run_at sample_task \<le> 5"
proof -
  obtain q where "tq_run (5, tq_init) ([Tau, Tau, Enq sample_task] @ [Exec 5 sample_task]) (5, q)"
    using sample_tq_run by auto
  then obtain c where c: "tq_run (5, tq_init) [Tau, Tau, Enq sample_task] c"
    "tq_step c (Exec 5 sample_task) (5, q)" by (cases rule: tq_run.cases) auto
  obtain n p where np: "c = (n, p)" by (cases c)
  with c(2) have "n = 5" by (auto elim: tq_stepE)
  with execution_due_and_least [of 5 _ n p] c np show ?thesis by blast
qed

text \<open>
  C10. No lost wake-up: in a reachable state where the running worker is suspended, no stop has been
  requested and no pending task is due, so a due task or a stop request always finds the worker
  able to move.
\<close>

theorem no_lost_wakeup:
  assumes "tq_run (t0, tq_init) ls (now, q)" and "worker_step now q = None"
    and "tq_worker q \<noteq> NotStarted" and "tq_worker q \<noteq> Finished"
  shows "\<not> tq_stopping q \<and> (\<forall>t \<in> set (pending_tasks q). now < run_at t)"
proof -
  have ok: "tq_ok q" using tq_run_ok [OF assms(1)] by simp
  have stop: "stop_seen q" using stop_seen_run [OF assms(1)] by (simp add: stop_seen_def tq_init_def)
  show ?thesis
  proof (cases "tq_worker q")
    case WaitWakeup
    with assms(2) ok stop show ?thesis
      by (auto simp: worker_step_def tq_ok_def pending_tasks_def stop_seen_def split: if_splits)
  next
    case (Sleeping t)
    with assms(2) have w: "\<not> tq_wakeup q" "now < run_at t"
      by (auto simp: worker_step_def split: if_splits)
    have "now < run_at x" if "x \<in> set (tq_queue q)" for x
    proof -
      have "task_key t < task_key x" using ok Sleeping w that by (simp add: tq_ok_def)
      with w(2) show ?thesis by (auto simp: task_key_def less_prod_def)
    qed
    with w Sleeping stop show ?thesis by (auto simp: pending_tasks_def stop_seen_def)
  qed (use assms(2-4) in \<open>auto simp: worker_step_def split: if_splits list.splits\<close>)
qed

lemma no_lost_wakeup_witness:
  "\<exists>q. worker_step 0 q = None \<and> tq_worker q = WaitWakeup \<and> \<not> tq_stopping q"
proof -
  let ?q = "(tq_start tq_init)\<lparr>tq_wakeup := False, tq_worker := WaitWakeup\<rparr>"
  have "tq_run (0, tq_init) ([] @ [Tau]) (0, tq_start tq_init)" by (rule r_snoc [OF r_nil s_start])
  then have r: "tq_run (0, tq_init) (([] @ [Tau]) @ [Tau]) (0, ?q)"
    by (rule r_snoc [OF _ s_worker]) (simp add: worker_step_def tq_start_def tq_init_def)
  have "worker_step 0 ?q = None" by (simp add: worker_step_def)
  with no_lost_wakeup [OF r] show ?thesis by (intro exI [of _ ?q]) simp
qed

end
