(* ===== verification/Harness.thy ===== *)
theory Harness
  imports Events
begin

text \<open>
  The harness supervisor: the in-memory registry of loop metrics and its event handlers
  (\<^verbatim>\<open>app/core/harness_supervisor.py\<close>, \<^verbatim>\<open>app/core/harness_handlers.py\<close>), the four circuit breakers
  (\<^verbatim>\<open>app/core/harness_breakers.py\<close>), the idle check (\<^verbatim>\<open>app/core/continuation.py\<close>) and the
  snapshot validation (\<^verbatim>\<open>app/core/todo_enforcer.py\<close>). The process state extends the store by the
  registry. Handlers run at the time of the event they handle; the sessions that a handler opens
  for itself work on the same store.
\<close>

section \<open>State\<close>

record metrics =
  m_continuation_count :: int
  m_token_estimate :: int
  m_wall_clock_started :: "timestamp option"
  m_last_checkpoint_at :: "timestamp option"

definition new_metrics :: metrics where
  "new_metrics = \<lparr>m_continuation_count = 0, m_token_estimate = 0, m_wall_clock_started = None,
                  m_last_checkpoint_at = None\<rparr>"

text \<open>
  \<open>runtime_tasks\<close> are the keys of the supervisor's task table; \<open>stop_flags\<close> are the Instances whose
  agent loop of this process has its stop flag set (\<open>Agent_Loop\<close>).
\<close>

record world = db +
  registry :: "ident \<rightharpoonup> metrics"
  runtime_tasks :: "ident list"
  stop_flags :: "ident list"

definition metrics_of :: "'z world_scheme \<Rightarrow> ident \<Rightarrow> metrics" where
  "metrics_of w iid = (case registry w iid of None \<Rightarrow> new_metrics | Some m \<Rightarrow> m)"

definition set_metrics :: "ident \<Rightarrow> metrics \<Rightarrow> 'z world_scheme \<Rightarrow> 'z world_scheme" where
  "set_metrics iid m w = w\<lparr>registry := (registry w)(iid \<mapsto> m)\<rparr>"

definition pop_metrics :: "ident \<Rightarrow> 'z world_scheme \<Rightarrow> 'z world_scheme" where
  "pop_metrics iid w = w\<lparr>registry := (registry w)(iid := None)\<rparr>"

definition rehydrate :: "'z world_scheme \<Rightarrow> 'z world_scheme" where
  "rehydrate w = fold (\<lambda>st. set_metrics (ls_instance_id st)
       \<lparr>m_continuation_count = continuation_count st, m_token_estimate = total_token_estimate st,
        m_wall_clock_started = wall_clock_started_at st,
        m_last_checkpoint_at = last_checkpoint_at st\<rparr>)
     (filter (\<lambda>st. loop_status st = L_running \<and> live st) (loop_states w)) w"

text \<open>\<open>shutdown\<close>: every task is cancelled and awaited, then the table is cleared.\<close>

definition supervisor_shutdown :: "'z world_scheme \<Rightarrow> 'z world_scheme" where
  "supervisor_shutdown w = w\<lparr>runtime_tasks := []\<rparr>"

section \<open>Circuit breakers\<close>

record breaker_config =
  bc_max_continuations :: int
  bc_max_wall_clock_seconds :: int
  bc_max_token_estimate :: int
  bc_idle_timeout_seconds :: int

definition live_loop_state :: "ident \<Rightarrow> 'z db_scheme \<Rightarrow> loop_state option" where
  "live_loop_state iid s = first_where (\<lambda>st. ls_instance_id st = iid \<and> live st) (loop_states s)"

definition load_breaker_config :: "ident \<Rightarrow> 'z db_scheme \<Rightarrow> breaker_config option" where
  "load_breaker_config iid s =
     (case live_loop_state iid s of
        None \<Rightarrow> None
      | Some st \<Rightarrow> Some \<lparr>bc_max_continuations = max_continuations st,
                        bc_max_wall_clock_seconds = max_wall_clock_seconds st,
                        bc_max_token_estimate = max_token_estimate st,
                        bc_idle_timeout_seconds = idle_timeout_seconds st\<rparr>)"

definition reason_payload :: "string \<Rightarrow> ident \<Rightarrow> json_obj" where
  "reason_payload reason iid = [(''reason'', JStr reason), (''instance_id'', JStr iid)]"

definition trip_breaker ::
    "'z db_scheme handlers \<Rightarrow> timestamp \<Rightarrow> ident \<Rightarrow> string \<Rightarrow> 'z db_scheme \<Rightarrow> 'z db_scheme" where
  "trip_breaker hs now iid reason w =
     (let w1 = fst (emit hs now (system_event HARNESS_BREAKER_TRIPPED ''instance'' iid
                 (reason_payload reason iid)) w);
          w2 = fst (emit hs now (system_event HARNESS_LOOP_STOPPED ''instance'' iid
                 (reason_payload reason iid)) w1)
      in fst (emit hs now (system_event HARNESS_CONTROL_SENT ''instance'' iid
           [(''action'', JStr ''kill''), (''instance_id'', JStr iid), (''reason'', JStr reason)]) w2))"

definition over_time :: "timestamp \<Rightarrow> timestamp option \<Rightarrow> int \<Rightarrow> bool" where
  "over_time now since limit = (case since of None \<Rightarrow> False | Some t \<Rightarrow> seconds limit \<le> now - t)"

text \<open>The first breaker that trips, in the order in which they are checked.\<close>

definition breaker_reason :: "timestamp \<Rightarrow> metrics \<Rightarrow> breaker_config \<Rightarrow> string option" where
  "breaker_reason now m c =
     (if bc_max_continuations c \<le> m_continuation_count m then Some ''max_continuations''
      else if bc_max_token_estimate c \<le> m_token_estimate m then Some ''token_budget''
      else if over_time now (m_wall_clock_started m) (bc_max_wall_clock_seconds c)
      then Some ''wall_clock''
      else if over_time now (m_last_checkpoint_at m) (bc_idle_timeout_seconds c)
      then Some ''idle_timeout''
      else None)"

definition check_breakers ::
    "'z db_scheme handlers \<Rightarrow> timestamp \<Rightarrow> ident \<Rightarrow> metrics \<Rightarrow> breaker_config \<Rightarrow> 'z db_scheme
     \<Rightarrow> 'z db_scheme \<times> string option" where
  "check_breakers hs now iid m c w =
     (case breaker_reason now m c of
        None \<Rightarrow> (w, None)
      | Some reason \<Rightarrow> (trip_breaker hs now iid reason w, Some reason))"

text \<open>\<open>HarnessSupervisor._check_breakers\<close>.\<close>

definition supervisor_check_breakers ::
    "'z world_scheme handlers \<Rightarrow> timestamp \<Rightarrow> ident \<Rightarrow> 'z world_scheme
     \<Rightarrow> 'z world_scheme \<times> string option" where
  "supervisor_check_breakers hs now iid w =
     (case registry w iid of
        None \<Rightarrow> (w, None)
      | Some m \<Rightarrow>
         (case load_breaker_config iid w of
            None \<Rightarrow> (w, None)
          | Some c \<Rightarrow>
             (case check_breakers hs now iid m c w of
                (w', None) \<Rightarrow> (w', None)
              | (w', Some reason) \<Rightarrow> (pop_metrics iid w', Some reason))))"

section \<open>Event handlers\<close>

definition handle_loop_started :: "timestamp \<Rightarrow> ident \<Rightarrow> 'z world_scheme \<Rightarrow> 'z world_scheme" where
  "handle_loop_started now iid w = set_metrics iid (new_metrics\<lparr>m_wall_clock_started := Some now\<rparr>) w"

text \<open>\<open>int(payload.get(k, 0))\<close>; \<open>None\<close> when \<open>int\<close> raises.\<close>

definition py_int :: "json \<Rightarrow> int option" where
  "py_int j = (case j of
      JInt n \<Rightarrow> Some n
    | JBool b \<Rightarrow> Some (if b then 1 else 0)
    | JSeconds n \<Rightarrow> Some (if 0 \<le> n then n div 1000000 else - ((- n) div 1000000))
    | JStr s \<Rightarrow> parse_int s
    | _ \<Rightarrow> None)"

definition payload_int :: "json_obj \<Rightarrow> string \<Rightarrow> int option" where
  "payload_int payload k = (case jget payload k of None \<Rightarrow> Some 0 | Some j \<Rightarrow> py_int j)"

definition handle_checkpoint ::
    "'z world_scheme handlers \<Rightarrow> timestamp \<Rightarrow> ident \<Rightarrow> json_obj \<Rightarrow> 'z world_scheme
     \<Rightarrow> 'z world_scheme \<times> bool" where
  "handle_checkpoint hs now iid payload w =
     (let m = metrics_of w iid;
          m1 = m\<lparr>m_continuation_count := m_continuation_count m + 1\<rparr>
      in case payload_int payload ''token_estimate'' of
           None \<Rightarrow> (set_metrics iid m1 w, True)
         | Some n \<Rightarrow>
             let m2 = m1\<lparr>m_token_estimate := m_token_estimate m1 + n, m_last_checkpoint_at := Some now\<rparr>
             in (fst (supervisor_check_breakers hs now iid (set_metrics iid m2 w)), False))"

text \<open>The hub summary and the memory row of a checkpoint; the flag says that \<open>int\<close> raised.\<close>

definition checkpoint_text :: "ident \<Rightarrow> int \<Rightarrow> string" where
  "checkpoint_text iid iteration = take 500
     (''Checkpoint #'' @ str_of_int iteration @ '' completed for instance '' @ take 8 iid)"

definition write_hub :: "timestamp \<Rightarrow> ident \<Rightarrow> string \<Rightarrow> 'z db_scheme \<Rightarrow> 'z db_scheme" where
  "write_hub now ws txt s =
     (case first_where (\<lambda>h. ch_workspace_id h = ws \<and> live h) (central_hubs s) of
        Some h \<Rightarrow> s\<lparr>central_hubs := update_where (\<lambda>r. row_id r = row_id h)
                     (\<lambda>r. modified now r (r\<lparr>ch_content := Some txt\<rparr>)) (central_hubs s)\<rparr>
      | None \<Rightarrow> (take_id s)\<lparr>central_hubs := central_hubs s @
          [\<lparr>row_id = new_id s, created_at = now, updated_at = now, deleted_at = None,
            ch_workspace_id = ws, ch_content = Some txt, manual_notes = None\<rparr>]\<rparr>)"

definition add_memory ::
    "timestamp \<Rightarrow> ident \<Rightarrow> memory_kind \<Rightarrow> string \<Rightarrow> string \<Rightarrow> ident \<Rightarrow> 'z db_scheme \<Rightarrow> 'z db_scheme" where
  "add_memory now ent kind k txt iid s = (take_id s)\<lparr>memories := memories s @
     [\<lparr>row_id = new_id s, created_at = now, updated_at = now, deleted_at = None,
       mm_entity_id = ent, mm_kind = kind, mm_key = Some k, mm_content = Some txt,
       source_instance_id = Some iid\<rparr>]\<rparr>"

definition handle_checkpoint_writes ::
    "timestamp \<Rightarrow> ident \<Rightarrow> json_obj \<Rightarrow> 'z db_scheme \<Rightarrow> 'z db_scheme \<times> bool" where
  "handle_checkpoint_writes now iid payload s =
     (if iid = [] then (s, False)
      else case payload_int payload ''iteration'' of
        None \<Rightarrow> (s, True)
      | Some iteration \<Rightarrow>
         (case get_live (instances s) iid of
            None \<Rightarrow> (s, False)
          | Some i \<Rightarrow>
             (case first_where (\<lambda>m. mem_instance_id m = Some iid \<and> live m) (memberships s) of
                None \<Rightarrow> (s, False)
              | Some m \<Rightarrow>
                  if (case live_loop_state iid s of
                        None \<Rightarrow> False | Some st \<Rightarrow> loop_status st \<in> {L_interrupted, L_paused})
                  then (s, False)
                  else let txt = checkpoint_text iid iteration;
                           s1 = write_hub now (mem_workspace_id m) txt s
                       in (add_memory now (ins_entity_id i) MK_experience
                             (''checkpoint_'' @ take 8 iid @ ''_'' @ str_of_int iteration) txt iid s1,
                           False))))"

definition handle_continuation_injected ::
    "timestamp \<Rightarrow> ident \<Rightarrow> 'z world_scheme \<Rightarrow> 'z world_scheme" where
  "handle_continuation_injected now iid w =
     (case registry w iid of
        None \<Rightarrow> w
      | Some m \<Rightarrow> set_metrics iid (m\<lparr>m_last_checkpoint_at := Some now\<rparr>) w)"

definition handle_loop_stopped :: "ident \<Rightarrow> 'z world_scheme \<Rightarrow> 'z world_scheme" where
  "handle_loop_stopped iid w = pop_metrics iid w"

text \<open>
  \<open>_on_harness_event\<close>. Handling a checkpoint may emit further events; \<open>hs\<close> are the handlers
  those emissions reach.
\<close>

definition on_harness_event ::
    "'z world_scheme handlers \<Rightarrow> event_row \<Rightarrow> 'z world_scheme \<Rightarrow> 'z world_scheme \<times> bool" where
  "on_harness_event hs e w =
     (let now = created_at e in
      case resource_id e of
        None \<Rightarrow> (w, False)
      | Some iid \<Rightarrow>
          if ev_type e = HARNESS_LOOP_STARTED then (handle_loop_started now iid w, False)
          else if ev_type e = HARNESS_CHECKPOINT then
            (case handle_checkpoint hs now iid (ev_payload e) w of
               (w1, True) \<Rightarrow> (w1, True)
             | (w1, False) \<Rightarrow> handle_checkpoint_writes now iid (ev_payload e) w1)
          else if ev_type e = HARNESS_CONTINUATION_INJECTED
          then (handle_continuation_injected now iid w, False)
          else if ev_type e = HARNESS_LOOP_STOPPED then (handle_loop_stopped iid w, False)
          else (w, False))"

text \<open>
  The handlers of a running process: the supervisor's first, then the others. No emission caused by
  a checkpoint is itself a checkpoint, so the handlers it reaches are the same list with a
  supervisor that need not look further (\<open>trip_breaker_handlers\<close>).
\<close>

definition leaf_handlers :: "'z world_scheme handlers \<Rightarrow> 'z world_scheme handlers" where
  "leaf_handlers others = register_handler ''harness.*'' (on_harness_event []) [] @ others"

definition app_handlers :: "'z world_scheme handlers \<Rightarrow> 'z world_scheme handlers" where
  "app_handlers others =
     register_handler ''harness.*'' (on_harness_event (leaf_handlers others)) [] @ others"

section \<open>Operator commands\<close>

definition get_state_or_404 :: "ident \<Rightarrow> 'z db_scheme \<Rightarrow> loop_state result" where
  "get_state_or_404 iid s =
     (case live_loop_state iid s of
        None \<Rightarrow> Inl (NotFoundError ''loop_state.not_found'' ''errors.loop_state.not_found'')
      | Some st \<Rightarrow> Inr st)"

definition replace_loop_state :: "loop_state \<Rightarrow> 'z db_scheme \<Rightarrow> 'z db_scheme" where
  "replace_loop_state st s =
     s\<lparr>loop_states := update_where (\<lambda>r. row_id r = row_id st) (\<lambda>_. st) (loop_states s)\<rparr>"

definition set_loop_status ::
    "'z db_scheme handlers \<Rightarrow> timestamp \<Rightarrow> ident \<Rightarrow> loop_status_t \<Rightarrow> string \<Rightarrow> 'z db_scheme
     \<Rightarrow> ('z db_scheme \<times> loop_state) result" where
  "set_loop_status hs now iid new_status ty s =
     (case get_state_or_404 iid s of
        Inl e \<Rightarrow> Inl e
      | Inr st \<Rightarrow>
          let st' = modified now st (st\<lparr>loop_status := new_status\<rparr>)
          in Inr (fst (emit hs now (system_event ty ''instance'' iid []) (replace_loop_state st' s)), st'))"

definition handle_interrupt ::
    "'z world_scheme handlers \<Rightarrow> timestamp \<Rightarrow> ident \<Rightarrow> 'z world_scheme
     \<Rightarrow> ('z world_scheme \<times> loop_state) result" where
  "handle_interrupt hs now iid w =
     (case set_loop_status hs now iid L_interrupted HARNESS_INTERRUPTED w of
        Inl e \<Rightarrow> Inl e
      | Inr (w1, st) \<Rightarrow>
          let w2 = fst (emit hs now (system_event HARNESS_CONTROL_SENT ''instance'' iid
                     [(''action'', JStr ''kill''), (''instance_id'', JStr iid)]) w1)
          in Inr (pop_metrics iid w2, st))"

definition handle_pause ::
    "'z db_scheme handlers \<Rightarrow> timestamp \<Rightarrow> ident \<Rightarrow> 'z db_scheme \<Rightarrow> ('z db_scheme \<times> loop_state) result"
where
  "handle_pause hs now iid w = set_loop_status hs now iid L_paused HARNESS_PAUSED w"

definition handle_resume ::
    "'z db_scheme handlers \<Rightarrow> timestamp \<Rightarrow> ident \<Rightarrow> 'z db_scheme \<Rightarrow> ('z db_scheme \<times> loop_state) result"
where
  "handle_resume hs now iid w = set_loop_status hs now iid L_running HARNESS_RESUMED w"

section \<open>Snapshots\<close>

definition VALID_STATUSES :: "string list" where
  "VALID_STATUSES = [''pending'', ''in_progress'', ''completed'', ''cancelled'']"

text \<open>
  \<open>TodoEnforcerError\<close>, or the \<open>AttributeError\<close> of \<open>.get\<close> on a todo that is no dictionary.
\<close>

datatype snapshot_error = TodoEnforcerError | SnapshotAttributeError

fun check_todos :: "json list \<Rightarrow> nat \<Rightarrow> snapshot_error + nat" where
  "check_todos [] n = Inr n"
| "check_todos (JObj todo # todos) n =
     (case jget todo ''status'' of
        Some (JStr status) \<Rightarrow>
          if status \<notin> set VALID_STATUSES then Inl TodoEnforcerError
          else if status = ''completed''
                  \<and> (case jget todo ''completion_note'' of Some (JStr note) \<Rightarrow> note = [] | _ \<Rightarrow> True)
          then Inl TodoEnforcerError
          else check_todos todos (if status = ''in_progress'' then Suc n else n)
      | _ \<Rightarrow> Inl TodoEnforcerError)"
| "check_todos (_ # todos) n = Inl SnapshotAttributeError"

definition validate_boulder_snapshot :: "json_obj \<Rightarrow> snapshot_error + unit" where
  "validate_boulder_snapshot snapshot =
     (case jget snapshot ''todos'' of
        Some (JList todos) \<Rightarrow>
          (case check_todos todos 0 of
             Inl e \<Rightarrow> Inl e
           | Inr n \<Rightarrow> if 1 < n then Inl TodoEnforcerError else Inr ())
      | _ \<Rightarrow> Inl TodoEnforcerError)"

text \<open>\<open>state.boulder_snapshot or {}\<close>; a truthy value that is no dictionary fails on \<open>.get\<close>.\<close>

definition snapshot_dict :: "json option \<Rightarrow> json_obj option" where
  "snapshot_dict v = (case v of
      None \<Rightarrow> Some []
    | Some JNull \<Rightarrow> Some []
    | Some (JObj ob) \<Rightarrow> Some ob
    | Some (JBool b) \<Rightarrow> if b then None else Some []
    | Some (JInt n) \<Rightarrow> if n = 0 then Some [] else None
    | Some (JSeconds n) \<Rightarrow> if n = 0 then Some [] else None
    | Some (JStr s) \<Rightarrow> if s = [] then Some [] else None
    | Some (JList js) \<Rightarrow> if js = [] then Some [] else None)"

definition capture_snapshot ::
    "timestamp \<Rightarrow> ident \<Rightarrow> 'z world_scheme \<Rightarrow> (json_obj \<times> int \<times> timestamp) result" where
  "capture_snapshot now iid w =
     (case get_state_or_404 iid w of
        Inl e \<Rightarrow> Inl e
      | Inr st \<Rightarrow>
         (case snapshot_dict (boulder_snapshot st) of
            None \<Rightarrow> Inl unhandled_error
          | Some snap \<Rightarrow>
             (case validate_boulder_snapshot snap of
                Inl TodoEnforcerError \<Rightarrow> Inl (ValidationError ''snapshot.invalid'' ''errors.snapshot.invalid'')
              | Inl SnapshotAttributeError \<Rightarrow> Inl unhandled_error
              | Inr _ \<Rightarrow> Inr (snap, m_continuation_count (metrics_of w iid), now))))"

definition get_loop_status :: "ident \<Rightarrow> 'z world_scheme \<Rightarrow> metrics" where
  "get_loop_status iid w = metrics_of w iid"

section \<open>Idle check\<close>

definition idle_check_one ::
    "'z world_scheme handlers \<Rightarrow> timestamp \<Rightarrow> loop_state \<Rightarrow> 'z world_scheme \<Rightarrow> 'z world_scheme" where
  "idle_check_one hs now st w =
     (case supervisor_check_breakers hs now (ls_instance_id st) w of
        (w1, Some reason) \<Rightarrow> w1
      | (w1, None) \<Rightarrow>
         (case last_checkpoint_at st of
            None \<Rightarrow> w1
          | Some t \<Rightarrow>
              if seconds (idle_timeout_seconds st) < now - t
              then fst (emit hs now (system_event HARNESS_CONTINUATION_INJECTED ''instance''
                     (ls_instance_id st)
                     [(''instance_id'', JStr (ls_instance_id st)),
                      (''plan_ref'', (case current_plan_ref st of None \<Rightarrow> JNull | Some r \<Rightarrow> JStr r)),
                      (''idle_seconds'', JSeconds (now - t))]) w1)
              else w1))"

text \<open>
  The periodic task: without a queue in its payload it does nothing; otherwise it checks every
  running loop and asks to run again after 30 seconds (second component).
\<close>

definition idle_check_handler ::
    "'z world_scheme handlers \<Rightarrow> timestamp \<Rightarrow> bool \<Rightarrow> 'z world_scheme
     \<Rightarrow> 'z world_scheme \<times> (string \<times> timestamp) option" where
  "idle_check_handler hs now has_queue w =
     (if \<not> has_queue then (w, None)
      else (fold (idle_check_one hs now)
              (filter (\<lambda>st. loop_status st = L_running \<and> live st) (loop_states w)) w,
            Some (''idle_check'', seconds 30)))"

section \<open>Which events the supervisor acts on\<close>

definition acted_on :: "string list" where
  "acted_on = [HARNESS_LOOP_STARTED, HARNESS_CHECKPOINT, HARNESS_CONTINUATION_INJECTED,
               HARNESS_LOOP_STOPPED]"

lemma on_harness_event_silent:
  "ev_type e \<notin> set acted_on \<Longrightarrow> on_harness_event hs e w = (w, False)"
  by (auto simp: on_harness_event_def acted_on_def Let_def split: option.splits)

lemma on_harness_event_leaf:
  "ev_type e \<noteq> HARNESS_CHECKPOINT \<Longrightarrow> on_harness_event hs e w = on_harness_event [] e w"
  by (simp add: on_harness_event_def Let_def split: option.split)

lemma harness_pattern: "fnmatchcase ty ''harness.*'' \<longleftrightarrow> prefix ''harness.'' ty"
  using fnmatch_literal_star [of "''harness.''" ty] by simp

lemma dispatch_app:
  "dispatch (app_handlers others) e w = dispatch others e
     (if prefix ''harness.'' (ev_type e) then fst (on_harness_event (leaf_handlers others) e w) else w)"
  by (auto simp: app_handlers_def register_handler_def harness_pattern split: prod.splits)

lemma dispatch_leaf:
  "dispatch (leaf_handlers others) e w = dispatch others e
     (if prefix ''harness.'' (ev_type e) then fst (on_harness_event [] e w) else w)"
  by (auto simp: leaf_handlers_def register_handler_def harness_pattern split: prod.splits)

lemma emit_app_leaf:
  "ea_type a \<noteq> HARNESS_CHECKPOINT \<Longrightarrow> emit (app_handlers others) now a w = emit (leaf_handlers others) now a w"
  by (simp add: emit_def Let_def dispatch_app dispatch_leaf
      on_harness_event_leaf [of _ "leaf_handlers others"])

text \<open>The trip emissions reach the registered handlers, whichever of the two lists stands for them.\<close>

lemma trip_breaker_handlers:
  "trip_breaker (app_handlers others) now iid reason w = trip_breaker (leaf_handlers others) now iid reason w"
  by (simp add: trip_breaker_def emit_app_leaf event_types)

section \<open>Bystanders\<close>

text \<open>
  Other handlers that leave the registry and the loop states alone and only append to the log.
\<close>

definition bystander :: "'z world_scheme \<Rightarrow> 'z world_scheme \<Rightarrow> bool" where
  "bystander w w' \<longleftrightarrow> registry w' = registry w \<and> loop_states w' = loop_states w \<and> log_grows w w'"

definition bystanders :: "'z world_scheme handlers \<Rightarrow> bool" where
  "bystanders hs = handlers_respect bystander (\<lambda>e. True) hs"

lemma bystanders_Nil [simp]: "bystanders []"
  by (simp add: bystanders_def)

lemma bystander_order: "reflp bystander" "transp bystander"
  using log_grows_order by (auto simp: bystander_def reflp_def transp_def)

lemma bystanders_dispatch: "bystanders hs \<Longrightarrow> bystander w (dispatch hs e w)"
  unfolding bystanders_def by (rule dispatch_respects [OF bystander_order]) auto

definition logged :: "timestamp \<Rightarrow> event_args \<Rightarrow> 'z world_scheme \<Rightarrow> 'z world_scheme" where
  "logged now a w = (take_id w)\<lparr>events := events w @ [new_event now a w]\<rparr>"

lemma logged_simps [simp]:
  "registry (logged now a w) = registry w" "loop_states (logged now a w) = loop_states w"
  "events (logged now a w) = events w @ [new_event now a w]"
  "instances (logged now a w) = instances w"
  by (simp_all add: logged_def take_id_def)

lemma emit_dispatch: "emit hs now a w = (dispatch hs (new_event now a w) (logged now a w), new_event now a w)"
  by (simp add: emit_def Let_def logged_def)

text \<open>An event the supervisor does not act on only adds its row.\<close>

lemma emit_leaf_silent:
  assumes "bystanders others" and "ea_type a \<notin> set acted_on"
  shows "bystander (logged now a w) (fst (emit (leaf_handlers others) now a w))"
  using assms bystanders_dispatch by (simp add: emit_dispatch dispatch_leaf on_harness_event_silent)

lemma emit_leaf_stopped:
  assumes "bystanders others"
  shows "bystander (pop_metrics iid (logged now (system_event HARNESS_LOOP_STOPPED rt iid pl) w))
    (fst (emit (leaf_handlers others) now (system_event HARNESS_LOOP_STOPPED rt iid pl) w))"
  using bystanders_dispatch [OF assms]
  by (simp add: emit_dispatch dispatch_leaf on_harness_event_def handle_loop_stopped_def event_types)

text \<open>What a trip does: the entry is gone and the kill command is on the log.\<close>

definition kill_event :: "ident \<Rightarrow> event_row \<Rightarrow> bool" where
  "kill_event iid e \<longleftrightarrow> ev_type e = HARNESS_CONTROL_SENT \<and> resource_id e = Some iid \<and>
     jget (ev_payload e) ''action'' = Some (JStr ''kill'')"

definition killed_since :: "ident \<Rightarrow> event_row list \<Rightarrow> event_row list \<Rightarrow> bool" where
  "killed_since iid old new \<longleftrightarrow> (\<exists>rest. new = old @ rest \<and> (\<exists>e \<in> set rest. kill_event iid e))"

lemma pop_metrics_simps [simp]:
  "registry (pop_metrics iid w) = (registry w)(iid := None)" "events (pop_metrics iid w) = events w"
  "loop_states (pop_metrics iid w) = loop_states w"
  by (simp_all add: pop_metrics_def)

lemma set_metrics_simps [simp]:
  "registry (set_metrics iid m w) = (registry w)(iid \<mapsto> m)" "events (set_metrics iid m w) = events w"
  "loop_states (set_metrics iid m w) = loop_states w"
  by (simp_all add: set_metrics_def)

lemma trip_breaker_effect:
  assumes "bystanders others"
  shows "registry (trip_breaker (leaf_handlers others) now iid reason w) = (registry w)(iid := None)"
    and "loop_states (trip_breaker (leaf_handlers others) now iid reason w) = loop_states w"
    and "killed_since iid (events w) (events (trip_breaker (leaf_handlers others) now iid reason w))"
proof -
  let ?a1 = "system_event HARNESS_BREAKER_TRIPPED ''instance'' iid (reason_payload reason iid)"
  let ?a2 = "system_event HARNESS_LOOP_STOPPED ''instance'' iid (reason_payload reason iid)"
  let ?a3 = "system_event HARNESS_CONTROL_SENT ''instance'' iid
    [(''action'', JStr ''kill''), (''instance_id'', JStr iid), (''reason'', JStr reason)]"
  let ?w1 = "fst (emit (leaf_handlers others) now ?a1 w)"
  let ?w2 = "fst (emit (leaf_handlers others) now ?a2 ?w1)"
  let ?w3 = "fst (emit (leaf_handlers others) now ?a3 ?w2)"
  have t: "trip_breaker (leaf_handlers others) now iid reason w = ?w3"
    by (simp add: trip_breaker_def Let_def)
  have b1: "bystander (logged now ?a1 w) ?w1"
    using assms by (rule emit_leaf_silent) (simp add: acted_on_def event_types)
  have b2: "bystander (pop_metrics iid (logged now ?a2 ?w1)) ?w2"
    using assms by (rule emit_leaf_stopped)
  have b3: "bystander (logged now ?a3 ?w2) ?w3"
    using assms by (rule emit_leaf_silent) (simp add: acted_on_def event_types)
  from b1 b2 b3 show "registry (trip_breaker (leaf_handlers others) now iid reason w) = (registry w)(iid := None)"
    "loop_states (trip_breaker (leaf_handlers others) now iid reason w) = loop_states w"
    by (simp_all add: t bystander_def)
  obtain r1 where r1: "events ?w1 = events w @ r1"
    using b1 by (auto simp: bystander_def log_grows_def prefix_def)
  obtain r2 where r2: "events ?w2 = events ?w1 @ r2"
    using b2 by (auto simp: bystander_def log_grows_def prefix_def)
  obtain r3 where r3: "events ?w3 = events ?w2 @ new_event now ?a3 ?w2 # r3"
    using b3 by (auto simp: bystander_def log_grows_def prefix_def)
  have "kill_event iid (new_event now ?a3 ?w2)" by (simp add: kill_event_def)
  moreover have "events ?w3 = events w @ (r1 @ r2 @ new_event now ?a3 ?w2 # r3)"
    using r1 r2 r3 by simp
  ultimately show "killed_since iid (events w) (events (trip_breaker (leaf_handlers others) now iid reason w))"
    unfolding killed_since_def t by force
qed

text \<open>The checkpoint's writes touch neither the registry nor the loop states nor the log.\<close>

lemma write_hub_frame [simp]:
  "registry (write_hub now ws txt w) = registry w" "events (write_hub now ws txt w) = events w"
  "loop_states (write_hub now ws txt w) = loop_states w"
  by (simp_all add: write_hub_def take_id_def split: option.splits)

lemma add_memory_frame [simp]:
  "registry (add_memory now ent kind k txt iid w) = registry w"
  "events (add_memory now ent kind k txt iid w) = events w"
  "loop_states (add_memory now ent kind k txt iid w) = loop_states w"
  by (simp_all add: add_memory_def take_id_def)

lemma checkpoint_writes_frame [simp]:
  "registry (fst (handle_checkpoint_writes now iid payload w)) = registry w"
  "events (fst (handle_checkpoint_writes now iid payload w)) = events w"
  "loop_states (fst (handle_checkpoint_writes now iid payload w)) = loop_states w"
  by (simp_all add: handle_checkpoint_writes_def Let_def split: option.splits if_splits)

section \<open>What a checkpoint does\<close>

definition checkpoint_args :: "ident \<Rightarrow> json_obj \<Rightarrow> event_args" where
  "checkpoint_args iid payload = \<lparr>ea_type = HARNESS_CHECKPOINT, ea_actor_type = ''instance'',
     ea_actor_id = Some iid, ea_resource_type = Some ''instance'', ea_resource_id = Some iid,
     ea_payload = payload, ea_request_id = None\<rparr>"

definition next_metrics :: "timestamp \<Rightarrow> int \<Rightarrow> metrics \<Rightarrow> metrics" where
  "next_metrics now n m = m\<lparr>m_continuation_count := m_continuation_count m + 1,
     m_token_estimate := m_token_estimate m + n, m_last_checkpoint_at := Some now\<rparr>"

lemma load_breaker_config_frame:
  "loop_states w' = loop_states w \<Longrightarrow> load_breaker_config iid w' = load_breaker_config iid w"
  by (simp add: load_breaker_config_def live_loop_state_def)

lemma bystander_trans: "bystander a b \<Longrightarrow> bystander b c \<Longrightarrow> bystander a c"
  using bystander_order(2) by (rule transpD)

lemma killed_since_grows: "killed_since iid old new \<Longrightarrow> prefix new new' \<Longrightarrow> killed_since iid old new'"
  by (auto simp: killed_since_def prefix_def)

lemma killed_since_older: "killed_since iid mid new \<Longrightarrow> prefix old mid \<Longrightarrow> killed_since iid old new"
  by (auto simp: killed_since_def prefix_def)

lemma supervisor_check_effect:
  assumes "bystanders others" and "registry w iid = Some m" and "load_breaker_config iid w = Some c"
    and "supervisor_check_breakers (leaf_handlers others) now iid w = (w', out)"
  shows "out = breaker_reason now m c" and "loop_states w' = loop_states w"
    and "breaker_reason now m c = None \<Longrightarrow> w' = w"
    and "breaker_reason now m c \<noteq> None \<Longrightarrow>
      registry w' = (registry w)(iid := None) \<and> killed_since iid (events w) (events w')"
proof -
  have "out = breaker_reason now m c \<and> loop_states w' = loop_states w \<and>
    (case breaker_reason now m c of None \<Rightarrow> w' = w
     | Some r \<Rightarrow> registry w' = (registry w)(iid := None) \<and> killed_since iid (events w) (events w'))"
    using assms(2-4) trip_breaker_effect [OF assms(1), where now = now and iid = iid and w = w]
    by (auto simp: supervisor_check_breakers_def check_breakers_def split: option.splits)
  then show "out = breaker_reason now m c" "loop_states w' = loop_states w"
    "breaker_reason now m c = None \<Longrightarrow> w' = w"
    "breaker_reason now m c \<noteq> None \<Longrightarrow>
      registry w' = (registry w)(iid := None) \<and> killed_since iid (events w) (events w')"
    by (auto split: option.splits)
qed

lemma checkpoint_effect:
  assumes others: "bystanders others" and c: "load_breaker_config iid w = Some c"
    and n: "payload_int payload ''token_estimate'' = Some n"
    and w': "w' = fst (emit (app_handlers others) now (checkpoint_args iid payload) w)"
  defines "m \<equiv> next_metrics now n (metrics_of w iid)"
  shows "loop_states w' = loop_states w"
    and "prefix (events w) (events w')"
    and "breaker_reason now m c = None \<Longrightarrow> registry w' = (registry w)(iid \<mapsto> m)"
    and "breaker_reason now m c \<noteq> None \<Longrightarrow>
      registry w' = (registry w)(iid := None) \<and> killed_since iid (events w) (events w')"
proof -
  let ?a = "checkpoint_args iid payload"
  let ?e = "new_event now ?a w"
  let ?w1 = "set_metrics iid m (logged now ?a w)"
  obtain w2 out where chk: "supervisor_check_breakers (leaf_handlers others) now iid ?w1 = (w2, out)"
    by (cases "supervisor_check_breakers (leaf_handlers others) now iid ?w1")
  have m1: "registry ?w1 iid = Some m" by simp
  have c1: "load_breaker_config iid ?w1 = Some c"
    using c by (simp add: load_breaker_config_frame [of ?w1 w])
  note eff = supervisor_check_effect [OF others m1 c1 chk]
  let ?w3 = "fst (handle_checkpoint_writes now iid payload w2)"
  have "prefix ''harness.'' HARNESS_CHECKPOINT" by (simp add: event_types)
  moreover have "fst (on_harness_event (leaf_handlers others) ?e (logged now ?a w)) = ?w3"
    using n chk by (simp add: on_harness_event_def handle_checkpoint_def metrics_of_def checkpoint_args_def
        m_def next_metrics_def Let_def event_types new_event_def split: option.splits)
  ultimately have "w' = dispatch others ?e ?w3"
    by (simp add: w' emit_dispatch dispatch_app checkpoint_args_def)
  then have b: "bystander ?w3 w'" using bystanders_dispatch [OF others] by simp
  have r: "registry w' = registry w2" "loop_states w' = loop_states w2" "prefix (events w2) (events w')"
    using b by (auto simp: bystander_def log_grows_def)
  show "loop_states w' = loop_states w" using r(2) eff(2) by simp
  show "registry w' = (registry w)(iid \<mapsto> m)" if "breaker_reason now m c = None"
    using eff(3) [OF that] r(1) by simp
  have trip: "registry w' = (registry w)(iid := None) \<and> killed_since iid (events w) (events w')"
    if "breaker_reason now m c \<noteq> None"
  proof -
    have "registry w2 = (registry ?w1)(iid := None)" "killed_since iid (events ?w1) (events w2)"
      using eff(4) [OF that] by auto
    with r show ?thesis
      by (auto intro: killed_since_grows killed_since_older)
  qed
  then show "breaker_reason now m c \<noteq> None \<Longrightarrow>
      registry w' = (registry w)(iid := None) \<and> killed_since iid (events w) (events w')" .
  show "prefix (events w) (events w')"
  proof (cases "breaker_reason now m c")
    case None
    then have "events w2 = events w @ [?e]" using eff(3) by simp
    with r(3) show ?thesis by (auto simp: prefix_def)
  next
    case (Some x)
    with trip show ?thesis by (auto simp: killed_since_def prefix_def)
  qed
qed

text \<open>A run of checkpoints of one instance.\<close>

definition checkpoints ::
    "'z world_scheme handlers \<Rightarrow> ident \<Rightarrow> (timestamp \<times> json_obj) list \<Rightarrow> 'z world_scheme
     \<Rightarrow> 'z world_scheme" where
  "checkpoints others iid cps w =
     fold (\<lambda>(now, payload) w. fst (emit (app_handlers others) now (checkpoint_args iid payload) w)) cps w"

lemma checkpoints_simps [simp]:
  "checkpoints others iid [] w = w"
  "checkpoints others iid ((now, payload) # cps) w =
     checkpoints others iid cps (fst (emit (app_handlers others) now (checkpoint_args iid payload) w))"
  by (simp_all add: checkpoints_def)

definition parses :: "timestamp \<times> json_obj \<Rightarrow> bool" where
  "parses cp = (payload_int (snd cp) ''token_estimate'' \<noteq> None)"

lemma checkpoints_log:
  assumes "bystanders others" and "load_breaker_config iid w = Some c" and "list_all parses cps"
  shows "prefix (events w) (events (checkpoints others iid cps w))"
  using assms(2,3)
proof (induction cps arbitrary: w)
  case (Cons cp cps)
  obtain now payload where cp: "cp = (now, payload)" by (cases cp)
  obtain n where n: "payload_int payload ''token_estimate'' = Some n"
    using Cons.prems(2) cp by (auto simp: parses_def)
  let ?w1 = "fst (emit (app_handlers others) now (checkpoint_args iid payload) w)"
  note eff = checkpoint_effect [OF assms(1) Cons.prems(1) n refl [of ?w1]]
  have "load_breaker_config iid ?w1 = Some c"
    using Cons.prems(1) load_breaker_config_frame [OF eff(1)] by simp
  with Cons.IH Cons.prems(2) eff(2) show ?case
    by (auto simp: cp intro: prefix_order.trans)
qed simp

lemma checkpoints_killed:
  assumes "bystanders others" and "load_breaker_config iid w = Some c" and "list_all parses cps"
    and "cps \<noteq> []"
    and "bc_max_continuations c \<le> m_continuation_count (metrics_of w iid) + int (length cps)"
  shows "killed_since iid (events w) (events (checkpoints others iid cps w))"
  using assms(2-)
proof (induction cps arbitrary: w)
  case (Cons cp cps)
  obtain now payload where cp: "cp = (now, payload)" by (cases cp)
  obtain n where n: "payload_int payload ''token_estimate'' = Some n"
    using Cons.prems(2) cp by (auto simp: parses_def)
  let ?w1 = "fst (emit (app_handlers others) now (checkpoint_args iid payload) w)"
  let ?m = "next_metrics now n (metrics_of w iid)"
  note eff = checkpoint_effect [OF assms(1) Cons.prems(1) n refl [of ?w1]]
  have c1: "load_breaker_config iid ?w1 = Some c"
    using Cons.prems(1) load_breaker_config_frame [OF eff(1)] by simp
  have par: "list_all parses cps" using Cons.prems(2) by simp
  show ?case
  proof (cases "breaker_reason now ?m c")
    case (Some r)
    then have "killed_since iid (events w) (events ?w1)" using eff(4) by simp
    then show ?thesis
      using killed_since_grows checkpoints_log [OF assms(1) c1 par] by (simp add: cp)
  next
    case None
    then have "metrics_of ?w1 iid = ?m" using eff(3) by (simp add: metrics_of_def)
    then have cnt: "m_continuation_count (metrics_of ?w1 iid) = m_continuation_count (metrics_of w iid) + 1"
      by (simp add: next_metrics_def)
    have "m_continuation_count ?m < bc_max_continuations c"
      using None by (auto simp: breaker_reason_def split: if_splits)
    then have "cps \<noteq> []" using Cons.prems(4) by (auto simp: next_metrics_def)
    with Cons.IH [OF c1 par] cnt Cons.prems(4)
    have "killed_since iid (events ?w1) (events (checkpoints others iid cps ?w1))" by simp
    then show ?thesis using eff(2) by (simp add: cp killed_since_older)
  qed
qed simp

section \<open>A process to evaluate on\<close>

definition sample_loop :: loop_state where
  "sample_loop = \<lparr>row_id = ''l'', created_at = 0, updated_at = 0, deleted_at = None,
     ls_instance_id = ''x'', loop_status = L_running, current_plan_ref = None,
     continuation_count = 0, total_token_estimate = 0, wall_clock_started_at = None,
     last_checkpoint_at = None, boulder_snapshot = None, notepad_refs = None,
     max_continuations = 2, max_wall_clock_seconds = 3600, max_token_estimate = 100000,
     idle_timeout_seconds = 300\<rparr>"

definition sample_world :: world where
  "sample_world = db.extend (empty_db sample_ids) \<lparr>registry = Map.empty, runtime_tasks = [], stop_flags = []\<rparr>"

definition running_world :: world where
  "running_world = sample_world\<lparr>loop_states := [sample_loop]\<rparr>"

lemma running_world_simps [simp]:
  "loop_states running_world = [sample_loop]" "registry running_world = Map.empty"
  "events running_world = []"
  by (simp_all add: running_world_def sample_world_def db.extend_def empty_db_def)

lemma running_world_config:
  "load_breaker_config ''x'' running_world = Some \<lparr>bc_max_continuations = 2,
     bc_max_wall_clock_seconds = 3600, bc_max_token_estimate = 100000, bc_idle_timeout_seconds = 300\<rparr>"
  by (simp add: load_breaker_config_def live_loop_state_def sample_loop_def live_def)

section \<open>Properties\<close>

text \<open>
  The supervisor reacts to four event types only: emitting any other event, in particular the
  audit events of the inject queue and of the operator commands, does nothing but append the row.
\<close>

theorem supervisor_silent:
  assumes "ea_type a \<notin> {HARNESS_LOOP_STARTED, HARNESS_CHECKPOINT, HARNESS_CONTINUATION_INJECTED,
                          HARNESS_LOOP_STOPPED}"
  shows "emit (app_handlers []) now a w =
    ((take_id w)\<lparr>events := events w @ [new_event now a w]\<rparr>, new_event now a w)"
  using assms
  by (simp add: emit_dispatch dispatch_app on_harness_event_silent acted_on_def logged_def)

lemma supervisor_silent_witness:
  "events (fst (emit (app_handlers []) 7 (system_event HARNESS_PAUSED ''instance'' ''x'' []) running_world))
   = [new_event 7 (system_event HARNESS_PAUSED ''instance'' ''x'' []) running_world]"
  by (subst supervisor_silent) (simp_all add: event_types take_id_def)



text \<open>
  C12. A runaway loop is stopped: however much or little it reports, an instance that keeps
  checkpointing is sent a kill command by the time its count reaches \<open>max_continuations\<close>.
\<close>

theorem runaway_loop_killed:
  assumes "bystanders others" and "load_breaker_config iid w = Some c" and "list_all parses cps"
    and "cps \<noteq> []"
    and "bc_max_continuations c \<le> m_continuation_count (metrics_of w iid) + int (length cps)"
  shows "\<exists>e \<in> set (drop (length (events w)) (events (checkpoints others iid cps w))). kill_event iid e"
proof -
  have "killed_since iid (events w) (events (checkpoints others iid cps w))"
    using assms by (rule checkpoints_killed)
  then show ?thesis by (auto simp: killed_since_def)
qed

lemma runaway_loop_killed_witness:
  "\<exists>e \<in> set (events (checkpoints [] ''x'' [(1, []), (2, [])] running_world)). kill_event ''x'' e"
  using runaway_loop_killed [OF bystanders_Nil running_world_config, of "[(1, []), (2, [])]"]
  by (simp add: parses_def payload_int_def metrics_of_def new_metrics_def)

text \<open>
  C23. The registry entry does not survive the trip: the stop event that \<open>trip_breaker\<close> emits is
  handled by the supervisor itself, before \<open>trip_breaker\<close> commits or returns.
\<close>

theorem trip_drops_entry_itself:
  assumes "bystanders others"
  shows "registry (trip_breaker (app_handlers others) now iid reason w) iid = None"
  using trip_breaker_effect(1) [OF assms] by (simp add: trip_breaker_handlers)

lemma trip_drops_entry_itself_witness:
  "registry (trip_breaker (app_handlers []) 9 ''x'' ''wall_clock''
     (set_metrics ''x'' new_metrics running_world)) ''x'' = None"
  by (rule trip_drops_entry_itself) simp

text \<open>
  Interrupting: 404 without a live loop state; otherwise that state becomes interrupted, the
  registry forgets the instance, a kill command is on the log, and no other loop state changes.
\<close>

theorem interrupt_outcome:
  assumes "bystanders others"
  shows "(case handle_interrupt (app_handlers others) now iid w of
      Inl e \<Rightarrow> live_loop_state iid w = None \<and>
        e = NotFoundError ''loop_state.not_found'' ''errors.loop_state.not_found''
    | Inr (w', st') \<Rightarrow> (\<exists>st. live_loop_state iid w = Some st \<and>
        st' = modified now st (st\<lparr>loop_status := L_interrupted\<rparr>) \<and>
        loop_states w' = update_where (\<lambda>r. row_id r = row_id st) (\<lambda>_. st') (loop_states w)) \<and>
        registry w' = (registry w)(iid := None) \<and> killed_since iid (events w) (events w'))"
proof (cases "live_loop_state iid w")
  case None
  then show ?thesis by (simp add: handle_interrupt_def set_loop_status_def get_state_or_404_def)
next
  case (Some st)
  let ?st = "modified now st (st\<lparr>loop_status := L_interrupted\<rparr>)"
  let ?w0 = "replace_loop_state ?st w"
  let ?a1 = "system_event HARNESS_INTERRUPTED ''instance'' iid []"
  let ?w1 = "fst (emit (app_handlers others) now ?a1 ?w0)"
  let ?a2 = "system_event HARNESS_CONTROL_SENT ''instance'' iid
    [(''action'', JStr ''kill''), (''instance_id'', JStr iid)]"
  let ?w2 = "fst (emit (app_handlers others) now ?a2 ?w1)"
  have b1: "bystander (logged now ?a1 ?w0) ?w1"
    using emit_leaf_silent [OF assms, of ?a1 now ?w0] by (simp add: emit_app_leaf acted_on_def event_types)
  have b2: "bystander (logged now ?a2 ?w1) ?w2"
    using emit_leaf_silent [OF assms, of ?a2 now ?w1] by (simp add: emit_app_leaf acted_on_def event_types)
  obtain r1 where r1: "events ?w1 = events ?w0 @ r1"
    using b1 by (auto simp: bystander_def log_grows_def prefix_def)
  obtain r2 where r2: "events ?w2 = events ?w1 @ new_event now ?a2 ?w1 # r2"
    using b2 by (auto simp: bystander_def log_grows_def prefix_def)
  have "kill_event iid (new_event now ?a2 ?w1)" by (simp add: kill_event_def)
  with r1 r2 have "killed_since iid (events w) (events ?w2)"
    by (force simp: killed_since_def replace_loop_state_def)
  moreover have "registry ?w2 = registry w" "loop_states ?w2 = loop_states ?w0"
    using b1 b2 by (simp_all add: bystander_def replace_loop_state_def)
  moreover have "row_id ?st = row_id st" by (simp add: modified_def)
  moreover have "handle_interrupt (app_handlers others) now iid w = Inr (pop_metrics iid ?w2, ?st)"
    using Some by (simp add: handle_interrupt_def set_loop_status_def get_state_or_404_def Let_def)
  ultimately show ?thesis using Some by (simp add: replace_loop_state_def)
qed

lemma interrupt_outcome_witness:
  "\<exists>w' st'. handle_interrupt (app_handlers []) 9 ''x'' running_world = Inr (w', st') \<and>
     loop_states w' = [st'] \<and> loop_status st' = L_interrupted"
proof (cases "handle_interrupt (app_handlers []) 9 ''x'' running_world")
  case (Inl e)
  with interrupt_outcome [OF bystanders_Nil, where now = 9 and iid = "''x''" and w = running_world] show ?thesis
    by (simp add: live_loop_state_def sample_loop_def live_def)
next
  case (Inr p)
  with interrupt_outcome [OF bystanders_Nil, where now = 9 and iid = "''x''" and w = running_world] show ?thesis
    by (cases p) (auto simp: live_loop_state_def sample_loop_def live_def modified_def touch_def)
qed

text \<open>
  C16. A snapshot is accepted exactly when its todos are a list of dictionaries with a known status,
  every completed one carries a non-empty note, and at most one is in progress.
\<close>

definition todo_ok :: "json \<Rightarrow> bool" where
  "todo_ok t \<longleftrightarrow> (\<exists>ob st. t = JObj ob \<and> jget ob ''status'' = Some (JStr st) \<and>
     st \<in> {''pending'', ''in_progress'', ''completed'', ''cancelled''} \<and>
     (st = ''completed'' \<longrightarrow> (\<exists>note. jget ob ''completion_note'' = Some (JStr note) \<and> note \<noteq> [])))"

definition in_progress :: "json \<Rightarrow> bool" where
  "in_progress t \<longleftrightarrow> (\<exists>ob. t = JObj ob \<and> jget ob ''status'' = Some (JStr ''in_progress''))"

lemma check_todos_iff:
  "check_todos todos n = Inr k \<longleftrightarrow> list_all todo_ok todos \<and> k = n + length (filter in_progress todos)"
proof (induction todos n rule: check_todos.induct)
  case (2 todo todos n)
  show ?case
  proof (cases "jget todo ''status''")
    case (Some j)
    show ?thesis
    proof (cases j)
      case (JStr st)
      have has_note: "(case jget todo ''completion_note'' of Some (JStr note) \<Rightarrow> note = [] | _ \<Rightarrow> True) \<longleftrightarrow>
        \<not> (\<exists>note. jget todo ''completion_note'' = Some (JStr note) \<and> note \<noteq> [])"
        by (auto split: option.splits json.splits)
      show ?thesis
        using 2 [OF Some JStr] Some JStr
        by (auto simp: todo_ok_def in_progress_def VALID_STATUSES_def has_note)
    qed (use Some in \<open>auto simp: todo_ok_def\<close>)
  qed (auto simp: todo_ok_def)
qed (auto simp: todo_ok_def)

theorem snapshot_accepted_iff:
  "validate_boulder_snapshot snapshot = Inr () \<longleftrightarrow>
     (\<exists>todos. jget snapshot ''todos'' = Some (JList todos) \<and> list_all todo_ok todos \<and>
        length (filter in_progress todos) \<le> 1)"
proof (cases "jget snapshot ''todos''")
  case (Some j)
  then show ?thesis
  proof (cases j)
    case (JList todos)
    show ?thesis
    proof (cases "check_todos todos 0")
      case (Inl e)
      then have "\<not> list_all todo_ok todos"
        using check_todos_iff [of todos 0 "length (filter in_progress todos)"] by simp
      with Some JList Inl show ?thesis by (simp add: validate_boulder_snapshot_def)
    next
      case (Inr k)
      then have "list_all todo_ok todos" "k = length (filter in_progress todos)"
        using check_todos_iff [of todos 0 k] by simp_all
      with Some JList Inr show ?thesis by (auto simp: validate_boulder_snapshot_def)
    qed
  qed (auto simp: validate_boulder_snapshot_def)
qed (simp add: validate_boulder_snapshot_def)

end
