(* ===== verification/Slash_Parser.thy ===== *)
theory Slash_Parser
  imports Py_Str
begin

text \<open>
  The slash-protocol parser (\<^verbatim>\<open>app/core/slash_parser.py\<close>) and its result types
  (\<^verbatim>\<open>app/schemas/slash.py\<close>). The regular expressions are written out as the scanners they
  denote: leftmost matches, greedy repetitions, matches that do not overlap.
\<close>

section \<open>Result types\<close>

record content_ref =
  ref_scope :: string
  ref_path :: "string option"

record directive =
  dir_target :: "string option"
  dir_cmd :: string
  dir_args :: "string list"
  dir_ref :: "content_ref option"
  dir_raw :: string

record turn =
  turn_directives :: "directive list"
  turn_general :: "string option"

section \<open>Scopes\<close>

definition SCOPE_NORMALIZE :: "(string \<times> string) list" where
  "SCOPE_NORMALIZE = [(''workspace'', ''hub''), (''fornix'', ''hub''), (''vault'', ''hub''),
                      (''blackboard'', ''hub''), (''memory'', ''instance'')]"

definition normalize_scope :: "string \<Rightarrow> string" where
  "normalize_scope scope = (case map_of SCOPE_NORMALIZE scope of None \<Rightarrow> scope | Some c \<Rightarrow> c)"

definition CONTENT_REF_SCOPES :: "string list" where
  "CONTENT_REF_SCOPES = [''hub'', ''instance'', ''workspace'', ''fornix'', ''vault'', ''memory'']"

section \<open>Scanners\<close>

definition slug_char :: "char \<Rightarrow> bool" where
  "slug_char c = (is_lower c \<or> is_upper c \<or> is_digit c \<or> c = CHR ''_'' \<or> c = CHR ''-'')"

definition cmd_char :: "char \<Rightarrow> bool" where
  "cmd_char c = (is_lower c \<or> is_digit c \<or> c = CHR ''-'')"

text \<open>\<open>_RE_TARGET.match\<close>: the slug and the text after the match.\<close>

fun match_target :: "string \<Rightarrow> (string \<times> string) option" where
  "match_target [] = None"
| "match_target (c # s) =
     (let slug = takeWhile slug_char s; rest = dropWhile slug_char s
      in if c = CHR ''@'' \<and> slug \<noteq> [] \<and> (rest = [] \<or> is_space (hd rest))
         then Some (slug, lstrip rest) else None)"

text \<open>\<open>_RE_CMD.search\<close>: the text before the match, the command name, the text after.\<close>

fun search_cmd :: "string \<Rightarrow> (string \<times> string \<times> string) option" where
  "search_cmd [] = None"
| "search_cmd (c # s) =
     (if c = CHR ''/'' \<and> s \<noteq> [] \<and> is_lower (hd s)
      then Some ([], takeWhile cmd_char s, dropWhile cmd_char s)
      else (case search_cmd s of None \<Rightarrow> None | Some (pre, cmd, post) \<Rightarrow> Some (c # pre, cmd, post)))"

text \<open>A content reference at the front of the text after an at sign: scope, path, characters used.\<close>

definition match_scope :: "string \<Rightarrow> string option" where
  "match_scope s = find (\<lambda>w. starts_with w s) CONTENT_REF_SCOPES"

definition match_ref :: "string \<Rightarrow> (string \<times> string option \<times> nat) option" where
  "match_ref s =
     (case match_scope s of
        None \<Rightarrow> None
      | Some w \<Rightarrow>
          let rest = drop (length w) s;
              path = takeWhile (\<lambda>c. \<not> is_space c) (drop 1 rest)
          in if take 1 rest = '':'' \<and> path \<noteq> []
             then Some (w, Some path, length w + 1 + length path)
             else Some (w, None, length w))"

text \<open>
  \<open>_RE_CONTENT_REF.finditer\<close> and \<open>.sub("", _)\<close> in one pass: the text outside the matches and
  the matches; the first argument counts the characters of the current match still to skip.
\<close>

fun scan_refs :: "nat \<Rightarrow> string \<Rightarrow> string \<times> (string \<times> string option) list" where
  "scan_refs n [] = ([], [])"
| "scan_refs (Suc n) (c # s) = scan_refs n s"
| "scan_refs 0 (c # s) =
     (case (if c = CHR ''@'' then match_ref s else None) of
        Some (w, path, n) \<Rightarrow> (case scan_refs n s of (kept, refs) \<Rightarrow> (kept, (w, path) # refs))
      | None \<Rightarrow> (case scan_refs 0 s of (kept, refs) \<Rightarrow> (c # kept, refs)))"

text \<open>\<open>_RE_AT_TOKEN.finditer\<close>: start, end and slug of every match.\<close>

fun at_tokens :: "nat \<Rightarrow> nat \<Rightarrow> string \<Rightarrow> (nat \<times> nat \<times> string) list" where
  "at_tokens pos n [] = []"
| "at_tokens pos (Suc n) (c # s) = at_tokens (Suc pos) n s"
| "at_tokens pos 0 (c # s) =
     (let slug = takeWhile slug_char s
      in if c = CHR ''@'' \<and> slug \<noteq> []
         then (pos, pos + 1 + length slug, slug) # at_tokens (Suc pos) (length slug) s
         else at_tokens (Suc pos) 0 s)"

section \<open>The parser\<close>

definition slice :: "nat \<Rightarrow> nat \<Rightarrow> string \<Rightarrow> string" where
  "slice i j s = take (j - i) (drop i s)"

text \<open>The mentions that count: no scope keyword, at the start or after white space.\<close>

definition mention_tokens :: "string \<Rightarrow> (nat \<times> nat \<times> string) list" where
  "mention_tokens raw =
     filter (\<lambda>(i, j, slug). slug \<notin> set CONTENT_REF_SCOPES \<and> (i = 0 \<or> is_space (raw ! (i - 1))))
       (at_tokens 0 0 raw)"

fun mention_directives :: "string \<Rightarrow> (nat \<times> nat \<times> string) list \<Rightarrow> directive list" where
  "mention_directives raw [] = []"
| "mention_directives raw ((i, j, slug) # ms) =
     (let e = (case ms of [] \<Rightarrow> length raw | (i', _) # _ \<Rightarrow> i')
      in \<lparr>dir_target = Some slug, dir_cmd = [], dir_args = split_ws (strip (slice j e raw)),
          dir_ref = None, dir_raw = strip (slice i e raw)\<rparr> # mention_directives raw ms)"

definition expand_inline_chat_mentions :: "string \<Rightarrow> directive list option" where
  "expand_inline_chat_mentions raw =
     (if search_cmd raw \<noteq> None then None
      else let ms = mention_tokens raw
           in if length ms \<le> 1 then None else Some (mention_directives raw ms))"

definition parse_directive :: "string \<Rightarrow> directive + string" where
  "parse_directive line =
     (case (case match_target line of None \<Rightarrow> (None, line) | Some (t, rest) \<Rightarrow> (Some t, rest)) of
        (target, remaining) \<Rightarrow>
          (case search_cmd remaining of
             None \<Rightarrow>
               (case target of
                  Some t \<Rightarrow> Inl \<lparr>dir_target = Some t, dir_cmd = [], dir_args = split_ws remaining,
                                 dir_ref = None, dir_raw = line\<rparr>
                | None \<Rightarrow> Inr line)
           | Some (pre, cmd, post) \<Rightarrow>
               (case scan_refs 0 (pre @ post) of (kept, refs) \<Rightarrow>
                  let ref = (if refs = [] then None
                             else Some \<lparr>ref_scope = normalize_scope (fst (last refs)),
                                        ref_path = snd (last refs)\<rparr>);
                      rest = (if refs = [] then pre @ post else strip kept)
                  in Inl \<lparr>dir_target = target, dir_cmd = CHR ''/'' # cmd, dir_args = split_ws rest,
                          dir_ref = ref, dir_raw = line\<rparr>)))"

fun parse_lines :: "string list \<Rightarrow> directive list \<times> string list" where
  "parse_lines [] = ([], [])"
| "parse_lines (line # ls) =
     (case parse_lines ls of (ds, gs) \<Rightarrow>
        let stripped = strip line in
        if stripped = [] then (ds, gs)
        else case expand_inline_chat_mentions stripped of
          Some es \<Rightarrow> (es @ ds, gs)
        | None \<Rightarrow> (case parse_directive stripped of
                     Inl d \<Rightarrow> (d # ds, gs)
                   | Inr g \<Rightarrow> (ds, g # gs)))"

definition parse_turn :: "string \<Rightarrow> turn" where
  "parse_turn raw =
     (case parse_lines (split_on newline (strip raw)) of (ds, gs) \<Rightarrow>
        \<lparr>turn_directives = ds,
         turn_general = (if gs = [] then None else Some (join [newline] gs))\<rparr>)"

section \<open>Facts about the scanners\<close>

lemma slug_char_simps [simp]:
  "\<not> slug_char CHR ''@''" "\<not> slug_char CHR '' ''" "\<not> slug_char CHR ''/''"
  by (simp_all add: slug_char_def is_lower_def is_upper_def is_digit_def)

lemma slug_not_space: "slug_char c \<Longrightarrow> \<not> is_space c"
  by (auto simp: slug_char_def not_space_class)

lemma cmd_not_space: "cmd_char c \<Longrightarrow> \<not> is_space c"
  by (auto simp: cmd_char_def not_space_class)

lemma match_scope_in: "match_scope s = Some w \<Longrightarrow> w \<in> set CONTENT_REF_SCOPES"
  unfolding match_scope_def by (drule first_where_SomeD) simp

lemma match_ref_scope: "match_ref s = Some (w, p, n) \<Longrightarrow> w \<in> set CONTENT_REF_SCOPES"
  by (auto simp: match_ref_def Let_def dest: match_scope_in split: option.splits if_splits)

lemma scan_refs_scope: "(w, p) \<in> set (snd (scan_refs n s)) \<Longrightarrow> w \<in> set CONTENT_REF_SCOPES"
proof (induction n s rule: scan_refs.induct)
  case (3 c s)
  then show ?case
    by (auto split: option.splits prod.splits if_splits dest: match_ref_scope)
qed auto

lemma normalize_scope_canonical:
  "w \<in> set CONTENT_REF_SCOPES \<Longrightarrow> normalize_scope w \<in> {''hub'', ''instance''}"
  by (auto simp: CONTENT_REF_SCOPES_def normalize_scope_def SCOPE_NORMALIZE_def)

lemma scan_refs_plain: "CHR ''@'' \<notin> set s \<Longrightarrow> scan_refs 0 s = (s, [])"
  by (induction s) auto

lemma search_cmd_plain: "CHR ''/'' \<notin> set s \<Longrightarrow> search_cmd s = None"
  by (induction s) auto

lemma takeWhile_stop:
  "(\<And>c. c \<in> set w \<Longrightarrow> P c) \<Longrightarrow> s = [] \<or> \<not> P (hd s) \<Longrightarrow> takeWhile P (w @ s) = w \<and> dropWhile P (w @ s) = s"
  by (cases s) (auto simp: takeWhile_append2 dropWhile_append2)

section \<open>Shape of parsed directives\<close>

definition word_ok :: "string \<Rightarrow> bool" where
  "word_ok w = (w \<noteq> [] \<and> list_all (\<lambda>c. \<not> is_space c) w)"

fun cmd_ok :: "string \<Rightarrow> bool" where
  "cmd_ok (s # c # cs) = (s = CHR ''/'' \<and> is_lower c \<and> list_all cmd_char cs)"
| "cmd_ok _ = False"

definition ref_ok :: "content_ref \<Rightarrow> bool" where
  "ref_ok r = (ref_scope r \<in> {''hub'', ''instance''} \<and>
               (case ref_path r of None \<Rightarrow> True | Some p \<Rightarrow> word_ok p))"

definition wf_directive :: "directive \<Rightarrow> bool" where
  "wf_directive d =
     ((case dir_target d of None \<Rightarrow> True | Some t \<Rightarrow> t \<noteq> [] \<and> list_all slug_char t) \<and>
      (if dir_cmd d = [] then dir_target d \<noteq> None \<and> dir_ref d = None else cmd_ok (dir_cmd d)) \<and>
      list_all word_ok (dir_args d) \<and>
      (case dir_ref d of None \<Rightarrow> True | Some r \<Rightarrow> ref_ok r) \<and>
      newline \<notin> set (dir_raw d))"

lemma split_ws_words: "list_all word_ok (split_ws s)"
  using split_ws_nonempty split_ws_no_space by (fastforce simp: list_all_iff word_ok_def)

lemma search_cmd_SomeD:
  "search_cmd s = Some (pre, cmd, post) \<Longrightarrow>
   s = pre @ CHR ''/'' # cmd @ post \<and> cmd_ok (CHR ''/'' # cmd) \<and> (post = [] \<or> \<not> cmd_char (hd post))"
proof (induction s arbitrary: pre)
  case (Cons c s)
  show ?case
  proof (cases "c = CHR ''/'' \<and> s \<noteq> [] \<and> is_lower (hd s)")
    case True
    then obtain x t where s: "s = x # t" and x: "is_lower x" by (cases s) auto
    then have "cmd_char x" by (simp add: cmd_char_def)
    with Cons.prems True s x show ?thesis
      using hd_dropWhile [of cmd_char t]
      by (auto simp: list_all_iff dest: set_takeWhileD)
  next
    case False
    with Cons.prems obtain pre' where "search_cmd s = Some (pre', cmd, post)" "pre = c # pre'"
      by (auto split: option.splits if_splits)
    with Cons.IH show ?thesis by auto
  qed
qed simp

lemma match_target_SomeD:
  "match_target s = Some (t, rest) \<Longrightarrow> t \<noteq> [] \<and> list_all slug_char t"
  by (cases s) (auto simp: Let_def list_all_iff split: if_splits dest: set_takeWhileD)

lemma match_ref_path: "match_ref s = Some (w, Some p, n) \<Longrightarrow> word_ok p"
  by (auto simp: match_ref_def Let_def word_ok_def list_all_iff
      split: option.splits if_splits dest: set_takeWhileD)

lemma scan_refs_path: "(w, Some p) \<in> set (snd (scan_refs n s)) \<Longrightarrow> word_ok p"
proof (induction n s rule: scan_refs.induct)
  case (3 c s)
  then show ?case
    by (auto split: option.splits prod.splits if_splits dest: match_ref_path)
qed auto

lemma scan_refs_last_ok:
  assumes "scan_refs 0 s = (kept, refs)" "refs \<noteq> []"
  shows "ref_ok \<lparr>ref_scope = normalize_scope (fst (last refs)), ref_path = snd (last refs)\<rparr>"
proof -
  obtain w p where l: "last refs = (w, p)" by (cases "last refs")
  with assms have "(w, p) \<in> set (snd (scan_refs 0 s))" by (metis last_in_set snd_conv)
  with l show ?thesis
    using scan_refs_scope [THEN normalize_scope_canonical, of w p 0 s] scan_refs_path [of w _ 0 s]
    by (auto simp: ref_ok_def split: option.split)
qed

lemma parse_directive_wf:
  assumes "parse_directive line = Inl d" "newline \<notin> set line"
  shows "wf_directive d"
proof -
  obtain target remaining where tr:
    "(case match_target line of None \<Rightarrow> (None, line) | Some (t, rest) \<Rightarrow> (Some t, rest)) = (target, remaining)"
    by (cases "case match_target line of None \<Rightarrow> (None, line) | Some (t, rest) \<Rightarrow> (Some t, rest)")
  have t: "case target of None \<Rightarrow> True | Some t \<Rightarrow> t \<noteq> [] \<and> list_all slug_char t"
    using tr by (auto split: option.splits prod.splits dest: match_target_SomeD)
  show ?thesis
  proof (cases "search_cmd remaining")
    case None
    with assms tr t show ?thesis
      by (auto simp: parse_directive_def wf_directive_def split_ws_words split: option.splits)
  next
    case (Some x)
    then obtain pre cmd post where sc: "search_cmd remaining = Some (pre, cmd, post)" by (cases x) auto
    obtain kept refs where sr: "scan_refs 0 (pre @ post) = (kept, refs)"
      by (cases "scan_refs 0 (pre @ post)")
    have "cmd_ok (CHR ''/'' # cmd)" using search_cmd_SomeD [OF sc] by simp
    with assms tr sc sr t scan_refs_last_ok [OF sr] show ?thesis
      by (auto simp: parse_directive_def wf_directive_def split_ws_words Let_def simp del: cmd_ok.simps)
  qed
qed

lemma at_tokens_slug:
  "(i, j, slug) \<in> set (at_tokens pos n s) \<Longrightarrow> slug \<noteq> [] \<and> list_all slug_char slug"
  by (induction pos n s rule: at_tokens.induct)
    (auto simp: Let_def list_all_iff split: if_splits dest: set_takeWhileD)

lemma mention_tokens_slug:
  "(i, j, slug) \<in> set (mention_tokens raw) \<Longrightarrow> slug \<noteq> [] \<and> list_all slug_char slug"
  by (auto simp: mention_tokens_def dest: at_tokens_slug)

lemma slice_no_newline: "newline \<notin> set raw \<Longrightarrow> newline \<notin> set (strip (slice i j raw))"
  using set_strip [of "slice i j raw"] by (auto simp: slice_def dest!: in_set_takeD in_set_dropD)

lemma wf_mention:
  "wf_directive \<lparr>dir_target = Some slug, dir_cmd = [], dir_args = as, dir_ref = None, dir_raw = r\<rparr> \<longleftrightarrow>
   slug \<noteq> [] \<and> list_all slug_char slug \<and> list_all word_ok as \<and> newline \<notin> set r"
  by (auto simp: wf_directive_def)

lemma mention_directives_wf:
  "(\<And>i j slug. (i, j, slug) \<in> set ms \<Longrightarrow> slug \<noteq> [] \<and> list_all slug_char slug) \<Longrightarrow>
   newline \<notin> set raw \<Longrightarrow> list_all wf_directive (mention_directives raw ms)"
proof (induction raw ms rule: mention_directives.induct)
  case (2 raw i j slug ms)
  have "list_all wf_directive (mention_directives raw ms)"
    by (rule 2(1)) (use 2(2,3) in auto)
  moreover have "slug \<noteq> [] \<and> list_all slug_char slug" using 2(2) by auto
  ultimately show ?case
    using 2(3) by (simp add: wf_mention split_ws_words slice_no_newline Let_def)
qed simp

lemma expand_wf:
  "expand_inline_chat_mentions raw = Some ds \<Longrightarrow> newline \<notin> set raw \<Longrightarrow> list_all wf_directive ds"
  by (auto simp: expand_inline_chat_mentions_def Let_def split: if_splits
      intro!: mention_directives_wf dest: mention_tokens_slug)

lemma parse_lines_wf:
  "(\<And>l. l \<in> set ls \<Longrightarrow> newline \<notin> set l) \<Longrightarrow> list_all wf_directive (fst (parse_lines ls))"
proof (induction ls)
  case (Cons l ls)
  have nl: "newline \<notin> set (strip l)" using Cons.prems set_strip [of l] by auto
  have "list_all wf_directive (fst (parse_lines ls))" using Cons by simp
  then show ?case
    using expand_wf [OF _ nl] parse_directive_wf [OF _ nl]
    by (auto simp: Let_def split: prod.splits option.splits sum.splits)
qed simp

text \<open>
  C11. The type of the parser's output, for every input: a target and a command consist of the
  characters of their grammar, a directive without a command is a chat mention (a target and no
  content reference), arguments and paths are words, the raw text is one line, and the scope of
  every content reference is one of the two canonical scopes (a legacy scope is normalised).\<close>
theorem parse_turn_wf: "list_all wf_directive (turn_directives (parse_turn raw))"
proof -
  have "list_all wf_directive (fst (parse_lines (split_on newline (strip raw))))"
    by (rule parse_lines_wf) (rule split_on_no_sep)
  then show ?thesis by (cases "parse_lines (split_on newline (strip raw))") (simp add: parse_turn_def)
qed

section \<open>General text\<close>

text \<open>A line the parser leaves to the general text: no command, no leading target, at most one mention.\<close>

definition plain_line :: "string \<Rightarrow> bool" where
  "plain_line line = (line \<noteq> [] \<and> search_cmd line = None \<and> match_target line = None \<and>
                      length (mention_tokens line) \<le> 1)"

lemma parse_directive_Inr: 
  "parse_directive line = Inr g \<longleftrightarrow> g = line \<and> match_target line = None \<and> search_cmd line = None"
  by (auto simp: parse_directive_def Let_def split: option.splits prod.splits)

lemma expand_None:
  "expand_inline_chat_mentions raw = None \<longleftrightarrow> search_cmd raw \<noteq> None \<or> length (mention_tokens raw) \<le> 1"
  by (simp add: expand_inline_chat_mentions_def Let_def)

lemma parse_lines_general:
  "snd (parse_lines ls) = filter plain_line (map strip ls)"
proof (induction ls)
  case (Cons l ls)
  show ?case
  proof (cases "plain_line (strip l)")
    case True
    then have "expand_inline_chat_mentions (strip l) = None"
      and "parse_directive (strip l) = Inr (strip l)" and "strip l \<noteq> []"
      by (auto simp: plain_line_def expand_None parse_directive_Inr)
    with True Cons.IH show ?thesis by (cases "parse_lines ls") (simp add: Let_def)
  next
    case False
    then consider "strip l = []" | es where "expand_inline_chat_mentions (strip l) = Some es"
      | d where "expand_inline_chat_mentions (strip l) = None" "parse_directive (strip l) = Inl d"
      using expand_None [of "strip l"] parse_directive_Inr [of "strip l"]
      by (cases "parse_directive (strip l)"; cases "expand_inline_chat_mentions (strip l)")
        (auto simp: plain_line_def)
    then show ?thesis
      using False Cons.IH by cases (cases "parse_lines ls"; simp add: Let_def)+
  qed
qed simp

text \<open>
  The general text of a turn is exactly its plain lines, stripped and in order: no line with
  a command, a leading target or several mentions reaches it, and no plain line is dropped.\<close>
theorem parse_turn_general_text:
  "turn_general (parse_turn raw) =
     (case filter plain_line (map strip (split_on newline (strip raw))) of
        [] \<Rightarrow> None
      | gs \<Rightarrow> Some (join [newline] gs))"
  by (auto simp: parse_turn_def parse_lines_general [symmetric] split: prod.split list.split)

section \<open>Round trip\<close>

definition ref_word :: "content_ref \<Rightarrow> string" where
  "ref_word r = CHR ''@'' # ref_scope r @ (case ref_path r of None \<Rightarrow> [] | Some p \<Rightarrow> CHR '':'' # p)"

definition render_words :: "directive \<Rightarrow> string list" where
  "render_words d = dir_cmd d # dir_args d @ (case dir_ref d of None \<Rightarrow> [] | Some r \<Rightarrow> [ref_word r])"

definition render_directive :: "directive \<Rightarrow> string" where
  "render_directive d =
     (case dir_target d of None \<Rightarrow> [] | Some t \<Rightarrow> CHR ''@'' # t @ '' '') @ join '' '' (render_words d)"

text \<open>A command directive whose raw text is its own rendering, with no at sign in an argument.\<close>

definition canonical :: "directive \<Rightarrow> bool" where
  "canonical d = (wf_directive d \<and> dir_cmd d \<noteq> [] \<and> dir_raw d = render_directive d \<and>
                  list_all (\<lambda>a. CHR ''@'' \<notin> set a) (dir_args d))"

lemma join_blank_Cons: "join '' '' (w # ws) = w @ concat (map ((#) CHR '' '') ws)"
  by (induction ws arbitrary: w) auto

lemma split_ws_blanks: "(\<And>c. c \<in> set q \<Longrightarrow> is_space c) \<Longrightarrow> split_ws (s @ q) = split_ws s"
proof (induction s rule: split_ws.induct)
  case 1
  then show ?case using split_ws_skip [of q "[]"] by simp
next
  case (2 c s)
  show ?case
  proof (cases "is_space c")
    case False
    let ?P = "\<lambda>d. \<not> is_space d"
    have "takeWhile ?P (s @ q) = takeWhile ?P s"
      and "split_ws (dropWhile ?P (s @ q)) = split_ws (dropWhile ?P s)"
    proof -
      show "takeWhile ?P (s @ q) = takeWhile ?P s"
        using 2(3) by (induction s; cases q) auto
      show "split_ws (dropWhile ?P (s @ q)) = split_ws (dropWhile ?P s)"
      proof (cases "\<exists>x \<in> set s. is_space x")
        case True
        then have "dropWhile ?P (s @ q) = dropWhile ?P s @ q" by (auto simp: dropWhile_append1)
        with 2 False show ?thesis by simp
      next
        case False
        then have "dropWhile ?P (s @ q) = dropWhile ?P q" by (auto simp: dropWhile_append2)
        moreover have "dropWhile ?P s = []" using False by (auto simp: dropWhile_eq_Nil_conv)
        moreover have "dropWhile ?P q = q" using 2(3) by (cases q) auto
        moreover have "split_ws q = []" using split_ws_skip [of q "[]"] 2(3) by simp
        ultimately show ?thesis by (metis split_ws.simps(1))
      qed
    qed
    with False show ?thesis by simp
  next
    case True
    with 2 show ?thesis by simp
  qed
qed

lemma rstrip_decomp: "\<exists>q. s = rstrip s @ q \<and> (\<forall>c \<in> set q. is_space c)"
proof -
  have "rev s = takeWhile is_space (rev s) @ rev (rstrip s)" by (simp add: rstrip_def)
  then have "s = rstrip s @ rev (takeWhile is_space (rev s))" by (metis rev_append rev_rev_ident)
  moreover have "\<forall>c \<in> set (rev (takeWhile is_space (rev s))). is_space c"
    by (auto dest: set_takeWhileD)
  ultimately show ?thesis by blast
qed

lemma split_ws_strip: "split_ws (strip s) = split_ws s"
proof -
  have l: "split_ws (lstrip s) = split_ws s"
    using split_ws_skip [of "takeWhile is_space s" "dropWhile is_space s"] set_takeWhileD [of _ is_space s]
    by (simp add: lstrip_def)
  obtain q where "lstrip s = rstrip (lstrip s) @ q" "\<forall>c \<in> set q. is_space c"
    using rstrip_decomp by blast
  then have "split_ws (lstrip s) = split_ws (rstrip (lstrip s))" using split_ws_blanks by metis
  with l show ?thesis by (simp add: strip_def)
qed

lemma split_ws_tail:
  "list_all word_ok ws \<Longrightarrow> split_ws (concat (map ((#) CHR '' '') ws)) = ws"
proof (induction ws)
  case (Cons w ws)
  have "split_ws (w @ concat (map ((#) CHR '' '') ws)) = w # split_ws (concat (map ((#) CHR '' '') ws))"
  proof (rule split_ws_word)
    show "w \<noteq> []" "\<And>c. c \<in> set w \<Longrightarrow> \<not> is_space c"
      using Cons.prems by (auto simp: word_ok_def list_all_iff)
    show "concat (map ((#) CHR '' '') ws) = [] \<or> is_space (hd (concat (map ((#) CHR '' '') ws)))"
      by (cases ws) simp_all
  qed
  with Cons show ?case by simp
qed simp

lemma scan_refs_append:
  "CHR ''@'' \<notin> set s \<Longrightarrow> scan_refs 0 (s @ t) = (s @ fst (scan_refs 0 t), snd (scan_refs 0 t))"
  by (induction s) (auto split: prod.split)

lemma scan_refs_skip: "scan_refs (length s) s = ([], [])"
  by (induction s) auto

lemma starts_with_append [simp]: "starts_with p (p @ s)"
  by (simp add: starts_with_def)

lemma starts_with_Nil [simp]: "starts_with [] s"
  by (simp add: starts_with_def)

lemma starts_with_Cons [simp]: "starts_with (a # p) (b # s) \<longleftrightarrow> a = b \<and> starts_with p s"
  by (auto simp: starts_with_def)

lemma match_scope_canonical:
  "w = ''hub'' \<or> w = ''instance'' \<Longrightarrow> match_scope (w @ s) = Some w"
  by (erule disjE; simp add: match_scope_def CONTENT_REF_SCOPES_def)

lemma match_ref_render:
  assumes "ref_ok r"
  shows "match_ref (tl (ref_word r)) = Some (ref_scope r, ref_path r, length (tl (ref_word r)))"
proof -
  have sc: "match_scope (ref_scope r @ s) = Some (ref_scope r)" for s
    using assms by (intro match_scope_canonical) (simp add: ref_ok_def)
  show ?thesis
  proof (cases "ref_path r")
    case None
    with sc [of "[]"] show ?thesis by (simp add: match_ref_def ref_word_def Let_def)
  next
    case (Some p)
    with assms have p: "p \<noteq> []" "takeWhile (\<lambda>c. \<not> is_space c) p = p"
      by (auto simp: ref_ok_def word_ok_def list_all_iff)
    have "takeWhile (\<lambda>c. \<not> is_space c) p \<noteq> [] \<and> length (takeWhile (\<lambda>c. \<not> is_space c) p) = length p"
      using p(1) by (simp only: p(2)) simp
    with p Some sc [of "CHR '':'' # p"] show ?thesis by (simp add: match_ref_def ref_word_def Let_def)
  qed
qed

lemma scan_refs_ref_word:
  assumes "ref_ok r"
  shows "scan_refs 0 (ref_word r) = ([], [(ref_scope r, ref_path r)])"
proof -
  obtain u where u: "ref_word r = CHR ''@'' # u" by (simp add: ref_word_def)
  then have "match_ref u = Some (ref_scope r, ref_path r, length u)"
    using match_ref_render [OF assms] by simp
  with u show ?thesis by (simp add: scan_refs_skip)
qed

lemma normalize_canonical_id: "ref_ok r \<Longrightarrow> normalize_scope (ref_scope r) = ref_scope r"
  by (auto simp: ref_ok_def normalize_scope_def SCOPE_NORMALIZE_def)

lemma search_cmd_front:
  assumes "cmd_ok w" "tail = [] \<or> is_space (hd tail)"
  shows "search_cmd (w @ tail) = Some ([], tl w, tail)"
proof -
  obtain c cs where w: "w = CHR ''/'' # c # cs" and c: "is_lower c" and cs: "list_all cmd_char cs"
    using assms(1) by (cases w rule: cmd_ok.cases) auto
  have tw: "takeWhile cmd_char ((c # cs) @ tail) = c # cs \<and> dropWhile cmd_char ((c # cs) @ tail) = tail"
  proof (rule takeWhile_stop)
    show "\<And>x. x \<in> set (c # cs) \<Longrightarrow> cmd_char x" using c cs by (auto simp: cmd_char_def list_all_iff)
    show "tail = [] \<or> \<not> cmd_char (hd tail)" using assms(2) cmd_not_space by blast
  qed
  with w c show ?thesis by simp
qed

lemma render_words_tail:
  "join '' '' (render_words d) =
     dir_cmd d @ concat (map ((#) CHR '' '') (dir_args d)) @
     (case dir_ref d of None \<Rightarrow> [] | Some r \<Rightarrow> CHR '' '' # ref_word r)"
  by (simp add: render_words_def join_blank_Cons split: option.split)

lemma match_target_render:
  assumes "wf_directive d" "dir_cmd d \<noteq> []"
  shows "(case match_target (render_directive d) of None \<Rightarrow> (None, render_directive d) | Some (t, r) \<Rightarrow> (Some t, r))
         = (dir_target d, join '' '' (render_words d))"
proof -
  have "cmd_ok (dir_cmd d)" using assms by (simp add: wf_directive_def)
  then obtain c cs where cmd: "dir_cmd d = CHR ''/'' # c # cs" by (cases "dir_cmd d" rule: cmd_ok.cases) auto
  then have j: "\<exists>u. join '' '' (render_words d) = CHR ''/'' # u" by (simp add: render_words_tail)
  then obtain u where u: "join '' '' (render_words d) = CHR ''/'' # u" by blast
  show ?thesis
  proof (cases "dir_target d")
    case None
    with u show ?thesis by (simp add: render_directive_def)
  next
    case (Some t)
    with assms have t: "t \<noteq> []" "list_all slug_char t" by (auto simp: wf_directive_def)
    have "takeWhile slug_char (t @ CHR '' '' # CHR ''/'' # u) = t \<and>
          dropWhile slug_char (t @ CHR '' '' # CHR ''/'' # u) = CHR '' '' # CHR ''/'' # u"
      using t by (intro takeWhile_stop) (auto simp: list_all_iff)
    with Some u t show ?thesis by (simp add: render_directive_def lstrip_def)
  qed
qed

lemma parse_directive_render:
  assumes "canonical d"
  shows "parse_directive (render_directive d) = Inl d"
proof -
  have wf: "wf_directive d" and ne: "dir_cmd d \<noteq> []" and raw: "dir_raw d = render_directive d"
    and noat: "list_all (\<lambda>a. CHR ''@'' \<notin> set a) (dir_args d)"
    using assms by (auto simp: canonical_def)
  have cmd: "cmd_ok (dir_cmd d)" and args: "list_all word_ok (dir_args d)"
    using wf ne by (auto simp: wf_directive_def)
  then obtain c cs where dc: "dir_cmd d = CHR ''/'' # c # cs" by (cases "dir_cmd d" rule: cmd_ok.cases) auto
  define as where "as = concat (map ((#) CHR '' '') (dir_args d))"
  have as: "CHR ''@'' \<notin> set as" using noat by (auto simp: as_def list_all_iff)
  have sas: "split_ws as = dir_args d" using args by (simp add: as_def split_ws_tail)
  define rw where "rw = (case dir_ref d of None \<Rightarrow> [] | Some r \<Rightarrow> CHR '' '' # ref_word r)"
  have hd: "as @ rw = [] \<or> is_space (hd (as @ rw))"
    by (cases "dir_args d") (auto simp: as_def rw_def split: option.split)
  have "search_cmd (join '' '' (render_words d)) = Some ([], tl (dir_cmd d), as @ rw)"
    using search_cmd_front [OF cmd hd] by (simp add: render_words_tail as_def rw_def)
  moreover have "scan_refs 0 (as @ rw) =
      (as @ (if dir_ref d = None then [] else '' ''),
       case dir_ref d of None \<Rightarrow> [] | Some r \<Rightarrow> [(ref_scope r, ref_path r)])"
    using wf scan_refs_append [OF as, of rw]
    by (auto simp: rw_def wf_directive_def scan_refs_ref_word split: option.splits)
  moreover have "split_ws (strip (as @ '' '')) = dir_args d"
    using split_ws_blanks [of "'' ''" as] sas by (simp add: split_ws_strip)
  ultimately show ?thesis
    using match_target_render [OF wf ne] wf sas raw dc
    by (auto simp: parse_directive_def Let_def rw_def wf_directive_def normalize_canonical_id split: option.splits)
qed

text \<open>A line that starts and ends with a non-space character.\<close>

definition edge_ok :: "string \<Rightarrow> bool" where
  "edge_ok s = (s \<noteq> [] \<and> \<not> is_space (hd s) \<and> \<not> is_space (last s))"

lemma word_edge: "word_ok w \<Longrightarrow> edge_ok w"
  by (auto simp: word_ok_def edge_ok_def list_all_iff)

lemma join_edge: "ws \<noteq> [] \<Longrightarrow> list_all edge_ok ws \<Longrightarrow> edge_ok (join sep ws)"
  by (induction sep ws rule: join.induct) (auto simp: edge_ok_def)

lemma split_on_append: "d \<notin> set w \<Longrightarrow> split_on d (w @ d # s) = w # split_on d s"
  by (induction w) auto

lemma split_on_join:
  "ws \<noteq> [] \<Longrightarrow> list_all (\<lambda>w. d \<notin> set w) ws \<Longrightarrow> split_on d (join [d] ws) = ws"
  by (induction "[d]" ws rule: join.induct) (auto simp: split_on_word split_on_append)

lemma search_cmd_append: "search_cmd s \<noteq> None \<Longrightarrow> search_cmd (p @ s) \<noteq> None"
  by (induction p) (auto split: option.split)

lemma cmd_word: "cmd_ok w \<Longrightarrow> word_ok w"
  by (cases w rule: cmd_ok.cases) (auto simp: word_ok_def list_all_iff not_space_class cmd_not_space)

lemma ref_word_word: "ref_ok r \<Longrightarrow> word_ok (ref_word r)"
  by (auto simp: ref_word_def ref_ok_def word_ok_def is_space_def split: option.splits)

lemma canonical_line:
  assumes "canonical d"
  shows "strip (render_directive d) = render_directive d" "render_directive d \<noteq> []"
    "newline \<notin> set (render_directive d)" "edge_ok (render_directive d)"
    "expand_inline_chat_mentions (render_directive d) = None"
proof -
  have wf: "wf_directive d" and ne: "dir_cmd d \<noteq> []" and raw: "dir_raw d = render_directive d"
    using assms by (auto simp: canonical_def)
  then have cmd: "cmd_ok (dir_cmd d)" by (simp add: wf_directive_def)
  have "list_all word_ok (render_words d)"
    using wf cmd by (auto simp: wf_directive_def render_words_def cmd_word ref_word_word split: option.splits)
  then have "list_all edge_ok (render_words d)" by (auto simp: list_all_iff word_edge)
  then have "edge_ok (join '' '' (render_words d))" by (intro join_edge) (simp add: render_words_def)
  then show e: "edge_ok (render_directive d)"
    by (auto simp: render_directive_def edge_ok_def split: option.split)
  then show "strip (render_directive d) = render_directive d" "render_directive d \<noteq> []"
    by (auto simp: edge_ok_def strip_id)
  show "newline \<notin> set (render_directive d)" using wf raw by (simp add: wf_directive_def)
  have "concat (map ((#) CHR '' '') (dir_args d)) @
          (case dir_ref d of None \<Rightarrow> [] | Some r \<Rightarrow> CHR '' '' # ref_word r) = [] \<or>
        is_space (hd (concat (map ((#) CHR '' '') (dir_args d)) @
          (case dir_ref d of None \<Rightarrow> [] | Some r \<Rightarrow> CHR '' '' # ref_word r)))"
    by (cases "dir_args d") (auto split: option.split)
  from search_cmd_front [OF cmd this] have "search_cmd (join '' '' (render_words d)) \<noteq> None"
    by (simp add: render_words_tail)
  from search_cmd_append [OF this] show "expand_inline_chat_mentions (render_directive d) = None"
    by (simp add: expand_None render_directive_def)
qed

lemma parse_lines_render:
  "list_all canonical ds \<Longrightarrow> parse_lines (map render_directive ds) = (ds, [])"
  by (induction ds) (simp_all add: canonical_line parse_directive_render Let_def)

text \<open>
  C7. Print and parse: a turn written as one rendered line per command directive (target,
  command, arguments, content reference) is parsed back to exactly these directives, in order,
  with no general text.\<close>
theorem parse_turn_roundtrip:
  assumes "list_all canonical ds"
  shows "parse_turn (join [newline] (map render_directive ds)) =
         \<lparr>turn_directives = ds, turn_general = None\<rparr>"
proof (cases "ds = []")
  case True
  then show ?thesis by (simp add: parse_turn_def)
next
  case False
  have "edge_ok (join [newline] (map render_directive ds))"
    using False assms by (intro join_edge) (auto simp: list_all_iff canonical_line)
  then have "strip (join [newline] (map render_directive ds)) = join [newline] (map render_directive ds)"
    by (simp add: edge_ok_def strip_id)
  moreover have "split_on newline (join [newline] (map render_directive ds)) = map render_directive ds"
    using False assms by (intro split_on_join) (auto simp: list_all_iff canonical_line)
  ultimately show ?thesis using parse_lines_render [OF assms] by (simp add: parse_turn_def)
qed

definition sample_directive :: directive where
  "sample_directive =
     \<lparr>dir_target = Some ''gru-1'', dir_cmd = ''/read'', dir_args = [''all'', ''a/b''],
      dir_ref = Some \<lparr>ref_scope = ''hub'', ref_path = Some ''notes.md''\<rparr>,
      dir_raw = ''@gru-1 /read all a/b @hub:notes.md''\<rparr>"

lemma sample_directive_canonical: "canonical sample_directive"
  by code_simp

theorem parse_turn_roundtrip_witness:
  "parse_turn ''@gru-1 /read all a/b @hub:notes.md'' =
     \<lparr>turn_directives = [sample_directive], turn_general = None\<rparr>"
  using parse_turn_roundtrip [of "[sample_directive]"] sample_directive_canonical
  by (simp add: sample_directive_def render_directive_def render_words_def ref_word_def)

section \<open>Where the parser and its documentation differ\<close>

text \<open>
  In a chat line with several mentions the text before the first mention reaches neither a
  directive nor the general text.\<close>
theorem inline_mentions_drop_prefix:
  "parse_turn ''hello @a hi @b bye'' =
     \<lparr>turn_directives =
        [\<lparr>dir_target = Some ''a'', dir_cmd = [], dir_args = [''hi''], dir_ref = None, dir_raw = ''@a hi''\<rparr>,
         \<lparr>dir_target = Some ''b'', dir_cmd = [], dir_args = [''bye''], dir_ref = None, dir_raw = ''@b bye''\<rparr>],
      turn_general = None\<rparr>"
  by code_simp

text \<open>
  C25. The legacy scope \<open>blackboard\<close>, which the module documents as accepted, is in the scope
  table but not in the grammar: the reference stays an argument.\<close>
theorem blackboard_not_a_reference:
  "parse_turn ''/read @blackboard:x'' =
     \<lparr>turn_directives = [\<lparr>dir_target = None, dir_cmd = ''/read'', dir_args = [''@blackboard:x''],
                          dir_ref = None, dir_raw = ''/read @blackboard:x''\<rparr>], turn_general = None\<rparr> \<and>
   normalize_scope ''blackboard'' = ''hub''"
  by code_simp

end
