(* ===== verification/Transcript.thy ===== *)
theory Transcript
  imports Models Priority_Inbox
begin

text \<open>
  The Composer transcript (\<^verbatim>\<open>app/services/composer_transcript.py\<close>): appending and updating
  message rows, the filtered listing and the labels of its items. Rows with equal
  \<open>created_at\<close> are listed in table order.
\<close>

section \<open>Labels and filter tokens\<close>

text \<open>\<open>candidate and candidate.strip()\<close>, the stripped text if it is not blank.\<close>

definition nonblank :: "string option \<Rightarrow> string option" where
  "nonblank v = (case v of None \<Rightarrow> None | Some s \<Rightarrow> if strip s = [] then None else Some (strip s))"

definition user_display_label :: "string option \<Rightarrow> string \<Rightarrow> string" where
  "user_display_label nick uname = (case nonblank nick of Some n \<Rightarrow> n | None \<Rightarrow> uname)"

fun first_nonblank :: "string option list \<Rightarrow> string \<Rightarrow> string" where
  "first_nonblank [] slug = slug"
| "first_nonblank (c # cs) slug = (case nonblank c of Some s \<Rightarrow> s | None \<Rightarrow> first_nonblank cs slug)"

definition entity_display_label :: "string option \<Rightarrow> string option \<Rightarrow> string \<Rightarrow> string" where
  "entity_display_label display nm slug = first_nonblank [display, nm, Some slug] slug"

text \<open>A party: its kind (\<open>user\<close>, \<open>entity\<close> or \<open>system\<close>) and its name.\<close>

type_synonym party = "string \<times> string"

definition parse_party :: "string option \<Rightarrow> party option" where
  "parse_party v =
     (case v of
        None \<Rightarrow> None
      | Some s \<Rightarrow>
          if s = [] then None
          else if s = ''system'' then Some (''system'', [])
          else if CHR '':'' \<notin> set s then None
          else let kind = takeWhile (\<lambda>c. c \<noteq> CHR '':'') s;
                   rest = strip (tl (dropWhile (\<lambda>c. c \<noteq> CHR '':'') s))
               in if kind \<notin> {''user'', ''entity''} \<or> rest = [] then None else Some (kind, rest))"

section \<open>Writing\<close>

record message_args =
  ma_role :: string
  ma_content :: string
  ma_target_entity :: "string option"
  ma_instance_id :: "ident option"
  ma_turn_id :: "ident option"
  ma_status :: string
  ma_author :: "ident option"

definition opt_fk :: "'a base_row_scheme list \<Rightarrow> ident option \<Rightarrow> bool" where
  "opt_fk rows i = (case i of None \<Rightarrow> True | Some j \<Rightarrow> fk_exists rows j)"

definition new_message :: "timestamp \<Rightarrow> ident \<Rightarrow> workspace \<Rightarrow> message_args \<Rightarrow> composer_message" where
  "new_message now i ws a = \<lparr>row_id = i, created_at = now, updated_at = now, deleted_at = None,
     cm_namespace_id = ws_namespace_id ws, cm_workspace_id = row_id ws, cm_role = ma_role a,
     cm_content = ma_content a, target_entity = ma_target_entity a, cm_instance_id = ma_instance_id a,
     turn_id = ma_turn_id a, cm_status = ma_status a, author_user_id = ma_author a\<rparr>"

definition append_composer_message ::
    "timestamp \<Rightarrow> ident \<Rightarrow> message_args \<Rightarrow> 'z db_scheme \<Rightarrow> ('z db_scheme \<times> composer_message option) result"
where
  "append_composer_message now ws a s =
     (case get_live (workspaces s) ws of
        None \<Rightarrow> Inr (s, None)
      | Some w \<Rightarrow>
          if opt_fk (instances s) (ma_instance_id a) \<and> opt_fk (users s) (ma_author a)
          then let row = new_message now (new_id s) w a
               in Inr ((take_id s)\<lparr>composer_messages := composer_messages s @ [row]\<rparr>, Some row)
          else Inl unhandled_error)"

definition of_turn :: "ident \<Rightarrow> string \<Rightarrow> composer_message \<Rightarrow> bool" where
  "of_turn tid role m = (turn_id m = Some tid \<and> cm_role m = role \<and> live m)"

definition update_composer_message_by_turn ::
    "timestamp \<Rightarrow> ident \<Rightarrow> string \<Rightarrow> string option \<Rightarrow> string option \<Rightarrow> 'z db_scheme
     \<Rightarrow> ('z db_scheme \<times> composer_message option) result" where
  "update_composer_message_by_turn now tid role content status s =
     (case filter (of_turn tid role) (composer_messages s) of
        [] \<Rightarrow> Inr (s, None)
      | [m] \<Rightarrow>
          let m1 = (case content of None \<Rightarrow> m | Some c \<Rightarrow> m\<lparr>cm_content := c\<rparr>);
              m2 = (case status of None \<Rightarrow> m1 | Some st \<Rightarrow> m1\<lparr>cm_status := st\<rparr>);
              m' = modified now m m2
          in Inr (s\<lparr>composer_messages :=
                      update_where (of_turn tid role) (\<lambda>_. m') (composer_messages s)\<rparr>, Some m')
      | _ \<Rightarrow> Inl unhandled_error)"

section \<open>Listing\<close>

record list_query =
  lq_limit :: nat
  lq_instance_id :: "string option"
  lq_role :: "string option"
  lq_target_entity :: "string option"
  lq_author_username :: "string option"
  lq_speaker :: "string option"
  lq_recipient :: "string option"

definition user_ids_named :: "string \<Rightarrow> 'z db_scheme \<Rightarrow> ident list" where
  "user_ids_named name s = map row_id (filter (\<lambda>u. username u = name \<and> live u) (users s))"

definition authored_by :: "ident list \<Rightarrow> composer_message \<Rightarrow> bool" where
  "authored_by ids m = (case author_user_id m of None \<Rightarrow> False | Some u \<Rightarrow> u \<in> set ids)"

text \<open>The turns of a workspace that one of the given users started.\<close>

definition turns_by :: "ident \<Rightarrow> ident list \<Rightarrow> 'z db_scheme \<Rightarrow> ident list" where
  "turns_by ws ids s = List.map_filter turn_id
     (filter (\<lambda>m. cm_workspace_id m = ws \<and> cm_role m = ''user'' \<and> authored_by ids m \<and> live m)
       (composer_messages s))"

text \<open>A clause of the query; \<open>None\<close> where the code returns the empty list early.\<close>

type_synonym clause = "(composer_message \<Rightarrow> bool) option"

definition author_clause :: "string \<Rightarrow> 'z db_scheme \<Rightarrow> clause" where
  "author_clause name s =
     (let ids = user_ids_named name s in if ids = [] then None else Some (authored_by ids))"

definition legacy_clauses :: "list_query \<Rightarrow> 'z db_scheme \<Rightarrow> clause list" where
  "legacy_clauses q s =
     (let sp = parse_party (lq_speaker q); rp = parse_party (lq_recipient q) in
      [Some (\<lambda>m. truthy (lq_instance_id q) \<longrightarrow> cm_instance_id m = lq_instance_id q),
       Some (\<lambda>m. truthy (lq_role q) \<and> sp = None \<longrightarrow> Some (cm_role m) = lq_role q),
       Some (\<lambda>m. truthy (lq_target_entity q) \<and> sp = None \<and> rp = None
                  \<longrightarrow> target_entity m = lq_target_entity q),
       (case lq_author_username q of
          Some name \<Rightarrow> if name \<noteq> [] \<and> sp = None then author_clause name s else Some (\<lambda>_. True)
        | None \<Rightarrow> Some (\<lambda>_. True))])"

definition speaker_clause :: "party option \<Rightarrow> 'z db_scheme \<Rightarrow> clause" where
  "speaker_clause p s =
     (case p of
        None \<Rightarrow> Some (\<lambda>_. True)
      | Some (kind, value) \<Rightarrow>
          if kind = ''system'' then Some (\<lambda>m. cm_role m = ''system'')
          else if kind = ''user'' then
            map_option (\<lambda>by m. cm_role m = ''user'' \<and> by m) (author_clause value s)
          else Some (\<lambda>m. cm_role m = ''assistant'' \<and> target_entity m = Some value))"

definition recipient_clause :: "ident \<Rightarrow> party option \<Rightarrow> 'z db_scheme \<Rightarrow> clause" where
  "recipient_clause ws p s =
     (case p of
        None \<Rightarrow> Some (\<lambda>_. True)
      | Some (kind, value) \<Rightarrow>
          if kind = ''entity'' then Some (\<lambda>m. cm_role m = ''user'' \<and> target_entity m = Some value)
          else if kind = ''user'' then
            (let ids = user_ids_named value s; turns = turns_by ws ids s in
             if ids = [] \<or> turns = [] then None
             else Some (\<lambda>m. cm_role m = ''assistant'' \<and>
                    (case turn_id m of None \<Rightarrow> False | Some t \<Rightarrow> t \<in> set turns)))
          else Some (\<lambda>_. True))"

definition all_clauses :: "ident \<Rightarrow> list_query \<Rightarrow> 'z db_scheme \<Rightarrow> clause list" where
  "all_clauses ws q s =
     Some (\<lambda>m. cm_workspace_id m = ws \<and> live m) # legacy_clauses q s
     @ [speaker_clause (parse_party (lq_speaker q)) s,
        recipient_clause ws (parse_party (lq_recipient q)) s]"

definition list_composer_messages :: "ident \<Rightarrow> list_query \<Rightarrow> 'z db_scheme \<Rightarrow> composer_message list" where
  "list_composer_messages ws q s =
     (if list_ex Option.is_none (all_clauses ws q s) then []
      else take (min (lq_limit q) 500) (sort_key created_at
             (filter (\<lambda>m. list_all (\<lambda>c. case c of None \<Rightarrow> False | Some p \<Rightarrow> p m) (all_clauses ws q s))
                (composer_messages s))))"

section \<open>Serialisation\<close>

record transcript_item =
  it_id :: ident
  it_role :: string
  it_content :: string
  it_target_entity :: "string option"
  it_target_entity_name :: "string option"
  it_instance_id :: "ident option"
  it_turn_id :: "ident option"
  it_status :: string
  it_author_user_id :: "ident option"
  it_author_username :: "string option"
  it_author_nickname :: "string option"
  it_author_display_name :: "string option"
  it_recipient_username :: "string option"
  it_recipient_nickname :: "string option"
  it_recipient_display_name :: "string option"
  it_created_at :: timestamp

text \<open>User name and nickname of a live user; an absent or empty id finds nobody.\<close>

definition user_entry :: "'z db_scheme \<Rightarrow> ident option \<Rightarrow> (string \<times> string option) option" where
  "user_entry s i = (if truthy i then map_option (\<lambda>u. (username u, nickname u))
                       (get_live (users s) (the i)) else None)"

text \<open>The author of the turn a row belongs to: the last of the turn's user rows decides.\<close>

definition turn_author :: "'z db_scheme \<Rightarrow> ident option \<Rightarrow> (string \<times> string option) option" where
  "turn_author s tid =
     (if \<not> truthy tid then None
      else case first_where (\<lambda>m. user_entry s (author_user_id m) \<noteq> None)
              (rev (filter (of_turn (the tid) ''user'') (composer_messages s))) of
             None \<Rightarrow> None
           | Some m \<Rightarrow> user_entry s (author_user_id m))"

definition entity_label :: "'z db_scheme \<Rightarrow> composer_message list \<Rightarrow> string \<Rightarrow> string option" where
  "entity_label s rows slug =
     (case rows of
        [] \<Rightarrow> None
      | r # _ \<Rightarrow>
         (case first_where (\<lambda>w. row_id w = cm_workspace_id r) (workspaces s) of
            None \<Rightarrow> None
          | Some w \<Rightarrow>
             (case first_where (\<lambda>e. ent_namespace_id e = ws_namespace_id w \<and> ent_slug e = slug \<and> live e)
                     (rev (entities s)) of
                None \<Rightarrow> None
              | Some e \<Rightarrow> Some (entity_display_label (display_name e) (Some (ent_name e)) (ent_slug e)))))"

definition label_of :: "(string \<times> string option) option \<Rightarrow> string option" where
  "label_of v = map_option (\<lambda>(u, n). user_display_label n u) v"

definition enrich_item :: "'z db_scheme \<Rightarrow> composer_message list \<Rightarrow> composer_message \<Rightarrow> transcript_item" where
  "enrich_item s rows r =
     (let author = user_entry s (author_user_id r);
          recipient = (if cm_role r = ''assistant'' then turn_author s (turn_id r) else None)
      in \<lparr>it_id = row_id r, it_role = cm_role r, it_content = cm_content r,
          it_target_entity = target_entity r,
          it_target_entity_name =
            (if truthy (target_entity r)
             then Some (case entity_label s rows (the (target_entity r)) of
                          Some l \<Rightarrow> l | None \<Rightarrow> the (target_entity r))
             else None),
          it_instance_id = cm_instance_id r, it_turn_id = turn_id r, it_status = cm_status r,
          it_author_user_id = author_user_id r,
          it_author_username = map_option fst author,
          it_author_nickname = (case author of None \<Rightarrow> None | Some (_, n) \<Rightarrow> n),
          it_author_display_name = label_of author,
          it_recipient_username = map_option fst recipient,
          it_recipient_nickname = (case recipient of None \<Rightarrow> None | Some (_, n) \<Rightarrow> n),
          it_recipient_display_name = label_of recipient,
          it_created_at = created_at r\<rparr>)"

definition enrich_composer_message_items :: "'z db_scheme \<Rightarrow> composer_message list \<Rightarrow> transcript_item list" where
  "enrich_composer_message_items s rows = map (enrich_item s rows) rows"

section \<open>Facts about writing\<close>

lemma append_effect:
  assumes "append_composer_message now ws a s = Inr (s', Some m)"
  shows "composer_messages s' = composer_messages s @ [m]" "row_id m = new_id s"
    "cm_workspace_id m = ws" "live m" "cm_role m = ma_role a" "cm_content m = ma_content a"
    "turn_id m = ma_turn_id a" "cm_status m = ma_status a" "cm_instance_id m = ma_instance_id a"
    "author_user_id m = ma_author a" "target_entity m = ma_target_entity a"
    "s' = (take_id s)\<lparr>composer_messages := composer_messages s @ [m]\<rparr>"
proof -
  obtain w where w: "get_live (workspaces s) ws = Some w"
    using assms by (cases "get_live (workspaces s) ws") (simp_all add: append_composer_message_def)
  let ?m = "new_message now (new_id s) w a"
  let ?t = "(take_id s)\<lparr>composer_messages := composer_messages s @ [?m]\<rparr>"
  have "append_composer_message now ws a s = Inr (?t, Some ?m)"
  proof -
    have "opt_fk (instances s) (ma_instance_id a) \<and> opt_fk (users s) (ma_author a)"
      using w assms by (simp add: append_composer_message_def split: if_splits)
    with w show ?thesis by (simp add: append_composer_message_def Let_def)
  qed
  with assms have "(?t, Some ?m) = (s', Some m)" by (metis Inr_inject)
  then have m: "m = ?m" and s': "s' = (take_id s)\<lparr>composer_messages := composer_messages s @ [m]\<rparr>"
    by (metis option.inject prod.inject)+
  have "row_id w = ws" using get_live_SomeD [OF w] by simp
  then show "composer_messages s' = composer_messages s @ [m]" "row_id m = new_id s"
    "cm_workspace_id m = ws" "live m" "cm_role m = ma_role a" "cm_content m = ma_content a"
    "turn_id m = ma_turn_id a" "cm_status m = ma_status a" "cm_instance_id m = ma_instance_id a"
    "author_user_id m = ma_author a" "target_entity m = ma_target_entity a"
    "s' = (take_id s)\<lparr>composer_messages := composer_messages s @ [m]\<rparr>"
    by (simp_all add: s' m new_message_def live_def)
qed

lemma append_ok:
  assumes "get_live (workspaces s) ws \<noteq> None" "opt_fk (instances s) (ma_instance_id a)"
    "opt_fk (users s) (ma_author a)"
  obtains m where "append_composer_message now ws a s =
    Inr ((take_id s)\<lparr>composer_messages := composer_messages s @ [m]\<rparr>, Some m)"
  using assms by (auto simp: append_composer_message_def Let_def)

section \<open>Listing\<close>

lemma list_composer_iff:
  "m \<in> set (list_composer_messages ws q s) \<Longrightarrow>
   m \<in> set (composer_messages s) \<and> (\<forall>p. Some p \<in> set (all_clauses ws q s) \<longrightarrow> p m) \<and>
   None \<notin> set (all_clauses ws q s)"
proof -
  assume m: "m \<in> set (list_composer_messages ws q s)"
  then have n: "None \<notin> set (all_clauses ws q s)"
    by (force simp: list_composer_messages_def list_ex_iff split: if_splits)
  with m have "m \<in> set (composer_messages s)"
    and "list_all (\<lambda>c. case c of None \<Rightarrow> False | Some p \<Rightarrow> p m) (all_clauses ws q s)"
    by (auto simp: list_composer_messages_def dest!: in_set_takeD split: if_splits)
  with n show ?thesis by (fastforce simp: list_all_iff)
qed

lemma insort_key_greatest: "\<forall>y \<in> set ys. f y < f x \<Longrightarrow> insort_key f x ys = ys @ [x]"
  by (induction ys) auto

text \<open>
  A listing is a page of the workspace: live rows of that workspace in order of creation, at
  most 500 of them.\<close>
theorem list_composer_page:
  "list_all (\<lambda>m. m \<in> set (composer_messages s) \<and> cm_workspace_id m = ws \<and> live m)
     (list_composer_messages ws q s) \<and>
   sorted (map created_at (list_composer_messages ws q s)) \<and>
   length (list_composer_messages ws q s) \<le> min (lq_limit q) 500"
proof -
  have "Some (\<lambda>m. cm_workspace_id m = ws \<and> live m) \<in> set (all_clauses ws q s)"
    by (simp add: all_clauses_def)
  then have "list_all (\<lambda>m. m \<in> set (composer_messages s) \<and> cm_workspace_id m = ws \<and> live m)
     (list_composer_messages ws q s)"
    using list_composer_iff [of _ ws q s] by (fastforce simp: list_all_iff)
  moreover have "sorted (map created_at (list_composer_messages ws q s))"
    by (auto simp: list_composer_messages_def take_map [symmetric] intro!: sorted_wrt_take)
  ultimately show ?thesis by (auto simp: list_composer_messages_def)
qed

text \<open>
  The recipient filter of a person: every row listed is a reply, and belongs to a turn of this
  workspace whose live user message was written by a live user of that name.\<close>
theorem list_recipient_only_own_replies:
  assumes "parse_party (lq_recipient q) = Some (''user'', name)"
    and "m \<in> set (list_composer_messages ws q s)"
  shows "cm_role m = ''assistant'' \<and>
    (\<exists>u \<in> set (users s). \<exists>um \<in> set (composer_messages s). live u \<and> username u = name \<and> live um \<and>
       cm_workspace_id um = ws \<and> cm_role um = ''user'' \<and> author_user_id um = Some (row_id u) \<and>
       turn_id um \<noteq> None \<and> turn_id m = turn_id um)"
proof -
  let ?ids = "user_ids_named name s" and ?turns = "turns_by ws (user_ids_named name s) s"
  note l = list_composer_iff [OF assms(2)]
  have c: "recipient_clause ws (Some (''user'', name)) s \<in> set (all_clauses ws q s)"
    using assms(1) by (simp add: all_clauses_def)
  with l have "recipient_clause ws (Some (''user'', name)) s \<noteq> None" by metis
  then have rc: "recipient_clause ws (Some (''user'', name)) s = Some (\<lambda>m. cm_role m = ''assistant'' \<and>
      (case turn_id m of None \<Rightarrow> False | Some t \<Rightarrow> t \<in> set ?turns))"
    by (simp add: recipient_clause_def Let_def split: if_splits)
  with c l have p: "cm_role m = ''assistant''" "case turn_id m of None \<Rightarrow> False | Some t \<Rightarrow> t \<in> set ?turns"
    by auto
  then obtain t where t: "turn_id m = Some t" "t \<in> set ?turns" by (auto split: option.splits)
  then obtain um where um: "um \<in> set (composer_messages s)" "turn_id um = Some t" "live um"
      "cm_workspace_id um = ws" "cm_role um = ''user''" "authored_by ?ids um"
    by (auto simp: turns_by_def List.map_filter_def)
  then obtain u where "u \<in> set (users s)" "live u" "username u = name" "author_user_id um = Some (row_id u)"
    by (auto simp: authored_by_def user_ids_named_def split: option.splits)
  with p t um show ?thesis by (intro conjI bexI [of _ u] bexI [of _ um]) auto
qed

definition sample_query :: list_query where
  "sample_query = \<lparr>lq_limit = 1, lq_instance_id = None, lq_role = None, lq_target_entity = None,
     lq_author_username = None, lq_speaker = None, lq_recipient = None\<rparr>"

definition sample_message :: "ident \<Rightarrow> timestamp \<Rightarrow> string \<Rightarrow> ident option \<Rightarrow> composer_message" where
  "sample_message i t role author = \<lparr>row_id = i, created_at = t, updated_at = t, deleted_at = None,
     cm_namespace_id = ''n'', cm_workspace_id = ''w'', cm_role = role, cm_content = ''hi'',
     target_entity = Some ''fox'', cm_instance_id = None, turn_id = Some ''t'',
     cm_status = ''completed'', author_user_id = author\<rparr>"

definition sample_user :: user where
  "sample_user = \<lparr>row_id = ''u'', created_at = 0, updated_at = 0, deleted_at = None,
     username = ''ann'', nickname = None, email = ''a@b'', password_hash = [], is_super_admin = False\<rparr>"

definition sample_chat :: db where
  "sample_chat = (empty_db sample_ids)\<lparr>users := [sample_user], composer_messages :=
     [sample_message ''a'' 1 ''user'' (Some ''u''), sample_message ''b'' 2 ''assistant'' None]\<rparr>"

lemma list_recipient_only_own_replies_witness:
  "\<exists>u \<in> set (users sample_chat). username u = ''ann'' \<and> live u"
proof -
  let ?q = "sample_query\<lparr>lq_recipient := Some ''user:ann''\<rparr>"
  have "parse_party (lq_recipient ?q) = Some (''user'', ''ann'')" by code_simp
  moreover have "sample_message ''b'' 2 ''assistant'' None \<in> set (list_composer_messages ''w'' ?q sample_chat)"
    by code_simp
  ultimately show ?thesis using list_recipient_only_own_replies [of ?q "''ann''" _ "''w''" sample_chat] by blast
qed

text \<open>
  The page of a listing is cut from the oldest side: once a workspace has as many messages as the
  limit, an unfiltered listing shows none that is newer than these.\<close>
theorem list_omits_newest:
  assumes "lq_limit q \<le> length (filter (\<lambda>m. cm_workspace_id m = ws \<and> live m) (composer_messages s))"
    and "\<And>r. r \<in> set (composer_messages s) \<Longrightarrow> created_at r < created_at m"
    and "q = \<lparr>lq_limit = n, lq_instance_id = None, lq_role = None, lq_target_entity = None,
              lq_author_username = None, lq_speaker = None, lq_recipient = None\<rparr>"
  shows "list_composer_messages ws q (s\<lparr>composer_messages := composer_messages s @ [m]\<rparr>) =
         list_composer_messages ws q s"
proof -
  let ?P = "\<lambda>m. cm_workspace_id m = ws \<and> live m"
  have cl: "list_composer_messages ws q t =
      take (min n 500) (sort_key created_at (filter ?P (composer_messages t)))" for t :: "'a db_scheme"
    by (simp add: list_composer_messages_def all_clauses_def legacy_clauses_def parse_party_def
        speaker_clause_def recipient_clause_def assms(3) Let_def)
  have n: "min n 500 \<le> length (filter ?P (composer_messages s))" using assms(1,3) by simp
  have "sort_key created_at (filter ?P (composer_messages s) @ [m]) =
      sort_key created_at (filter ?P (composer_messages s)) @ [m]"
    using assms(2) by (subst sort_key_insert_last; force intro: insort_key_greatest)
  then have "take (min n 500) (sort_key created_at (filter ?P (composer_messages s @ [m]))) =
      take (min n 500) (sort_key created_at (filter ?P (composer_messages s)))"
    using n by (cases "?P m") simp_all
  then show ?thesis by (simp add: cl)
qed

lemma list_omits_newest_witness:
  "list_composer_messages ''w'' sample_query
     (sample_chat\<lparr>composer_messages := composer_messages sample_chat @ [sample_message ''c'' 3 ''user'' None]\<rparr>)
   = list_composer_messages ''w'' sample_query sample_chat"
  by (rule list_omits_newest [of _ _ _ _ 1])
    (auto simp: sample_query_def sample_chat_def sample_message_def live_def)

section \<open>Labels\<close>

lemma nonblank_nonblank: "nonblank v = Some n \<Longrightarrow> strip n \<noteq> [] \<and> strip n = n"
  by (auto simp: nonblank_def split: option.splits if_splits)

lemma user_label_nonblank: "strip u \<noteq> [] \<Longrightarrow> strip (user_display_label n u) \<noteq> []"
  by (auto simp: user_display_label_def dest: nonblank_nonblank split: option.split)

end
