(* ===== verification/Composer.thy ===== *)
theory Composer
  imports Harness Transcript "HOL-Library.AList"
begin

text \<open>
  Composer turns (\<^verbatim>\<open>app/core/composer_turns.py\<close>), the Tunnel registry of Instance Hosts
  (\<^verbatim>\<open>app/services/tunnel/tunnel_hub.py\<close>) and the stream a browser reads
  (\<^verbatim>\<open>app/api/v1/composer.py\<close>). The process state extends the store and the harness registry by
  the turn table, the Host connections and the frames sent to Hosts. Web sockets belong to the
  server framework: whether one is connected and whether a send succeeds are parameters.
\<close>

section \<open>State\<close>

record turn_state =
  ts_turn_id :: ident
  ts_instance_id :: ident
  ts_workspace_id :: ident
  ts_target_entity :: string
  ts_status :: string
  ts_text :: string
  ts_reply_text :: string
  ts_queue :: "json_obj option list"
  ts_history :: "json_obj list"
  ts_via_tunnel :: bool
  ts_user_message_id :: "ident option"
  ts_assistant_message_id :: "ident option"
  ts_from_user_id :: "ident option"

record tunnel_message =
  tm_type :: string
  tm_payload :: json_obj
  tm_turn_id :: "string option"

text \<open>A connected Host is known by the number of its socket.\<close>

record process = world +
  turns :: "(ident \<times> turn_state) list"
  connections :: "(ident \<times> nat) list"
  outbox :: "(nat \<times> tunnel_message) list"
  stream_tasks :: "ident list"

record wire =
  ws_connected :: "nat \<Rightarrow> bool"
  ws_send_ok :: "nat \<Rightarrow> bool"

definition get_turn :: "ident \<Rightarrow> 'z process_scheme \<Rightarrow> turn_state option" where
  "get_turn tid p = map_of (turns p) tid"

definition set_turn :: "ident \<Rightarrow> turn_state \<Rightarrow> 'z process_scheme \<Rightarrow> 'z process_scheme" where
  "set_turn tid st p = p\<lparr>turns := AList.update tid st (turns p)\<rparr>"

definition mod_turn :: "ident \<Rightarrow> (turn_state \<Rightarrow> turn_state) \<Rightarrow> 'z process_scheme \<Rightarrow> 'z process_scheme" where
  "mod_turn tid f p = p\<lparr>turns := AList.map_entry tid f (turns p)\<rparr>"

definition list_workspace_turns :: "ident \<Rightarrow> 'z process_scheme \<Rightarrow> turn_state list" where
  "list_workspace_turns ws p = filter (\<lambda>t. ts_workspace_id t = ws) (map snd (turns p))"

definition instance_has_active_turn :: "ident \<Rightarrow> 'z process_scheme \<Rightarrow> bool" where
  "instance_has_active_turn iid p =
     list_ex (\<lambda>t. ts_instance_id t = iid \<and> ts_status t = ''responding'') (map snd (turns p))"

section \<open>Tunnel hub\<close>

definition is_connected :: "wire \<Rightarrow> ident \<Rightarrow> 'z process_scheme \<Rightarrow> bool" where
  "is_connected net iid p =
     (case map_of (connections p) iid of None \<Rightarrow> False | Some sock \<Rightarrow> ws_connected net sock)"

definition connected_instance_ids :: "wire \<Rightarrow> 'z process_scheme \<Rightarrow> ident list" where
  "connected_instance_ids net p = filter (\<lambda>iid. is_connected net iid p) (map fst (connections p))"

text \<open>The second component is the socket closed as superseded.\<close>

definition hub_register :: "ident \<Rightarrow> nat \<Rightarrow> 'z process_scheme \<Rightarrow> 'z process_scheme \<times> nat option" where
  "hub_register iid sock p =
     (p\<lparr>connections := AList.update iid sock (connections p)\<rparr>,
      case map_of (connections p) iid of
        None \<Rightarrow> None
      | Some old \<Rightarrow> if old \<noteq> sock then Some old else None)"

definition hub_unregister :: "ident \<Rightarrow> nat option \<Rightarrow> 'z process_scheme \<Rightarrow> 'z process_scheme" where
  "hub_unregister iid sock p =
     (case map_of (connections p) iid of
        None \<Rightarrow> p
      | Some current \<Rightarrow>
          if (case sock of None \<Rightarrow> False | Some w \<Rightarrow> current \<noteq> w) then p
          else p\<lparr>connections := AList.delete iid (connections p)\<rparr>)"

definition hub_send :: "wire \<Rightarrow> ident \<Rightarrow> tunnel_message \<Rightarrow> 'z process_scheme \<Rightarrow> 'z process_scheme \<times> bool" where
  "hub_send net iid msg p =
     (case map_of (connections p) iid of
        None \<Rightarrow> (p, False)
      | Some sock \<Rightarrow>
          if \<not> ws_connected net sock then (p, False)
          else if ws_send_ok net sock then (p\<lparr>outbox := outbox p @ [(sock, msg)]\<rparr>, True)
          else (hub_unregister iid (Some sock) p, False))"

definition opt_str :: "string option \<Rightarrow> json" where
  "opt_str v = (case v of None \<Rightarrow> JNull | Some s \<Rightarrow> JStr s)"

definition chat_request :: "ident \<Rightarrow> ident \<Rightarrow> string \<Rightarrow> string option \<Rightarrow> string \<Rightarrow> ident \<Rightarrow> tunnel_message" where
  "chat_request iid tid txt cmd target ws =
     \<lparr>tm_type = ''chat.request'',
      tm_payload = [(''turn_id'', JStr tid), (''text'', JStr txt), (''cmd'', opt_str cmd),
                    (''target_entity'', JStr target), (''workspace_id'', JStr ws),
                    (''instance_id'', JStr iid)],
      tm_turn_id = Some tid\<rparr>"

definition send_chat_request ::
    "wire \<Rightarrow> ident \<Rightarrow> ident \<Rightarrow> string \<Rightarrow> string option \<Rightarrow> string \<Rightarrow> ident \<Rightarrow> 'z process_scheme
     \<Rightarrow> 'z process_scheme \<times> bool" where
  "send_chat_request net iid tid txt cmd target ws p = hub_send net iid (chat_request iid tid txt cmd target ws) p"

definition send_control ::
    "wire \<Rightarrow> ident \<Rightarrow> string \<Rightarrow> json_obj \<Rightarrow> 'z process_scheme \<Rightarrow> 'z process_scheme \<times> bool" where
  "send_control net iid action extra p =
     hub_send net iid \<lparr>tm_type = ''control'',
       tm_payload = foldl (\<lambda>ob (k, v). jset k v ob) [(''action'', JStr action)] extra,
       tm_turn_id = None\<rparr> p"

section \<open>Frames of a turn\<close>

definition emit_frame :: "json_obj \<Rightarrow> turn_state \<Rightarrow> turn_state" where
  "emit_frame frame st = st\<lparr>ts_history := ts_history st @ [frame], ts_queue := ts_queue st @ [Some frame]\<rparr>"

definition close_queue :: "turn_state \<Rightarrow> turn_state" where
  "close_queue st = st\<lparr>ts_queue := ts_queue st @ [None]\<rparr>"

definition persist_chat_event ::
    "'z process_scheme handlers \<Rightarrow> timestamp \<Rightarrow> string \<Rightarrow> ident \<Rightarrow> json_obj \<Rightarrow> 'z process_scheme
     \<Rightarrow> 'z process_scheme" where
  "persist_chat_event hs now ty iid payload p =
     fst (emit hs now \<lparr>ea_type = ty, ea_actor_type = ''instance'', ea_actor_id = Some iid,
       ea_resource_type = Some ''instance'', ea_resource_id = Some iid, ea_payload = payload,
       ea_request_id = None\<rparr> p)"

text \<open>\<open>_finalize_assistant_message\<close>; a failing update is logged and swallowed.\<close>

definition final_body :: "string option \<Rightarrow> string \<Rightarrow> string" where
  "final_body content reply =
     (let body = (case content of Some c \<Rightarrow> c | None \<Rightarrow> reply)
      in if strip body = [] \<and> strip reply \<noteq> [] then reply else body)"

definition finalize_assistant_message ::
    "timestamp \<Rightarrow> ident \<Rightarrow> string \<Rightarrow> string option \<Rightarrow> string \<Rightarrow> 'z db_scheme \<Rightarrow> 'z db_scheme" where
  "finalize_assistant_message now tid reply content status p =
     (case update_composer_message_by_turn now tid ''assistant'' (Some (final_body content reply))
             (Some status) p of
        Inl e \<Rightarrow> p
      | Inr (p', _) \<Rightarrow> p')"

text \<open>
  A state change of the turn, its frame, the audit event of the frame; and the same followed by
  the update of the transcript.
\<close>

definition send_frame ::
    "'z process_scheme handlers \<Rightarrow> timestamp \<Rightarrow> ident \<Rightarrow> string \<Rightarrow> json_obj \<Rightarrow> turn_state
     \<Rightarrow> 'z process_scheme \<Rightarrow> 'z process_scheme" where
  "send_frame hs now tid ty frame st p =
     persist_chat_event hs now ty (ts_instance_id st) frame (set_turn tid (emit_frame frame st) p)"

definition finish_turn ::
    "'z process_scheme handlers \<Rightarrow> timestamp \<Rightarrow> ident \<Rightarrow> string \<Rightarrow> json_obj \<Rightarrow> string option \<Rightarrow> string
     \<Rightarrow> turn_state \<Rightarrow> 'z process_scheme \<Rightarrow> 'z process_scheme" where
  "finish_turn hs now tid ty frame content status st p =
     mod_turn tid close_queue
       (finalize_assistant_message now tid (ts_reply_text st) content status
         (send_frame hs now tid ty frame st p))"

definition jset_default :: "string \<Rightarrow> json \<Rightarrow> json_obj \<Rightarrow> json_obj" where
  "jset_default k v ob = (case jget ob k of None \<Rightarrow> jset k v ob | Some _ \<Rightarrow> ob)"

section \<open>Inbound frames\<close>

text \<open>\<open>{**frame, "turn_id": ..., "instance_id": ..., "target_entity": ...}\<close>.\<close>

definition stamp_frame :: "ident \<Rightarrow> turn_state \<Rightarrow> json_obj \<Rightarrow> json_obj" where
  "stamp_frame tid st frame =
     jset ''target_entity'' (let t = jget_null frame ''target_entity''
                             in if json_true t then t else JStr (ts_target_entity st))
       (jset ''instance_id'' (JStr (ts_instance_id st)) (jset ''turn_id'' (JStr tid) frame))"

definition frame_token :: "json_obj \<Rightarrow> string" where
  "frame_token frame = (case jget frame ''token'' of Some (JStr t) \<Rightarrow> t | _ \<Rightarrow> [])"

definition done_text :: "json_obj \<Rightarrow> string \<Rightarrow> string" where
  "done_text frame reply =
     (case jget frame ''text'' of Some (JStr t) \<Rightarrow> (if strip t = [] then reply else t) | _ \<Rightarrow> reply)"

definition ingest_tunnel_chat_frame ::
    "'z process_scheme handlers \<Rightarrow> timestamp \<Rightarrow> ident \<Rightarrow> json_obj \<Rightarrow> 'z process_scheme \<Rightarrow> 'z process_scheme"
where
  "ingest_tunnel_chat_frame hs now tid frame0 p =
     (case get_turn tid p of
        None \<Rightarrow> p
      | Some st \<Rightarrow>
          let frame = stamp_frame tid st frame0;
              ty = jget_null frame0 ''type''
          in if ty = JStr CHAT_RESPONSE_CHUNK then
               send_frame hs now tid CHAT_RESPONSE_CHUNK
                 (jset_default ''status'' (JStr ''responding'') frame)
                 (st\<lparr>ts_reply_text := ts_reply_text st @ frame_token frame\<rparr>) p
             else if ty = JStr CHAT_RESPONSE_DONE then
               let f1 = jset_default ''status'' (JStr ''completed'') frame;
                   reply = done_text f1 (ts_reply_text st);
                   f2 = (if json_true (jget_null f1 ''text'') then f1 else jset ''text'' (JStr reply) f1)
               in finish_turn hs now tid CHAT_RESPONSE_DONE f2 None ''completed''
                    (st\<lparr>ts_status := ''completed'', ts_reply_text := reply\<rparr>) p
             else if ty = JStr CHAT_RESPONSE_ERROR then
               let f1 = jset_default ''status'' (JStr ''failed'') frame;
                   msg = jget_null f1 ''message'';
                   content = (if json_true msg then py_str msg else ts_reply_text st)
               in finish_turn hs now tid CHAT_RESPONSE_ERROR f1 (Some content) ''failed''
                    (st\<lparr>ts_status := ''failed''\<rparr>) p
             else if ty = JStr CHAT_RESPONSE_ACTIVITY then
               send_frame hs now tid CHAT_RESPONSE_ACTIVITY frame st p
             else p)"

text \<open>
  \<open>ingest_host_frame\<close>: the frame handed on has the fields of its type, without the null ones.
  A turn id that is a JSON number or container names no turn, which the lookup finds out.
\<close>

definition host_frame :: "ident \<Rightarrow> tunnel_message \<Rightarrow> json \<Rightarrow> string list \<Rightarrow> json_obj" where
  "host_frame iid msg tid keys = filter (\<lambda>(k, v). v \<noteq> JNull)
     ([(''type'', JStr (tm_type msg)), (''turn_id'', tid), (''instance_id'', JStr iid)]
      @ map (\<lambda>k. (k, jget_null (tm_payload msg) k)) keys)"

definition host_keys :: "string \<Rightarrow> string list option" where
  "host_keys ty =
     (if ty \<in> {CHAT_RESPONSE_CHUNK, CHAT_RESPONSE_DONE, CHAT_RESPONSE_ERROR}
      then Some [''token'', ''message'', ''target_entity'', ''status'']
      else if ty = CHAT_RESPONSE_ACTIVITY
      then Some [''kind'', ''status'', ''tool_name'', ''delta'', ''target_entity'']
      else None)"

definition ingest_host_frame ::
    "'z process_scheme handlers \<Rightarrow> timestamp \<Rightarrow> ident \<Rightarrow> tunnel_message \<Rightarrow> 'z process_scheme \<Rightarrow> 'z process_scheme"
where
  "ingest_host_frame hs now iid msg p =
     (let tid = (if truthy (tm_turn_id msg) then opt_str (tm_turn_id msg)
                 else jget_null (tm_payload msg) ''turn_id'')
      in case host_keys (tm_type msg) of
           None \<Rightarrow> p
         | Some ks \<Rightarrow>
             if \<not> json_true tid then p
             else ingest_tunnel_chat_frame hs now (py_str tid) (host_frame iid msg tid ks) p)"

section \<open>Scheduling a turn\<close>

definition turn_message :: "string \<Rightarrow> string \<Rightarrow> string \<Rightarrow> ident \<Rightarrow> ident \<Rightarrow> string \<Rightarrow> ident option \<Rightarrow> message_args" where
  "turn_message role txt target iid tid status author =
     \<lparr>ma_role = role, ma_content = txt, ma_target_entity = Some target, ma_instance_id = Some iid,
      ma_turn_id = Some tid, ma_status = status, ma_author = author\<rparr>"

definition user_turn_event ::
    "ident \<Rightarrow> ident \<Rightarrow> ident \<Rightarrow> string \<Rightarrow> string option \<Rightarrow> string \<Rightarrow> ident \<Rightarrow> event_args" where
  "user_turn_event from_id iid tid txt cmd target ws =
     \<lparr>ea_type = HARNESS_CONTROL_SENT, ea_actor_type = ''membership'', ea_actor_id = Some from_id,
      ea_resource_type = Some ''instance'', ea_resource_id = Some iid,
      ea_payload = [(''action'', JStr ''user_turn''), (''instance_id'', JStr iid),
        (''turn_id'', JStr tid), (''text'', JStr txt), (''cmd'', opt_str cmd),
        (''target_entity'', JStr target), (''workspace_id'', JStr ws)],
      ea_request_id = None\<rparr>"

definition new_turn ::
    "ident \<Rightarrow> ident \<Rightarrow> ident \<Rightarrow> string \<Rightarrow> string \<Rightarrow> composer_message option \<Rightarrow> composer_message option
     \<Rightarrow> ident option \<Rightarrow> turn_state" where
  "new_turn tid iid ws target txt user_row assistant_row from_user =
     \<lparr>ts_turn_id = tid, ts_instance_id = iid, ts_workspace_id = ws, ts_target_entity = target,
      ts_status = ''responding'', ts_text = txt, ts_reply_text = [], ts_queue = [], ts_history = [],
      ts_via_tunnel = False, ts_user_message_id = map_option row_id user_row,
      ts_assistant_message_id = map_option row_id assistant_row, ts_from_user_id = from_user\<rparr>"

text \<open>The turn runs over the Tunnel, or else in a backend stream task.\<close>

definition launch_turn ::
    "wire \<Rightarrow> ident \<Rightarrow> ident \<Rightarrow> string \<Rightarrow> string option \<Rightarrow> string \<Rightarrow> ident \<Rightarrow> 'z process_scheme \<Rightarrow> 'z process_scheme"
where
  "launch_turn net iid tid txt cmd target ws p =
     (if is_connected net iid p
      then (case send_chat_request net iid tid txt cmd target ws
                   (mod_turn tid (\<lambda>t. t\<lparr>ts_via_tunnel := True\<rparr>) p) of
              (p1, True) \<Rightarrow> p1
            | (p1, False) \<Rightarrow> (mod_turn tid (\<lambda>t. t\<lparr>ts_via_tunnel := False\<rparr>) p1)
                  \<lparr>stream_tasks := stream_tasks p1 @ [tid]\<rparr>)
      else p\<lparr>stream_tasks := stream_tasks p @ [tid]\<rparr>)"

definition schedule_user_turn ::
    "'z process_scheme handlers \<Rightarrow> wire \<Rightarrow> timestamp \<Rightarrow> ident \<Rightarrow> ident \<Rightarrow> string \<Rightarrow> string \<Rightarrow> string option
     \<Rightarrow> ident \<Rightarrow> 'z process_scheme \<Rightarrow> ('z process_scheme \<times> ident) result" where
  "schedule_user_turn hs net now ws iid target txt cmd from_id p =
     (let tid = new_id p;
          p0 = take_id p;
          from_user = (case first_where (\<lambda>m. row_id m = from_id) (memberships p) of
                         None \<Rightarrow> None | Some m \<Rightarrow> mem_user_id m)
      in case append_composer_message now ws
                (turn_message ''user'' txt target iid tid ''completed'' from_user) p0 of
           Inl e \<Rightarrow> Inl e
         | Inr (p1, user_row) \<Rightarrow>
            (case append_composer_message now ws
                    (turn_message ''assistant'' [] target iid tid ''responding'' None) p1 of
               Inl e \<Rightarrow> Inl e
             | Inr (p2, assistant_row) \<Rightarrow>
                let p3 = set_turn tid (new_turn tid iid ws target txt user_row assistant_row from_user) p2;
                    p4 = fst (emit hs now (user_turn_event from_id iid tid txt cmd target ws) p3)
                in Inr (launch_turn net iid tid txt cmd target ws p4, tid)))"

section \<open>Backend streams\<close>

record token_chunk =
  token :: string
  finish_reason :: "string option"

text \<open>The chunks of the deterministic stub, used without an API key.\<close>

definition stub_chunks :: "string \<Rightarrow> token_chunk list" where
  "stub_chunks content =
     (let parts = split_on CHR '' '' (''[stub] '' @ content)
      in map (\<lambda>(i, part). \<lparr>token = (if i = 0 then part else CHR '' '' # part), finish_reason = None\<rparr>)
           (enumerate 0 parts)
         @ [\<lparr>token = [], finish_reason = Some ''stop''\<rparr>])"

definition stream_frame :: "string \<Rightarrow> ident \<Rightarrow> turn_state \<Rightarrow> json_obj \<Rightarrow> json_obj" where
  "stream_frame ty tid st rest =
     [(''type'', JStr ty), (''turn_id'', JStr tid), (''instance_id'', JStr (ts_instance_id st)),
      (''target_entity'', JStr (ts_target_entity st))] @ rest"

definition stream_done :: 
    "'z process_scheme handlers \<Rightarrow> timestamp \<Rightarrow> ident \<Rightarrow> string \<Rightarrow> turn_state \<Rightarrow> 'z process_scheme
     \<Rightarrow> 'z process_scheme" where
  "stream_done hs now tid reason st p =
     finish_turn hs now tid CHAT_RESPONSE_DONE
       (stream_frame CHAT_RESPONSE_DONE tid st
          [(''finish_reason'', JStr reason), (''status'', JStr ''completed''),
           (''text'', JStr (ts_reply_text st))])
       None ''completed'' (st\<lparr>ts_status := ''completed''\<rparr>) p"

definition stream_failed ::
    "'z process_scheme handlers \<Rightarrow> timestamp \<Rightarrow> ident \<Rightarrow> string \<Rightarrow> turn_state \<Rightarrow> 'z process_scheme
     \<Rightarrow> 'z process_scheme" where
  "stream_failed hs now tid msg st p =
     finish_turn hs now tid CHAT_RESPONSE_ERROR
       (stream_frame CHAT_RESPONSE_ERROR tid st [(''message'', JStr msg), (''status'', JStr ''failed'')])
       (Some msg) ''failed'' (st\<lparr>ts_status := ''failed''\<rparr>) p"

text \<open>One chunk: its token, if it has one, is appended to the reply and sent as a frame.\<close>

definition stream_token ::
    "'z process_scheme handlers \<Rightarrow> timestamp \<Rightarrow> ident \<Rightarrow> string \<Rightarrow> turn_state \<Rightarrow> 'z process_scheme
     \<Rightarrow> turn_state \<times> 'z process_scheme" where
  "stream_token hs now tid tok st p =
     (if tok = [] then (st, p)
      else let st1 = st\<lparr>ts_reply_text := ts_reply_text st @ tok\<rparr>;
               frame = stream_frame CHAT_RESPONSE_CHUNK tid st
                         [(''token'', JStr tok), (''status'', JStr ''responding'')]
           in (emit_frame frame st1, send_frame hs now tid CHAT_RESPONSE_CHUNK frame st1 p))"

text \<open>
  The body of \<open>_run_stream_turn\<close> on a stream of chunks that then ends, or raises the error given.
  The turn's own state object is \<open>st\<close>: no Host frame for the turn comes between two chunks.
\<close>

fun stream_loop ::
    "'z process_scheme handlers \<Rightarrow> timestamp \<Rightarrow> ident \<Rightarrow> token_chunk list \<Rightarrow> string option \<Rightarrow> turn_state
     \<Rightarrow> 'z process_scheme \<Rightarrow> 'z process_scheme" where
  "stream_loop hs now tid [] err st p =
     (case err of None \<Rightarrow> stream_done hs now tid ''stop'' st p
      | Some msg \<Rightarrow> stream_failed hs now tid msg st p)"
| "stream_loop hs now tid (c # cs) err st p =
     (case stream_token hs now tid (token c) st p of (st1, p1) \<Rightarrow>
        if truthy (finish_reason c) then stream_done hs now tid (the (finish_reason c)) st1 p1
        else stream_loop hs now tid cs err st1 p1)"

definition run_stream_turn ::
    "'z process_scheme handlers \<Rightarrow> timestamp \<Rightarrow> token_chunk list \<Rightarrow> string option \<Rightarrow> ident
     \<Rightarrow> 'z process_scheme \<Rightarrow> 'z process_scheme" where
  "run_stream_turn hs now chunks err tid p =
     (case get_turn tid p of
        None \<Rightarrow> p
      | Some st \<Rightarrow> stream_loop hs now tid chunks err st
                      (p\<lparr>stream_tasks := remove1 tid (stream_tasks p)\<rparr>))"

definition stream_prompt :: "turn_state \<Rightarrow> string" where
  "stream_prompt st = (if strip (ts_text st) = [] then ''(empty)'' else strip (ts_text st))"

section \<open>The stream a browser reads\<close>

datatype sse_event = Frame json_obj | Turn_status string

definition terminal_frame :: "json_obj \<Rightarrow> bool" where
  "terminal_frame f = (jget f ''type'' = Some (JStr CHAT_RESPONSE_DONE)
                       \<or> jget f ''type'' = Some (JStr CHAT_RESPONSE_ERROR))"

text \<open>Reading a queue until a terminal frame or its end mark; pings are left out.\<close>

fun drain_queue :: "json_obj option list \<Rightarrow> sse_event list" where
  "drain_queue [] = []"
| "drain_queue (None # q) = []"
| "drain_queue (Some f # q) = Frame f # (if terminal_frame f then [] else drain_queue q)"

text \<open>\<open>event_gen\<close> for a subscriber, given what is put into the queue while it reads.\<close>

definition composer_stream :: "turn_state \<Rightarrow> json_obj option list \<Rightarrow> sse_event list" where
  "composer_stream st later =
     map Frame (ts_history st) @
     (if list_ex terminal_frame (ts_history st) then []
      else Turn_status (ts_status st) # drain_queue (ts_queue st @ later))"

definition open_composer_stream ::
    "ident \<Rightarrow> ident \<Rightarrow> json_obj option list \<Rightarrow> 'z process_scheme \<Rightarrow> sse_event list result" where
  "open_composer_stream ws tid later p =
     (case get_turn tid p of
        None \<Rightarrow> Inl (NotFoundError ''composer.turn_not_found'' ''errors.composer.turn_not_found'')
      | Some st \<Rightarrow>
          if ts_workspace_id st \<noteq> ws
          then Inl (NotFoundError ''composer.turn_not_found'' ''errors.composer.turn_not_found'')
          else Inr (composer_stream st later))"

section \<open>Hosts and frames\<close>

lemma jget_null_jset [simp]: "jget_null (jset k v ob) k' = (if k = k' then v else jget_null ob k')"
  by (simp add: jget_null_def)

lemma jset_jset_same: "jset k v (jset k w ob) = jset k v ob"
  by (induction k w ob rule: jset.induct) auto

lemma stamp_ignores_instance:
  "stamp_frame tid st ((''type'', ty) # (''turn_id'', t) # (''instance_id'', a) # ob) =
   stamp_frame tid st ((''type'', ty) # (''turn_id'', t) # (''instance_id'', b) # ob)"
  by (simp add: stamp_frame_def jget_null_def Let_def)

lemma host_frame_unfold:
  "t \<noteq> JNull \<Longrightarrow> host_frame iid msg t keys =
   (''type'', JStr (tm_type msg)) # (''turn_id'', t) # (''instance_id'', JStr iid) #
   filter (\<lambda>(k, v). v \<noteq> JNull) (map (\<lambda>k. (k, jget_null (tm_payload msg) k)) keys)"
  by (simp add: host_frame_def)

lemma ingest_ignores_instance:
  "ingest_tunnel_chat_frame hs now tid ((''type'', ty) # (''turn_id'', t) # (''instance_id'', a) # ob) p =
   ingest_tunnel_chat_frame hs now tid ((''type'', ty) # (''turn_id'', t) # (''instance_id'', b) # ob) p"
proof -
  have ty: "jget_null ((''type'', ty) # (''turn_id'', t) # (''instance_id'', a) # ob) ''type'' =
            jget_null ((''type'', ty) # (''turn_id'', t) # (''instance_id'', b) # ob) ''type''"
    by (simp add: jget_null_def)
  show ?thesis
    unfolding ingest_tunnel_chat_frame_def stamp_ignores_instance [of _ _ _ _ a _ b] ty by (rule refl)
qed

text \<open>
  The connection a frame arrives on plays no part: whichever Instance's Host sends it, the turn
  it names is advanced or finished in the same way.\<close>
theorem host_frame_any_instance:
  "ingest_host_frame hs now iid msg p = ingest_host_frame hs now other msg p"
proof -
  have "ingest_tunnel_chat_frame hs now tid (host_frame iid msg t ks) p =
        ingest_tunnel_chat_frame hs now tid (host_frame other msg t ks) p" if "t \<noteq> JNull" for t tid ks
    unfolding host_frame_unfold [OF that] by (rule ingest_ignores_instance)
  moreover have "json_true t \<Longrightarrow> t \<noteq> JNull" for t by (cases t) auto
  ultimately show ?thesis by (auto simp: ingest_host_frame_def Let_def split: option.split)
qed

text \<open>
  The text of a Host's done frame never reaches the turn: the frame handed on does not have it,
  so the reply is what the chunks gave.\<close>
theorem host_done_text_ignored:
  "ingest_host_frame hs now iid (msg\<lparr>tm_payload := jset ''text'' txt (tm_payload msg)\<rparr>) p =
   ingest_host_frame hs now iid msg p"
proof -
  let ?msg = "msg\<lparr>tm_payload := jset ''text'' txt (tm_payload msg)\<rparr>"
  have f: "host_frame iid ?msg t ks = host_frame iid msg t ks" if "''text'' \<notin> set ks" for t ks
  proof -
    have "map (\<lambda>k. (k, jget_null (tm_payload ?msg) k)) ks = map (\<lambda>k. (k, jget_null (tm_payload msg) k)) ks"
      by (rule map_cong) (use that in auto)
    then show ?thesis by (simp only: host_frame_def) simp
  qed
  have k: "''text'' \<notin> set ks" if "host_keys ty = Some ks" for ty ks
    using that by (auto simp: host_keys_def split: if_splits)
  show ?thesis
  proof (cases "host_keys (tm_type msg)")
    case (Some ks)
    with f [OF k [OF Some]] show ?thesis by (simp add: ingest_host_frame_def Let_def)
  qed (simp add: ingest_host_frame_def)
qed

section \<open>Handlers that leave turns and transcript alone\<close>

definition turn_frame :: "'z process_scheme \<Rightarrow> 'z process_scheme \<Rightarrow> bool" where
  "turn_frame p q \<longleftrightarrow> turns q = turns p \<and> composer_messages q = composer_messages p \<and>
     id_source q = id_source p \<and> id_next p \<le> id_next q"

lemma turn_frame_order: "reflp turn_frame" "transp turn_frame"
  by (auto simp: turn_frame_def reflp_def transp_def)

definition quiet_handlers :: "'z process_scheme handlers \<Rightarrow> bool" where
  "quiet_handlers hs = handlers_respect turn_frame (\<lambda>_. True) hs"

lemma quiet_Nil [simp]: "quiet_handlers []"
  by (simp add: quiet_handlers_def)

lemma emit_turn_frame: "quiet_handlers hs \<Longrightarrow> turn_frame p (fst (emit hs now a p))"
  unfolding quiet_handlers_def
  by (rule emit_respects [OF turn_frame_order, of "\<lambda>_. True"]) (auto simp: turn_frame_def take_id_def)

lemma emit_quiet [simp]:
  assumes "quiet_handlers hs"
  shows "turns (fst (emit hs now a p)) = turns p"
    "composer_messages (fst (emit hs now a p)) = composer_messages p"
    "id_source (fst (emit hs now a p)) = id_source p"
    "id_next p \<le> id_next (fst (emit hs now a p))"
  using emit_turn_frame [OF assms, of p now a] by (simp_all add: turn_frame_def)

lemma set_turn_simps [simp]:
  "turns (set_turn tid st p) = AList.update tid st (turns p)"
  "composer_messages (set_turn tid st p) = composer_messages p"
  "id_source (set_turn tid st p) = id_source p" "id_next (set_turn tid st p) = id_next p"
  by (simp_all add: set_turn_def)

lemma mod_turn_simps [simp]:
  "turns (mod_turn tid f p) = AList.map_entry tid f (turns p)"
  "composer_messages (mod_turn tid f p) = composer_messages p"
  "id_source (mod_turn tid f p) = id_source p" "id_next (mod_turn tid f p) = id_next p"
  by (simp_all add: mod_turn_def)

lemma get_turn_set [simp]: "get_turn k (set_turn tid st p) = (if k = tid then Some st else get_turn k p)"
  by (simp add: get_turn_def update_conv')

lemma get_turn_mod [simp]:
  "get_turn k (mod_turn tid f p) = (if k = tid then map_option f (get_turn k p) else get_turn k p)"
  by (auto simp: get_turn_def map_of_map_entry split: option.split)

definition finalize_messages ::
    "timestamp \<Rightarrow> ident \<Rightarrow> string \<Rightarrow> string \<Rightarrow> composer_message list \<Rightarrow> composer_message list" where
  "finalize_messages now tid body status msgs =
     (case filter (of_turn tid ''assistant'') msgs of
        [m] \<Rightarrow> update_where (of_turn tid ''assistant'')
                 (\<lambda>_. modified now m (m\<lparr>cm_content := body, cm_status := status\<rparr>)) msgs
      | _ \<Rightarrow> msgs)"

lemma finalize_effect:
  "composer_messages (finalize_assistant_message now tid reply content status p) =
     finalize_messages now tid (final_body content reply) status (composer_messages p)"
  "id_source (finalize_assistant_message now tid reply content status p) = id_source p"
  "id_next (finalize_assistant_message now tid reply content status p) = id_next p"
  by (simp_all add: finalize_assistant_message_def update_composer_message_by_turn_def
      finalize_messages_def Let_def split: list.split)

lemma finalize_turns [simp]:
  "turns (finalize_assistant_message now tid reply content status p) = turns p"
  by (simp add: finalize_assistant_message_def update_composer_message_by_turn_def Let_def split: list.split)

lemma send_frame_effect:
  assumes "quiet_handlers hs"
  shows "turns (send_frame hs now tid ty frame st p) = AList.update tid (emit_frame frame st) (turns p)"
    "composer_messages (send_frame hs now tid ty frame st p) = composer_messages p"
    "id_source (send_frame hs now tid ty frame st p) = id_source p"
    "id_next p \<le> id_next (send_frame hs now tid ty frame st p)"
  using emit_quiet [OF assms] 
  by (simp_all add: send_frame_def persist_chat_event_def order_trans [OF _ emit_quiet(4) [OF assms]])

lemma finish_turn_effect:
  assumes "quiet_handlers hs"
  shows "turns (finish_turn hs now tid ty frame content status st p) =
      AList.map_entry tid close_queue (AList.update tid (emit_frame frame st) (turns p))"
    "composer_messages (finish_turn hs now tid ty frame content status st p) =
      finalize_messages now tid (final_body content (ts_reply_text st)) status (composer_messages p)"
    "id_source (finish_turn hs now tid ty frame content status st p) = id_source p"
    "id_next p \<le> id_next (finish_turn hs now tid ty frame content status st p)"
  using send_frame_effect [OF assms] by (simp_all add: finish_turn_def finalize_effect)

section \<open>The transcript follows the turns\<close>

text \<open>
  What the assistant rows of a turn say: none without an assistant message, else exactly that one,
  in the status of the turn.
\<close>

definition row_matches :: "composer_message list \<Rightarrow> ident \<Rightarrow> turn_state \<Rightarrow> bool" where
  "row_matches msgs tid st =
     (case filter (of_turn tid ''assistant'') msgs of
        [] \<Rightarrow> ts_assistant_message_id st = None
      | [m] \<Rightarrow> ts_assistant_message_id st = Some (row_id m) \<and> cm_status m = ts_status st
      | _ \<Rightarrow> False)"

lemma of_turn_update [simp]:
  "of_turn t r (modified now m (m\<lparr>cm_content := c, cm_status := st\<rparr>)) = of_turn t r m"
  by (subst modified_field; simp add: of_turn_def touch_def live_def)

lemma single_filterD: "filter P xs = [m] \<Longrightarrow> m \<in> set xs \<and> P m"
  by (metis (mono_tags, lifting) list.set_intros(1) mem_Collect_eq set_filter)

lemma modified_message [simp]:
  "cm_status (modified now m (m\<lparr>cm_content := c, cm_status := st\<rparr>)) = st"
  "cm_content (modified now m (m\<lparr>cm_content := c, cm_status := st\<rparr>)) = c"
  "row_id (modified now m (m\<lparr>cm_content := c, cm_status := st\<rparr>)) = row_id m"
  "turn_id (modified now m (m\<lparr>cm_content := c, cm_status := st\<rparr>)) = turn_id m"
  by (subst modified_field; simp add: touch_def)+

lemma finalize_cases:
  obtains (one) m where "filter (of_turn tid ''assistant'') msgs = [m]"
      "finalize_messages now tid body status msgs = update_where (of_turn tid ''assistant'')
         (\<lambda>_. modified now m (m\<lparr>cm_content := body, cm_status := status\<rparr>)) msgs"
  | (other) "finalize_messages now tid body status msgs = msgs"
proof (cases "filter (of_turn tid ''assistant'') msgs")
  case Nil
  then show ?thesis by (intro other) (simp add: finalize_messages_def)
next
  case (Cons m ms)
  show ?thesis
  proof (cases ms)
    case Nil
    with Cons show ?thesis by (intro one [of m]) (simp_all add: finalize_messages_def)
  next
    case (Cons m' ms')
    with \<open>filter _ msgs = m # ms\<close> show ?thesis by (intro other) (simp add: finalize_messages_def)
  qed
qed

lemma of_turn_distinct: "of_turn tid r m \<Longrightarrow> t \<noteq> tid \<Longrightarrow> \<not> of_turn t r m"
  by (simp add: of_turn_def)

lemma finalize_filter_other:
  assumes "t \<noteq> tid"
  shows "filter (of_turn t ''assistant'') (finalize_messages now tid body status msgs) =
         filter (of_turn t ''assistant'') msgs"
proof (cases rule: finalize_cases [of tid msgs now body status])
  case (one m)
  have "of_turn tid ''assistant'' m" using single_filterD [OF one(1)] by simp
  then show ?thesis
    unfolding one(2) by (intro filter_update_where_other) (use assms of_turn_distinct in auto)
qed simp

lemma finalize_filter_same:
  assumes "filter (of_turn tid ''assistant'') msgs = [m]"
  shows "filter (of_turn tid ''assistant'') (finalize_messages now tid body status msgs) =
    [modified now m (m\<lparr>cm_content := body, cm_status := status\<rparr>)]"
proof -
  have "of_turn tid ''assistant'' m" using single_filterD [OF assms] by simp
  then have "filter (of_turn tid ''assistant'') (update_where (of_turn tid ''assistant'')
      (\<lambda>_. modified now m (m\<lparr>cm_content := body, cm_status := status\<rparr>)) msgs) =
    update_where (of_turn tid ''assistant'')
      (\<lambda>_. modified now m (m\<lparr>cm_content := body, cm_status := status\<rparr>)) (filter (of_turn tid ''assistant'') msgs)"
    by (intro filter_update_where_same) simp
  with assms \<open>of_turn tid ''assistant'' m\<close> show ?thesis by (simp add: finalize_messages_def)
qed

lemma finalize_filter_none:
  "filter (of_turn tid ''assistant'') msgs = [] \<Longrightarrow> finalize_messages now tid body status msgs = msgs"
  by (simp add: finalize_messages_def)

lemma finalize_turn_ids:
  "turn_id ` set (finalize_messages now tid body status msgs) \<subseteq> turn_id ` set msgs"
proof (cases rule: finalize_cases [of tid msgs now body status])
  case (one m)
  have "m \<in> set msgs" using single_filterD [OF one(1)] by simp
  then show ?thesis unfolding one(2) by (auto elim!: update_whereE)
qed simp

definition composer_ok :: "'z process_scheme \<Rightarrow> bool" where
  "composer_ok p \<longleftrightarrow> inj (id_source p) \<and>
     (\<forall>m \<in> set (composer_messages p). \<forall>t. turn_id m = Some t \<longrightarrow> t \<in> used_ids p) \<and>
     fst ` set (turns p) \<subseteq> used_ids p \<and>
     (\<forall>tid st. get_turn tid p = Some st \<longrightarrow> row_matches (composer_messages p) tid st)"

lemma row_matches_cong:
  "ts_assistant_message_id st' = ts_assistant_message_id st \<Longrightarrow> ts_status st' = ts_status st \<Longrightarrow>
   row_matches msgs tid st \<Longrightarrow> row_matches msgs tid st'"
  by (auto simp: row_matches_def split: list.splits)

lemma row_matches_finalize:
  assumes "row_matches msgs tid st" and "ts_assistant_message_id st' = ts_assistant_message_id st"
    and "ts_status st' = status"
  shows "row_matches (finalize_messages now tid body status msgs) tid st'"
proof -
  consider "filter (of_turn tid ''assistant'') msgs = []"
    | m where "filter (of_turn tid ''assistant'') msgs = [m]"
    using assms(1) by (auto simp: row_matches_def split: list.splits)
  then show ?thesis
  proof cases
    case 1
    with assms show ?thesis by (simp add: row_matches_def finalize_filter_none)
  next
    case 2
    with assms show ?thesis
      by (simp add: row_matches_def finalize_filter_same)
  qed
qed

lemma used_ids_subset:
  "id_source q = id_source p \<Longrightarrow> id_next p \<le> id_next q \<Longrightarrow> A \<subseteq> used_ids p \<Longrightarrow> A \<subseteq> used_ids q"
  using used_ids_mono by blast

lemma composer_ok_send:
  assumes "quiet_handlers hs" "composer_ok p" "get_turn tid p = Some st"
    and "ts_assistant_message_id st' = ts_assistant_message_id st" "ts_status st' = ts_status st"
  shows "composer_ok (send_frame hs now tid ty frame st' p)"
proof -
  note e = send_frame_effect [OF assms(1), where now = now and tid = tid and ty = ty and frame = frame and st = st' and p = p]
  let ?q = "send_frame hs now tid ty frame st' p"
  have g: "get_turn t ?q = (if t = tid then Some (emit_frame frame st') else get_turn t p)" for t
    by (simp add: get_turn_def e update_conv')
  have "tid \<in> fst ` set (turns p)" using assms(3) by (force simp: get_turn_def dest: map_of_SomeD)
  then have d: "fst ` set (turns ?q) = fst ` set (turns p)" by (auto simp: e dom_update)
  have "row_matches (composer_messages p) tid (emit_frame frame st')"
    by (rule row_matches_cong [of _ st]) (use assms in \<open>auto simp: emit_frame_def composer_ok_def\<close>)
  with assms(2) show ?thesis
    unfolding composer_ok_def d g using used_ids_mono [OF e(3,4)] e
    by (auto split: if_splits)
qed

lemma composer_ok_finish:
  assumes "quiet_handlers hs" "composer_ok p" "get_turn tid p = Some st"
    and "ts_assistant_message_id st' = ts_assistant_message_id st" "ts_status st' = status"
  shows "composer_ok (finish_turn hs now tid ty frame content status st' p)"
proof -
  note e = finish_turn_effect [OF assms(1), where now = now and tid = tid and ty = ty and frame = frame
    and content = content and status = status and st = st' and p = p]
  let ?q = "finish_turn hs now tid ty frame content status st' p"
  let ?msgs = "finalize_messages now tid (final_body content (ts_reply_text st')) status (composer_messages p)"
  have g: "get_turn t ?q = (if t = tid then Some (close_queue (emit_frame frame st')) else get_turn t p)" for t
    by (simp add: get_turn_def e update_conv' map_of_map_entry)
  have "tid \<in> fst ` set (turns p)" using assms(3) by (force simp: get_turn_def dest: map_of_SomeD)
  then have d: "fst ` set (turns ?q) = fst ` set (turns p)" by (auto simp: e dom_update dom_map_entry)
  have here: "row_matches ?msgs tid (close_queue (emit_frame frame st'))"
    by (rule row_matches_finalize [of _ _ st])
      (use assms in \<open>auto simp: emit_frame_def close_queue_def composer_ok_def\<close>)
  have other: "row_matches ?msgs t u" if "t \<noteq> tid" "get_turn t p = Some u" for t u
    using that assms(2) by (simp add: row_matches_def finalize_filter_other composer_ok_def)
  have "\<exists>n \<in> set (composer_messages p). turn_id n = turn_id m" if "m \<in> set ?msgs" for m
  proof -
    have "turn_id m \<in> turn_id ` set (composer_messages p)" using finalize_turn_ids that by blast
    then show ?thesis by (metis imageE)
  qed
  with assms(2) have "\<forall>m \<in> set ?msgs. \<forall>t. turn_id m = Some t \<longrightarrow> t \<in> used_ids ?q"
    using used_ids_mono [OF e(3,4)] unfolding composer_ok_def by (metis subsetD)
  moreover have "fst ` set (turns p) \<subseteq> used_ids ?q"
    using assms(2) used_ids_mono [OF e(3,4)] by (auto simp: composer_ok_def)
  ultimately show ?thesis
    using assms(2) here other unfolding composer_ok_def d g e(2) e(3) by auto
qed

lemma composer_ok_ingest:
  assumes "quiet_handlers hs" "composer_ok p"
  shows "composer_ok (ingest_tunnel_chat_frame hs now tid frame p)"
proof (cases "get_turn tid p")
  case (Some st)
  with assms show ?thesis
    unfolding ingest_tunnel_chat_frame_def
    by (auto simp: Let_def intro!: composer_ok_send [OF assms Some] composer_ok_finish [OF assms Some])
qed (use assms in \<open>simp add: ingest_tunnel_chat_frame_def\<close>)

lemma composer_ok_host:
  "quiet_handlers hs \<Longrightarrow> composer_ok p \<Longrightarrow> composer_ok (ingest_host_frame hs now iid msg p)"
  by (auto simp: ingest_host_frame_def Let_def composer_ok_ingest split: option.split)

lemma get_turn_send:
  "quiet_handlers hs \<Longrightarrow> get_turn tid (send_frame hs now tid ty frame st p) = Some (emit_frame frame st)"
  by (simp add: get_turn_def send_frame_effect update_conv')

lemma stream_token_effect:
  assumes "quiet_handlers hs" "get_turn tid p = Some st" "stream_token hs now tid tok st p = (st1, p1)"
  shows "get_turn tid p1 = Some st1" "composer_messages p1 = composer_messages p"
    "ts_reply_text st1 = ts_reply_text st @ tok" "ts_status st1 = ts_status st"
    "ts_assistant_message_id st1 = ts_assistant_message_id st"
    "composer_ok p \<Longrightarrow> composer_ok p1"
  using assms composer_ok_send [OF assms(1) _ assms(2)]
  by (auto simp: stream_token_def Let_def get_turn_send send_frame_effect emit_frame_def split: if_splits)

lemma composer_ok_loop:
  "quiet_handlers hs \<Longrightarrow> composer_ok p \<Longrightarrow> get_turn tid p = Some st \<Longrightarrow>
   composer_ok (stream_loop hs now tid chunks err st p)"
proof (induction hs now tid chunks err st p rule: stream_loop.induct)
  case (1 hs now tid err st p)
  then show ?case
    by (auto simp: stream_done_def stream_failed_def intro!: composer_ok_finish split: option.split)
next
  case (2 hs now tid c cs err st p)
  obtain st1 p1 where t: "stream_token hs now tid (token c) st p = (st1, p1)" by fastforce
  note e = stream_token_effect [OF 2(2,4) t]
  show ?case
  proof (cases "truthy (finish_reason c)")
    case True
    with t e 2(2,3) show ?thesis by (auto simp: stream_done_def intro!: composer_ok_finish)
  next
    case False
    from 2(1) [OF t [symmetric] False 2(2) e(6) [OF 2(3)] e(1)] False t show ?thesis by simp
  qed
qed

lemma composer_ok_tasks [simp]: "composer_ok (p\<lparr>stream_tasks := ts\<rparr>) = composer_ok p"
  by (simp add: composer_ok_def used_ids_def get_turn_def)

lemma composer_ok_stream:
  assumes "quiet_handlers hs" "composer_ok p"
  shows "composer_ok (run_stream_turn hs now chunks err tid p)"
proof (cases "get_turn tid p")
  case (Some st)
  have "composer_ok (stream_loop hs now tid chunks err st (p\<lparr>stream_tasks := remove1 tid (stream_tasks p)\<rparr>))"
    by (rule composer_ok_loop) (use assms Some in \<open>simp_all add: get_turn_def\<close>)
  with Some show ?thesis by (simp add: run_stream_turn_def)
qed (use assms in \<open>simp add: run_stream_turn_def\<close>)

section \<open>Scheduling\<close>

text \<open>A state that differs only in the process part outside turns and transcript.\<close>

lemma composer_ok_turn_frame:
  assumes "composer_ok p" "turn_frame p q"
  shows "composer_ok q"
proof -
  have "used_ids p \<subseteq> used_ids q" using assms(2) by (intro used_ids_mono) (auto simp: turn_frame_def)
  moreover have "get_turn tid q = get_turn tid p" for tid
    using assms(2) by (simp add: get_turn_def turn_frame_def)
  ultimately show ?thesis using assms unfolding composer_ok_def turn_frame_def by auto
qed

lemma hub_frame: "turn_frame p (fst (hub_send net iid msg p))"
  by (auto simp: hub_send_def hub_unregister_def turn_frame_def split: option.split)

text \<open>Launching only sets the route of the turn.\<close>

lemma launch_effect:
  obtains b where
    "turns (launch_turn net iid tid txt cmd target ws p) =
       AList.map_entry tid (\<lambda>t. t\<lparr>ts_via_tunnel := b\<rparr>) (turns p) \<or>
     turns (launch_turn net iid tid txt cmd target ws p) = turns p"
    "composer_messages (launch_turn net iid tid txt cmd target ws p) = composer_messages p"
    "id_source (launch_turn net iid tid txt cmd target ws p) = id_source p"
    "id_next p \<le> id_next (launch_turn net iid tid txt cmd target ws p)"
proof -
  let ?on = "mod_turn tid (\<lambda>t. t\<lparr>ts_via_tunnel := True\<rparr>) p"
  obtain q r where h: "send_chat_request net iid tid txt cmd target ws ?on = (q, r)" by fastforce
  then have f: "turn_frame ?on q"
    using hub_frame [of ?on net iid "chat_request iid tid txt cmd target ws"] by (simp add: send_chat_request_def)
  have twice: "AList.map_entry tid (\<lambda>t. t\<lparr>ts_via_tunnel := b\<rparr>) (AList.map_entry tid (\<lambda>t. t\<lparr>ts_via_tunnel := c\<rparr>) al)
      = AList.map_entry tid (\<lambda>t. t\<lparr>ts_via_tunnel := b\<rparr>) al" for b c and al :: "(ident \<times> turn_state) list"
    by (induction al) auto
  show ?thesis
    using f h that [of r] by (cases r) (simp_all add: launch_turn_def turn_frame_def twice split: if_splits)
qed

text \<open>
  A scheduled turn: its identifier is new, its state is responding with an empty reply, and either
  both its messages are in the transcript or (without a live workspace) none is.
\<close>

lemma schedule_effect:
  assumes "quiet_handlers hs"
    and "schedule_user_turn hs net now ws iid target txt cmd from_id p = Inr (p', tid)"
  obtains rows st where "tid = new_id p" "id_source p' = id_source p" "id_next p < id_next p'"
    "composer_messages p' = composer_messages p @ rows"
    "rows = [] \<and> ts_assistant_message_id st = None \<or>
     (\<exists>u a. rows = [u, a] \<and> of_turn tid ''user'' u \<and> of_turn tid ''assistant'' a \<and>
        cm_status a = ''responding'' \<and> cm_content u = txt \<and> cm_workspace_id u = ws \<and>
        ts_assistant_message_id st = Some (row_id a))"
    "get_turn tid p' = Some st" "\<And>k. k \<noteq> tid \<Longrightarrow> get_turn k p' = get_turn k p"
    "fst ` set (turns p') = insert tid (fst ` set (turns p))"
    "ts_status st = ''responding''" "ts_history st = []" "ts_queue st = []" "ts_reply_text st = []"
    "ts_text st = txt" "ts_workspace_id st = ws" "ts_instance_id st = iid"
proof -
  let ?tid = "new_id p" and ?p0 = "take_id p"
  let ?author = "case first_where (\<lambda>m. row_id m = from_id) (memberships p) of None \<Rightarrow> None | Some m \<Rightarrow> mem_user_id m"
  let ?ua = "turn_message ''user'' txt target iid ?tid ''completed'' ?author"
  let ?aa = "turn_message ''assistant'' [] target iid ?tid ''responding'' None"
  obtain p1 u p2 a where a1: "append_composer_message now ws ?ua ?p0 = Inr (p1, u)"
    and a2: "append_composer_message now ws ?aa p1 = Inr (p2, a)"
    and p': "p' = launch_turn net iid ?tid txt cmd target ws
        (fst (emit hs now (user_turn_event from_id iid ?tid txt cmd target ws)
          (set_turn ?tid (new_turn ?tid iid ws target txt u a ?author) p2)))"
    and tid: "tid = ?tid"
    using assms(2) by (auto simp: schedule_user_turn_def Let_def split: sum.splits)
  let ?p3 = "set_turn ?tid (new_turn ?tid iid ws target txt u a ?author) p2"
  let ?p4 = "fst (emit hs now (user_turn_event from_id iid ?tid txt cmd target ws) ?p3)"
  obtain rows where rows: "composer_messages p2 = composer_messages p @ rows" "turns p2 = turns p"
    "id_source p2 = id_source p" "id_next p < id_next p2"
    "rows = [] \<and> a = None \<or> (\<exists>u' a'. rows = [u', a'] \<and> a = Some a' \<and> of_turn ?tid ''user'' u' \<and>
       of_turn ?tid ''assistant'' a' \<and> cm_status a' = ''responding'' \<and> cm_content u' = txt \<and> cm_workspace_id u' = ws)"
  proof (cases "get_live (workspaces p) ws")
    case None
    then have p1: "p1 = ?p0" using a1 by (simp add: append_composer_message_def)
    have "p2 = ?p0" "a = None" using None a2 unfolding p1 by (simp_all add: append_composer_message_def)
    then show ?thesis by (intro that [of "[]"]) (simp_all add: take_id_def)
  next
    case (Some w)
    have "workspaces ?p0 = workspaces p" by simp
    with Some a1 obtain u' where u: "u = Some u'"
      by (auto simp: append_composer_message_def Let_def split: if_splits)
    note e1 = append_effect [OF a1 [unfolded u]]
    have "workspaces p1 = workspaces p" by (simp add: e1(12))
    with Some a2 obtain a' where a: "a = Some a'"
      by (auto simp: append_composer_message_def Let_def split: if_splits)
    note e2 = append_effect [OF a2 [unfolded a]]
    show ?thesis
      by (rule that [of "[u', a']"])
        (use e1 e2 a in \<open>simp_all add: take_id_def of_turn_def turn_message_def\<close>)
  qed
  obtain b where l: "turns p' = AList.map_entry ?tid (\<lambda>t. t\<lparr>ts_via_tunnel := b\<rparr>) (turns ?p4) \<or> turns p' = turns ?p4"
      "composer_messages p' = composer_messages ?p4" "id_source p' = id_source ?p4" "id_next ?p4 \<le> id_next p'"
    unfolding p' using launch_effect [of net iid ?tid "txt" cmd target ws ?p4] by blast
  note q = emit_quiet [OF assms(1), where now = now and p = ?p3
      and a = "user_turn_event from_id iid ?tid txt cmd target ws"]
  let ?new = "new_turn ?tid iid ws target txt u a ?author"
  obtain st where st: "get_turn ?tid p' = Some st" "st = ?new \<or> st = ?new\<lparr>ts_via_tunnel := b\<rparr>"
    using l(1) q(1) by (auto simp: get_turn_def update_conv' map_of_map_entry)
  show ?thesis
  proof (rule that [of rows st])
    show "id_next p < id_next p'" using l(4) q(4) rows(4) by simp
    show "get_turn k p' = get_turn k p" if "k \<noteq> tid" for k
      using that l(1) q(1) rows(2) tid by (auto simp: get_turn_def update_conv' map_of_map_entry)
    show "fst ` set (turns p') = insert tid (fst ` set (turns p))"
      using l(1) q(1) rows(2) tid by (elim disjE) (simp_all add: dom_update dom_map_entry)
    show "rows = [] \<and> ts_assistant_message_id st = None \<or>
     (\<exists>u a. rows = [u, a] \<and> of_turn tid ''user'' u \<and> of_turn tid ''assistant'' a \<and>
        cm_status a = ''responding'' \<and> cm_content u = txt \<and> cm_workspace_id u = ws \<and>
        ts_assistant_message_id st = Some (row_id a))"
      using rows(5) st(2) tid by (auto simp: new_turn_def)
  qed (use tid l q rows st in \<open>auto simp: new_turn_def\<close>)
qed

lemma composer_ok_schedule:
  assumes "quiet_handlers hs" "composer_ok p"
    and "schedule_user_turn hs net now ws iid target txt cmd from_id p = Inr (p', tid)"
  shows "composer_ok p'"
proof -
  obtain rows st where e: "tid = new_id p" "id_source p' = id_source p" "id_next p < id_next p'"
    "composer_messages p' = composer_messages p @ rows"
    "rows = [] \<and> ts_assistant_message_id st = None \<or>
     (\<exists>u a. rows = [u, a] \<and> of_turn tid ''user'' u \<and> of_turn tid ''assistant'' a \<and>
        cm_status a = ''responding'' \<and> ts_assistant_message_id st = Some (row_id a))"
    "get_turn tid p' = Some st" "\<And>k. k \<noteq> tid \<Longrightarrow> get_turn k p' = get_turn k p"
    "fst ` set (turns p') = insert tid (fst ` set (turns p))" "ts_status st = ''responding''"
    by (rule schedule_effect [OF assms(1,3)]) blast
  have fresh: "tid \<notin> used_ids p" using assms(2) new_id_fresh e(1) by (auto simp: composer_ok_def)
  have used: "insert tid (used_ids p) \<subseteq> used_ids p'"
    using e(1-3) by (auto simp: used_ids_def new_id_def)
  have no_row: "filter (of_turn tid r) (composer_messages p) = []" for r
    using assms(2) fresh by (auto simp: filter_empty_conv of_turn_def composer_ok_def)
  have rows: "turn_id m = Some tid" if "m \<in> set rows" for m
    using that e(5) by (auto simp: of_turn_def)
  have here: "row_matches (composer_messages p') tid st"
    using e(4,5,9) no_row by (auto simp: row_matches_def of_turn_def)
  have other: "row_matches (composer_messages p') k u" if "k \<noteq> tid" "get_turn k p' = Some u" for k u
  proof -
    have "filter (of_turn k ''assistant'') rows = []" using that(1) rows by (auto simp: filter_empty_conv of_turn_def)
    then show ?thesis using that e(4,7) assms(2) by (simp add: row_matches_def composer_ok_def)
  qed
  have "row_matches (composer_messages p') k u" if "get_turn k p' = Some u" for k u
    using that here other e(6) by (cases "k = tid") auto
  moreover have "\<forall>m \<in> set (composer_messages p'). \<forall>t. turn_id m = Some t \<longrightarrow> t \<in> used_ids p'"
    using assms(2) e(4) rows used by (auto simp: composer_ok_def)
  ultimately show ?thesis using assms(2) e(2,8) used unfolding composer_ok_def by auto
qed

end
