(* ===== verification/Composer_Runs.thy ===== *)
theory Composer_Runs
  imports Composer
begin

text \<open>
  Runs of the Composer: every interleaving of scheduled turns, Host frames and backend streams; the
  invariant that the transcript follows the turns; what a stream leaves behind; and what a
  subscriber of the event stream sees.
\<close>

section \<open>Interleavings\<close>

inductive composer_step ::
    "'z process_scheme handlers \<Rightarrow> 'z process_scheme \<Rightarrow> 'z process_scheme \<Rightarrow> bool" where
  c_schedule: "schedule_user_turn hs net now ws iid target text cmd from_id p = Inr (p', tid) \<Longrightarrow>
    composer_step hs p p'"
| c_host: "composer_step hs p (ingest_host_frame hs now iid msg p)"
| c_stream: "composer_step hs p (run_stream_turn hs now chunks err tid p)"
| c_register: "composer_step hs p (fst (hub_register iid sock p))"
| c_unregister: "composer_step hs p (hub_unregister iid sock p)"
| c_control: "composer_step hs p (fst (send_control net iid action extra p))"

inductive composer_run ::
    "'z process_scheme handlers \<Rightarrow> 'z process_scheme \<Rightarrow> 'z process_scheme \<Rightarrow> bool" where
  run_nil: "composer_run hs p p"
| run_step: "composer_run hs p q \<Longrightarrow> composer_step hs q r \<Longrightarrow> composer_run hs p r"

lemma hub_turn_frame:
  "turn_frame p (fst (hub_register iid sock p))" "turn_frame p (hub_unregister iid w p)"
  "turn_frame p (fst (send_control net iid action extra p))"
  using hub_frame [of p net iid] 
  by (auto simp: hub_register_def hub_unregister_def send_control_def turn_frame_def split: option.split)

lemma composer_ok_step: "composer_step hs p q \<Longrightarrow> quiet_handlers hs \<Longrightarrow> composer_ok p \<Longrightarrow> composer_ok q"
proof (induction rule: composer_step.induct)
  case (c_schedule hs net now ws iid target "text" cmd from_id p p' tid)
  then show ?case using composer_ok_schedule by blast
next
  case (c_host hs p now iid msg)
  then show ?case by (simp add: composer_ok_host)
next
  case (c_stream hs p now chunks err tid)
  then show ?case by (simp add: composer_ok_stream)
qed (simp_all add: composer_ok_turn_frame hub_turn_frame)

lemma composer_ok_run: "composer_run hs p q \<Longrightarrow> quiet_handlers hs \<Longrightarrow> composer_ok p \<Longrightarrow> composer_ok q"
  by (induction rule: composer_run.induct) (auto intro: composer_ok_step)


definition sample_ws :: workspace where
  "sample_ws = \<lparr>row_id = ''w'', created_at = 0, updated_at = 0, deleted_at = None,
     ws_namespace_id = ''n'', ws_name = ''W'', ws_slug = ''w''\<rparr>"

definition fox :: instance_row where
  "fox = \<lparr>row_id = ''x'', created_at = 0, updated_at = 0, deleted_at = None, ins_entity_id = ''e'',
     ins_workspace_id = ''w'', workspace_path = None, ins_status = I_running, runtime_config = None,
     proxy_token = None, active_hash = None\<rparr>"

definition sample_process :: process where
  "sample_process = world.extend (db.extend ((empty_db sample_ids)\<lparr>workspaces := [sample_ws],
      instances := [fox]\<rparr>) (world.fields (\<lambda>_. None) [] []))
     (process.fields [] [] [] [])"

definition offline :: wire where
  "offline = \<lparr>ws_connected = (\<lambda>_. False), ws_send_ok = (\<lambda>_. False)\<rparr>"

definition sample_turn :: process where
  "sample_turn = (case schedule_user_turn [] offline 5 ''w'' ''x'' ''fox'' ''hi'' None ''m'' sample_process of
     Inl _ \<Rightarrow> sample_process | Inr (p, tid) \<Rightarrow> p)"

definition sample_done :: process where
  "sample_done = run_stream_turn [] 6 (stub_chunks ''hi'') None ''i'' sample_turn"

lemma sample_process_ok: "composer_ok sample_process"
  using sample_ids_ok by (simp add: composer_ok_def sample_process_def get_turn_def db.defs world.defs process.defs empty_db_def)

lemma sample_scheduled:
  "\<exists>tid. schedule_user_turn [] offline 5 ''w'' ''x'' ''fox'' ''hi'' None ''m'' sample_process = Inr (sample_turn, tid)"
proof -
  have "is_ok (schedule_user_turn [] offline 5 ''w'' ''x'' ''fox'' ''hi'' None ''m'' sample_process)"
    by code_simp
  then show ?thesis
    by (cases "schedule_user_turn [] offline 5 ''w'' ''x'' ''fox'' ''hi'' None ''m'' sample_process")
      (auto simp: sample_turn_def)
qed

lemma sample_run: "composer_run [] sample_process sample_done"
proof -
  have "composer_run [] sample_process sample_turn"
    using sample_scheduled by (blast intro: run_nil run_step c_schedule)
  then show ?thesis unfolding sample_done_def by (rule run_step) (rule c_stream)
qed


section \<open>What a stream leaves behind\<close>

text \<open>The reply of a stream, and whether a chunk finished it.\<close>

fun stream_reply :: "token_chunk list \<Rightarrow> string \<times> bool" where
  "stream_reply [] = ([], False)"
| "stream_reply (c # cs) =
     (if truthy (finish_reason c) then (token c, True)
      else (token c @ fst (stream_reply cs), snd (stream_reply cs)))"

text \<open>The end of a turn: its state, the one assistant message, the last frame and the end mark.\<close>

definition turn_ended ::
    "ident \<Rightarrow> string \<Rightarrow> string \<Rightarrow> string \<Rightarrow> 'z process_scheme \<Rightarrow> bool" where
  "turn_ended tid status reply body p \<longleftrightarrow>
     (\<exists>st. get_turn tid p = Some st \<and> ts_status st = status \<and> ts_reply_text st = reply \<and>
        ts_queue st \<noteq> [] \<and> last (ts_queue st) = None \<and>
        ts_history st \<noteq> [] \<and> terminal_frame (last (ts_history st))) \<and>
     (\<exists>m. filter (of_turn tid ''assistant'') (composer_messages p) = [m] \<and> cm_status m = status \<and> cm_content m = body)"

lemma finish_turn_ended:
  assumes "quiet_handlers hs" "filter (of_turn tid ''assistant'') (composer_messages p) = [m]"
    and "ts_status st = status" "terminal_frame frame"
  shows "turn_ended tid status (ts_reply_text st) (final_body content (ts_reply_text st))
    (finish_turn hs now tid ty frame content status st p)"
proof -
  note e = finish_turn_effect [OF assms(1), where now = now and tid = tid and ty = ty and frame = frame
    and content = content and status = status and st = st and p = p]
  have "get_turn tid (finish_turn hs now tid ty frame content status st p) = Some (close_queue (emit_frame frame st))"
    by (simp add: get_turn_def e update_conv' map_of_map_entry)
  then show ?thesis
    using assms(2-4) by (simp add: turn_ended_def e finalize_filter_same close_queue_def emit_frame_def)
qed

lemma final_body_None [simp]: "final_body None reply = reply"
  by (simp add: final_body_def)

lemma stream_loop_ended:
  "quiet_handlers hs \<Longrightarrow> get_turn tid p = Some st \<Longrightarrow>
   filter (of_turn tid ''assistant'') (composer_messages p) = [m] \<Longrightarrow>
   turn_ended tid (if snd (stream_reply chunks) \<or> err = None then ''completed'' else ''failed'')
     (ts_reply_text st @ fst (stream_reply chunks))
     (if snd (stream_reply chunks) \<or> err = None then ts_reply_text st @ fst (stream_reply chunks)
      else final_body err (ts_reply_text st @ fst (stream_reply chunks)))
     (stream_loop hs now tid chunks err st p)"
proof (induction hs now tid chunks err st p rule: stream_loop.induct)
  case (1 hs now tid err st p)
  then show ?case
    using finish_turn_ended [OF 1(1,3), of "st\<lparr>ts_status := ''completed''\<rparr>" "''completed''" _ None]
      finish_turn_ended [OF 1(1,3), of "st\<lparr>ts_status := ''failed''\<rparr>" "''failed''" _ err]
    by (cases err) (simp_all add: stream_done_def stream_failed_def terminal_frame_def stream_frame_def)
next
  case (2 hs now tid c cs err st p)
  obtain st1 p1 where t: "stream_token hs now tid (token c) st p = (st1, p1)" by fastforce
  note e = stream_token_effect [OF 2(2,3) t]
  show ?case
  proof (cases "truthy (finish_reason c)")
    case True
    have "filter (of_turn tid ''assistant'') (composer_messages p1) = [m]" using 2(4) e(2) by simp
    from finish_turn_ended [OF 2(2) this, of "st1\<lparr>ts_status := ''completed''\<rparr>" "''completed''" _ None]
    show ?thesis using True t e(3)
      by (simp add: stream_done_def terminal_frame_def stream_frame_def)
  next
    case False
    from 2(1) [OF t [symmetric] False 2(2) e(1)] False t e(2,3) 2(4) show ?thesis by (simp cong: if_cong)
  qed
qed

text \<open>
  The outcome of a backend stream: the reply is the concatenation of the tokens up to the first
  finish reason; the turn and its one assistant message are completed, or failed with the error
  text when the stream raised first; the last frame is terminal and the queue is closed.\<close>
theorem stream_outcome:
  assumes "quiet_handlers hs" and "get_turn tid p = Some st" and "ts_reply_text st = []"
    and "filter (of_turn tid ''assistant'') (composer_messages p) = [m]"
    and "stream_reply chunks = (reply, finished)"
  shows "turn_ended tid (if finished \<or> err = None then ''completed'' else ''failed'') reply
    (if finished \<or> err = None then reply else final_body err reply)
    (run_stream_turn hs now chunks err tid p)"
proof -
  let ?p = "p\<lparr>stream_tasks := remove1 tid (stream_tasks p)\<rparr>"
  have "get_turn tid ?p = Some st" using assms(2) by (simp add: get_turn_def)
  from stream_loop_ended [OF assms(1) this, of m chunks err now] assms
  show ?thesis by (simp add: run_stream_turn_def cong: if_cong)
qed

lemma stream_outcome_witness:
  "turn_ended ''i'' ''failed'' ''ab'' ''boom''
     (run_stream_turn [] 6 [\<lparr>token = ''a'', finish_reason = None\<rparr>, \<lparr>token = ''b'', finish_reason = None\<rparr>]
        (Some ''boom'') ''i'' sample_turn)"
proof -
  have "map_option ts_reply_text (get_turn ''i'' sample_turn) = Some []" by code_simp
  then obtain st where st: "get_turn ''i'' sample_turn = Some st" "ts_reply_text st = []" by auto
  have "length (filter (of_turn ''i'' ''assistant'') (composer_messages sample_turn)) = 1" by code_simp
  then obtain m where m: "filter (of_turn ''i'' ''assistant'') (composer_messages sample_turn) = [m]"
    by (auto simp: length_Suc_conv)
  have b: "final_body (Some ''boom'') ''ab'' = ''boom''" by code_simp
  show ?thesis
    using stream_outcome [OF quiet_Nil st m, of _ "''ab''" False "Some ''boom''" 6] b by simp
qed

text \<open>
  Without an API key the reply of a turn is its prompt with the stub mark, however the words of
  the prompt are spaced.\<close>
theorem stub_echo: "stream_reply (stub_chunks content) = (''[stub] '' @ content, True)"
proof -
  let ?chunk = "\<lambda>(i, part). \<lparr>token = (if i = (0::nat) then part else CHR '' '' # part), finish_reason = None\<rparr>"
  have plain: "stream_reply (cs @ [\<lparr>token = [], finish_reason = Some ''stop''\<rparr>]) = (concat (map token cs), True)"
    if "\<forall>c \<in> set cs. finish_reason c = None" for cs
    using that by (induction cs) auto
  have rest: "concat (map (token \<circ> ?chunk) (enumerate (Suc n) ws)) = concat (map ((#) CHR '' '') ws)" for n ws
    by (induction ws arbitrary: n) auto
  obtain w ws where ws: "split_on CHR '' '' (''[stub] '' @ content) = w # ws"
    by (cases "split_on CHR '' '' (''[stub] '' @ content)") auto
  have jc: "join '' '' (v # vs) = v @ concat (map ((#) CHR '' '') vs)" for v vs
    by (induction vs arbitrary: v) auto
  have "concat (map (token \<circ> ?chunk) (enumerate 0 (w # ws))) = join '' '' (w # ws)"
    using rest [of 0 ws] by (simp add: jc comp_def)
  also have "\<dots> = ''[stub] '' @ content" using join_split_on [of "CHR '' ''"] ws by metis
  finally have c: "concat (map (token \<circ> ?chunk) (enumerate 0 (w # ws))) = ''[stub] '' @ content" .
  have "stream_reply (map ?chunk (enumerate 0 (w # ws)) @ [\<lparr>token = [], finish_reason = Some ''stop''\<rparr>])
        = (''[stub] '' @ content, True)"
    by (subst plain) (use c in \<open>auto simp: comp_def\<close>)
  then show ?thesis by (simp only: stub_chunks_def ws Let_def)
qed

section \<open>Subscribers\<close>

text \<open>
  The frames a subscriber reads, against the frames of the turn: every frame emitted while nobody
  reads is in the history and in the queue.
\<close>

definition sse_frames :: "sse_event list \<Rightarrow> json_obj list" where
  "sse_frames es = List.map_filter (\<lambda>e. case e of Frame f \<Rightarrow> Some f | Turn_status _ \<Rightarrow> None) es"

definition unread :: "turn_state \<Rightarrow> bool" where
  "unread st \<longleftrightarrow> ts_queue st = map Some (ts_history st) \<and> \<not> list_ex terminal_frame (ts_history st)"

lemma unread_emit: "unread st \<Longrightarrow> \<not> terminal_frame f \<Longrightarrow> unread (emit_frame f st)"
  by (auto simp: unread_def emit_frame_def)

lemma sse_frames_simps [simp]:
  "sse_frames [] = []" "sse_frames (Frame f # es) = f # sse_frames es"
  "sse_frames (Turn_status t # es) = sse_frames es"
  "sse_frames (es @ es') = sse_frames es @ sse_frames es'"
  "sse_frames (map Frame fs) = fs"
  by (simp_all add: sse_frames_def List.map_filter_def comp_def filter_True map_idI)

lemma drain_unfinished:
  "list_all (\<lambda>f. \<not> terminal_frame f) fs \<Longrightarrow> drain_queue (map Some fs @ q) = map Frame fs @ drain_queue q"
  by (induction fs) auto

text \<open>
  A subscriber that comes before the end of a turn, when nobody has read the queue, gets every
  frame emitted so far twice: once from the history and again from the queue.\<close>
theorem subscriber_reads_twice:
  assumes "unread st"
  shows "sse_frames (composer_stream st later) =
         ts_history st @ ts_history st @ sse_frames (drain_queue later)"
proof -
  have n: "list_all (\<lambda>f. \<not> terminal_frame f) (ts_history st)" "\<not> list_ex terminal_frame (ts_history st)"
    "ts_queue st = map Some (ts_history st)"
    using assms by (auto simp: unread_def list_ex_iff list_all_iff)
  then show ?thesis by (simp add: composer_stream_def drain_unfinished)
qed

definition two_tokens :: process where
  "two_tokens = (let m = (\<lambda>t. \<lparr>tm_type = CHAT_RESPONSE_CHUNK, tm_payload = [(''token'', JStr t)], tm_turn_id = Some ''i''\<rparr>)
     in ingest_host_frame [] 7 ''x'' (m ''b'') (ingest_host_frame [] 6 ''x'' (m ''a'') sample_turn))"

lemma subscriber_reads_twice_witness:
  "\<exists>st. get_turn ''i'' two_tokens = Some st \<and> ts_reply_text st = ''ab'' \<and>
     map frame_token (sse_frames (composer_stream st [])) = [''a'', ''b'', ''a'', ''b'']"
proof -
  have "map_option (\<lambda>st. (ts_reply_text st, map frame_token (ts_history st))) (get_turn ''i'' two_tokens)
        = Some (''ab'', [''a'', ''b''])" by code_simp
  then obtain st where st: "get_turn ''i'' two_tokens = Some st" "ts_reply_text st = ''ab''"
      "map frame_token (ts_history st) = [''a'', ''b'']" by auto
  have "case get_turn ''i'' two_tokens of None \<Rightarrow> False | Some st \<Rightarrow>
      ts_queue st = map Some (ts_history st) \<and> \<not> list_ex terminal_frame (ts_history st)" by code_simp
  then have "unread st" using st(1) by (simp add: unread_def)
  with st subscriber_reads_twice [of st "[]"] show ?thesis by simp
qed

section \<open>Hosts\<close>

text \<open>
  One connection per Instance, the latest: after registering a socket the Instance has exactly
  this one, and the socket it replaces is closed; a superseded connection that ends afterwards
  does not unregister its successor.\<close>
theorem hub_latest_connection:
  assumes "hub_register iid sock p = (p1, closed)" and "old \<noteq> sock"
  shows "map_of (connections p1) iid = Some sock \<and> hub_unregister iid (Some old) p1 = p1 \<and>
    closed = (case map_of (connections p) iid of None \<Rightarrow> None | Some s \<Rightarrow> if s = sock then None else Some s) \<and>
    (other \<noteq> iid \<longrightarrow> map_of (connections p1) other = map_of (connections p) other)"
  using assms by (auto simp: hub_register_def hub_unregister_def update_conv' split: option.split)

lemma hub_latest_connection_witness:
  "map_of (connections (hub_unregister ''x'' (Some 1) (fst (hub_register ''x'' 2
     (fst (hub_register ''x'' 1 sample_process)))))) ''x'' = Some 2"
proof -
  obtain p1 closed where r: "hub_register ''x'' 2 (fst (hub_register ''x'' 1 sample_process)) = (p1, closed)"
    by fastforce
  show ?thesis using hub_latest_connection [OF r, of 1 "''y''"] r by simp
qed

end
