(* ===== verification/Routing.thy ===== *)
theory Routing
  imports Composer_Runs Inject_Queue Passages Slash_Parser
begin

text \<open>
  The message router (\<^verbatim>\<open>app/core/message_router.py\<close>): a directive reaches the active Instances
  of the Entity it names, through an active Passage between the sender's seat and the Instance's;
  what a person sends without a Passage goes to the workspace's cerebellum instead. The wording of
  the template reply is a parameter.
\<close>

section \<open>Delivery results and turn text\<close>

record delivery =
  dl_target_entity :: string
  dl_delivered :: bool
  dl_reason :: "string option"
  dl_instance_id :: "ident option"
  dl_turn_id :: "ident option"

definition undelivered :: "string \<Rightarrow> string \<Rightarrow> ident option \<Rightarrow> delivery" where
  "undelivered target reason iid = \<lparr>dl_target_entity = target, dl_delivered = False,
     dl_reason = Some reason, dl_instance_id = iid, dl_turn_id = None\<rparr>"

definition turn_text_for_directive :: "directive \<Rightarrow> string option \<Rightarrow> string" where
  "turn_text_for_directive d general =
     (let words = strip (join '' '' (dir_args d)); text0 = strip (str_or general [])
      in if dir_cmd d \<noteq> [] then (if text0 \<noteq> [] then text0 else if words \<noteq> [] then words else dir_cmd d)
         else (if words \<noteq> [] then words else text0))"

text \<open>The live loop state of an Instance, \<open>MultipleResultsFound\<close> included.\<close>

definition delivery_mode_for_instance :: "ident \<Rightarrow> 'z db_scheme \<Rightarrow> string result" where
  "delivery_mode_for_instance iid s =
     (case scalar_one_or_none (filter (\<lambda>st. ls_instance_id st = iid \<and> live st) (loop_states s)) of
        Inl e \<Rightarrow> Inl e
      | Inr None \<Rightarrow> Inr ''wake''
      | Inr (Some st) \<Rightarrow> Inr (if loop_status st = L_running then ''soft_inject'' else ''wake''))"

section \<open>The cerebellum path\<close>

definition strs_json :: "string list \<Rightarrow> json" where
  "strs_json ws = JList (map JStr ws)"

definition membership_event ::
    "string \<Rightarrow> ident \<Rightarrow> string \<Rightarrow> ident \<Rightarrow> json_obj \<Rightarrow> event_args" where
  "membership_event ty from_id rt rid payload =
     \<lparr>ea_type = ty, ea_actor_type = ''membership'', ea_actor_id = Some from_id,
      ea_resource_type = Some rt, ea_resource_id = Some rid, ea_payload = payload, ea_request_id = None\<rparr>"

definition routed_message :: "string \<Rightarrow> string \<Rightarrow> string option \<Rightarrow> ident option \<Rightarrow> ident option \<Rightarrow> message_args" where
  "routed_message role content target iid author =
     \<lparr>ma_role = role, ma_content = content, ma_target_entity = target, ma_instance_id = iid,
      ma_turn_id = None, ma_status = ''completed'', ma_author = author\<rparr>"

definition template_reply :: "string \<Rightarrow> string option \<Rightarrow> string" where
  "template_reply notice target =
     CHR ''@'' # (case target of None \<Rightarrow> ''None'' | Some t \<Rightarrow> t) @ notice"

definition route_to_cerebellum ::
    "'z db_scheme handlers \<Rightarrow> string \<Rightarrow> timestamp \<Rightarrow> ident \<Rightarrow> ident \<Rightarrow> directive \<Rightarrow> string option
     \<Rightarrow> ident option \<Rightarrow> ident option \<Rightarrow> ident option \<Rightarrow> 'z db_scheme \<Rightarrow> ('z db_scheme \<times> delivery) result" where
  "route_to_cerebellum hs notice now from_id ws d general iid to_id author p =
     (let msg = turn_text_for_directive d general;
          p1 = fst (emit hs now (membership_event MESSAGING_DELIVERY_BLOCKED from_id
                 (if truthy iid then ''instance'' else ''workspace'') (str_or iid ws)
                 [(''target_entity'', opt_str (dir_target d)), (''cmd'', JStr (dir_cmd d)),
                  (''workspace_id'', JStr ws), (''instance_id'', opt_str iid),
                  (''to_membership_id'', opt_str to_id),
                  (''reason_detail'', JStr ''routed_to_cerebellum''), (''text'', JStr msg)]) p)
      in case append_composer_message now ws (routed_message ''user'' msg (dir_target d) iid author) p1 of
           Inl e \<Rightarrow> Inl e
         | Inr (p2, _) \<Rightarrow>
            (case append_composer_message now ws
                    (routed_message ''assistant'' (template_reply notice (dir_target d)) (dir_target d) iid None) p2 of
               Inl e \<Rightarrow> Inl e
             | Inr (p3, _) \<Rightarrow>
                (let r = undelivered (str_or (dir_target d) []) ''routed_to_cerebellum'' iid in
                 case iid of
                   None \<Rightarrow> Inr (p3, r)
                 | Some i \<Rightarrow>
                    (case enqueue_inject hs now i ''cerebellum_route'' ''notify''
                            [(''text'', JStr msg), (''target_entity'', opt_str (dir_target d)),
                             (''from_membership_id'', JStr from_id)]
                            (Some (take 200 msg)) p3 of
                       Inl e \<Rightarrow> Inl e
                     | Inr (p4, _) \<Rightarrow> Inr (p4, r)))))"

section \<open>Routing\<close>

definition active_statuses :: "instance_status list" where
  "active_statuses = [I_running, I_pending, I_creating, I_deploying]"

definition active_instances :: "ident \<Rightarrow> ident \<Rightarrow> instance_row list \<Rightarrow> instance_row list" where
  "active_instances ent ws rows = filter (\<lambda>i. ins_entity_id i = ent \<and> ins_workspace_id i = ws
     \<and> ins_status i \<in> set active_statuses \<and> live i) rows"

text \<open>A seat that does not belong to a person gets no cerebellum: the block is only audited.\<close>

definition block_delivery ::
    "'z db_scheme handlers \<Rightarrow> timestamp \<Rightarrow> ident \<Rightarrow> string \<Rightarrow> ident \<Rightarrow> json_obj \<Rightarrow> string \<Rightarrow> ident
     \<Rightarrow> 'z db_scheme \<Rightarrow> 'z db_scheme \<times> delivery" where
  "block_delivery hs now from_id rt rid payload target iid p =
     (fst (emit hs now (membership_event MESSAGING_DELIVERY_BLOCKED from_id rt rid payload) p),
      undelivered target ''not_neighbor'' (Some iid))"

definition deliver ::
    "'z process_scheme handlers \<Rightarrow> wire \<Rightarrow> timestamp \<Rightarrow> ident \<Rightarrow> ident \<Rightarrow> directive \<Rightarrow> string
     \<Rightarrow> string option \<Rightarrow> ident \<Rightarrow> ident \<Rightarrow> ident \<Rightarrow> 'z process_scheme \<Rightarrow> ('z process_scheme \<times> delivery) result"
where
  "deliver hs net now from_id ws d target general iid to_id passage_id p =
     (let p1 = fst (emit hs now (membership_event MESSAGING_MESSAGE_SENT from_id ''instance'' iid
                 [(''target_entity'', JStr target), (''cmd'', JStr (dir_cmd d)),
                  (''args'', strs_json (dir_args d)), (''workspace_id'', JStr ws),
                  (''instance_id'', JStr iid), (''to_membership_id'', JStr to_id),
                  (''passage_id'', JStr passage_id), (''general_text'', opt_str general)]) p);
          msg = turn_text_for_directive d general
      in case delivery_mode_for_instance iid p1 of
           Inl e \<Rightarrow> Inl e
         | Inr mode \<Rightarrow>
            (case enqueue_inject hs now iid ''collab_inject'' mode
                    [(''target_entity'', JStr target), (''cmd'', JStr (dir_cmd d)),
                     (''args'', strs_json (dir_args d)), (''text'', JStr msg),
                     (''passage_id'', JStr passage_id)]
                    (Some (take 200 msg)) p1 of
               Inl e \<Rightarrow> Inl e
             | Inr (p2, _) \<Rightarrow>
                (case schedule_user_turn hs net now ws iid target msg
                        (if dir_cmd d = [] then None else Some (dir_cmd d)) from_id p2 of
                   Inl e \<Rightarrow> Inl e
                 | Inr (p3, tid) \<Rightarrow>
                     Inr (p3, \<lparr>dl_target_entity = target, dl_delivered = True, dl_reason = None,
                               dl_instance_id = Some iid, dl_turn_id = Some tid\<rparr>))))"

text \<open>One Instance of the target: its seat in the workspace, the Passage, and the way taken.\<close>

definition route_instance ::
    "'z process_scheme handlers \<Rightarrow> wire \<Rightarrow> string \<Rightarrow> timestamp \<Rightarrow> ident \<Rightarrow> ident \<Rightarrow> directive \<Rightarrow> string
     \<Rightarrow> string option \<Rightarrow> ident option \<Rightarrow> bool \<Rightarrow> instance_row \<Rightarrow> 'z process_scheme
     \<Rightarrow> ('z process_scheme \<times> delivery) result" where
  "route_instance hs net notice now from_id ws d target general author is_user i p =
     (case scalar_one_or_none (filter (\<lambda>m. mem_instance_id m = Some (row_id i)
              \<and> mem_workspace_id m = ws \<and> live m) (memberships p)) of
        Inl e \<Rightarrow> Inl e
      | Inr None \<Rightarrow>
          if is_user
          then route_to_cerebellum hs notice now from_id ws d general (Some (row_id i)) None author p
          else Inr (block_delivery hs now from_id ''instance'' (row_id i)
                 [(''target_entity'', JStr target), (''cmd'', JStr (dir_cmd d)), (''workspace_id'', JStr ws),
                  (''instance_id'', JStr (row_id i)), (''reason_detail'', JStr ''target_membership_missing'')]
                 target (row_id i) p)
      | Inr (Some m) \<Rightarrow>
         (case find_active_passage_between (passages p) ws from_id (row_id m) of
            None \<Rightarrow>
              if is_user
              then route_to_cerebellum hs notice now from_id ws d general (Some (row_id i)) (Some (row_id m)) author p
              else Inr (block_delivery hs now from_id ''membership'' (row_id m)
                     [(''target_entity'', JStr target), (''cmd'', JStr (dir_cmd d)), (''workspace_id'', JStr ws),
                      (''instance_id'', JStr (row_id i)), (''to_membership_id'', JStr (row_id m))]
                     target (row_id i) p)
          | Some psg \<Rightarrow> deliver hs net now from_id ws d target general (row_id i) (row_id m) (row_id psg) p))"

fun route_instances ::
    "(instance_row \<Rightarrow> 'p \<Rightarrow> ('p \<times> delivery) result) \<Rightarrow> instance_row list \<Rightarrow> 'p \<Rightarrow> ('p \<times> delivery list) result"
where
  "route_instances one [] p = Inr (p, [])"
| "route_instances one (i # is) p =
     (case one i p of
        Inl e \<Rightarrow> Inl e
      | Inr (p1, r) \<Rightarrow>
         (case route_instances one is p1 of
            Inl e \<Rightarrow> Inl e
          | Inr (p2, rs) \<Rightarrow> Inr (p2, r # rs)))"

definition sender_user :: "ident \<Rightarrow> 'z db_scheme \<Rightarrow> ident option" where
  "sender_user from_id p = (case get_live (memberships p) from_id of None \<Rightarrow> None | Some m \<Rightarrow> mem_user_id m)"

definition route_message ::
    "'z process_scheme handlers \<Rightarrow> wire \<Rightarrow> string \<Rightarrow> timestamp \<Rightarrow> ident \<Rightarrow> ident \<Rightarrow> directive \<Rightarrow> string option
     \<Rightarrow> 'z process_scheme \<Rightarrow> ('z process_scheme \<times> delivery list) result" where
  "route_message hs net notice now from_id ws d general p =
     (case dir_target d of
        None \<Rightarrow> Inr (p, [])
      | Some target \<Rightarrow>
         (case scalar_one_or_none (filter (\<lambda>e. ent_slug e = target \<and> live e) (entities p)) of
            Inl e \<Rightarrow> Inl e
          | Inr None \<Rightarrow> Inr (p, [undelivered target ''entity_not_found'' None])
          | Inr (Some ent) \<Rightarrow>
             (let targets = active_instances (row_id ent) ws (instances p) in
              if targets = [] then Inr (p, [undelivered target ''no_active_instance'' None])
              else let author = sender_user from_id p
                   in route_instances
                        (route_instance hs net notice now from_id ws d target general author (author \<noteq> None))
                        targets p)))"

end
