(* ===== verification/Routing_Props.thy ===== *)
theory Routing_Props
  imports Routing
begin

text \<open>
  What routing does: handlers that leave the routing tables alone, the effect of each way a message
  can take, the Passage gate, the account of what is left in the queues, and that routing never
  fails on a well-formed store.
\<close>

section \<open>Frames\<close>

text \<open>The tables routing reads, apart from the loop states.\<close>

definition seats_frame :: "'z process_scheme \<Rightarrow> 'z process_scheme \<Rightarrow> bool" where
  "seats_frame p q \<longleftrightarrow> passages q = passages p \<and> memberships q = memberships p \<and>
     instances q = instances p \<and> workspaces q = workspaces p \<and> users q = users p \<and>
     entities q = entities p \<and> (uq_loop_states_instance (loop_states p) \<longrightarrow> uq_loop_states_instance (loop_states q))"

definition routing_frame :: "'z process_scheme \<Rightarrow> 'z process_scheme \<Rightarrow> bool" where
  "routing_frame p q \<longleftrightarrow> seats_frame p q \<and> turn_frame p q \<and> inject_queue q = inject_queue p"

definition router_handlers :: "'z process_scheme handlers \<Rightarrow> bool" where
  "router_handlers hs = handlers_respect routing_frame (\<lambda>_. True) hs"

lemma router_Nil [simp]: "router_handlers []"
  by (simp add: router_handlers_def)

lemma seats_refl [simp]: "seats_frame p p"
  by (simp add: seats_frame_def)

lemma seats_trans [trans]: "seats_frame p q \<Longrightarrow> seats_frame q r \<Longrightarrow> seats_frame p r"
  by (simp add: seats_frame_def)

lemma routing_frame_order: "reflp routing_frame" "transp routing_frame"
  by (auto simp: routing_frame_def seats_frame_def turn_frame_def reflp_def transp_def)

lemma respect_mono:
  "handlers_respect R Q hs \<Longrightarrow> (\<And>p q. R p q \<Longrightarrow> S p q) \<Longrightarrow> (\<And>e. T e \<Longrightarrow> Q e) \<Longrightarrow> handlers_respect S T hs"
  by (fastforce simp: handlers_respect_def)

lemma router_quiet [simp]: "router_handlers hs \<Longrightarrow> quiet_handlers hs"
  unfolding router_handlers_def quiet_handlers_def by (erule respect_mono) (auto simp: routing_frame_def)

lemma router_audit [simp]: "router_handlers hs \<Longrightarrow> audit_handlers hs"
  unfolding router_handlers_def audit_handlers_def
  by (erule respect_mono) (auto simp: routing_frame_def turn_frame_def inject_frame_def)

lemma emit_routing_frame: "router_handlers hs \<Longrightarrow> routing_frame p (fst (emit hs now a p))"
  unfolding router_handlers_def
  by (rule emit_respects [OF routing_frame_order, of "\<lambda>_. True"])
    (auto simp: routing_frame_def seats_frame_def turn_frame_def take_id_def)

lemma emit_router [simp]:
  assumes "router_handlers hs"
  shows "seats_frame p (fst (emit hs now a p))" "inject_queue (fst (emit hs now a p)) = inject_queue p"
  using emit_routing_frame [OF assms, of p now a] by (simp_all add: routing_frame_def)

section \<open>Effect of the parts\<close>

lemma set_inject_frame:
  "seats_frame p (set_inject rows (take_id p))" "turns (set_inject rows (take_id p)) = turns p"
  "composer_messages (set_inject rows (take_id p)) = composer_messages p"
  by (simp_all add: set_inject_def take_id_def seats_frame_def)

lemma learning_none:
  "kind \<noteq> ''capability_inject'' \<Longrightarrow> kind \<noteq> ''gene_inject'' \<Longrightarrow>
   emit_learning_injected hs now (new_inject_row t i iid kind mode payload) pl tldr s = s"
  by (simp add: emit_learning_injected_def new_inject_row_def)

lemma enqueue_routed:
  assumes "router_handlers hs" "kind = ''collab_inject'' \<or> kind = ''cerebellum_route''"
    and "enqueue_inject hs now iid kind mode payload tldr p = Inr (q, r)"
  shows "inject_queue q = inject_queue p @ [r]" "inj_instance_id r = iid" "inj_kind r = kind"
    "delivery_mode r = mode" "seats_frame p q" "turns q = turns p" "composer_messages q = composer_messages p"
proof -
  let ?r = "new_inject_row now (new_id p) iid kind mode payload"
  let ?p1 = "set_inject (inject_queue p @ [?r]) (take_id p)"
  let ?q = "fst (emit hs now (system_event HARNESS_INJECT_REQUESTED ''instance'' iid
                (queue_payload ?r @ [(''tldr'', opt_json tldr)])) ?p1)"
  have e: "r = ?r" "q = ?q"
    using assms(2,3) by (auto simp: enqueue_inject_def Let_def learning_none split: sum.splits if_splits)
  show "seats_frame p q" unfolding e by (rule seats_trans [OF set_inject_frame(1) emit_router(1) [OF assms(1)]])
  show "inject_queue q = inject_queue p @ [r]" "turns q = turns p" "composer_messages q = composer_messages p"
    using assms(1) by (simp_all add: e set_inject_frame)
  show "inj_instance_id r = iid" "inj_kind r = kind" "delivery_mode r = mode"
    by (simp_all add: e new_inject_row_def)
qed

lemma append_frame:
  assumes "append_composer_message now ws a p = Inr (q, m)"
  shows "seats_frame p q" "inject_queue q = inject_queue p" "turns q = turns p"
    "prefix (composer_messages p) (composer_messages q)"
proof -
  consider "q = p" | msgs where "q = (take_id p)\<lparr>composer_messages := composer_messages p @ msgs\<rparr>"
    using assms append_effect(12) by (cases m) (fastforce simp: append_composer_message_def Let_def split: option.splits if_splits)+
  then show "seats_frame p q" "inject_queue q = inject_queue p" "turns q = turns p"
    "prefix (composer_messages p) (composer_messages q)"
    by (cases; simp add: seats_frame_def take_id_def)+
qed

lemma launch_frame:
  "seats_frame p (launch_turn net iid tid t cmd target ws p)"
  "inject_queue (launch_turn net iid tid t cmd target ws p) = inject_queue p"
  by (auto simp: launch_turn_def send_chat_request_def hub_send_def hub_unregister_def mod_turn_def
      seats_frame_def split: option.split)

lemma schedule_frame:
  assumes "router_handlers hs"
    and "schedule_user_turn hs net now ws iid target t cmd from_id p = Inr (q, tid)"
  shows "seats_frame p q" "inject_queue q = inject_queue p" 
    "fst ` set (turns q) = insert tid (fst ` set (turns p))"
    "prefix (composer_messages p) (composer_messages q)"
proof -
  obtain p1 u p2 a st where a: "append_composer_message now ws
        (turn_message ''user'' t target iid (new_id p) ''completed'' 
          (case first_where (\<lambda>m. row_id m = from_id) (memberships p) of None \<Rightarrow> None | Some m \<Rightarrow> mem_user_id m)) (take_id p) = Inr (p1, u)"
    "append_composer_message now ws (turn_message ''assistant'' [] target iid (new_id p) ''responding'' None) p1 = Inr (p2, a)"
    and q: "q = launch_turn net iid (new_id p) t cmd target ws
        (fst (emit hs now (user_turn_event from_id iid (new_id p) t cmd target ws) (set_turn (new_id p) st p2)))"
    using assms(2) by (auto simp: schedule_user_turn_def Let_def split: sum.splits)
  have s: "seats_frame p (take_id p)" "seats_frame p2 (set_turn (new_id p) st p2)"
    by (simp_all add: seats_frame_def take_id_def set_turn_def)
  show "seats_frame p q"
    unfolding q using s append_frame(1) [OF a(1)] append_frame(1) [OF a(2)]
      emit_router(1) [OF assms(1)] launch_frame(1) by (meson seats_trans)
  show "inject_queue q = inject_queue p"
    using append_frame(2) [OF a(1)] append_frame(2) [OF a(2)] assms(1)
    by (simp add: q launch_frame set_turn_def)
  show "fst ` set (turns q) = insert tid (fst ` set (turns p))"
    "prefix (composer_messages p) (composer_messages q)"
    by (rule schedule_effect [OF router_quiet [OF assms(1)] assms(2)]; simp)+
qed

section \<open>One Instance\<close>

text \<open>The way a Passage opens: the seat of the Instance and an active Passage between the two.\<close>

definition passage_open :: "ident \<Rightarrow> ident \<Rightarrow> ident \<Rightarrow> 'z db_scheme \<Rightarrow> bool" where
  "passage_open from_id ws iid p \<longleftrightarrow>
     (\<exists>m \<in> set (memberships p). live m \<and> mem_workspace_id m = ws \<and> mem_instance_id m = Some iid \<and>
        (\<exists>psg \<in> set (passages p). active_in ws psg \<and>
           {from_membership_id psg, to_membership_id psg} = {from_id, row_id m}))"

definition queued_kinds :: "delivery \<Rightarrow> (ident \<times> string) list" where
  "queued_kinds d =
     (case dl_instance_id d of
        None \<Rightarrow> []
      | Some i \<Rightarrow> if dl_delivered d then [(i, ''collab_inject'')]
                  else if dl_reason d = Some ''routed_to_cerebellum'' then [(i, ''cerebellum_route'')] else [])"

definition queue_mark :: "inject_row \<Rightarrow> ident \<times> string" where
  "queue_mark r = (inj_instance_id r, inj_kind r)"

definition routed ::
    "ident \<Rightarrow> ident \<Rightarrow> instance_row \<Rightarrow> 'z process_scheme \<Rightarrow> 'z process_scheme \<Rightarrow> delivery \<Rightarrow> bool" where
  "routed from_id ws i p q d \<longleftrightarrow>
     seats_frame p q \<and> prefix (composer_messages p) (composer_messages q) \<and>
     dl_instance_id d = Some (row_id i) \<and>
     (\<exists>rows. inject_queue q = inject_queue p @ rows \<and> map queue_mark rows = queued_kinds d \<and>
        (\<not> dl_delivered d \<longrightarrow> list_all (\<lambda>r. delivery_mode r = ''notify'') rows)) \<and>
     (dl_delivered d \<longrightarrow> passage_open from_id ws (row_id i) p) \<and>
     (dl_delivered d \<longleftrightarrow> dl_turn_id d \<noteq> None) \<and>
     fst ` set (turns q) = fst ` set (turns p) \<union> set (case dl_turn_id d of None \<Rightarrow> [] | Some t \<Rightarrow> [t])"

lemma seats_take: "seats_frame p (take_id p)"
  by (simp add: seats_frame_def take_id_def)

lemma cerebellum_routed:
  assumes "router_handlers hs"
    and "route_to_cerebellum hs notice now from_id ws d general (Some (row_id i)) to_id author p = Inr (q, r)"
  shows "routed from_id ws i p q r"
proof -
  let ?msg = "turn_text_for_directive d general"
  obtain a p2 u p3 v x where 
    a1: "append_composer_message now ws (routed_message ''user'' ?msg (dir_target d) (Some (row_id i)) author)
        (fst (emit hs now a p)) = Inr (p2, u)"
    and a2: "append_composer_message now ws (routed_message ''assistant'' (template_reply notice (dir_target d))
        (dir_target d) (Some (row_id i)) None) p2 = Inr (p3, v)"
    and en: "enqueue_inject hs now (row_id i) ''cerebellum_route'' ''notify''
        [(''text'', JStr ?msg), (''target_entity'', opt_str (dir_target d)), (''from_membership_id'', JStr from_id)]
        (Some (take 200 ?msg)) p3 = Inr (q, x)"
    and r: "r = undelivered (str_or (dir_target d) []) ''routed_to_cerebellum'' (Some (row_id i))"
    using assms(2) by (auto simp: route_to_cerebellum_def Let_def split: sum.splits)
  note e = enqueue_routed [OF assms(1) disjI2 [OF refl] en]
  have "seats_frame p q"
    using emit_router(1) [OF assms(1)] append_frame(1) [OF a1] append_frame(1) [OF a2] e(5) by (meson seats_trans)
  moreover have "prefix (composer_messages p) (composer_messages q)"
    using append_frame(4) [OF a1] append_frame(4) [OF a2] e(7) assms(1)
    by (metis emit_quiet(2) prefix_order.trans router_quiet)
  moreover have "inject_queue q = inject_queue p @ [x]" "turns q = turns p"
    using append_frame(2,3) [OF a1] append_frame(2,3) [OF a2] e(1,6) assms(1) by simp_all
  ultimately show ?thesis
    using e(2-4) by (simp add: routed_def r undelivered_def queued_kinds_def queue_mark_def)
qed

lemma block_routed:
  assumes "router_handlers hs" and "block_delivery hs now from_id rt rid pl target (row_id i) p = (q, r)"
  shows "routed from_id ws i p q r"
  using assms(1) assms(2) [symmetric]
  by (simp add: block_delivery_def routed_def undelivered_def queued_kinds_def)

lemma deliver_routed:
  assumes "router_handlers hs" and "passage_open from_id ws (row_id i) p"
    and "deliver hs net now from_id ws d target general (row_id i) to_id psg p = Inr (q, r)"
  shows "routed from_id ws i p q r"
proof -
  obtain a p2 x mode tid cmd where
    en: "enqueue_inject hs now (row_id i) ''collab_inject'' mode
        [(''target_entity'', JStr target), (''cmd'', JStr (dir_cmd d)), (''args'', strs_json (dir_args d)),
         (''text'', JStr (turn_text_for_directive d general)), (''passage_id'', JStr psg)]
        (Some (take 200 (turn_text_for_directive d general))) (fst (emit hs now a p)) = Inr (p2, x)"
    and sc: "schedule_user_turn hs net now ws (row_id i) target (turn_text_for_directive d general) cmd from_id p2
        = Inr (q, tid)"
    and r: "r = \<lparr>dl_target_entity = target, dl_delivered = True, dl_reason = None,
                 dl_instance_id = Some (row_id i), dl_turn_id = Some tid\<rparr>"
    using assms(3) by (auto simp: deliver_def Let_def split: sum.splits)
  note e = enqueue_routed [OF assms(1) disjI1 [OF refl] en] and f = schedule_frame [OF assms(1) sc]
  have "seats_frame p q" using emit_router(1) [OF assms(1)] e(5) f(1) by (meson seats_trans)
  moreover have "prefix (composer_messages p) (composer_messages q)" using f(4) e(7) assms(1) by simp
  moreover have "inject_queue q = inject_queue p @ [x]" using f(2) e(1) assms(1) by simp
  moreover have "fst ` set (turns q) = insert tid (fst ` set (turns p))" using f(3) e(6) assms(1) by simp
  ultimately show ?thesis
    using e(2,3) assms(2) by (simp add: routed_def r queued_kinds_def queue_mark_def)
qed

lemma find_passage_open:
  assumes "find_active_passage_between (passages p) ws from_id (row_id m) = Some psg"
    and "m \<in> set (memberships p)" "live m" "mem_workspace_id m = ws" "mem_instance_id m = Some iid"
  shows "passage_open from_id ws iid p"
proof -
  obtain lo hi where lh: "normalize_endpoints from_id (row_id m) = (lo, hi)" by fastforce
  then have "{lo, hi} = {from_id, row_id m}" by (auto simp: normalize_endpoints_def split: if_splits)
  moreover have "psg \<in> set (passages p) \<and> active_in ws psg \<and> (ends psg = (lo, hi) \<or> ends psg = (hi, lo))"
    using assms(1) lh first_where_SomeD by (fastforce simp: find_active_passage_between_def)
  ultimately have "psg \<in> set (passages p) \<and> active_in ws psg \<and>
      {from_membership_id psg, to_membership_id psg} = {from_id, row_id m}"
    by (auto simp: ends_def)
  then show ?thesis using assms(2-) unfolding passage_open_def by blast
qed

lemma route_instance_routed:
  assumes "router_handlers hs"
    and "route_instance hs net notice now from_id ws d target general author is_user i p = Inr (q, r)"
  shows "routed from_id ws i p q r"
proof -
  let ?seats = "filter (\<lambda>m. mem_instance_id m = Some (row_id i) \<and> mem_workspace_id m = ws \<and> live m) (memberships p)"
  obtain found where s: "scalar_one_or_none ?seats = Inr found"
    using assms(2) by (auto simp: route_instance_def split: sum.splits)
  show ?thesis
  proof (cases found)
    case None
    with s assms show ?thesis
      by (cases is_user) (auto simp: route_instance_def intro: cerebellum_routed block_routed)
  next
    case (Some m)
    then have m: "m \<in> set (memberships p)" "live m" "mem_workspace_id m = ws" "mem_instance_id m = Some (row_id i)"
      using scalar_one_SomeD [of ?seats m] s by (auto dest!: single_filterD)
    show ?thesis
    proof (cases "find_active_passage_between (passages p) ws from_id (row_id m)")
      case None
      with s Some assms show ?thesis
        by (cases is_user) (auto simp: route_instance_def intro: cerebellum_routed block_routed)
    next
      case (Some psg)
      with s \<open>found = Some m\<close> assms show ?thesis
        using find_passage_open [OF Some m] by (auto simp: route_instance_def intro: deliver_routed)
    qed
  qed
qed

section \<open>All Instances of the target\<close>

lemma passage_open_frame: "seats_frame p q \<Longrightarrow> passage_open from_id ws iid q = passage_open from_id ws iid p"
  by (simp add: passage_open_def seats_frame_def)

definition all_routed ::
    "ident \<Rightarrow> ident \<Rightarrow> instance_row list \<Rightarrow> 'z process_scheme \<Rightarrow> 'z process_scheme \<Rightarrow> delivery list \<Rightarrow> bool" where
  "all_routed from_id ws targets p q rs \<longleftrightarrow>
     seats_frame p q \<and> prefix (composer_messages p) (composer_messages q) \<and>
     (\<exists>rows. inject_queue q = inject_queue p @ rows \<and> map queue_mark rows = concat (map queued_kinds rs)) \<and>
     fst ` set (turns q) = fst ` set (turns p) \<union> set (List.map_filter dl_turn_id rs) \<and>
     list_all2 (\<lambda>i d. dl_instance_id d = Some (row_id i) \<and> (dl_delivered d \<longleftrightarrow> dl_turn_id d \<noteq> None) \<and>
        (dl_delivered d \<longrightarrow> passage_open from_id ws (row_id i) p)) targets rs"

lemma route_instances_routed:
  "router_handlers hs \<Longrightarrow>
   route_instances (route_instance hs net notice now from_id ws d target general author is_user) targets p
     = Inr (q, rs) \<Longrightarrow> all_routed from_id ws targets p q rs"
proof (induction targets arbitrary: p rs)
  case Nil
  then show ?case by (simp add: all_routed_def)
next
  case (Cons i targets)
  let ?one = "route_instance hs net notice now from_id ws d target general author is_user"
  obtain p1 r rs' where one: "?one i p = Inr (p1, r)" and more: "route_instances ?one targets p1 = Inr (q, rs')"
    and rs: "rs = r # rs'"
    using Cons.prems(2) by (auto split: sum.splits)
  note h = route_instance_routed [OF Cons.prems(1) one] and t = Cons.IH [OF Cons.prems(1) more]
  have f: "seats_frame p p1" using h by (simp add: routed_def)
  obtain rows where r1: "inject_queue p1 = inject_queue p @ rows" "map queue_mark rows = queued_kinds r"
    using h by (auto simp: routed_def)
  obtain rows' where r2: "inject_queue q = inject_queue p1 @ rows'" "map queue_mark rows' = concat (map queued_kinds rs')"
    using t by (auto simp: all_routed_def)
  note rows = r1 r2
  have "fst ` set (turns q) = fst ` set (turns p) \<union> set (List.map_filter dl_turn_id rs)"
    using h t by (auto simp: routed_def all_routed_def rs split: option.splits)
  moreover have "inject_queue q = inject_queue p @ (rows @ rows')"
    "map queue_mark (rows @ rows') = concat (map queued_kinds rs)"
    using rows by (simp_all add: rs)
  ultimately show ?case
    using h t seats_trans [OF f] unfolding all_routed_def routed_def rs
    by (simp add: passage_open_frame [OF f]) (meson prefix_order.trans)
qed

lemma list_all2_right: "list_all2 P xs ys \<Longrightarrow> y \<in> set ys \<Longrightarrow> \<exists>x \<in> set xs. P x y"
  by (induction xs ys rule: list_all2_induct) auto

lemma route_message_cases:
  assumes "route_message hs net notice now from_id ws d general p = Inr (q, rs)"
  obtains (silent) "q = p" "list_all (\<lambda>r. \<not> dl_delivered r \<and> dl_turn_id r = None \<and> queued_kinds r = []) rs"
  | (routed) target ent targets where "dir_target d = Some target" "ent \<in> set (entities p)" "live ent"
      "ent_slug ent = target" "targets = active_instances (row_id ent) ws (instances p)"
      "route_instances (route_instance hs net notice now from_id ws d target general (sender_user from_id p)
         (sender_user from_id p \<noteq> None)) targets p = Inr (q, rs)"
proof (cases "dir_target d")
  case None
  with assms silent show ?thesis by (simp add: route_message_def)
next
  case (Some target)
  let ?es = "filter (\<lambda>e. ent_slug e = target \<and> live e) (entities p)"
  obtain found where f: "scalar_one_or_none ?es = Inr found"
    using assms Some by (auto simp: route_message_def split: sum.splits)
  show ?thesis
  proof (cases found)
    case None
    with f Some assms have "q = p" "rs = [undelivered target ''entity_not_found'' None]"
      by (auto simp: route_message_def)
    then show ?thesis by (intro silent) (simp_all add: undelivered_def queued_kinds_def)
  next
    case (Some ent)
    then have e: "ent \<in> set (entities p)" "ent_slug ent = target" "live ent"
      using scalar_one_SomeD [of ?es ent] f by (auto dest!: single_filterD)
    show ?thesis
    proof (cases "active_instances (row_id ent) ws (instances p) = []")
      case True
      with f Some \<open>dir_target d = Some target\<close> assms
      have "q = p" "rs = [undelivered target ''no_active_instance'' None]" by (auto simp: route_message_def)
      then show ?thesis by (intro silent) (simp_all add: undelivered_def queued_kinds_def)
    next
      case False
      with f Some \<open>dir_target d = Some target\<close> assms e routed show ?thesis
        by (simp add: route_message_def Let_def)
    qed
  qed
qed

section \<open>A sample routing store\<close>

text \<open>One person and one Instance of the Entity \<open>fox\<close>, joined by a Passage; \<open>owl\<close> has no seat.\<close>

definition sample_user :: user where
  "sample_user = \<lparr>row_id = ''u'', created_at = 0, updated_at = 0, deleted_at = None, username = ''ann'',
     nickname = None, email = ''ann@x'', password_hash = ''h'', is_super_admin = False\<rparr>"

definition sample_entity :: "ident \<Rightarrow> ident \<Rightarrow> string \<Rightarrow> entity" where
  "sample_entity eid ns sl = \<lparr>row_id = eid, created_at = 0, updated_at = 0, deleted_at = None,
     ent_namespace_id = ns, ent_name = sl, ent_slug = sl, preset_slug = None, display_name = None,
     display_color = None, system_prompt = None, config_override = None, has_knowledge = None,
     migration_hash = None, is_cerebellum = False\<rparr>"

definition owl :: instance_row where
  "owl = fox\<lparr>row_id := ''z'', ins_entity_id := ''f''\<rparr>"

definition sample_seat :: "ident \<Rightarrow> ident option \<Rightarrow> ident option \<Rightarrow> membership" where
  "sample_seat mid uid iid = \<lparr>row_id = mid, created_at = 0, updated_at = 0, deleted_at = None,
     mem_workspace_id = ''w'', mem_user_id = uid, mem_instance_id = iid, posx = 0, posy = 0,
     mem_permissions = None\<rparr>"

definition sample_passage :: passage where
  "sample_passage = \<lparr>row_id = ''p'', created_at = 0, updated_at = 0, deleted_at = None,
     psg_workspace_id = ''w'', from_membership_id = ''m'', to_membership_id = ''n'', is_active = True,
     psg_mode = ''bidirectional'', edge_meta = None\<rparr>"

definition routing_store :: process where
  "routing_store = sample_process\<lparr>users := [sample_user],
     entities := [sample_entity ''e'' ''s'' ''fox'', sample_entity ''f'' ''s'' ''owl''],
     instances := [fox, owl],
     memberships := [sample_seat ''m'' (Some ''u'') None, sample_seat ''n'' None (Some ''x'')],
     passages := [sample_passage]\<rparr>"

definition sample_call :: "string \<Rightarrow> directive" where
  "sample_call target = \<lparr>dir_target = Some target, dir_cmd = [], dir_args = [''go''], dir_ref = None, dir_raw = []\<rparr>"

definition routed_call :: "string \<Rightarrow> (process \<times> delivery list) result" where
  "routed_call target = route_message [] offline '' is not reachable'' 5 ''m'' ''w'' (sample_call target) None routing_store"

lemma sample_routed:
  obtains q r where "routed_call ''fox'' = Inr (q, [r])" "dl_delivered r" "dl_instance_id r = Some ''x''"
proof -
  have "case routed_call ''fox'' of Inr (q, rs) \<Rightarrow>
      map (\<lambda>r. (dl_delivered r, dl_instance_id r)) rs = [(True, Some ''x'')] | Inl e \<Rightarrow> False"
    by code_simp
  then show ?thesis using that by (auto split: sum.splits simp: map_eq_Cons_conv)
qed

text \<open>
  C13. The Passage gate: a directive is delivered to an Instance only if this is an active Instance,
  in the workspace, of the Entity named, seated in the workspace, and an active Passage joins the
  sender's seat to that seat.\<close>
theorem delivery_needs_passage:
  assumes "router_handlers hs" and "route_message hs net notice now from_id ws d general p = Inr (q, rs)"
    and "r \<in> set rs" and "dl_delivered r"
  shows "\<exists>i ent. dl_instance_id r = Some (row_id i) \<and> passage_open from_id ws (row_id i) p \<and>
    ent \<in> set (entities p) \<and> live ent \<and> dir_target d = Some (ent_slug ent) \<and>
    i \<in> set (active_instances (row_id ent) ws (instances p))"
  using assms(2)
proof (cases rule: route_message_cases)
  case silent
  with assms(3,4) show ?thesis by (auto simp: list_all_iff)
next
  case (routed target ent targets)
  have "all_routed from_id ws targets p q rs" by (rule route_instances_routed [OF assms(1) routed(6)])
  then obtain i where "i \<in> set targets" "dl_instance_id r = Some (row_id i)" "passage_open from_id ws (row_id i) p"
    using assms(3,4) by (auto simp: all_routed_def dest!: list_all2_right)
  with routed show ?thesis by blast
qed

theorem delivery_needs_passage_witness:
  "\<exists>q r. routed_call ''fox'' = Inr (q, [r]) \<and> dl_delivered r \<and> passage_open ''m'' ''w'' ''x'' routing_store"
proof -
  obtain q r where r: "routed_call ''fox'' = Inr (q, [r])" "dl_delivered r" "dl_instance_id r = Some ''x''"
    by (rule sample_routed)
  from delivery_needs_passage [OF router_Nil r(1) [unfolded routed_call_def], of r] r(2,3)
  have "passage_open ''m'' ''w'' ''x'' routing_store" by auto
  with r show ?thesis by blast
qed

lemma silent_sums:
  "list_all (\<lambda>r. \<not> dl_delivered r \<and> dl_turn_id r = None \<and> queued_kinds r = []) rs \<Longrightarrow>
   set (List.map_filter dl_turn_id rs) = {} \<and> concat (map queued_kinds rs) = []"
  by (auto simp: list_all_iff List.map_filter_def)

text \<open>
  C15. The account of a routed directive: in the order of the results, a delivery leaves one
  collaboration inject for its Instance and starts one turn, a message handed to the cerebellum
  leaves one \<open>cerebellum_route\<close> inject and no turn, and a block leaves neither; nothing else
  enters the inject queue or the turn table, and no transcript row is lost.\<close>
theorem route_message_account:
  assumes "router_handlers hs" and "route_message hs net notice now from_id ws d general p = Inr (q, rs)"
  shows "map queue_mark (inject_queue q) = map queue_mark (inject_queue p) @ concat (map queued_kinds rs) \<and>
    fst ` set (turns q) = fst ` set (turns p) \<union> set (List.map_filter dl_turn_id rs) \<and>
    list_all (\<lambda>r. dl_delivered r \<longleftrightarrow> dl_turn_id r \<noteq> None) rs \<and>
    prefix (composer_messages p) (composer_messages q) \<and> passages q = passages p \<and> memberships q = memberships p"
  using assms(2)
proof (cases rule: route_message_cases)
  case silent
  with silent_sums [OF silent(2)] show ?thesis by (auto simp: list_all_iff)
next
  case (routed target ent targets)
  have "all_routed from_id ws targets p q rs" by (rule route_instances_routed [OF assms(1) routed(6)])
  then show ?thesis
    by (auto simp: all_routed_def seats_frame_def list_all2_conv_all_nth list_all_length)
qed

theorem route_message_account_witness:
  "\<exists>q rs. routed_call ''owl'' = Inr (q, rs) \<and> turns q = [] \<and>
     map queue_mark (inject_queue q) = [(''z'', ''cerebellum_route'')]"
proof -
  have "case routed_call ''owl'' of Inr (q, rs) \<Rightarrow>
      map (\<lambda>r. (dl_instance_id r, dl_delivered r, dl_reason r, dl_turn_id r)) rs
        = [(Some ''z'', False, Some ''routed_to_cerebellum'', None)] | Inl e \<Rightarrow> False"
    by code_simp
  then obtain q r where r: "routed_call ''owl'' = Inr (q, [r])" "dl_instance_id r = Some ''z''" "\<not> dl_delivered r"
    "dl_reason r = Some ''routed_to_cerebellum''" "dl_turn_id r = None"
    by (auto split: sum.splits simp: Cons_eq_map_conv map_eq_Cons_conv)
  have "inject_queue routing_store = []" "turns routing_store = []" by code_simp+
  with route_message_account [OF router_Nil r(1) [unfolded routed_call_def]] r show ?thesis
    by (simp add: queued_kinds_def)
qed

section \<open>Routing does not fail\<close>

definition routable :: "'z process_scheme \<Rightarrow> bool" where
  "routable p \<longleftrightarrow> unique_on live ent_slug (entities p) \<and>
     uq_memberships_workspace_instance (memberships p) \<and> uq_loop_states_instance (loop_states p) \<and>
     list_all (\<lambda>m. opt_fk (users p) (mem_user_id m)) (memberships p)"

lemma routable_frame: "seats_frame p q \<Longrightarrow> routable p \<Longrightarrow> routable q"
  by (simp add: routable_def seats_frame_def)

lemma distinct_same_key:
  "distinct (map f xs) \<Longrightarrow> (\<And>x y. x \<in> set xs \<Longrightarrow> y \<in> set xs \<Longrightarrow> f x = f y) \<Longrightarrow> length xs \<le> 1"
proof (rule ccontr)
  assume d: "distinct (map f xs)" and same: "\<And>x y. x \<in> set xs \<Longrightarrow> y \<in> set xs \<Longrightarrow> f x = f y"
    and long: "\<not> length xs \<le> 1"
  from long obtain x y ys where xs: "xs = x # y # ys" by (cases xs; cases "tl xs") simp_all
  from same [of x y] d show False by (simp add: xs)
qed

lemma unique_on_length:
  assumes "unique_on P key rows" and "\<And>r s. Q r \<Longrightarrow> Q s \<Longrightarrow> P r \<and> P s \<and> key r = key s"
  shows "length (filter Q rows) \<le> 1"
proof -
  have "(\<lambda>r. P r \<and> Q r) = Q" using assms(2) by (intro ext) blast
  moreover have "distinct (map key (filter Q (filter P rows)))"
    using assms(1) unfolding unique_on_def by (rule distinct_map_filter)
  ultimately have "distinct (map key (filter Q rows))" by (simp only: filter_filter)
  moreover have "key r = key s" if "r \<in> set (filter Q rows)" "s \<in> set (filter Q rows)" for r s
    using that assms(2) [of r s] by simp
  ultimately show ?thesis by (rule distinct_same_key)
qed

text \<open>The text of a parsed directive has a tldr: its first 200 characters are not blank.\<close>

lemma turn_text_tldr:
  assumes "wf_directive d" and "turn_text_for_directive d general \<noteq> []"
  shows "strip (take 200 (turn_text_for_directive d general)) \<noteq> []"
proof -
  let ?t = "turn_text_for_directive d general"
  have "(\<exists>s. ?t = strip s) \<or> ?t = dir_cmd d"
    unfolding turn_text_for_directive_def Let_def by (auto split: if_split)
  then have "(\<exists>s. ?t = strip s) \<or> ?t = dir_cmd d \<and> dir_cmd d \<noteq> []" using assms(2) by metis
  then consider s where "?t = strip s" | "?t = dir_cmd d" "dir_cmd d \<noteq> []" by blast
  then show ?thesis
  proof cases
    case (1 s)
    with assms(2) show ?thesis using strip_take_nonempty [of s 200] by simp
  next
    case 2
    then have "cmd_ok (dir_cmd d)" using assms(1) by (simp add: wf_directive_def)
    then obtain u where "dir_cmd d = CHR ''/'' # u" by (cases "dir_cmd d" rule: cmd_ok.cases) auto
    with 2 show ?thesis by (auto simp: strip_empty_iff)
  qed
qed

lemma enqueue_text_ok:
  assumes "kind = ''collab_inject'' \<or> kind = ''cerebellum_route''"
    and "mode = ''notify'' \<or> mode = ''soft_inject'' \<or> mode = ''wake''"
    and "fk_exists (instances p) iid" and "wf_directive d"
    and "msg = turn_text_for_directive d general"
    and "jget payload ''text'' = Some (JStr msg)" "jget payload ''body'' = None" "jget payload ''report'' = None"
  obtains q r where "enqueue_inject hs now iid kind mode payload (Some (take 200 msg)) p = Inr (q, r)"
proof -
  have "compute_prose_length payload = length msg"
    using assms(6-8) by (simp add: compute_prose_length_def text_length_def report_prose_length_def)
  moreover have "msg \<noteq> [] \<Longrightarrow> strip (take 200 msg) \<noteq> []" using turn_text_tldr assms(4,5) by simp
  then have "240 < length msg \<Longrightarrow> take 200 msg \<noteq> [] \<and> strip (take 200 msg) \<noteq> []" by (cases msg) auto
  ultimately have "is_ok (enqueue_inject hs now iid kind mode payload (Some (take 200 msg)) p)"
    using assms(1-3)
    by (auto simp: enqueue_inject_def inject_enqueue_request_def validate_tldr_def Let_def INJECT_KINDS_def
        DELIVERY_MODES_def TLDR_MAX_CHARS_def PROSE_THRESHOLD_CHARS_def report_prose_length_def)
  then show ?thesis using that by (auto elim!: is_okE)
qed

lemma append_total:
  assumes "opt_fk (instances p) (ma_instance_id a)" "opt_fk (users p) (ma_author a)"
  obtains q m where "append_composer_message now ws a p = Inr (q, m)"
  using assms by (cases "get_live (workspaces p) ws") (auto simp: append_composer_message_def Let_def)

lemma cerebellum_total:
  assumes "router_handlers hs" "wf_directive d" "i \<in> set (instances p)" "opt_fk (users p) author"
  shows "is_ok (route_to_cerebellum hs notice now from_id ws d general (Some (row_id i)) to_id author p)"
proof -
  let ?msg = "turn_text_for_directive d general"
  let ?payload = "[(''text'', JStr ?msg), (''target_entity'', opt_str (dir_target d)), (''from_membership_id'', JStr from_id)]"
  have fk: "fk_exists (instances q) (row_id i)" "opt_fk (users q) author" if "seats_frame p q" for q :: "'a process_scheme"
    using that assms(3,4) by (auto simp: seats_frame_def fk_exists_def list_ex_iff)
  have "\<exists>q r. append_composer_message now ws (routed_message role content (dir_target d) (Some (row_id i)) u) p1 = Inr (q, r)
      \<and> seats_frame p q" if s1: "seats_frame p p1" and u: "u = author \<or> u = None" for role content u and p1 :: "'a process_scheme"
  proof -
    obtain q r where "append_composer_message now ws (routed_message role content (dir_target d) (Some (row_id i)) u) p1 = Inr (q, r)"
      by (rule append_total [of p1 "routed_message role content (dir_target d) (Some (row_id i)) u"])
        (use fk [OF s1] u in \<open>auto simp: routed_message_def opt_fk_def\<close>)
    with append_frame(1) [OF this] s1 show ?thesis by (blast intro: seats_trans)
  qed
  note app = this
  have "is_ok (enqueue_inject hs now (row_id i) ''cerebellum_route'' ''notify'' ?payload (Some (take 200 ?msg)) q)"
    if s2: "seats_frame p q" for q :: "'a process_scheme"
  proof -
    obtain q' r where "enqueue_inject hs now (row_id i) ''cerebellum_route'' ''notify'' ?payload (Some (take 200 ?msg)) q = Inr (q', r)"
      by (rule enqueue_text_ok [of "''cerebellum_route''" "''notify''" q "row_id i" d ?msg general ?payload])
        (use fk [OF s2] assms(2) in auto)
    then show ?thesis by simp
  qed
  note enq = this
  let ?p1 = "fst (emit hs now (membership_event MESSAGING_DELIVERY_BLOCKED from_id
                 (if truthy (Some (row_id i)) then ''instance'' else ''workspace'') (str_or (Some (row_id i)) ws)
                 [(''target_entity'', opt_str (dir_target d)), (''cmd'', JStr (dir_cmd d)),
                  (''workspace_id'', JStr ws), (''instance_id'', opt_str (Some (row_id i))),
                  (''to_membership_id'', opt_str to_id),
                  (''reason_detail'', JStr ''routed_to_cerebellum''), (''text'', JStr ?msg)]) p)"
  obtain p2 u where p2: "append_composer_message now ws (routed_message ''user'' ?msg (dir_target d) (Some (row_id i)) author) ?p1
      = Inr (p2, u)" "seats_frame p p2"
    using app [OF emit_router(1) [OF assms(1)]] by blast
  obtain p3 v where p3: "append_composer_message now ws (routed_message ''assistant'' (template_reply notice (dir_target d))
      (dir_target d) (Some (row_id i)) None) p2 = Inr (p3, v)" "seats_frame p p3"
    using app [OF p2(2)] by blast
  from enq [OF p3(2)] show ?thesis
    using p2(1) p3(1) by (auto simp: route_to_cerebellum_def Let_def split: sum.split elim!: is_okE)
qed

lemma author_fk:
  assumes "routable p" "first_where P (memberships p) = Some m"
  shows "opt_fk (users p) (mem_user_id m)"
  using assms first_where_SomeD [OF assms(2)] by (auto simp: routable_def list_all_iff)

lemma sender_fk: "routable p \<Longrightarrow> opt_fk (users p) (sender_user from_id p)"
  by (auto simp: sender_user_def get_live_def opt_fk_def [of _ None] author_fk split: option.split)

lemma schedule_total:
  assumes "routable p" "fk_exists (instances p) iid"
  shows "is_ok (schedule_user_turn hs net now ws iid target t cmd from_id p)"
proof -
  let ?author = "case first_where (\<lambda>m. row_id m = from_id) (memberships p) of None \<Rightarrow> None | Some m \<Rightarrow> mem_user_id m"
  have a: "opt_fk (users p) ?author"
  proof (cases "first_where (\<lambda>m. row_id m = from_id) (memberships p)")
    case (Some m)
    with author_fk [OF assms(1) Some] show ?thesis by simp
  qed (simp add: opt_fk_def)
  have fk: "fk_exists (instances (take_id p)) iid" "opt_fk (users (take_id p)) ?author"
    using a assms(2) by (simp_all add: take_id_def)
  obtain p1 u where p1: "append_composer_message now ws
      (turn_message ''user'' t target iid (new_id p) ''completed'' ?author) (take_id p) = Inr (p1, u)"
    by (rule append_total [of "take_id p" "turn_message ''user'' t target iid (new_id p) ''completed'' ?author"])
      (use fk in \<open>simp_all add: turn_message_def opt_fk_def [of _ "Some iid"]\<close>)
  have "fk_exists (instances p1) iid"
    using append_frame(1) [OF p1] assms(2) by (simp add: seats_frame_def take_id_def)
  note fk1 = this
  obtain p2 v where p2: "append_composer_message now ws
      (turn_message ''assistant'' [] target iid (new_id p) ''responding'' None) p1 = Inr (p2, v)"
    by (rule append_total [of p1 "turn_message ''assistant'' [] target iid (new_id p) ''responding'' None"])
      (use fk1 in \<open>simp_all add: turn_message_def opt_fk_def\<close>)
  show ?thesis using p1 p2 by (simp add: schedule_user_turn_def Let_def)
qed

lemma mode_total:
  assumes "routable p"
  obtains mode where "delivery_mode_for_instance iid p = Inr mode" "mode = ''soft_inject'' \<or> mode = ''wake''"
proof -
  have "length (filter (\<lambda>st. ls_instance_id st = iid \<and> live st) (loop_states p)) \<le> 1"
    by (rule unique_on_length [of live ls_instance_id])
      (use assms in \<open>auto simp: routable_def uq_loop_states_instance_def\<close>)
  from scalar_one_ok [OF this] obtain st
    where "scalar_one_or_none (filter (\<lambda>st. ls_instance_id st = iid \<and> live st) (loop_states p)) = Inr st"
    by (auto elim: is_okE)
  then show ?thesis using that by (cases st) (auto simp: delivery_mode_for_instance_def)
qed

lemma deliver_total:
  assumes "router_handlers hs" "routable p" "wf_directive d" "i \<in> set (instances p)"
  shows "is_ok (deliver hs net now from_id ws d target general (row_id i) to_id psg p)"
proof -
  let ?msg = "turn_text_for_directive d general"
  let ?payload = "[(''target_entity'', JStr target), (''cmd'', JStr (dir_cmd d)), (''args'', strs_json (dir_args d)),
         (''text'', JStr ?msg), (''passage_id'', JStr psg)]"
  have fk: "fk_exists (instances q) (row_id i)" if "seats_frame p q" for q :: "'a process_scheme"
    using that assms(4) by (auto simp: seats_frame_def fk_exists_def list_ex_iff)
  have steps: "is_ok (case delivery_mode_for_instance (row_id i) p1 of
           Inl e \<Rightarrow> Inl e
         | Inr mode \<Rightarrow>
            (case enqueue_inject hs now (row_id i) ''collab_inject'' mode ?payload (Some (take 200 ?msg)) p1 of
               Inl e \<Rightarrow> Inl e
             | Inr (p2, _) \<Rightarrow>
                (case schedule_user_turn hs net now ws (row_id i) target ?msg cmd from_id p2 of
                   Inl e \<Rightarrow> Inl e | Inr (p3, tid) \<Rightarrow> Inr (f p3 tid))))"
    if s1: "seats_frame p p1" for p1 :: "'a process_scheme" and cmd and f :: "_ \<Rightarrow> _ \<Rightarrow> 'b"
  proof -
    obtain mode where mode: "delivery_mode_for_instance (row_id i) p1 = Inr mode" "mode = ''soft_inject'' \<or> mode = ''wake''"
      using mode_total [OF routable_frame [OF s1 assms(2)]] .
    obtain p2 r where p2: "enqueue_inject hs now (row_id i) ''collab_inject'' mode ?payload (Some (take 200 ?msg)) p1 = Inr (p2, r)"
      by (rule enqueue_text_ok [of "''collab_inject''" mode p1 "row_id i" d ?msg general ?payload])
        (use fk [OF s1] assms(3) mode(2) in auto)
    have s2: "seats_frame p p2"
      using seats_trans [OF s1 enqueue_routed(5) [OF assms(1) _ p2]] by simp
    have "is_ok (schedule_user_turn hs net now ws (row_id i) target ?msg cmd from_id p2)"
      by (rule schedule_total [OF routable_frame [OF s2 assms(2)] fk [OF s2]])
    with mode(1) p2 show ?thesis by (auto elim!: is_okE)
  qed
  show ?thesis unfolding deliver_def Let_def by (rule steps) (rule emit_router(1) [OF assms(1)])
qed

lemma route_instance_total:
  assumes "router_handlers hs" "routable p" "wf_directive d" "i \<in> set (instances p)"
    and "opt_fk (users p) author"
  shows "is_ok (route_instance hs net notice now from_id ws d target general author is_user i p)"
proof -
  let ?seats = "filter (\<lambda>m. mem_instance_id m = Some (row_id i) \<and> mem_workspace_id m = ws \<and> live m) (memberships p)"
  have "length ?seats \<le> 1"
    by (rule unique_on_length [of "\<lambda>m. live m \<and> mem_instance_id m \<noteq> None" "\<lambda>m. (mem_workspace_id m, mem_instance_id m)"])
      (use assms in \<open>auto simp: routable_def uq_memberships_workspace_instance_def\<close>)
  from scalar_one_ok [OF this] obtain found where "scalar_one_or_none ?seats = Inr found" by (auto elim: is_okE)
  then show ?thesis
    using cerebellum_total [OF assms(1,3,4,5)] deliver_total [OF assms(1-4)]
    by (cases found) (auto simp: route_instance_def split: option.split)
qed

lemma route_instances_total:
  "router_handlers hs \<Longrightarrow> routable p \<Longrightarrow> wf_directive d \<Longrightarrow> set targets \<subseteq> set (instances p) \<Longrightarrow>
   opt_fk (users p) author \<Longrightarrow>
   is_ok (route_instances (route_instance hs net notice now from_id ws d target general author is_user) targets p)"
proof (induction targets arbitrary: p)
  case (Cons i targets)
  obtain p1 r where one: "route_instance hs net notice now from_id ws d target general author is_user i p = Inr (p1, r)"
    using route_instance_total [OF Cons.prems(1-3) _ Cons.prems(5)] Cons.prems(4) by (force elim!: is_okE)
  have f: "seats_frame p p1" using route_instance_routed [OF Cons.prems(1) one] by (simp add: routed_def)
  have "is_ok (route_instances (route_instance hs net notice now from_id ws d target general author is_user) targets p1)"
    by (rule Cons.IH [OF Cons.prems(1) routable_frame [OF f Cons.prems(2)] Cons.prems(3)])
      (use f Cons.prems(4,5) in \<open>auto simp: seats_frame_def\<close>)
  with one show ?case by (auto elim!: is_okE)
qed simp

text \<open>
  Routing does not fail: on a store that keeps its unique indexes and foreign keys, and in which
  no two live Entities share a slug, every directive of the parser is routed to a list of results:
  no text is refused by the inject queue, whatever its length, and no lookup finds two rows.\<close>
theorem route_message_total:
  assumes "router_handlers hs" and "routable p" and "wf_directive d"
  shows "is_ok (route_message hs net notice now from_id ws d general p)"
proof (cases "dir_target d")
  case (Some target)
  let ?es = "filter (\<lambda>e. ent_slug e = target \<and> live e) (entities p)"
  have "length ?es \<le> 1"
    by (rule unique_on_length [of live ent_slug]) (use assms(2) in \<open>auto simp: routable_def\<close>)
  from scalar_one_ok [OF this] obtain found where f: "scalar_one_or_none ?es = Inr found" by (auto elim: is_okE)
  have "set (active_instances e ws (instances p)) \<subseteq> set (instances p)" for e by (auto simp: active_instances_def)
  from route_instances_total [OF assms this sender_fk [OF assms(2)]] f Some
  show ?thesis by (cases found) (auto simp: route_message_def Let_def)
qed (simp add: route_message_def)

theorem route_message_total_witness: "is_ok (routed_call ''owl'')"
proof -
  have "routable routing_store" "wf_directive (sample_call ''owl'')" by code_simp+
  from route_message_total [OF router_Nil this] show ?thesis by (simp add: routed_call_def)
qed

text \<open>
  The slug of a target is looked up across all Namespaces: as soon as two live Entities share it,
  in whatever Namespaces, every directive to that slug ends in an unhandled error, whichever
  workspace it was written in.\<close>
theorem shared_slug_fails:
  assumes "dir_target d = Some target"
    and "filter (\<lambda>e. ent_slug e = target \<and> live e) (entities p) = e1 # e2 # es"
  shows "route_message hs net notice now from_id ws d general p = Inl unhandled_error"
  using assms by (simp add: route_message_def)

theorem shared_slug_fails_witness:
  "let p = routing_store\<lparr>entities := [sample_entity ''e'' ''s'' ''fox'', sample_entity ''f'' ''t'' ''fox'']\<rparr>
   in uq_entities_namespace_slug (entities p) \<and>
      route_message [] offline [] 5 ''m'' ''w'' (sample_call ''fox'') None p = Inl unhandled_error"
proof -
  let ?p = "routing_store\<lparr>entities := [sample_entity ''e'' ''s'' ''fox'', sample_entity ''f'' ''t'' ''fox'']\<rparr>"
  have "uq_entities_namespace_slug (entities ?p)" by code_simp
  moreover have "route_message [] offline [] 5 ''m'' ''w'' (sample_call ''fox'') None ?p = Inl unhandled_error"
    by (rule shared_slug_fails [of _ "''fox''" _ "sample_entity ''e'' ''s'' ''fox''" "sample_entity ''f'' ''t'' ''fox''" "[]"])
      (simp_all add: sample_call_def sample_entity_def live_def)
  ultimately show ?thesis by (simp add: Let_def)
qed

end
