(* ===== verification/Link_Table.thy ===== *)
theory Link_Table
  imports Models
begin

text \<open>
  Junction tables. Every N:N link of the backend is attached and detached in the same way: look up
  the live row of the pair, insert one if there is none, soft-delete it on removal. The theory holds
  that pattern over an arbitrary table of the store, the contract of a link table as a locale (a set
  of pairs under insertion and removal), and the proof that the pattern keeps the contract.
\<close>

section \<open>The pattern\<close>

text \<open>The foreign keys of a new row are checked when it is flushed.\<close>

definition find_link :: "('x base_row_scheme \<Rightarrow> 'k) \<Rightarrow> 'k \<Rightarrow> 'x base_row_scheme list
    \<Rightarrow> 'x base_row_scheme option result" where
  "find_link key k rows = scalar_one_or_none (filter (\<lambda>x. key x = k \<and> live x) rows)"

definition attach_link ::
    "('z db_scheme \<Rightarrow> 'x base_row_scheme list)
     \<Rightarrow> (('x base_row_scheme list \<Rightarrow> 'x base_row_scheme list) \<Rightarrow> 'z db_scheme \<Rightarrow> 'z db_scheme)
     \<Rightarrow> ('x base_row_scheme \<Rightarrow> 'k) \<Rightarrow> (ident \<Rightarrow> timestamp \<Rightarrow> 'k \<Rightarrow> 'x base_row_scheme)
     \<Rightarrow> ('k \<Rightarrow> 'z db_scheme \<Rightarrow> bool) \<Rightarrow> timestamp \<Rightarrow> 'k \<Rightarrow> 'z db_scheme \<Rightarrow> 'z db_scheme result" where
  "attach_link get upd key row refs now k s =
     (case find_link key k (get s) of
        Inl e \<Rightarrow> Inl e
      | Inr (Some _) \<Rightarrow> Inr s
      | Inr None \<Rightarrow>
          if refs k s then Inr (upd (\<lambda>rows. rows @ [row (new_id s) now k]) (take_id s))
          else Inl unhandled_error)"

definition detach_link ::
    "('z db_scheme \<Rightarrow> 'x base_row_scheme list)
     \<Rightarrow> (('x base_row_scheme list \<Rightarrow> 'x base_row_scheme list) \<Rightarrow> 'z db_scheme \<Rightarrow> 'z db_scheme)
     \<Rightarrow> ('x base_row_scheme \<Rightarrow> 'k) \<Rightarrow> eyot_error \<Rightarrow> timestamp \<Rightarrow> 'k \<Rightarrow> 'z db_scheme \<Rightarrow> 'z db_scheme result" where
  "detach_link get upd key missing now k s =
     (case find_link key k (get s) of
        Inl e \<Rightarrow> Inl e
      | Inr None \<Rightarrow> Inl missing
      | Inr (Some x) \<Rightarrow> Inr (upd (update_where (\<lambda>y. row_id y = row_id x) (soft_delete now)) s))"

text \<open>The pairs a table links, and sequences of commands.\<close>

definition links :: "('x base_row_scheme \<Rightarrow> 'k) \<Rightarrow> 'x base_row_scheme list \<Rightarrow> 'k set" where
  "links key rows = key ` set (filter live rows)"

lemma in_if_list: "x \<in> set (if P then [a] else []) \<longleftrightarrow> P \<and> x = a"
  by auto

lemma in_links: "k \<in> links key rows \<longleftrightarrow> (\<exists>x \<in> set rows. live x \<and> key x = k)"
  by (auto simp: links_def)

datatype 'k link_cmd = Attach 'k | Detach 'k

definition keep_state :: "'s \<Rightarrow> 's result \<Rightarrow> 's" where
  "keep_state s res = (case res of Inl _ \<Rightarrow> s | Inr s' \<Rightarrow> s')"

fun link_step :: "(timestamp \<Rightarrow> 'k \<Rightarrow> 's \<Rightarrow> 's result) \<Rightarrow> (timestamp \<Rightarrow> 'k \<Rightarrow> 's \<Rightarrow> 's result)
    \<Rightarrow> timestamp \<times> 'k link_cmd \<Rightarrow> 's \<Rightarrow> 's" where
  "link_step attach detach (now, Attach k) s = keep_state s (attach now k s)"
| "link_step attach detach (now, Detach k) s = keep_state s (detach now k s)"

fun set_step :: "timestamp \<times> 'k link_cmd \<Rightarrow> 'k set \<Rightarrow> 'k set" where
  "set_step (now, Attach k) K = insert k K"
| "set_step (now, Detach k) K = K - {k}"

fun cmd_key :: "timestamp \<times> 'k link_cmd \<Rightarrow> 'k" where
  "cmd_key (now, Attach k) = k"
| "cmd_key (now, Detach k) = k"

section \<open>The contract\<close>

locale link_table =
  fixes ok :: "'s \<Rightarrow> bool"
    and linked :: "'s \<Rightarrow> 'k set"
    and legal :: "'k \<Rightarrow> 's \<Rightarrow> bool"
    and attach :: "timestamp \<Rightarrow> 'k \<Rightarrow> 's \<Rightarrow> 's result"
    and detach :: "timestamp \<Rightarrow> 'k \<Rightarrow> 's \<Rightarrow> 's result"
    and missing :: eyot_error
  assumes attach_linked: "ok s \<Longrightarrow> k \<in> linked s \<Longrightarrow> attach now k s = Inr s"
    and attach_new: "ok s \<Longrightarrow> legal k s \<Longrightarrow>
      \<exists>s'. attach now k s = Inr s' \<and> ok s' \<and> linked s' = insert k (linked s) \<and> (\<forall>j. legal j s' = legal j s)"
    and detach_linked: "ok s \<Longrightarrow> k \<in> linked s \<Longrightarrow>
      \<exists>s'. detach now k s = Inr s' \<and> ok s' \<and> linked s' = linked s - {k} \<and> (\<forall>j. legal j s' = legal j s)"
    and detach_missing: "ok s \<Longrightarrow> k \<notin> linked s \<Longrightarrow> detach now k s = Inl missing"
begin

lemma attach_twice:
  assumes "ok s" "legal k s"
  shows "attach now' k (keep_state s (attach now k s)) = Inr (keep_state s (attach now k s))"
  using attach_new [OF assms, of now] attach_linked by (auto simp: keep_state_def)

lemma step_refines:
  assumes "ok s" "legal (cmd_key c) s"
  shows "ok (link_step attach detach c s)" "linked (link_step attach detach c s) = set_step c (linked s)"
    "legal j (link_step attach detach c s) = legal j s"
proof -
  have "ok (link_step attach detach c s) \<and> linked (link_step attach detach c s) = set_step c (linked s) \<and>
    legal j (link_step attach detach c s) = legal j s"
  proof (cases c rule: cmd_key.cases)
    case (1 now k)
    with attach_new [of s k now] assms show ?thesis by (auto simp: keep_state_def)
  next
    case (2 now k)
    with detach_linked [of s k now] detach_missing [of s k now] assms show ?thesis
      by (cases "k \<in> linked s") (auto simp: keep_state_def)
  qed
  then show "ok (link_step attach detach c s)" "linked (link_step attach detach c s) = set_step c (linked s)"
    "legal j (link_step attach detach c s) = legal j s" by blast+
qed

lemma run_refines:
  "ok s \<Longrightarrow> list_all (\<lambda>c. legal (cmd_key c) s) cs \<Longrightarrow>
   ok (fold (link_step attach detach) cs s) \<and>
   linked (fold (link_step attach detach) cs s) = fold set_step cs (linked s)"
proof (induction cs arbitrary: s)
  case (Cons c cs)
  then have "ok s" "legal (cmd_key c) s" by simp_all
  note st = step_refines [OF this]
  from Cons.prems have "list_all (\<lambda>c. legal (cmd_key c) (link_step attach detach c0 s)) cs" if "c0 = c" for c0
    using st(3) that by (simp add: list_all_iff)
  from Cons.IH [OF st(1) this [OF refl]] show ?case by (simp add: st(2))
qed simp

end

section \<open>The pattern keeps the contract\<close>

definition links_ok :: "('x base_row_scheme \<Rightarrow> 'k) \<Rightarrow> ('z db_scheme \<Rightarrow> 'x base_row_scheme list) \<Rightarrow> 'z db_scheme \<Rightarrow> bool" where
  "links_ok key get s \<longleftrightarrow> inj (id_source s) \<and> unique_on live key (get s) \<and>
     distinct (map row_id (get s)) \<and> row_id ` set (get s) \<subseteq> used_ids s"

lemma unique_filter_key:
  assumes "unique_on live key rows"
  shows "filter (\<lambda>x. key x = k \<and> live x) rows = [] \<and> k \<notin> links key rows \<or>
         (\<exists>x. filter (\<lambda>x. key x = k \<and> live x) rows = [x] \<and> x \<in> set rows \<and> key x = k \<and> live x \<and> k \<in> links key rows)"
  using assms
proof (induction rows)
  case (Cons r rows)
  then show ?case
    by (cases "live r"; cases "key r = k") (auto simp: links_def filter_empty_conv image_iff)
qed (simp add: links_def)

lemma find_link_cases:
  assumes "unique_on live key rows"
  obtains (none) "find_link key k rows = Inr None" "k \<notin> links key rows"
  | (one) x where "find_link key k rows = Inr (Some x)" "x \<in> set rows" "key x = k" "live x" "k \<in> links key rows"
  using unique_filter_key [OF assms, of k] by (auto simp: find_link_def)

lemma links_append: "links key (rows @ [x]) = (if live x then insert (key x) (links key rows) else links key rows)"
  by (auto simp: links_def)

lemma links_detach:
  assumes "unique_on live key rows" "distinct (map row_id rows)" "x \<in> set rows" "live x"
  shows "links key (update_where (\<lambda>y. row_id y = row_id x) (soft_delete now) rows) = links key rows - {key x}"
proof -
  have same: "y = x" if "y \<in> set rows" "row_id y = row_id x" for y
    using that assms(2,3) by (meson inj_on_contraD distinct_map)
  have "filter live (update_where (\<lambda>y. row_id y = row_id x) (soft_delete now) rows)
      = filter (\<lambda>y. live y \<and> row_id y \<noteq> row_id x) rows"
    by (induction rows) auto
  moreover have "key y \<noteq> key x" if "y \<in> set rows" "live y" "row_id y \<noteq> row_id x" for y
    using unique_onD [OF assms(1) that(1) assms(3) that(2) assms(4)] that(3) by auto
  ultimately show ?thesis using assms(3,4) same by (auto simp: links_def)
qed

locale junction =
  fixes get :: "'z db_scheme \<Rightarrow> 'x base_row_scheme list"
    and upd :: "('x base_row_scheme list \<Rightarrow> 'x base_row_scheme list) \<Rightarrow> 'z db_scheme \<Rightarrow> 'z db_scheme"
    and key :: "'x base_row_scheme \<Rightarrow> 'k"
    and row :: "ident \<Rightarrow> timestamp \<Rightarrow> 'k \<Rightarrow> 'x base_row_scheme"
    and refs :: "'k \<Rightarrow> 'z db_scheme \<Rightarrow> bool"
  assumes get_upd: "get (upd f s) = f (get s)"
    and get_take: "get (take_id s) = get s"
    and ids_upd: "id_source (upd f s) = id_source s" "id_next (upd f s) = id_next s"
    and refs_upd: "refs k (upd f s) = refs k s"
    and refs_take: "refs k (take_id s) = refs k s"
    and row_fields: "row_id (row i now k) = i" "live (row i now k)" "key (row i now k) = k"
    and key_deleted: "key (soft_delete now x) = key x"
begin

lemma used_upd: "used_ids (upd f s) = used_ids s"
  by (simp add: used_ids_def ids_upd)

lemma ok_attach:
  assumes "links_ok key get s" "k \<notin> links key (get s)"
  shows "links_ok key get (upd (\<lambda>rows. rows @ [row (new_id s) now k]) (take_id s))"
proof -
  have "new_id s \<notin> row_id ` set (get s)"
    using assms(1) new_id_fresh [of s] by (auto simp: links_ok_def)
  moreover have "\<forall>x \<in> set (get s). live x \<longrightarrow> k \<noteq> key x" using assms(2) by (auto simp: links_def)
  ultimately show ?thesis
    using assms(1) by (auto simp: links_ok_def get_upd get_take used_upd ids_upd unique_on_append row_fields)
qed

lemma ok_detach:
  assumes "links_ok key get s"
  shows "links_ok key get (upd (update_where P (soft_delete now)) s)"
proof -
  have "unique_on live key (update_where P (soft_delete now) (get s))"
    using assms by (intro unique_on_update) (auto simp: links_ok_def)
  moreover have "map row_id (update_where P (soft_delete now) (get s)) = map row_id (get s)"
    by (simp add: map_update_where)
  moreover from this have "row_id ` set (update_where P (soft_delete now) (get s)) = row_id ` set (get s)"
    by (metis list.set_map)
  ultimately show ?thesis using assms by (simp add: links_ok_def get_upd used_upd ids_upd)
qed

end

sublocale junction \<subseteq> link_table "links_ok key get" "\<lambda>s. links key (get s)" refs
    "attach_link get upd key row refs" "detach_link get upd key missing" missing for missing
proof
  fix s k now
  assume ok: "links_ok key get s"
  then have u: "unique_on live key (get s)" "distinct (map row_id (get s))" by (simp_all add: links_ok_def)
  show "attach_link get upd key row refs now k s = Inr s" if "k \<in> links key (get s)"
    using that by (cases rule: find_link_cases [OF u(1), of k]) (auto simp: attach_link_def)
  show "\<exists>s'. attach_link get upd key row refs now k s = Inr s' \<and> links_ok key get s' \<and>
      links key (get s') = insert k (links key (get s)) \<and> (\<forall>j. refs j s' = refs j s)" if "refs k s"
    using that ok ok_attach [OF ok, of k now]
    by (cases rule: find_link_cases [OF u(1), of k])
      (auto simp: attach_link_def get_upd get_take links_append row_fields refs_upd refs_take)
  show "\<exists>s'. detach_link get upd key missing now k s = Inr s' \<and> links_ok key get s' \<and>
      links key (get s') = links key (get s) - {k} \<and> (\<forall>j. refs j s' = refs j s)" if "k \<in> links key (get s)"
    using that ok_detach [OF ok] links_detach [OF u]
    by (cases rule: find_link_cases [OF u(1), of k]) (auto simp: detach_link_def get_upd refs_upd)
  show "detach_link get upd key missing now k s = Inl missing" if "k \<notin> links key (get s)"
    using that by (cases rule: find_link_cases [OF u(1), of k]) (auto simp: detach_link_def)
qed

end
