(* ===== verification/Permissions.thy ===== *)
theory Permissions
  imports Link_Table
begin

text \<open>
  Authorisation: atomic permissions granted by contracts (\<^verbatim>\<open>app/core/permissions.py\<close>,
  \<^verbatim>\<open>app/core/org_contract.py\<close>), the organization a caller acts in and the scope of a resource
  (\<^verbatim>\<open>app/core/org_scope.py\<close>, \<^verbatim>\<open>app/core/scope_guard.py\<close>). A check returns unit or the error it
  raises.
\<close>

section \<open>Permissions (core/permissions.py)\<close>

record current_user =
  cu_user_id :: ident
  cu_is_super_admin :: bool
  cu_token :: "string option"

definition resolve_org_ns ::
    "ident option \<Rightarrow> ident option \<Rightarrow> ident option \<Rightarrow> 'z db_scheme \<Rightarrow> (ident option \<times> ident option) result" where
  "resolve_org_ns org ns ws s =
     (case (case ws of
              None \<Rightarrow> Inr ns
            | Some w \<Rightarrow>
                (case get_live (workspaces s) w of
                   None \<Rightarrow> Inl (NotFoundError ''workspace.not_found'' ''errors.workspace.not_found'')
                 | Some wr \<Rightarrow> Inr (if ns = None then Some (ws_namespace_id wr) else ns))) of
        Inl e \<Rightarrow> Inl e
      | Inr ns_id \<Rightarrow>
         (case (case ns_id of
                  None \<Rightarrow> Inr None
                | Some n \<Rightarrow>
                    (case get_live (namespaces s) n of
                       None \<Rightarrow> Inl (NotFoundError ''namespace.not_found'' ''errors.namespace.not_found'')
                     | Some nr \<Rightarrow> Inr (Some (ns_org_id nr)))) of
            Inl e \<Rightarrow> Inl e
          | Inr owner \<Rightarrow>
              if org \<noteq> None \<and> owner \<noteq> None \<and> org \<noteq> owner
              then Inl (ForbiddenError ''organization.mismatch'' ''errors.organization.mismatch'')
              else Inr (if truthy owner then owner else org, ns_id)))"

text \<open>The joins of contracts, their gene rows and the genes, as the lists of the selected slugs.\<close>

definition org_slugs :: "(organization_contract \<Rightarrow> bool) \<Rightarrow> 'z db_scheme \<Rightarrow> string list" where
  "org_slugs P s = [ug_slug g. c \<leftarrow> organization_contracts s, cg \<leftarrow> organization_contract_genes s,
     g \<leftarrow> user_genes s, P c \<and> live c \<and> ocg_contract_id cg = row_id c \<and> live cg
       \<and> row_id g = ocg_user_gene_id cg \<and> live g]"

definition ns_slugs :: "(namespace_contract \<Rightarrow> bool) \<Rightarrow> 'z db_scheme \<Rightarrow> string list" where
  "ns_slugs P s = [ug_slug g. c \<leftarrow> namespace_contracts s, cg \<leftarrow> namespace_contract_genes s,
     g \<leftarrow> user_genes s, P c \<and> live c \<and> ncg_contract_id cg = row_id c \<and> live cg
       \<and> row_id g = ncg_user_gene_id cg \<and> live g]"

definition list_grant_slugs :: "ident \<Rightarrow> ident option \<Rightarrow> ident option \<Rightarrow> 'z db_scheme \<Rightarrow> string set" where
  "list_grant_slugs uid org ns s =
     (case org of None \<Rightarrow> {}
      | Some x \<Rightarrow> set (org_slugs (\<lambda>c. oc_organization_id c = x \<and> oc_user_id c = uid) s)) \<union>
     (case ns of None \<Rightarrow> {}
      | Some x \<Rightarrow> set (ns_slugs (\<lambda>c. nc_namespace_id c = x \<and> nc_user_id c = uid) s))"

definition list_user_grant_slugs :: "ident \<Rightarrow> 'z db_scheme \<Rightarrow> string set" where
  "list_user_grant_slugs uid s =
     set (org_slugs (\<lambda>c. oc_user_id c = uid) s) \<union> set (ns_slugs (\<lambda>c. nc_user_id c = uid) s)"

definition require_permission ::
    "ident \<Rightarrow> string \<Rightarrow> ident option \<Rightarrow> ident option \<Rightarrow> ident option \<Rightarrow> 'z db_scheme \<Rightarrow> unit result" where
  "require_permission uid atom org ns ws s =
     (case get_live (users s) uid of
        None \<Rightarrow> Inl (ForbiddenError ''auth.user_not_found'' ''errors.auth.user_not_found'')
      | Some u \<Rightarrow>
          if is_super_admin u then Inr ()
          else (case resolve_org_ns org ns ws s of
                  Inl e \<Rightarrow> Inl e
                | Inr (org_id, ns_id) \<Rightarrow>
                    if atom \<in> list_grant_slugs uid org_id ns_id s then Inr ()
                    else Inl (ForbiddenError ''permission.denied'' ''errors.permission.denied'')))"

definition require_workspace_permission ::
    "ident \<Rightarrow> ident \<Rightarrow> string \<Rightarrow> ident option \<Rightarrow> 'z db_scheme \<Rightarrow> unit result" where
  "require_workspace_permission uid ws atom x_org s = require_permission uid atom x_org None (Some ws) s"

definition require_super_admin :: "current_user \<Rightarrow> unit result" where
  "require_super_admin cu =
     (if cu_is_super_admin cu then Inr ()
      else Inl (ForbiddenError ''auth.super_admin_required'' ''errors.auth.super_admin_required''))"

section \<open>Contracts (core/org_contract.py)\<close>

definition ensure_org_contract ::
    "timestamp \<Rightarrow> ident \<Rightarrow> ident \<Rightarrow> string option \<Rightarrow> 'z db_scheme \<Rightarrow> ('z db_scheme \<times> organization_contract) result" where
  "ensure_org_contract now org uid pack s =
     (case scalar_one_or_none (filter (\<lambda>c. oc_organization_id c = org \<and> oc_user_id c = uid \<and> live c)
             (organization_contracts s)) of
        Inl e \<Rightarrow> Inl e
      | Inr (Some c) \<Rightarrow> Inr (s, c)
      | Inr None \<Rightarrow>
          let c = \<lparr>row_id = new_id s, created_at = now, updated_at = now, deleted_at = None,
                    oc_organization_id = org, oc_user_id = uid, source_pack = pack\<rparr>
          in if fk_exists (organizations s) org \<and> fk_exists (users s) uid
             then Inr ((take_id s)\<lparr>organization_contracts := organization_contracts s @ [c]\<rparr>, c)
             else Inl unhandled_error)"

definition contract_gene_key :: "organization_contract_gene \<Rightarrow> ident \<times> ident" where
  "contract_gene_key cg = (ocg_contract_id cg, ocg_user_gene_id cg)"

definition contract_gene_row :: "ident \<Rightarrow> timestamp \<Rightarrow> ident \<times> ident \<Rightarrow> organization_contract_gene" where
  "contract_gene_row i now k = \<lparr>row_id = i, created_at = now, updated_at = now, deleted_at = None,
     ocg_contract_id = fst k, ocg_user_gene_id = snd k\<rparr>"

definition contract_gene_refs :: "ident \<times> ident \<Rightarrow> 'z db_scheme \<Rightarrow> bool" where
  "contract_gene_refs k s \<longleftrightarrow> fk_exists (organization_contracts s) (fst k) \<and> fk_exists (user_genes s) (snd k)"

definition grant_atom :: "timestamp \<Rightarrow> ident \<times> ident \<Rightarrow> 'z db_scheme \<Rightarrow> 'z db_scheme result" where
  "grant_atom = attach_link organization_contract_genes organization_contract_genes_update
     contract_gene_key contract_gene_row contract_gene_refs"

text \<open>\<open>{g.slug: g for g in rows}[slug]\<close>: the last live gene with that slug.\<close>

definition gene_by_slug :: "'z db_scheme \<Rightarrow> string \<Rightarrow> user_gene option" where
  "gene_by_slug s slug = first_where (\<lambda>g. ug_slug g = slug \<and> live g) (rev (user_genes s))"

fun grant_each :: "timestamp \<Rightarrow> ident \<Rightarrow> string list \<Rightarrow> 'z db_scheme \<Rightarrow> 'z db_scheme result" where
  "grant_each now cid [] s = Inr s"
| "grant_each now cid (slug # slugs) s =
     (case gene_by_slug s slug of
        None \<Rightarrow> Inl unhandled_error
      | Some g \<Rightarrow>
         (case grant_atom now (cid, row_id g) s of
            Inl e \<Rightarrow> Inl e
          | Inr s' \<Rightarrow> grant_each now cid slugs s'))"

definition grant_atoms :: "timestamp \<Rightarrow> ident \<Rightarrow> string list \<Rightarrow> 'z db_scheme \<Rightarrow> 'z db_scheme result" where
  "grant_atoms now cid slugs s =
     (if slugs = [] then Inr s
      else if list_ex (\<lambda>slug. gene_by_slug s slug = None) slugs then Inl unhandled_error
      else grant_each now cid slugs s)"

section \<open>Organization context and scopes\<close>

definition VALID_SCOPES :: "string list" where
  "VALID_SCOPES = [''system'', ''org'', ''namespace'', ''workspace'']"

definition ensure_scope_create_allowed :: "string \<Rightarrow> unit result" where
  "ensure_scope_create_allowed scope =
     (if scope = ''system''
      then Inl (ForbiddenError ''scope.system_create_forbidden'' ''errors.scope.system_create_forbidden'')
      else Inr ())"

definition ensure_scope_mutable :: "string \<Rightarrow> unit result" where
  "ensure_scope_mutable scope =
     (if scope = ''system'' then Inl (ForbiddenError ''scope.system_readonly'' ''errors.scope.system_readonly'')
      else Inr ())"

definition not_a_member :: eyot_error where
  "not_a_member = ForbiddenError ''organization.not_a_member'' ''errors.organization.not_a_member''"

definition member_contracts :: "ident \<Rightarrow> ident \<Rightarrow> 'z db_scheme \<Rightarrow> organization_contract list" where
  "member_contracts uid org s =
     filter (\<lambda>c. oc_user_id c = uid \<and> oc_organization_id c = org \<and> live c) (organization_contracts s)"

definition has_atom :: "ident \<Rightarrow> ident \<Rightarrow> 'z db_scheme \<Rightarrow> bool" where
  "has_atom uid org s =
     list_ex (\<lambda>c. list_ex (\<lambda>cg. ocg_contract_id cg = row_id c \<and> live cg) (organization_contract_genes s))
       (member_contracts uid org s)"

definition resolve_current_org_id ::
    "ident \<Rightarrow> ident option \<Rightarrow> 'z db_scheme \<Rightarrow> ident option result" where
  "resolve_current_org_id uid x_org s =
     (case x_org of
        Some o' \<Rightarrow>
         (case get_live (organizations s) o' of
            None \<Rightarrow> Inl (NotFoundError ''organization.not_found'' ''errors.organization.not_found'')
          | Some org \<Rightarrow>
             (case get_live (users s) uid of
                None \<Rightarrow> Inl (ForbiddenError ''auth.user_not_found'' ''errors.auth.user_not_found'')
              | Some u \<Rightarrow>
                  if is_super_admin u then Inr (Some (row_id org))
                  else (case scalar_one_or_none (member_contracts uid (row_id org) s) of
                          Inl e \<Rightarrow> Inl e
                        | Inr None \<Rightarrow> Inl not_a_member
                        | Inr (Some _) \<Rightarrow>
                            if has_atom uid (row_id org) s then Inr (Some (row_id org)) else Inl not_a_member)))
      | None \<Rightarrow>
          (case remdups (map oc_organization_id
                  (filter (\<lambda>c. oc_user_id c = uid \<and> live c) (organization_contracts s))) of
             [o'] \<Rightarrow> Inr (Some o')
           | _ \<Rightarrow> Inr None))"

text \<open>The clause is a predicate on the scope and the organization of a row.\<close>

definition scoped_visibility_clause ::
    "ident option \<Rightarrow> string option \<Rightarrow> bool \<Rightarrow> (string \<Rightarrow> ident option \<Rightarrow> bool) result" where
  "scoped_visibility_clause org scope_filter include_workspace =
     (let visible = (\<lambda>scope owner.
            case org of
              None \<Rightarrow> scope = ''system''
            | Some o' \<Rightarrow> scope = ''system'' \<or> scope = ''org'' \<and> owner = Some o'
                \<or> scope = ''namespace'' \<and> owner = Some o'
                \<or> include_workspace \<and> scope = ''workspace'' \<and> owner = Some o')
      in case scope_filter of
           None \<Rightarrow> Inr visible
         | Some f \<Rightarrow>
             if f \<notin> set VALID_SCOPES then Inl (ValidationError ''scope.invalid'' ''errors.scope.invalid'')
             else Inr (\<lambda>scope owner. visible scope owner \<and> scope = f))"

definition fk_mismatch :: eyot_error where
  "fk_mismatch = ValidationError ''scope.fk_mismatch'' ''errors.scope.fk_mismatch''"

definition organization_mismatch :: eyot_error where
  "organization_mismatch = ValidationError ''scope.organization_mismatch'' ''errors.scope.organization_mismatch''"

definition organization_required :: eyot_error where
  "organization_required = ValidationError ''scope.organization_required'' ''errors.scope.organization_required''"

definition validate_scope_fks ::
    "string \<Rightarrow> ident option \<Rightarrow> ident option \<Rightarrow> ident option \<Rightarrow> ident option
     \<Rightarrow> (ident option \<times> ident option \<times> ident option) result" where
  "validate_scope_fks scope org ns ws current =
     (if scope \<notin> set VALID_SCOPES then Inl (ValidationError ''scope.invalid'' ''errors.scope.invalid'')
      else let org' = (if (scope = ''org'' \<or> scope = ''namespace'') \<and> org = None then current else org) in
        if scope = ''system'' then
          (if org' \<noteq> None \<or> ns \<noteq> None \<or> ws \<noteq> None then Inl fk_mismatch else Inr (None, None, None))
        else if scope = ''org'' then
          (if org' = None then Inl organization_required
           else if ns \<noteq> None \<or> ws \<noteq> None then Inl fk_mismatch
           else if current \<noteq> None \<and> org' \<noteq> current then Inl organization_mismatch
           else Inr (org', None, None))
        else if scope = ''workspace'' then
          (if org' = None \<or> ns = None \<or> ws = None
           then Inl (ValidationError ''scope.workspace_ids_required'' ''errors.scope.workspace_ids_required'')
           else if current \<noteq> None \<and> org' \<noteq> current then Inl organization_mismatch
           else Inr (org', ns, ws))
        else
          (if org' = None then Inl organization_required
           else if ns = None then Inl (ValidationError ''scope.namespace_required'' ''errors.scope.namespace_required'')
           else if ws \<noteq> None then Inl fk_mismatch
           else if current \<noteq> None \<and> org' \<noteq> current then Inl organization_mismatch
           else Inr (org', ns, None)))"

end
