(* ===== verification/Permissions_Props.thy ===== *)
theory Permissions_Props
  imports Permissions
begin

text \<open>
  What the permission checks decide: the grants a user holds as a relation, the workspace check as
  an equivalence, the exact effect of granting atoms, the organization context and the scope matrix.
\<close>

section \<open>Grants\<close>

definition org_holds :: "ident \<Rightarrow> ident \<Rightarrow> string \<Rightarrow> 'z db_scheme \<Rightarrow> bool" where
  "org_holds uid org atom s \<longleftrightarrow>
     (\<exists>c \<in> set (organization_contracts s). live c \<and> oc_user_id c = uid \<and> oc_organization_id c = org \<and>
        (\<exists>g \<in> set (user_genes s). live g \<and> ug_slug g = atom \<and>
           (row_id c, row_id g) \<in> links contract_gene_key (organization_contract_genes s)))"

definition ns_holds :: "ident \<Rightarrow> ident \<Rightarrow> string \<Rightarrow> 'z db_scheme \<Rightarrow> bool" where
  "ns_holds uid ns atom s \<longleftrightarrow>
     (\<exists>c \<in> set (namespace_contracts s). live c \<and> nc_user_id c = uid \<and> nc_namespace_id c = ns \<and>
        (\<exists>g \<in> set (user_genes s). live g \<and> ug_slug g = atom \<and>
           (row_id c, row_id g) \<in> links (\<lambda>cg. (ncg_contract_id cg, ncg_user_gene_id cg)) (namespace_contract_genes s)))"

lemma join_iff:
  "(\<exists>x \<in> X. \<exists>y \<in> Y. \<exists>z \<in> Z. (P x \<and> L x \<and> a y = i x \<and> M y \<and> j z = b y \<and> N z) \<and> v = f z) \<longleftrightarrow>
   (\<exists>x \<in> X. P x \<and> L x \<and> (\<exists>z \<in> Z. N z \<and> f z = v \<and> (\<exists>y \<in> Y. M y \<and> a y = i x \<and> b y = j z)))"
  by (simp add: eq_commute [of v] eq_commute [of "j _"]) blast

lemma in_org_slugs:
  "atom \<in> set (org_slugs P s) \<longleftrightarrow>
   (\<exists>c \<in> set (organization_contracts s). P c \<and> live c \<and>
      (\<exists>g \<in> set (user_genes s). live g \<and> ug_slug g = atom \<and>
         (row_id c, row_id g) \<in> links contract_gene_key (organization_contract_genes s)))"
  unfolding org_slugs_def contract_gene_key_def
  by (simp only: set_concat set_map in_if_list in_links UN_iff image_image prod.inject join_iff)

lemma in_ns_slugs:
  "atom \<in> set (ns_slugs P s) \<longleftrightarrow>
   (\<exists>c \<in> set (namespace_contracts s). P c \<and> live c \<and>
      (\<exists>g \<in> set (user_genes s). live g \<and> ug_slug g = atom \<and>
         (row_id c, row_id g) \<in> links (\<lambda>cg. (ncg_contract_id cg, ncg_user_gene_id cg)) (namespace_contract_genes s)))"
  unfolding ns_slugs_def
  by (simp only: set_concat set_map in_if_list in_links UN_iff image_image prod.inject join_iff)

lemma in_list_grant_slugs:
  "atom \<in> list_grant_slugs uid org ns s \<longleftrightarrow>
   (\<exists>x. org = Some x \<and> org_holds uid x atom s) \<or> (\<exists>x. ns = Some x \<and> ns_holds uid x atom s)"
  by (cases org; cases ns)
    (auto simp: list_grant_slugs_def in_org_slugs in_ns_slugs org_holds_def ns_holds_def)

text \<open>
  C16. The workspace check, exactly: a live user passes iff super-admin, or the workspace and its
  Namespace are live, the organization header, if sent, names the organization that owns the
  Namespace, and a live contract of the user with that very organization or Namespace carries the
  live atom.\<close>
theorem workspace_permission_iff:
  assumes "list_all (\<lambda>n. ns_org_id n \<noteq> []) (namespaces s)"
  shows "require_workspace_permission uid ws atom x_org s = Inr () \<longleftrightarrow>
    (\<exists>u. get_live (users s) uid = Some u \<and> (is_super_admin u \<or>
      (\<exists>w n. get_live (workspaces s) ws = Some w \<and> get_live (namespaces s) (ws_namespace_id w) = Some n \<and>
         x_org \<in> {None, Some (ns_org_id n)} \<and>
         (org_holds uid (ns_org_id n) atom s \<or> ns_holds uid (ws_namespace_id w) atom s))))"
proof -
  have "ns_org_id n \<noteq> []" if "get_live (namespaces s) i = Some n" for i n
    using assms get_live_SomeD [OF that] by (simp add: list_all_iff)
  then show ?thesis
    by (auto simp: require_workspace_permission_def require_permission_def resolve_org_ns_def
        in_list_grant_slugs split: option.splits)
qed

section \<open>Granting\<close>

interpretation contract_genes: junction organization_contract_genes organization_contract_genes_update
    contract_gene_key contract_gene_row contract_gene_refs
  by unfold_locales
    (simp_all add: contract_gene_refs_def contract_gene_row_def contract_gene_key_def live_def
      soft_delete_def touch_def)

text \<open>The contract tables: keys of their own, fresh for the identifier stream.\<close>

definition grants_ok :: "'z db_scheme \<Rightarrow> bool" where
  "grants_ok s \<longleftrightarrow> links_ok contract_gene_key organization_contract_genes s \<and>
     distinct (map row_id (organization_contracts s)) \<and> row_id ` set (organization_contracts s) \<subseteq> used_ids s \<and>
     unique_on live (\<lambda>c. (oc_organization_id c, oc_user_id c)) (organization_contracts s) \<and>
     distinct (map row_id (user_genes s)) \<and>
     (\<forall>cg \<in> set (organization_contract_genes s). ocg_contract_id cg \<in> row_id ` set (organization_contracts s))"

text \<open>Everything a check reads, except the gene rows of contracts.\<close>

definition same_tenants :: "'z db_scheme \<Rightarrow> 'z db_scheme \<Rightarrow> bool" where
  "same_tenants s t \<longleftrightarrow> users t = users s \<and> user_genes t = user_genes s \<and> workspaces t = workspaces s \<and>
     namespaces t = namespaces s \<and> namespace_contracts t = namespace_contracts s \<and>
     namespace_contract_genes t = namespace_contract_genes s"

lemma grant_atom_effect:
  assumes "links_ok contract_gene_key organization_contract_genes s" "grant_atom now k s = Inr t"
  shows "links_ok contract_gene_key organization_contract_genes t"
    "links contract_gene_key (organization_contract_genes t) = insert k (links contract_gene_key (organization_contract_genes s))"
    "organization_contracts t = organization_contracts s" "same_tenants s t"
proof -
  have u: "unique_on live contract_gene_key (organization_contract_genes s)" using assms(1) by (simp add: links_ok_def)
  have "contract_gene_refs k s \<or> k \<in> links contract_gene_key (organization_contract_genes s)"
    by (cases rule: find_link_cases [OF u, of k])
      (use assms(2) in \<open>auto simp: grant_atom_def attach_link_def split: if_splits\<close>)
  then show "links_ok contract_gene_key organization_contract_genes t"
    "links contract_gene_key (organization_contract_genes t) = insert k (links contract_gene_key (organization_contract_genes s))"
    using contract_genes.attach_new [OF assms(1), of k now] contract_genes.attach_linked [OF assms(1), of k now] assms
    by (auto simp: grant_atom_def)
  show "organization_contracts t = organization_contracts s" "same_tenants s t"
    using assms(2)
    by (auto simp: grant_atom_def attach_link_def same_tenants_def split: sum.splits option.splits if_splits)
qed

lemma same_tenants_trans: "same_tenants s t \<Longrightarrow> same_tenants t u \<Longrightarrow> same_tenants s u"
  by (simp add: same_tenants_def)

lemma same_tenants_refl [simp]: "same_tenants s s"
  by (simp add: same_tenants_def)

lemma gene_by_slug_same: "same_tenants s t \<Longrightarrow> gene_by_slug t slug = gene_by_slug s slug"
  by (simp add: gene_by_slug_def same_tenants_def)

definition gene_ids :: "'z db_scheme \<Rightarrow> string list \<Rightarrow> ident set" where
  "gene_ids s slugs = {row_id g |g. \<exists>slug \<in> set slugs. gene_by_slug s slug = Some g}"

lemma grant_each_effect:
  "links_ok contract_gene_key organization_contract_genes s \<Longrightarrow> grant_each now cid slugs s = Inr t \<Longrightarrow>
   links_ok contract_gene_key organization_contract_genes t \<and>
   links contract_gene_key (organization_contract_genes t)
     = links contract_gene_key (organization_contract_genes s) \<union> Pair cid ` gene_ids s slugs \<and>
   organization_contracts t = organization_contracts s \<and> same_tenants s t"
proof (induction slugs arbitrary: s)
  case Nil
  then show ?case by (simp add: gene_ids_def)
next
  case (Cons slug slugs)
  then obtain g s1 where g: "gene_by_slug s slug = Some g" and a: "grant_atom now (cid, row_id g) s = Inr s1"
    and r: "grant_each now cid slugs s1 = Inr t"
    by (auto split: option.splits sum.splits)
  note e = grant_atom_effect [OF Cons.prems(1) a]
  have "gene_ids s (slug # slugs) = insert (row_id g) (gene_ids s slugs)" using g by (auto simp: gene_ids_def)
  moreover have "gene_ids s1 slugs = gene_ids s slugs" by (simp add: gene_ids_def gene_by_slug_same [OF e(4)])
  ultimately show ?case
    using Cons.IH [OF e(1) r] e(2-4) same_tenants_trans by (auto simp: image_insert)
qed

lemma grant_atoms_effect:
  assumes "links_ok contract_gene_key organization_contract_genes s" "grant_atoms now cid slugs s = Inr t"
  shows "links contract_gene_key (organization_contract_genes t)
     = links contract_gene_key (organization_contract_genes s) \<union> Pair cid ` gene_ids s slugs"
    "organization_contracts t = organization_contracts s" "same_tenants s t"
  using grant_each_effect [of s now cid slugs t] assms
  by (auto simp: grant_atoms_def gene_ids_def split: if_splits)

lemma gene_by_slug_SomeD: "gene_by_slug s slug = Some g \<Longrightarrow> g \<in> set (user_genes s) \<and> ug_slug g = slug \<and> live g"
  unfolding gene_by_slug_def by (drule first_where_SomeD) auto

lemma ensure_org_contract_effect:
  assumes "grants_ok s" "ensure_org_contract now org uid pack s = Inr (t, c)"
  shows "links_ok contract_gene_key organization_contract_genes t" "same_tenants s t"
    "organization_contract_genes t = organization_contract_genes s" "live c" "oc_user_id c = uid"
    "oc_organization_id c = org" "distinct (map row_id (organization_contracts t))"
    "c \<in> set (organization_contracts t)"
    "set (organization_contracts s) \<subseteq> set (organization_contracts t)"
    "set (organization_contracts t) \<subseteq> insert c (set (organization_contracts s))"
    "c \<notin> set (organization_contracts s) \<Longrightarrow> row_id c \<notin> row_id ` set (organization_contracts s)"
proof -
  let ?found = "filter (\<lambda>c. oc_organization_id c = org \<and> oc_user_id c = uid \<and> live c) (organization_contracts s)"
  consider (old) "t = s" "?found = [c]"
    | (new) "t = (take_id s)\<lparr>organization_contracts := organization_contracts s @ [c]\<rparr>" "row_id c = new_id s"
        "live c" "oc_user_id c = uid" "oc_organization_id c = org"
    using assms(2) by (auto simp: ensure_org_contract_def Let_def live_def split: sum.splits option.splits if_splits
        dest!: scalar_one_SomeD)
  then have "links_ok contract_gene_key organization_contract_genes t \<and> same_tenants s t \<and>
    organization_contract_genes t = organization_contract_genes s \<and> live c \<and> oc_user_id c = uid \<and>
    oc_organization_id c = org \<and> distinct (map row_id (organization_contracts t)) \<and>
    c \<in> set (organization_contracts t) \<and> set (organization_contracts s) \<subseteq> set (organization_contracts t) \<and>
    set (organization_contracts t) \<subseteq> insert c (set (organization_contracts s)) \<and>
    (c \<notin> set (organization_contracts s) \<longrightarrow> row_id c \<notin> row_id ` set (organization_contracts s))"
  proof cases
    case old
    have "c \<in> set ?found" unfolding old(2) by simp
    with old(1) assms(1) show ?thesis by (auto simp: grants_ok_def)
  next
    case new
    have "new_id s \<notin> row_id ` set (organization_contracts s)"
      using assms(1) new_id_fresh [of s] by (auto simp: grants_ok_def links_ok_def)
    moreover have "used_ids (s\<lparr>organization_contracts := x\<rparr>) = used_ids s" for x by (simp add: used_ids_def)
    moreover have "used_ids ((take_id s)\<lparr>organization_contracts := x\<rparr>) = insert (new_id s) (used_ids s)" for x
      by (simp add: used_ids_def take_id_def new_id_def lessThan_Suc)
    ultimately show ?thesis
      using assms(1) new by (auto simp: grants_ok_def links_ok_def same_tenants_def)
  qed
  then show "links_ok contract_gene_key organization_contract_genes t" "same_tenants s t"
    "organization_contract_genes t = organization_contract_genes s" "live c" "oc_user_id c = uid"
    "oc_organization_id c = org" "distinct (map row_id (organization_contracts t))"
    "c \<in> set (organization_contracts t)"
    "set (organization_contracts s) \<subseteq> set (organization_contracts t)"
    "set (organization_contracts t) \<subseteq> insert c (set (organization_contracts s))"
    "c \<notin> set (organization_contracts s) \<Longrightarrow> row_id c \<notin> row_id ` set (organization_contracts s)"
    by blast+
qed

lemma grants_ok_links:
  "grants_ok s \<Longrightarrow> (i, j) \<in> links contract_gene_key (organization_contract_genes s) \<Longrightarrow>
   i \<in> row_id ` set (organization_contracts s)"
  by (auto simp: grants_ok_def in_links contract_gene_key_def)

lemma same_row: "distinct (map row_id rows) \<Longrightarrow> a \<in> set rows \<Longrightarrow> b \<in> set rows \<Longrightarrow> row_id a = row_id b \<Longrightarrow> a = b"
  by (meson inj_on_contraD distinct_map)

lemma grant_org_holds:
  assumes ok: "grants_ok s" and c: "ensure_org_contract now org uid pack s = Inr (s1, c)"
    and g: "grant_atoms now' (row_id c) slugs s1 = Inr s2"
  shows "org_holds u o' atom s2 \<longleftrightarrow> org_holds u o' atom s \<or> u = uid \<and> o' = org \<and> atom \<in> set slugs"
proof -
  note e = ensure_org_contract_effect [OF ok c]
  note h = grant_atoms_effect [OF e(1) g]
  let ?L = "\<lambda>s. links contract_gene_key (organization_contract_genes s)"
  have L: "?L s2 = ?L s \<union> Pair (row_id c) ` gene_ids s1 slugs" using h(1) e(3) by simp
  have genes: "user_genes s2 = user_genes s" "user_genes s1 = user_genes s" using h(3) e(2) by (simp_all add: same_tenants_def)
  have found: "\<exists>x. gene_by_slug s1 slug = Some x" if "slug \<in> set slugs" for slug
    using g that by (auto simp: grant_atoms_def list_ex_iff split: if_splits)
  show ?thesis
  proof
    assume "org_holds u o' atom s2"
    then obtain d x where d: "d \<in> set (organization_contracts s1)" "live d" "oc_user_id d = u" "oc_organization_id d = o'"
      and x: "x \<in> set (user_genes s)" "live x" "ug_slug x = atom" and l: "(row_id d, row_id x) \<in> ?L s2"
      by (auto simp: org_holds_def h(2) genes)
    from l consider "(row_id d, row_id x) \<in> ?L s" | "row_id d = row_id c" "row_id x \<in> gene_ids s1 slugs"
      by (auto simp: L)
    then show "org_holds u o' atom s \<or> u = uid \<and> o' = org \<and> atom \<in> set slugs"
    proof cases
      case 1
      then have "d \<in> set (organization_contracts s)" using grants_ok_links [OF ok 1] d(1) e(10,11) by auto
      with d x 1 show ?thesis by (auto simp: org_holds_def)
    next
      case 2
      then have "d = c" using same_row [OF e(7) d(1) e(8)] by simp
      moreover from 2 obtain y slug where y: "gene_by_slug s1 slug = Some y" "slug \<in> set slugs" "row_id y = row_id x"
        by (auto simp: gene_ids_def)
      then have "y = x"
        using gene_by_slug_SomeD [OF y(1)] x(1) ok same_row [of "user_genes s" y x] by (simp add: genes grants_ok_def)
      ultimately show ?thesis using d e(5,6) x(3) gene_by_slug_SomeD [OF y(1)] y(2) by auto
    qed
  next
    assume "org_holds u o' atom s \<or> u = uid \<and> o' = org \<and> atom \<in> set slugs"
    then show "org_holds u o' atom s2"
    proof (elim disjE conjE)
      assume "org_holds u o' atom s"
      then show ?thesis using e(9) unfolding org_holds_def h(2) genes L by blast
    next
      assume n: "u = uid" "o' = org" "atom \<in> set slugs"
      from found [OF n(3)] obtain x where x: "gene_by_slug s1 atom = Some x" by blast
      then have "(row_id c, row_id x) \<in> ?L s2" using n(3) by (auto simp: L gene_ids_def)
      with gene_by_slug_SomeD [OF x] n e(4-6,8) show ?thesis unfolding org_holds_def h(2) genes by (metis)
    qed
  qed
qed

text \<open>
  Granting, exactly: giving a user atoms of an organization adds these atoms to what the user
  holds in that organization and changes no other grant, of no other user and no other organization
  or Namespace.\<close>
theorem grant_atoms_exact:
  assumes "grants_ok s" and "ensure_org_contract now org uid pack s = Inr (s1, c)"
    and "grant_atoms now' (row_id c) slugs s1 = Inr s2"
  shows "list_grant_slugs u (Some o') ns s2 =
    list_grant_slugs u (Some o') ns s \<union> (if u = uid \<and> o' = org then set slugs else {})"
proof -
  have "same_tenants s s2"
    using ensure_org_contract_effect(2) [OF assms(1,2)]
      grant_atoms_effect(3) [OF ensure_org_contract_effect(1) [OF assms(1,2)] assms(3)] by (rule same_tenants_trans)
  then have "ns_holds v x a s2 = ns_holds v x a s" for v x a by (simp add: ns_holds_def same_tenants_def)
  then show ?thesis by (auto simp: set_eq_iff in_list_grant_slugs grant_org_holds [OF assms])
qed

section \<open>Organization context and scopes\<close>

lemma scope_matrix:
  "validate_scope_fks scope org ns ws current = Inr (o', n', w') \<longleftrightarrow>
    o' = (if scope \<in> {''org'', ''namespace''} \<and> org = None then current else org) \<and> n' = ns \<and> w' = ws \<and>
    (scope, o' \<noteq> None, n' \<noteq> None, w' \<noteq> None) \<in> {(''system'', False, False, False), (''org'', True, False, False),
       (''namespace'', True, True, False), (''workspace'', True, True, True)} \<and>
    (scope = ''system'' \<or> current \<in> {None, o'})"
proof -
  consider "scope = ''system''" | "scope = ''org''" | "scope = ''namespace''" | "scope = ''workspace''"
    | "scope \<notin> set VALID_SCOPES"
    by (auto simp: VALID_SCOPES_def)
  then show ?thesis
  proof cases
    case 1
    then show ?thesis by (auto simp: validate_scope_fks_def VALID_SCOPES_def Let_def)
  next
    case 2
    then show ?thesis by (cases org; auto simp: validate_scope_fks_def VALID_SCOPES_def Let_def organization_required_def)
  next
    case 3
    then show ?thesis by (cases org; auto simp: validate_scope_fks_def VALID_SCOPES_def Let_def organization_required_def)
  next
    case 4
    then show ?thesis by (auto simp: validate_scope_fks_def VALID_SCOPES_def Let_def)
  next
    case 5
    then show ?thesis by (simp add: validate_scope_fks_def) (auto simp: VALID_SCOPES_def Let_def)
  qed
qed

lemma validate_triple:
  "validate_scope_fks scope org ns ws (Some cur) = Inr (o', n', w') \<Longrightarrow>
   scope \<in> {''system'', ''org'', ''namespace'', ''workspace''} \<and> (scope = ''system'' \<or> o' = Some cur)"
  unfolding scope_matrix by fastforce

text \<open>
  The scope matrix: the accepted triples are exactly those in which system rows have no owner,
  organization rows an organization, Namespace rows an organization and a Namespace and workspace
  rows all three, the organization being the caller's where the caller acts in one.\<close>
theorem validate_scope_fks_iff:
  "validate_scope_fks scope org ns ws current = Inr (o', n', w') \<longleftrightarrow>
    o' = (if scope \<in> {''org'', ''namespace''} \<and> org = None then current else org) \<and> n' = ns \<and> w' = ws \<and>
    (scope, o' \<noteq> None, n' \<noteq> None, w' \<noteq> None) \<in> {(''system'', False, False, False), (''org'', True, False, False),
       (''namespace'', True, True, False), (''workspace'', True, True, True)} \<and>
    (scope = ''system'' \<or> current \<in> {None, o'})"
  by (rule scope_matrix)

text \<open>
  Isolation of organizations: a row whose scope was validated for an organization is listed in
  the context of that organization and no other, system rows everywhere.\<close>
theorem scope_isolation:
  assumes "validate_scope_fks scope org ns ws (Some current) = Inr (o', n', w')"
    and "scoped_visibility_clause ctx None True = Inr visible"
  shows "visible scope o' \<longleftrightarrow> scope = ''system'' \<or> ctx = Some current"
proof -
  have "scope = ''system'' \<or> scope \<in> {''org'', ''namespace'', ''workspace''} \<and> o' = Some current"
    using validate_triple [OF assms(1)] by auto
  moreover have "visible scope o' = (case ctx of None \<Rightarrow> scope = ''system''
      | Some x \<Rightarrow> scope = ''system'' \<or> scope \<in> {''org'', ''namespace'', ''workspace''} \<and> o' = Some x)"
    using assms(2) by (cases ctx) (auto simp: scoped_visibility_clause_def Let_def)
  ultimately show ?thesis by (cases ctx) auto
qed

text \<open>
  A contract without atoms opens its organization only without the header: a user whose one
  live contract carries no atom is refused when the organization is named in the header and let
  into the same organization when it is not.\<close>
theorem zero_atom_context:
  assumes "get_live (organizations s) org = Some w" and "get_live (users s) uid = Some u" and "\<not> is_super_admin u"
    and "filter (\<lambda>c. oc_user_id c = uid \<and> live c) (organization_contracts s) = [c]"
    and "oc_organization_id c = org" and "\<not> has_atom uid org s"
  shows "resolve_current_org_id uid (Some org) s = Inl not_a_member \<and>
    resolve_current_org_id uid None s = Inr (Some org)"
proof -
  have "member_contracts uid org s =
      filter (\<lambda>c. oc_organization_id c = org) (filter (\<lambda>c. oc_user_id c = uid \<and> live c) (organization_contracts s))"
    by (simp add: member_contracts_def conj_ac)
  then have "member_contracts uid org s = [c]" unfolding assms(4) using assms(5) by simp
  moreover have "row_id w = org" using get_live_SomeD [OF assms(1)] by simp
  ultimately show ?thesis using assms by (simp add: resolve_current_org_id_def)
qed

section \<open>Witnesses\<close>

definition tenant_row :: "ident \<Rightarrow> base_row" where
  "tenant_row i = \<lparr>row_id = i, created_at = 0, updated_at = 0, deleted_at = None\<rparr>"

definition tenant_store :: db where
  "tenant_store = (empty_db sample_ids)\<lparr>
     organizations := [base_row.extend (tenant_row ''o'') (organization.fields ''o'' ''O'' None None None None None False None None None None)],
     namespaces := [base_row.extend (tenant_row ''s'') (namespace.fields ''o'' ''s'' ''S'' None None)],
     workspaces := [base_row.extend (tenant_row ''w'') (workspace.fields ''s'' ''W'' ''w'')],
     users := [base_row.extend (tenant_row ''u'') (user.fields ''ann'' None ''ann@x'' ''h'' False)],
     user_genes := [base_row.extend (tenant_row ''g'') (user_gene.fields ''can_read'' ''Read'' ''builtin'' S_workspace None)]\<rparr>"

definition member_store :: db where
  "member_store = tenant_store\<lparr>
     organization_contracts := [base_row.extend (tenant_row ''c'') (organization_contract.fields ''o'' ''u'' None)]\<rparr>"

theorem workspace_permission_iff_witness:
  "require_workspace_permission ''u'' ''w'' ''can_read'' (Some ''o'')
     (member_store\<lparr>organization_contract_genes := [contract_gene_row ''cg'' 1 (''c'', ''g'')]\<rparr>) = Inr ()"
  by (subst workspace_permission_iff)
    (simp_all add: member_store_def tenant_store_def tenant_row_def empty_db_def base_row.defs namespace.defs
      user.defs workspace.defs organization_contract.defs user_gene.defs live_def org_holds_def links_def
      contract_gene_row_def contract_gene_key_def)

theorem grant_atoms_exact_witness:
  "\<exists>s1 c s2. ensure_org_contract 1 ''o'' ''u'' None tenant_store = Inr (s1, c) \<and>
     grant_atoms 2 (row_id c) [''can_read''] s1 = Inr s2 \<and> list_grant_slugs ''u'' (Some ''o'') None s2 = {''can_read''}"
proof -
  have "case ensure_org_contract 1 ''o'' ''u'' None tenant_store of
      Inr (s1, c) \<Rightarrow> is_ok (grant_atoms 2 (row_id c) [''can_read''] s1) | Inl e \<Rightarrow> False"
    by code_simp
  then obtain s1 c s2 where r: "ensure_org_contract 1 ''o'' ''u'' None tenant_store = Inr (s1, c)"
    "grant_atoms 2 (row_id c) [''can_read''] s1 = Inr s2"
    by (auto split: sum.splits elim!: is_okE)
  have "grants_ok tenant_store"
    by (simp add: grants_ok_def links_ok_def tenant_store_def empty_db_def sample_ids_ok)
  from grant_atoms_exact [OF this r, of "''u''" "''o''" None] r show ?thesis
    by (auto simp: list_grant_slugs_def org_slugs_def tenant_store_def empty_db_def)
qed

theorem scope_isolation_witness:
  "\<exists>visible. scoped_visibility_clause (Some ''p'') None True = Inr visible \<and> \<not> visible ''org'' (Some ''o'')"
proof -
  have v: "validate_scope_fks ''org'' None None None (Some ''o'') = Inr (Some ''o'', None, None)"
    by (simp add: validate_scope_fks_def VALID_SCOPES_def)
  obtain visible where "scoped_visibility_clause (Some ''p'') None True = Inr visible"
    by (simp add: scoped_visibility_clause_def)
  with scope_isolation [OF v this] show ?thesis by auto
qed

theorem zero_atom_context_witness:
  "resolve_current_org_id ''u'' (Some ''o'') member_store = Inl not_a_member \<and>
   resolve_current_org_id ''u'' None member_store = Inr (Some ''o'')"
  by (rule zero_atom_context [where w = "hd (organizations member_store)" and u = "hd (users member_store)"
        and c = "hd (organization_contracts member_store)"]) code_simp+

end
