(* ===== verification/Py_Json.thy ===== *)
theory Py_Json
  imports Py_Str
begin

text \<open>
  \<open>json.dumps\<close> with the separators \<open>(",", ":")\<close> and \<open>ensure_ascii\<close>, with and without
  \<open>sort_keys\<close>, on the JSON values of the model.
\<close>

section \<open>Strings\<close>

definition escape_char :: "char \<Rightarrow> string" where
  "escape_char c = (let n = (of_char c :: nat); bs = CHR 0x5C in
     if n = 34 then [bs, CHR 0x22] else if n = 92 then [bs, bs]
     else if n = 10 then [bs, CHR ''n''] else if n = 13 then [bs, CHR ''r'']
     else if n = 9 then [bs, CHR ''t''] else if n = 12 then [bs, CHR ''f'']
     else if n = 8 then [bs, CHR ''b'']
     else if 32 \<le> n \<and> n < 127 then [c]
     else bs # CHR ''u'' # CHR ''0'' # CHR ''0'' # hex_digit (n div 16) # [hex_digit (n mod 16)])"

definition json_string :: "string \<Rightarrow> string" where
  "json_string s = CHR 0x22 # concat (map escape_char s) @ [CHR 0x22]"

section \<open>Values\<close>

fun json_dumps :: "bool \<Rightarrow> json \<Rightarrow> string" where
  "json_dumps sk JNull = ''null''"
| "json_dumps sk (JBool b) = (if b then ''true'' else ''false'')"
| "json_dumps sk (JInt n) = str_of_int n"
| "json_dumps sk (JSeconds n) = (if n < 0 then CHR ''-'' # repr_float (nat (- n)) else repr_float (nat n))"
| "json_dumps sk (JStr s) = json_string s"
| "json_dumps sk (JList js) = ''['' @ join '','' (map (json_dumps sk) js) @ '']''"
| "json_dumps sk (JObj ob) = ''{'' @ join '',''
     (map snd ((if sk then sort_key fst else id)
       (map (\<lambda>(k, v). (k, json_string k @ '':'' @ json_dumps sk v)) ob))) @ ''}''"

end
