(* ===== verification/Capabilities.thy ===== *)
theory Capabilities
  imports Link_Table Py_Json
begin

text \<open>
  The capability surface of Entities and BaseClasses (\<^verbatim>\<open>app/core/capabilities.py\<close>) and its
  fingerprint (\<^verbatim>\<open>app/core/migration_hash.py\<close>). What an Entity can do is the union of the market
  rows linked to it and of the capabilities that its genes list inline, its own genes and those of
  its BaseClass. The digest \<open>sha256(...).hexdigest()\<close> is the argument \<open>sha\<close>. An inline
  capability whose name is no string is answered with the error that comparing or hashing it raises.
\<close>

section \<open>Shapes\<close>

definition MIRROR_TYPES :: "string list" where
  "MIRROR_TYPES = [''skill'', ''tool'', ''mcp'', ''lsp'', ''command'']"

definition capability_to_dict :: "capability_entry \<Rightarrow> json_obj" where
  "capability_to_dict cap =
     [(''name'', JStr (cap_name cap)), (''type'', JStr (cap_type cap))] @
     (if truthy (cap_description cap) then [(''description'', JStr (the (cap_description cap)))] else []) @
     (case config_template cap of
        None \<Rightarrow> []
      | Some ob \<Rightarrow> if ob = [] then [] else [(''config_template'', JObj ob)])"

definition gene_inline_to_dict :: "json_obj \<Rightarrow> json_obj" where
  "gene_inline_to_dict item =
     [(''name'', jget_null item ''name''),
      (''type'', if json_true (jget_null item ''type'') then jget_null item ''type'' else JStr ''skill'')] @
     (if json_true (jget_null item ''description'') then [(''description'', jget_null item ''description'')] else [])"

definition extract_manifest_capabilities :: "json_obj option \<Rightarrow> json list option" where
  "extract_manifest_capabilities manifest =
     (case manifest of
        None \<Rightarrow> None
      | Some ob \<Rightarrow> (case jget ob ''capabilities'' of Some (JList caps) \<Rightarrow> Some caps | _ \<Rightarrow> None))"

definition inline_dict :: "json \<Rightarrow> json_obj list" where
  "inline_dict item = (case item of
      JObj ob \<Rightarrow> if json_true (jget_null ob ''name'') then [gene_inline_to_dict ob] else []
    | _ \<Rightarrow> [])"

section \<open>Genes\<close>

definition base_class_by_slug :: "string \<Rightarrow> 'z db_scheme \<Rightarrow> base_class option result" where
  "base_class_by_slug slug s = scalar_one_or_none (filter (\<lambda>b. bcl_slug b = slug \<and> live b) (base_classes s))"

definition entity_genes :: "ident \<Rightarrow> 'z db_scheme \<Rightarrow> ai_gene list" where
  "entity_genes eid s = [g. g \<leftarrow> ai_genes s, l \<leftarrow> entity_ai_genes s,
     eg_ai_gene_id l = row_id g \<and> eg_entity_id l = eid \<and> live l \<and> live g]"

definition base_class_genes :: "ident \<Rightarrow> 'z db_scheme \<Rightarrow> ai_gene list" where
  "base_class_genes bid s = [g. g \<leftarrow> ai_genes s, l \<leftarrow> base_class_ai_genes s,
     bcg_ai_gene_id l = row_id g \<and> bcg_base_class_id l = bid \<and> live l \<and> live g]"

text \<open>The genes inherited through the preset, if the preset is given and names a BaseClass.\<close>

definition inherited_genes :: "string option \<Rightarrow> 'z db_scheme \<Rightarrow> ai_gene list result" where
  "inherited_genes preset s =
     (if truthy preset
      then (case base_class_by_slug (the preset) s of
              Inl e \<Rightarrow> Inl e
            | Inr None \<Rightarrow> Inr []
            | Inr (Some b) \<Rightarrow> Inr (base_class_genes (row_id b) s))
      else Inr [])"

fun alist_set :: "'k \<Rightarrow> 'v \<Rightarrow> ('k \<times> 'v) list \<Rightarrow> ('k \<times> 'v) list" where
  "alist_set k v [] = [(k, v)]"
| "alist_set k v ((k', v') # kvs) = (if k = k' then (k, v) # kvs else (k', v') # alist_set k v kvs)"

definition alist_setdefault :: "'k \<Rightarrow> 'v \<Rightarrow> ('k \<times> 'v) list \<Rightarrow> ('k \<times> 'v) list" where
  "alist_setdefault k v kvs = (if k \<in> fst ` set kvs then kvs else kvs @ [(k, v)])"

definition gene_manifests :: "ai_gene list \<Rightarrow> ai_gene list \<Rightarrow> (string \<times> json_obj option) list" where
  "gene_manifests own base =
     foldl (\<lambda>kvs g. alist_setdefault (ag_slug g) (ag_manifest g) kvs)
       (foldl (\<lambda>kvs g. alist_set (ag_slug g) (ag_manifest g) kvs) [] own) base"

definition load_entity_gene_inline_capability_dicts ::
    "ident \<Rightarrow> string option \<Rightarrow> 'z db_scheme \<Rightarrow> json_obj list result" where
  "load_entity_gene_inline_capability_dicts eid preset s =
     (case inherited_genes preset s of
        Inl e \<Rightarrow> Inl e
      | Inr base \<Rightarrow>
          Inr (concat (map (\<lambda>(_, manifest). case extract_manifest_capabilities manifest of
                 None \<Rightarrow> [] | Some caps \<Rightarrow> concat (map inline_dict caps))
               (gene_manifests (entity_genes eid s) base))))"

section \<open>Effective capabilities\<close>

definition entity_market_rows :: "ident \<Rightarrow> 'z db_scheme \<Rightarrow> capability_entry list" where
  "entity_market_rows eid s = [c. c \<leftarrow> capability_market s, l \<leftarrow> entity_capabilities s,
     ec_capability_id l = row_id c \<and> ec_entity_id l = eid \<and> live l \<and> live c]"

definition cap_label :: "json_obj \<Rightarrow> string option" where
  "cap_label cap = (case jget cap ''name'' of Some (JStr n) \<Rightarrow> Some n | _ \<Rightarrow> None)"

text \<open>The union by name: market rows first, a gene's capability only under a new name.\<close>

fun merge_by_name :: "json_obj list \<Rightarrow> string list \<Rightarrow> json_obj list \<Rightarrow> json_obj list result" where
  "merge_by_name merged seen [] = Inr merged"
| "merge_by_name merged seen (cap # caps) =
     (case cap_label cap of
        None \<Rightarrow> Inl unhandled_error
      | Some n \<Rightarrow> if n \<in> set seen then merge_by_name merged seen caps
                  else merge_by_name (merged @ [cap]) (n # seen) caps)"

definition name_key :: "json_obj \<Rightarrow> string" where
  "name_key cap = (case cap_label cap of None \<Rightarrow> [] | Some n \<Rightarrow> n)"

definition entity_preset :: "ident \<Rightarrow> entity option \<Rightarrow> 'z db_scheme \<Rightarrow> string option" where
  "entity_preset eid ent s =
     (case ent of
        Some e \<Rightarrow> preset_slug e
      | None \<Rightarrow> (case get_live (entities s) eid of None \<Rightarrow> None | Some e \<Rightarrow> preset_slug e))"

definition load_entity_capability_dicts ::
    "ident \<Rightarrow> entity option \<Rightarrow> 'z db_scheme \<Rightarrow> json_obj list result" where
  "load_entity_capability_dicts eid ent s =
     (let market = map capability_to_dict (sort_key cap_name (entity_market_rows eid s)) in
      case load_entity_gene_inline_capability_dicts eid (entity_preset eid ent s) s of
        Inl e \<Rightarrow> Inl e
      | Inr gene_caps \<Rightarrow>
         (case merge_by_name market (map name_key market) gene_caps of
            Inl e \<Rightarrow> Inl e
          | Inr merged \<Rightarrow> Inr (sort_key name_key merged)))"

definition load_base_class_capability_dicts :: "ident \<Rightarrow> 'z db_scheme \<Rightarrow> json_obj list" where
  "load_base_class_capability_dicts bid s = map capability_to_dict (sort_key cap_name
     [c. c \<leftarrow> capability_market s, l \<leftarrow> base_class_capabilities s,
        bcc_capability_id l = row_id c \<and> bcc_base_class_id l = bid \<and> live l \<and> live c])"

definition load_entity_gene_refs :: "ident \<Rightarrow> 'z db_scheme \<Rightarrow> string list" where
  "load_entity_gene_refs eid s = sort (map ag_slug (entity_genes eid s))"

definition gene_dict :: "string \<Rightarrow> string \<Rightarrow> json_obj" where
  "gene_dict source slug = [(''slug'', JStr slug), (''source'', JStr source)]"

definition load_entity_ai_gene_dicts :: "entity \<Rightarrow> 'z db_scheme \<Rightarrow> json_obj list result" where
  "load_entity_ai_gene_dicts ent s =
     (let own = load_entity_gene_refs (row_id ent) s in
      case inherited_genes (preset_slug ent) s of
        Inl e \<Rightarrow> Inl e
      | Inr base \<Rightarrow>
          Inr (map (gene_dict ''extra_added'') own @
               map (gene_dict ''from_base_class'') (filter (\<lambda>slug. slug \<notin> set own) (sort (map ag_slug base)))))"

definition remove_prefix :: "string \<Rightarrow> string \<Rightarrow> string" where
  "remove_prefix p x = (if starts_with p x then drop (length p) x else x)"

fun mirror_arrays :: "json_obj list \<Rightarrow> string list \<times> string list \<times> string list" where
  "mirror_arrays [] = ([], [], [])"
| "mirror_arrays (cap # caps) =
     (case mirror_arrays caps of (skills, tools, commands) \<Rightarrow>
        let nm = name_key cap;
            ty = (if json_true (jget_null cap ''type'') then jget_null cap ''type'' else JStr ''skill'')
        in if ty = JStr ''command'' then (skills, tools, remove_prefix ''cmd-'' nm # commands)
           else if ty = JStr ''skill'' then (nm # skills, tools, commands)
           else if ty \<in> {JStr ''tool'', JStr ''mcp'', JStr ''lsp''} then (skills, nm # tools, commands)
           else (skills, tools, commands))"

section \<open>Writes\<close>

record upsert_args =
  ua_name :: string
  ua_type :: string
  ua_scope :: string
  ua_organization_id :: "ident option"
  ua_namespace_id :: "ident option"
  ua_created_via :: string
  ua_description :: "string option"
  ua_config_template :: "json_obj option"
  ua_required_knowledge :: "string list option"
  ua_source_entity_slug :: "string option"

definition new_capability :: "ident \<Rightarrow> timestamp \<Rightarrow> upsert_args \<Rightarrow> capability_entry" where
  "new_capability i now a = \<lparr>row_id = i, created_at = now, updated_at = now, deleted_at = None,
     cap_name = ua_name a, cap_type = (if ua_type a \<in> set MIRROR_TYPES then ua_type a else ''skill''),
     cap_scope = ua_scope a, cap_organization_id = ua_organization_id a, cap_namespace_id = ua_namespace_id a,
     cap_description = ua_description a, config_template = ua_config_template a,
     required_knowledge = ua_required_knowledge a, cap_tags = Some [], cap_created_by = None,
     created_via = ua_created_via a, source_entity_slug = ua_source_entity_slug a\<rparr>"

definition opt_ref :: "'a base_row_scheme list \<Rightarrow> ident option \<Rightarrow> bool" where
  "opt_ref rows i = (case i of None \<Rightarrow> True | Some x \<Rightarrow> fk_exists rows x)"

definition ck_capability_market_scope :: "capability_entry \<Rightarrow> bool" where
  "ck_capability_market_scope c = (cap_scope c \<in> {''system'', ''org'', ''namespace''})"

definition upsert_capability ::
    "timestamp \<Rightarrow> upsert_args \<Rightarrow> 'z db_scheme \<Rightarrow> ('z db_scheme \<times> capability_entry) result" where
  "upsert_capability now a s =
     (case scalar_one_or_none (filter (\<lambda>c. cap_name c = ua_name a \<and> live c) (capability_market s)) of
        Inl e \<Rightarrow> Inl e
      | Inr (Some c) \<Rightarrow> Inr (s, c)
      | Inr None \<Rightarrow>
          let c = new_capability (new_id s) now a
          in if ck_capability_market_scope c \<and> opt_ref (organizations s) (ua_organization_id a)
                \<and> opt_ref (namespaces s) (ua_namespace_id a)
             then Inr ((take_id s)\<lparr>capability_market := capability_market s @ [c]\<rparr>, c)
             else Inl unhandled_error)"

definition ec_key :: "entity_capability \<Rightarrow> ident \<times> ident" where
  "ec_key l = (ec_entity_id l, ec_capability_id l)"

definition ec_row :: "ident \<Rightarrow> timestamp \<Rightarrow> ident \<times> ident \<Rightarrow> entity_capability" where
  "ec_row i now k = \<lparr>row_id = i, created_at = now, updated_at = now, deleted_at = None,
     ec_entity_id = fst k, ec_capability_id = snd k\<rparr>"

definition ec_refs :: "ident \<times> ident \<Rightarrow> 'z db_scheme \<Rightarrow> bool" where
  "ec_refs k s \<longleftrightarrow> fk_exists (entities s) (fst k) \<and> fk_exists (capability_market s) (snd k)"

definition bcc_key :: "base_class_capability \<Rightarrow> ident \<times> ident" where
  "bcc_key l = (bcc_base_class_id l, bcc_capability_id l)"

definition bcc_row :: "ident \<Rightarrow> timestamp \<Rightarrow> ident \<times> ident \<Rightarrow> base_class_capability" where
  "bcc_row i now k = \<lparr>row_id = i, created_at = now, updated_at = now, deleted_at = None,
     bcc_base_class_id = fst k, bcc_capability_id = snd k\<rparr>"

definition bcc_refs :: "ident \<times> ident \<Rightarrow> 'z db_scheme \<Rightarrow> bool" where
  "bcc_refs k s \<longleftrightarrow> fk_exists (base_classes s) (fst k) \<and> fk_exists (capability_market s) (snd k)"

definition eg_key :: "entity_ai_gene \<Rightarrow> ident \<times> ident" where
  "eg_key l = (eg_entity_id l, eg_ai_gene_id l)"

definition eg_row :: "ident \<Rightarrow> timestamp \<Rightarrow> ident \<times> ident \<Rightarrow> entity_ai_gene" where
  "eg_row i now k = \<lparr>row_id = i, created_at = now, updated_at = now, deleted_at = None,
     eg_entity_id = fst k, eg_ai_gene_id = snd k\<rparr>"

definition eg_refs :: "ident \<times> ident \<Rightarrow> 'z db_scheme \<Rightarrow> bool" where
  "eg_refs k s \<longleftrightarrow> fk_exists (entities s) (fst k) \<and> fk_exists (ai_genes s) (snd k)"

definition bcg_key :: "base_class_ai_gene \<Rightarrow> ident \<times> ident" where
  "bcg_key l = (bcg_base_class_id l, bcg_ai_gene_id l)"

definition bcg_row :: "ident \<Rightarrow> timestamp \<Rightarrow> ident \<times> ident \<Rightarrow> base_class_ai_gene" where
  "bcg_row i now k = \<lparr>row_id = i, created_at = now, updated_at = now, deleted_at = None,
     bcg_base_class_id = fst k, bcg_ai_gene_id = snd k\<rparr>"

definition bcg_refs :: "ident \<times> ident \<Rightarrow> 'z db_scheme \<Rightarrow> bool" where
  "bcg_refs k s \<longleftrightarrow> fk_exists (base_classes s) (fst k) \<and> fk_exists (ai_genes s) (snd k)"

text \<open>The keys are (Entity or BaseClass, capability or gene).\<close>

definition attach_entity_capability :: "timestamp \<Rightarrow> ident \<times> ident \<Rightarrow> 'z db_scheme \<Rightarrow> 'z db_scheme result" where
  "attach_entity_capability = attach_link entity_capabilities entity_capabilities_update ec_key ec_row ec_refs"

definition detach_entity_capability :: "timestamp \<Rightarrow> ident \<times> ident \<Rightarrow> 'z db_scheme \<Rightarrow> 'z db_scheme result" where
  "detach_entity_capability = detach_link entity_capabilities entity_capabilities_update ec_key
     (NotFoundError ''entity.capability_not_attached'' ''errors.entity.capability_not_attached'')"

definition attach_base_class_capability :: "timestamp \<Rightarrow> ident \<times> ident \<Rightarrow> 'z db_scheme \<Rightarrow> 'z db_scheme result" where
  "attach_base_class_capability =
     attach_link base_class_capabilities base_class_capabilities_update bcc_key bcc_row bcc_refs"

definition detach_base_class_capability :: "timestamp \<Rightarrow> ident \<times> ident \<Rightarrow> 'z db_scheme \<Rightarrow> 'z db_scheme result" where
  "detach_base_class_capability = detach_link base_class_capabilities base_class_capabilities_update bcc_key
     (NotFoundError ''base_class.capability_not_attached'' ''errors.base_class.capability_not_attached'')"

definition attach_entity_ai_gene :: "timestamp \<Rightarrow> ident \<times> ident \<Rightarrow> 'z db_scheme \<Rightarrow> 'z db_scheme result" where
  "attach_entity_ai_gene = attach_link entity_ai_genes entity_ai_genes_update eg_key eg_row eg_refs"

definition detach_entity_ai_gene :: "timestamp \<Rightarrow> ident \<times> ident \<Rightarrow> 'z db_scheme \<Rightarrow> 'z db_scheme result" where
  "detach_entity_ai_gene = detach_link entity_ai_genes entity_ai_genes_update eg_key
     (NotFoundError ''entity.ai_gene_not_attached'' ''errors.entity.ai_gene_not_attached'')"

definition attach_base_class_ai_gene :: "timestamp \<Rightarrow> ident \<times> ident \<Rightarrow> 'z db_scheme \<Rightarrow> 'z db_scheme result" where
  "attach_base_class_ai_gene = attach_link base_class_ai_genes base_class_ai_genes_update bcg_key bcg_row bcg_refs"

definition detach_base_class_ai_gene :: "timestamp \<Rightarrow> ident \<times> ident \<Rightarrow> 'z db_scheme \<Rightarrow> 'z db_scheme result" where
  "detach_base_class_ai_gene = detach_link base_class_ai_genes base_class_ai_genes_update bcg_key
     (NotFoundError ''base_class.ai_gene_not_attached'' ''errors.base_class.ai_gene_not_attached'')"

section \<open>The fingerprint (core/migration_hash.py)\<close>

definition prompt_sha :: "(string \<Rightarrow> string) \<Rightarrow> string option \<Rightarrow> string" where
  "prompt_sha sha prompt = sha (str_or prompt [])"

definition normalize_capabilities :: "json_obj list \<Rightarrow> json_obj list" where
  "normalize_capabilities caps = sort_key (\<lambda>c. json_dumps True (JObj c)) caps"

definition compute_migration_hash :: "(string \<Rightarrow> string) \<Rightarrow> json_obj list \<Rightarrow> string option \<Rightarrow> string" where
  "compute_migration_hash sha caps prompt =
     sha (json_dumps False (JList (map JObj (normalize_capabilities caps))) @ '':'' @ prompt_sha sha prompt)"

definition compute_entity_migration_hash :: "(string \<Rightarrow> string) \<Rightarrow> entity \<Rightarrow> 'z db_scheme \<Rightarrow> string result" where
  "compute_entity_migration_hash sha ent s =
     (case load_entity_capability_dicts (row_id ent) (Some ent) s of
        Inl e \<Rightarrow> Inl e
      | Inr caps \<Rightarrow> Inr (compute_migration_hash sha caps (system_prompt ent)))"

definition bump_entity_migration_hash ::
    "(string \<Rightarrow> string) \<Rightarrow> timestamp \<Rightarrow> entity \<Rightarrow> 'z db_scheme \<Rightarrow> 'z db_scheme result" where
  "bump_entity_migration_hash sha now ent s =
     (case compute_entity_migration_hash sha ent s of
        Inl e \<Rightarrow> Inl e
      | Inr h \<Rightarrow> Inr (s\<lparr>entities := update_where (\<lambda>e. row_id e = row_id ent)
                   (\<lambda>e. modified now e (e\<lparr>migration_hash := Some h\<rparr>)) (entities s)\<rparr>))"

fun bump_each :: "(string \<Rightarrow> string) \<Rightarrow> timestamp \<Rightarrow> entity list \<Rightarrow> 'z db_scheme \<Rightarrow> 'z db_scheme result" where
  "bump_each sha now [] s = Inr s"
| "bump_each sha now (e # es) s =
     (case bump_entity_migration_hash sha now e s of
        Inl err \<Rightarrow> Inl err
      | Inr s' \<Rightarrow> bump_each sha now es s')"

definition bump_entities_for_base_class ::
    "(string \<Rightarrow> string) \<Rightarrow> timestamp \<Rightarrow> string \<Rightarrow> 'z db_scheme \<Rightarrow> 'z db_scheme result" where
  "bump_entities_for_base_class sha now slug s =
     bump_each sha now (filter (\<lambda>e. preset_slug e = Some slug \<and> live e) (entities s)) s"

fun bump_base_classes :: "(string \<Rightarrow> string) \<Rightarrow> timestamp \<Rightarrow> base_class list \<Rightarrow> 'z db_scheme \<Rightarrow> 'z db_scheme result" where
  "bump_base_classes sha now [] s = Inr s"
| "bump_base_classes sha now (b # bs) s =
     (case bump_entities_for_base_class sha now (bcl_slug b) s of
        Inl e \<Rightarrow> Inl e
      | Inr s' \<Rightarrow> bump_base_classes sha now bs s')"

text \<open>The Entities and the BaseClasses linked to a gene.\<close>

definition gene_holders :: "ident \<Rightarrow> 'z db_scheme \<Rightarrow> entity list" where
  "gene_holders gid s = [e. e \<leftarrow> entities s, l \<leftarrow> entity_ai_genes s,
     eg_entity_id l = row_id e \<and> eg_ai_gene_id l = gid \<and> live l \<and> live e]"

definition gene_base_classes :: "ident \<Rightarrow> 'z db_scheme \<Rightarrow> base_class list" where
  "gene_base_classes gid s = [b. b \<leftarrow> base_classes s, l \<leftarrow> base_class_ai_genes s,
     bcg_base_class_id l = row_id b \<and> bcg_ai_gene_id l = gid \<and> live l \<and> live b]"

definition bump_entities_for_gene ::
    "(string \<Rightarrow> string) \<Rightarrow> timestamp \<Rightarrow> ident \<Rightarrow> 'z db_scheme \<Rightarrow> 'z db_scheme result" where
  "bump_entities_for_gene sha now gid s =
     (case bump_each sha now (gene_holders gid s) s of
        Inl e \<Rightarrow> Inl e
      | Inr s1 \<Rightarrow> bump_base_classes sha now (gene_base_classes gid s1) s1)"

end
