(* ===== verification/Capabilities_Props.thy ===== *)
theory Capabilities_Props
  imports Capabilities "HOL-Library.Multiset"
begin

text \<open>
  What the capability operations keep: the four link tables behave as sets, the effective surface of
  an Entity has every name once, and a bump leaves every Entity that uses a gene or a BaseClass with
  the fingerprint of its current surface.
\<close>

section \<open>The link tables\<close>

interpretation entity_caps: junction entity_capabilities entity_capabilities_update ec_key ec_row ec_refs
  by unfold_locales (simp_all add: ec_refs_def ec_row_def ec_key_def live_def soft_delete_def touch_def)

interpretation base_class_caps: junction base_class_capabilities base_class_capabilities_update bcc_key bcc_row bcc_refs
  by unfold_locales (simp_all add: bcc_refs_def bcc_row_def bcc_key_def live_def soft_delete_def touch_def)

interpretation own_genes: junction entity_ai_genes entity_ai_genes_update eg_key eg_row eg_refs
  by unfold_locales (simp_all add: eg_refs_def eg_row_def eg_key_def live_def soft_delete_def touch_def)

interpretation preset_genes: junction base_class_ai_genes base_class_ai_genes_update bcg_key bcg_row bcg_refs
  by unfold_locales (simp_all add: bcg_refs_def bcg_row_def bcg_key_def live_def soft_delete_def touch_def)

definition all_links_ok :: "'z db_scheme \<Rightarrow> bool" where
  "all_links_ok s \<longleftrightarrow> links_ok ec_key entity_capabilities s \<and> links_ok bcc_key base_class_capabilities s \<and>
     links_ok eg_key entity_ai_genes s \<and> links_ok bcg_key base_class_ai_genes s"


section \<open>The effective surface\<close>

lemma concat_if_const: "concat (map (\<lambda>l. if P l then [c] else []) ls) = map (\<lambda>_. c) (filter P ls)"
  by (induction ls) auto

text \<open>A join over a link table with unique keys selects each row at most once.\<close>

lemma join_filter:
  assumes "unique_on live key ls" and "\<And>l c. P l c \<longleftrightarrow> key l = k c \<and> live l \<and> Q c"
  shows "concat (map (\<lambda>c. concat (map (\<lambda>l. if P l c then [c] else []) ls)) rows)
    = filter (\<lambda>c. Q c \<and> k c \<in> links key ls) rows"
proof -
  have "map (\<lambda>_. c) (filter (\<lambda>l. P l c) ls) = (if Q c \<and> k c \<in> links key ls then [c] else [])" for c
    using unique_filter_key [OF assms(1), of "k c"] by (cases "Q c") (auto simp: assms(2))
  then show ?thesis by (induction rows) (auto simp: concat_if_const)
qed

lemma entity_market_rows_filter:
  assumes "links_ok ec_key entity_capabilities s"
  shows "entity_market_rows eid s
    = filter (\<lambda>c. live c \<and> (eid, row_id c) \<in> links ec_key (entity_capabilities s)) (capability_market s)"
  unfolding entity_market_rows_def
  by (rule join_filter) (use assms in \<open>auto simp: links_ok_def ec_key_def\<close>)

lemma cap_label_dict [simp]: "cap_label (capability_to_dict c) = Some (cap_name c)"
  by (simp add: cap_label_def capability_to_dict_def)

lemma name_key_dict [simp]: "name_key (capability_to_dict c) = cap_name c"
  by (simp add: name_key_def)

lemma merge_by_name_effect:
  "merge_by_name merged seen caps = Inr out \<Longrightarrow> set seen = name_key ` set merged \<Longrightarrow>
   distinct (map name_key merged) \<Longrightarrow>
   prefix merged out \<and> distinct (map name_key out) \<and> set out \<subseteq> set merged \<union> set caps \<and>
   name_key ` set out = name_key ` set merged \<union> name_key ` set caps"
proof (induction merged seen caps arbitrary: out rule: merge_by_name.induct)
  case (2 merged seen cap caps)
  from "2.prems"(1) obtain n where n: "cap_label cap = Some n" by (auto split: option.splits)
  then have k: "name_key cap = n" by (simp add: name_key_def)
  show ?case
  proof (cases "n \<in> set seen")
    case True
    then have "merge_by_name merged seen caps = Inr out" using "2.prems"(1) n by simp
    note ih = "2.IH"(1) [OF n True this "2.prems"(2,3)]
    have "name_key cap \<in> name_key ` set merged" using True "2.prems"(2) k by simp
    then have "name_key ` set merged \<union> name_key ` set (cap # caps) = name_key ` set merged \<union> name_key ` set caps"
      by auto
    with ih show ?thesis by auto
  next
    case False
    then have r: "merge_by_name (merged @ [cap]) (n # seen) caps = Inr out" using "2.prems"(1) n by simp
    have "set (n # seen) = name_key ` set (merged @ [cap])" "distinct (map name_key (merged @ [cap]))"
      using "2.prems"(2,3) False k by auto
    note ih = "2.IH"(2) [OF n False r this]
    then have "prefix merged out" by (blast dest: append_prefixD)
    with ih show ?thesis by auto
  qed
qed simp

text \<open>
  The effective surface of an Entity: every name once, in order; the names are those of the live
  market rows linked to it and those its genes list; and a market row always contributes its own
  description, a gene's capability of the same name never.\<close>
theorem effective_surface:
  assumes "links_ok ec_key entity_capabilities s" and "uq_capability_market_name (capability_market s)"
    and "load_entity_capability_dicts eid ent s = Inr caps"
    and "load_entity_gene_inline_capability_dicts eid (entity_preset eid ent s) s = Inr gene_caps"
  shows "sorted (map name_key caps) \<and> distinct (map name_key caps) \<and>
    set (map name_key caps) = cap_name ` set (entity_market_rows eid s) \<union> name_key ` set gene_caps \<and>
    capability_to_dict ` set (entity_market_rows eid s) \<subseteq> set caps"
proof -
  let ?rows = "sort_key cap_name (entity_market_rows eid s)"
  let ?market = "map capability_to_dict ?rows"
  obtain merged where m: "merge_by_name ?market (map name_key ?market) gene_caps = Inr merged"
    and c: "caps = sort_key name_key merged"
    using assms(3,4) by (auto simp: load_entity_capability_dicts_def Let_def split: sum.splits)
  have "distinct (map cap_name (entity_market_rows eid s))"
  proof -
    have "distinct (map cap_name (filter (\<lambda>c. (eid, row_id c) \<in> links ec_key (entity_capabilities s))
        (filter live (capability_market s))))"
      using assms(2) unfolding uq_capability_market_name_def unique_on_def by (rule distinct_map_filter)
    then show ?thesis by (simp add: entity_market_rows_filter [OF assms(1)] conj_commute)
  qed
  moreover have "mset (map cap_name ?rows) = mset (map cap_name (entity_market_rows eid s))" by simp
  ultimately have d: "distinct (map name_key ?market)"
    by (simp add: comp_def) (metis mset_eq_imp_distinct_iff mset_map mset_sort)
  have "name_key ` set ?market = set (map name_key ?market)" by (metis list.set_map)
  from merge_by_name_effect [OF m this [symmetric] d]
  have e: "prefix ?market merged" "distinct (map name_key merged)"
    "name_key ` set merged = name_key ` set ?market \<union> name_key ` set gene_caps" by blast+
  have "distinct (map name_key caps)"
    unfolding c using e(2) by (metis mset_eq_imp_distinct_iff mset_map mset_sort)
  moreover have "set ?market \<subseteq> set merged" using e(1) by (auto simp: prefix_def)
  ultimately show ?thesis using e(3) by (auto simp: c image_image)
qed

section \<open>Fingerprints\<close>

text \<open>The fields of an Entity that its fingerprint reads.\<close>

definition core :: "entity \<Rightarrow> ident \<times> bool \<times> string option \<times> string option" where
  "core e = (row_id e, live e, preset_slug e, system_prompt e)"

definition in_sync :: "(string \<Rightarrow> string) \<Rightarrow> entity \<Rightarrow> 'z db_scheme \<Rightarrow> bool" where
  "in_sync sha e s =
     (case compute_entity_migration_hash sha e s of Inl err \<Rightarrow> False | Inr h \<Rightarrow> migration_hash e = Some h)"

lemma surface_entities:
  "load_entity_capability_dicts i (Some e) (s\<lparr>entities := X\<rparr>) = load_entity_capability_dicts i (Some e) s"
proof -
  have "load_entity_gene_inline_capability_dicts j p (s\<lparr>entities := X\<rparr>)
      = load_entity_gene_inline_capability_dicts j p s" for j p
  proof -
    have "entity_genes j (s\<lparr>entities := X\<rparr>) = entity_genes j s" by (simp add: entity_genes_def)
    moreover have "inherited_genes p (s\<lparr>entities := X\<rparr>) = inherited_genes p s"
      by (simp add: inherited_genes_def base_class_by_slug_def base_class_genes_def split: sum.split option.split)
    ultimately show ?thesis by (simp add: load_entity_gene_inline_capability_dicts_def split: sum.split)
  qed
  then show ?thesis
    by (simp add: load_entity_capability_dicts_def entity_market_rows_def entity_preset_def Let_def)
qed

lemma hash_core:
  "core a = core b \<Longrightarrow> compute_entity_migration_hash sha a s = compute_entity_migration_hash sha b s"
  by (simp add: compute_entity_migration_hash_def load_entity_capability_dicts_def entity_preset_def core_def
      split: sum.split)

lemma hash_entities:
  "compute_entity_migration_hash sha e (s\<lparr>entities := X\<rparr>) = compute_entity_migration_hash sha e s"
  by (simp add: compute_entity_migration_hash_def surface_entities)

lemma in_sync_entities: "in_sync sha e (s\<lparr>entities := X\<rparr>) = in_sync sha e s"
  by (simp add: in_sync_def hash_entities)

text \<open>A step that refreshes the fingerprints of the Entities with a core in \<open>I\<close> and of no other.\<close>

definition refreshes :: "(string \<Rightarrow> string) \<Rightarrow> (ident \<times> bool \<times> string option \<times> string option) set
    \<Rightarrow> 'z db_scheme \<Rightarrow> 'z db_scheme \<Rightarrow> bool" where
  "refreshes sha I s t \<longleftrightarrow> t = s\<lparr>entities := entities t\<rparr> \<and>
     list_all2 (\<lambda>r r'. core r' = core r \<and> (if core r \<in> I then in_sync sha r' s else r' = r)) (entities s) (entities t)"

lemma refreshes_refl: "refreshes sha {} s s"
  by (simp add: refreshes_def list_all2_same)

lemma refreshes_frame: "refreshes sha I s t \<Longrightarrow> t = s\<lparr>entities := entities t\<rparr>"
  unfolding refreshes_def by (rule conjunct1)

lemma refreshes_rows:
  "refreshes sha I s t \<Longrightarrow>
   list_all2 (\<lambda>r r'. core r' = core r \<and> (if core r \<in> I then in_sync sha r' s else r' = r)) (entities s) (entities t)"
  unfolding refreshes_def by (rule conjunct2)

lemma refreshes_in_sync: "refreshes sha I s t \<Longrightarrow> in_sync sha e t = in_sync sha e s"
  using refreshes_frame in_sync_entities by metis

lemma refreshes_trans:
  assumes "refreshes sha I s t" "refreshes sha J t u"
  shows "refreshes sha (I \<union> J) s u"
  unfolding refreshes_def
proof (rule conjI)
  show "u = s\<lparr>entities := entities u\<rparr>"
    by (subst refreshes_frame [OF assms(2)], subst refreshes_frame [OF assms(1)]) simp
  show "list_all2 (\<lambda>r r'. core r' = core r \<and> (if core r \<in> I \<union> J then in_sync sha r' s else r' = r))
      (entities s) (entities u)"
    by (rule list_all2_trans [OF _ refreshes_rows [OF assms(1)] refreshes_rows [OF assms(2)]])
      (simp add: refreshes_in_sync [OF assms(1)] split: if_splits)
qed

lemma refreshes_row:
  assumes "refreshes sha I s t" "e \<in> set (entities t)"
  obtains e0 where "e0 \<in> set (entities s)" "core e = core e0" "if core e0 \<in> I then in_sync sha e s else e = e0"
proof -
  obtain k where k: "k < length (entities t)" "e = entities t ! k" using assms(2) by (auto simp: in_set_conv_nth)
  note r = refreshes_rows [OF assms(1)]
  have "k < length (entities s)" using k(1) list_all2_lengthD [OF r] by simp
  with list_all2_nthD [OF r this] k(2) that show ?thesis by (metis nth_mem)
qed

lemma refreshes_cores:
  assumes "refreshes sha I s t"
  shows "map core (entities t) = map core (entities s)"
  using refreshes_rows [OF assms] by (induction rule: list_all2_induct) simp_all

lemma refreshes_one:
  assumes "bump_entity_migration_hash sha now e s = Inr t"
    and "\<And>r. r \<in> set (entities s) \<Longrightarrow> row_id r = row_id e \<Longrightarrow> core r = core e"
  shows "refreshes sha {core e} s t"
proof -
  obtain h where h: "compute_entity_migration_hash sha e s = Inr h"
    and t: "t = s\<lparr>entities := update_where (\<lambda>x. row_id x = row_id e)
        (\<lambda>x. modified now x (x\<lparr>migration_hash := Some h\<rparr>)) (entities s)\<rparr>"
    using assms(1) by (auto simp: bump_entity_migration_hash_def split: sum.splits)
  let ?f = "\<lambda>x. modified now x (x\<lparr>migration_hash := Some h\<rparr>)"
  have f: "core (?f r) = core r" "migration_hash (?f r) = Some h" for r
  proof -
    show "core (?f r) = core r" by (simp add: modified_def touch_def core_def live_def)
    show "migration_hash (?f r) = Some h" by (rule modified_field [THEN trans]) (simp_all add: touch_def)
  qed
  have "core r = core e \<longleftrightarrow> row_id r = row_id e" if "r \<in> set (entities s)" for r
    using assms(2) [OF that] by (auto simp: core_def)
  moreover have "in_sync sha (?f r) s" if "core r = core e" for r
    using hash_core [of "?f r" e sha s] that h f by (simp add: in_sync_def)
  ultimately show ?thesis
    by (auto simp: refreshes_def t update_where_def list_all2_conv_all_nth f)
qed

lemma refreshes_each:
  "bump_each sha now es s = Inr t \<Longrightarrow>
   (\<And>e r. e \<in> set es \<Longrightarrow> r \<in> set (entities s) \<Longrightarrow> row_id r = row_id e \<Longrightarrow> core r = core e) \<Longrightarrow>
   refreshes sha (core ` set es) s t"
proof (induction es arbitrary: s)
  case Nil
  then show ?case by (simp add: refreshes_refl)
next
  case (Cons e es)
  obtain u where u: "bump_entity_migration_hash sha now e s = Inr u" and r: "bump_each sha now es u = Inr t"
    using Cons.prems(1) by (auto split: sum.splits)
  have one: "refreshes sha {core e} s u" by (rule refreshes_one [OF u]) (rule Cons.prems(2), simp_all)
  have cores: "core x = core d" if "d \<in> set es" "x \<in> set (entities u)" "row_id x = row_id d" for d x
  proof -
    have "core x \<in> core ` set (entities s)"
      using that(2) refreshes_cores [OF one] by (metis image_eqI list.set_map)
    then obtain y where y: "y \<in> set (entities s)" "core x = core y" by blast
    then have "row_id y = row_id d" using that(3) by (simp add: core_def)
    from Cons.prems(2) [OF list.set_intros(2) [OF that(1)] y(1) this] y(2) show ?thesis by (rule trans [rotated])
  qed
  have "refreshes sha (core ` set es) u t" by (rule Cons.IH [OF r]) (rule cores)
  from refreshes_trans [OF one this] show ?case by (simp only: list.set image_insert insert_is_Un [of "core e" "core ` _"])
qed

lemma same_core: "distinct (map row_id (entities s)) \<Longrightarrow> e \<in> set (entities s) \<Longrightarrow> r \<in> set (entities s) \<Longrightarrow>
    row_id r = row_id e \<Longrightarrow> core r = core e"
  by (metis distinct_map inj_on_contraD)

lemma refreshes_ids: "refreshes sha I s t \<Longrightarrow> map row_id (entities t) = map row_id (entities s)"
  using arg_cong [OF refreshes_cores, of sha I s t "map fst"] by (simp add: comp_def core_def)

definition preset_cores :: "string \<Rightarrow> 'z db_scheme \<Rightarrow> (ident \<times> bool \<times> string option \<times> string option) set" where
  "preset_cores slug s = {core e |e. e \<in> set (entities s) \<and> live e \<and> preset_slug e = Some slug}"

lemma preset_cores_refreshes: "refreshes sha I s t \<Longrightarrow> preset_cores slug t = preset_cores slug s"
proof -
  assume "refreshes sha I s t"
  from arg_cong [OF refreshes_cores [OF this], of set] have "core ` set (entities t) = core ` set (entities s)" by simp
  moreover have "preset_cores slug s = {c \<in> core ` set (entities s). fst (snd c) \<and> fst (snd (snd c)) = Some slug}" for s :: "'a db_scheme"
    by (auto simp: preset_cores_def core_def)
  ultimately show ?thesis by simp
qed

lemma refreshes_base_class:
  assumes "distinct (map row_id (entities s))" "bump_entities_for_base_class sha now slug s = Inr t"
  shows "refreshes sha (preset_cores slug s) s t"
proof -
  have "refreshes sha (core ` set (filter (\<lambda>e. preset_slug e = Some slug \<and> live e) (entities s))) s t"
    by (rule refreshes_each) (use assms same_core in \<open>auto simp: bump_entities_for_base_class_def\<close>)
  moreover have "core ` set (filter (\<lambda>e. preset_slug e = Some slug \<and> live e) (entities s)) = preset_cores slug s"
    by (auto simp: preset_cores_def)
  ultimately show ?thesis by simp
qed

lemma refreshes_base_classes:
  "bump_base_classes sha now bs s = Inr t \<Longrightarrow> distinct (map row_id (entities s)) \<Longrightarrow>
   refreshes sha (\<Union>b \<in> set bs. preset_cores (bcl_slug b) s) s t"
proof (induction bs arbitrary: s)
  case Nil
  then show ?case by (simp add: refreshes_refl)
next
  case (Cons b bs)
  obtain u where u: "bump_entities_for_base_class sha now (bcl_slug b) s = Inr u" and r: "bump_base_classes sha now bs u = Inr t"
    using Cons.prems(1) by (auto split: sum.splits)
  note one = refreshes_base_class [OF Cons.prems(2) u]
  have "distinct (map row_id (entities u))" using Cons.prems(2) refreshes_ids [OF one] by simp
  from refreshes_trans [OF one Cons.IH [OF r this]] show ?case
    by (simp add: preset_cores_refreshes [OF one])
qed

definition uses_gene :: "ident \<Rightarrow> entity \<Rightarrow> 'z db_scheme \<Rightarrow> bool" where
  "uses_gene gid e s \<longleftrightarrow> (row_id e, gid) \<in> links eg_key (entity_ai_genes s) \<or>
     (\<exists>b \<in> set (base_classes s). live b \<and> preset_slug e = Some (bcl_slug b) \<and>
        (row_id b, gid) \<in> links bcg_key (base_class_ai_genes s))"

lemma in_gene_holders:
  "e \<in> set (gene_holders gid s) \<longleftrightarrow>
   e \<in> set (entities s) \<and> live e \<and> (row_id e, gid) \<in> links eg_key (entity_ai_genes s)"
  unfolding gene_holders_def
  by (simp only: set_concat set_map in_if_list in_links eg_key_def prod.inject UN_iff image_image) blast

lemma in_gene_base_classes:
  "b \<in> set (gene_base_classes gid s) \<longleftrightarrow>
   b \<in> set (base_classes s) \<and> live b \<and> (row_id b, gid) \<in> links bcg_key (base_class_ai_genes s)"
  unfolding gene_base_classes_def
  by (simp only: set_concat set_map in_if_list in_links bcg_key_def prod.inject UN_iff image_image) blast

lemma holder_cores:
  assumes "distinct (map row_id (entities s))" "e \<in> set (entities s)"
  shows "core e \<in> core ` set (gene_holders gid s) \<longleftrightarrow> live e \<and> (row_id e, gid) \<in> links eg_key (entity_ai_genes s)"
proof -
  have "e \<in> set (gene_holders gid s)" if x: "x \<in> set (gene_holders gid s)" "core e = core x" for x
  proof -
    have "x \<in> set (entities s)" "row_id x = row_id e" using x by (simp_all add: in_gene_holders core_def)
    then have "x = e" using assms by (meson distinct_map inj_on_contraD)
    with x(1) show ?thesis by simp
  qed
  then have "core e \<in> core ` set (gene_holders gid s) \<longleftrightarrow> e \<in> set (gene_holders gid s)" by blast
  with assms(2) show ?thesis by (simp add: in_gene_holders)
qed

lemma preset_cores_iff:
  "e \<in> set (entities s) \<Longrightarrow> core e \<in> preset_cores slug s \<longleftrightarrow> live e \<and> preset_slug e = Some slug"
  by (auto simp: preset_cores_def core_def)

text \<open>The cores a bump for a gene refreshes.\<close>

definition gene_cores :: "ident \<Rightarrow> 'z db_scheme \<Rightarrow> (ident \<times> bool \<times> string option \<times> string option) set" where
  "gene_cores gid s = core ` set (gene_holders gid s) \<union>
     (\<Union>b \<in> set (gene_base_classes gid s). preset_cores (bcl_slug b) s)"

lemma gene_cores_iff:
  assumes "distinct (map row_id (entities s))" "e \<in> set (entities s)"
  shows "core e \<in> gene_cores gid s \<longleftrightarrow> live e \<and> uses_gene gid e s"
  by (auto simp: gene_cores_def holder_cores [OF assms] preset_cores_iff [OF assms(2)] in_gene_base_classes uses_gene_def)

lemma refreshes_gene:
  assumes "distinct (map row_id (entities s))" "bump_entities_for_gene sha now gid s = Inr t"
  shows "refreshes sha (gene_cores gid s) s t"
proof -
  obtain u where u: "bump_each sha now (gene_holders gid s) s = Inr u"
    and r: "bump_base_classes sha now (gene_base_classes gid u) u = Inr t"
    using assms(2) by (auto simp: bump_entities_for_gene_def split: sum.splits)
  have one: "refreshes sha (core ` set (gene_holders gid s)) s u"
    by (rule refreshes_each [OF u]) (use same_core [OF assms(1)] in_gene_holders in blast)
  have two: "refreshes sha (\<Union>b \<in> set (gene_base_classes gid u). preset_cores (bcl_slug b) u) u t"
    by (rule refreshes_base_classes [OF r]) (use assms(1) refreshes_ids [OF one] in simp)
  have "gene_base_classes gid u = gene_base_classes gid s"
    by (subst refreshes_frame [OF one]) (simp add: gene_base_classes_def)
  with refreshes_trans [OF one two] show ?thesis
    by (simp only: preset_cores_refreshes [OF one] gene_cores_def)
qed

text \<open>
  C22. A change of a gene reaches everyone who uses it: after the bump every live Entity that has the
  gene, by its own link or through its BaseClass, carries the fingerprint of its current surface,
  and every other Entity row is untouched.\<close>
theorem bump_for_gene_in_sync:
  assumes "distinct (map row_id (entities s))" and "bump_entities_for_gene sha now gid s = Inr t"
    and "e \<in> set (entities t)"
  shows "if live e \<and> uses_gene gid e t then in_sync sha e t else e \<in> set (entities s)"
proof -
  note all = refreshes_gene [OF assms(1,2)]
  obtain e0 where e0: "e0 \<in> set (entities s)" "core e = core e0"
    "if core e0 \<in> gene_cores gid s then in_sync sha e s else e = e0"
    by (rule refreshes_row [OF all assms(3)])
  have "uses_gene gid e t = uses_gene gid e0 s"
    using e0(2) by (subst refreshes_frame [OF all]) (simp add: uses_gene_def core_def)
  moreover have "live e = live e0" using e0(2) by (simp add: core_def)
  ultimately show ?thesis using e0 gene_cores_iff [OF assms(1) e0(1), of gid]
    by (auto simp: refreshes_in_sync [OF all] split: if_splits)
qed

text \<open>
  The fingerprint does not depend on the order in which capabilities are listed, whatever the
  digest function is.\<close>
theorem migration_hash_order:
  assumes "mset caps = mset caps'" and "distinct (map (\<lambda>c. json_dumps True (JObj c)) caps)"
  shows "compute_migration_hash sha caps prompt = compute_migration_hash sha caps' prompt"
proof -
  have "inj_on (\<lambda>c. json_dumps True (JObj c)) (set caps)" using assms(2) unfolding distinct_map by (rule conjunct2)
  then have "normalize_capabilities caps = normalize_capabilities caps'"
    unfolding normalize_capabilities_def using assms(1) by (intro sort_key_inj_key_eq) simp_all
  then show ?thesis by (simp add: compute_migration_hash_def)
qed

section \<open>Witnesses\<close>

definition market_cap :: "ident \<Rightarrow> string \<Rightarrow> capability_entry" where
  "market_cap i nm = new_capability i 0 \<lparr>ua_name = nm, ua_type = ''skill'', ua_scope = ''org'',
     ua_organization_id = None, ua_namespace_id = None, ua_created_via = ''manual'', ua_description = None,
     ua_config_template = None, ua_required_knowledge = None, ua_source_entity_slug = None\<rparr>"

definition market_gene :: ai_gene where
  "market_gene = \<lparr>row_id = ''g'', created_at = 0, updated_at = 0, deleted_at = None, ag_slug = ''scout'',
     ag_name = ''Scout'', ag_scope = ''org'', ag_organization_id = None, ag_namespace_id = None, ag_tags = None,
     ag_manifest = Some [(''capabilities'', JList [JObj [(''name'', JStr ''map'')], JObj [(''name'', JStr ''dig'')]])],
     ag_description = None\<rparr>"

definition market_entity :: entity where
  "market_entity = \<lparr>row_id = ''e'', created_at = 0, updated_at = 0, deleted_at = None,
     ent_namespace_id = ''s'', ent_name = ''Fox'', ent_slug = ''fox'', preset_slug = None, display_name = None,
     display_color = None, system_prompt = None, config_override = None, has_knowledge = None,
     migration_hash = None, is_cerebellum = False\<rparr>"

definition market_store :: db where
  "market_store = (empty_db sample_ids)\<lparr>id_next := 2, entities := [market_entity],
     capability_market := [market_cap ''c'' ''dig''], ai_genes := [market_gene],
     entity_capabilities := [ec_row (sample_ids 0) 0 (''e'', ''c'')],
     entity_ai_genes := [eg_row (sample_ids 1) 0 (''e'', ''g'')]\<rparr>"

lemma market_links_ok: "all_links_ok market_store"
  by (simp add: all_links_ok_def links_ok_def market_store_def empty_db_def sample_ids_ok ec_row_def eg_row_def
      used_ids_def)


theorem effective_surface_witness:
  "\<exists>caps. load_entity_capability_dicts ''e'' None market_store = Inr caps \<and> distinct (map name_key caps) \<and>
     set (map name_key caps) = {''dig'', ''map''}"
proof -
  have "(case load_entity_capability_dicts ''e'' None market_store of Inr caps \<Rightarrow> True | Inl e \<Rightarrow> False) \<and>
      (case load_entity_gene_inline_capability_dicts ''e'' (entity_preset ''e'' None market_store) market_store of
        Inr cs \<Rightarrow> map name_key cs = [''map'', ''dig''] | Inl e \<Rightarrow> False) \<and>
      map cap_name (entity_market_rows ''e'' market_store) = [''dig'']"
    by code_simp
  then obtain caps cs where r: "load_entity_capability_dicts ''e'' None market_store = Inr caps"
    "load_entity_gene_inline_capability_dicts ''e'' (entity_preset ''e'' None market_store) market_store = Inr cs"
    "map name_key cs = [''map'', ''dig'']" "map cap_name (entity_market_rows ''e'' market_store) = [''dig'']"
    by (auto split: sum.splits)
  from r(3,4) have k: "name_key ` set cs = {''map'', ''dig''}"
    "cap_name ` set (entity_market_rows ''e'' market_store) = {''dig''}"
    by (metis list.set_map list.simps(15) set_empty)+
  have "links_ok ec_key entity_capabilities market_store" using market_links_ok by (simp add: all_links_ok_def)
  moreover have "uq_capability_market_name (capability_market market_store)"
    by (simp add: uq_capability_market_name_def market_store_def)
  ultimately show ?thesis using effective_surface [OF _ _ r(1,2)] r(1) k by auto
qed

theorem bump_for_gene_in_sync_witness:
  "\<exists>t e. bump_entities_for_gene id 5 ''g'' market_store = Inr t \<and> e \<in> set (entities t) \<and> in_sync id e t"
proof -
  have "case bump_entities_for_gene id 5 ''g'' market_store of
      Inr t \<Rightarrow> map (\<lambda>e. (row_id e, live e)) (entities t) = [(''e'', True)] \<and>
        map (\<lambda>l. (eg_key l, live l)) (entity_ai_genes t) = [((''e'', ''g''), True)] | Inl e \<Rightarrow> False"
    by code_simp
  then obtain t e where t: "bump_entities_for_gene id 5 ''g'' market_store = Inr t" "entities t = [e]"
    "row_id e = ''e''" "live e" "(''e'', ''g'') \<in> links eg_key (entity_ai_genes t)"
    by (auto split: sum.splits simp: map_eq_Cons_conv in_links)
  have "distinct (map row_id (entities market_store))" by (simp add: market_store_def)
  from bump_for_gene_in_sync [OF this t(1), of e] t have "in_sync id e t" by (simp add: uses_gene_def)
  with t show ?thesis by auto
qed

theorem migration_hash_order_witness:
  "compute_migration_hash id [[(''name'', JStr ''a'')], [(''name'', JStr ''b'')]] None
   = compute_migration_hash id [[(''name'', JStr ''b'')], [(''name'', JStr ''a'')]] None"
proof (rule migration_hash_order)
  show "distinct (map (\<lambda>c. json_dumps True (JObj c)) [[(''name'', JStr ''a'')], [(''name'', JStr ''b'')]])"
    by code_simp
qed simp

end
