(* ===== verification/Agent_Loop.thy ===== *)
theory Agent_Loop
  imports Harness
begin

text \<open>
  The in-process agent loop (\<^verbatim>\<open>app/agent_runtime/loop.py\<close>, local mode). One attempt checks the stop
  flag and the database status, calls the language model and, on success, writes two memory rows
  and emits a checkpoint. The outcomes of the model calls, what the other tasks of the process do
  while a call is pending (\<open>env\<close>) and the clock are arguments, indexed by the attempt. The notepad
  file is a mirror outside the store; a failure to write it is only logged.
\<close>

section \<open>Model calls\<close>

record llm_response =
  lr_content :: string
  lr_prompt_tokens :: int
  lr_completion_tokens :: int
  lr_model :: string
  lr_stop_reason :: string

text \<open>
  \<open>LLMClient.complete\<close> turns every exception into \<open>LLMError\<close>; the remaining way a call can end is
  the cancellation of the task.
\<close>

datatype llm_outcome = Completion llm_response | LLM_Error | Cancelled

record agent_config =
  ac_instance_id :: ident
  ac_proxy_token :: string
  ac_iterations :: nat
  ac_client_ok :: bool

section \<open>Events of the loop\<close>

definition loop_event :: "string \<Rightarrow> ident \<Rightarrow> json_obj \<Rightarrow> event_args" where
  "loop_event ty iid payload = \<lparr>ea_type = ty, ea_actor_type = ''instance'', ea_actor_id = Some iid,
     ea_resource_type = Some ''instance'', ea_resource_id = Some iid, ea_payload = payload,
     ea_request_id = None\<rparr>"

text \<open>\<open>_on_control\<close>, the handler a loop registers for itself.\<close>

definition on_control :: "ident \<Rightarrow> 'z world_scheme handler" where
  "on_control iid e w =
     (if jget (ev_payload e) ''instance_id'' = Some (JStr iid)
         \<and> jget (ev_payload e) ''action'' = Some (JStr ''kill'')
      then (w\<lparr>stop_flags := iid # stop_flags w\<rparr>, False) else (w, False))"

definition agent_handlers :: "ident \<Rightarrow> 'z world_scheme handlers \<Rightarrow> 'z world_scheme handlers" where
  "agent_handlers iid others =
     app_handlers (register_handler HARNESS_CONTROL_SENT (on_control iid) others)"

section \<open>Reads and writes of one iteration\<close>

definition should_stop_via_db :: "ident \<Rightarrow> 'z db_scheme \<Rightarrow> bool" where
  "should_stop_via_db iid s =
     (case live_loop_state iid s of
        None \<Rightarrow> False
      | Some st \<Rightarrow> loop_status st \<in> {L_interrupted, L_paused, L_completed, L_failed})"

definition write_checkpoint_memory :: "timestamp \<Rightarrow> ident \<Rightarrow> string \<Rightarrow> 'z db_scheme \<Rightarrow> 'z db_scheme" where
  "write_checkpoint_memory now iid summary s =
     (case get_live (instances s) iid of
        None \<Rightarrow> s
      | Some i \<Rightarrow> add_memory now (ins_entity_id i) MK_experience (''checkpoint_'' @ iid)
          (take 500 summary) iid s)"

text \<open>
  The notepad row and its identifier in \<open>notepad_refs\<close>; a column value that \<open>dict\<close> refuses makes
  the whole write fail, which the loop logs.
\<close>

definition write_notepad_memory ::
    "timestamp \<Rightarrow> ident \<Rightarrow> string \<Rightarrow> string \<Rightarrow> string \<Rightarrow> 'z db_scheme \<Rightarrow> 'z db_scheme" where
  "write_notepad_memory now iid plan_slug notepad_name entry s =
     (case get_live (instances s) iid of
        None \<Rightarrow> s
      | Some i \<Rightarrow>
          if ins_entity_id i = [] then s
          else let s1 = add_memory now (ins_entity_id i) MK_notepad
                     (''notepad/'' @ plan_slug @ ''/'' @ notepad_name) (take 2000 entry) iid s
               in (case live_loop_state iid s1 of
                     None \<Rightarrow> s1
                   | Some st \<Rightarrow>
                      (case snapshot_dict (notepad_refs st) of
                         None \<Rightarrow> s
                       | Some refs \<Rightarrow> replace_loop_state
                           (modified now st (st\<lparr>notepad_refs :=
                              Some (JObj (jset notepad_name (JStr (new_id s)) refs))\<rparr>)) s1)))"

definition checkpoint_payload :: "string \<Rightarrow> llm_response \<Rightarrow> nat \<Rightarrow> json_obj" where
  "checkpoint_payload token r i =
     [(''proxy_token'', JStr token),
      (''token_estimate'', JInt (lr_prompt_tokens r + lr_completion_tokens r)),
      (''stop_reason'', JStr (lr_stop_reason r)),
      (''snapshot'', JObj [(''iteration'', JInt (int i)),
                           (''content_preview'', JStr (take 100 (lr_content r)))])]"

definition run_iteration ::
    "'z world_scheme handlers \<Rightarrow> agent_config \<Rightarrow> timestamp \<Rightarrow> nat \<Rightarrow> llm_response \<Rightarrow> 'z world_scheme
     \<Rightarrow> 'z world_scheme" where
  "run_iteration others cfg now i r w =
     (let iid = ac_instance_id cfg;
          w1 = write_checkpoint_memory now iid (take 200 (lr_content r)) w;
          w2 = write_notepad_memory now iid ''p14a-checkpoint'' ''learnings''
                 (''Checkpoint '' @ str_of_int (int i) @ '': '' @ take 120 (lr_content r)) w1
      in fst (emit (agent_handlers iid others) now
                (loop_event HARNESS_CHECKPOINT iid (checkpoint_payload (ac_proxy_token cfg) r i)) w2))"

section \<open>The loop\<close>

text \<open>
  Attempt \<open>k\<close> with \<open>i\<close> completed iterations. \<open>None\<close>: the loop never ends. Otherwise the state, the
  number of the attempt and of the iterations when it ended, and whether it was cancelled.
\<close>

partial_function (option) agent_loop ::
    "'z world_scheme handlers \<Rightarrow> (nat \<Rightarrow> 'z world_scheme \<Rightarrow> 'z world_scheme) \<Rightarrow> (nat \<Rightarrow> llm_outcome)
     \<Rightarrow> (nat \<Rightarrow> timestamp) \<Rightarrow> agent_config \<Rightarrow> nat \<Rightarrow> nat \<Rightarrow> 'z world_scheme
     \<Rightarrow> ('z world_scheme \<times> nat \<times> nat \<times> bool) option" where
  "agent_loop others env llm clock cfg k i w =
     (if ac_instance_id cfg \<in> set (stop_flags w) \<or> ac_iterations cfg \<le> i
         \<or> should_stop_via_db (ac_instance_id cfg) w
      then Some (w, k, i, False)
      else case llm k of
          LLM_Error \<Rightarrow> agent_loop others env llm clock cfg (Suc k) i (env k w)
        | Cancelled \<Rightarrow> Some (env k w, k, i, True)
        | Completion r \<Rightarrow> agent_loop others env llm clock cfg (Suc k) (Suc i)
            (run_iteration others cfg (clock k) i r (env k w)))"

text \<open>
  \<open>run_agent_loop\<close>, with the number of completed iterations. The stop flag is a fresh event; the
  attempts start at 1. A client that cannot be built ends the task before the \<open>try\<close> statement.
\<close>

definition end_run :: "ident \<Rightarrow> 'z world_scheme \<Rightarrow> 'z world_scheme" where
  "end_run iid w = w\<lparr>runtime_tasks := removeAll iid (runtime_tasks w), stop_flags := iid # stop_flags w\<rparr>"

definition run_agent_loop ::
    "'z world_scheme handlers \<Rightarrow> (nat \<Rightarrow> 'z world_scheme \<Rightarrow> 'z world_scheme) \<Rightarrow> (nat \<Rightarrow> llm_outcome)
     \<Rightarrow> (nat \<Rightarrow> timestamp) \<Rightarrow> agent_config \<Rightarrow> 'z world_scheme \<Rightarrow> ('z world_scheme \<times> nat) option" where
  "run_agent_loop others env llm clock cfg w =
     (if \<not> ac_client_ok cfg then Some (w, 0)
      else let iid = ac_instance_id cfg;
               hs = agent_handlers iid others;
               w0 = w\<lparr>stop_flags := removeAll iid (stop_flags w)\<rparr>;
               w1 = fst (emit hs (clock 0) (loop_event HARNESS_LOOP_STARTED iid
                      [(''proxy_token'', JStr (ac_proxy_token cfg))]) w0)
           in (case agent_loop others env llm clock cfg 1 0 w1 of
                 None \<Rightarrow> None
               | Some (w2, k, i, cancelled) \<Rightarrow> Some (end_run iid
                   (if cancelled then w2
                    else fst (emit hs (clock k) (loop_event HARNESS_LOOP_STOPPED iid
                      [(''proxy_token'', JStr (ac_proxy_token cfg)), (''iterations'', JInt (int i))]) w2)),
                   i)))"

text \<open>\<open>start_runtime_for\<close>: the state, and whether a task was created.\<close>

definition start_runtime_for :: "ident \<Rightarrow> 'z world_scheme \<Rightarrow> 'z world_scheme \<times> bool" where
  "start_runtime_for iid w =
     (if iid \<in> set (runtime_tasks w) then (w, False)
      else (w\<lparr>runtime_tasks := runtime_tasks w @ [iid]\<rparr>, True))"

end
