(* ===== verification/Agent_Loop_Props.thy ===== *)
theory Agent_Loop_Props
  imports Agent_Loop
begin

text \<open>
  The agent loop under its supervisor: a tripped breaker sets the stop flag through the loop's own
  control handler, so the number of checkpoints is bounded by the limit of the loop state; when a
  run returns, and when it never does.
\<close>

section \<open>Stop flags only grow\<close>

definition flags_grow :: "'z world_scheme \<Rightarrow> 'z world_scheme \<Rightarrow> bool" where
  "flags_grow w w' \<longleftrightarrow> set (stop_flags w) \<subseteq> set (stop_flags w')"

text \<open>Bystanders that set no flag back.\<close>

definition watcher :: "'z world_scheme \<Rightarrow> 'z world_scheme \<Rightarrow> bool" where
  "watcher w w' \<longleftrightarrow> bystander w w' \<and> flags_grow w w'"

definition watchers :: "'z world_scheme handlers \<Rightarrow> bool" where
  "watchers hs = handlers_respect watcher (\<lambda>e. True) hs"

lemma watchers_Nil [simp]: "watchers []"
  by (simp add: watchers_def)

lemma flags_order: "reflp flags_grow" "transp flags_grow"
  by (auto simp: flags_grow_def reflp_def transp_def)

lemma flags_grow_refl [simp]: "flags_grow w w"
  by (simp add: flags_grow_def)

lemma respects_weaken: "handlers_respect R Q hs \<Longrightarrow> (\<And>w w'. R w w' \<Longrightarrow> S w w') \<Longrightarrow> handlers_respect S Q hs"
  by (fastforce simp: handlers_respect_def)

lemma watchers_bystanders: "watchers hs \<Longrightarrow> bystanders hs"
  unfolding watchers_def bystanders_def by (erule respects_weaken) (simp add: watcher_def)

lemma watchers_flags: "watchers hs \<Longrightarrow> handlers_respect flags_grow (\<lambda>e. True) hs"
  unfolding watchers_def by (erule respects_weaken) (simp add: watcher_def)

lemma on_control_watcher: "watcher w (fst (on_control iid e w))"
  using log_grows_order(1) by (auto simp: on_control_def watcher_def bystander_def flags_grow_def reflp_def log_grows_def)

lemma watchers_control: "watchers hs \<Longrightarrow> watchers (register_handler p (on_control iid) hs)"
  by (auto simp: watchers_def register_handler_def handlers_respect_def on_control_watcher)

lemma logged_flags [simp]: "stop_flags (logged now a w) = stop_flags w"
  by (simp add: logged_def take_id_def)

lemma metrics_flags [simp]:
  "stop_flags (set_metrics iid m w) = stop_flags w" "stop_flags (pop_metrics iid w) = stop_flags w"
  by (simp_all add: set_metrics_def pop_metrics_def)

lemma emit_flags:
  "handlers_respect flags_grow (\<lambda>e. True) hs \<Longrightarrow> flags_grow w (fst (emit hs now a w))"
  by (rule emit_respects [OF flags_order, where Q = "\<lambda>e. True"]) (simp_all add: flags_grow_def take_id_def)

lemma dispatch_flags:
  "handlers_respect flags_grow (\<lambda>e. True) hs \<Longrightarrow> flags_grow w (dispatch hs e w)"
  by (rule dispatch_respects [OF flags_order, where Q = "\<lambda>e. True"]) simp_all

lemma flags_trans: "flags_grow a b \<Longrightarrow> flags_grow b c \<Longrightarrow> flags_grow a c"
  by (auto simp: flags_grow_def)

lemma trip_flags:
  assumes "handlers_respect flags_grow (\<lambda>e. True) hs"
  shows "flags_grow w (trip_breaker hs now iid reason w)"
  unfolding trip_breaker_def Let_def
  by (rule flags_trans [OF emit_flags [OF assms] flags_trans [OF emit_flags [OF assms] emit_flags [OF assms]]])

lemma supervisor_check_flags:
  assumes "handlers_respect flags_grow (\<lambda>e. True) hs"
  shows "flags_grow w (fst (supervisor_check_breakers hs now iid w))"
proof -
  have "set (stop_flags w) \<subseteq> set (stop_flags (trip_breaker hs now iid reason w))" for reason
    using trip_flags [OF assms] by (simp add: flags_grow_def)
  then show ?thesis
    unfolding supervisor_check_breakers_def check_breakers_def flags_grow_def
    by (simp split: option.split)
qed

lemma writes_flags [simp]:
  "stop_flags (fst (handle_checkpoint_writes now iid payload w)) = stop_flags w"
  by (simp add: handle_checkpoint_writes_def write_hub_def add_memory_def take_id_def Let_def split: option.splits if_splits)

lemma handle_checkpoint_flags:
  assumes "handlers_respect flags_grow (\<lambda>e. True) hs"
  shows "flags_grow w (fst (handle_checkpoint hs now iid payload w))"
  using supervisor_check_flags [OF assms, of "set_metrics iid m w" now iid for m]
  by (auto simp: handle_checkpoint_def Let_def flags_grow_def split: option.splits)

lemma supervisor_flags:
  assumes "handlers_respect flags_grow (\<lambda>e. True) hs"
  shows "flags_grow w (fst (on_harness_event hs e w))"
proof (cases "resource_id e")
  case (Some iid)
  obtain w1 r where h: "handle_checkpoint hs (created_at e) iid (ev_payload e) w = (w1, r)"
    by (cases "handle_checkpoint hs (created_at e) iid (ev_payload e) w")
  have "flags_grow w w1"
    using handle_checkpoint_flags [OF assms, of w "created_at e" iid "ev_payload e"] h by simp
  with Some h show ?thesis
    by (cases r) (simp_all add: on_harness_event_def handle_loop_started_def handle_continuation_injected_def
        handle_loop_stopped_def flags_grow_def Let_def split: option.split)
qed (simp add: on_harness_event_def)

lemma leaf_flags: "watchers others \<Longrightarrow> handlers_respect flags_grow (\<lambda>e. True) (leaf_handlers others)"
  using watchers_flags [of others] supervisor_flags [of "[]"]
  by (auto simp: leaf_handlers_def register_handler_def handlers_respect_def)

lemma app_flags: "watchers others \<Longrightarrow> handlers_respect flags_grow (\<lambda>e. True) (app_handlers others)"
  using watchers_flags [of others] supervisor_flags [OF leaf_flags, of others]
  by (auto simp: app_handlers_def register_handler_def handlers_respect_def)

section \<open>A kill command reaches the loop\<close>

lemma dispatch_append: "dispatch (hs @ hs') e w = dispatch hs' e (dispatch hs e w)"
  by (induction hs e w rule: dispatch.induct) (simp_all split: prod.splits)

lemma control_dispatch:
  assumes "kill_event iid e" and "jget (ev_payload e) ''instance_id'' = Some (JStr iid)"
  shows "iid \<in> set (stop_flags (dispatch (register_handler HARNESS_CONTROL_SENT (on_control iid) hs) e w))"
proof -
  have "fnmatchcase (ev_type e) HARNESS_CONTROL_SENT"
    using assms(1) fnmatch_literal [of HARNESS_CONTROL_SENT] by (simp add: kill_event_def event_types)
  with assms show ?thesis
    by (simp add: register_handler_def dispatch_append on_control_def kill_event_def)
qed

lemma trip_sets_flag:
  "iid \<in> set (stop_flags (trip_breaker
     (leaf_handlers (register_handler HARNESS_CONTROL_SENT (on_control iid) others)) now iid reason w))"
  unfolding trip_breaker_def Let_def emit_dispatch dispatch_leaf fst_conv
  by (rule control_dispatch) (simp_all add: kill_event_def)

lemma checkpoint_args_loop_event: "checkpoint_args iid payload = loop_event HARNESS_CHECKPOINT iid payload"
  by (simp add: checkpoint_args_def loop_event_def)

lemma checkpoint_trip_flag:
  assumes "watchers others" and "load_breaker_config iid w = Some c"
    and "payload_int payload ''token_estimate'' = Some n"
    and "breaker_reason now (next_metrics now n (metrics_of w iid)) c \<noteq> None"
  shows "iid \<in> set (stop_flags (fst (emit (agent_handlers iid others) now
    (loop_event HARNESS_CHECKPOINT iid payload) w)))"
proof -
  let ?hs = "register_handler HARNESS_CONTROL_SENT (on_control iid) others"
  let ?a = "loop_event HARNESS_CHECKPOINT iid payload"
  define m where "m = next_metrics now n (metrics_of w iid)"
  define w0 where "w0 = logged now ?a w"
  have c1: "load_breaker_config iid (set_metrics iid m w0) = Some c"
    using assms(2) by (simp add: w0_def load_breaker_config_frame [of "set_metrics iid m (logged now ?a w)" w])
  obtain reason where r: "breaker_reason now m c = Some reason"
    using assms(4) by (auto simp: m_def)
  let ?w2 = "pop_metrics iid (trip_breaker (leaf_handlers ?hs) now iid reason (set_metrics iid m w0))"
  have chk: "fst (supervisor_check_breakers (leaf_handlers ?hs) now iid (set_metrics iid m w0)) = ?w2"
    unfolding supervisor_check_breakers_def check_breakers_def by (simp add: c1 r)
  have "metrics_of w0 iid = metrics_of w iid" by (simp add: metrics_of_def w0_def)
  with chk have "handle_checkpoint (leaf_handlers ?hs) now iid payload w0 = (?w2, False)"
    unfolding handle_checkpoint_def Let_def assms(3) option.case m_def next_metrics_def by simp
  then have "fst (on_harness_event (leaf_handlers ?hs) (new_event now ?a w) w0)
      = fst (handle_checkpoint_writes now iid payload ?w2)"
    by (simp add: on_harness_event_def loop_event_def Let_def event_types new_event_def)
  moreover have "iid \<in> set (stop_flags ?w2)" by (simp add: trip_sets_flag)
  moreover have "flags_grow (fst (handle_checkpoint_writes now iid payload ?w2))
      (dispatch ?hs (new_event now ?a w) (fst (handle_checkpoint_writes now iid payload ?w2)))"
    using assms(1) by (intro dispatch_flags watchers_flags watchers_control)
  ultimately show ?thesis
    by (auto simp: agent_handlers_def emit_dispatch dispatch_app flags_grow_def loop_event_def event_types w0_def)
qed

section \<open>The writes of an iteration\<close>

lemma live_loop_state_replace:
  assumes "live_loop_state iid s = Some st" and "row_id st' = row_id st"
    and "ls_instance_id st' = iid" and "live st'"
  shows "live_loop_state iid (replace_loop_state st' s) = Some st'"
  using first_where_update [of "\<lambda>r. ls_instance_id r = iid \<and> live r" "loop_states s" st st'] assms
  by (simp add: live_loop_state_def replace_loop_state_def)

lemma live_loop_stateD: "live_loop_state iid s = Some st \<Longrightarrow> ls_instance_id st = iid \<and> live st"
  by (auto simp: live_loop_state_def dest: first_where_SomeD)

lemma add_memory_loop [simp]:
  "live_loop_state iid (add_memory now ent kind k txt i s) = live_loop_state iid s"
  "stop_flags (add_memory now ent kind k txt i w) = stop_flags w"
  by (simp_all add: live_loop_state_def add_memory_def take_id_def)

lemma checkpoint_memory_frame [simp]:
  "live_loop_state i (write_checkpoint_memory now iid txt w) = live_loop_state i w"
  "registry (write_checkpoint_memory now iid txt w) = registry w"
  "stop_flags (write_checkpoint_memory now iid txt w) = stop_flags w"
  by (simp_all add: write_checkpoint_memory_def split: option.split)

lemma memory_config:
  fixes w :: "'z world_scheme"
  shows "load_breaker_config i (write_checkpoint_memory now iid tx w) = load_breaker_config i w"
  by (simp add: load_breaker_config_def)

lemma replace_loop_state_frame [simp]:
  "registry (replace_loop_state st w) = registry w" "stop_flags (replace_loop_state st w) = stop_flags w"
  by (simp_all add: replace_loop_state_def)

lemma notepad_frame [simp]:
  "registry (write_notepad_memory now iid plan name entry w) = registry w"
  "stop_flags (write_notepad_memory now iid plan name entry w) = stop_flags w"
  by (simp_all add: write_notepad_memory_def Let_def split: option.split)

lemma notepad_config:
  "load_breaker_config iid (write_notepad_memory now iid plan name entry w) = load_breaker_config iid w"
proof (cases "live_loop_state iid w")
  case None
  then show ?thesis
    by (simp add: write_notepad_memory_def load_breaker_config_def Let_def split: option.split)
next
  case (Some st)
  define st' where "st' = (\<lambda>refs. modified now st (st\<lparr>notepad_refs := Some (JObj refs)\<rparr>))"
  have st: "row_id (st' refs) = row_id st" "ls_instance_id (st' refs) = iid" "live (st' refs)"
    "max_continuations (st' refs) = max_continuations st" "max_token_estimate (st' refs) = max_token_estimate st"
    "max_wall_clock_seconds (st' refs) = max_wall_clock_seconds st"
    "idle_timeout_seconds (st' refs) = idle_timeout_seconds st" for refs
    using live_loop_stateD [OF Some] by (simp_all add: st'_def modified_def touch_def live_def)
  have rep: "live_loop_state iid (replace_loop_state (st' refs) (add_memory now ent kind k tx iid w)) = Some (st' refs)"
    for refs ent kind k tx
    by (rule live_loop_state_replace [of _ _ st]) (simp_all add: Some st)
  show ?thesis
    unfolding write_notepad_memory_def load_breaker_config_def Let_def add_memory_loop Some option.case
    by (simp add: rep [unfolded st'_def] st [unfolded st'_def] Some split: option.split)
qed

section \<open>One iteration\<close>

definition loop_count :: "ident \<Rightarrow> 'z world_scheme \<Rightarrow> int" where
  "loop_count iid w = m_continuation_count (metrics_of w iid)"

definition flagged :: "ident \<Rightarrow> 'z world_scheme \<Rightarrow> bool" where
  "flagged iid w \<longleftrightarrow> iid \<in> set (stop_flags w)"

lemma flagged_grows: "flagged iid w \<Longrightarrow> flags_grow w w' \<Longrightarrow> flagged iid w'"
  by (auto simp: flagged_def flags_grow_def)

lemma checkpoint_payload_tokens:
  "payload_int (checkpoint_payload token r i) ''token_estimate'' = Some (lr_prompt_tokens r + lr_completion_tokens r)"
  by (simp add: payload_int_def checkpoint_payload_def py_int_def)

lemma iteration_effect:
  fixes now :: timestamp and i :: nat and r :: llm_response
  assumes "watchers others" and "ac_instance_id cfg = iid" and "load_breaker_config iid w = Some c"
  defines "w' \<equiv> run_iteration others cfg now i r w"
  shows "load_breaker_config iid w' = Some c" and "flags_grow w w'"
    and "flagged iid w' \<or> (loop_count iid w' = loop_count iid w + 1 \<and> loop_count iid w' < bc_max_continuations c)"
proof -
  define v where "v = write_notepad_memory now iid ''p14a-checkpoint'' ''learnings''
    (''Checkpoint '' @ str_of_int (int i) @ '': '' @ take 120 (lr_content r))
    (write_checkpoint_memory now iid (take 200 (lr_content r)) w)"
  define payload where "payload = checkpoint_payload (ac_proxy_token cfg) r i"
  define hs where "hs = register_handler HARNESS_CONTROL_SENT (on_control iid) others"
  let ?m = "next_metrics now (lr_prompt_tokens r + lr_completion_tokens r) (metrics_of v iid)"
  have w': "w' = fst (emit (app_handlers hs) now (checkpoint_args iid payload) v)"
    using assms(2) by (simp add: w'_def run_iteration_def v_def payload_def hs_def agent_handlers_def
        checkpoint_args_loop_event)
  have w'': "w' = fst (emit (agent_handlers iid others) now (loop_event HARNESS_CHECKPOINT iid payload) v)"
    by (simp add: w' agent_handlers_def hs_def checkpoint_args_loop_event)
  have c: "load_breaker_config iid v = Some c"
    using assms(3) by (simp add: v_def notepad_config memory_config)
  have n: "payload_int payload ''token_estimate'' = Some (lr_prompt_tokens r + lr_completion_tokens r)"
    by (simp add: payload_def checkpoint_payload_tokens)
  have hs: "watchers hs" unfolding hs_def by (rule watchers_control [OF assms(1)])
  note eff = checkpoint_effect [OF watchers_bystanders [OF hs] c n w']
  show "load_breaker_config iid w' = Some c"
    using c load_breaker_config_frame [OF eff(1)] by simp
  have "flags_grow v w'" unfolding w' by (rule emit_flags [OF app_flags [OF hs]])
  then show "flags_grow w w'" by (simp add: flags_grow_def v_def)
  have count: "loop_count iid v = loop_count iid w"
    by (simp add: loop_count_def metrics_of_def v_def)
  show "flagged iid w' \<or> (loop_count iid w' = loop_count iid w + 1 \<and> loop_count iid w' < bc_max_continuations c)"
  proof (cases "breaker_reason now ?m c")
    case None
    then have "registry w' = (registry v)(iid \<mapsto> ?m)" by (rule eff(3))
    then have "loop_count iid w' = loop_count iid v + 1"
      by (simp add: loop_count_def metrics_of_def next_metrics_def)
    moreover have "m_continuation_count ?m < bc_max_continuations c"
      using None by (auto simp: breaker_reason_def split: if_splits)
    ultimately show ?thesis using count by (simp add: next_metrics_def loop_count_def)
  next
    case (Some reason)
    then have "breaker_reason now ?m c \<noteq> None" by simp
    then show ?thesis
      unfolding w'' flagged_def by (intro disjI1 checkpoint_trip_flag [OF assms(1) c n])
  qed
qed

section \<open>The bound\<close>

text \<open>
  What the rest of the process may do while a model call is pending: anything that keeps the limits
  of the loop state, never withdraws a stop flag, and never lowers the count unless the loop is
  told to stop.
\<close>

definition quiet :: "ident \<Rightarrow> (nat \<Rightarrow> 'z world_scheme \<Rightarrow> 'z world_scheme) \<Rightarrow> bool" where
  "quiet iid env \<longleftrightarrow> (\<forall>k w. load_breaker_config iid (env k w) = load_breaker_config iid w \<and>
     flags_grow w (env k w) \<and> (flagged iid (env k w) \<or> loop_count iid w \<le> loop_count iid (env k w)))"

definition paced :: "ident \<Rightarrow> breaker_config \<Rightarrow> nat \<Rightarrow> 'z world_scheme \<Rightarrow> bool" where
  "paced iid c i w \<longleftrightarrow> load_breaker_config iid w = Some c \<and> int i \<le> max 1 (bc_max_continuations c) \<and>
     (flagged iid w \<or> (int i \<le> loop_count iid w \<and> (i = 0 \<or> int i < bc_max_continuations c)))"

lemma paced_env:
  assumes "quiet iid env" and "paced iid c i w"
  shows "paced iid c i (env k w)"
proof -
  have "load_breaker_config iid (env k w) = load_breaker_config iid w" "flags_grow w (env k w)"
    "flagged iid (env k w) \<or> loop_count iid w \<le> loop_count iid (env k w)"
    using assms(1) by (auto simp: quiet_def)
  with assms(2) show ?thesis using flagged_grows [of iid w "env k w"] by (auto simp: paced_def)
qed

lemma paced_iteration:
  assumes "watchers others" and "ac_instance_id cfg = iid" and "quiet iid env"
    and "paced iid c i w" and "\<not> flagged iid w"
  shows "paced iid c (Suc i) (run_iteration others cfg now i r (env k w))"
proof -
  let ?v = "env k w" and ?w' = "run_iteration others cfg now i r (env k w)"
  have v: "paced iid c i ?v" using assms(3,4) by (rule paced_env)
  have cv: "load_breaker_config iid ?v = Some c" using v by (simp add: paced_def)
  have i: "i = 0 \<or> int i < bc_max_continuations c" using assms(4,5) by (simp add: paced_def)
  note eff = iteration_effect [OF assms(1,2) cv, of now i r]
  have v': "flagged iid ?v \<or> int i \<le> loop_count iid ?v" using v by (auto simp: paced_def)
  have suc: "int (Suc i) \<le> max 1 (bc_max_continuations c)" using i by auto
  show ?thesis
  proof (cases "flagged iid ?w'")
    case True
    with eff(1) suc show ?thesis by (simp add: paced_def)
  next
    case False
    then have "\<not> flagged iid ?v" using eff(2) flagged_grows by blast
    with v' False eff(3) have "int (Suc i) \<le> loop_count iid ?w'" "loop_count iid ?w' < bc_max_continuations c"
      by auto
    with eff(1) suc show ?thesis by (simp add: paced_def)
  qed
qed

lemma agent_loop_paced:
  assumes "agent_loop others env llm clock cfg k i w = Some (w', k', i', b)"
    and "watchers others" and "ac_instance_id cfg = iid" and "quiet iid env" and "paced iid c i w"
  shows "paced iid c i' w'"
proof -
  have "watchers others \<longrightarrow> ac_instance_id cfg = iid \<longrightarrow> quiet iid env \<longrightarrow> paced iid c i w \<longrightarrow>
    (case (w', k', i', b) of (w', k', i', b) \<Rightarrow> paced iid c i' w')"
  proof (rule agent_loop.raw_induct [where P = "\<lambda>others env llm clock cfg k i w out.
      watchers others \<longrightarrow> ac_instance_id cfg = iid \<longrightarrow> quiet iid env \<longrightarrow> paced iid c i w \<longrightarrow>
      (case out of (w', k', i', b) \<Rightarrow> paced iid c i' w')", OF _ assms(1)], intro impI)
    fix al :: "'a world_scheme handlers \<Rightarrow> (nat \<Rightarrow> 'a world_scheme \<Rightarrow> 'a world_scheme) \<Rightarrow> (nat \<Rightarrow> llm_outcome) \<Rightarrow>
      (nat \<Rightarrow> int) \<Rightarrow> agent_config \<Rightarrow> nat \<Rightarrow> nat \<Rightarrow> 'a world_scheme \<Rightarrow> ('a world_scheme \<times> nat \<times> nat \<times> bool) option"
      and others env llm clock cfg k i w out
    assume IH: "\<And>others env llm clock cfg k i w out. al others env llm clock cfg k i w = Some out \<Longrightarrow>
        watchers others \<longrightarrow> ac_instance_id cfg = iid \<longrightarrow> quiet iid env \<longrightarrow> paced iid c i w \<longrightarrow>
        (case out of (w', k', i', b) \<Rightarrow> paced iid c i' w')"
      and eq: "(if ac_instance_id cfg \<in> set (stop_flags w) \<or> ac_iterations cfg \<le> i
          \<or> should_stop_via_db (ac_instance_id cfg) w then Some (w, k, i, False)
        else case llm k of
            Completion r \<Rightarrow> al others env llm clock cfg (Suc k) (Suc i) (run_iteration others cfg (clock k) i r (env k w))
          | LLM_Error \<Rightarrow> al others env llm clock cfg (Suc k) i (env k w)
          | Cancelled \<Rightarrow> Some (env k w, k, i, True)) = Some out"
      and hyp: "watchers others" "ac_instance_id cfg = iid" "quiet iid env" "paced iid c i w"
    show "case out of (w', k', i', b) \<Rightarrow> paced iid c i' w'"
    proof (cases "ac_instance_id cfg \<in> set (stop_flags w) \<or> ac_iterations cfg \<le> i
          \<or> should_stop_via_db (ac_instance_id cfg) w")
      case True
      with eq hyp(4) show ?thesis by auto
    next
      case False
      note env = paced_env [OF hyp(3,4), of k]
      show ?thesis
      proof (cases "llm k")
        case (Completion r)
        have "\<not> flagged iid w" using False hyp(2) by (simp add: flagged_def)
        from paced_iteration [OF hyp this] False Completion eq IH hyp(1-3) show ?thesis by auto
      next
        case LLM_Error
        with False eq IH hyp(1-3) env show ?thesis by auto
      next
        case Cancelled
        with False eq env show ?thesis by auto
      qed
    qed
  qed
  with assms(2-5) show ?thesis by simp
qed

section \<open>When the loop returns\<close>

lemma agent_loop_terminates:
  assumes "\<And>j. K \<le> j \<Longrightarrow> llm j \<noteq> LLM_Error" and "i \<le> ac_iterations cfg"
  shows "\<exists>w' k' i' b. agent_loop others env llm clock cfg k i w = Some (w', k', i', b) \<and>
    i' \<le> ac_iterations cfg"
  using assms(2)
proof (induction "(K - k) + (ac_iterations cfg - i)" arbitrary: k i w rule: less_induct)
  case less
  show ?case
  proof (cases "ac_instance_id cfg \<in> set (stop_flags w) \<or> ac_iterations cfg \<le> i
      \<or> should_stop_via_db (ac_instance_id cfg) w")
    case True
    with less.prems show ?thesis by (subst agent_loop.simps) auto
  next
    case False
    then have i: "i < ac_iterations cfg" by simp
    show ?thesis
    proof (cases "llm k")
      case (Completion r)
      have "(K - Suc k) + (ac_iterations cfg - Suc i) < (K - k) + (ac_iterations cfg - i)"
        using i by linarith
      from less.hyps [OF this, of "run_iteration others cfg (clock k) i r (env k w)"] i
      obtain w' k' i' b where "agent_loop others env llm clock cfg (Suc k) (Suc i)
          (run_iteration others cfg (clock k) i r (env k w)) = Some (w', k', i', b)"
        and "i' \<le> ac_iterations cfg" by auto
      then show ?thesis using False Completion by (subst agent_loop.simps) auto
    next
      case LLM_Error
      then have k: "k < K" using assms(1) [of k] by (cases "K \<le> k") auto
      then have "(K - Suc k) + (ac_iterations cfg - i) < (K - k) + (ac_iterations cfg - i)" by simp
      from less.hyps [OF this less.prems, of "env k w"]
      obtain w' k' i' b where "agent_loop others env llm clock cfg (Suc k) i (env k w) = Some (w', k', i', b)"
        and "i' \<le> ac_iterations cfg" by auto
      then show ?thesis using False LLM_Error by (subst agent_loop.simps) auto
    next
      case Cancelled
      with False less.prems show ?thesis by (subst agent_loop.simps) auto
    qed
  qed
qed

text \<open>A loop that is not told to stop.\<close>

definition unstopped :: "ident \<Rightarrow> 'z world_scheme \<Rightarrow> bool" where
  "unstopped iid w \<longleftrightarrow> \<not> flagged iid w \<and> \<not> should_stop_via_db iid w"

lemma agent_loop_diverges:
  assumes "agent_loop others env llm clock cfg k i w = Some out"
    and "\<And>j. llm j = LLM_Error" and "\<And>j v. unstopped (ac_instance_id cfg) v \<Longrightarrow> unstopped (ac_instance_id cfg) (env j v)"
    and "unstopped (ac_instance_id cfg) w" and "i < ac_iterations cfg"
  shows False
proof -
  have "(\<forall>j. llm j = LLM_Error) \<longrightarrow>
      (\<forall>j v. unstopped (ac_instance_id cfg) v \<longrightarrow> unstopped (ac_instance_id cfg) (env j v)) \<longrightarrow>
      unstopped (ac_instance_id cfg) w \<longrightarrow> i < ac_iterations cfg \<longrightarrow> False"
    by (rule agent_loop.raw_induct [where P = "\<lambda>others env llm clock cfg k i w out. (\<forall>j. llm j = LLM_Error) \<longrightarrow>
      (\<forall>j v. unstopped (ac_instance_id cfg) v \<longrightarrow> unstopped (ac_instance_id cfg) (env j v)) \<longrightarrow>
      unstopped (ac_instance_id cfg) w \<longrightarrow> i < ac_iterations cfg \<longrightarrow> False", OF _ assms(1)])
      (auto simp: unstopped_def flagged_def)
  with assms(2-5) show ?thesis by blast
qed

section \<open>Starting and ending a run\<close>

lemma loop_started_effect:
  fixes now :: timestamp and payload :: json_obj
  assumes "watchers others" and "load_breaker_config iid w = Some c"
  defines "w1 \<equiv> fst (emit (agent_handlers iid others) now (loop_event HARNESS_LOOP_STARTED iid payload) w)"
  shows "paced iid c 0 w1"
proof -
  let ?hs = "register_handler HARNESS_CONTROL_SENT (on_control iid) others"
  let ?a = "loop_event HARNESS_LOOP_STARTED iid payload"
  let ?v = "set_metrics iid (new_metrics\<lparr>m_wall_clock_started := Some now\<rparr>) (logged now ?a w)"
  have "w1 = dispatch ?hs (new_event now ?a w) ?v"
    by (simp add: w1_def agent_handlers_def emit_dispatch dispatch_app loop_event_def event_types
        on_harness_event_def handle_loop_started_def new_event_def)
  moreover have "bystander ?v (dispatch ?hs (new_event now ?a w) ?v)"
    by (intro bystanders_dispatch watchers_bystanders watchers_control assms(1))
  ultimately have "registry w1 = registry ?v" "loop_states w1 = loop_states w"
    by (simp_all add: bystander_def)
  then show ?thesis
    using assms(2) load_breaker_config_frame [of w1 w iid]
    by (simp add: paced_def loop_count_def metrics_of_def new_metrics_def)
qed

section \<open>Properties\<close>

definition run_started :: "'z world_scheme handlers \<Rightarrow> timestamp \<Rightarrow> agent_config \<Rightarrow> 'z world_scheme \<Rightarrow> 'z world_scheme" where
  "run_started others now cfg w =
     (let iid = ac_instance_id cfg
      in fst (emit (agent_handlers iid others) now (loop_event HARNESS_LOOP_STARTED iid
           [(''proxy_token'', JStr (ac_proxy_token cfg))]) (w\<lparr>stop_flags := removeAll iid (stop_flags w)\<rparr>)))"

lemma run_agent_loop_started:
  "ac_client_ok cfg \<Longrightarrow> run_agent_loop others env llm clock cfg w =
     (case agent_loop others env llm clock cfg 1 0 (run_started others (clock 0) cfg w) of
        None \<Rightarrow> None
      | Some (w2, k, i, cancelled) \<Rightarrow> Some (end_run (ac_instance_id cfg)
          (if cancelled then w2
           else fst (emit (agent_handlers (ac_instance_id cfg) others) (clock k)
             (loop_event HARNESS_LOOP_STOPPED (ac_instance_id cfg)
               [(''proxy_token'', JStr (ac_proxy_token cfg)), (''iterations'', JInt (int i))]) w2)), i))"
  by (simp add: run_agent_loop_def run_started_def Let_def)

lemma run_returns:
  assumes "\<And>j. K \<le> j \<Longrightarrow> llm j \<noteq> LLM_Error" and "ac_client_ok cfg"
  shows "\<exists>w' i. run_agent_loop others env llm clock cfg w = Some (w', i) \<and> i \<le> ac_iterations cfg \<and>
    ac_instance_id cfg \<notin> set (runtime_tasks w') \<and> flagged (ac_instance_id cfg) w'"
proof -
  let ?w1 = "run_started others (clock 0) cfg w"
  have "\<exists>w' k' i' b. agent_loop others env llm clock cfg 1 0 ?w1 = Some (w', k', i', b) \<and>
      i' \<le> ac_iterations cfg"
    by (rule agent_loop_terminates [where K = K]) (simp_all add: assms(1))
  then obtain w2 k i b where "agent_loop others env llm clock cfg 1 0 ?w1 = Some (w2, k, i, b)" "i \<le> ac_iterations cfg"
    by auto
  with assms(2) show ?thesis by (auto simp: run_agent_loop_started end_run_def flagged_def)
qed


text \<open>
  C24. A run returns as soon as the model calls stop failing: if no call from number \<open>K\<close> on fails, it
  ends, within its cap of iterations, its task is forgotten and its stop flag set.
\<close>

theorem agent_run_returns:
  assumes "\<And>j. K \<le> j \<Longrightarrow> llm j \<noteq> LLM_Error" and "ac_client_ok cfg"
  shows "\<exists>w' i. run_agent_loop others env llm clock cfg w = Some (w', i) \<and> i \<le> ac_iterations cfg \<and>
    ac_instance_id cfg \<notin> set (runtime_tasks w') \<and> flagged (ac_instance_id cfg) w'"
  using assms by (rule run_returns)

text \<open>
  The safety cap does not bound a failing loop: a failing call counts no iteration, so with a
  model that keeps failing and nobody stopping the loop, the run never returns, whatever the cap.
\<close>

theorem failing_model_never_returns:
  assumes "\<And>j. llm j = LLM_Error" and "ac_client_ok cfg" and "0 < ac_iterations cfg"
    and "\<And>j v. unstopped (ac_instance_id cfg) v \<Longrightarrow> unstopped (ac_instance_id cfg) (env j v)"
    and "unstopped (ac_instance_id cfg) (run_started others (clock 0) cfg w)"
  shows "run_agent_loop others env llm clock cfg w = None"
proof (cases "agent_loop others env llm clock cfg 1 0 (run_started others (clock 0) cfg w)")
  case None
  with assms(2) show ?thesis by (simp add: run_agent_loop_started)
next
  case (Some out)
  from agent_loop_diverges [OF Some assms(1,4,5,3)] show ?thesis ..
qed

section \<open>Witnesses\<close>

definition sample_config :: agent_config where
  "sample_config = \<lparr>ac_instance_id = ''x'', ac_proxy_token = [], ac_iterations = 10000, ac_client_ok = True\<rparr>"

definition stub_response :: llm_response where
  "stub_response = \<lparr>lr_content = ''stub checkpoint'', lr_prompt_tokens = 1, lr_completion_tokens = 1,
     lr_model = [], lr_stop_reason = ''stop''\<rparr>"

lemma sample_started:
  "unstopped ''x'' (run_started [] 0 sample_config running_world)"
  by (simp add: unstopped_def flagged_def run_started_def sample_config_def agent_handlers_def emit_dispatch
      dispatch_app register_handler_def fnmatch_literal loop_event_def event_types on_harness_event_def
      handle_loop_started_def new_event_def should_stop_via_db_def live_loop_state_def sample_loop_def live_def
      running_world_def sample_world_def db.defs empty_db_def Let_def)


lemma sample_clock: "ac_instance_id sample_config = ''x''" "ac_client_ok sample_config" "0 < ac_iterations sample_config"
  by (simp_all add: sample_config_def)

lemma quiet_id: "quiet iid (\<lambda>k w. w)"
  by (simp add: quiet_def)


lemma failing_model_never_returns_witness:
  "run_agent_loop [] (\<lambda>k w. w) (\<lambda>k. LLM_Error) int sample_config running_world = None"
  by (rule failing_model_never_returns) (use sample_started in \<open>simp_all add: sample_clock\<close>)

lemma agent_run_returns_witness:
  "\<exists>w' i. run_agent_loop [] (\<lambda>k w. w) (\<lambda>k. if k < 7 then LLM_Error else Completion stub_response) int
     sample_config running_world = Some (w', i)"
proof -
  have "\<exists>w' i. run_agent_loop [] (\<lambda>k w. w) (\<lambda>k. if k < 7 then LLM_Error else Completion stub_response) int
      sample_config running_world = Some (w', i) \<and> i \<le> ac_iterations sample_config \<and>
      ac_instance_id sample_config \<notin> set (runtime_tasks w') \<and> flagged (ac_instance_id sample_config) w'"
    by (rule agent_run_returns [where K = 7]) (simp_all add: sample_clock)
  then show ?thesis by blast
qed

end
