(* ===== verification/Pod_Control.thy ===== *)
theory Pod_Control
  imports Agent_Loop Inject_Queue
begin

text \<open>
  The control plane of agent pods: the internal endpoints a pod calls
  (\<^verbatim>\<open>app/api/v1/internal.py\<close>: events, control poll, acknowledgement), the safe-point guard
  (\<^verbatim>\<open>app/agent_runtime/safe_point.py\<close>) and the pod's half of the agent loop
  (\<^verbatim>\<open>app/agent_runtime/loop.py\<close> in K8s mode over \<^verbatim>\<open>k8s_adapter.py\<close>). A call over HTTP can lose the
  request or the response; which of them is lost is an argument.
\<close>

section \<open>Internal endpoints\<close>

text \<open>An \<open>HTTPException\<close> has a status but no envelope.\<close>

definition HTTPException :: "int \<Rightarrow> eyot_error" where
  "HTTPException status = EyotError [] [] status"

definition verify_internal_token :: "string \<Rightarrow> string option \<Rightarrow> unit result" where
  "verify_internal_token expected header =
     (let auth = (case header of None \<Rightarrow> [] | Some a \<Rightarrow> a)
      in if expected = [] then Inl (HTTPException 503)
         else if \<not> prefix ''Bearer '' auth then Inl (HTTPException 401)
         else if drop (length ''Bearer '') auth \<noteq> expected then Inl (HTTPException 401)
         else Inr ())"

record emit_request =
  er_type :: "string option"
  er_actor_type :: "string option"
  er_actor_id :: "string option option"
  er_resource_type :: "string option option"
  er_resource_id :: "string option option"
  er_payload :: "json_obj option"

text \<open>The fields must be present; a value has the type of its column.\<close>

definition internal_emit_event ::
    "'z db_scheme handlers \<Rightarrow> timestamp \<Rightarrow> emit_request \<Rightarrow> 'z db_scheme \<Rightarrow> ('z db_scheme \<times> ident) result" where
  "internal_emit_event hs now b s =
     (case (er_type b, er_actor_type b, er_actor_id b, er_resource_type b, er_resource_id b, er_payload b) of
        (Some ty, Some aty, Some aid, Some rty, Some rid, Some pl) \<Rightarrow>
          (case emit hs now \<lparr>ea_type = ty, ea_actor_type = aty, ea_actor_id = aid, ea_resource_type = rty,
               ea_resource_id = rid, ea_payload = pl, ea_request_id = None\<rparr> s of
             (s', e) \<Rightarrow> Inr (s', row_id e))
      | _ \<Rightarrow> Inl (HTTPException 400))"

record control_event =
  ce_id :: json
  ce_type :: string
  ce_payload :: json_obj
  ce_created_at :: timestamp

record inject_item =
  ii_queue_id :: json
  ii_kind :: string
  ii_delivery_mode :: string
  ii_payload :: json_obj
  ii_tldr :: json
  ii_expires_at :: timestamp

record poll_response =
  pr_events :: "control_event list"
  pr_last_seen :: json
  pr_injects :: "inject_item list"

definition control_event_of :: "event_row \<Rightarrow> control_event" where
  "control_event_of e = \<lparr>ce_id = JStr (row_id e), ce_type = ev_type e, ce_payload = ev_payload e,
     ce_created_at = created_at e\<rparr>"

definition inject_item_of :: "inject_row \<Rightarrow> inject_item" where
  "inject_item_of r = \<lparr>ii_queue_id = JStr (row_id r), ii_kind = inj_kind r, ii_delivery_mode = delivery_mode r,
     ii_payload = inj_payload r, ii_tldr = jget_default (inj_payload r) ''tldr'' JNull, ii_expires_at = expires_at r\<rparr>"

text \<open>The page of control events: the first 50 by identifier behind the cursor, compared as text.\<close>

definition control_page :: "ident \<Rightarrow> int \<Rightarrow> event_row list \<Rightarrow> event_row list" where
  "control_page iid last_seen es = take 50 (sort_key row_id
     (filter (\<lambda>e. resource_id e = Some iid \<and> ev_type e = HARNESS_CONTROL_SENT
        \<and> str_of_int last_seen < row_id e) es))"

definition internal_control_poll ::
    "timestamp \<Rightarrow> ident \<Rightarrow> int \<Rightarrow> 'z db_scheme \<Rightarrow> ('z db_scheme \<times> poll_response) result" where
  "internal_control_poll now iid last_seen s =
     (if last_seen < 0 then Inl request_validation_error
      else let es = control_page iid last_seen (events s)
           in (case poll_pending_injects now iid 20 s of
                 (s', rows) \<Rightarrow> Inr (s', \<lparr>pr_events = map control_event_of es,
                   pr_last_seen = (if es \<noteq> [] then JStr (row_id (last es)) else JInt last_seen),
                   pr_injects = map inject_item_of rows\<rparr>)))"

definition internal_control_ack ::
    "'z db_scheme handlers \<Rightarrow> timestamp \<Rightarrow> ident list \<Rightarrow> 'z db_scheme \<Rightarrow> ('z db_scheme \<times> nat) result" where
  "internal_control_ack hs now queue_ids s =
     (if queue_ids = [] then Inl request_validation_error else Inr (ack_injects hs now queue_ids s))"

section \<open>The safe-point guard\<close>

record 'a guard =
  g_pending :: "'a list"
  g_outstanding :: nat

definition new_guard :: "'a guard" where
  "new_guard = \<lparr>g_pending = [], g_outstanding = 0\<rparr>"

definition pending_count :: "'a guard \<Rightarrow> nat" where
  "pending_count g = length (g_pending g)"

definition at_safe_point :: "'a guard \<Rightarrow> bool" where
  "at_safe_point g \<longleftrightarrow> g_outstanding g = 0"

definition hold :: "'a \<Rightarrow> 'a guard \<Rightarrow> 'a guard" where
  "hold item g = g\<lparr>g_pending := g_pending g @ [item]\<rparr>"

definition on_tool_use :: "'a guard \<Rightarrow> 'a guard" where
  "on_tool_use g = g\<lparr>g_outstanding := g_outstanding g + 1\<rparr>"

definition on_tool_results :: "'a guard \<Rightarrow> 'a guard" where
  "on_tool_results g = g\<lparr>g_outstanding := g_outstanding g - 1\<rparr>"

definition flush :: "'a guard \<Rightarrow> 'a list \<times> 'a guard" where
  "flush g = (if \<not> at_safe_point g \<or> g_pending g = [] then ([], g)
              else (g_pending g, g\<lparr>g_pending := []\<rparr>))"

section \<open>The pod\<close>

datatype net = Exchanged | Request_Lost | Response_Lost

record pod =
  pod_stop :: bool
  pod_last_seen :: int
  pod_guard :: "inject_item guard"
  pod_iterations :: nat

definition new_pod :: pod where
  "new_pod = \<lparr>pod_stop = False, pod_last_seen = 0, pod_guard = new_guard, pod_iterations = 0\<rparr>"

text \<open>
  \<open>_apply_inject\<close>: the acknowledgement, whose failure is only logged. A queue identifier that is no
  text is refused by the endpoint.
\<close>

definition apply_inject ::
    "'z db_scheme handlers \<Rightarrow> (json \<Rightarrow> net) \<Rightarrow> timestamp \<Rightarrow> inject_item \<Rightarrow> 'z db_scheme \<Rightarrow> 'z db_scheme" where
  "apply_inject hs acks now item s =
     (case ii_queue_id item of
        JStr q \<Rightarrow> if q = [] \<or> acks (JStr q) = Request_Lost then s
                  else (case internal_control_ack hs now [q] s of Inl _ \<Rightarrow> s | Inr (s', n) \<Rightarrow> s')
      | _ \<Rightarrow> s)"

text \<open>The events of a response: the cursor follows integer identifiers; a kill ends the scan.\<close>

definition seen :: "json \<Rightarrow> int \<Rightarrow> int" where
  "seen eid last_seen = (case eid of
      JInt n \<Rightarrow> max last_seen n | JBool b \<Rightarrow> max last_seen (if b then 1 else 0) | _ \<Rightarrow> last_seen)"

fun scan_events :: "control_event list \<Rightarrow> int \<Rightarrow> int \<times> bool" where
  "scan_events [] last_seen = (last_seen, False)"
| "scan_events (e # es) last_seen =
     (if jget (ce_payload e) ''action'' = Some (JStr ''kill'') then (seen (ce_id e) last_seen, True)
      else scan_events es (seen (ce_id e) last_seen))"

fun take_injects ::
    "'z db_scheme handlers \<Rightarrow> (json \<Rightarrow> net) \<Rightarrow> timestamp \<Rightarrow> inject_item list \<Rightarrow> inject_item guard \<times> 'z db_scheme
     \<Rightarrow> inject_item guard \<times> 'z db_scheme" where
  "take_injects hs acks now [] (g, s) = (g, s)"
| "take_injects hs acks now (item # items) (g, s) =
     (if ii_delivery_mode item \<in> {''soft_inject'', ''wake''}
      then take_injects hs acks now items (hold item g, s)
      else take_injects hs acks now items (g, apply_inject hs acks now item s))"

text \<open>One round of \<open>_poll_control_loop\<close>.\<close>

definition pod_poll ::
    "'z db_scheme handlers \<Rightarrow> (json \<Rightarrow> net) \<Rightarrow> net \<Rightarrow> timestamp \<Rightarrow> ident \<Rightarrow> pod \<times> 'z db_scheme \<Rightarrow> pod \<times> 'z db_scheme" where
  "pod_poll hs acks net now iid = (\<lambda>(p, s).
     if pod_stop p \<or> net = Request_Lost then (p, s)
     else (case internal_control_poll now iid (pod_last_seen p) s of
        Inl _ \<Rightarrow> (p, s)
      | Inr (s', r) \<Rightarrow>
          if net = Response_Lost then (p, s')
          else (case scan_events (pr_events r) (pod_last_seen p) of
             (last_seen, True) \<Rightarrow> (p\<lparr>pod_last_seen := last_seen, pod_stop := True\<rparr>, s')
           | (last_seen, False) \<Rightarrow>
               (case take_injects hs acks now (pr_injects r) (pod_guard p, s') of
                  (g, s'') \<Rightarrow> (p\<lparr>pod_last_seen := last_seen, pod_guard := g\<rparr>, s'')))))"

text \<open>
  The end of an iteration of the main loop: the checkpoint over HTTP, then the held injects. An
  event that cannot be sent raises out of the loop (third component).
\<close>

definition loop_request :: "string \<Rightarrow> ident \<Rightarrow> json_obj \<Rightarrow> emit_request" where
  "loop_request ty iid payload = \<lparr>er_type = Some ty, er_actor_type = Some ''instance'', er_actor_id = Some (Some iid),
     er_resource_type = Some (Some ''instance''), er_resource_id = Some (Some iid), er_payload = Some payload\<rparr>"

definition apply_all ::
    "'z db_scheme handlers \<Rightarrow> (json \<Rightarrow> net) \<Rightarrow> timestamp \<Rightarrow> inject_item list \<Rightarrow> 'z db_scheme \<Rightarrow> 'z db_scheme" where
  "apply_all hs acks now items s = fold (apply_inject hs acks now) items s"

definition pod_iteration ::
    "'z db_scheme handlers \<Rightarrow> (json \<Rightarrow> net) \<Rightarrow> net \<Rightarrow> timestamp \<Rightarrow> agent_config \<Rightarrow> llm_response
     \<Rightarrow> pod \<times> 'z db_scheme \<Rightarrow> pod \<times> 'z db_scheme \<times> bool" where
  "pod_iteration hs acks net now cfg r = (\<lambda>(p, s).
     if net = Request_Lost then (p, s, True)
     else (case internal_emit_event hs now (loop_request HARNESS_CHECKPOINT (ac_instance_id cfg)
              (checkpoint_payload (ac_proxy_token cfg) r (pod_iterations p))) s of
        Inl _ \<Rightarrow> (p, s, True)
      | Inr (s1, _) \<Rightarrow>
          if net = Response_Lost then (p, s1, True)
          else (case flush (pod_guard p) of (items, g) \<Rightarrow>
            (p\<lparr>pod_guard := g, pod_iterations := pod_iterations p + 1\<rparr>, apply_all hs acks now items s1, False))))"

section \<open>Runs\<close>

text \<open>
  A pod beside the backend: its poll task, its main loop while it has not been told to stop, the
  queue operations of others (which hand out no row of this Instance) and their events. Without
  losses every exchange succeeds.
\<close>

inductive pod_step :: "'z db_scheme handlers \<Rightarrow> agent_config \<Rightarrow> bool \<Rightarrow> pod \<times> 'z db_scheme \<Rightarrow> pod \<times> 'z db_scheme \<Rightarrow> bool"
  for hs :: "'z db_scheme handlers" and cfg and lossy where
  p_poll: "(\<not> lossy \<Longrightarrow> net = Exchanged \<and> acks = (\<lambda>_. Exchanged)) \<Longrightarrow>
    pod_step hs cfg lossy c (pod_poll hs acks net now (ac_instance_id cfg) c)"
| p_iterate: "(\<not> lossy \<Longrightarrow> net = Exchanged \<and> acks = (\<lambda>_. Exchanged)) \<Longrightarrow> \<not> pod_stop p \<Longrightarrow>
    pod_iterations p < ac_iterations cfg \<Longrightarrow> pod_iteration hs acks net now cfg r (p, s) = (p', s', raised) \<Longrightarrow>
    pod_step hs cfg lossy (p, s) (p', s')"
| p_queue: "inject_step hs s rows s' \<Longrightarrow> (\<And>r. r \<in> set rows \<Longrightarrow> inj_instance_id r \<noteq> ac_instance_id cfg) \<Longrightarrow>
    pod_step hs cfg lossy (p, s) (p, s')"
| p_event: "pod_step hs cfg lossy (p, s) (p, fst (emit hs now a s))"

inductive pod_run :: "'z db_scheme handlers \<Rightarrow> agent_config \<Rightarrow> bool \<Rightarrow> 'z db_scheme \<Rightarrow> pod \<times> 'z db_scheme \<Rightarrow> bool"
  for hs :: "'z db_scheme handlers" and cfg and lossy and s0 where
  pr_start: "pod_run hs cfg lossy s0 (new_pod, s0)"
| pr_step: "pod_run hs cfg lossy s0 c \<Longrightarrow> pod_step hs cfg lossy c c' \<Longrightarrow> pod_run hs cfg lossy s0 c'"

inductive_cases pod_stepE: "pod_step hs cfg lossy c c'"

end
