(* ===== verification/Pod_Props.thy ===== *)
theory Pod_Props
  imports Pod_Control
begin

text \<open>
  What a pod sees and keeps: the control page it reads is always the first one, so a kill on that
  page stops every later pod and a kill behind it is never seen; and, without losses, every inject
  that a poll hands over is held by the guard until the next checkpoint acknowledges it.
\<close>

section \<open>The cursor\<close>

lemma scan_event_rows: "scan_events (map control_event_of es) n =
    (n, \<exists>e \<in> set es. jget (ev_payload e) ''action'' = Some (JStr ''kill''))"
  by (induction es) (auto simp: control_event_of_def seen_def)

lemma pod_poll_cursor: "pod_last_seen (fst (pod_poll hs acks net now iid (p, s))) = pod_last_seen p"
  by (auto simp: pod_poll_def internal_control_poll_def Let_def scan_event_rows split: prod.splits sum.splits bool.splits)

lemma pod_iteration_cursor:
  "pod_iteration hs acks net now cfg r (p, s) = (p', s', raised) \<Longrightarrow> pod_last_seen p' = pod_last_seen p"
  by (auto simp: pod_iteration_def split: if_splits sum.splits prod.splits)

lemma pod_step_cursor:
  assumes "pod_step hs cfg lossy c c'"
  shows "pod_last_seen (fst c') = pod_last_seen (fst c)"
  using assms
proof cases
  case (p_poll net acks now)
  then show ?thesis using pod_poll_cursor by (cases c) simp
next
  case (p_iterate net acks p now r s p' s' raised)
  then show ?thesis using pod_iteration_cursor by fastforce
qed auto

lemma pod_run_cursor: "pod_run hs cfg lossy s0 c \<Longrightarrow> pod_last_seen (fst c) = 0"
  by (induction rule: pod_run.induct) (simp_all add: new_pod_def pod_step_cursor)

definition kill_on_page :: "ident \<Rightarrow> event_row list \<Rightarrow> bool" where
  "kill_on_page iid es \<longleftrightarrow> (\<exists>e \<in> set (control_page iid 0 es). kill_event iid e)"

lemma control_pageD:
  assumes "e \<in> set (control_page iid n es)"
  shows "resource_id e = Some iid" "ev_type e = HARNESS_CONTROL_SENT" "e \<in> set es"
  using set_take_subset assms unfolding control_page_def by (fastforce dest: in_set_takeD)+

lemma pod_poll_stop:
  assumes "pod_last_seen p = 0" and "\<not> pod_stop p"
  shows "pod_stop (fst (pod_poll hs acks Exchanged now iid (p, s))) \<longleftrightarrow> kill_on_page iid (events s)"
proof -
  have k: "kill_on_page iid (events s) \<longleftrightarrow>
      (\<exists>e \<in> set (control_page iid 0 (events s)). jget (ev_payload e) ''action'' = Some (JStr ''kill''))"
    by (auto simp: kill_on_page_def kill_event_def dest: control_pageD)
  show ?thesis
    unfolding k using assms
    by (simp add: pod_poll_def internal_control_poll_def Let_def scan_event_rows split: prod.split bool.split)
qed

section \<open>Outstanding deliveries\<close>

text \<open>Rows of an Instance that were handed over and not acknowledged, and those a pod holds.\<close>

definition outstanding :: "ident \<Rightarrow> 'z db_scheme \<Rightarrow> ident set" where
  "outstanding iid s = row_id ` {r \<in> set (inject_queue s). inj_instance_id r = iid \<and> inj_status r = Inj_delivered \<and> live r}"

definition held :: "pod \<Rightarrow> ident set" where
  "held p = {q. \<exists>item \<in> set (g_pending (pod_guard p)). ii_queue_id item = JStr q}"

lemma outstanding_cong: "inject_queue s' = inject_queue s \<Longrightarrow> outstanding iid s' = outstanding iid s"
  by (simp add: outstanding_def)

lemma outstandingI: "r \<in> set (inject_queue s) \<Longrightarrow> inj_instance_id r = iid \<Longrightarrow> inj_status r = Inj_delivered \<Longrightarrow> live r
    \<Longrightarrow> row_id r \<in> outstanding iid s"
  by (auto simp: outstanding_def)

lemma outstandingE:
  assumes "q \<in> outstanding iid s"
  obtains r where "r \<in> set (inject_queue s)" "row_id r = q" "inj_instance_id r = iid" "inj_status r = Inj_delivered" "live r"
  using assms by (auto simp: outstanding_def)

text \<open>An update that only turns rows away from \<open>delivered\<close>.\<close>

lemma outstanding_update:
  assumes "inject_queue s' = update_where P f (inject_queue s)"
    and "\<And>r. r \<in> set (inject_queue s) \<Longrightarrow> P r \<Longrightarrow> inj_status (f r) \<noteq> Inj_delivered"
  shows "outstanding iid s' = row_id ` {r \<in> set (inject_queue s). \<not> P r \<and> inj_instance_id r = iid \<and>
    inj_status r = Inj_delivered \<and> live r}"
  using assms by (fastforce simp: outstanding_def update_where_def)

lemma outstanding_update_sub:
  assumes "inject_queue s' = update_where P f (inject_queue s)"
    and "\<And>r. r \<in> set (inject_queue s) \<Longrightarrow> P r \<Longrightarrow> inj_status (f r) \<noteq> Inj_delivered"
  shows "outstanding iid s' \<subseteq> outstanding iid s"
proof -
  have eq: "outstanding iid s' = row_id ` {r \<in> set (inject_queue s). \<not> P r \<and> inj_instance_id r = iid \<and>
      inj_status r = Inj_delivered \<and> live r}"
    by (rule outstanding_update [OF assms])
  show ?thesis unfolding eq by (auto simp: outstanding_def)
qed

lemma outstanding_poll:
  assumes "distinct (map row_id (inject_queue s))" and "poll_pending_injects now iid' limit s = (s', rows)"
  shows "outstanding iid s' \<subseteq> outstanding iid s \<union> row_id ` {r \<in> set rows. inj_instance_id r = iid}"
proof
  fix q assume "q \<in> outstanding iid s'"
  then obtain r where r: "r \<in> set (inject_queue s')" "row_id r = q" "inj_instance_id r = iid"
    "inj_status r = Inj_delivered" "live r" by (rule outstandingE)
  let ?q = "poll_expire now iid' (inject_queue s)"
  have s': "inject_queue s' = poll_deliver now iid' limit ?q"
    and rows: "rows = map (deliver_row now) (poll_select now iid' limit ?q)"
    using assms(2) by (auto simp: poll_pending_injects_def Let_def)
  show "q \<in> outstanding iid s \<union> row_id ` {r \<in> set rows. inj_instance_id r = iid}"
  proof (cases "q \<in> row_id ` set (poll_select now iid' limit ?q)")
    case True
    then obtain x where x: "x \<in> set (poll_select now iid' limit ?q)" "row_id x = q" by auto
    have d: "inj_on row_id (set ?q)" using assms(1) by (intro distinct_map [THEN iffD1, THEN conjunct2]) simp
    from r(1) obtain y where y: "y \<in> set ?q" "r = deliver_row now y"
      unfolding s' poll_deliver_def by (rule update_whereE) (use True r(2) in auto)
    then have "y = x" using x poll_selected(1) [OF x(1)] r(2) by (auto intro: inj_onD [OF d])
    with x(1) y have "r \<in> set rows" by (auto simp: rows)
    with r show ?thesis by blast
  next
    case False
    then have "r \<in> set ?q" using r(1,2) unfolding s' poll_deliver_def
      by (auto elim!: update_whereE)
    then have "r \<in> set (inject_queue s)" using r(4) unfolding poll_expire_def
      by (auto elim!: update_whereE)
    with r show ?thesis by (auto intro: outstandingI)
  qed
qed

section \<open>Effect of the steps\<close>

definition quiet_queue :: "'z db_scheme handlers \<Rightarrow> bool" where
  "quiet_queue hs = handlers_respect inject_frame (\<lambda>e. True) hs"

lemma quiet_queue_Nil [simp]: "quiet_queue []"
  by (simp add: quiet_queue_def)

lemma quiet_queue_audit: "quiet_queue hs \<Longrightarrow> audit_handlers hs"
  by (auto simp: quiet_queue_def audit_handlers_def handlers_respect_def)

text \<open>The tables are sound and no identifier is empty.\<close>

definition queue_ok :: "'z db_scheme \<Rightarrow> bool" where
  "queue_ok s \<longleftrightarrow> inject_ok s \<and> [] \<notin> range (id_source s)"

lemma queue_ok_ids: "queue_ok s \<Longrightarrow> r \<in> set (inject_queue s) \<Longrightarrow> row_id r \<noteq> []"
  by (force simp: queue_ok_def inject_ok_def used_ids_def)

lemma frame_ok: "inject_frame s t \<Longrightarrow> queue_ok s \<Longrightarrow> queue_ok t"
  using used_ids_mono [of t s] by (auto simp: inject_frame_def queue_ok_def inject_ok_def)

lemma emit_queue: "quiet_queue hs \<Longrightarrow> inject_frame s (fst (emit hs now a s))"
  using emit_respects [OF inject_frame_order, of "\<lambda>e. True" hs now a s]
  by (simp add: quiet_queue_def inject_frame_def take_id_def)

lemma emit_outstanding:
  "quiet_queue hs \<Longrightarrow> outstanding iid (fst (emit hs now a s)) = outstanding iid s"
  using emit_queue [of hs s now a] by (intro outstanding_cong) (simp add: inject_frame_def)

lemma inject_step_source:
  assumes "inject_step hs s rows s'" and "audit_handlers hs" and "inject_ok s"
  shows "id_source s' = id_source s"
  using assms(1)
proof cases
  case (i_ack now ids n)
  then show ?thesis using ack_injects_effect(3) [OF assms(2)] assms(3) by (auto simp: inject_ok_def)
qed (use assms(2) enqueue_inject_effect(3) mark_inject_failed_effect(1) in
    \<open>auto simp: poll_pending_injects_def Let_def sweep_expired_def sweep_old_completed_def\<close>)

lemma inject_step_ok:
  "inject_step hs s rows s' \<Longrightarrow> audit_handlers hs \<Longrightarrow> queue_ok s \<Longrightarrow> queue_ok s'"
  using inject_step_moves [of hs s rows s'] inject_step_source [of hs s rows s'] by (auto simp: queue_ok_def)

lemma ack_outstanding:
  assumes "audit_handlers hs" and "queue_ok s" and "ack_injects hs now ids s = (s', n)"
  shows "outstanding iid s' = outstanding iid s - set ids" and "queue_ok s'"
proof -
  have d: "distinct (map row_id (inject_queue s))" using assms(2) by (simp add: queue_ok_def inject_ok_def)
  have "outstanding iid s' = row_id ` {r \<in> set (inject_queue s). \<not> ackable ids r \<and> inj_instance_id r = iid \<and>
      inj_status r = Inj_delivered \<and> live r}"
    by (rule outstanding_update [OF ack_injects_effect(1) [OF assms(1) d assms(3)]]) simp
  also have "\<dots> = outstanding iid s - set ids"
    using d by (auto simp: outstanding_def ackable_def image_iff)
  finally show "outstanding iid s' = outstanding iid s - set ids" .
  show "queue_ok s'" by (rule inject_step_ok [OF i_ack [OF assms(3)] assms(1,2)])
qed

lemma apply_inject_effect:
  fixes now :: timestamp
  assumes "audit_handlers hs" and "queue_ok s" and "ii_queue_id item = JStr q" and "q \<noteq> []"
  defines "s' \<equiv> apply_inject hs (\<lambda>_. Exchanged) now item s"
  shows "outstanding iid s' = outstanding iid s - {q}" and "queue_ok s'"
proof -
  obtain t n where a: "ack_injects hs now [q] s = (t, n)" by fastforce
  then have "s' = t" using assms(3,4) by (simp add: s'_def apply_inject_def internal_control_ack_def)
  with ack_outstanding [OF assms(1,2) a] show "outstanding iid s' = outstanding iid s - {q}" "queue_ok s'"
    by simp_all
qed

definition soft :: "inject_item \<Rightarrow> bool" where
  "soft item \<longleftrightarrow> ii_delivery_mode item \<in> {''soft_inject'', ''wake''}"

definition addressed :: "inject_item \<Rightarrow> bool" where
  "addressed item \<longleftrightarrow> (\<exists>q. ii_queue_id item = JStr q \<and> q \<noteq> [])"

definition item_ids :: "inject_item list \<Rightarrow> ident set" where
  "item_ids items = {q. \<exists>item \<in> set items. ii_queue_id item = JStr q}"

lemma held_items: "held p = item_ids (g_pending (pod_guard p))"
  by (simp add: held_def item_ids_def)

lemma item_ids_append [simp]: "item_ids (xs @ ys) = item_ids xs \<union> item_ids ys"
  by (auto simp: item_ids_def)

lemma item_ids_split: "item_ids xs = item_ids (filter P xs) \<union> item_ids (filter (\<lambda>x. \<not> P x) xs)"
  by (auto simp: item_ids_def)

lemma take_injects_effect:
  assumes "audit_handlers hs" and "queue_ok s" and "\<forall>item \<in> set items. addressed item"
    and "take_injects hs (\<lambda>_. Exchanged) now items (g, s) = (g', s')"
  shows "g_pending g' = g_pending g @ filter soft items \<and> g_outstanding g' = g_outstanding g \<and>
    outstanding iid s' = outstanding iid s - item_ids (filter (\<lambda>i. \<not> soft i) items) \<and> queue_ok s'"
  using assms(2-4)
proof (induction items arbitrary: g s)
  case (Cons item items)
  show ?case
  proof (cases "soft item")
    case True
    with Cons.prems have "take_injects hs (\<lambda>_. Exchanged) now items (hold item g, s) = (g', s')"
      by (auto simp: soft_def)
    from Cons.IH [OF Cons.prems(1) _ this] Cons.prems(2) True show ?thesis
      by (simp add: hold_def)
  next
    case False
    obtain q where q: "ii_queue_id item = JStr q" "q \<noteq> []"
      using Cons.prems(2) by (auto simp: addressed_def)
    note eff = apply_inject_effect [OF assms(1) Cons.prems(1) q, where now = now]
    from False Cons.prems(3)
    have "take_injects hs (\<lambda>_. Exchanged) now items (g, apply_inject hs (\<lambda>_. Exchanged) now item s) = (g', s')"
      by (auto simp: soft_def)
    from Cons.IH [OF eff(2) _ this] Cons.prems(2) eff(1) [where iid = iid] False q show ?thesis
      by (auto simp: item_ids_def)
  qed
qed (simp add: item_ids_def)

lemma apply_all_effect:
  assumes "audit_handlers hs" and "queue_ok s" and "\<forall>item \<in> set items. addressed item"
  shows "outstanding iid (apply_all hs (\<lambda>_. Exchanged) now items s) = outstanding iid s - item_ids items \<and>
    queue_ok (apply_all hs (\<lambda>_. Exchanged) now items s)"
  using assms(2,3)
proof (induction items arbitrary: s)
  case (Cons item items)
  obtain q where q: "ii_queue_id item = JStr q" "q \<noteq> []"
    using Cons.prems(2) by (auto simp: addressed_def)
  note eff = apply_inject_effect [OF assms(1) Cons.prems(1) q, where now = now]
  from Cons.IH [OF eff(2)] Cons.prems(2) eff(1) [where iid = iid] q show ?case
    by (auto simp: apply_all_def item_ids_def)
qed (simp add: apply_all_def item_ids_def)

section \<open>The invariant\<close>

definition pod_ok :: "ident \<Rightarrow> pod \<times> 'z db_scheme \<Rightarrow> bool" where
  "pod_ok iid = (\<lambda>(p, s). queue_ok s \<and> pod_last_seen p = 0 \<and> g_outstanding (pod_guard p) = 0 \<and>
     (\<forall>item \<in> set (g_pending (pod_guard p)). addressed item) \<and>
     (pod_stop p \<or> outstanding iid s \<subseteq> held p))"

lemma poll_ok:
  assumes "audit_handlers hs" and "pod_ok iid (p, s)"
  shows "pod_ok iid (pod_poll hs (\<lambda>_. Exchanged) Exchanged now iid (p, s))"
proof (cases "pod_stop p")
  case True
  with assms(2) show ?thesis by (simp add: pod_poll_def)
next
  case False
  have inv: "queue_ok s" "pod_last_seen p = 0" "g_outstanding (pod_guard p) = 0"
    "\<forall>item \<in> set (g_pending (pod_guard p)). addressed item" "outstanding iid s \<subseteq> held p"
    using assms(2) False by (auto simp: pod_ok_def)
  obtain s' rows where poll: "poll_pending_injects now iid 20 s = (s', rows)" by fastforce
  have ok': "queue_ok s'" by (rule inject_step_ok [OF i_poll [OF poll] assms(1) inv(1)])
  have d: "distinct (map row_id (inject_queue s))" using inv(1) by (simp add: queue_ok_def inject_ok_def)
  have sub: "outstanding iid s' \<subseteq> held p \<union> row_id ` set rows"
    using outstanding_poll [OF d poll, of iid] inv(5) by auto
  have addr: "\<forall>item \<in> set (map inject_item_of rows). addressed item"
  proof
    fix item assume "item \<in> set (map inject_item_of rows)"
    then obtain r where r: "r \<in> set rows" "item = inject_item_of r" by auto
    obtain r' where "r' \<in> set (inject_queue s)" "row_id r' = row_id r"
      using poll_rows(2) [OF poll _ r(1)] inv(1) by (auto simp: queue_ok_def)
    then have "row_id r \<noteq> []" using queue_ok_ids [OF inv(1)] by metis
    with r(2) show "addressed item" by (simp add: addressed_def inject_item_of_def)
  qed
  obtain g t where t: "take_injects hs (\<lambda>_. Exchanged) now (map inject_item_of rows) (pod_guard p, s') = (g, t)"
    by fastforce
  note eff = take_injects_effect [OF assms(1) ok' addr t, of iid]
  have ids: "item_ids (map inject_item_of rows) = row_id ` set rows"
    by (auto simp: item_ids_def inject_item_of_def image_iff)
  have "outstanding iid t \<subseteq> item_ids (g_pending g)"
    using eff sub item_ids_split [of "map inject_item_of rows" soft]
    by (simp add: held_items ids) blast
  moreover have "\<forall>item \<in> set (g_pending g). addressed item" using eff inv(4) addr by auto
  ultimately show ?thesis
    using False inv(2,3) poll t eff ok'
    by (auto simp: pod_ok_def pod_poll_def internal_control_poll_def Let_def scan_event_rows held_items
        inv(4) split: bool.split)
qed

lemma emit_request_event:
  "internal_emit_event hs now (loop_request ty iid pl) s =
     (case emit hs now (loop_event ty iid pl) s of (s', e) \<Rightarrow> Inr (s', row_id e))"
  by (simp add: internal_emit_event_def loop_request_def loop_event_def)

lemma iteration_ok:
  assumes "quiet_queue hs" and "pod_ok iid (p, s)" and "\<not> pod_stop p"
    and "pod_iteration hs (\<lambda>_. Exchanged) Exchanged now cfg r (p, s) = (p', s', raised)"
  shows "pod_ok iid (p', s') \<and> outstanding iid s' = {} \<and> g_pending (pod_guard p') = []"
proof -
  have inv: "queue_ok s" "pod_last_seen p = 0" "g_outstanding (pod_guard p) = 0"
    "\<forall>item \<in> set (g_pending (pod_guard p)). addressed item" "outstanding iid s \<subseteq> held p"
    using assms(2,3) by (auto simp: pod_ok_def)
  let ?a = "loop_event HARNESS_CHECKPOINT (ac_instance_id cfg)
    (checkpoint_payload (ac_proxy_token cfg) r (pod_iterations p))"
  obtain s1 e where em: "emit hs now ?a s = (s1, e)" by fastforce
  have ok1: "queue_ok s1" using frame_ok [OF emit_queue [OF assms(1), of s now ?a] inv(1)] em by simp
  have out1: "outstanding iid s1 = outstanding iid s"
    using emit_outstanding [OF assms(1), of iid now ?a s] em by simp
  let ?items = "g_pending (pod_guard p)"
  have fl: "flush (pod_guard p) = (?items, (pod_guard p)\<lparr>g_pending := []\<rparr>)"
    using inv(3) by (cases "pod_guard p") (simp add: flush_def at_safe_point_def)
  have p': "p' = p\<lparr>pod_guard := (pod_guard p)\<lparr>g_pending := []\<rparr>, pod_iterations := pod_iterations p + 1\<rparr>"
    and s': "s' = apply_all hs (\<lambda>_. Exchanged) now ?items s1"
    using assms(4) by (auto simp: pod_iteration_def emit_request_event em fl)
  note eff = apply_all_effect [OF quiet_queue_audit [OF assms(1)] ok1 inv(4), of iid now]
  have "outstanding iid s' = {}" using eff out1 inv(5) by (auto simp: s' held_items)
  moreover have "queue_ok s'" using eff by (simp add: s')
  ultimately show ?thesis using inv(2,3) by (simp add: p' pod_ok_def)
qed

lemma queue_step_ok:
  assumes "audit_handlers hs" and "inject_step hs s rows s'"
    and "\<And>r. r \<in> set rows \<Longrightarrow> inj_instance_id r \<noteq> iid" and "queue_ok s"
  shows "outstanding iid s' \<subseteq> outstanding iid s"
  using assms(2)
proof cases
  case (i_enqueue now iid' kind mode payload tldr r)
  note e = enqueue_inject_effect [OF assms(1) i_enqueue(2)]
  show ?thesis unfolding outstanding_def e(2) by (auto simp: e(1) new_inject_row_def)
next
  case (i_poll now iid' limit)
  have d: "distinct (map row_id (inject_queue s))" using assms(4) by (simp add: queue_ok_def inject_ok_def)
  from outstanding_poll [OF d i_poll, of iid] assms(3) show ?thesis by blast
next
  case (i_ack now ids n)
  from ack_outstanding(1) [OF assms(1,4) i_ack(2)] show ?thesis by blast
next
  case (i_fail now qid msg r')
  note e = mark_inject_failed_effect [OF assms(1) i_fail(2)]
  show ?thesis
  proof (cases r')
    case None
    with e(3) show ?thesis by (simp add: outstanding_def)
  next
    case (Some x)
    from e(4) [OF this] obtain r where r:
      "x = modified now r (r\<lparr>inj_status := Inj_failed, error_message := Some msg\<rparr>)"
      "inject_queue s' = update_where (\<lambda>q. row_id q = qid) (\<lambda>_. x) (inject_queue s)" by blast
    have "inj_status (modified now r t) = inj_status t" for t by (simp add: modified_def touch_def)
    then have "inj_status x \<noteq> Inj_delivered" by (simp add: r(1))
    then show ?thesis by (intro outstanding_update_sub [OF r(2)])
  qed
next
  case (i_sweep now n)
  then have q: "inject_queue s' = update_where (overdue now) (expire_row now) (inject_queue s)"
    by (auto simp: sweep_expired_def)
  show ?thesis by (rule outstanding_update_sub [OF q]) simp
next
  case (i_clean now n)
  then have q: "inject_queue s' = update_where (completed_old now) (soft_delete now) (inject_queue s)"
    by (auto simp: sweep_old_completed_def)
  show ?thesis
    by (rule outstanding_update_sub [OF q])
      (auto simp: completed_old_def COMPLETED_STATUSES_def soft_delete_def touch_def)
qed

lemma pod_step_ok:
  assumes "quiet_queue hs" and "pod_step hs cfg False c c'" and "pod_ok (ac_instance_id cfg) c"
  shows "pod_ok (ac_instance_id cfg) c'"
  using assms(2)
proof cases
  case (p_poll net acks now)
  with assms(3) poll_ok [OF quiet_queue_audit [OF assms(1)]] show ?thesis by (cases c) simp
next
  case (p_iterate net acks p now r s p' s' raised)
  with assms(3) iteration_ok [OF assms(1)] show ?thesis by fastforce
next
  case (p_queue s rows s' p)
  note sub = queue_step_ok [OF quiet_queue_audit [OF assms(1)] p_queue(3,4)]
  from p_queue assms(3) sub inject_step_ok [OF p_queue(3) quiet_queue_audit [OF assms(1)]] show ?thesis
    by (auto simp: pod_ok_def)
next
  case (p_event p s now a)
  with assms(3) frame_ok [OF emit_queue [OF assms(1)]] emit_outstanding [OF assms(1)] show ?thesis
    by (auto simp: pod_ok_def)
qed

lemma pod_run_ok:
  assumes "pod_run hs cfg False s0 c" and "quiet_queue hs" and "queue_ok s0"
    and "outstanding (ac_instance_id cfg) s0 = {}"
  shows "pod_ok (ac_instance_id cfg) c"
  using assms(1)
proof induction
  case pr_start
  show ?case using assms(3,4) by (simp add: pod_ok_def new_pod_def new_guard_def)
next
  case (pr_step c c')
  then show ?case using pod_step_ok [OF assms(2)] by blast
qed

text \<open>The rows a poll hands out are delivered and unacknowledged.\<close>

lemma poll_rows_outstanding:
  assumes "poll_pending_injects now iid limit s = (s', rows)"
  shows "row_id ` set rows \<subseteq> outstanding iid s'"
proof
  let ?q = "poll_expire now iid (inject_queue s)"
  fix q assume "q \<in> row_id ` set rows"
  then obtain r where r: "r \<in> set (poll_select now iid limit ?q)" "q = row_id (deliver_row now r)"
    using assms by (auto simp: poll_pending_injects_def Let_def)
  note sel = poll_selected [OF r(1)]
  have "deliver_row now r \<in> set (poll_deliver now iid limit ?q)"
    unfolding poll_deliver_def using sel(1) r(1) by (intro update_where_hit) auto
  then have "deliver_row now r \<in> set (inject_queue s')"
    using assms by (auto simp: poll_pending_injects_def Let_def)
  then show "q \<in> outstanding iid s'"
    unfolding r(2) using sel(2)
    by (intro outstandingI) (auto simp: is_pending_def deliver_row_def touch_def live_def)
qed

section \<open>Properties\<close>

text \<open>
  C25. Without losses no inject is forgotten: along every run of a pod that has not been told to
  stop, whatever others enqueue, fail or sweep meanwhile, every delivered and unacknowledged row of
  its Instance is held by the guard, and the next iteration acknowledges all of them.
\<close>

theorem pod_keeps_deliveries:
  assumes "pod_run hs cfg False s0 (p, s)" and "quiet_queue hs" and "queue_ok s0"
    and "outstanding (ac_instance_id cfg) s0 = {}" and "\<not> pod_stop p"
  shows "outstanding (ac_instance_id cfg) s \<subseteq> held p \<and>
    (case pod_iteration hs (\<lambda>_. Exchanged) Exchanged now cfg r (p, s) of
       (p', s', raised) \<Rightarrow> outstanding (ac_instance_id cfg) s' = {} \<and> held p' = {})"
proof -
  have ok: "pod_ok (ac_instance_id cfg) (p, s)" by (rule pod_run_ok [OF assms(1-4)])
  obtain p' s' raised where it: "pod_iteration hs (\<lambda>_. Exchanged) Exchanged now cfg r (p, s) = (p', s', raised)"
    by (cases "pod_iteration hs (\<lambda>_. Exchanged) Exchanged now cfg r (p, s)")
  from iteration_ok [OF assms(2) ok assms(5) it] ok assms(5) it show ?thesis
    by (auto simp: pod_ok_def held_items item_ids_def)
qed


text \<open>
  What a running pod reacts to, whatever it has read before: exactly a kill among the first 50
  control events of its Instance in the order of their identifiers. A later kill with a greater
  identifier than 50 others (each chat turn adds one) is never seen.
\<close>

theorem pod_poll_stops_iff:
  assumes "pod_run hs cfg lossy s0 (p, s)" and "\<not> pod_stop p"
  shows "pod_stop (fst (pod_poll hs acks Exchanged now (ac_instance_id cfg) (p, s))) \<longleftrightarrow>
    (\<exists>e \<in> set (control_page (ac_instance_id cfg) 0 (events s)). kill_event (ac_instance_id cfg) e)"
proof -
  have "pod_last_seen p = 0" using pod_run_cursor [OF assms(1)] by simp
  from pod_poll_stop [OF this assms(2)] show ?thesis unfolding kill_on_page_def .
qed

section \<open>Witnesses\<close>

definition old_kill :: event_row where
  "old_kill = \<lparr>row_id = ''5f'', created_at = 1, updated_at = 1, deleted_at = None, ev_type = HARNESS_CONTROL_SENT,
     actor_type = ''system'', actor_id = None, resource_type = Some ''instance'', resource_id = Some ''x'',
     ev_payload = [(''action'', JStr ''kill''), (''instance_id'', JStr ''x'')], request_id = None\<rparr>"

definition killed_store :: db where
  "killed_store = sample_inbox\<lparr>events := [old_kill]\<rparr>"


lemma sample_inbox_queue: "queue_ok sample_inbox" "outstanding ''x'' sample_inbox = {}"
  using sample_inbox_ok
  by (auto simp: queue_ok_def outstanding_def sample_inbox_def new_inject_row_def empty_db_def sample_ids_def)

definition pod_config :: agent_config where
  "pod_config = \<lparr>ac_instance_id = ''x'', ac_proxy_token = [], ac_iterations = 10, ac_client_ok = True\<rparr>"

definition polled :: "pod \<times> db" where
  "polled = pod_poll [] (\<lambda>_. Exchanged) Exchanged 30 ''x'' (new_pod, sample_inbox)"

lemma polled_run: "pod_run [] pod_config False sample_inbox polled"
proof -
  have "pod_step [] pod_config False (new_pod, sample_inbox) polled"
    using p_poll [of False Exchanged "\<lambda>_. Exchanged" "[]" pod_config "(new_pod, sample_inbox)" 30]
    by (simp add: polled_def pod_config_def)
  from pr_step [OF pr_start this] show ?thesis .
qed

lemma polled_state: "\<not> pod_stop (fst polled)" "held (fst polled) = {''i''}"
  by (simp_all add: polled_def pod_poll_def internal_control_poll_def poll_pending_injects_def poll_select_def
      poll_expire_def poll_deliver_def control_page_def sample_inbox_def empty_db_def new_inject_row_def is_pending_def
      fifo_key_def DEFAULT_TTL_def seconds_def live_def deliver_row_def touch_def new_pod_def new_guard_def hold_def
      inject_item_of_def apply_inject_def internal_control_ack_def ack_injects_def held_def)

lemma pod_keeps_deliveries_witness:
  "outstanding ''x'' (snd polled) \<subseteq> {''i''}"
proof -
  obtain p s where c: "polled = (p, s)" by fastforce
  have run: "pod_run [] pod_config False sample_inbox (p, s)" using polled_run c by simp
  have iid: "ac_instance_id pod_config = ''x''" by (simp add: pod_config_def)
  have f: "outstanding (ac_instance_id pod_config) sample_inbox = {}" "\<not> pod_stop p" "held p = {''i''}"
    using sample_inbox_queue(2) polled_state unfolding c by (simp_all add: iid)
  from pod_keeps_deliveries [OF run quiet_queue_Nil sample_inbox_queue(1) f(1,2), of 31 stub_response]
  have "outstanding ''x'' s \<subseteq> {''i''}" unfolding iid f(3) by (rule conjunct1)
  then show ?thesis by (simp add: c)
qed

lemma pod_poll_stops_iff_witness:
  "pod_stop (fst (pod_poll [] (\<lambda>_. Exchanged) Exchanged 31 ''x'' (new_pod, killed_store)))"
proof -
  have run: "pod_run [] pod_config True killed_store (new_pod, killed_store)" by (rule pr_start)
  have zero: "str_of_int 0 = ''0''" by code_simp
  have "\<not> pod_stop new_pod" by (simp add: new_pod_def)
  with pod_poll_stops_iff [OF run, of "\<lambda>_. Exchanged" 31] zero show ?thesis
    by (simp add: pod_config_def control_page_def killed_store_def old_kill_def kill_event_def less_char_def)
qed

end
