(* ===== verification/Activation.thy ===== *)
theory Activation
  imports Agent_Loop Task_Queue Routing
begin

text \<open>
  Starting agent runtimes: the activation events (\<^verbatim>\<open>app/core/activation.py\<close>: on mention, and the
  daily report of the task queue) and their consumer (\<^verbatim>\<open>app/core/activation_consumer.py\<close>), which
  resumes the idle loop of an Entity's active Instance and starts its runtime.
\<close>

section \<open>Loop states\<close>

text \<open>The defaults of the columns of a new loop state.\<close>

definition new_loop_state :: "timestamp \<Rightarrow> ident \<Rightarrow> ident \<Rightarrow> loop_state" where
  "new_loop_state now i iid = \<lparr>row_id = i, created_at = now, updated_at = now, deleted_at = None,
     ls_instance_id = iid, loop_status = L_idle, current_plan_ref = None, continuation_count = 0,
     total_token_estimate = 0, wall_clock_started_at = None, last_checkpoint_at = None,
     boulder_snapshot = None, notepad_refs = None, max_continuations = 50, max_wall_clock_seconds = 3600,
     max_token_estimate = 100000, idle_timeout_seconds = 300\<rparr>"

text \<open>The live loop state of an Instance, created idle if there is none.\<close>

definition ensure_loop_state :: "timestamp \<Rightarrow> ident \<Rightarrow> 'z db_scheme \<Rightarrow> 'z db_scheme \<times> loop_state" where
  "ensure_loop_state now iid s =
     (case live_loop_state iid s of
        Some st \<Rightarrow> (s, st)
      | None \<Rightarrow>
          let st = new_loop_state now (new_id s) iid
          in ((take_id s)\<lparr>loop_states := loop_states s @ [st]\<rparr>, st))"

section \<open>Activation events\<close>

definition activation_event :: "string \<Rightarrow> ident \<Rightarrow> ident \<Rightarrow> event_args" where
  "activation_event trigger ent ws = system_event MESSAGING_ACTIVATION_TRIGGERED ''entity'' ent
     [(''trigger'', JStr trigger), (''workspace_id'', JStr ws)]"

definition trigger_on_mention ::
    "'z db_scheme handlers \<Rightarrow> timestamp \<Rightarrow> ident \<Rightarrow> ident \<Rightarrow> 'z db_scheme \<Rightarrow> 'z db_scheme" where
  "trigger_on_mention hs now ent ws s = fst (emit hs now (activation_event ''on_mention'' ent ws) s)"

text \<open>The Entities with a running Instance in a Workspace, once per Instance.\<close>

definition running_entities :: "ident \<Rightarrow> 'z db_scheme \<Rightarrow> entity list" where
  "running_entities ws s = [e. e \<leftarrow> entities s, i \<leftarrow> instances s, ins_entity_id i = row_id e
     \<and> ins_workspace_id i = ws \<and> ins_status i = I_running \<and> live i \<and> live e]"

definition report_workspace ::
    "'z db_scheme handlers \<Rightarrow> timestamp \<Rightarrow> workspace \<Rightarrow> 'z db_scheme \<Rightarrow> 'z db_scheme" where
  "report_workspace hs now w s =
     fold (\<lambda>e s. fst (emit hs now (activation_event ''daily_report'' (row_id e) (row_id w)) s))
       (running_entities (row_id w) s) s"

text \<open>
  The report over all live Workspaces. The queue and the pending flag are module state: the handler
  clears the flag first and enqueues itself again at the end.
\<close>

definition daily_report :: "'z db_scheme handlers \<Rightarrow> timestamp \<Rightarrow> 'z db_scheme \<Rightarrow> 'z db_scheme" where
  "daily_report hs now s = fold (report_workspace hs now) (filter live (workspaces s)) s"

record report_state =
  rs_queue :: "task_queue option"
  rs_pending :: "ident option"

text \<open>
  The session of the handler either commits or, after any exception, is rolled back; then the
  handler returns. \<open>clock\<close> is the time of the event loop that the queue uses.
\<close>

definition daily_report_handler ::
    "'z db_scheme handlers \<Rightarrow> timestamp \<Rightarrow> int \<Rightarrow> bool \<Rightarrow> ident \<Rightarrow> 'z db_scheme \<times> report_state
     \<Rightarrow> queue_error + 'z db_scheme \<times> report_state" where
  "daily_report_handler hs now clock failed tid = (\<lambda>(s, rs).
     if failed then Inr (s, rs\<lparr>rs_pending := None\<rparr>)
     else (case rs_queue rs of
             None \<Rightarrow> Inr (daily_report hs now s, rs\<lparr>rs_pending := None\<rparr>)
           | Some q \<Rightarrow>
              (case tq_enqueue clock tid ''daily_report_sync'' (seconds 86400) None q of
                 Inl e \<Rightarrow> Inl e
               | Inr (q', t) \<Rightarrow> Inr (daily_report hs now s,
                   rs\<lparr>rs_queue := Some q', rs_pending := Some (task_id t)\<rparr>))))"

definition schedule_daily_report_sync ::
    "int \<Rightarrow> ident \<Rightarrow> task_queue \<Rightarrow> report_state \<Rightarrow> queue_error + report_state" where
  "schedule_daily_report_sync clock tid q rs =
     (if rs_pending rs \<noteq> None then Inr rs
      else (case register_task ''daily_report_sync'' q of
              Inl e \<Rightarrow> Inl e
            | Inr q1 \<Rightarrow>
               (case tq_enqueue clock tid ''daily_report_sync'' 0 None q1 of
                  Inl e \<Rightarrow> Inl e
                | Inr (q2, t) \<Rightarrow> Inr (rs\<lparr>rs_queue := Some q2, rs_pending := Some (task_id t)\<rparr>))))"

section \<open>The consumer\<close>

text \<open>
  \<open>on_activation_triggered\<close>. The handler works in its own session: what it has not committed when
  it returns, or raises, is gone. \<open>hs\<close> are the handlers its own events reach.
\<close>

definition on_activation_triggered :: "'z world_scheme handlers \<Rightarrow> 'z world_scheme handler" where
  "on_activation_triggered hs e w =
     (case (resource_id e, jget (ev_payload e) ''workspace_id'') of
        (Some ent, Some (JStr ws)) \<Rightarrow>
          (case active_instances ent ws (instances w) of
             [] \<Rightarrow> (w, False)
           | i # _ \<Rightarrow>
              (case ensure_loop_state (created_at e) (row_id i) w of
                 (w1, st) \<Rightarrow>
                   if loop_status st \<noteq> L_idle then (w, False)
                   else (case handle_resume hs (created_at e) (row_id i) w1 of
                           Inl _ \<Rightarrow> (w, False)
                         | Inr (w2, _) \<Rightarrow> (fst (start_runtime_for (row_id i) w2), False))))
      | _ \<Rightarrow> (w, False))"

text \<open>\<open>write_central_hub_summary\<close>: nothing calls it in the program.\<close>

definition write_central_hub_summary :: "timestamp \<Rightarrow> ident \<Rightarrow> string \<Rightarrow> 'z db_scheme \<Rightarrow> 'z db_scheme" where
  "write_central_hub_summary now ws summary s = write_hub now ws summary s"

end
