(* ===== verification/Directive_Router.thy ===== *)
theory Directive_Router
  imports Routing Capabilities Activation
begin

text \<open>
  The turn a person sends (\<^verbatim>\<open>app/core/directive_router.py\<close>, the message endpoint of
  \<^verbatim>\<open>app/api/v1/messaging.py\<close>, the command lists of \<^verbatim>\<open>app/core/preset_registry.py\<close>): control
  commands go to the harness supervisor, learning commands distill the memory of an Entity into
  capabilities, everything else is routed by Passage and wakes up the Entity it reached.
\<close>

section \<open>Command lists\<close>

definition GLOBAL_COMMANDS :: "string list" where
  "GLOBAL_COMMANDS = [''/read'', ''/list'', ''/write'', ''/archive'']"

definition is_global_command :: "string \<Rightarrow> bool" where
  "is_global_command cmd \<longleftrightarrow> cmd \<in> set GLOBAL_COMMANDS"

definition CONTROL_COMMANDS :: "string list" where
  "CONTROL_COMMANDS = [''/interrupt'', ''/pause'', ''/resume'', ''/status'', ''/snapshot'']"

definition is_control_command :: "string \<Rightarrow> bool" where
  "is_control_command cmd \<longleftrightarrow> cmd \<in> set CONTROL_COMMANDS"

definition LEARNING_COMMANDS :: "string list" where
  "LEARNING_COMMANDS = [''/distill'', ''/consolidate'', ''/reflect'']"

definition is_learning_command :: "string \<Rightarrow> bool" where
  "is_learning_command cmd \<longleftrightarrow> cmd \<in> set LEARNING_COMMANDS"

section \<open>Distilling memory\<close>

text \<open>\<open>_SLUG_NON_ALNUM.sub("-", _)\<close>: each run of other characters becomes one hyphen.\<close>

fun dash_runs :: "bool \<Rightarrow> string \<Rightarrow> string" where
  "dash_runs in_run [] = []"
| "dash_runs in_run (c # cs) =
     (if is_lower c \<or> is_digit c then c # dash_runs False cs
      else if in_run then dash_runs True cs else CHR ''-'' # dash_runs True cs)"

definition strip_dashes :: "string \<Rightarrow> string" where
  "strip_dashes t = rev (dropWhile ((=) CHR ''-'') (rev (dropWhile ((=) CHR ''-'') t)))"

definition slugify_capability_name :: "string \<Rightarrow> string" where
  "slugify_capability_name t =
     (let slug = strip_dashes (dash_runs False (strip (lower t)))
      in if slug = [] then ''capability'' else take 200 slug)"

definition knowledge_slugs_for_memory :: "string option \<Rightarrow> string list option" where
  "knowledge_slugs_for_memory k =
     (if \<not> truthy k then None
      else let p = lower (strip (hd (split_on CHR ''-'' (the k)))) in if p = [] then None else Some [p])"

fun kind_name :: "memory_kind \<Rightarrow> string" where
  "kind_name MK_experience = ''experience''"
| "kind_name MK_lesson = ''lesson''"
| "kind_name MK_decision = ''decision''"
| "kind_name MK_problem = ''problem''"
| "kind_name MK_notepad = ''notepad''"

record candidate =
  cd_name :: string
  cd_type :: string
  cd_description :: string
  cd_knowledge :: "string list option"

definition candidate_of :: "memory_row \<Rightarrow> candidate" where
  "candidate_of m =
     (let kind = kind_name (mm_kind m)
      in \<lparr>cd_name = slugify_capability_name (str_or (mm_key m) (str_or (mm_content m) kind)),
          cd_type = ''skill'',
          cd_description = take 200 (str_or (mm_content m) (str_or (mm_key m) kind)),
          cd_knowledge = knowledge_slugs_for_memory (mm_key m)\<rparr>)"

definition distill_memory_candidates :: "ident \<Rightarrow> nat \<Rightarrow> 'z db_scheme \<Rightarrow> candidate list" where
  "distill_memory_candidates ent limit s =
     map candidate_of (take limit (sort_key created_at
       (filter (\<lambda>m. mm_entity_id m = ent \<and> live m) (memories s))))"

section \<open>Results of a turn\<close>

record directive_result =
  dr_raw :: string
  dr_target :: "string option"
  dr_cmd :: string
  dr_results :: "delivery list"
  dr_created :: "(string \<times> string) list"
  dr_engine :: string

definition directive_result_of :: "directive \<Rightarrow> string option \<Rightarrow> delivery list \<Rightarrow> directive_result" where
  "directive_result_of d target rs = \<lparr>dr_raw = dir_raw d, dr_target = target, dr_cmd = dir_cmd d,
     dr_results = rs, dr_created = [], dr_engine = ''heuristic''\<rparr>"

section \<open>Control and learning directives\<close>

definition entity_by_slug :: "string \<Rightarrow> 'z db_scheme \<Rightarrow> entity option" where
  "entity_by_slug target s = first_where (\<lambda>e. ent_slug e = target \<and> live e) (entities s)"

definition control_action ::
    "'z world_scheme handlers \<Rightarrow> timestamp \<Rightarrow> string \<Rightarrow> ident \<Rightarrow> 'z world_scheme \<Rightarrow> 'z world_scheme result" where
  "control_action hs now cmd iid p =
     (let r = (if cmd = ''/interrupt'' then map_sum id fst (handle_interrupt hs now iid p)
               else if cmd = ''/pause'' then map_sum id fst (handle_pause hs now iid p)
               else if cmd = ''/resume'' then map_sum id fst (handle_resume hs now iid p)
               else Inr p)
      in r)"

definition route_control_directive ::
    "'z world_scheme handlers \<Rightarrow> timestamp \<Rightarrow> ident \<Rightarrow> directive \<Rightarrow> 'z world_scheme
     \<Rightarrow> ('z world_scheme \<times> directive_result) result" where
  "route_control_directive hs now ws d p =
     (case dir_target d of
        None \<Rightarrow> Inr (p, directive_result_of d None [])
      | Some target \<Rightarrow>
         (case entity_by_slug target p of
            None \<Rightarrow> Inr (p, directive_result_of d (Some target) [])
          | Some ent \<Rightarrow>
             (case active_instances (row_id ent) ws (instances p) of
                [] \<Rightarrow> Inr (p, directive_result_of d (Some target) [])
              | i # _ \<Rightarrow>
                 (case control_action hs now (dir_cmd d) (row_id i) p of
                    Inl e \<Rightarrow> Inl e
                  | Inr p1 \<Rightarrow> Inr (p1, directive_result_of d (Some target) [])))))"

definition distill_args :: "ident option \<Rightarrow> entity \<Rightarrow> candidate \<Rightarrow> upsert_args" where
  "distill_args org ent c = \<lparr>ua_name = cd_name c, ua_type = cd_type c,
     ua_scope = (if truthy org then ''org'' else ''system''), ua_organization_id = org,
     ua_namespace_id = None, ua_created_via = ''distill'', ua_description = Some (cd_description c),
     ua_config_template = None, ua_required_knowledge = cd_knowledge c,
     ua_source_entity_slug = Some (ent_slug ent)\<rparr>"

fun upsert_candidates ::
    "timestamp \<Rightarrow> ident option \<Rightarrow> entity \<Rightarrow> candidate list \<Rightarrow> 'z db_scheme
     \<Rightarrow> ('z db_scheme \<times> (string \<times> string) list) result" where
  "upsert_candidates now org ent [] s = Inr (s, [])"
| "upsert_candidates now org ent (c # cs) s =
     (case upsert_capability now (distill_args org ent c) s of
        Inl e \<Rightarrow> Inl e
      | Inr (s1, cap) \<Rightarrow>
         (case upsert_candidates now org ent cs s1 of
            Inl e \<Rightarrow> Inl e
          | Inr (s2, made) \<Rightarrow> Inr (s2, (cap_name cap, cap_type cap) # made)))"

definition distillation_event :: "ident \<Rightarrow> entity \<Rightarrow> (string \<times> string) list \<Rightarrow> event_args" where
  "distillation_event uid ent made =
     \<lparr>ea_type = LEARNING_DISTILLATION_COMPLETED, ea_actor_type = ''user'', ea_actor_id = Some uid,
      ea_resource_type = Some ''entity'', ea_resource_id = Some (row_id ent),
      ea_payload = [(''entity_id'', JStr (row_id ent)), (''source_entity_slug'', JStr (ent_slug ent)),
        (''capability_names'', JList (map (JStr \<circ> fst) made)),
        (''capability_count'', JInt (int (length made))), (''engine_used'', JStr ''heuristic'')],
      ea_request_id = None\<rparr>"

definition route_learning_directive ::
    "'z db_scheme handlers \<Rightarrow> timestamp \<Rightarrow> directive \<Rightarrow> ident \<Rightarrow> 'z db_scheme
     \<Rightarrow> ('z db_scheme \<times> directive_result) result" where
  "route_learning_directive hs now d uid p =
     (case dir_target d of
        None \<Rightarrow> Inr (p, directive_result_of d None [])
      | Some target \<Rightarrow>
         (case entity_by_slug target p of
            None \<Rightarrow> Inr (p, directive_result_of d (Some target) [])
          | Some ent \<Rightarrow>
             (let cs = distill_memory_candidates (row_id ent) 10 p;
                  org = map_option ns_org_id (first_where (\<lambda>n. row_id n = ent_namespace_id ent) (namespaces p))
              in if cs = [] then Inr (p, directive_result_of d (Some target) [])
                 else (case upsert_candidates now org ent cs p of
                         Inl e \<Rightarrow> Inl e
                       | Inr (p1, made) \<Rightarrow>
                           Inr (fst (emit hs now (distillation_event uid ent made) p1),
                                (directive_result_of d (Some target) [])\<lparr>dr_created := made\<rparr>)))))"

section \<open>Turns\<close>

text \<open>An Entity that is known but has no active Instance in the Workspace is skipped before routing.\<close>

definition mention_delivered ::
    "'z db_scheme handlers \<Rightarrow> timestamp \<Rightarrow> ident \<Rightarrow> entity option \<Rightarrow> delivery \<Rightarrow> 'z db_scheme \<Rightarrow> 'z db_scheme" where
  "mention_delivered hs now ws ent r p =
     (case ent of
        Some e \<Rightarrow> (if dl_delivered r then trigger_on_mention hs now (row_id e) ws p else p)
      | None \<Rightarrow> p)"

definition route_plain_directive ::
    "'z process_scheme handlers \<Rightarrow> wire \<Rightarrow> string \<Rightarrow> timestamp \<Rightarrow> ident \<Rightarrow> ident \<Rightarrow> string option
     \<Rightarrow> directive \<Rightarrow> 'z process_scheme \<Rightarrow> ('z process_scheme \<times> directive_result) result" where
  "route_plain_directive hs net notice now ws from_id general d p =
     (let ent = (if truthy (dir_target d) then entity_by_slug (the (dir_target d)) p else None)
      in if (case ent of None \<Rightarrow> False | Some e \<Rightarrow> active_instances (row_id e) ws (instances p) = [])
         then Inr (p, directive_result_of d (dir_target d) [])
         else (case route_message hs net notice now from_id ws d general p of
                 Inl e \<Rightarrow> Inl e
               | Inr (p1, rs) \<Rightarrow> Inr (fold (mention_delivered hs now ws ent) rs p1,
                                     directive_result_of d (dir_target d) rs)))"

definition route_directive ::
    "'z process_scheme handlers \<Rightarrow> wire \<Rightarrow> string \<Rightarrow> timestamp \<Rightarrow> ident \<Rightarrow> ident \<Rightarrow> ident \<Rightarrow> string option
     \<Rightarrow> directive \<Rightarrow> 'z process_scheme \<Rightarrow> ('z process_scheme \<times> directive_result) result" where
  "route_directive hs net notice now ws uid from_id general d p =
     (if is_control_command (dir_cmd d) then route_control_directive hs now ws d p
      else if is_learning_command (dir_cmd d) then route_learning_directive hs now d uid p
      else route_plain_directive hs net notice now ws from_id general d p)"

fun route_directives ::
    "(directive \<Rightarrow> 'p \<Rightarrow> ('p \<times> directive_result) result) \<Rightarrow> directive list \<Rightarrow> 'p
     \<Rightarrow> ('p \<times> directive_result list) result" where
  "route_directives one [] p = Inr (p, [])"
| "route_directives one (d # ds) p =
     (case one d p of
        Inl e \<Rightarrow> Inl e
      | Inr (p1, r) \<Rightarrow>
         (case route_directives one ds p1 of
            Inl e \<Rightarrow> Inl e
          | Inr (p2, rs) \<Rightarrow> Inr (p2, r # rs)))"

definition sender_membership :: "ident \<Rightarrow> ident \<Rightarrow> 'z db_scheme \<Rightarrow> membership option" where
  "sender_membership uid ws s =
     first_where (\<lambda>m. mem_user_id m = Some uid \<and> mem_workspace_id m = ws \<and> live m) (memberships s)"

definition route_turn ::
    "'z process_scheme handlers \<Rightarrow> wire \<Rightarrow> string \<Rightarrow> timestamp \<Rightarrow> string \<Rightarrow> ident \<Rightarrow> ident
     \<Rightarrow> 'z process_scheme \<Rightarrow> ('z process_scheme \<times> directive_result list) result" where
  "route_turn hs net notice now raw ws uid p =
     (let t = parse_turn raw
      in case sender_membership uid ws p of
           None \<Rightarrow> Inr (p, [])
         | Some m \<Rightarrow> route_directives
             (route_directive hs net notice now ws uid (row_id m) (turn_general t)) (turn_directives t) p)"

text \<open>\<open>POST /messages\<close>: the commands of the turn, its general text and the results.\<close>

definition send_message ::
    "'z process_scheme handlers \<Rightarrow> wire \<Rightarrow> string \<Rightarrow> timestamp \<Rightarrow> string \<Rightarrow> ident \<Rightarrow> ident
     \<Rightarrow> 'z process_scheme \<Rightarrow> ('z process_scheme \<times> string list \<times> string option \<times> directive_result list) result" where
  "send_message hs net notice now text ws uid p =
     (case route_turn hs net notice now text ws uid p of
        Inl e \<Rightarrow> Inl e
      | Inr (p', rs) \<Rightarrow> Inr (p', map dir_cmd (turn_directives (parse_turn text)), turn_general (parse_turn text), rs))"

end
