(* ===== verification/Harness_Api.thy ===== *)
theory Harness_Api
  imports Activation Permissions
begin

text \<open>
  The operator's endpoints of the agent loop (\<^verbatim>\<open>app/api/v1/harness.py\<close>, \<^verbatim>\<open>app/schemas/loop_state.py\<close>):
  interrupt, pause, resume, status and snapshot of an Instance, each behind the permission
  \<^verbatim>\<open>can_edit_workspace\<close> on the Instance's Workspace.
\<close>

record status_out =
  so_instance_id :: ident
  so_loop_status :: loop_status_t
  so_continuation_count :: int
  so_token_estimate :: int
  so_last_checkpoint_at :: "timestamp option"
  so_breaker_config :: breaker_config

definition get_instance_or_404 :: "ident \<Rightarrow> 'z db_scheme \<Rightarrow> instance_row result" where
  "get_instance_or_404 iid s =
     (case get_live (instances s) iid of
        None \<Rightarrow> Inl (NotFoundError ''instance.not_found'' ''errors.instance.not_found'')
      | Some i \<Rightarrow> Inr i)"

definition to_status_payload :: "loop_state \<Rightarrow> 'z world_scheme \<Rightarrow> status_out" where
  "to_status_payload st w =
     (let m = get_loop_status (ls_instance_id st) w
      in \<lparr>so_instance_id = ls_instance_id st, so_loop_status = loop_status st,
          so_continuation_count = m_continuation_count m, so_token_estimate = m_token_estimate m,
          so_last_checkpoint_at = m_last_checkpoint_at m,
          so_breaker_config = \<lparr>bc_max_continuations = max_continuations st,
            bc_max_wall_clock_seconds = max_wall_clock_seconds st,
            bc_max_token_estimate = max_token_estimate st,
            bc_idle_timeout_seconds = idle_timeout_seconds st\<rparr>\<rparr>)"

text \<open>\<open>db.refresh\<close>: the row as the table has it now.\<close>

definition refreshed :: "loop_state \<Rightarrow> 'z db_scheme \<Rightarrow> loop_state" where
  "refreshed st s = (case first_where (\<lambda>r. row_id r = row_id st) (loop_states s) of None \<Rightarrow> st | Some r \<Rightarrow> r)"

text \<open>The lookup and the permission check that all five endpoints begin with.\<close>

definition operator_guard :: "ident \<Rightarrow> ident \<Rightarrow> ident option \<Rightarrow> 'z db_scheme \<Rightarrow> unit result" where
  "operator_guard iid uid x_org s =
     (case get_instance_or_404 iid s of
        Inl e \<Rightarrow> Inl e
      | Inr i \<Rightarrow> require_workspace_permission uid (ins_workspace_id i) ''can_edit_workspace'' x_org s)"

definition interrupt_instance ::
    "'z world_scheme handlers \<Rightarrow> timestamp \<Rightarrow> ident \<Rightarrow> ident \<Rightarrow> ident option \<Rightarrow> 'z world_scheme
     \<Rightarrow> ('z world_scheme \<times> status_out) result" where
  "interrupt_instance hs now iid uid x_org w =
     (case operator_guard iid uid x_org w of
        Inl e \<Rightarrow> Inl e
      | Inr _ \<Rightarrow>
         (case handle_interrupt hs now iid w of
            Inl e \<Rightarrow> Inl e
          | Inr (w1, st) \<Rightarrow> Inr (w1, to_status_payload (refreshed st w1) w1)))"

definition pause_instance ::
    "'z world_scheme handlers \<Rightarrow> timestamp \<Rightarrow> ident \<Rightarrow> ident \<Rightarrow> ident option \<Rightarrow> 'z world_scheme
     \<Rightarrow> ('z world_scheme \<times> status_out) result" where
  "pause_instance hs now iid uid x_org w =
     (case operator_guard iid uid x_org w of
        Inl e \<Rightarrow> Inl e
      | Inr _ \<Rightarrow>
         (case handle_pause hs now iid w of
            Inl e \<Rightarrow> Inl e
          | Inr (w1, st) \<Rightarrow> Inr (w1, to_status_payload (refreshed st w1) w1)))"

text \<open>Resuming also creates the runtime task; the payload is built after that.\<close>

definition resume_instance ::
    "'z world_scheme handlers \<Rightarrow> timestamp \<Rightarrow> ident \<Rightarrow> ident \<Rightarrow> ident option \<Rightarrow> 'z world_scheme
     \<Rightarrow> ('z world_scheme \<times> status_out) result" where
  "resume_instance hs now iid uid x_org w =
     (case operator_guard iid uid x_org w of
        Inl e \<Rightarrow> Inl e
      | Inr _ \<Rightarrow>
         (case handle_resume hs now iid w of
            Inl e \<Rightarrow> Inl e
          | Inr (w1, st) \<Rightarrow>
             (case start_runtime_for iid w1 of
                (w2, _) \<Rightarrow> Inr (w2, to_status_payload (refreshed st w1) w2))))"

text \<open>
  The loop state that the status endpoint creates for an Instance without one is only flushed: the
  session ends without a commit, so the store is unchanged.
\<close>

definition get_instance_status ::
    "timestamp \<Rightarrow> ident \<Rightarrow> ident \<Rightarrow> ident option \<Rightarrow> 'z world_scheme \<Rightarrow> ('z world_scheme \<times> status_out) result" where
  "get_instance_status now iid uid x_org w =
     (case operator_guard iid uid x_org w of
        Inl e \<Rightarrow> Inl e
      | Inr _ \<Rightarrow> (case ensure_loop_state now iid w of (w1, st) \<Rightarrow> Inr (w, to_status_payload st w1)))"

definition snapshot_instance ::
    "timestamp \<Rightarrow> ident \<Rightarrow> ident \<Rightarrow> ident option \<Rightarrow> 'z world_scheme \<Rightarrow> (json_obj \<times> int \<times> timestamp) result" where
  "snapshot_instance now iid uid x_org w =
     (case operator_guard iid uid x_org w of
        Inl e \<Rightarrow> Inl e
      | Inr _ \<Rightarrow> capture_snapshot now iid w)"

end
