(* ===== verification/Directive_Router_Props.thy ===== *)
theory Directive_Router_Props
  imports Directive_Router Harness_Api Routing_Props
begin

text \<open>
  What a turn does beside routing: control commands reach the loop of an Instance without the
  permission that the operator endpoints ask for, learning commands add capabilities at most once.
\<close>

section \<open>Control commands\<close>

lemma parse_rendered:
  assumes "canonical d"
  shows "parse_turn (render_directive d) = \<lparr>turn_directives = [d], turn_general = None\<rparr>"
  using assms canonical_line [OF assms] split_on_join [of "[render_directive d]" newline] parse_lines_render [of "[d]"]
  by (simp add: parse_turn_def)

lemma send_single:
  assumes "canonical d" and "sender_membership uid ws p = Some m"
    and "route_directive hs net notice now ws uid (row_id m) None d p = Inr (q, r)"
  shows "send_message hs net notice now (render_directive d) ws uid p = Inr (q, [dir_cmd d], None, [r])"
  using assms(2,3) by (simp add: send_message_def route_turn_def parse_rendered [OF assms(1)])

lemma interrupted_live:
  assumes "live_loop_state iid w = Some st" and "st' = modified now st (st\<lparr>loop_status := L_interrupted\<rparr>)"
    and "loop_states w' = update_where (\<lambda>r. row_id r = row_id st) (\<lambda>_. st') (loop_states w)"
  shows "live_loop_state iid w' = Some st'" and "loop_status st' = L_interrupted"
proof -
  from assms(1) have st: "first_where (\<lambda>x. ls_instance_id x = iid \<and> live x) (loop_states w) = Some st"
    by (simp add: live_loop_state_def)
  from first_where_SomeD [OF st] assms(2) have "ls_instance_id st' = iid \<and> live st'"
    by (auto simp: live_def modified_def touch_def)
  from first_where_update [OF st this] assms(3) show "live_loop_state iid w' = Some st'"
    by (simp add: live_loop_state_def)
  show "loop_status st' = L_interrupted" by (simp add: assms(2) modified_field touch_def)
qed


definition governed_store :: process where
  "governed_store = routing_store\<lparr>loop_states := [sample_loop], passages := [],
     namespaces := [\<lparr>row_id = ''n'', created_at = 0, updated_at = 0, deleted_at = None, ns_org_id = ''o'',
       ns_slug = ''n'', ns_name = ''N'', ns_description = None, ns_tags = None\<rparr>]\<rparr>"


section \<open>Learning commands\<close>

text \<open>The names of the live capabilities.\<close>

definition market_names :: "'z db_scheme \<Rightarrow> string set" where
  "market_names s = cap_name ` set (filter live (capability_market s))"

lemma named_once:
  assumes "uq_capability_market_name rows" and "n \<in> cap_name ` set (filter live rows)"
  obtains c where "filter (\<lambda>c. cap_name c = n \<and> live c) rows = [c]" "cap_name c = n"
proof -
  let ?cs = "filter (\<lambda>c. cap_name c = n \<and> live c) rows"
  have "length ?cs \<le> 1"
    by (rule unique_on_length [of live cap_name]) (use assms(1) in \<open>auto simp: uq_capability_market_name_def\<close>)
  moreover have "?cs \<noteq> []" using assms(2) by (auto simp: filter_empty_conv)
  ultimately obtain c where c: "?cs = [c]" by (cases ?cs) auto
  then have "c \<in> set ?cs" by simp
  then have "cap_name c = n" by simp
  with c show thesis by (rule that)
qed

lemma upsert_known:
  assumes "uq_capability_market_name (capability_market s)" and "ua_name a \<in> market_names s"
  shows "\<exists>c. upsert_capability now a s = Inr (s, c) \<and> cap_name c = ua_name a"
proof -
  obtain c where "filter (\<lambda>c. cap_name c = ua_name a \<and> live c) (capability_market s) = [c]" "cap_name c = ua_name a"
    using named_once [OF assms [unfolded market_names_def]] .
  then show ?thesis by (simp add: upsert_capability_def)
qed

text \<open>What a distillation may do: add capabilities of its own kind under new names.\<close>

definition distilled :: "nat \<Rightarrow> 'z db_scheme \<Rightarrow> 'z db_scheme \<Rightarrow> bool" where
  "distilled n s t \<longleftrightarrow> (\<exists>new. capability_market t = capability_market s @ new \<and> length new \<le> n \<and>
     list_all (\<lambda>c. live c \<and> created_via c = ''distill'') new) \<and>
     (uq_capability_market_name (capability_market s) \<longrightarrow> uq_capability_market_name (capability_market t)) \<and>
     memories t = memories s \<and> entities t = entities s \<and> namespaces t = namespaces s"

lemma distilled_refl [simp]: "distilled n s s"
  by (simp add: distilled_def)

lemma distilled_trans: "distilled m s t \<Longrightarrow> distilled n t u \<Longrightarrow> distilled (m + n) s u"
  unfolding distilled_def by force

lemma upsert_distilled:
  assumes "upsert_capability now (distill_args org ent c) s = Inr (s', cap)"
  shows "distilled 1 s s' \<and> cap_name cap = cd_name c \<and> cd_name c \<in> market_names s' \<and>
    market_names s \<subseteq> market_names s'"
proof -
  let ?cs = "filter (\<lambda>x. cap_name x = cd_name c \<and> live x) (capability_market s)"
  have new: "ua_name (distill_args org ent c) = cd_name c" by (simp add: distill_args_def)
  consider (old) "?cs = [cap]" "s' = s"
    | (made) "?cs = []" "capability_market s' = capability_market s @ [cap]"
        "cap = new_capability (new_id s) now (distill_args org ent c)"
        "memories s' = memories s" "entities s' = entities s" "namespaces s' = namespaces s"
    using assms scalar_one_SomeD [of ?cs]
    by (fastforce simp: upsert_capability_def new take_id_def Let_def scalar_one_or_none_def
        split: sum.splits option.splits if_splits list.splits)
  then show ?thesis
  proof cases
    case old
    then have "cap \<in> set ?cs" by simp
    with old(2) show ?thesis by (auto simp: market_names_def intro: rev_image_eqI)
  next
    case made
    have cap: "live cap" "cap_name cap = cd_name c" "created_via cap = ''distill''"
      using made(3) by (simp_all add: new_capability_def distill_args_def live_def)
    moreover have "cd_name c \<notin> cap_name ` set (filter live (capability_market s))"
      using made(1) by (auto simp: filter_empty_conv)
    ultimately show ?thesis
      using made by (auto simp: distilled_def market_names_def uq_capability_market_name_def unique_on_def)
  qed
qed

lemma upsert_candidates_distilled:
  assumes "upsert_candidates now org ent cs s = Inr (s', made)"
  shows "distilled (length cs) s s' \<and> map fst made = map cd_name cs \<and> set (map cd_name cs) \<subseteq> market_names s' \<and>
    market_names s \<subseteq> market_names s'"
  using assms
proof (induction cs arbitrary: s made)
  case (Cons c cs)
  then obtain s1 cap ms where s1: "upsert_capability now (distill_args org ent c) s = Inr (s1, cap)"
    and s2: "upsert_candidates now org ent cs s1 = Inr (s', ms)" "made = (cap_name cap, cap_type cap) # ms"
    by (auto split: sum.splits)
  from upsert_distilled [OF s1] Cons.IH [OF s2(1)] distilled_trans [of 1 s s1 "length cs" s'] s2(2)
  show ?case by auto
qed simp

lemma upsert_candidates_known:
  assumes "uq_capability_market_name (capability_market s)" and "set (map cd_name cs) \<subseteq> market_names s"
  shows "\<exists>made. upsert_candidates now org ent cs s = Inr (s, made) \<and> map fst made = map cd_name cs"
  using assms(2)
proof (induction cs)
  case (Cons c cs)
  then have "ua_name (distill_args org ent c) \<in> market_names s" by (simp add: distill_args_def)
  from upsert_known [OF assms(1) this, of now] Cons show ?case by (auto simp: distill_args_def)
qed simp

text \<open>Handlers that leave the tables alone that a distillation reads and writes.\<close>

definition market_frame :: "'z db_scheme \<Rightarrow> 'z db_scheme \<Rightarrow> bool" where
  "market_frame s t \<longleftrightarrow> capability_market t = capability_market s \<and> memories t = memories s \<and>
     entities t = entities s \<and> namespaces t = namespaces s"

definition market_handlers :: "'z db_scheme handlers \<Rightarrow> bool" where
  "market_handlers hs = handlers_respect market_frame (\<lambda>_. True) hs"

lemma market_frame_order: "reflp market_frame" "transp market_frame"
  by (auto simp: market_frame_def reflp_def transp_def)

lemma emit_market_frame: "market_handlers hs \<Longrightarrow> market_frame s (fst (emit hs now a s))"
  unfolding market_handlers_def
  by (rule emit_respects [OF market_frame_order, of "\<lambda>_. True"]) (auto simp: market_frame_def take_id_def)

lemma learning_cases:
  assumes "route_learning_directive hs now d uid p = Inr (q, r)"
  obtains (silent) "q = p" "dr_created r = []" "\<And>t. route_learning_directive hs t d uid p = Inr (p, r)"
    | (distills) target ent org p1 made where "dir_target d = Some target" "entity_by_slug target p = Some ent"
        "org = map_option ns_org_id (first_where (\<lambda>n. row_id n = ent_namespace_id ent) (namespaces p))"
        "upsert_candidates now org ent (distill_memory_candidates (row_id ent) 10 p) p = Inr (p1, made)"
        "q = fst (emit hs now (distillation_event uid ent made) p1)" "dr_created r = made"
        "distill_memory_candidates (row_id ent) 10 p \<noteq> []"
  using assms
  by (auto simp: route_learning_directive_def Let_def directive_result_of_def split: option.splits sum.splits if_splits)

text \<open>
  A learning command adds at most ten live capabilities, each marked as distilled and none under
  a name already taken, and reports a name for every memory it read; writing the same command again
  adds nothing and reports the same names.
\<close>

theorem distill_adds_once:
  assumes "route_learning_directive hs now d uid p = Inr (q, r)" and "market_handlers hs"
    and "uq_capability_market_name (capability_market p)"
  shows "distilled 10 p q \<and> set (map fst (dr_created r)) \<subseteq> market_names q \<and>
    (\<exists>q' r'. route_learning_directive hs now' d uid q = Inr (q', r') \<and>
       capability_market q' = capability_market q \<and> map fst (dr_created r') = map fst (dr_created r))"
  using assms(1)
proof (cases rule: learning_cases)
  case silent
  then show ?thesis by auto
next
  case (distills target ent org p1 made)
  let ?cs = "distill_memory_candidates (row_id ent) 10 p"
  let ?ev = "distillation_event uid ent made"
  have f: "market_frame p1 q" using emit_market_frame [OF assms(2)] distills(5) by simp
  from upsert_candidates_distilled [OF distills(4)] have
    d: "distilled (length ?cs) p p1" "map fst made = map cd_name ?cs" "set (map cd_name ?cs) \<subseteq> market_names p1" by auto
  have "length ?cs \<le> 10" by (simp add: distill_memory_candidates_def)
  with d(1) f have pq: "distilled 10 p q" by (force simp: distilled_def market_frame_def)
  have names: "market_names q = market_names p1" using f by (simp add: market_names_def market_frame_def)
  have same: "entity_by_slug target q = Some ent" "distill_memory_candidates (row_id ent) 10 q = ?cs"
    "namespaces q = namespaces p"
    using pq distills(2) by (simp_all add: distilled_def entity_by_slug_def distill_memory_candidates_def)
  have "uq_capability_market_name (capability_market q)" using pq assms(3) by (simp add: distilled_def)
  from upsert_candidates_known [OF this, of ?cs now' org ent] d(3) names obtain made' where
    again: "upsert_candidates now' org ent ?cs q = Inr (q, made')" "map fst made' = map cd_name ?cs" by auto
  let ?q = "fst (emit hs now' (distillation_event uid ent made') q)"
  have "route_learning_directive hs now' d uid q =
      Inr (?q, (directive_result_of d (Some target) [])\<lparr>dr_created := made'\<rparr>)"
    using same distills(1,3,7) again by (simp add: route_learning_directive_def Let_def)
  moreover have "capability_market ?q = capability_market q"
    using emit_market_frame [OF assms(2)] by (simp add: market_frame_def)
  ultimately show ?thesis using pq names d(2,3) again(2) distills(6) by auto
qed

definition memory_of :: "ident \<Rightarrow> string \<Rightarrow> memory_row" where
  "memory_of i k = \<lparr>row_id = i, created_at = 1, updated_at = 1, deleted_at = None, mm_entity_id = ''e'',
     mm_kind = MK_lesson, mm_key = Some k, mm_content = None, source_instance_id = None\<rparr>"

definition distill_turn :: directive where
  "distill_turn = \<lparr>dir_target = Some ''fox'', dir_cmd = ''/distill'', dir_args = [], dir_ref = None, dir_raw = []\<rparr>"

theorem distill_adds_once_witness:
  "let p = governed_store\<lparr>memories := [memory_of ''m1'' ''Go-fast'', memory_of ''m2'' ''go fast'']\<rparr>
   in \<exists>q r. route_learning_directive [] 5 distill_turn ''u'' p = Inr (q, r) \<and>
        map fst (dr_created r) = [''go-fast'', ''go-fast''] \<and> distilled 10 p q"
proof -
  let ?p = "governed_store\<lparr>memories := [memory_of ''m1'' ''Go-fast'', memory_of ''m2'' ''go fast'']\<rparr>"
  have "case route_learning_directive [] 5 distill_turn ''u'' ?p of
      Inr (q, r) \<Rightarrow> map fst (dr_created r) = [''go-fast'', ''go-fast''] | Inl e \<Rightarrow> False"
    and "uq_capability_market_name (capability_market ?p)"
    by code_simp+
  moreover then obtain q r where "route_learning_directive [] 5 distill_turn ''u'' ?p = Inr (q, r)"
    by (auto split: sum.splits)
  ultimately show ?thesis
    using distill_adds_once [of "[]" 5 distill_turn "''u''" ?p q r 6] by (auto simp: market_handlers_def)
qed

end
