(* ===== verification/Py_Time.thy ===== *)
theory Py_Time
  imports Py_Str "HOL-Library.Monad_Syntax"
begin

text \<open>
  Python's \<^verbatim>\<open>datetime\<close> as far as the source prints and reads it: \<open>isoformat\<close>, \<open>str\<close> and
  \<open>fromisoformat\<close> of UTC times. A timestamp counts microseconds from 0001-01-01T00:00:00+00:00; the
  calendar computation is that of the module (\<open>_ord2ymd\<close>, \<open>_days_before_year\<close>). Of the strings that
  \<open>fromisoformat\<close> accepts only those are read that \<open>isoformat\<close> writes.
\<close>

section \<open>The calendar\<close>

definition is_leap :: "nat \<Rightarrow> bool" where
  "is_leap y \<longleftrightarrow> y mod 4 = 0 \<and> (y mod 100 \<noteq> 0 \<or> y mod 400 = 0)"

definition month_lengths :: "bool \<Rightarrow> nat list" where
  "month_lengths leap = [31, if leap then 29 else 28, 31, 30, 31, 30, 31, 31, 30, 31, 30, 31]"

definition days_before_year :: "nat \<Rightarrow> nat" where
  "days_before_year y = (let p = y - 1 in p * 365 + p div 4 - p div 100 + p div 400)"

text \<open>The day of a date, counted from 0.\<close>

fun day_of_date :: "nat \<times> nat \<times> nat \<Rightarrow> nat" where
  "day_of_date (y, m, d) = days_before_year y + sum_list (take (m - 1) (month_lengths (is_leap y))) + (d - 1)"

fun month_scan :: "nat list \<Rightarrow> nat \<Rightarrow> nat \<Rightarrow> nat \<times> nat" where
  "month_scan [] m r = (m, r + 1)"
| "month_scan (l # ls) m r = (if r < l then (m, r + 1) else month_scan ls (m + 1) (r - l))"

definition date_of_day :: "nat \<Rightarrow> nat \<times> nat \<times> nat" where
  "date_of_day day =
     (let n400 = day div 146097; r400 = day mod 146097;
          n100 = r400 div 36524; r100 = r400 mod 36524;
          n4 = r100 div 1461; r4 = r100 mod 1461;
          n1 = r4 div 365; r1 = r4 mod 365;
          y = 400 * n400 + 100 * n100 + 4 * n4 + n1 + 1
      in if n1 = 4 \<or> n100 = 4 then (y - 1, 12, 31)
         else (y, month_scan (month_lengths (is_leap y)) 1 r1))"

lemma month_scan_sum:
  assumes "month_scan ls m r = (m', d)" and "r < sum_list ls"
  shows "m \<le> m' \<and> m' < m + length ls \<and> 0 < d \<and> sum_list (take (m' - m) ls) + (d - 1) = r \<and> d \<le> ls ! (m' - m)"
  using assms
proof (induction ls m r rule: month_scan.induct)
  case (2 l ls m r)
  show ?case
  proof (cases "r < l")
    case False
    with 2 have "m + 1 \<le> m' \<and> m' < m + 1 + length ls \<and> 0 < d \<and> sum_list (take (m' - (m + 1)) ls) + (d - 1) = r - l
        \<and> d \<le> ls ! (m' - (m + 1))" by simp
    moreover from this have "m' - m = Suc (m' - (m + 1))" by arith
    ultimately show ?thesis using False by auto
  qed (use 2 in auto)
qed simp

lemma days_before_year_parts:
  assumes "b \<le> 3" and "c \<le> 24" and "e \<le> 3"
  shows "days_before_year (400 * a + 100 * b + 4 * c + e + 1) = 146097 * a + 36524 * b + 1461 * c + 365 * e"
proof -
  have "(400 * a + 100 * b + 4 * c + e) div 4 = 100 * a + 25 * b + c" by (rule div_nat_eqI) (use assms in \<open>simp_all add: algebra_simps\<close>)
  moreover have "(400 * a + 100 * b + 4 * c + e) div 100 = 4 * a + b" by (rule div_nat_eqI) (use assms in \<open>simp_all add: algebra_simps\<close>)
  moreover have "(400 * a + 100 * b + 4 * c + e) div 400 = a" by (rule div_nat_eqI) (use assms in \<open>simp_all add: algebra_simps\<close>)
  ultimately show ?thesis by (simp add: days_before_year_def Let_def)
qed

lemma sum_month_lengths: "sum_list (month_lengths leap) = (if leap then 366 else 365)"
  by (simp add: month_lengths_def)

lemma december: "sum_list (take 11 (month_lengths leap)) = (if leap then 335 else 334)"
  by (simp add: month_lengths_def)

definition valid_date :: "nat \<times> nat \<times> nat \<Rightarrow> bool" where
  "valid_date = (\<lambda>(y, m, d). 1 \<le> y \<and> 1 \<le> m \<and> m \<le> 12 \<and> 1 \<le> d \<and> d \<le> month_lengths (is_leap y) ! (m - 1))"

lemma length_month_lengths [simp]: "length (month_lengths leap) = 12"
  by (simp add: month_lengths_def)

lemma december_days: "month_lengths leap ! 11 = 31"
  by (simp add: month_lengths_def)

lemma day_of_date_of_day: "day_of_date (date_of_day day) = day \<and> valid_date (date_of_day day)"
proof -
  define a where "a = day div 146097"
  define b where "b = day mod 146097 div 36524"
  define c where "c = day mod 146097 mod 36524 div 1461"
  define e where "e = day mod 146097 mod 36524 mod 1461 div 365"
  define r where "r = day mod 146097 mod 36524 mod 1461 mod 365"
  define r4 where "r4 = day mod 146097 mod 36524 mod 1461"
  define r100 where "r100 = day mod 146097 mod 36524"
  have sum: "day = 146097 * a + 36524 * b + 1461 * c + 365 * e + r"
    using mult_div_mod_eq [of 146097 day] mult_div_mod_eq [of 36524 "day mod 146097"]
      mult_div_mod_eq [of 1461 "day mod 146097 mod 36524"] mult_div_mod_eq [of 365 "day mod 146097 mod 36524 mod 1461"]
    unfolding a_def b_def c_def e_def r_def by linarith
  have r100: "r100 = 1461 * c + r4" "r4 < 1461" "r4 = 365 * e + r" "r < 365" "r100 < 36524"
    unfolding c_def r4_def r100_def e_def r_def by (rule mult_div_mod_eq [symmetric] | rule mod_less_divisor; linarith)+
  have b: "36524 * b + r100 < 146097"
    using mult_div_mod_eq [of 36524 "day mod 146097"] mod_less_divisor [of 146097 day]
    unfolding b_def r100_def by linarith
  have c24: "c \<le> 24" "e \<le> 4" "b \<le> 4" using r100 b by linarith+
  let ?y = "400 * a + 100 * b + 4 * c + e + 1"
  have date: "date_of_day day = (if e = 4 \<or> b = 4 then (?y - 1, 12, 31)
      else (?y, month_scan (month_lengths (is_leap ?y)) 1 r))"
    unfolding date_of_day_def Let_def a_def b_def c_def e_def r_def ..
  consider (century) "b = 4" | (leap_day) "b \<le> 3" "e = 4" | (plain) "b \<le> 3" "e \<le> 3"
    using c24 by linarith
  then show ?thesis
  proof cases
    case century
    with b have "r100 = 0" by linarith
    with r100 have z: "c = 0" "e = 0" "r = 0" by linarith+
    have leap: "is_leap (400 * a + 400)" by (simp add: is_leap_def)
    have "days_before_year (400 * a + 400) = 146097 * a + 36524 * 3 + 1461 * 24 + 365 * 3"
      using days_before_year_parts [of 3 24 3 a] by (simp add: add.commute)
    with z century date leap sum show ?thesis by (simp add: december add.commute valid_date_def december_days)
  next
    case leap_day
    with r100 have "r4 = 1460" "r = 0" by linarith+
    with r100 have "c \<le> 23" by linarith
    have "400 * a + 100 * b + 4 * c + 4 = (4 * c + 4) + (4 * a + b) * 100" by simp
    then have "(400 * a + 100 * b + 4 * c + 4) mod 100 = (4 * c + 4) mod 100" by (metis mod_mult_self1)
    then have "(400 * a + 100 * b + 4 * c + 4) mod 100 = 4 * c + 4" using \<open>c \<le> 23\<close> by simp
    moreover have "400 * a + 100 * b + 4 * c + 4 = 4 * (100 * a + 25 * b + c + 1)" by simp
    then have "(400 * a + 100 * b + 4 * c + 4) mod 4 = 0" by (metis mod_mult_self1_is_0)
    ultimately have leap: "is_leap (400 * a + 100 * b + 4 * c + 4)" by (simp add: is_leap_def)
    have "days_before_year (400 * a + 100 * b + 4 * c + 4) = 146097 * a + 36524 * b + 1461 * c + 1095"
      using days_before_year_parts [of b c 3 a] leap_day(1) c24 by (simp add: ac_simps)
    with \<open>r = 0\<close> leap_day date leap sum show ?thesis by (simp add: december add.commute valid_date_def december_days)
  next
    case plain
    obtain m d where md: "month_scan (month_lengths (is_leap ?y)) 1 r = (m, d)" by fastforce
    have "r < sum_list (month_lengths (is_leap ?y))" using r100 by (simp add: sum_month_lengths)
    from month_scan_sum [OF md this] days_before_year_parts [OF plain(1) c24(1) plain(2), of a] plain date md sum
    show ?thesis by (auto simp: valid_date_def)
  qed
qed


lemma days_step:
  fixes x p q4 q100 q400 :: nat
  assumes "x \<le> p * 365 + q4 - q100 + q400" and "q100' \<le> Suc q100" and "q4 \<le> q4'" and "q400 \<le> q400'"
  shows "x \<le> Suc p * 365 + q4' - q100' + q400'"
  using assms by simp

lemma days_before_late_year: "9999 \<le> p \<Longrightarrow> 3652059 \<le> p * 365 + p div 4 - p div 100 + p div (400::nat)"
proof (induction p rule: dec_induct)
  case (step p)
  show ?case by (rule days_step [OF step(3)]) (simp_all add: div_Suc)
qed simp

lemma date_of_day_year:
  assumes "date_of_day day = (y, m, d)" and "day < 3652059"
  shows "y \<le> 9999"
proof (rule ccontr)
  assume "\<not> y \<le> 9999"
  then have "3652059 \<le> days_before_year y"
    using days_before_late_year [of "y - 1"] by (simp add: days_before_year_def Let_def)
  also have "days_before_year y \<le> day_of_date (y, m, d)" by simp
  also have "day_of_date (y, m, d) = day" using day_of_date_of_day [of day] assms(1) by simp
  finally show False using assms(2) by simp
qed

section \<open>Printing and reading\<close>

text \<open>\<open>f"{n:0kd}"\<close>, for a number of at most \<open>k\<close> digits.\<close>

fun pad :: "nat \<Rightarrow> nat \<Rightarrow> string" where
  "pad 0 n = []"
| "pad (Suc k) n = pad k (n div 10) @ [digit_char (n mod 10)]"

definition day_micros :: nat where
  "day_micros = 86400000000"

text \<open>The last representable day is 9999-12-31.\<close>

definition valid_time :: "timestamp \<Rightarrow> bool" where
  "valid_time t \<longleftrightarrow> 0 \<le> t \<and> t < 3652059 * int day_micros"

definition time_string :: "nat \<Rightarrow> string" where
  "time_string u =
     (let s = u div 1000000
      in pad 2 (s div 3600) @ '':'' @ pad 2 (s div 60 mod 60) @ '':'' @ pad 2 (s mod 60) @
         (if u mod 1000000 = 0 then [] else ''.'' @ pad 6 (u mod 1000000)))"

definition date_string :: "nat \<times> nat \<times> nat \<Rightarrow> string" where
  "date_string = (\<lambda>(y, m, d). pad 4 y @ ''-'' @ pad 2 m @ ''-'' @ pad 2 d)"

text \<open>\<open>isoformat(sep)\<close> of a UTC time; \<open>str\<close> is the one with a blank.\<close>

definition isoformat_sep :: "char \<Rightarrow> timestamp \<Rightarrow> string" where
  "isoformat_sep sep t =
     date_string (date_of_day (nat t div day_micros)) @ sep # time_string (nat t mod day_micros) @ ''+00:00''"

definition isoformat :: "timestamp \<Rightarrow> string" where
  "isoformat t = isoformat_sep (CHR ''T'') t"

definition str_of_time :: "timestamp \<Rightarrow> string" where
  "str_of_time t = isoformat_sep (CHR '' '') t"

definition take_num :: "nat \<Rightarrow> string \<Rightarrow> string \<Rightarrow> (nat \<times> string) option" where
  "take_num k sep s =
     (if k \<le> length s \<and> prefix sep (drop k s)
      then map_option (\<lambda>n. (n, drop (k + length sep) s)) (parse_nat (take k s)) else None)"

definition fromisoformat :: "string \<Rightarrow> timestamp option" where
  "fromisoformat s = do {
     (y, s) \<leftarrow> take_num 4 ''-'' s;
     (m, s) \<leftarrow> take_num 2 ''-'' s;
     (d, s) \<leftarrow> take_num 2 ''T'' s;
     (h, s) \<leftarrow> take_num 2 '':'' s;
     (mi, s) \<leftarrow> take_num 2 '':'' s;
     (sec, s) \<leftarrow> take_num 2 [] s;
     (u, s) \<leftarrow> (if prefix ''.'' s then take_num 6 [] (tl s) else Some (0, s));
     if s = ''+00:00'' \<and> 1 \<le> y \<and> 1 \<le> m \<and> m \<le> 12 \<and> 1 \<le> d \<and> d \<le> month_lengths (is_leap y) ! (m - 1)
        \<and> h < 24 \<and> mi < 60 \<and> sec < 60
     then Some (int (day_of_date (y, m, d) * day_micros + ((h * 60 + mi) * 60 + sec) * 1000000 + u)) else None
   }"

lemma length_pad [simp]: "length (pad k n) = k"
  by (induction k arbitrary: n) auto

lemma pad_digits: "list_all is_digit (pad k n)"
  by (induction k arbitrary: n) (auto simp: digit_char_simps)

lemma foldl_pad:
  "n < 10 ^ k \<Longrightarrow> foldl (\<lambda>n c. n * 10 + digit_val c) 0 (pad k n) = n"
  by (induction k arbitrary: n) (auto simp: digit_char_simps less_mult_imp_div_less mult.commute)

lemma parse_pad: "n < 10 ^ k \<Longrightarrow> 0 < k \<Longrightarrow> parse_nat (pad k n) = Some n"
  using length_pad [of k n] by (auto simp: parse_nat_def foldl_pad pad_digits simp del: length_pad)

lemma take_num_pad:
  "n < 10 ^ k \<Longrightarrow> 0 < k \<Longrightarrow> take_num k [] (pad k n @ rest) = Some (n, rest)"
  "n < 10 ^ k \<Longrightarrow> 0 < k \<Longrightarrow> take_num k [c] (pad k n @ c # rest) = Some (n, rest)"
  by (simp_all add: take_num_def parse_pad)

text \<open>Reading back what was printed.\<close>

lemma digit_no_sep: "is_digit c \<Longrightarrow> c \<noteq> CHR ''.'' \<and> c \<noteq> CHR ''+''"
  by (auto simp: is_digit_def)

theorem fromisoformat_isoformat:
  assumes "valid_time t"
  shows "fromisoformat (isoformat t) = Some t"
proof -
  define day where "day = nat t div day_micros"
  define u where "u = nat t mod day_micros"
  obtain y m d where ymd: "date_of_day day = (y, m, d)" by (metis prod_cases3)
  have t: "nat t = day * day_micros + u" unfolding day_def u_def by simp
  have u: "u < day_micros" unfolding u_def by (simp add: day_micros_def)
  have "day < 3652059"
    using assms unfolding day_def valid_time_def day_micros_def by (simp add: less_mult_imp_div_less nat_less_iff)
  then have y: "y < 10 ^ 4" using date_of_day_year [OF ymd] by simp
  have v: "valid_date (y, m, d)" "day_of_date (y, m, d) = day" using day_of_date_of_day [of day] ymd by simp_all
  then have md: "m < 10 ^ 2" by (simp add: valid_date_def)
  have "month_lengths (is_leap y) ! (m - 1) \<le> 31"
    using v(1) by (auto simp: valid_date_def month_lengths_def nth_Cons' split: if_splits)
  then have dd: "d < 10 ^ 2" using v(1) by (simp add: valid_date_def)
  define s where "s = u div 1000000"
  have s: "s div 3600 < 24" using u unfolding s_def day_micros_def by (simp add: div_mult2_eq [symmetric] less_mult_imp_div_less)
  define h where "h = s div 3600"
  define mi where "mi = s div 60 mod 60"
  define sec where "sec = s mod 60"
  define us where "us = u mod 1000000"
  have hms: "h < 24" "mi < 60" "sec < 60" "us < 10 ^ 6"
    using s by (simp_all add: h_def mi_def sec_def us_def)
  have "s div 60 div 60 = s div 3600" by (simp add: div_mult2_eq [symmetric])
  then have "s = (h * 60 + mi) * 60 + sec"
    using div_mult_mod_eq [of s 60] div_mult_mod_eq [of "s div 60" 60] by (simp add: h_def mi_def sec_def)
  moreover have "u = s * 1000000 + us" using div_mult_mod_eq [of u 1000000] by (simp add: s_def us_def)
  ultimately have u_parts: "((h * 60 + mi) * 60 + sec) * 1000000 + us = u" by simp
  define tail where "tail = (if us = 0 then [] else CHR ''.'' # pad 6 us) @ ''+00:00''"
  have iso: "isoformat t = pad 4 y @ CHR ''-'' # pad 2 m @ CHR ''-'' # pad 2 d @ CHR ''T'' # pad 2 h @ CHR '':'' #
      pad 2 mi @ CHR '':'' # pad 2 sec @ tail"
    unfolding isoformat_def isoformat_sep_def date_string_def time_string_def Let_def day_def [symmetric] u_def [symmetric]
      ymd s_def [symmetric] h_def [symmetric] mi_def [symmetric] sec_def [symmetric] us_def [symmetric] tail_def by simp
  have fields:
    "take_num 4 ''-'' (pad 4 y @ CHR ''-'' # r) = Some (y, r)" "take_num 2 ''-'' (pad 2 m @ CHR ''-'' # r) = Some (m, r)"
    "take_num 2 ''T'' (pad 2 d @ CHR ''T'' # r) = Some (d, r)" "take_num 2 '':'' (pad 2 h @ CHR '':'' # r) = Some (h, r)"
    "take_num 2 '':'' (pad 2 mi @ CHR '':'' # r) = Some (mi, r)" "take_num 2 [] (pad 2 sec @ r) = Some (sec, r)" for r
    by (rule take_num_pad, use y md dd hms in simp, simp)+
  have last: "(if prefix ''.'' tail then take_num 6 [] (tl tail) else Some (0, tail)) = Some (us, ''+00:00'')"
    using hms(4) by (simp add: tail_def take_num_pad)
  have "fromisoformat (isoformat t) = Some (int (day_of_date (y, m, d) * day_micros +
      ((h * 60 + mi) * 60 + sec) * 1000000 + us))"
    unfolding fromisoformat_def iso fields bind.bind_lunit prod.case last
    by (rule if_P) (use v(1) hms in \<open>simp add: valid_date_def\<close>)
  moreover have "day_of_date (y, m, d) * day_micros + ((h * 60 + mi) * 60 + sec) * 1000000 + us = nat t"
    unfolding v(2) using t u_parts by linarith
  ultimately show ?thesis using assms by (simp only: valid_time_def) simp
qed

end
