(* ===== verification/Base64.thy ===== *)
theory Base64
  imports Py_Str
begin

text \<open>
  \<^verbatim>\<open>base64.urlsafe_b64encode\<close> and \<^verbatim>\<open>urlsafe_b64decode\<close> on bytes, the latter as CPython's lenient
  \<open>a2b_base64\<close>: characters outside the alphabet are skipped, padding may end the input.
\<close>

section \<open>Encoding\<close>

definition b64_char :: "nat \<Rightarrow> char" where
  "b64_char v = char_of (if v < 26 then 65 + v else if v < 52 then 71 + v else if v < 62 then v - 4
                         else if v = 62 then 45 else 95)"

fun b64_encode :: "nat list \<Rightarrow> string" where
  "b64_encode [] = []"
| "b64_encode [a] = [b64_char (a div 4), b64_char (a mod 4 * 16), CHR ''='', CHR ''='']"
| "b64_encode [a, b] = [b64_char (a div 4), b64_char (a mod 4 * 16 + b div 16), b64_char (b mod 16 * 4), CHR ''='']"
| "b64_encode (a # b # c # bs) =
     b64_char (a div 4) # b64_char (a mod 4 * 16 + b div 16) # b64_char (b mod 16 * 4 + c div 64)
       # b64_char (c mod 64) # b64_encode bs"

section \<open>Decoding\<close>

text \<open>The value of a character: both alphabets are read, since \<^verbatim>\<open>-_\<close> are translated to \<^verbatim>\<open>+/\<close> first.\<close>

definition b64_value :: "char \<Rightarrow> nat option" where
  "b64_value c = (let n = (of_char c :: nat) in
     if 65 \<le> n \<and> n \<le> 90 then Some (n - 65) else if 97 \<le> n \<and> n \<le> 122 then Some (n - 71)
     else if 48 \<le> n \<and> n \<le> 57 then Some (n + 4) else if n = 45 \<or> n = 43 then Some 62
     else if n = 95 \<or> n = 47 then Some 63 else None)"

text \<open>
  The loop of \<open>a2b_base64\<close>: the position in the quad, the bits left over and the number of padding
  characters in a row; \<open>None\<close> is \<open>binascii.Error\<close>.
\<close>

fun a2b :: "nat \<Rightarrow> nat \<Rightarrow> nat \<Rightarrow> string \<Rightarrow> nat list option" where
  "a2b quad left pads [] = (if quad = 0 then Some [] else None)"
| "a2b quad left pads (c # cs) =
     (if c = CHR ''='' then (if 2 \<le> quad \<and> 4 \<le> quad + pads + 1 then Some [] else a2b quad left (pads + 1) cs)
      else (case b64_value c of
              None \<Rightarrow> a2b quad left pads cs
            | Some v \<Rightarrow>
                if quad = 0 then a2b 1 v 0 cs
                else if quad = 1 then map_option ((#) (left * 4 + v div 16)) (a2b 2 (v mod 16) 0 cs)
                else if quad = 2 then map_option ((#) (left * 16 + v div 4)) (a2b 3 (v mod 4) 0 cs)
                else map_option ((#) (left * 64 + v)) (a2b 0 0 0 cs)))"

definition b64_decode :: "string \<Rightarrow> nat list option" where
  "b64_decode s = a2b 0 0 0 s"

text \<open>\<open>str.encode\<close> and \<open>bytes.decode\<close>, for texts of ASCII characters; other bytes are not read.\<close>

definition ascii_bytes :: "string \<Rightarrow> nat list" where
  "ascii_bytes s = map of_char s"

definition ascii_text :: "nat list \<Rightarrow> string option" where
  "ascii_text bs = (if list_all (\<lambda>b. b < 128) bs then Some (map char_of bs) else None)"

section \<open>Facts\<close>

lemma b64_value_char: "v < 64 \<Longrightarrow> b64_value (b64_char v) = Some v \<and> b64_char v \<noteq> CHR ''=''"
proof -
  assume "v < 64"
  define n where "n = (if v < 26 then 65 + v else if v < 52 then 71 + v else if v < 62 then v - 4
      else if v = 62 then 45 else 95)"
  have "n < 256" using \<open>v < 64\<close> by (auto simp: n_def)
  then have o: "of_char (b64_char v) = n" by (simp add: b64_char_def n_def [symmetric])
  have "n \<noteq> 61" using \<open>v < 64\<close> by (auto simp: n_def)
  then have "b64_char v \<noteq> CHR ''=''" using o by auto
  moreover have "b64_value (b64_char v) = Some v"
    unfolding b64_value_def o Let_def using \<open>v < 64\<close> by (auto simp: n_def)
  ultimately show ?thesis by simp
qed

lemma a2b_char:
  "v < 64 \<Longrightarrow> a2b 0 l p (b64_char v # cs) = a2b 1 v 0 cs"
  "v < 64 \<Longrightarrow> a2b (Suc 0) l p (b64_char v # cs) = map_option ((#) (l * 4 + v div 16)) (a2b 2 (v mod 16) 0 cs)"
  "v < 64 \<Longrightarrow> a2b 2 l p (b64_char v # cs) = map_option ((#) (l * 16 + v div 4)) (a2b 3 (v mod 4) 0 cs)"
  "v < 64 \<Longrightarrow> a2b 3 l p (b64_char v # cs) = map_option ((#) (l * 64 + v)) (a2b 0 0 0 cs)"
  using b64_value_char by simp_all

lemma a2b_padding: "a2b 2 l 0 ''=='' = Some []" "a2b 3 l 0 ''='' = Some []"
  by simp_all

declare a2b.simps(2) [simp del]

lemma b64_decode_encode:
  "list_all (\<lambda>b. b < 256) bs \<Longrightarrow> b64_decode (b64_encode bs) = Some bs"
  unfolding b64_decode_def
proof (induction bs rule: b64_encode.induct)
  case (4 a b c bs)
  have "a div 4 < 64" "a mod 4 * 16 + b div 16 < 64" "b mod 16 * 4 + c div 64 < 64" "c mod 64 < 64"
    using 4(2) by (auto simp: less_mult_imp_div_less)
  moreover have "b div 16 < 16" "c div 64 < 4" using 4(2) by (auto simp: less_mult_imp_div_less)
  ultimately show ?case using 4(1) 4(2) by (simp add: a2b_char)
next
  case (3 a b)
  then have "a mod 4 * 16 + b div 16 < 64" "b div 16 < 16" by (auto simp: less_mult_imp_div_less)
  with 3 show ?case by (simp add: a2b_char a2b_padding less_mult_imp_div_less)
next
  case (2 a)
  then show ?case by (simp add: a2b_char a2b_padding less_mult_imp_div_less)
qed simp

text \<open>Without padding characters, the number of characters of the alphabet must be a multiple of 4.\<close>

lemma a2b_count:
  assumes "CHR ''='' \<notin> set s" and "quad < 4" and "a2b quad left pads s = Some bs"
  shows "(quad + length (filter (\<lambda>c. b64_value c \<noteq> None) s)) mod 4 = 0"
  using assms
proof (induction quad left pads s arbitrary: bs rule: a2b.induct)
  case (2 quad left pads c cs)
  then show ?case
  proof (cases "b64_value c")
    case (Some v)
    have "quad = 0 \<or> quad = 1 \<or> quad = 2 \<or> quad = 3" using 2(8) by linarith
    then show ?thesis using 2 Some by (elim disjE) (auto simp: a2b.simps(2) split: if_splits)
  qed (auto simp: a2b.simps(2))
qed (auto split: if_splits)

end
