(* ===== verification/Log_Queries.thy ===== *)
theory Log_Queries
  imports Py_Time Base64 Directive_Router "HOL-Library.Product_Lexorder"
begin

text \<open>
  The paged reads of the two append-only tables: the pagination helpers (\<^verbatim>\<open>app/core/pagination.py\<close>),
  the audit log (\<^verbatim>\<open>app/api/v1/events.py\<close>) and the memory log (\<^verbatim>\<open>app/api/v1/memory.py\<close>,
  \<^verbatim>\<open>app/schemas/memory.py\<close>), whose cursors are base64 texts.
\<close>

section \<open>Pagination helpers\<close>

record 'a cursor_page =
  cp_items :: "'a list"
  cp_next :: "string option"

record 'a offset_page =
  op_items :: "'a list"
  op_offset :: nat
  op_limit :: nat
  op_total :: nat

definition paginate_offset :: "'a list \<Rightarrow> nat \<Rightarrow> nat \<Rightarrow> 'a offset_page" where
  "paginate_offset rows offset limit = \<lparr>op_items = take limit (drop offset rows), op_offset = offset,
     op_limit = limit, op_total = length rows\<rparr>"

text \<open>One row more than the page is fetched to see whether there is another page.\<close>

definition cut_page :: "nat \<Rightarrow> ('a \<Rightarrow> string) \<Rightarrow> 'a list \<Rightarrow> 'a cursor_page" where
  "cut_page limit enc rows =
     (let found = take (limit + 1) rows; items = take limit found
      in \<lparr>cp_items = items, cp_next = (if limit < length found then Some (enc (last items)) else None)\<rparr>)"

text \<open>The query is the list of its rows in ascending order of the cursor field; a decoder that raises is \<open>None\<close>.\<close>

definition paginate_cursor ::
    "'a list \<Rightarrow> ('a \<Rightarrow> timestamp) \<Rightarrow> nat \<Rightarrow> (string \<Rightarrow> timestamp option) \<Rightarrow> string option \<Rightarrow> 'a cursor_page result" where
  "paginate_cursor rows field limit decoder cursor =
     (case cursor of
        None \<Rightarrow> Inr (cut_page limit (\<lambda>r. str_of_time (field r)) rows)
      | Some c \<Rightarrow>
         (case decoder c of
            None \<Rightarrow> Inl unhandled_error
          | Some t \<Rightarrow> Inr (cut_page limit (\<lambda>r. str_of_time (field r)) (filter (\<lambda>r. t < field r) rows))))"

section \<open>Cursors\<close>

definition encode_cursor :: "timestamp \<Rightarrow> ident \<Rightarrow> string" where
  "encode_cursor t i = b64_encode (ascii_bytes (isoformat t @ ''::'' @ i))"

text \<open>\<open>rsplit("::", 1)\<close>: the parts before and after the last separator.\<close>

fun rsplit_colons :: "string \<Rightarrow> (string \<times> string) option" where
  "rsplit_colons [] = None"
| "rsplit_colons (c # cs) =
     (case rsplit_colons cs of
        Some (a, b) \<Rightarrow> Some (c # a, b)
      | None \<Rightarrow> if prefix ''::'' (c # cs) then Some ([], drop 2 (c # cs)) else None)"

definition decode_cursor :: "string \<Rightarrow> (timestamp \<times> string) option" where
  "decode_cursor s =
     Option.bind (b64_decode s) (\<lambda>bs. Option.bind (ascii_text bs) (\<lambda>raw.
       Option.bind (rsplit_colons raw) (\<lambda>(iso, i). map_option (\<lambda>t. (t, i)) (fromisoformat iso))))"

definition decode_memory_cursor :: "string \<Rightarrow> timestamp option" where
  "decode_memory_cursor s = map_option fst (decode_cursor s)"

section \<open>The audit log\<close>

text \<open>\<open>LIKE\<close> with \<^verbatim>\<open>%\<close>, \<^verbatim>\<open>_\<close> and the escape character.\<close>

fun sql_like :: "string \<Rightarrow> string \<Rightarrow> bool" where
  "sql_like [] s = (s = [])"
| "sql_like (p # ps) s =
     (if p = CHR ''%'' then sql_like ps s \<or> (case s of [] \<Rightarrow> False | _ # t \<Rightarrow> sql_like (p # ps) t)
      else if p = CHR ''_'' then (case s of [] \<Rightarrow> False | _ # t \<Rightarrow> sql_like ps t)
      else if p = CHR 0x5C then
        (case ps of [] \<Rightarrow> False | q # qs \<Rightarrow> (case s of [] \<Rightarrow> False | c # t \<Rightarrow> c = q \<and> sql_like qs t))
      else (case s of [] \<Rightarrow> False | c # t \<Rightarrow> c = p \<and> sql_like ps t))"

record event_query =
  eq_type_prefix :: "string option"
  eq_resource_type :: "string option"
  eq_resource_id :: "string option"
  eq_request_id :: "string option"
  eq_since :: "timestamp option"
  eq_until :: "timestamp option"

definition event_matches :: "event_query \<Rightarrow> event_row \<Rightarrow> bool" where
  "event_matches q e \<longleftrightarrow>
     (case eq_type_prefix q of None \<Rightarrow> True | Some p \<Rightarrow> sql_like (p @ ''%'') (ev_type e)) \<and>
     (eq_resource_type q = None \<or> resource_type e = eq_resource_type q) \<and>
     (eq_resource_id q = None \<or> resource_id e = eq_resource_id q) \<and>
     (eq_request_id q = None \<or> request_id e = eq_request_id q) \<and>
     (case eq_since q of None \<Rightarrow> True | Some t \<Rightarrow> t \<le> created_at e) \<and>
     (case eq_until q of None \<Rightarrow> True | Some t \<Rightarrow> created_at e \<le> t)"

definition event_key :: "event_row \<Rightarrow> timestamp \<times> string" where
  "event_key e = (created_at e, row_id e)"

definition list_events ::
    "event_query \<Rightarrow> int \<Rightarrow> string option \<Rightarrow> 'z db_scheme \<Rightarrow> event_row cursor_page result" where
  "list_events q limit cursor s =
     (if limit < 1 \<or> 200 < limit then Inl request_validation_error
      else let page = (\<lambda>rows. cut_page (nat limit) (\<lambda>e. encode_cursor (created_at e) (row_id e))
                         (rev (sort_key event_key rows)));
               rows = filter (event_matches q) (events s)
           in case cursor of
                None \<Rightarrow> Inr (page rows)
              | Some c \<Rightarrow>
                 (case decode_cursor c of
                    None \<Rightarrow> Inl unhandled_error
                  | Some k \<Rightarrow> Inr (page (filter (\<lambda>e. event_key e < k) rows))))"

section \<open>The memory log\<close>

definition list_memories ::
    "ident \<Rightarrow> int \<Rightarrow> string option \<Rightarrow> string option \<Rightarrow> string option \<Rightarrow> 'z db_scheme
     \<Rightarrow> memory_row cursor_page result" where
  "list_memories ent limit cursor kind key s =
     (if limit < 1 \<or> 200 < limit then Inl request_validation_error
      else if get_live (entities s) ent = None then Inl (NotFoundError ''entity.not_found'' ''errors.entity.not_found'')
      else (case key of
              Some k \<Rightarrow> Inr \<lparr>cp_items = take 1 (sort_key (\<lambda>m. - created_at m)
                  (filter (\<lambda>m. mm_entity_id m = ent \<and> mm_key m = Some k \<and> live m) (memories s))), cp_next = None\<rparr>
            | None \<Rightarrow>
                let rows = sort_key created_at (filter (\<lambda>m. mm_entity_id m = ent \<and> live m
                      \<and> (case kind of None \<Rightarrow> True | Some k \<Rightarrow> kind_name (mm_kind m) = k)) (memories s))
                in (case paginate_cursor rows created_at (nat limit) decode_memory_cursor cursor of
                      Inl e \<Rightarrow> Inl e
                    | Inr p \<Rightarrow>
                        if cursor = None \<or> cp_next p = None then Inr p
                        else let m = last (cp_items p) in Inr (p\<lparr>cp_next := Some (encode_cursor (created_at m) (row_id m))\<rparr>))))"

record memory_create =
  mc_entity_id :: ident
  mc_kind :: string
  mc_key :: "string option"
  mc_content :: "string option"
  mc_source_instance_id :: "ident option"

definition kind_of :: "string \<Rightarrow> memory_kind option" where
  "kind_of k = first_where (\<lambda>m. kind_name m = k) [MK_experience, MK_lesson, MK_decision, MK_problem, MK_notepad]"

text \<open>The event is built before the entry is flushed, when its identifier is still \<open>None\<close>.\<close>

definition create_memory_entry ::
    "'z db_scheme handlers \<Rightarrow> timestamp \<Rightarrow> memory_create \<Rightarrow> ident \<Rightarrow> 'z db_scheme \<Rightarrow> ('z db_scheme \<times> memory_row) result" where
  "create_memory_entry hs now b uid s =
     (case kind_of (mc_kind b) of
        None \<Rightarrow> Inl request_validation_error
      | Some k \<Rightarrow>
          if get_live (entities s) (mc_entity_id b) = None
          then Inl (NotFoundError ''entity.not_found'' ''errors.entity.not_found'')
          else let m = \<lparr>row_id = new_id s, created_at = now, updated_at = now, deleted_at = None,
                        mm_entity_id = mc_entity_id b, mm_kind = k, mm_key = mc_key b, mm_content = mc_content b,
                        source_instance_id = mc_source_instance_id b\<rparr>;
                   s1 = (take_id s)\<lparr>memories := memories s @ [m]\<rparr>
               in Inr (fst (emit hs now \<lparr>ea_type = MEMORY_ENTRY_APPENDED, ea_actor_type = ''user'',
                       ea_actor_id = Some uid, ea_resource_type = Some ''memory_entry'', ea_resource_id = None,
                       ea_payload = [(''entity_id'', JStr (mc_entity_id b)), (''kind'', JStr (mc_kind b))],
                       ea_request_id = None\<rparr> s1), m))"

end
