(* ===== verification/Log_Queries_Props.thy ===== *)
theory Log_Queries_Props
  imports Log_Queries Directive_Router_Props
begin

text \<open>
  The audit log can be read page by page without loss; the memory log cannot be read past its first
  page.
\<close>

section \<open>Cursors\<close>

lemma rsplit_no_sep: "CHR '':'' \<notin> set i \<Longrightarrow> rsplit_colons i = None"
  by (induction i) (auto simp: prefix_def)

lemma rsplit_last:
  assumes "CHR '':'' \<notin> set i"
  shows "rsplit_colons (a @ ''::'' @ i) = Some (a, i)"
proof (induction a)
  case Nil
  have "rsplit_colons (CHR '':'' # i) = None"
    using rsplit_no_sep [OF assms] assms by (cases i) auto
  then show ?case by simp
qed simp

definition plain_ident :: "ident \<Rightarrow> bool" where
  "plain_ident i \<longleftrightarrow> list_all (\<lambda>c. of_char c < (128 :: nat) \<and> c \<noteq> CHR '':'') i"

lemma ascii_round: "list_all (\<lambda>c. of_char c < (128 :: nat)) s \<Longrightarrow>
  ascii_text (ascii_bytes s) = Some s \<and> list_all (\<lambda>b. b < 256) (ascii_bytes s)"
  by (induction s) (auto simp: ascii_text_def ascii_bytes_def list_all_iff)

lemma digit_ascii: "is_digit c \<Longrightarrow> of_char c < (128 :: nat)"
  by (simp add: is_digit_def Let_def)

lemma pad_ascii: "list_all (\<lambda>c. of_char c < (128 :: nat)) (pad k n)"
  using pad_digits [of k n] by (auto simp: list_all_iff digit_ascii)

lemma isoformat_ascii: "of_char sep < (128 :: nat) \<Longrightarrow> list_all (\<lambda>c. of_char c < (128 :: nat)) (isoformat_sep sep t)"
  by (simp add: isoformat_sep_def date_string_def time_string_def pad_ascii Let_def split: prod.split)

lemma decode_encode:
  assumes "valid_time t" and "plain_ident i"
  shows "decode_cursor (encode_cursor t i) = Some (t, i)"
proof -
  let ?raw = "isoformat t @ ''::'' @ i"
  have "list_all (\<lambda>c. of_char c < (128 :: nat)) ?raw"
    using assms(2) isoformat_ascii [of "CHR ''T''" t] by (auto simp: isoformat_def plain_ident_def list_all_iff)
  from ascii_round [OF this] have b: "ascii_text (ascii_bytes ?raw) = Some ?raw"
    "b64_decode (b64_encode (ascii_bytes ?raw)) = Some (ascii_bytes ?raw)"
    by (auto intro: b64_decode_encode)
  have "CHR '':'' \<notin> set i" using assms(2) by (auto simp: plain_ident_def list_all_iff)
  from rsplit_last [OF this] fromisoformat_isoformat [OF assms(1)] b show ?thesis
    by (simp add: decode_cursor_def encode_cursor_def)
qed

text \<open>
  A cursor of the audit log stands for its row: decoding gives back the time and the identifier it
  was made of, for every time of the calendar and every identifier without a colon.
\<close>

theorem cursor_roundtrip:
  assumes "valid_time t" and "plain_ident i"
  shows "decode_cursor (encode_cursor t i) = Some (t, i)"
  using assms by (rule decode_encode)

theorem cursor_roundtrip_witness:
  "decode_cursor (encode_cursor 63871286400123456 ''3f-a'') = Some (63871286400123456, ''3f-a'')"
  by (rule cursor_roundtrip) (simp_all add: valid_time_def day_micros_def plain_ident_def)

section \<open>Reading all pages\<close>

text \<open>A client that follows the cursors, at most \<open>n\<close> times; \<open>None\<close> if it has not reached the last page.\<close>

fun follow ::
    "(string option \<Rightarrow> 'a cursor_page result) \<Rightarrow> nat \<Rightarrow> string option \<Rightarrow> 'a list result option" where
  "follow page 0 c = None"
| "follow page (Suc n) c =
     (case page c of
        Inl e \<Rightarrow> Some (Inl e)
      | Inr p \<Rightarrow>
         (case cp_next p of
            None \<Rightarrow> Some (Inr (cp_items p))
          | Some c' \<Rightarrow>
             (case follow page n (Some c') of
                Some (Inr rest) \<Rightarrow> Some (Inr (cp_items p @ rest))
              | r \<Rightarrow> r)))"

lemma sort_filter: "sort_key f (filter P xs) = filter P (sort_key f xs)"
  by (simp add: filter_sort)

lemma below_element:
  fixes f :: "'a \<Rightarrow> 'k :: linorder"
  assumes "sorted_wrt (\<lambda>x y. f y < f x) xs" and "n < length xs"
  shows "filter (\<lambda>x. f x < f (xs ! n)) xs = drop (Suc n) xs"
proof -
  have "xs = take (Suc n) xs @ drop (Suc n) xs" by simp
  moreover have "filter (\<lambda>x. f x < f (xs ! n)) (take (Suc n) xs) = []"
  proof -
    have "f (xs ! n) \<le> f (xs ! i)" if "i \<le> n" for i
      using assms that sorted_wrt_nth_less [OF assms(1), of i n] by (cases "i = n") auto
    then show ?thesis using assms(2) by (auto simp: filter_empty_conv in_set_conv_nth not_less)
  qed
  moreover have "filter (\<lambda>x. f x < f (xs ! n)) (drop (Suc n) xs) = drop (Suc n) xs"
    using assms by (auto simp: filter_id_conv in_set_conv_nth sorted_wrt_iff_nth_less)
  ultimately show ?thesis by (metis append_Nil filter_append)
qed

lemma strictly_desc:
  assumes "distinct (map row_id es)"
  shows "sorted_wrt (\<lambda>x y. event_key y < event_key x) (rev (sort_key event_key es))"
proof -
  let ?xs = "sort_key event_key es"
  have "inj_on event_key (set es)" using assms by (auto simp: distinct_map event_key_def inj_on_def)
  moreover have "distinct es" using assms by (simp add: distinct_map)
  ultimately have "distinct (map event_key ?xs)" by (simp add: distinct_map)
  then have "sorted_wrt (<) (map event_key ?xs)" by (simp add: strict_sorted_iff)
  then show ?thesis by (simp add: sorted_wrt_rev sorted_wrt_map)
qed

definition newest_first :: "event_query \<Rightarrow> 'z db_scheme \<Rightarrow> event_row list" where
  "newest_first q s = rev (sort_key event_key (filter (event_matches q) (events s)))"

lemma cut_page_nth:
  "0 < limit \<Longrightarrow> cut_page limit enc rows = \<lparr>cp_items = take limit rows,
     cp_next = (if limit < length rows then Some (enc (rows ! (limit - 1))) else None)\<rparr>"
proof -
  assume "0 < limit"
  then have "last (take limit rows) = rows ! (limit - 1)" if "limit < length rows"
    using that by (subst last_conv_nth) auto
  then show ?thesis by (simp add: cut_page_def Let_def min_def)
qed

definition event_cursor :: "event_row \<Rightarrow> string" where
  "event_cursor e = encode_cursor (created_at e) (row_id e)"

lemma list_events_page:
  assumes "1 \<le> limit" and "limit \<le> 200"
  shows "list_events q limit None s = Inr (cut_page (nat limit) event_cursor (newest_first q s))"
    and "decode_cursor c = Some k \<Longrightarrow>
      list_events q limit (Some c) s =
        Inr (cut_page (nat limit) event_cursor (filter (\<lambda>e. event_key e < k) (newest_first q s)))"
  using assms
  by (auto simp: list_events_def newest_first_def Let_def event_cursor_def [abs_def] filter_sort rev_filter [symmetric])

lemma follow_events:
  assumes "1 \<le> limit" and "limit \<le> 200" and "distinct (map row_id (events s))"
    and "\<And>e. e \<in> set (events s) \<Longrightarrow> valid_time (created_at e) \<and> plain_ident (row_id e)"
    and "L = newest_first q s" and "k < length L" and "length L \<le> k + n"
  shows "follow (\<lambda>c. list_events q limit c s) n (Some (event_cursor (L ! k))) = Some (Inr (drop (Suc k) L))"
  using assms(6,7)
proof (induction n arbitrary: k)
  case (Suc n)
  let ?m = "nat limit" and ?rows = "drop (Suc k) L"
  have "distinct (map row_id (filter (event_matches q) (events s)))"
    using assms(3) by (simp add: distinct_map_filter)
  then have L: "sorted_wrt (\<lambda>x y. event_key y < event_key x) L"
    unfolding assms(5) newest_first_def by (rule strictly_desc)
  have sub: "set L \<subseteq> set (events s)" by (auto simp: assms(5) newest_first_def)
  have "L ! k \<in> set (events s)" using Suc.prems sub by auto
  then have "decode_cursor (event_cursor (L ! k)) = Some (event_key (L ! k))"
    using assms(4) by (simp add: decode_encode event_key_def event_cursor_def)
  from list_events_page(2) [OF assms(1,2) this, of q s]
  have page: "list_events q limit (Some (event_cursor (L ! k))) s = Inr (cut_page ?m event_cursor ?rows)"
    using below_element [OF L Suc.prems(1)] by (simp add: assms(5))
  have "0 < ?m" using assms(1) by simp
  note cut = cut_page_nth [OF this, of event_cursor ?rows]
  show ?case
  proof (cases "?m < length ?rows")
    case True
    then have "k + ?m < length L" "?rows ! (?m - 1) = L ! (k + ?m)" using assms(1) by simp_all
    moreover have "length L \<le> k + ?m + n" using Suc.prems assms(1) by simp
    moreover have "take ?m ?rows @ drop (Suc (k + ?m)) L = ?rows"
      by (metis add.commute add_Suc_right append_take_drop_id drop_drop)
    ultimately show ?thesis using Suc.IH [of "k + ?m"] page cut True by simp
  qed (use page cut in simp)
qed simp

text \<open>
  C29. Reading the audit log to its end: following the cursors from the first page lists every matching
  event exactly once, newest first, also among events of the same time, and the last page is reached
  after at most as many requests as there are events.
\<close>

theorem event_pages_complete:
  assumes "1 \<le> limit" and "limit \<le> 200" and "distinct (map row_id (events s))"
    and "\<And>e. e \<in> set (events s) \<Longrightarrow> valid_time (created_at e) \<and> plain_ident (row_id e)"
  shows "follow (\<lambda>c. list_events q limit c s) (Suc (length (events s))) None = Some (Inr (newest_first q s))"
proof -
  let ?L = "newest_first q s" and ?m = "nat limit"
  have m: "0 < ?m" using assms(1) by simp
  have len: "length ?L \<le> length (events s)" by (simp add: newest_first_def)
  note page = list_events_page(1) [OF assms(1,2), of q s, unfolded cut_page_nth [OF m]]
  show ?thesis
  proof (cases "?m < length ?L")
    case True
    with m have k: "?m - 1 < length ?L" "length ?L \<le> ?m - 1 + length (events s)" using len by simp_all
    from follow_events [OF assms refl k] page True m show ?thesis by simp
  qed (use page in simp)
qed

definition log_entry :: "ident \<Rightarrow> timestamp \<Rightarrow> event_row" where
  "log_entry i t = \<lparr>row_id = i, created_at = t, updated_at = t, deleted_at = None, ev_type = SYSTEM_STARTUP,
     actor_type = ''system'', actor_id = None, resource_type = None, resource_id = None, ev_payload = [],
     request_id = None\<rparr>"

definition sample_log :: db where
  "sample_log = (empty_db sample_ids)\<lparr>events := [log_entry ''a'' 5, log_entry ''c'' 7, log_entry ''b'' 7]\<rparr>"

definition any_event :: event_query where
  "any_event = \<lparr>eq_type_prefix = None, eq_resource_type = None, eq_resource_id = None, eq_request_id = None,
     eq_since = None, eq_until = None\<rparr>"

theorem event_pages_complete_witness:
  "follow (\<lambda>c. list_events any_event 1 c sample_log) 4 None =
     Some (Inr [log_entry ''c'' 7, log_entry ''b'' 7, log_entry ''a'' 5])"
proof -
  have "newest_first any_event sample_log = [log_entry ''c'' 7, log_entry ''b'' 7, log_entry ''a'' 5]"
    by code_simp
  moreover have "valid_time (created_at e) \<and> plain_ident (row_id e)" if "e \<in> set (events sample_log)" for e
    using that by (auto simp: sample_log_def log_entry_def valid_time_def day_micros_def plain_ident_def)
  moreover have "distinct (map row_id (events sample_log))" "Suc (length (events sample_log)) = 4" by code_simp+
  ultimately show ?thesis using event_pages_complete [of 1 sample_log any_event] by simp
qed

section \<open>The memory log ends after a page\<close>

text \<open>
  The first page of the memory log hands out the plain text of a time, not its encoding; that text
  never has a multiple of four base64 characters, so decoding it raises.
\<close>

definition b64_count :: "string \<Rightarrow> nat" where
  "b64_count s = length (filter (\<lambda>c. b64_value c \<noteq> None) s)"

lemma b64_count_simps [simp]:
  "b64_count [] = 0" "b64_count (c # cs) = (if b64_value c \<noteq> None then 1 else 0) + b64_count cs"
  "b64_count (s @ t) = b64_count s + b64_count t"
  by (simp_all add: b64_count_def)

lemma digit_value: "is_digit c \<Longrightarrow> b64_value c \<noteq> None \<and> c \<noteq> CHR ''=''"
  by (auto simp: is_digit_def b64_value_def Let_def)

lemma count_pad [simp]: "b64_count (pad k n) = k"
proof -
  have "filter (\<lambda>c. b64_value c \<noteq> None) (pad k n) = pad k n"
    using pad_digits [of k n] digit_value by (auto simp: filter_id_conv list_all_iff)
  then show ?thesis by (simp add: b64_count_def)
qed

lemma pad_no_padding [simp]: "CHR ''='' \<notin> set (pad k n)"
  using pad_digits [of k n] digit_value by (auto simp: list_all_iff)

lemma decode_plain_time: "decode_memory_cursor (str_of_time t) = None"
proof -
  obtain y m d where ymd: "date_of_day (nat t div day_micros) = (y, m, d)" by (metis prod_cases3)
  have "b64_count (str_of_time t) mod 4 \<noteq> 0"
    by (simp add: str_of_time_def isoformat_sep_def date_string_def time_string_def ymd Let_def b64_value_def)
  moreover have "CHR ''='' \<notin> set (str_of_time t)"
    by (auto simp: str_of_time_def isoformat_sep_def date_string_def time_string_def ymd Let_def)
  ultimately have "b64_decode (str_of_time t) = None"
    using a2b_count [of "str_of_time t" 0 0 0] by (cases "b64_decode (str_of_time t)") (auto simp: b64_decode_def b64_count_def)
  then show ?thesis by (simp add: decode_memory_cursor_def decode_cursor_def)
qed

text \<open>
  C30. The memory log of an Entity cannot be read past its first page: the cursor that the first page
  hands out is answered with an unhandled error, whatever the limit, kind and log.
\<close>

theorem memory_second_page_fails:
  assumes "list_memories ent limit None kind None s = Inr p" and "cp_next p = Some c" and "1 \<le> limit'" and "limit' \<le> 200"
  shows "list_memories ent limit' (Some c) kind' None s = Inl unhandled_error"
proof -
  obtain t where "c = str_of_time t"
    using assms(1,2) by (auto simp: list_memories_def paginate_cursor_def cut_page_def Let_def split: if_splits)
  with assms(1,3,4) show ?thesis
    by (auto simp: list_memories_def paginate_cursor_def decode_plain_time Let_def split: if_splits)
qed

definition learned_store :: db where
  "learned_store = (empty_db sample_ids)\<lparr>entities := [sample_entity ''e'' ''s'' ''fox''],
     memories := [memory_of ''m1'' ''a'', memory_of ''m2'' ''b'']\<rparr>"

theorem memory_second_page_fails_witness:
  "\<exists>p c. list_memories ''e'' 1 None None None learned_store = Inr p \<and> cp_next p = Some c \<and>
     list_memories ''e'' 1 (Some c) None None learned_store = Inl unhandled_error"
proof -
  have m: "sort_key created_at (filter (\<lambda>m. mm_entity_id m = ''e'' \<and> live m) (memories learned_store)) =
      [memory_of ''m1'' ''a'', memory_of ''m2'' ''b'']"
    by code_simp
  have "get_live (entities learned_store) ''e'' \<noteq> None" by code_simp
  then have "\<exists>p c. list_memories ''e'' 1 None None None learned_store = Inr p \<and> cp_next p = Some c"
    by (auto simp: list_memories_def m paginate_cursor_def cut_page_def Let_def)
  then show ?thesis using memory_second_page_fails [where limit' = 1] by fastforce
qed

end
