(* ===== verification/Meetings.thy ===== *)
theory Meetings
  imports Log_Queries Harness_Api
begin

text \<open>
  Meetings of a Workspace (\<^verbatim>\<open>app/api/v1/meetings.py\<close>, \<^verbatim>\<open>app/api/v1/meetings_actions.py\<close>,
  \<^verbatim>\<open>app/schemas/meeting.py\<close>) and the wake matrix that starting one runs over its participants
  (\<^verbatim>\<open>app/core/meeting_wake.py\<close>).
\<close>

section \<open>Permissions\<close>

text \<open>The first atom that is granted passes; the last refusal is raised, any other error at once.\<close>

fun require_any_permission ::
    "ident \<Rightarrow> ident \<Rightarrow> string list \<Rightarrow> ident option \<Rightarrow> 'z db_scheme \<Rightarrow> unit result" where
  "require_any_permission uid ws [] x_org s = Inl unhandled_error"
| "require_any_permission uid ws (atom # atoms) x_org s =
     (case require_workspace_permission uid ws atom x_org s of
        Inr _ \<Rightarrow> Inr ()
      | Inl e \<Rightarrow> if status_code e = 403 \<and> atoms \<noteq> [] then require_any_permission uid ws atoms x_org s else Inl e)"

definition require_meeting_read :: "ident \<Rightarrow> ident \<Rightarrow> ident option \<Rightarrow> 'z db_scheme \<Rightarrow> unit result" where
  "require_meeting_read uid ws x_org s =
     require_any_permission uid ws [''can_manage_meetings'', ''can_edit_workspace'', ''can_view_workspace''] x_org s"

definition require_meeting_manage :: "ident \<Rightarrow> ident \<Rightarrow> ident option \<Rightarrow> 'z db_scheme \<Rightarrow> unit result" where
  "require_meeting_manage uid ws x_org s =
     require_any_permission uid ws [''can_manage_meetings'', ''can_edit_workspace''] x_org s"

section \<open>Reads\<close>

definition get_meeting_or_404 :: "ident \<Rightarrow> 'z db_scheme \<Rightarrow> meeting result" where
  "get_meeting_or_404 i s =
     (case scalar_one_or_none (filter (\<lambda>m. row_id m = i \<and> live m) (meetings s)) of
        Inl e \<Rightarrow> Inl e
      | Inr None \<Rightarrow> Inl (NotFoundError ''meeting.not_found'' ''errors.meeting.not_found'')
      | Inr (Some m) \<Rightarrow> Inr m)"

definition participants_for :: "ident \<Rightarrow> 'z db_scheme \<Rightarrow> meeting_participant list" where
  "participants_for i s =
     sort_key created_at (filter (\<lambda>p. mp_meeting_id p = i \<and> live p) (meeting_participants s))"

text \<open>\<open>MeetingOut\<close>: the meeting and the participants shown with it.\<close>

type_synonym meeting_view = "meeting \<times> meeting_participant list"

definition list_meetings ::
    "ident \<Rightarrow> ident option \<Rightarrow> ident option \<Rightarrow> int \<Rightarrow> int \<Rightarrow> 'z db_scheme \<Rightarrow> meeting_view offset_page result" where
  "list_meetings uid x_org ws limit offset s =
     (if limit < 1 \<or> 200 < limit \<or> offset < 0 then Inl request_validation_error
      else (case (case ws of None \<Rightarrow> Inr () | Some w \<Rightarrow> require_meeting_read uid w x_org s) of
              Inl e \<Rightarrow> Inl e
            | Inr _ \<Rightarrow>
               (let mine = map mem_workspace_id (filter (\<lambda>m. mem_user_id m = Some uid \<and> live m) (memberships s));
                    rows = sort_key (\<lambda>m. - created_at m) (filter (\<lambda>m. live m \<and>
                      (case ws of Some w \<Rightarrow> mt_workspace_id m = w | None \<Rightarrow> mt_workspace_id m \<in> set mine)) (meetings s));
                    p = paginate_offset rows (nat offset) (nat limit)
                in Inr \<lparr>op_items = map (\<lambda>m. (m, [])) (op_items p), op_offset = op_offset p,
                        op_limit = op_limit p, op_total = op_total p\<rparr>)))"

definition get_meeting :: "ident \<Rightarrow> ident \<Rightarrow> ident option \<Rightarrow> 'z db_scheme \<Rightarrow> meeting_view result" where
  "get_meeting i uid x_org s =
     (case get_meeting_or_404 i s of
        Inl e \<Rightarrow> Inl e
      | Inr m \<Rightarrow>
         (case require_meeting_read uid (mt_workspace_id m) x_org s of
            Inl e \<Rightarrow> Inl e
          | Inr _ \<Rightarrow> Inr (m, participants_for (row_id m) s)))"

section \<open>Creation\<close>

record meeting_create =
  mtc_workspace_id :: ident
  mtc_title :: string
  mtc_agenda :: "string option"
  mtc_scheduled_at :: timestamp
  mtc_participants :: "ident list"

definition meeting_event :: "string \<Rightarrow> ident \<Rightarrow> ident \<Rightarrow> json_obj \<Rightarrow> event_args" where
  "meeting_event ty uid i payload = \<lparr>ea_type = ty, ea_actor_type = ''user'', ea_actor_id = Some uid,
     ea_resource_type = Some ''meeting'', ea_resource_id = Some i, ea_payload = payload, ea_request_id = None\<rparr>"

definition new_meeting :: "ident \<Rightarrow> timestamp \<Rightarrow> meeting_create \<Rightarrow> ident \<Rightarrow> meeting" where
  "new_meeting i now b uid = \<lparr>row_id = i, created_at = now, updated_at = now, deleted_at = None,
     mt_workspace_id = mtc_workspace_id b, mt_title = mtc_title b, agenda = mtc_agenda b, mt_status = M_scheduled,
     scheduled_at = mtc_scheduled_at b, ended_at = None, created_by_user_id = uid\<rparr>"

text \<open>One row per seat, added in the order of the request without its repetitions (\<open>dict.fromkeys\<close>).\<close>

definition add_participant :: "timestamp \<Rightarrow> ident \<Rightarrow> ident \<Rightarrow> 'z db_scheme \<Rightarrow> 'z db_scheme" where
  "add_participant now mid seat s =
     (take_id s)\<lparr>meeting_participants := meeting_participants s @ [\<lparr>row_id = new_id s, created_at = now,
        updated_at = now, deleted_at = None, mp_meeting_id = mid, mp_membership_id = seat, role_in_meeting = None\<rparr>]\<rparr>"

definition create_meeting ::
    "'z db_scheme handlers \<Rightarrow> timestamp \<Rightarrow> meeting_create \<Rightarrow> ident \<Rightarrow> ident option \<Rightarrow> 'z db_scheme
     \<Rightarrow> ('z db_scheme \<times> meeting_view) result" where
  "create_meeting hs now b uid x_org s =
     (case require_meeting_manage uid (mtc_workspace_id b) x_org s of
        Inl e \<Rightarrow> Inl e
      | Inr _ \<Rightarrow>
         (let seats = first_occurrences (mtc_participants b);
              valid = map row_id (filter (\<lambda>m. mem_workspace_id m = mtc_workspace_id b \<and> live m) (memberships s))
          in if \<not> list_all (\<lambda>i. i \<in> set valid) seats
             then Inl (EyotError ''meeting.membership_not_in_workspace'' ''errors.meeting.membership_not_in_workspace'' 400)
             else if \<not> fk_exists (workspaces s) (mtc_workspace_id b) \<or> \<not> fk_exists (users s) uid then Inl unhandled_error
             else let m = new_meeting (new_id s) now b uid;
                      s1 = (take_id s)\<lparr>meetings := meetings s @ [m]\<rparr>;
                      s2 = fold (add_participant now (row_id m)) seats s1;
                      s3 = fst (emit hs now (meeting_event MEETING_CREATED uid (row_id m)
                             [(''workspace_id'', JStr (mt_workspace_id m)), (''title'', JStr (mt_title m)),
                              (''participant_count'', JInt (int (length seats)))]) s2)
                  in Inr (s3, (m, drop (length (meeting_participants s1)) (meeting_participants s2)))))"

section \<open>The wake matrix\<close>

definition meeting_payload :: "meeting \<Rightarrow> json_obj" where
  "meeting_payload m = [(''meeting_id'', JStr (row_id m)), (''title'', JStr (mt_title m)),
     (''agenda'', opt_json (agenda m)), (''scheduled_at'', JStr (isoformat (scheduled_at m)))]"

definition meeting_tldr :: "meeting \<Rightarrow> string" where
  "meeting_tldr m =
     take 200 (if mt_title m \<noteq> [] then ''Meeting: '' @ mt_title m else ''Meeting notification'')"

definition emit_no_instance ::
    "'z db_scheme handlers \<Rightarrow> timestamp \<Rightarrow> meeting \<Rightarrow> meeting_participant \<Rightarrow> 'z db_scheme \<Rightarrow> 'z db_scheme" where
  "emit_no_instance hs now m p s = fst (emit hs now
     (system_event MEETING_PARTICIPANT_NO_INSTANCE ''meeting'' (row_id m)
        [(''membership_id'', JStr (mp_membership_id p))]) s)"

definition notify_participant ::
    "'z db_scheme handlers \<Rightarrow> timestamp \<Rightarrow> meeting \<Rightarrow> ident \<Rightarrow> string \<Rightarrow> 'z db_scheme \<Rightarrow> 'z db_scheme result" where
  "notify_participant hs now m iid mode s =
     map_sum id fst (enqueue_inject hs now iid ''collab_inject'' mode (meeting_payload m) (Some (meeting_tldr m)) s)"

definition RESUME_LOOP_STATUSES :: "loop_status_t list" where
  "RESUME_LOOP_STATUSES = [L_failed, L_interrupted, L_paused, L_completed]"

text \<open>
  The loop of an Instance that is paused, stopped or pending is resumed, its state created idle first
  if there is none, and its runtime started; the only exception that these can raise is that no loop
  state is found.
\<close>

definition wake_participant ::
    "'z world_scheme handlers \<Rightarrow> timestamp \<Rightarrow> meeting \<Rightarrow> meeting_participant \<Rightarrow> 'z world_scheme
     \<Rightarrow> 'z world_scheme result" where
  "wake_participant hs now m p w =
     (case get_live (memberships w) (mp_membership_id p) of
        None \<Rightarrow> Inr w
      | Some seat \<Rightarrow>
         (case Option.bind (mem_instance_id seat) (get_live (instances w)) of
            None \<Rightarrow> Inr (emit_no_instance hs now m p w)
          | Some i \<Rightarrow>
             (let st = live_loop_state (row_id i) w; status = map_option loop_status st
              in if ins_status i = I_running \<and> status = Some L_running
                 then notify_participant hs now m (row_id i) ''soft_inject'' w
                 else if status \<in> set (map Some RESUME_LOOP_STATUSES) \<or> ins_status i = I_pending
                 then (case handle_resume hs now (row_id i) (fst (ensure_loop_state now (row_id i) w)) of
                         Inl e \<Rightarrow> Inr (fst (emit hs now
                           (system_event MEETING_PARTICIPANT_WAKE_FAILED ''meeting'' (row_id m)
                              [(''instance_id'', JStr (row_id i)),
                               (''error'', JStr (''No InstanceLoopState for instance '' @ CHR 0x27 # row_id i @ [CHR 0x27]))])
                           (fst (ensure_loop_state now (row_id i) w))))
                       | Inr (w1, _) \<Rightarrow> notify_participant hs now m (row_id i) ''wake'' (fst (start_runtime_for (row_id i) w1)))
                 else notify_participant hs now m (row_id i) ''wake'' w)))"

fun wake_meeting_participants ::
    "'z world_scheme handlers \<Rightarrow> timestamp \<Rightarrow> meeting \<Rightarrow> meeting_participant list \<Rightarrow> 'z world_scheme
     \<Rightarrow> 'z world_scheme result" where
  "wake_meeting_participants hs now m [] w = Inr w"
| "wake_meeting_participants hs now m (p # ps) w =
     (case wake_participant hs now m p w of
        Inl e \<Rightarrow> Inl e
      | Inr w1 \<Rightarrow> wake_meeting_participants hs now m ps w1)"

section \<open>Lifecycle\<close>

definition require_transition :: "meeting \<Rightarrow> meeting_status list \<Rightarrow> unit result" where
  "require_transition m allowed =
     (if mt_status m \<notin> set allowed
      then Inl (ConflictError ''meeting.invalid_transition'' ''errors.meeting.invalid_transition'') else Inr ())"

text \<open>What every action begins with: the meeting, the permission, the transition.\<close>

definition begin_action ::
    "ident \<Rightarrow> ident \<Rightarrow> ident option \<Rightarrow> meeting_status list \<Rightarrow> 'z db_scheme \<Rightarrow> meeting result" where
  "begin_action i uid x_org allowed s =
     (case get_meeting_or_404 i s of
        Inl e \<Rightarrow> Inl e
      | Inr m \<Rightarrow>
         (case require_meeting_manage uid (mt_workspace_id m) x_org s of
            Inl e \<Rightarrow> Inl e
          | Inr _ \<Rightarrow> map_sum id (\<lambda>_. m) (require_transition m allowed)))"

definition replace_meeting :: "meeting \<Rightarrow> 'z db_scheme \<Rightarrow> 'z db_scheme" where
  "replace_meeting m s = s\<lparr>meetings := update_where (\<lambda>r. row_id r = row_id m) (\<lambda>_. m) (meetings s)\<rparr>"

definition start_meeting ::
    "'z world_scheme handlers \<Rightarrow> timestamp \<Rightarrow> ident \<Rightarrow> ident \<Rightarrow> ident option \<Rightarrow> 'z world_scheme
     \<Rightarrow> ('z world_scheme \<times> meeting_view) result" where
  "start_meeting hs now i uid x_org w =
     (case begin_action i uid x_org [M_scheduled] w of
        Inl e \<Rightarrow> Inl e
      | Inr m \<Rightarrow>
         (let m1 = touch now (m\<lparr>mt_status := M_active\<rparr>); w1 = replace_meeting m1 w;
              ps = participants_for (row_id m) w1
          in case wake_meeting_participants hs now m1 ps w1 of
               Inl e \<Rightarrow> Inl e
             | Inr w2 \<Rightarrow>
                 Inr (fst (emit hs now (meeting_event MEETING_STARTED uid (row_id m)
                        [(''participant_count'', JInt (int (length ps))),
                         (''scheduled_at'', JStr (isoformat (scheduled_at m1)))]) w2), (m1, ps))))"

definition finish_meeting ::
    "'z db_scheme handlers \<Rightarrow> timestamp \<Rightarrow> string \<Rightarrow> meeting \<Rightarrow> ident \<Rightarrow> 'z db_scheme \<Rightarrow> 'z db_scheme \<times> meeting_view" where
  "finish_meeting hs now ty m uid s =
     (let s1 = fst (emit hs now (meeting_event ty uid (row_id m) []) (replace_meeting m s))
      in (s1, (m, participants_for (row_id m) s1)))"

definition end_meeting ::
    "'z db_scheme handlers \<Rightarrow> timestamp \<Rightarrow> ident \<Rightarrow> ident \<Rightarrow> ident option \<Rightarrow> 'z db_scheme
     \<Rightarrow> ('z db_scheme \<times> meeting_view) result" where
  "end_meeting hs now i uid x_org s =
     (case begin_action i uid x_org [M_active] s of
        Inl e \<Rightarrow> Inl e
      | Inr m \<Rightarrow> Inr (finish_meeting hs now MEETING_ENDED
          (touch now (m\<lparr>mt_status := M_ended, ended_at := Some now\<rparr>)) uid s))"

definition cancel_meeting ::
    "'z db_scheme handlers \<Rightarrow> timestamp \<Rightarrow> ident \<Rightarrow> ident \<Rightarrow> ident option \<Rightarrow> 'z db_scheme
     \<Rightarrow> ('z db_scheme \<times> meeting_view) result" where
  "cancel_meeting hs now i uid x_org s =
     (case begin_action i uid x_org [M_scheduled, M_active] s of
        Inl e \<Rightarrow> Inl e
      | Inr m \<Rightarrow> Inr (finish_meeting hs now MEETING_CANCELLED (touch now (m\<lparr>mt_status := M_cancelled\<rparr>)) uid s))"

end
