(* ===== verification/Meetings_Props.thy ===== *)
theory Meetings_Props
  imports Meetings Directive_Router_Props Agent_Loop_Props
begin

text \<open>
  What starting a meeting does to the Instances of its participants, and the life cycle of meetings.
\<close>

section \<open>Frames\<close>

text \<open>What handlers of the events of a meeting leave alone.\<close>

definition meeting_frame :: "'z world_scheme \<Rightarrow> 'z world_scheme \<Rightarrow> bool" where
  "meeting_frame w v \<longleftrightarrow> meetings v = meetings w \<and> meeting_participants v = meeting_participants w \<and>
     memberships v = memberships w \<and> instances v = instances w \<and> inject_queue v = inject_queue w \<and>
     loop_states v = loop_states w \<and> runtime_tasks v = runtime_tasks w \<and> id_source v = id_source w \<and>
     id_next w \<le> id_next v"

definition meeting_types :: "string list" where
  "meeting_types = [HARNESS_RESUMED, HARNESS_INJECT_REQUESTED, MEETING_CREATED, MEETING_STARTED, MEETING_ENDED,
     MEETING_CANCELLED, MEETING_PARTICIPANT_NO_INSTANCE, MEETING_PARTICIPANT_WAKE_FAILED]"

definition meeting_handlers :: "'z world_scheme handlers \<Rightarrow> bool" where
  "meeting_handlers hs = handlers_respect meeting_frame (\<lambda>e. ev_type e \<in> set meeting_types) hs"

lemma meeting_frame_order: "reflp meeting_frame" "transp meeting_frame"
  by (auto simp: meeting_frame_def reflp_def transp_def)

lemma emit_meeting_frame:
  "meeting_handlers hs \<Longrightarrow> ea_type a \<in> set meeting_types \<Longrightarrow> meeting_frame w (fst (emit hs now a w))"
  unfolding meeting_handlers_def
  by (rule emit_respects [OF meeting_frame_order, of "\<lambda>e. ev_type e \<in> set meeting_types"])
    (auto simp: meeting_frame_def take_id_def)

text \<open>The supervisor's own handler is one of them.\<close>

lemma meeting_types_ignored:
  "ev_type e \<in> set meeting_types \<Longrightarrow> fst (on_harness_event hs e w) = w"
  by (cases "resource_id e") (auto simp: on_harness_event_def meeting_types_def event_types more_event_types Let_def)

lemma app_meeting_handlers: "meeting_handlers others \<Longrightarrow> meeting_handlers (app_handlers others)"
  using meeting_frame_order(1)
  by (auto simp: meeting_handlers_def app_handlers_def register_handler_def handlers_respect_def reflp_def
      meeting_types_ignored)

section \<open>The wake matrix\<close>

definition loops_ok :: "'z db_scheme \<Rightarrow> bool" where
  "loops_ok s \<longleftrightarrow> inj (id_source s) \<and> distinct (map row_id (loop_states s)) \<and> row_id ` set (loop_states s) \<subseteq> used_ids s"

definition loop_stat :: "ident \<Rightarrow> 'z db_scheme \<Rightarrow> loop_status_t option" where
  "loop_stat iid s = map_option loop_status (live_loop_state iid s)"

text \<open>Loops only become running, and then with a task; seats, Instances and meetings stay.\<close>

definition wakes :: "'z world_scheme \<Rightarrow> 'z world_scheme \<Rightarrow> bool" where
  "wakes w v \<longleftrightarrow> (loops_ok w \<longrightarrow> loops_ok v \<and>
     (\<forall>iid. loop_stat iid v = loop_stat iid w \<or> (loop_stat iid v = Some L_running \<and> iid \<in> set (runtime_tasks v)))) \<and>
     set (runtime_tasks w) \<subseteq> set (runtime_tasks v) \<and> memberships v = memberships w \<and> instances v = instances w \<and>
     meetings v = meetings w \<and> meeting_participants v = meeting_participants w \<and>
     id_source v = id_source w \<and> id_next w \<le> id_next v"

lemma wakes_refl [simp]: "wakes w w"
  by (simp add: wakes_def)

lemma wakes_trans: "wakes w v \<Longrightarrow> wakes v u \<Longrightarrow> wakes w u"
  unfolding wakes_def by (metis subset_trans subsetD le_trans)

lemma frame_wakes: "meeting_frame w v \<Longrightarrow> wakes w v"
  using used_ids_mono [of v w]
  by (auto simp: wakes_def meeting_frame_def loops_ok_def loop_stat_def live_loop_state_def)

lemma notify_effect:
  assumes "meeting_handlers hs" and "fk_exists (instances w) iid" and "mode \<in> {''soft_inject'', ''wake''}"
  obtains v where "notify_participant hs now m iid mode w = Inr v" "wakes w v"
    "map queue_mark (inject_queue v) = map queue_mark (inject_queue w) @ [(iid, ''collab_inject'')]"
proof -
  have blank: "strip (meeting_tldr m) \<noteq> []"
    by (simp add: meeting_tldr_def strip_def lstrip_def rstrip_def is_space_def Let_def)
  have "length (meeting_tldr m) \<le> 200" by (simp add: meeting_tldr_def)
  then have "is_ok (enqueue_inject hs now iid ''collab_inject'' mode (meeting_payload m) (Some (meeting_tldr m)) w)"
    using assms(2,3) blank enqueue_inject_accepts by fastforce
  then obtain v r where e: "enqueue_inject hs now iid ''collab_inject'' mode (meeting_payload m)
      (Some (meeting_tldr m)) w = Inr (v, r)"
    by (auto elim: is_okE)
  let ?r = "new_inject_row now (new_id w) iid ''collab_inject'' mode (meeting_payload m)"
  let ?w1 = "set_inject (inject_queue w @ [?r]) (take_id w)"
  have v: "v = fst (emit hs now (system_event HARNESS_INJECT_REQUESTED ''instance'' iid
      (queue_payload ?r @ [(''tldr'', opt_json (Some (meeting_tldr m)))])) ?w1)"
    using e by (auto simp: enqueue_inject_def Let_def emit_learning_injected_def new_inject_row_def
        split: sum.splits if_splits)
  have f: "meeting_frame ?w1 v"
    unfolding v by (rule emit_meeting_frame [OF assms(1)]) (simp add: system_event_def meeting_types_def)
  have "wakes w ?w1"
    by (auto simp: wakes_def loops_ok_def loop_stat_def live_loop_state_def set_inject_def take_id_def used_ids_def)
  with frame_wakes [OF f] have "wakes w v" by (rule wakes_trans [rotated])
  moreover have "map queue_mark (inject_queue v) = map queue_mark (inject_queue w) @ [(iid, ''collab_inject'')]"
    using f by (simp add: meeting_frame_def queue_mark_def new_inject_row_def set_inject_def)
  ultimately show thesis using e that by (simp add: notify_participant_def)
qed

text \<open>Resuming a loop: it runs, and the loops of other Instances stay as they were.\<close>

lemma replace_other_loop:
  assumes "distinct (map row_id (loop_states s))" and "live_loop_state iid s = Some st"
    and "row_id st' = row_id st" and "ls_instance_id st' = iid" and "jid \<noteq> iid"
  shows "live_loop_state jid (replace_loop_state st' s) = live_loop_state jid s"
proof -
  have st: "st \<in> set (loop_states s)" "ls_instance_id st = iid"
    using assms(2) by (auto simp: live_loop_state_def dest: first_where_SomeD)
  have "first_where (\<lambda>r. ls_instance_id r = jid \<and> live r) (update_where (\<lambda>r. row_id r = row_id st) (\<lambda>_. st') rows) =
      first_where (\<lambda>r. ls_instance_id r = jid \<and> live r) rows" if "set rows \<subseteq> set (loop_states s)" for rows
    using that
  proof (induction rows)
    case (Cons r rows)
    have "r = st" if "row_id r = row_id st"
      using assms(1) st(1) Cons.prems that by (auto simp: distinct_map dest: inj_onD)
    then show ?case using Cons st(2) assms(4,5) by auto
  qed simp
  then show ?thesis using assms(3) by (simp add: live_loop_state_def replace_loop_state_def)
qed

text \<open>What does not concern the loop of one Instance.\<close>

definition others_kept :: "ident \<Rightarrow> 'z world_scheme \<Rightarrow> 'z world_scheme \<Rightarrow> bool" where
  "others_kept iid w v \<longleftrightarrow> (loops_ok w \<longrightarrow> loops_ok v \<and> (\<forall>jid. jid \<noteq> iid \<longrightarrow> loop_stat jid v = loop_stat jid w)) \<and>
     runtime_tasks v = runtime_tasks w \<and> memberships v = memberships w \<and> instances v = instances w \<and>
     meetings v = meetings w \<and> meeting_participants v = meeting_participants w \<and> inject_queue v = inject_queue w \<and>
     id_source v = id_source w \<and> id_next w \<le> id_next v"

lemma ensure_effect:
  assumes "ensure_loop_state now iid w = (v, st)"
  shows "others_kept iid w v" and "live_loop_state iid v = Some st"
proof -
  show "live_loop_state iid v = Some st"
    using assms by (auto simp: ensure_loop_state_def live_loop_state_def first_where_append new_loop_state_def live_def
        Let_def split: option.splits)
  show "others_kept iid w v"
  proof (cases "live_loop_state iid w")
    case None
    let ?st = "new_loop_state now (new_id w) iid"
    have v: "v = (take_id w)\<lparr>loop_states := loop_states w @ [?st]\<rparr>"
      using None assms by (auto simp: ensure_loop_state_def Let_def)
    have "loops_ok v" if "loops_ok w"
    proof -
      have "new_id w \<notin> row_id ` set (loop_states w)" using that new_id_fresh [of w] by (auto simp: loops_ok_def)
      moreover have "used_ids v = insert (new_id w) (used_ids w)"
        unfolding v by (simp add: used_ids_def take_id_def new_id_def lessThan_Suc)
      ultimately show ?thesis using that by (auto simp: v loops_ok_def new_loop_state_def)
    qed
    then show ?thesis
      by (auto simp: others_kept_def loop_stat_def live_loop_state_def first_where_append new_loop_state_def v take_id_def
          split: option.splits)
  qed (use assms in \<open>auto simp: ensure_loop_state_def others_kept_def\<close>)
qed

lemma replace_effect:
  assumes "live_loop_state iid w = Some st" and "row_id st' = row_id st" and "ls_instance_id st' = iid" and "live st'"
  shows "others_kept iid w (replace_loop_state st' w)" and "live_loop_state iid (replace_loop_state st' w) = Some st'"
proof -
  have ids: "map row_id (loop_states (replace_loop_state st' w)) = map row_id (loop_states w)"
    by (simp add: replace_loop_state_def map_update_where)
  have "distinct (map row_id (loop_states w)) \<Longrightarrow> jid \<noteq> iid \<Longrightarrow>
      live_loop_state jid (replace_loop_state st' w) = live_loop_state jid w" for jid
    by (rule replace_other_loop [OF _ assms(1-3)])
  moreover have "row_id ` set (loop_states (replace_loop_state st' w)) = row_id ` set (loop_states w)"
    using arg_cong [OF ids, of set] by simp
  ultimately show "others_kept iid w (replace_loop_state st' w)"
    using ids by (simp add: others_kept_def loops_ok_def loop_stat_def replace_loop_state_def used_ids_def)
  show "live_loop_state iid (replace_loop_state st' w) = Some st'"
    by (rule live_loop_state_replace) (use assms in auto)
qed

lemma others_kept_trans: "others_kept iid w v \<Longrightarrow> others_kept iid v u \<Longrightarrow> others_kept iid w u"
  by (auto simp: others_kept_def)

lemma frame_others: "meeting_frame w v \<Longrightarrow> others_kept iid w v"
  using used_ids_mono [of v w]
  by (auto simp: others_kept_def meeting_frame_def loops_ok_def loop_stat_def live_loop_state_def)

lemma started_wakes:
  assumes "others_kept iid w v" and "loop_stat iid v = Some L_running"
  shows "wakes w (fst (start_runtime_for iid v)) \<and> loop_stat iid (fst (start_runtime_for iid v)) = Some L_running \<and>
    iid \<in> set (runtime_tasks (fst (start_runtime_for iid v))) \<and>
    inject_queue (fst (start_runtime_for iid v)) = inject_queue w"
proof -
  let ?u = "fst (start_runtime_for iid v)"
  have "loop_stat jid ?u = loop_stat jid v" "loops_ok ?u = loops_ok v" for jid
    by (simp_all add: start_runtime_for_def loop_stat_def live_loop_state_def loops_ok_def used_ids_def)
  moreover have "set (runtime_tasks ?u) = insert iid (set (runtime_tasks v))" by (auto simp: start_runtime_for_def)
  moreover have "memberships ?u = memberships v" "instances ?u = instances v" "meetings ?u = meetings v"
    "meeting_participants ?u = meeting_participants v" "inject_queue ?u = inject_queue v"
    "id_source ?u = id_source v" "id_next ?u = id_next v"
    by (simp_all add: start_runtime_for_def)
  ultimately show ?thesis using assms unfolding wakes_def others_kept_def by (metis insertI1 subset_insertI)
qed

lemma resume_effect:
  assumes "meeting_handlers hs"
  obtains v st where "handle_resume hs now iid (fst (ensure_loop_state now iid w)) = Inr (v, st)"
    "wakes w (fst (start_runtime_for iid v))" "loop_stat iid (fst (start_runtime_for iid v)) = Some L_running"
    "iid \<in> set (runtime_tasks (fst (start_runtime_for iid v)))"
    "inject_queue (fst (start_runtime_for iid v)) = inject_queue w"
proof -
  obtain w1 st where w1: "ensure_loop_state now iid w = (w1, st)" by fastforce
  let ?st = "modified now st (st\<lparr>loop_status := L_running\<rparr>)"
  let ?w2 = "replace_loop_state ?st w1"
  let ?v = "fst (emit hs now (system_event HARNESS_RESUMED ''instance'' iid []) ?w2)"
  note e = ensure_effect [OF w1]
  have st: "row_id ?st = row_id st" "ls_instance_id ?st = iid" "live ?st" "loop_status ?st = L_running"
    using live_loop_stateD [OF e(2)] by (simp_all add: modified_field touch_def live_def)
  note r = replace_effect [OF e(2) st(1-3)]
  have f: "meeting_frame ?w2 ?v"
    by (rule emit_meeting_frame [OF assms]) (simp add: system_event_def meeting_types_def)
  have kept: "others_kept iid w ?v"
    using others_kept_trans [OF others_kept_trans [OF e(1) r(1)] frame_others [OF f]] .
  have run: "loop_stat iid ?v = Some L_running"
    using f r(2) st(4) by (simp add: loop_stat_def live_loop_state_def meeting_frame_def)
  have "handle_resume hs now iid w1 = Inr (?v, ?st)"
    using e(2) by (simp add: handle_resume_def set_loop_status_def get_state_or_404_def Let_def)
  with w1 show thesis using started_wakes [OF kept run] by (intro that [of ?v ?st]) auto
qed

text \<open>The Instance a participant stands for, if its seat and the Instance are live, and who is resumed.\<close>

definition participant_instance :: "meeting_participant \<Rightarrow> 'z db_scheme \<Rightarrow> instance_row option" where
  "participant_instance p s =
     Option.bind (get_live (memberships s) (mp_membership_id p)) (\<lambda>m. Option.bind (mem_instance_id m) (get_live (instances s)))"

definition to_resume :: "instance_row \<Rightarrow> 'z db_scheme \<Rightarrow> bool" where
  "to_resume i s \<longleftrightarrow> loop_stat (row_id i) s \<in> set (map Some RESUME_LOOP_STATUSES) \<or> ins_status i = I_pending"

definition called :: "'z db_scheme \<Rightarrow> meeting_participant \<Rightarrow> (ident \<times> string) list" where
  "called s p = (case participant_instance p s of None \<Rightarrow> [] | Some i \<Rightarrow> [(row_id i, ''collab_inject'')])"

definition awake :: "ident \<Rightarrow> 'z world_scheme \<Rightarrow> bool" where
  "awake iid w \<longleftrightarrow> loop_stat iid w = Some L_running \<and> iid \<in> set (runtime_tasks w)"

lemma wakes_called: "wakes w v \<Longrightarrow> called v = called w \<and> participant_instance p v = participant_instance p w"
  by (auto simp: wakes_def called_def participant_instance_def)

lemma awake_mono: "wakes w v \<Longrightarrow> loops_ok w \<Longrightarrow> awake iid w \<Longrightarrow> awake iid v"
  unfolding wakes_def awake_def by (metis subsetD)

lemma wake_effect:
  assumes "meeting_handlers hs"
  obtains v where "wake_participant hs now m p w = Inr v" "wakes w v"
    "map queue_mark (inject_queue v) = map queue_mark (inject_queue w) @ called w p"
    "\<And>i. participant_instance p w = Some i \<Longrightarrow> to_resume i w \<Longrightarrow> loops_ok w \<Longrightarrow> awake (row_id i) v"
proof (cases "get_live (memberships w) (mp_membership_id p)")
  case None
  then show thesis using that [of w] by (simp add: wake_participant_def called_def participant_instance_def)
next
  case (Some seat)
  show thesis
  proof (cases "participant_instance p w")
    case None
    let ?v = "emit_no_instance hs now m p w"
    have f: "meeting_frame w ?v" unfolding emit_no_instance_def
      by (rule emit_meeting_frame [OF assms]) (simp add: system_event_def meeting_types_def)
    from frame_wakes [OF f] f None Some show thesis
      using that [of ?v] by (simp add: wake_participant_def called_def participant_instance_def meeting_frame_def)
  next
    case i: (Some i)
    have fk: "fk_exists (instances w) (row_id i)"
      using i by (auto simp: participant_instance_def fk_exists_def list_ex_iff split: bind_splits dest: get_live_SomeD)
    let ?both = "ins_status i = I_running \<and> loop_stat (row_id i) w = Some L_running"
    note unfold = wake_participant_def participant_instance_def to_resume_def loop_stat_def Let_def
    have soft: "?both \<Longrightarrow> wake_participant hs now m p w = notify_participant hs now m (row_id i) ''soft_inject'' w"
      using Some i by (auto simp add: unfold simp del: map_option_eq_Some)
    have resume: "wake_participant hs now m p w =
        notify_participant hs now m (row_id i) ''wake'' (fst (start_runtime_for (row_id i) v1))"
      if "\<not> ?both" "to_resume i w"
        "handle_resume hs now (row_id i) (fst (ensure_loop_state now (row_id i) w)) = Inr (v1, st)" for v1 st
      using Some i that by (auto simp add: unfold simp del: map_option_eq_Some)
    have plain: "\<not> ?both \<Longrightarrow> \<not> to_resume i w \<Longrightarrow>
        wake_participant hs now m p w = notify_participant hs now m (row_id i) ''wake'' w"
      using Some i by (auto simp add: unfold simp del: map_option_eq_Some)
    have called: "called w p = [(row_id i, ''collab_inject'')]" using i by (simp add: called_def)
    have excl: "?both \<Longrightarrow> \<not> to_resume i w" by (auto simp: to_resume_def RESUME_LOOP_STATUSES_def)
    show thesis
    proof (cases "to_resume i w")
      case True
      from resume_effect [OF assms, of now "row_id i" w] obtain v1 st where
        v1: "handle_resume hs now (row_id i) (fst (ensure_loop_state now (row_id i) w)) = Inr (v1, st)"
        and k: "wakes w (fst (start_runtime_for (row_id i) v1))" "awake (row_id i) (fst (start_runtime_for (row_id i) v1))"
          "inject_queue (fst (start_runtime_for (row_id i) v1)) = inject_queue w"
        unfolding awake_def by blast
      have "fk_exists (instances (fst (start_runtime_for (row_id i) v1))) (row_id i)" using fk k(1) by (simp add: wakes_def)
      from notify_effect [OF assms this, of "''wake''" now m] obtain v where
        v: "notify_participant hs now m (row_id i) ''wake'' (fst (start_runtime_for (row_id i) v1)) = Inr v"
          "wakes (fst (start_runtime_for (row_id i) v1)) v"
          "map queue_mark (inject_queue v) =
             map queue_mark (inject_queue (fst (start_runtime_for (row_id i) v1))) @ [(row_id i, ''collab_inject'')]"
        by auto
      have "awake (row_id i) v" if "loops_ok w"
      proof -
        have "loops_ok (fst (start_runtime_for (row_id i) v1))" using k(1) that by (simp add: wakes_def)
        from awake_mono [OF v(2) this k(2)] show ?thesis .
      qed
      moreover have "wake_participant hs now m p w = Inr v" using resume [OF _ True v1] excl True v(1) by auto
      ultimately show thesis using that wakes_trans [OF k(1) v(2)] v(3) k(3) called i by auto
    next
      case False
      obtain mode where mode: "mode \<in> {''soft_inject'', ''wake''}"
        "wake_participant hs now m p w = notify_participant hs now m (row_id i) mode w"
        using soft plain False by blast
      from notify_effect [OF assms fk mode(1), of now m] obtain v where
        "notify_participant hs now m (row_id i) mode w = Inr v" "wakes w v"
        "map queue_mark (inject_queue v) = map queue_mark (inject_queue w) @ [(row_id i, ''collab_inject'')]"
        by auto
      with mode(2) called False i that show thesis by auto
    qed
  qed
qed

lemma wake_all:
  assumes "meeting_handlers hs"
  shows "\<exists>v. wake_meeting_participants hs now m ps w = Inr v \<and> wakes w v \<and>
    map queue_mark (inject_queue v) = map queue_mark (inject_queue w) @ concat (map (called w) ps) \<and>
    (loops_ok w \<longrightarrow> (\<forall>p \<in> set ps. \<forall>i. participant_instance p w = Some i \<longrightarrow> to_resume i w \<longrightarrow> awake (row_id i) v))"
proof (induction ps arbitrary: w)
  case (Cons p ps)
  from wake_effect [OF assms, of now m p w] obtain u where
    u: "wake_participant hs now m p w = Inr u" "wakes w u"
      "map queue_mark (inject_queue u) = map queue_mark (inject_queue w) @ called w p"
      "\<And>i. participant_instance p w = Some i \<Longrightarrow> to_resume i w \<Longrightarrow> loops_ok w \<Longrightarrow> awake (row_id i) u"
    by blast
  have ok: "loops_ok w \<Longrightarrow> loops_ok u" using u(2) by (auto simp: wakes_def)
  from Cons.IH [of u] obtain v where
    v: "wake_meeting_participants hs now m ps u = Inr v" "wakes u v"
      "map queue_mark (inject_queue v) = map queue_mark (inject_queue u) @ concat (map (called u) ps)"
      "loops_ok u \<longrightarrow> (\<forall>p \<in> set ps. \<forall>i. participant_instance p u = Some i \<longrightarrow> to_resume i u \<longrightarrow> awake (row_id i) v)"
    by blast
  have "awake (row_id i) v" if l: "loops_ok w" and "q \<in> set (p # ps)" and i: "participant_instance q w = Some i" "to_resume i w" for q i
  proof (cases "awake (row_id i) u")
    case True
    then show ?thesis by (rule awake_mono [OF v(2) ok [OF l]])
  next
    case False
    with u(4) i that(2) l have "q \<in> set ps" by auto
    moreover have "loop_stat (row_id i) u = loop_stat (row_id i) w"
      using False u(2) l by (auto simp: wakes_def awake_def)
    ultimately show ?thesis using v(4) i ok [OF l] wakes_called [OF u(2)] by (auto simp: to_resume_def)
  qed
  then show ?case
    using u(1,3) v(1,3) wakes_trans [OF u(2) v(2)] wakes_called [OF u(2)] by auto
qed simp

text \<open>
  C28. Starting a scheduled meeting never fails once it is permitted, whatever its title and its
  participants: each participant whose seat and Instance are live gets exactly one inject, in order,
  nobody else gets one, and every loop that was paused, stopped or of a pending Instance runs
  afterwards and has a runtime task.
\<close>

theorem start_meeting_wakes:
  assumes "meeting_handlers hs" and "loops_ok w" and "begin_action i uid x_org [M_scheduled] w = Inr m"
  shows "\<exists>v m' ps. start_meeting hs now i uid x_org w = Inr (v, (m', ps)) \<and> mt_status m' = M_active \<and>
    ps = participants_for (row_id m) w \<and>
    map queue_mark (inject_queue v) = map queue_mark (inject_queue w) @ concat (map (called w) ps) \<and>
    (\<forall>p \<in> set ps. \<forall>j. participant_instance p w = Some j \<longrightarrow> to_resume j w \<longrightarrow> awake (row_id j) v)"
proof -
  let ?m = "touch now (m\<lparr>mt_status := M_active\<rparr>)"
  let ?w = "replace_meeting ?m w" and ?ps = "participants_for (row_id m) w"
  have same: "loops_ok ?w = loops_ok w" "called ?w = called w" "participant_instance p ?w = participant_instance p w"
    "to_resume j ?w = to_resume j w" "inject_queue ?w = inject_queue w" "participants_for (row_id m) ?w = ?ps" for p j
    by (simp_all add: replace_meeting_def loops_ok_def called_def [abs_def] participant_instance_def to_resume_def
        loop_stat_def live_loop_state_def used_ids_def participants_for_def)
  have ok: "loops_ok ?w" using same(1) assms(2) by simp
  from wake_all [OF assms(1), of now ?m ?ps ?w] ok obtain u where
    u: "wake_meeting_participants hs now ?m ?ps ?w = Inr u"
      "map queue_mark (inject_queue u) = map queue_mark (inject_queue w) @ concat (map (called w) ?ps)"
      "\<forall>p \<in> set ?ps. \<forall>j. participant_instance p w = Some j \<longrightarrow> to_resume j w \<longrightarrow> awake (row_id j) u"
    unfolding same by blast
  let ?a = "meeting_event MEETING_STARTED uid (row_id m)
    [(''participant_count'', JInt (int (length ?ps))), (''scheduled_at'', JStr (isoformat (scheduled_at ?m)))]"
  have "meeting_frame u (fst (emit hs now ?a u))"
    by (rule emit_meeting_frame [OF assms(1)]) (simp add: meeting_event_def meeting_types_def)
  then have f: "inject_queue (fst (emit hs now ?a u)) = inject_queue u" "awake j (fst (emit hs now ?a u)) = awake j u" for j
    by (simp_all add: meeting_frame_def awake_def loop_stat_def live_loop_state_def)
  have "start_meeting hs now i uid x_org w = Inr (fst (emit hs now ?a u), (?m, ?ps))"
    using assms(3) u(1) same(6) by (simp add: start_meeting_def Let_def)
  moreover have "mt_status ?m = M_active" by (simp add: touch_def)
  ultimately show ?thesis using u(2,3) f by auto
qed

section \<open>Life cycle\<close>

text \<open>The requests that change meetings, and what they may do to the table.\<close>

inductive meeting_step :: "'z world_scheme handlers \<Rightarrow> 'z world_scheme \<Rightarrow> 'z world_scheme \<Rightarrow> bool"
  for hs :: "'z world_scheme handlers" where
  ms_create: "create_meeting hs now b uid x_org w = Inr (v, out) \<Longrightarrow> meeting_step hs w v"
| ms_start: "start_meeting hs now i uid x_org w = Inr (v, out) \<Longrightarrow> meeting_step hs w v"
| ms_end: "end_meeting hs now i uid x_org w = Inr (v, out) \<Longrightarrow> meeting_step hs w v"
| ms_cancel: "cancel_meeting hs now i uid x_org w = Inr (v, out) \<Longrightarrow> meeting_step hs w v"

fun may_become :: "meeting_status \<Rightarrow> meeting_status \<Rightarrow> bool" where
  "may_become M_scheduled t = True"
| "may_become M_active t = (t \<noteq> M_scheduled)"
| "may_become M_ended t = (t = M_ended)"
| "may_become M_cancelled t = (t = M_cancelled)"

definition meeting_ok :: "meeting \<Rightarrow> bool" where
  "meeting_ok m \<longleftrightarrow> (ended_at m \<noteq> None \<longleftrightarrow> mt_status m = M_ended)"

definition follows :: "meeting \<Rightarrow> meeting \<Rightarrow> bool" where
  "follows m m' \<longleftrightarrow> row_id m' = row_id m \<and> may_become (mt_status m) (mt_status m') \<and>
     mt_workspace_id m' = mt_workspace_id m \<and> mt_title m' = mt_title m \<and> created_by_user_id m' = created_by_user_id m \<and>
     (meeting_ok m \<longrightarrow> meeting_ok m')"

lemma follows_refl [simp]: "follows m m"
  by (cases "mt_status m") (simp_all add: follows_def)

lemma may_become_trans: "may_become a b \<Longrightarrow> may_become b c \<Longrightarrow> may_become a c"
  by (cases a; cases b; cases c) auto

lemma follows_trans: "follows a b \<Longrightarrow> follows b c \<Longrightarrow> follows a c"
  using may_become_trans by (auto simp: follows_def)

text \<open>Every row stays in its place and follows its former self; the new rows are consistent.\<close>

definition meetings_advance :: "meeting list \<Rightarrow> meeting list \<Rightarrow> bool" where
  "meetings_advance ms ms' \<longleftrightarrow> (\<exists>old new. ms' = old @ new \<and> list_all2 follows ms old \<and> list_all meeting_ok new)"

lemma advance_refl [simp]: "meetings_advance ms ms"
  unfolding meetings_advance_def by (rule exI [of _ ms]) (simp add: list_all2_same)

lemma advance_trans:
  assumes "meetings_advance a b" and "meetings_advance b c"
  shows "meetings_advance a c"
proof -
  obtain o1 n1 where b: "b = o1 @ n1" "list_all2 follows a o1" "list_all meeting_ok n1"
    using assms(1) by (auto simp: meetings_advance_def)
  obtain o2 n2 where c: "c = o2 @ n2" "list_all2 follows b o2" "list_all meeting_ok n2"
    using assms(2) by (auto simp: meetings_advance_def)
  obtain oa on where o2: "o2 = oa @ on" "list_all2 follows o1 oa" "list_all2 follows n1 on"
    using c(2) b(1) by (auto simp: list_all2_append1)
  have "list_all meeting_ok on"
    using o2(3) b(3) by (induction rule: list_all2_induct) (auto simp: follows_def)
  moreover have "list_all2 follows a oa" using list_all2_trans [OF follows_trans b(2) o2(2)] .
  ultimately show ?thesis using c o2(1) unfolding meetings_advance_def by (intro exI [of _ oa] exI [of _ "on @ n2"]) simp
qed

lemma advance_replace:
  assumes "\<And>r. r \<in> set (meetings s) \<Longrightarrow> row_id r = row_id m \<Longrightarrow> follows r m"
  shows "meetings_advance (meetings s) (meetings (replace_meeting m s))"
proof -
  have "list_all2 follows rows (update_where (\<lambda>r. row_id r = row_id m) (\<lambda>_. m) rows)"
    if "set rows \<subseteq> set (meetings s)" for rows
    using that assms by (induction rows) auto
  then show ?thesis unfolding meetings_advance_def replace_meeting_def
    by (intro exI [of _ "update_where (\<lambda>r. row_id r = row_id m) (\<lambda>_. m) (meetings s)"] exI [of _ "[]"]) simp
qed

lemma begin_actionD:
  assumes "begin_action i uid x_org allowed s = Inr m"
  shows "m \<in> set (meetings s) \<and> row_id m = i \<and> live m \<and> mt_status m \<in> set allowed"
proof -
  have "filter (\<lambda>m. row_id m = i \<and> live m) (meetings s) = [m]"
    using assms by (auto simp: begin_action_def get_meeting_or_404_def require_transition_def
        split: sum.splits option.splits if_splits dest: scalar_one_SomeD)
  then have "m \<in> set (filter (\<lambda>m. row_id m = i \<and> live m) (meetings s))" by simp
  then show ?thesis using assms
    by (auto simp: begin_action_def require_transition_def split: sum.splits if_splits)
qed

lemma add_participant_frame:
  "meetings (add_participant now i x s) = meetings s"
  "id_source (add_participant now i x s) = id_source s"
  "id_next s \<le> id_next (add_participant now i x s)"
  by (simp_all add: add_participant_def take_id_def)

lemma fold_participants:
  "meetings (fold (add_participant now i) seats s) = meetings s \<and>
   id_source (fold (add_participant now i) seats s) = id_source s \<and>
   id_next s \<le> id_next (fold (add_participant now i) seats s)"
proof (induction seats arbitrary: s)
  case (Cons x seats)
  note f = add_participant_frame [where now = now and i = i and x = x and s = s]
  note r = Cons [of "add_participant now i x s"]
  from r f le_trans [OF f(3) r [THEN conjunct2, THEN conjunct2]] show ?case by (simp only: fold_simps)
qed simp

text \<open>A request adds a fresh row or replaces one by a row that follows it.\<close>

lemma meeting_step_effect:
  assumes "meeting_handlers hs" and "meeting_step hs w v"
  shows "id_source v = id_source w \<and> id_next w \<le> id_next v \<and>
    ((\<exists>now b uid. meetings v = meetings w @ [new_meeting (new_id w) now b uid] \<and> id_next w < id_next v) \<or>
     (\<exists>m m'. m \<in> set (meetings w) \<and> follows m m' \<and> meetings v = meetings (replace_meeting m' w)))"
proof -
  have frame: "meetings (fst (emit hs now a u)) = meetings u" "id_source (fst (emit hs now a u)) = id_source u"
    "id_next u \<le> id_next (fst (emit hs now a u))"
    if "ea_type a \<in> set meeting_types" for now a u
    using emit_meeting_frame [OF assms(1) that] by (simp_all add: meeting_frame_def)
  have replaced: "id_source (replace_meeting m u) = id_source u" "id_next (replace_meeting m u) = id_next u" for m u
    by (simp_all add: replace_meeting_def)
  show ?thesis
    using assms(2)
  proof (cases rule: meeting_step.cases)
    case (ms_create now b uid x_org out)
    let ?seats = "first_occurrences (mtc_participants b)"
    let ?m = "new_meeting (new_id w) now b uid"
    let ?u = "fold (add_participant now (row_id ?m)) ?seats ((take_id w)\<lparr>meetings := meetings w @ [?m]\<rparr>)"
    let ?a = "meeting_event MEETING_CREATED uid (row_id ?m)
      [(''workspace_id'', JStr (mt_workspace_id ?m)), (''title'', JStr (mt_title ?m)),
       (''participant_count'', JInt (int (length ?seats)))]"
    have v: "v = fst (emit hs now ?a ?u)"
      using ms_create by (auto simp: create_meeting_def Let_def split: sum.splits if_splits)
    have "ea_type ?a \<in> set meeting_types" by (simp add: meeting_event_def meeting_types_def)
    from frame [OF this, where now = now and u = ?u] have "meetings v = meetings w @ [?m]" "id_source v = id_source w"
      "id_next (take_id w) \<le> id_next v"
      using fold_participants [where now = now and i = "row_id ?m" and seats = ?seats and s = "(take_id w)\<lparr>meetings := meetings w @ [?m]\<rparr>"]
      by (simp_all add: v)
    then show ?thesis by (auto simp: take_id_def)
  next
    case (ms_start now i uid x_org out)
    then obtain m where m: "begin_action i uid x_org [M_scheduled] w = Inr m"
      by (auto simp: start_meeting_def split: sum.splits)
    let ?m = "touch now (m\<lparr>mt_status := M_active\<rparr>)"
    let ?ps = "participants_for (row_id m) (replace_meeting ?m w)"
    obtain u where u: "wake_meeting_participants hs now ?m ?ps (replace_meeting ?m w) = Inr u"
        "wakes (replace_meeting ?m w) u"
      using wake_all [OF assms(1)] by blast
    let ?a = "meeting_event MEETING_STARTED uid (row_id m)
      [(''participant_count'', JInt (int (length ?ps))), (''scheduled_at'', JStr (isoformat (scheduled_at ?m)))]"
    have v: "v = fst (emit hs now ?a u)" using ms_start m u by (simp add: start_meeting_def Let_def)
    have "ea_type ?a \<in> set meeting_types" by (simp add: meeting_event_def meeting_types_def)
    from frame [OF this, where now = now and u = u] u(2)
    have "meetings v = meetings (replace_meeting ?m w)" "id_source v = id_source w" "id_next w \<le> id_next v"
      by (auto simp: v wakes_def replaced)
    moreover have "m \<in> set (meetings w) \<and> follows m ?m"
      using begin_actionD [OF m] by (simp add: follows_def meeting_ok_def touch_def)
    ultimately show ?thesis by blast
  next
    case (ms_end now i uid x_org out)
    let ?fin = "\<lambda>m. touch now (m\<lparr>mt_status := M_ended, ended_at := Some now\<rparr>)"
    obtain m where m: "begin_action i uid x_org [M_active] w = Inr m"
      and v: "v = fst (finish_meeting hs now MEETING_ENDED (?fin m) uid w)"
      using ms_end by (auto simp: end_meeting_def split: sum.splits)
    have "m \<in> set (meetings w) \<and> follows m (?fin m)"
      using begin_actionD [OF m] by (simp add: follows_def meeting_ok_def touch_def)
    then show ?thesis
      using frame [where a = "meeting_event MEETING_ENDED uid (row_id (?fin m)) []" and now = now and
          u = "replace_meeting (?fin m) w"]
      by (auto simp: v finish_meeting_def Let_def meeting_event_def meeting_types_def replaced)
  next
    case (ms_cancel now i uid x_org out)
    let ?fin = "\<lambda>m. touch now (m\<lparr>mt_status := M_cancelled\<rparr>)"
    obtain m where m: "begin_action i uid x_org [M_scheduled, M_active] w = Inr m"
      and v: "v = fst (finish_meeting hs now MEETING_CANCELLED (?fin m) uid w)"
      using ms_cancel by (auto simp: cancel_meeting_def split: sum.splits)
    have "m \<in> set (meetings w) \<and> follows m (?fin m)"
      using begin_actionD [OF m] by (auto simp: follows_def meeting_ok_def touch_def)
    then show ?thesis
      using frame [where a = "meeting_event MEETING_CANCELLED uid (row_id (?fin m)) []" and now = now and
          u = "replace_meeting (?fin m) w"]
      by (auto simp: v finish_meeting_def Let_def meeting_event_def meeting_types_def replaced)
  qed
qed

definition meeting_ids :: "'z db_scheme \<Rightarrow> bool" where
  "meeting_ids s \<longleftrightarrow> inj (id_source s) \<and> distinct (map row_id (meetings s)) \<and> row_id ` set (meetings s) \<subseteq> used_ids s"

lemma meeting_step_ids:
  assumes "meeting_handlers hs" and "meeting_step hs w v" and "meeting_ids w"
  shows "meeting_ids v"
proof -
  from meeting_step_effect [OF assms(1,2)] have ids: "id_source v = id_source w" "id_next w \<le> id_next v"
    and change: "(\<exists>now b uid. meetings v = meetings w @ [new_meeting (new_id w) now b uid] \<and> id_next w < id_next v) \<or>
      (\<exists>m m'. m \<in> set (meetings w) \<and> follows m m' \<and> meetings v = meetings (replace_meeting m' w))" by blast+
  have used: "used_ids w \<subseteq> used_ids v" using ids by (rule used_ids_mono)
  from change show ?thesis
  proof (elim disjE exE conjE)
    fix now b uid assume v: "meetings v = meetings w @ [new_meeting (new_id w) now b uid]" "id_next w < id_next v"
    have "new_id w \<notin> used_ids w" using assms(3) by (intro new_id_fresh) (simp add: meeting_ids_def)
    moreover have "new_id w \<in> used_ids v" using v(2) ids by (simp add: used_ids_def new_id_def)
    ultimately show ?thesis using v(1) used assms(3) ids by (auto simp: meeting_ids_def new_meeting_def)
  next
    fix m m' assume v: "meetings v = meetings (replace_meeting m' w)"
    have "map row_id (update_where (\<lambda>r. row_id r = row_id m') (\<lambda>_. m') rows) = map row_id rows" for rows
      by (induction rows) auto
    with v have "map row_id (meetings v) = map row_id (meetings w)" by (simp add: replace_meeting_def)
    then show ?thesis using used assms(3) ids unfolding meeting_ids_def by (metis image_set subset_trans)
  qed
qed

lemma meeting_step_advance:
  assumes "meeting_handlers hs" and "meeting_step hs w v" and "meeting_ids w"
  shows "meetings_advance (meetings w) (meetings v)"
proof -
  from meeting_step_effect [OF assms(1,2)] consider
    (new) now b uid where "meetings v = meetings w @ [new_meeting (new_id w) now b uid]" |
    (changed) m m' where "m \<in> set (meetings w)" "follows m m'" "meetings v = meetings (replace_meeting m' w)" by blast
  then show ?thesis
  proof cases
    case new
    then show ?thesis unfolding meetings_advance_def
      by (intro exI [of _ "meetings w"] exI) (auto simp: list_all2_same new_meeting_def meeting_ok_def)
  next
    case changed
    have "r = m" if "r \<in> set (meetings w)" "row_id r = row_id m'" for r
      using assms(3) changed(1,2) that by (auto simp: meeting_ids_def distinct_map follows_def dest: inj_onD)
    then have "meetings_advance (meetings w) (meetings (replace_meeting m' w))"
      using changed(2) by (intro advance_replace) blast
    then show ?thesis by (simp add: changed(3))
  qed
qed

text \<open>
  Whatever requests are made, a meeting keeps its place, its Workspace, its title and its author,
  only goes from scheduled to active and from these to ended or cancelled, never back; it has an end
  time exactly when it ended, and new meetings are added behind with fresh ids.
\<close>

theorem meeting_lifecycle:
  assumes "meeting_handlers hs" and "(meeting_step hs)\<^sup>*\<^sup>* w v" and "meeting_ids w"
  shows "meetings_advance (meetings w) (meetings v) \<and> meeting_ids v"
  using assms(2)
proof (induction rule: rtranclp_induct)
  case base
  then show ?case using assms(3) by simp
next
  case (step u v)
  then show ?case
    using meeting_step_advance [OF assms(1) step(2)] meeting_step_ids [OF assms(1) step(2)]
    by (blast intro: advance_trans)
qed

section \<open>A meeting to evaluate on\<close>

text \<open>A scheduled meeting whose only participant, the Instance \<open>x\<close>, has a paused loop.\<close>

definition sample_meeting :: meeting where
  "sample_meeting = (new_meeting ''ii'' 1
     \<lparr>mtc_workspace_id = ''w'', mtc_title = ''Plan'', mtc_agenda = None, mtc_scheduled_at = 2, mtc_participants = [''n'']\<rparr> ''u'')"

definition meeting_store :: process where
  "meeting_store = governed_store\<lparr>users := [sample_user\<lparr>is_super_admin := True\<rparr>],
     loop_states := [sample_loop\<lparr>row_id := ''i'', loop_status := L_paused\<rparr>], meetings := [sample_meeting],
     meeting_participants := [\<lparr>row_id = ''q'', created_at = 1, updated_at = 1, deleted_at = None,
       mp_meeting_id = ''ii'', mp_membership_id = ''n'', role_in_meeting = None\<rparr>], id_next := 2\<rparr>"

lemma no_handlers: "meeting_handlers (app_handlers [])"
  by (rule app_meeting_handlers) (simp add: meeting_handlers_def handlers_respect_def)

lemma meeting_store_ok: "loops_ok meeting_store" "meeting_ids meeting_store"
proof -
  have "id_source meeting_store = sample_ids"
    by (simp add: meeting_store_def governed_store_def routing_store_def sample_process_def db.defs world.defs
        process.defs empty_db_def)
  moreover have "id_next meeting_store = 2"
    "map row_id (loop_states meeting_store) = [''i'']" "map row_id (meetings meeting_store) = [''ii'']"
    by code_simp+
  moreover have "''i'' = sample_ids 0" "''ii'' = sample_ids 1" by code_simp+
  then have "''i'' \<in> sample_ids ` {..<2}" "''ii'' \<in> sample_ids ` {..<2}" by auto
  ultimately show "loops_ok meeting_store" "meeting_ids meeting_store"
    using sample_ids_ok(1) unfolding loops_ok_def meeting_ids_def used_ids_def by auto
qed

lemma start_meeting_wakes_witness:
  "\<exists>v m' ps. start_meeting (app_handlers []) 3 ''ii'' ''u'' None meeting_store = Inr (v, (m', ps)) \<and>
     map queue_mark (inject_queue v) = [(''x'', ''collab_inject'')] \<and> awake ''x'' v"
proof -
  have "begin_action ''ii'' ''u'' None [M_scheduled] meeting_store = Inr sample_meeting"
    "participants_for (row_id sample_meeting) meeting_store = meeting_participants meeting_store"
    "map (called meeting_store) (meeting_participants meeting_store) = [[(''x'', ''collab_inject'')]]"
    "map (\<lambda>p. participant_instance p meeting_store) (meeting_participants meeting_store) = [Some fox]"
    "to_resume fox meeting_store" "inject_queue meeting_store = []" "row_id fox = ''x''"
    by code_simp+
  with start_meeting_wakes [OF no_handlers meeting_store_ok(1) this(1), of 3] show ?thesis by fastforce
qed

lemma meeting_lifecycle_witness:
  "\<exists>v. (meeting_step (app_handlers []))\<^sup>*\<^sup>* meeting_store v \<and> map mt_status (meetings v) = [M_cancelled] \<and>
     meetings_advance (meetings meeting_store) (meetings v)"
proof -
  let ?hs = "app_handlers []" and ?m = "touch 3 (sample_meeting\<lparr>mt_status := M_cancelled\<rparr>)"
  let ?a = "meeting_event MEETING_CANCELLED ''u'' (row_id ?m) []"
  have "begin_action ''ii'' ''u'' None [M_scheduled, M_active] meeting_store = Inr sample_meeting" by code_simp
  then obtain v b where run1: "cancel_meeting ?hs 3 ''ii'' ''u'' None meeting_store = Inr (v, b)"
    and v: "v = fst (emit ?hs 3 ?a (replace_meeting ?m meeting_store))"
    by (simp add: cancel_meeting_def finish_meeting_def Let_def)
  have "meetings v = meetings (replace_meeting ?m meeting_store)"
    using emit_meeting_frame [OF no_handlers, of ?a "replace_meeting ?m meeting_store" 3]
    by (simp add: v meeting_frame_def meeting_event_def meeting_types_def)
  moreover have "map mt_status (meetings (replace_meeting ?m meeting_store)) = [M_cancelled]" by code_simp
  ultimately have ended: "map mt_status (meetings v) = [M_cancelled]" by simp
  from run1 have "meeting_step ?hs meeting_store v" by (blast intro: meeting_step.intros)
  then have run: "(meeting_step ?hs)\<^sup>*\<^sup>* meeting_store v" by (rule r_into_rtranclp)
  show ?thesis
    by (intro exI conjI) (rule run ended conjunct1 [OF meeting_lifecycle [OF no_handlers run meeting_store_ok(2)]])+
qed

end
