(* ===== verification/Overlay.thy ===== *)
theory Overlay
  imports Capabilities
begin

text \<open>
  The configuration of an agent: the template of its BaseClass under the Entity's own settings
  (\<^verbatim>\<open>app/core/overlay.py\<close>), with the lookup of BaseClasses under old and new slugs
  (\<^verbatim>\<open>app/core/preset_aliases.py\<close>).
\<close>

section \<open>Preset aliases\<close>

definition LEGACY_PRESET_ALIASES :: "(string \<times> string) list" where
  "LEGACY_PRESET_ALIASES = [(''mi-shi'', ''fox''), (''an-xing'', ''beaver''), (''an-ying'', ''sparrow''),
     (''zhu-jin'', ''coyote''), (''jiu-ri'', ''lion'')]"

definition ANCESTOR_SLUGS :: "string list" where
  "ANCESTOR_SLUGS = [''fox'', ''beaver'', ''sparrow'', ''coyote'', ''lion'']"

definition candidate_slugs :: "string \<Rightarrow> string list" where
  "candidate_slugs slug = first_occurrences (slug #
     (case map_of LEGACY_PRESET_ALIASES slug of None \<Rightarrow> [] | Some a \<Rightarrow> [a]) @
     map fst (filter (\<lambda>(legacy, animal). animal = slug) LEGACY_PRESET_ALIASES))"

section \<open>Merging\<close>

text \<open>Objects are merged key by key; any other value of the override replaces the one below.\<close>

function (sequential) deep_merge :: "json_obj \<Rightarrow> json_obj \<Rightarrow> json_obj" where
  "deep_merge base [] = base"
| "deep_merge base ((k, JObj ob) # override) =
     deep_merge (jset k (case jget base k of Some (JObj b) \<Rightarrow> JObj (deep_merge b ob) | _ \<Rightarrow> JObj ob) base) override"
| "deep_merge base ((k, v) # override) = deep_merge (jset k v base) override"
  by pat_completeness auto
termination by (relation "measure (\<lambda>(base, override). size (JObj override))") auto

section \<open>The template\<close>

text \<open>\<open>a or b\<close>, \<open>list(a)\<close> and \<open>dict(a)\<close> on JSON values; what is no string can be no key.\<close>

definition json_or :: "json \<Rightarrow> json \<Rightarrow> json" where
  "json_or a b = (if json_true a then a else b)"

definition py_list :: "json \<Rightarrow> json result" where
  "py_list j = (case j of
      JList xs \<Rightarrow> Inr (JList xs)
    | JStr s \<Rightarrow> Inr (JList (map (\<lambda>c. JStr [c]) s))
    | JObj ob \<Rightarrow> Inr (JList (map (JStr \<circ> fst) ob))
    | _ \<Rightarrow> Inl unhandled_error)"

fun pairs_dict :: "json list \<Rightarrow> json_obj \<Rightarrow> json result" where
  "pairs_dict [] ob = Inr (JObj ob)"
| "pairs_dict (JList [JStr k, v] # xs) ob = pairs_dict xs (jset k v ob)"
| "pairs_dict (JStr [a, b] # xs) ob = pairs_dict xs (jset [a] (JStr [b]) ob)"
| "pairs_dict (x # xs) ob = Inl unhandled_error"

definition py_dict :: "json \<Rightarrow> json result" where
  "py_dict j = (case j of JObj ob \<Rightarrow> Inr (JObj ob) | JList xs \<Rightarrow> pairs_dict xs [] | _ \<Rightarrow> Inl unhandled_error)"

definition template_prompt :: "json_obj \<Rightarrow> json" where
  "template_prompt m = json_or (json_or (jget_null m ''system_prompt'') (jget_null m ''prompt'')) (JStr [])"

definition manifest_template_subset :: "json_obj \<Rightarrow> json_obj result" where
  "manifest_template_subset m =
     (case py_list (json_or (jget_null m ''commands'') (JList [])) of
        Inl e \<Rightarrow> Inl e
      | Inr commands \<Rightarrow>
         (case py_list (json_or (jget_null m ''tools'') (JList [])) of
            Inl e \<Rightarrow> Inl e
          | Inr tools \<Rightarrow>
             (case py_dict (json_or (jget_null m ''runtime_config'') (JObj [])) of
                Inl e \<Rightarrow> Inl e
              | Inr runtime \<Rightarrow> Inr
                  [(''provider_config'', json_or (jget_null m ''provider_config'') (JObj [])),
                   (''default_model'',
                      json_or (json_or (jget_null m ''default_model'') (jget_null m ''model'')) (JStr ''tbd'')),
                   (''commands'', commands), (''system_prompt'', template_prompt m), (''tools'', tools),
                   (''runtime_config'', runtime),
                   (''subagent_strategy'', json_or (jget_null m ''subagent_strategy'') (JObj [])),
                   (''baseclass_template_prompt'', template_prompt m),
                   (''baseclass_operating_form'',
                      json_or (json_or (jget_null m ''operating_form'') (jget_null m ''description'')) (JStr []))])))"

section \<open>Resolution\<close>

definition cap_keys :: "string list" where
  "cap_keys = [''default_capabilities'', ''capabilities'', ''default_gene_refs'', ''gene_refs'', ''installed_genes'']"

text \<open>The first of the keys under which the override holds a list.\<close>

fun first_list :: "json_obj \<Rightarrow> string list \<Rightarrow> json list option" where
  "first_list ob [] = None"
| "first_list ob (k # ks) = (case jget ob k of Some (JList xs) \<Rightarrow> Some xs | _ \<Rightarrow> first_list ob ks)"

definition override_of :: "entity \<Rightarrow> json_obj" where
  "override_of e = (case config_override e of None \<Rightarrow> [] | Some ob \<Rightarrow> ob)"

definition opt_text :: "string option \<Rightarrow> json" where
  "opt_text x = (case x of None \<Rightarrow> JNull | Some s \<Rightarrow> JStr s)"

definition resolve_entity_config ::
    "entity \<Rightarrow> json_obj option \<Rightarrow> json list \<Rightarrow> json list \<Rightarrow> json_obj result" where
  "resolve_entity_config e manifest capabilities gene_refs =
     (case manifest_template_subset (case manifest of None \<Rightarrow> [] | Some m \<Rightarrow> m) of
        Inl err \<Rightarrow> Inl err
      | Inr template \<Rightarrow>
         (let prompted = (case system_prompt e of None \<Rightarrow> template | Some p \<Rightarrow> jset ''system_prompt'' (JStr p) template);
              ov = override_of e;
              overlaid = deep_merge prompted (filter (\<lambda>(k, v). k \<notin> set cap_keys) ov);
              caps = (case first_list ov [''default_capabilities'', ''capabilities''] of
                        None \<Rightarrow> capabilities | Some xs \<Rightarrow> xs);
              refs = (case first_list ov [''default_gene_refs'', ''gene_refs'', ''installed_genes''] of
                        None \<Rightarrow> gene_refs | Some xs \<Rightarrow> xs)
          in Inr (jset ''entity_role_prompt'' (opt_text (system_prompt e))
                 (jset ''entity_name'' (JStr (str_or (display_name e) (ent_name e)))
                 (jset ''entity_slug'' (JStr (ent_slug e))
                 (jset ''default_gene_refs'' (JList refs)
                 (jset ''default_capabilities'' (JList caps) overlaid)))))))"

text \<open>\<open>by_slug\<close> keeps the last row of a slug; the first wanted slug that it holds is the preset.\<close>

definition find_preset :: "string list \<Rightarrow> 'z db_scheme \<Rightarrow> base_class option" where
  "find_preset wanted s =
     (let rows = filter (\<lambda>b. bcl_slug b \<in> set wanted \<and> live b) (base_classes s);
          by_slug = map_of (rev (map (\<lambda>b. (bcl_slug b, b)) rows))
      in Option.bind (first_where (\<lambda>slug. by_slug slug \<noteq> None) wanted) by_slug)"

definition resolve_instance_agent_config :: "entity \<Rightarrow> 'z db_scheme \<Rightarrow> json_obj result" where
  "resolve_instance_agent_config e s =
     (case load_entity_capability_dicts (row_id e) (Some e) s of
        Inl err \<Rightarrow> Inl err
      | Inr caps \<Rightarrow>
         (let refs = map JStr (load_entity_gene_refs (row_id e) s);
              preset = (if truthy (preset_slug e) then find_preset (candidate_slugs (the (preset_slug e))) s else None)
          in case preset of
               Some b \<Rightarrow>
                 (case bcl_manifest b of
                    Some m \<Rightarrow> map_sum id (\<lambda>ob. jset ''baseclass_name'' (JStr (str_or (bcl_display_name b) (bcl_name b)))
                                           (jset ''baseclass_slug'' (JStr (bcl_slug b)) ob))
                       (resolve_entity_config e (Some m) (map JObj caps) refs)
                  | None \<Rightarrow> resolve_entity_config e None (map JObj caps) refs)
             | None \<Rightarrow> resolve_entity_config e None (map JObj caps) refs))"

section \<open>Facts\<close>

text \<open>What the merge holds under a key.\<close>

fun merge_value :: "json option \<Rightarrow> json \<Rightarrow> json" where
  "merge_value (Some (JObj b)) (JObj ob) = JObj (deep_merge b ob)"
| "merge_value below v = v"

lemma deep_merge_Cons: "deep_merge base ((k, v) # ov) = deep_merge (jset k (merge_value (jget base k) v) base) ov"
  by (cases v) (auto split: option.splits json.splits)

lemma deep_merge_get:
  "distinct (map fst ov) \<Longrightarrow>
   jget (deep_merge base ov) k = (case jget ov k of None \<Rightarrow> jget base k | Some v \<Rightarrow> Some (merge_value (jget base k) v))"
proof (induction ov arbitrary: base)
  case (Cons kv ov)
  obtain k' v where kv: "kv = (k', v)" by (cases kv)
  have "jget ov k' = None" using Cons.prems by (auto simp: kv jget_def map_of_eq_None_iff)
  then show ?case using Cons by (auto simp: kv deep_merge_Cons simp del: deep_merge.simps(2,3) split: option.splits)
qed simp

text \<open>The keys of the template.\<close>

lemma template_keys:
  "manifest_template_subset m = Inr t \<Longrightarrow> map fst t = [''provider_config'', ''default_model'', ''commands'',
     ''system_prompt'', ''tools'', ''runtime_config'', ''subagent_strategy'', ''baseclass_template_prompt'',
     ''baseclass_operating_form'']"
  by (auto simp: manifest_template_subset_def split: sum.splits)

definition entity_keys :: "string list" where
  "entity_keys = [''default_capabilities'', ''default_gene_refs'', ''entity_slug'', ''entity_name'', ''entity_role_prompt'']"

lemma resolved_entity_keys:
  assumes "resolve_entity_config e m caps refs = Inr c" and "k \<in> set entity_keys"
  shows "jget c k = jget
    [(''default_capabilities'', JList (case first_list (override_of e) [''default_capabilities'', ''capabilities''] of
        None \<Rightarrow> caps | Some xs \<Rightarrow> xs)),
     (''default_gene_refs'', JList (case first_list (override_of e)
        [''default_gene_refs'', ''gene_refs'', ''installed_genes''] of None \<Rightarrow> refs | Some xs \<Rightarrow> xs)),
     (''entity_slug'', JStr (ent_slug e)), (''entity_name'', JStr (str_or (display_name e) (ent_name e))),
     (''entity_role_prompt'', opt_text (system_prompt e))] k"
proof -
  obtain overlaid where "c = jset ''entity_role_prompt'' (opt_text (system_prompt e))
      (jset ''entity_name'' (JStr (str_or (display_name e) (ent_name e)))
      (jset ''entity_slug'' (JStr (ent_slug e))
      (jset ''default_gene_refs'' (JList (case first_list (override_of e)
        [''default_gene_refs'', ''gene_refs'', ''installed_genes''] of None \<Rightarrow> refs | Some xs \<Rightarrow> xs))
      (jset ''default_capabilities'' (JList (case first_list (override_of e)
        [''default_capabilities'', ''capabilities''] of None \<Rightarrow> caps | Some xs \<Rightarrow> xs)) overlaid))))"
    using assms(1) by (simp add: resolve_entity_config_def Let_def split: sum.splits) blast
  moreover from assms(2) have "k = ''default_capabilities'' \<or> k = ''default_gene_refs'' \<or> k = ''entity_slug'' \<or>
      k = ''entity_name'' \<or> k = ''entity_role_prompt''" by (simp add: entity_keys_def)
  ultimately show ?thesis by (elim disjE) (simp_all del: first_list.simps)
qed

lemma jget_filter: "jget (filter (\<lambda>(k, v). P k) ob) k = (if P k then jget ob k else None)"
  by (induction ob) auto

lemma distinct_filter_keys: "distinct (map fst ob) \<Longrightarrow> distinct (map fst (filter P ob))"
  by (induction ob) auto

text \<open>Any other key holds the override merged over the template and the Entity's prompt.\<close>

lemma resolved_other_keys:
  assumes "resolve_entity_config e m caps refs = Inr c" and "distinct (map fst (override_of e))"
    and "k \<notin> set entity_keys" and "k \<notin> set cap_keys"
  obtains t where "manifest_template_subset (case m of None \<Rightarrow> [] | Some m \<Rightarrow> m) = Inr t"
    "jget c k = (let below = (if k = ''system_prompt'' \<and> system_prompt e \<noteq> None
                              then Some (JStr (the (system_prompt e))) else jget t k)
                 in case jget (override_of e) k of None \<Rightarrow> below | Some v \<Rightarrow> Some (merge_value below v))"
proof -
  obtain t where t: "manifest_template_subset (case m of None \<Rightarrow> [] | Some m \<Rightarrow> m) = Inr t"
    using assms(1) by (auto simp: resolve_entity_config_def split: sum.splits)
  have "jget c k = jget (deep_merge (case system_prompt e of None \<Rightarrow> t | Some p \<Rightarrow> jset ''system_prompt'' (JStr p) t)
      (filter (\<lambda>(k, v). k \<notin> set cap_keys) (override_of e))) k"
    using assms(1,3) t by (auto simp: resolve_entity_config_def entity_keys_def Let_def)
  then show thesis using t assms(2,4)
    by (intro that [of t])
      (auto simp: deep_merge_get distinct_filter_keys jget_filter Let_def split: option.splits)
qed

end
