(* ===== verification/Knowledge.thy ===== *)
theory Knowledge
  imports Overlay
begin

text \<open>
  Which knowledge an Instance sees (\<^verbatim>\<open>app/core/knowledge.py\<close>), and what is put into its
  configuration when it is spawned (\<^verbatim>\<open>app/core/knowledge_spawn.py\<close>). A set of slugs is the list of
  its elements, possibly repeated. The texts of \<open>SYSTEM_SEEDS\<close> are an argument.
\<close>

section \<open>Visibility\<close>

fun SCOPE_PRIORITY :: "string \<Rightarrow> nat" where
  "SCOPE_PRIORITY sc =
     (if sc = ''workspace'' then 0 else if sc = ''namespace'' then 1 else if sc = ''org'' then 2
      else if sc = ''system'' then 3 else 99)"

definition scope_chain :: "ident \<Rightarrow> 'z db_scheme \<Rightarrow> ident option \<times> ident option" where
  "scope_chain eid s =
     (case get_live (entities s) eid of
        None \<Rightarrow> (None, None)
      | Some e \<Rightarrow> ((case get_live (namespaces s) (ent_namespace_id e) of
                     None \<Rightarrow> None | Some n \<Rightarrow> Some (ns_org_id n)), Some (ent_namespace_id e)))"

definition visibility_clause :: "ident option \<Rightarrow> ident option \<Rightarrow> ident option \<Rightarrow> knowledge_entry \<Rightarrow> bool" where
  "visibility_clause org ns ws k =
     (kn_scope k = ''system'' \<or>
      org \<noteq> None \<and>
       (kn_scope k = ''org'' \<and> kn_organization_id k = org \<or>
        kn_scope k = ''namespace'' \<and> kn_organization_id k = org \<and> kn_namespace_id k = ns \<or>
        kn_scope k = ''workspace'' \<and> kn_organization_id k = org \<and> kn_namespace_id k = ns \<and> kn_workspace_id k = ws))"

definition binding_ok :: "ident \<Rightarrow> ident option \<Rightarrow> knowledge_entry \<Rightarrow> bool" where
  "binding_ok eid iid k =
     ((kn_entity_id k = None \<or> kn_entity_id k = Some eid) \<and> (kn_instance_id k = None \<or> kn_instance_id k = iid))"

section \<open>Winners\<close>

definition knowledge_key :: "knowledge_entry \<Rightarrow> timestamp \<times> ident" where
  "knowledge_key k = (updated_at k, row_id k)"

text \<open>The rows of the query, newest first, ties by greatest identifier; an empty key set is no filter.\<close>

definition knowledge_rows ::
    "ident \<Rightarrow> ident option \<Rightarrow> ident option \<Rightarrow> string list \<Rightarrow> 'z db_scheme \<Rightarrow> knowledge_entry list" where
  "knowledge_rows eid ws iid keys s =
     (let (org, ns) = scope_chain eid s
      in rev (sort_key knowledge_key (filter (\<lambda>k. live k \<and> visibility_clause org ns ws k \<and> binding_ok eid iid k \<and>
           (keys = [] \<or> kn_key k \<in> set keys)) (knowledge_entries s))))"

definition rank :: "knowledge_entry \<Rightarrow> nat" where
  "rank k = SCOPE_PRIORITY (kn_scope k)"

definition winner :: "knowledge_entry list \<Rightarrow> knowledge_entry list" where
  "winner cs = (case first_where (\<lambda>c. rank c = Min (set (map rank cs))) cs of None \<Rightarrow> [] | Some c \<Rightarrow> [c])"

definition resolve_knowledge_winners ::
    "ident \<Rightarrow> ident option \<Rightarrow> ident option \<Rightarrow> string list \<Rightarrow> 'z db_scheme \<Rightarrow> knowledge_entry list" where
  "resolve_knowledge_winners eid ws iid keys s =
     (let rows = knowledge_rows eid ws iid keys s
      in concat (map (\<lambda>k. winner (filter (\<lambda>r. kn_key r = k) rows)) (first_occurrences (map kn_key rows))))"

definition resolve_knowledge_for_instance :: "instance_row \<Rightarrow> 'z db_scheme \<Rightarrow> knowledge_entry list" where
  "resolve_knowledge_for_instance i s =
     resolve_knowledge_winners (ins_entity_id i) (Some (ins_workspace_id i)) (Some (row_id i)) [] s"

definition knowledge_slug_to_env_key :: "string \<Rightarrow> string" where
  "knowledge_slug_to_env_key slug =
     ''KNOWLEDGE_'' @ upper_ascii (map (\<lambda>c. if is_lower c \<or> is_upper c \<or> is_digit c then c else CHR ''_'') slug)"

section \<open>Seeds\<close>

record knowledge_seed =
  seed_key :: string
  seed_title :: string
  seed_body :: string

definition new_seed :: "ident \<Rightarrow> timestamp \<Rightarrow> knowledge_seed \<Rightarrow> knowledge_entry" where
  "new_seed i now x = \<lparr>row_id = i, created_at = now, updated_at = now, deleted_at = None,
     kn_key = seed_key x, kn_title = seed_title x, kn_body = seed_body x, dimension_id = None,
     kn_scope = ''system'', kn_organization_id = None, kn_namespace_id = None, kn_workspace_id = None,
     kn_entity_id = None, kn_instance_id = None\<rparr>"

definition is_seed :: "knowledge_seed \<Rightarrow> knowledge_entry \<Rightarrow> bool" where
  "is_seed x k = (kn_key k = seed_key x \<and> kn_scope k = ''system'' \<and> live k)"

definition refresh_seed :: "timestamp \<Rightarrow> knowledge_seed \<Rightarrow> knowledge_entry \<Rightarrow> knowledge_entry" where
  "refresh_seed now x k = modified now k (k\<lparr>kn_title := seed_title x, kn_body := seed_body x\<rparr>)"

fun ensure_knowledge_seeds :: "timestamp \<Rightarrow> knowledge_seed list \<Rightarrow> 'z db_scheme \<Rightarrow> 'z db_scheme result" where
  "ensure_knowledge_seeds now [] s = Inr s"
| "ensure_knowledge_seeds now (x # xs) s =
     (case scalar_one_or_none (filter (is_seed x) (knowledge_entries s)) of
        Inl e \<Rightarrow> Inl e
      | Inr None \<Rightarrow> ensure_knowledge_seeds now xs
          ((take_id s)\<lparr>knowledge_entries := knowledge_entries s @ [new_seed (new_id s) now x]\<rparr>)
      | Inr (Some k) \<Rightarrow> ensure_knowledge_seeds now xs
          (s\<lparr>knowledge_entries := update_where (\<lambda>r. row_id r = row_id k) (refresh_seed now x) (knowledge_entries s)\<rparr>))"

section \<open>Spawning\<close>

definition str_list :: "string list option \<Rightarrow> string list" where
  "str_list xs = (case xs of None \<Rightarrow> [] | Some ys \<Rightarrow> ys)"

definition compute_has_knowledge :: "entity \<Rightarrow> 'z db_scheme \<Rightarrow> string list result" where
  "compute_has_knowledge e s =
     (if truthy (preset_slug e)
      then (case base_class_by_slug (the (preset_slug e)) s of
              Inl err \<Rightarrow> Inl err
            | Inr None \<Rightarrow> Inr (str_list (has_knowledge e))
            | Inr (Some b) \<Rightarrow> Inr (str_list (has_knowledge e) @ str_list (bcl_has_knowledge b)))
      else Inr (str_list (has_knowledge e)))"

text \<open>What a manifest requires itself, what its inline capabilities require, and their names.\<close>

definition listed :: "json_obj \<Rightarrow> string list" where
  "listed ob = (case jget ob ''required_knowledge'' of Some (JList xs) \<Rightarrow> map py_str xs | _ \<Rightarrow> [])"

definition inline_caps :: "json_obj \<Rightarrow> json_obj list" where
  "inline_caps ob = (case jget ob ''capabilities'' of
      Some (JList xs) \<Rightarrow> concat (map (\<lambda>x. case x of JObj c \<Rightarrow> [c] | _ \<Rightarrow> []) xs) | _ \<Rightarrow> [])"

definition inline_name :: "json_obj \<Rightarrow> string list" where
  "inline_name c = (case jget c ''name'' of Some (JStr n) \<Rightarrow> if n = [] then [] else [n] | _ \<Rightarrow> [])"

definition gene_manifest :: "ai_gene \<Rightarrow> json_obj" where
  "gene_manifest g = (case ag_manifest g of None \<Rightarrow> [] | Some ob \<Rightarrow> ob)"

definition gene_requires :: "ai_gene \<Rightarrow> string list" where
  "gene_requires g = listed (gene_manifest g) @ concat (map listed (inline_caps (gene_manifest g)))"

definition dict_slug :: "json_obj \<Rightarrow> string" where
  "dict_slug ob = (case jget ob ''slug'' of Some (JStr x) \<Rightarrow> x | _ \<Rightarrow> [])"

definition compute_required_knowledge :: "entity \<Rightarrow> 'z db_scheme \<Rightarrow> string list result" where
  "compute_required_knowledge e s =
     (let direct = concat (map (\<lambda>c. str_list (required_knowledge c)) (entity_market_rows (row_id e) s)) in
      case load_entity_ai_gene_dicts e s of
        Inl err \<Rightarrow> Inl err
      | Inr dicts \<Rightarrow>
         (let genes = filter (\<lambda>g. ag_slug g \<in> set (map dict_slug dicts) \<and> live g) (ai_genes s);
              names = concat (map (\<lambda>g. concat (map inline_name (inline_caps (gene_manifest g)))) genes);
              market = filter (\<lambda>c. cap_name c \<in> set names \<and> live c) (capability_market s)
          in Inr (direct @ concat (map gene_requires genes) @
               concat (map (\<lambda>c. str_list (required_knowledge c)) market))))"

text \<open>The missing slugs, sorted, when there are any.\<close>

definition check_knowledge_consistency :: "entity \<Rightarrow> 'z db_scheme \<Rightarrow> string list option result" where
  "check_knowledge_consistency e s =
     (case compute_required_knowledge e s of
        Inl err \<Rightarrow> Inl err
      | Inr required \<Rightarrow>
         (case compute_has_knowledge e s of
            Inl err \<Rightarrow> Inl err
          | Inr has \<Rightarrow>
             (let missing = sort (remdups (filter (\<lambda>x. x \<notin> set has) required))
              in Inr (if missing = [] then None else Some missing))))"

definition build_spawn_knowledge_payload ::
    "entity \<Rightarrow> ident option \<Rightarrow> 'z db_scheme \<Rightarrow> json_obj option result" where
  "build_spawn_knowledge_payload e ws s =
     (case compute_has_knowledge e s of
        Inl err \<Rightarrow> Inl err
      | Inr has \<Rightarrow>
         (if has = [] then Inr None
          else let env = foldl (\<lambda>ob k. if kn_key k \<in> set has then jset (kn_key k) (JStr (kn_body k)) ob else ob) []
                           (resolve_knowledge_winners (row_id e) ws None has s)
               in Inr (if env = [] then None
                       else Some [(''env'', JObj (sort_key fst env)), (''files'', JList [])])))"

section \<open>Facts\<close>

text \<open>The rows that an Entity, or one of its Instances, may be given.\<close>

definition may_see :: "ident \<Rightarrow> ident option \<Rightarrow> ident option \<Rightarrow> string list \<Rightarrow> 'z db_scheme \<Rightarrow> knowledge_entry \<Rightarrow> bool" where
  "may_see eid ws iid keys s k \<longleftrightarrow> k \<in> set (knowledge_entries s) \<and> live k \<and>
     visibility_clause (fst (scope_chain eid s)) (snd (scope_chain eid s)) ws k \<and> binding_ok eid iid k \<and>
     (keys = [] \<or> kn_key k \<in> set keys)"

text \<open>The order of precedence: the narrower scope, then the newer row, then the greater identifier.\<close>

definition precedes :: "knowledge_entry \<Rightarrow> knowledge_entry \<Rightarrow> bool" where
  "precedes w k \<longleftrightarrow> rank w < rank k \<or> rank w = rank k \<and> knowledge_key k \<le> knowledge_key w"

lemma set_knowledge_rows: "set (knowledge_rows eid ws iid keys s) = {k. may_see eid ws iid keys s k}"
  by (auto simp: knowledge_rows_def may_see_def case_prod_unfold Let_def)

lemma knowledge_rows_desc: "sorted_wrt (\<lambda>x y. knowledge_key y \<le> knowledge_key x) (knowledge_rows eid ws iid keys s)"
  unfolding knowledge_rows_def Let_def case_prod_unfold sorted_wrt_rev
  by (rule sorted_sort_key [unfolded sorted_map])

lemma first_where_least:
  assumes "sorted_wrt R xs" and "first_where P xs = Some c" and "x \<in> set xs" and "P x"
  shows "x = c \<or> R c x"
  using assms by (induction xs) (auto split: if_splits)

lemma winner_of:
  assumes "sorted_wrt (\<lambda>x y. knowledge_key y \<le> knowledge_key x) cs" and "cs \<noteq> []"
  obtains w where "winner cs = [w]" "w \<in> set cs" "\<And>k. k \<in> set cs \<Longrightarrow> precedes w k"
proof -
  let ?m = "Min (set (map rank cs))"
  have "?m \<in> set (map rank cs)" using assms(2) by (intro Min_in) auto
  then obtain w where w: "first_where (\<lambda>c. rank c = ?m) cs = Some w"
    by (cases "first_where (\<lambda>c. rank c = ?m) cs") (auto simp: first_where_None_iff in_set_conv_nth)
  then have w': "w \<in> set cs" "rank w = ?m" by (auto dest: first_where_SomeD)
  have "precedes w k" if "k \<in> set cs" for k
  proof (cases "rank k = ?m")
    case True
    with first_where_least [OF assms(1) w that] w'(2) show ?thesis by (auto simp: precedes_def)
  next
    case False
    moreover have "?m \<le> rank k" using that by simp
    ultimately show ?thesis using w'(2) by (simp add: precedes_def)
  qed
  with w w'(1) show thesis by (intro that [of w]) (simp_all add: winner_def)
qed

definition winners :: "knowledge_entry list \<Rightarrow> string list \<Rightarrow> knowledge_entry list" where
  "winners rows ks = concat (map (\<lambda>k. winner (filter (\<lambda>r. kn_key r = k) rows)) ks)"

lemma winners_rows:
  assumes "sorted_wrt (\<lambda>x y. knowledge_key y \<le> knowledge_key x) rows" and "set ks \<subseteq> kn_key ` set rows"
  shows "map kn_key (winners rows ks) = ks \<and> set (winners rows ks) \<subseteq> set rows \<and>
    (\<forall>r \<in> set rows. kn_key r \<in> set ks \<longrightarrow> (\<exists>w \<in> set (winners rows ks). kn_key w = kn_key r \<and> precedes w r))"
  using assms(2)
proof (induction ks)
  case (Cons k ks)
  let ?cs = "filter (\<lambda>r. kn_key r = k) rows"
  have "?cs \<noteq> []" using Cons.prems by (auto simp: filter_empty_conv)
  then obtain w where w: "winner ?cs = [w]" "w \<in> set ?cs" "\<And>x. x \<in> set ?cs \<Longrightarrow> precedes w x"
    using winner_of [of ?cs] assms(1) by (auto simp: sorted_wrt_filter)
  have step: "winners rows (k # ks) = w # winners rows ks" by (simp add: winners_def w(1))
  have IH: "map kn_key (winners rows ks) = ks \<and> set (winners rows ks) \<subseteq> set rows \<and>
    (\<forall>r \<in> set rows. kn_key r \<in> set ks \<longrightarrow> (\<exists>w \<in> set (winners rows ks). kn_key w = kn_key r \<and> precedes w r))"
    using Cons by simp
  have "\<exists>x \<in> set (w # winners rows ks). kn_key x = kn_key r \<and> precedes x r"
    if "r \<in> set rows" "kn_key r \<in> set (k # ks)" for r
  proof (cases "kn_key r = k")
    case True
    with w that(1) show ?thesis by (intro bexI [of _ w]) auto
  next
    case False
    with IH that show ?thesis by auto
  qed
  with w(2) IH show ?case unfolding step by auto
qed (simp add: winners_def)


definition sample_entry :: "ident \<Rightarrow> timestamp \<Rightarrow> knowledge_entry" where
  "sample_entry i now = \<lparr>row_id = i, created_at = 0, updated_at = now, deleted_at = None, kn_key = ''dig'', kn_title = ''Dig'',
     kn_body = i, dimension_id = None, kn_scope = ''system'', kn_organization_id = None, kn_namespace_id = None,
     kn_workspace_id = None, kn_entity_id = None, kn_instance_id = None\<rparr>"


end
