(* ===== verification/Deploy.thy ===== *)
theory Deploy
  imports Knowledge Composer
begin

text \<open>
  The deployment of Instances (\<^verbatim>\<open>app/services/deploy_service.py\<close>, \<^verbatim>\<open>app/api/v1/deploy.py\<close>): the
  records of deployments, the pipeline that runs as a background task, its cancellation. The cluster
  is outside: what it answers is an argument of each step, what it is asked is logged. The texts that
  a pod is given (prompt files, redacted snapshot, step names in \<open>message\<close>) are not kept; whether
  composing them raises is an argument.
\<close>

section \<open>State\<close>

datatype k8s_request = Scale ident nat | Delete_namespace string

record deploy_ctx =
  dc_record_id :: ident
  dc_instance_id :: ident
  dc_name :: string
  dc_namespace :: string
  dc_image_version :: string
  dc_replicas :: nat
  dc_env_vars :: "(string \<times> string) list"
  dc_proxy_token :: string
  dc_workspace_id :: ident
  dc_preset_slug :: "string option"

text \<open>
  Where a pipeline is: waiting for the gateway, in the steps 1 to 7, after so many polls of the
  readiness, about to mark the Instance or the record, or over.
\<close>

datatype stage = Connecting | Applying nat | Watching nat | Marking_instance | Marking_record | Finished

record progress =
  pr_record_id :: ident
  pr_instance_id :: ident
  pr_step :: nat
  pr_status :: string
  pr_message :: string

record cluster = process +
  pipelines :: "(deploy_ctx \<times> stage) list"
  k8s_log :: "k8s_request list"
  deploy_progress :: "progress list"

section \<open>Names\<close>

definition DEPLOY_PIPELINE_TIMEOUT_SECONDS :: nat where "DEPLOY_PIPELINE_TIMEOUT_SECONDS = 300"
definition ENGINE_VERSION :: string where "ENGINE_VERSION = ''0.83.0''"

definition resolve_instance_image :: "string option \<Rightarrow> string option \<Rightarrow> (string \<Rightarrow> string option) \<Rightarrow> string" where
  "resolve_instance_image preset version getenv =
     (let name = (case preset of
            Some slug \<Rightarrow> if slug \<in> set ANCESTOR_SLUGS then ''eyot-instance-'' @ slug else ''eyot-instance-base''
          | None \<Rightarrow> ''eyot-instance-base'');
          registry = strip (case getenv ''EYOT_INSTANCE_REGISTRY'' of None \<Rightarrow> ''localhost:5000'' | Some r \<Rightarrow> r);
          image = name @ '':'' @ str_or version ENGINE_VERSION
      in if registry = [] then image else registry @ ''/'' @ image)"

definition compact_id :: "ident \<Rightarrow> string" where
  "compact_id iid = take 20 (lower (filter (\<lambda>c. c \<noteq> CHR ''-'') iid))"

definition k8s_resource_name :: "ident \<Rightarrow> string" where
  "k8s_resource_name iid = ''inst-'' @ compact_id iid"

definition namespace_for :: "ident \<Rightarrow> string" where
  "namespace_for iid = ''eyot-inst-'' @ compact_id iid"

section \<open>Environment of a pod\<close>

text \<open>\<open>a or b or ...\<close> on strings that may be absent.\<close>

fun first_text :: "string option list \<Rightarrow> string \<Rightarrow> string" where
  "first_text [] d = d"
| "first_text (x # xs) d = (if truthy x then the x else first_text xs d)"

definition env_update :: "(string \<times> string) list \<Rightarrow> (string \<times> string) list \<Rightarrow> (string \<times> string) list" where
  "env_update base new = fold (\<lambda>(k, v) env. alist_set k v env) new base"

definition instance_pod_env ::
    "ident \<Rightarrow> string \<Rightarrow> (string \<times> string) list \<Rightarrow> (string \<Rightarrow> string option) \<Rightarrow> (string \<times> string) list" where
  "instance_pod_env iid tok extra getenv =
     (let given = map_of extra;
          default = (\<lambda>k d. case getenv k of None \<Rightarrow> d | Some v \<Rightarrow> v);
          api_url = first_text [given ''EYOT_API_URL'']
                      (default ''EYOT_API_URL'' ''http://eyot-backend.eyot.svc.cluster.local:4510'');
          api_token = first_text [given ''EYOT_API_TOKEN''] (default ''EYOT_API_TOKEN'' []);
          tunnel_url = first_text [given ''EYOT_TUNNEL_URL''] (default ''EYOT_TUNNEL_URL'' []);
          path = first_text [given ''EYOT_WORKSPACE_PATH''] ''/data''
      in env_update extra
           ([(''EYOT_PROXY_TOKEN'', tok), (''EYOT_INSTANCE_ID'', iid), (''EYOT_POD_MODE'', ''true''),
             (''EYOT_API_URL'', api_url), (''EYOT_WORKSPACE_PATH'', path)] @
            (if tunnel_url = [] then [] else [(''EYOT_TUNNEL_URL'', tunnel_url)]) @
            (if api_token = [] then [] else [(''EYOT_API_TOKEN'', api_token)])))"

definition get_row :: "'a base_row_scheme list \<Rightarrow> ident \<Rightarrow> 'a base_row_scheme option" where
  "get_row rows i = first_where (\<lambda>r. row_id r = i) rows"

definition knowledge_env_for_instance :: "ident \<Rightarrow> 'z db_scheme \<Rightarrow> (string \<times> string) list" where
  "knowledge_env_for_instance iid s =
     (case Option.bind (get_row (instances s) iid) runtime_config of
        None \<Rightarrow> []
      | Some rc \<Rightarrow>
         (case jget rc ''knowledge'' of
            Some (JObj k) \<Rightarrow>
              (case jget k ''env'' of
                 Some (JObj env) \<Rightarrow> fold (\<lambda>(slug, v) acc. case v of
                     JStr x \<Rightarrow> alist_set (knowledge_slug_to_env_key slug) x acc | _ \<Rightarrow> acc) env []
               | _ \<Rightarrow> [])
          | _ \<Rightarrow> []))"

text \<open>The variables of the model provider come first, as \<open>pi\<close> gives them for the Instance.\<close>

definition instance_pod_env_async ::
    "(string \<times> string) list \<Rightarrow> (string \<Rightarrow> string option) \<Rightarrow> ident \<Rightarrow> string \<Rightarrow> (string \<times> string) list
     \<Rightarrow> 'z db_scheme \<Rightarrow> (string \<times> string) list" where
  "instance_pod_env_async pi getenv iid tok extra s =
     env_update (env_update pi (knowledge_env_for_instance iid s)) (instance_pod_env iid tok extra getenv)"

section \<open>Records\<close>

text \<open>The next revision of the live records of the Instance.\<close>

definition next_deploy_revision :: "ident \<Rightarrow> 'z db_scheme \<Rightarrow> int" where
  "next_deploy_revision iid s =
     (case sort_key (\<lambda>r. - revision r) (filter (\<lambda>r. dr_instance_id r = iid \<and> live r) (deploy_records s)) of
        [] \<Rightarrow> 1 | r # _ \<Rightarrow> revision r + 1)"

definition uq_deploy_records_instance_revision :: "deploy_record list \<Rightarrow> bool" where
  "uq_deploy_records_instance_revision = unique_on live (\<lambda>r. (dr_instance_id r, revision r))"

definition precheck :: "string \<Rightarrow> 'z db_scheme \<Rightarrow> bool" where
  "precheck name s = (filter (\<lambda>i. workspace_path i = Some name \<and> live i) (instances s) = [])"

definition new_deploy_record :: "ident \<Rightarrow> timestamp \<Rightarrow> ident \<Rightarrow> int \<Rightarrow> string \<Rightarrow> ident option \<Rightarrow> deploy_record" where
  "new_deploy_record i now iid rv version by = \<lparr>row_id = i, created_at = now, updated_at = now, deleted_at = None,
     dr_instance_id = iid, revision = rv, dr_action = DA_deploy, dr_status = DS_running,
     image_version = Some version, config_snapshot = None, dr_message = None, triggered_by = by,
     started_at = None, finished_at = None\<rparr>"

definition replace_instance :: "instance_row \<Rightarrow> 'z db_scheme \<Rightarrow> 'z db_scheme" where
  "replace_instance i s = s\<lparr>instances := update_where (\<lambda>r. row_id r = row_id i) (\<lambda>_. i) (instances s)\<rparr>"

definition config_of :: "instance_row \<Rightarrow> json_obj" where
  "config_of i = (case runtime_config i of None \<Rightarrow> [] | Some rc \<Rightarrow> rc)"

text \<open>
  The resolved configuration is stored with the Instance; \<open>compose\<close> answers whether composing the
  prompt from it raises.
\<close>

definition build_agent_bundle ::
    "(json_obj \<Rightarrow> bool) \<Rightarrow> timestamp \<Rightarrow> ident \<Rightarrow> 'z db_scheme \<Rightarrow> 'z db_scheme \<times> unit result" where
  "build_agent_bundle compose now iid s =
     (case get_live (instances s) iid of
        None \<Rightarrow> (s, Inr ())
      | Some i \<Rightarrow>
         (case get_live (entities s) (ins_entity_id i) of
            None \<Rightarrow> (s, Inr ())
          | Some e \<Rightarrow>
             (case resolve_instance_agent_config e s of
                Inl err \<Rightarrow> (s, Inl err)
              | Inr config \<Rightarrow>
                 (let i1 = modified now i (i\<lparr>runtime_config := Some (jset ''agent_config'' (JObj config) (config_of i))\<rparr>)
                  in (replace_instance i1 s, if compose config then Inr () else Inl unhandled_error)))))"

definition preset_of :: "ident \<Rightarrow> 'z db_scheme \<Rightarrow> string option" where
  "preset_of eid s = Option.bind (get_row (entities s) eid) preset_slug"

definition deploy_ctx_of ::
    "ident \<Rightarrow> ident \<Rightarrow> string \<Rightarrow> nat \<Rightarrow> (string \<times> string) list \<Rightarrow> string \<Rightarrow> ident \<Rightarrow> string option \<Rightarrow> deploy_ctx" where
  "deploy_ctx_of rid iid version replicas env tok ws preset = \<lparr>dc_record_id = rid, dc_instance_id = iid,
     dc_name = k8s_resource_name iid, dc_namespace = namespace_for iid, dc_image_version = version,
     dc_replicas = replicas, dc_env_vars = env, dc_proxy_token = tok, dc_workspace_id = ws, dc_preset_slug = preset\<rparr>"

text \<open>
  A deployment of an existing Instance: its record, then the configuration. What was flushed before
  an exception stays in the session, so the state is given in either case.
\<close>

definition deploy_existing_instance ::
    "(json_obj \<Rightarrow> bool) \<Rightarrow> (string \<times> string) list \<Rightarrow> (string \<Rightarrow> string option) \<Rightarrow> timestamp \<Rightarrow> ident \<Rightarrow> string option
     \<Rightarrow> nat \<Rightarrow> (string \<times> string) list \<Rightarrow> ident option \<Rightarrow> 'z db_scheme \<Rightarrow> 'z db_scheme \<times> (ident \<times> deploy_ctx) result" where
  "deploy_existing_instance compose pi getenv now iid version replicas extra by s =
     (case get_live (instances s) iid of
        None \<Rightarrow> (s, Inl unhandled_error)
      | Some i \<Rightarrow>
         (let v = str_or version ENGINE_VERSION; tok = str_or (proxy_token i) [];
              r = new_deploy_record (new_id s) now iid (next_deploy_revision iid s) v by
          in if \<not> opt_ref (users s) by then (s, Inl unhandled_error)
             else case build_agent_bundle compose now iid ((take_id s)\<lparr>deploy_records := deploy_records s @ [r]\<rparr>) of
                    (s1, Inl e) \<Rightarrow> (s1, Inl e)
                  | (s1, Inr _) \<Rightarrow> (s1, Inr (row_id r, deploy_ctx_of (row_id r) iid v replicas
                      (instance_pod_env_async pi getenv iid tok extra s1) tok (ins_workspace_id i)
                      (preset_of (ins_entity_id i) s)))))"

text \<open>A deployment that creates its Instance: nothing remains of it when anything raises.\<close>

definition new_deployed_instance :: "ident \<Rightarrow> timestamp \<Rightarrow> string \<Rightarrow> ident \<Rightarrow> ident \<Rightarrow> string \<Rightarrow> instance_row" where
  "new_deployed_instance i now name ws eid tok = \<lparr>row_id = i, created_at = now, updated_at = now,
     deleted_at = None, ins_entity_id = eid, ins_workspace_id = ws, workspace_path = Some name,
     ins_status = I_creating, runtime_config = None, proxy_token = Some tok, active_hash = None\<rparr>"

definition uq_instances_workspace_path :: "instance_row list \<Rightarrow> bool" where
  "uq_instances_workspace_path = unique_on (\<lambda>i. live i \<and> workspace_path i \<noteq> None) workspace_path"

definition instances_integrity :: "'z db_scheme \<Rightarrow> instance_row \<Rightarrow> bool" where
  "instances_integrity s i \<longleftrightarrow> fk_exists (entities s) (ins_entity_id i) \<and> fk_exists (workspaces s) (ins_workspace_id i) \<and>
     uq_instances_workspace_path (instances s) \<and> uq_instances_workspace_entity (instances s)"

definition deploy_instance ::
    "(json_obj \<Rightarrow> bool) \<Rightarrow> (string \<times> string) list \<Rightarrow> (string \<Rightarrow> string option) \<Rightarrow> timestamp \<Rightarrow> string \<Rightarrow> string
     \<Rightarrow> ident \<Rightarrow> ident \<Rightarrow> nat \<Rightarrow> (string \<times> string) list \<Rightarrow> string \<Rightarrow> ident option \<Rightarrow> string option \<Rightarrow> 'z db_scheme
     \<Rightarrow> ('z db_scheme \<times> ident \<times> deploy_ctx) result" where
  "deploy_instance compose pi getenv now name version ws eid replicas extra tok by preset s =
     (let slug = (case preset of None \<Rightarrow> preset_of eid s | Some p \<Rightarrow> Some p);
          i = new_deployed_instance (new_id s) now name ws eid tok;
          s1 = (take_id s)\<lparr>instances := instances s @ [i]\<rparr>;
          r = new_deploy_record (new_id s1) now (row_id i) 1 version by
      in if \<not> instances_integrity s1 i \<or> \<not> opt_ref (users s) by then Inl unhandled_error
         else case build_agent_bundle compose now (row_id i) ((take_id s1)\<lparr>deploy_records := deploy_records s @ [r]\<rparr>) of
                (_, Inl e) \<Rightarrow> Inl e
              | (s2, Inr _) \<Rightarrow> Inr (s2, row_id r, deploy_ctx_of (row_id r) (row_id i) version replicas
                  (instance_pod_env_async pi getenv (row_id i) tok extra s2) tok ws slug))"

section \<open>Best-effort requests\<close>

definition ask_k8s :: "k8s_request \<Rightarrow> 'z cluster_scheme \<Rightarrow> 'z cluster_scheme" where
  "ask_k8s q c = c\<lparr>k8s_log := k8s_log c @ [q]\<rparr>"

definition scale_instance_runtime :: "ident \<Rightarrow> nat \<Rightarrow> 'z cluster_scheme \<Rightarrow> 'z cluster_scheme" where
  "scale_instance_runtime iid replicas = ask_k8s (Scale iid replicas)"

definition teardown_instance_namespace :: "ident \<Rightarrow> 'z cluster_scheme \<Rightarrow> 'z cluster_scheme" where
  "teardown_instance_namespace iid = ask_k8s (Delete_namespace (namespace_for iid))"

section \<open>The pipeline\<close>

text \<open>A pod as it is listed: its name, and the names and waiting reasons of its containers.\<close>

record pod =
  pod_name :: "string option"
  pod_containers :: "(string option \<times> string option) list"

definition IMAGE_PULL_FAIL_REASONS :: "string list" where
  "IMAGE_PULL_FAIL_REASONS = [''ImagePullBackOff'', ''ErrImagePull'']"

definition pull_failures :: "pod \<Rightarrow> string list" where
  "pull_failures p = concat (map (\<lambda>(name, reason). case reason of
       Some r \<Rightarrow> if r \<in> set IMAGE_PULL_FAIL_REASONS
                 then [''image pull failed ('' @ r @ '') on pod '' @ str_or (pod_name p) ''unknown'' @ ''/'' @
                       str_or name ''container''] else []
     | None \<Rightarrow> []) (pod_containers p))"

definition detect_image_pull_failure :: "pod list \<Rightarrow> string option" where
  "detect_image_pull_failure pods = (case concat (map pull_failures pods) of [] \<Rightarrow> None | m # _ \<Rightarrow> Some m)"

text \<open>
  What the cluster answers to the calls of a step: one of them raises, all are applied, or the
  readiness: the ready replicas and the pods of the Instance.
\<close>

datatype answer = Raises string | Applied | Ready nat "pod list"

definition publish :: "deploy_ctx \<Rightarrow> nat \<Rightarrow> string \<Rightarrow> string \<Rightarrow> 'z cluster_scheme \<Rightarrow> 'z cluster_scheme" where
  "publish x step st msg c = c\<lparr>deploy_progress := deploy_progress c @ [\<lparr>pr_record_id = dc_record_id x,
     pr_instance_id = dc_instance_id x, pr_step = step, pr_status = st, pr_message = msg\<rparr>]\<rparr>"

definition update_record :: "timestamp \<Rightarrow> ident \<Rightarrow> (deploy_record \<Rightarrow> deploy_record) \<Rightarrow> 'z db_scheme \<Rightarrow> 'z db_scheme" where
  "update_record now rid f s =
     s\<lparr>deploy_records := update_where (\<lambda>r. row_id r = rid) (\<lambda>r. modified now r (f r)) (deploy_records s)\<rparr>"

definition set_status :: "timestamp \<Rightarrow> ident \<Rightarrow> instance_status \<Rightarrow> 'z db_scheme \<Rightarrow> 'z db_scheme" where
  "set_status now iid st s =
     s\<lparr>instances := update_where (\<lambda>i. row_id i = iid \<and> live i) (\<lambda>i. modified now i (i\<lparr>ins_status := st\<rparr>)) (instances s)\<rparr>"

definition pipeline_failed :: "timestamp \<Rightarrow> deploy_ctx \<Rightarrow> string \<Rightarrow> 'z cluster_scheme \<Rightarrow> 'z cluster_scheme" where
  "pipeline_failed now x msg c =
     publish x 0 ''failed'' (take 500 msg)
       (teardown_instance_namespace (dc_instance_id x)
         (set_status now (dc_instance_id x) I_failed
           (update_record now (dc_record_id x) (\<lambda>r. r\<lparr>dr_status := DS_failed, dr_message := Some (take 500 msg)\<rparr>) c)))"

definition run_post_ready_instance_steps :: "timestamp \<Rightarrow> deploy_ctx \<Rightarrow> 'z cluster_scheme \<Rightarrow> 'z cluster_scheme" where
  "run_post_ready_instance_steps now x c =
     (if fk_exists (deploy_records c) (dc_record_id x) then set_status now (dc_instance_id x) I_running c else c)"

definition not_ready :: string where
  "not_ready = ''deployment did not become ready within 300s''"

text \<open>One step of the task, up to its next answer; the connection is made outside the \<open>try\<close>.\<close>

definition pipeline_step :: "timestamp \<Rightarrow> answer \<Rightarrow> deploy_ctx \<Rightarrow> stage \<Rightarrow> 'z cluster_scheme \<Rightarrow> 'z cluster_scheme \<times> stage" where
  "pipeline_step now ans x st c =
     (case st of
        Connecting \<Rightarrow> (case ans of Raises m \<Rightarrow> (c, Finished) | _ \<Rightarrow> (c, Applying 1))
      | Applying k \<Rightarrow>
         (let c1 = publish x k ''running'' [] c in
          case ans of
            Raises m \<Rightarrow> (pipeline_failed now x m c1, Finished)
          | _ \<Rightarrow> (let c2 = publish x k ''done'' [] c1
                  in if k < 7 then (c2, Applying (Suc k)) else (publish x 8 ''running'' [] c2, Watching 0)))
      | Watching n \<Rightarrow>
         (if DEPLOY_PIPELINE_TIMEOUT_SECONDS \<le> n then (pipeline_failed now x not_ready c, Finished)
          else case ans of
                 Raises m \<Rightarrow> (pipeline_failed now x m c, Finished)
               | Applied \<Rightarrow> (c, Watching (Suc n))
               | Ready r pods \<Rightarrow>
                   if dc_replicas x \<le> r then (publish x 8 ''done'' [] c, Marking_instance)
                   else case detect_image_pull_failure pods of
                          Some m \<Rightarrow> (pipeline_failed now x m c, Finished)
                        | None \<Rightarrow> (c, Watching (Suc n)))
      | Marking_instance \<Rightarrow> (publish x 9 ''running'' [] (run_post_ready_instance_steps now x c), Marking_record)
      | Marking_record \<Rightarrow>
          (publish x 9 ''done'' [] (update_record now (dc_record_id x) (\<lambda>r. r\<lparr>dr_status := DS_success\<rparr>) c), Finished)
      | Finished \<Rightarrow> (c, Finished))"

text \<open>The pipeline of the given record takes a step; a finished task leaves the registry.\<close>

definition advance_pipeline :: "timestamp \<Rightarrow> answer \<Rightarrow> ident \<Rightarrow> 'z cluster_scheme \<Rightarrow> 'z cluster_scheme" where
  "advance_pipeline now ans rid c =
     (case first_where (\<lambda>(x, _). dc_record_id x = rid) (pipelines c) of
        None \<Rightarrow> c
      | Some (x, st) \<Rightarrow>
         (case pipeline_step now ans x st c of
            (c1, Finished) \<Rightarrow> c1\<lparr>pipelines := filter (\<lambda>(y, _). dc_record_id y \<noteq> rid) (pipelines c)\<rparr>
          | (c1, st1) \<Rightarrow> c1\<lparr>pipelines := update_where (\<lambda>(y, _). dc_record_id y = rid) (\<lambda>_. (x, st1)) (pipelines c)\<rparr>))"

definition execute_deploy_pipeline :: "deploy_ctx \<Rightarrow> 'z cluster_scheme \<Rightarrow> 'z cluster_scheme" where
  "execute_deploy_pipeline x c = c\<lparr>pipelines := pipelines c @ [(x, Connecting)]\<rparr>"

section \<open>Cancellation\<close>

definition cancel_deploy_task :: "ident \<Rightarrow> 'z cluster_scheme \<Rightarrow> 'z cluster_scheme" where
  "cancel_deploy_task rid c = c\<lparr>pipelines := filter (\<lambda>(x, _). dc_record_id x \<noteq> rid) (pipelines c)\<rparr>"

definition cancel_record :: "deploy_record \<Rightarrow> deploy_record" where
  "cancel_record r = r\<lparr>dr_status := DS_cancelled,
     finished_at := (case finished_at r of None \<Rightarrow> Some (updated_at r) | Some t \<Rightarrow> Some t)\<rparr>"

definition cancel_deploy :: "timestamp \<Rightarrow> ident \<Rightarrow> 'z cluster_scheme \<Rightarrow> 'z cluster_scheme \<times> string" where
  "cancel_deploy now rid c =
     (let c1 = cancel_deploy_task rid c in
      case get_row (deploy_records c1) rid of
        None \<Rightarrow> (c1, [])
      | Some r \<Rightarrow>
         (let namespace = (case get_row (instances c1) (dr_instance_id r) of
                None \<Rightarrow> [] | Some i \<Rightarrow> namespace_for (row_id i));
              c2 = update_record now rid cancel_record c1
          in (if namespace = [] then c2 else ask_k8s (Delete_namespace namespace) c2, namespace)))"

definition deploy_record_not_found :: eyot_error where
  "deploy_record_not_found = EyotError ''deploy_record.not_found'' [] 404"

definition load_active_record :: "ident \<Rightarrow> 'z db_scheme \<Rightarrow> deploy_record result" where
  "load_active_record rid s =
     (case get_live (deploy_records s) rid of None \<Rightarrow> Inl deploy_record_not_found | Some r \<Rightarrow> Inr r)"

text \<open>The endpoints ask for a user who is logged in; they look at nothing else of the user.\<close>

definition deploy_snapshot :: "ident \<Rightarrow> ident \<Rightarrow> 'z db_scheme \<Rightarrow> deploy_record result" where
  "deploy_snapshot rid uid s = load_active_record rid s"

definition deploy_cancel :: "timestamp \<Rightarrow> ident \<Rightarrow> ident \<Rightarrow> 'z cluster_scheme \<Rightarrow> ('z cluster_scheme \<times> string) result" where
  "deploy_cancel now rid uid c = (case load_active_record rid c of Inl e \<Rightarrow> Inl e | Inr _ \<Rightarrow> Inr (cancel_deploy now rid c))"

text \<open>The frames of the progress stream that belong to the record.\<close>

definition iter_deploy_sse :: "ident \<Rightarrow> progress list \<Rightarrow> progress list" where
  "iter_deploy_sse rid frames = filter (\<lambda>p. pr_record_id p = rid) frames"

end
