(* ===== verification/Deploy_Props.thy ===== *)
theory Deploy_Props
  imports Deploy Composer_Runs
begin

text \<open>
  What a deployment leaves behind, its revisions, and what a cancellation does to one that is over.
\<close>

section \<open>Rows\<close>

lemma get_row_simps [simp]:
  "get_row [] i = None" "get_row (r # rows) i = (if row_id r = i then Some r else get_row rows i)"
  by (simp_all add: get_row_def)

lemma get_row_update:
  "(\<And>r. row_id (f r) = row_id r) \<Longrightarrow>
   get_row (update_where (\<lambda>r. row_id r = i) f rows) i = map_option f (get_row rows i)"
  by (induction rows) auto

lemma get_live_status:
  "get_live (update_where (\<lambda>r. row_id r = i \<and> live r) f rows) i = map_option f (get_live rows i)"
  if "\<And>r. row_id (f r) = row_id r" "\<And>r. live (f r) = live r"
  using that by (induction rows) auto

lemma modified_base [simp]:
  "row_id new = row_id old \<Longrightarrow> row_id (modified now old new) = row_id old"
  "live new = live old \<Longrightarrow> live (modified now old new) = live old"
  by (simp_all add: modified_def)

section \<open>Runs of the pipeline\<close>

text \<open>A task alone: one step per answer of the cluster, at the given times.\<close>

fun run_pipeline ::
    "(timestamp \<times> answer) list \<Rightarrow> deploy_ctx \<Rightarrow> stage \<Rightarrow> 'z cluster_scheme \<Rightarrow> 'z cluster_scheme \<times> stage" where
  "run_pipeline [] x st c = (c, st)"
| "run_pipeline ((now, ans) # rest) x st c =
     (case pipeline_step now ans x st c of (c1, st1) \<Rightarrow> run_pipeline rest x st1 c1)"

fun steps_left :: "stage \<Rightarrow> nat" where
  "steps_left Connecting = 310"
| "steps_left (Applying k) = 303 + (7 - k)"
| "steps_left (Watching n) = 2 + (300 - n)"
| "steps_left Marking_instance = 2"
| "steps_left Marking_record = 1"
| "steps_left Finished = 0"

lemma finished_stays: "run_pipeline rest x Finished c = (c, Finished)"
  by (induction rest) (auto simp: pipeline_step_def)

text \<open>The status of the record and of the Instance of a deployment.\<close>

definition statuses :: "deploy_ctx \<Rightarrow> 'z db_scheme \<Rightarrow> deploy_status option \<times> instance_status option" where
  "statuses x s = (map_option dr_status (get_row (deploy_records s) (dc_record_id x)),
                   map_option ins_status (get_live (instances s) (dc_instance_id x)))"

definition known :: "deploy_ctx \<Rightarrow> 'z db_scheme \<Rightarrow> bool" where
  "known x s \<longleftrightarrow> get_row (deploy_records s) (dc_record_id x) \<noteq> None \<and> get_live (instances s) (dc_instance_id x) \<noteq> None"

lemma publish_frame [simp]:
  "deploy_records (publish x k st m c) = deploy_records c" "instances (publish x k st m c) = instances c"
  "k8s_log (publish x k st m c) = k8s_log c" "pipelines (publish x k st m c) = pipelines c"
  by (simp_all add: publish_def)

lemma same_rows:
  "deploy_records c' = deploy_records c \<Longrightarrow> instances c' = instances c \<Longrightarrow> statuses x c' = statuses x c \<and> known x c' = known x c"
  by (simp add: statuses_def known_def)

lemma update_record_status:
  assumes "known x s" and "\<And>r. row_id (f r) = row_id r" and "\<And>r. dr_status (f r) = st"
  shows "statuses x (update_record now (dc_record_id x) f s) = (Some st, snd (statuses x s))"
    and "known x (update_record now (dc_record_id x) f s)"
proof -
  have "dr_status (modified now r (f r)) = dr_status (f r)" for r
    by (rule modified_field) (simp add: touch_def)
  with assms show "statuses x (update_record now (dc_record_id x) f s) = (Some st, snd (statuses x s))"
    "known x (update_record now (dc_record_id x) f s)"
    by (auto simp: statuses_def known_def update_record_def get_row_update)
qed

lemma set_status_statuses:
  assumes "known x s"
  shows "statuses x (set_status now (dc_instance_id x) st s) = (fst (statuses x s), Some st)"
    and "known x (set_status now (dc_instance_id x) st s)"
proof -
  have "ins_status (modified now i (i\<lparr>ins_status := st\<rparr>)) = st" for i
    by (subst modified_field) (simp_all add: touch_def)
  moreover have "get_live (update_where (\<lambda>i. row_id i = dc_instance_id x \<and> live i)
      (\<lambda>i. modified now i (i\<lparr>ins_status := st\<rparr>)) (instances s)) (dc_instance_id x) =
    map_option (\<lambda>i. modified now i (i\<lparr>ins_status := st\<rparr>)) (get_live (instances s) (dc_instance_id x))"
    by (rule get_live_status) (simp_all add: live_def modified_def touch_def)
  ultimately show "statuses x (set_status now (dc_instance_id x) st s) = (fst (statuses x s), Some st)"
    "known x (set_status now (dc_instance_id x) st s)"
    using assms by (auto simp: statuses_def known_def set_status_def)
qed

text \<open>What has become true of the deployment when its task is over.\<close>

definition settled :: "deploy_ctx \<Rightarrow> 'z cluster_scheme \<Rightarrow> bool" where
  "settled x c \<longleftrightarrow> statuses x c = (Some DS_success, Some I_running) \<or>
     statuses x c = (Some DS_failed, Some I_failed) \<and> Delete_namespace (namespace_for (dc_instance_id x)) \<in> set (k8s_log c)"

lemma pipeline_failed_settled: "known x c \<Longrightarrow> settled x (pipeline_failed now x m c)"
proof -
  assume k: "known x c"
  let ?f = "\<lambda>r. r\<lparr>dr_status := DS_failed, dr_message := Some (take 500 m)\<rparr>"
  let ?d = "set_status now (dc_instance_id x) I_failed (update_record now (dc_record_id x) ?f c)"
  have "statuses x ?d = (Some DS_failed, Some I_failed)"
    using update_record_status [OF k, of ?f DS_failed now] by (simp add: set_status_statuses)
  moreover have "statuses x (pipeline_failed now x m c) = statuses x ?d"
    by (simp add: pipeline_failed_def statuses_def teardown_instance_namespace_def ask_k8s_def)
  ultimately show ?thesis
    by (simp add: settled_def pipeline_failed_def teardown_instance_namespace_def ask_k8s_def)
qed

text \<open>Before the last stage the record is as it was, and the Instance too until it is marked.\<close>

definition on_the_way :: "deploy_ctx \<Rightarrow> stage \<Rightarrow> 'z cluster_scheme \<Rightarrow> bool" where
  "on_the_way x st c \<longleftrightarrow> known x c \<and> (st = Marking_record \<longrightarrow> snd (statuses x c) = Some I_running)"

lemma publish_statuses [simp]:
  "statuses x (publish y k st m c) = statuses x c" "known x (publish y k st m c) = known x c"
  "settled x (publish y k st m c) = settled x c"
  by (simp_all add: statuses_def known_def settled_def)

definition progresses :: "deploy_ctx \<Rightarrow> stage \<Rightarrow> 'z cluster_scheme \<times> stage \<Rightarrow> bool" where
  "progresses x st r = (case r of (c', st') \<Rightarrow>
     if st' = Finished then settled x c'
     else st' \<noteq> Connecting \<and> on_the_way x st' c' \<and> steps_left st' < steps_left st)"

lemma pipeline_step_progress:
  assumes "on_the_way x st c" and "st \<noteq> Connecting" and "st \<noteq> Finished" and "\<forall>k. st = Applying k \<longrightarrow> k \<le> 7"
  shows "progresses x st (pipeline_step now ans x st c)"
proof -
  have k: "known x c" using assms(1) by (simp add: on_the_way_def)
  show ?thesis
  proof (cases st)
    case (Applying n)
    with assms(4) k pipeline_failed_settled [OF k] show ?thesis
      by (auto simp: pipeline_step_def progresses_def on_the_way_def pipeline_failed_settled Let_def split: answer.splits)
  next
    case (Watching n)
    with k pipeline_failed_settled [OF k] show ?thesis
      by (auto simp: pipeline_step_def progresses_def on_the_way_def DEPLOY_PIPELINE_TIMEOUT_SECONDS_def
          split: answer.splits option.splits)
  next
    case Marking_instance
    have "fk_exists (deploy_records c) (dc_record_id x)"
      using k by (auto simp: known_def get_row_def fk_exists_def list_ex_iff first_where_None_iff)
    with Marking_instance k show ?thesis
      by (simp add: pipeline_step_def progresses_def on_the_way_def run_post_ready_instance_steps_def set_status_statuses)
  next
    case Marking_record
    with assms(1) k update_record_status [OF k, of "\<lambda>r. r\<lparr>dr_status := DS_success\<rparr>" DS_success now] show ?thesis
      by (simp add: pipeline_step_def progresses_def on_the_way_def settled_def)
  qed (use assms in auto)
qed

lemma run_pipeline_settles:
  assumes "on_the_way x st c" and "st \<noteq> Connecting" and "st \<noteq> Finished" and "\<forall>k. st = Applying k \<longrightarrow> k \<le> 7"
    and "steps_left st \<le> length answers"
  shows "\<exists>c'. run_pipeline answers x st c = (c', Finished) \<and> settled x c'"
  using assms
proof (induction answers arbitrary: st c)
  case Nil
  then show ?case by (cases st) auto
next
  case (Cons a answers)
  obtain now ans where a: "a = (now, ans)" by (cases a)
  obtain c1 st1 where step: "pipeline_step now ans x st c = (c1, st1)" by (cases "pipeline_step now ans x st c")
  from pipeline_step_progress [OF Cons.prems(1-4), of now ans]
  have p: "if st1 = Finished then settled x c1
      else st1 \<noteq> Connecting \<and> on_the_way x st1 c1 \<and> steps_left st1 < steps_left st"
    by (simp add: progresses_def step)
  show ?case
  proof (cases "st1 = Finished")
    case True
    with p show ?thesis by (simp add: a step finished_stays)
  next
    case False
    have "\<forall>k. st1 = Applying k \<longrightarrow> k \<le> 7"
      using step Cons.prems(2) by (cases st) (auto simp: pipeline_step_def Let_def split: answer.splits if_splits option.splits)
    moreover have "steps_left st1 \<le> length answers" using p False Cons.prems(5) by simp
    ultimately show ?thesis using Cons.IH [of st1 c1] p False by (simp add: a step)
  qed
qed


text \<open>
  A cancellation is not only for deployments that run: whoever is logged in may cancel one that
  has succeeded. The record is then cancelled and the namespace of the running Instance is asked to
  go, while the Instance stays running.
\<close>

theorem cancel_after_success:
  assumes "get_live (deploy_records c) rid = Some r" and "distinct (map row_id (deploy_records c))"
    and "dr_status r = DS_success" and "get_row (instances c) (dr_instance_id r) = Some i" and "ins_status i = I_running"
  shows "\<exists>c' r'. deploy_cancel now rid uid c = Inr (c', namespace_for (dr_instance_id r)) \<and>
    get_row (deploy_records c') rid = Some r' \<and> dr_status r' = DS_cancelled \<and>
    k8s_log c' = k8s_log c @ [Delete_namespace (namespace_for (dr_instance_id r))] \<and> instances c' = instances c"
proof -
  have r: "get_row (deploy_records c) rid = Some r"
    using get_live_SomeD [OF assms(1)] assms(2)
    unfolding get_row_def by (intro first_where_unique) (auto simp: distinct_map inj_on_def)
  have i: "row_id i = dr_instance_id r" using assms(4) unfolding get_row_def by (auto dest: first_where_SomeD)
  have "dr_status (modified now r (cancel_record r)) = DS_cancelled"
    by (subst modified_field) (simp_all add: touch_def cancel_record_def)
  moreover have "namespace_for (dr_instance_id r) \<noteq> []" by (simp add: namespace_for_def)
  moreover have "row_id (modified now q (cancel_record q)) = row_id q" for q by (simp add: cancel_record_def)
  ultimately show ?thesis
    using r assms(1,4) i
    by (simp add: deploy_cancel_def load_active_record_def cancel_deploy_def cancel_deploy_task_def Let_def
        update_record_def ask_k8s_def get_row_update)
qed

section \<open>Revisions\<close>

lemma next_revision_greatest:
  assumes "r \<in> set (deploy_records s)" and "live r" and "dr_instance_id r = iid"
  shows "revision r < next_deploy_revision iid s"
proof -
  let ?rs = "filter (\<lambda>r. dr_instance_id r = iid \<and> live r) (deploy_records s)"
  have "r \<in> set (sort_key (\<lambda>r. - revision r) ?rs)" using assms by simp
  moreover have "sorted (map (\<lambda>r. - revision r) (sort_key (\<lambda>r. - revision r) ?rs))" by simp
  ultimately show ?thesis
    unfolding next_deploy_revision_def by (cases "sort_key (\<lambda>r. - revision r) ?rs") (auto simp del: set_sort)
qed

lemma bundle_records: "deploy_records (fst (build_agent_bundle compose now iid s)) = deploy_records s"
  by (auto simp: build_agent_bundle_def replace_instance_def Let_def split: option.splits sum.splits)

text \<open>
  However a deployment of an Instance ends, the revisions of the live records stay unique per
  Instance, and when one is recorded its revision is greater than those before.
\<close>

theorem deploy_revisions_grow:
  assumes "deploy_existing_instance compose pi getenv now iid version n extra by s = (s', res)"
    and "uq_deploy_records_instance_revision (deploy_records s)"
  shows "uq_deploy_records_instance_revision (deploy_records s') \<and>
    (\<forall>rid x. res = Inr (rid, x) \<longrightarrow> (\<exists>r. deploy_records s' = deploy_records s @ [r] \<and> row_id r = rid \<and>
       dr_status r = DS_running \<and> dr_instance_id r = iid \<and>
       (\<forall>q \<in> set (deploy_records s). live q \<longrightarrow> dr_instance_id q = iid \<longrightarrow> revision q < revision r)))"
proof -
  let ?r = "new_deploy_record (new_id s) now iid (next_deploy_revision iid s) (str_or version ENGINE_VERSION) by"
  have "deploy_records s' = deploy_records s \<and> is_ok res = False \<or>
    deploy_records s' = deploy_records s @ [?r] \<and> (\<forall>rid x. res = Inr (rid, x) \<longrightarrow> rid = row_id ?r)"
    using assms(1) bundle_records [of compose now iid "(take_id s)\<lparr>deploy_records := deploy_records s @ [?r]\<rparr>"]
    by (auto simp: deploy_existing_instance_def Let_def split: option.splits if_splits prod.splits sum.splits)
  moreover have "uq_deploy_records_instance_revision (deploy_records s @ [?r])"
    using assms(2) next_revision_greatest [of _ s iid]
    by (fastforce simp: uq_deploy_records_instance_revision_def unique_on_append new_deploy_record_def)
  ultimately show ?thesis
    using assms(2) next_revision_greatest [of _ s iid] by (auto simp: new_deploy_record_def)
qed

section \<open>A deployment to evaluate on\<close>

definition sample_record :: deploy_record where
  "sample_record = new_deploy_record ''d'' 1 ''x'' 1 ENGINE_VERSION None"

definition sample_ctx :: deploy_ctx where
  "sample_ctx = deploy_ctx_of ''d'' ''x'' ENGINE_VERSION 1 [] [] ''w'' None"

definition sample_cluster :: "deploy_status \<Rightarrow> cluster" where
  "sample_cluster st = (process.extend sample_process (cluster.fields [] [] []))
     \<lparr>deploy_records := [sample_record\<lparr>dr_status := st\<rparr>]\<rparr>"


theorem cancel_after_success_witness:
  "\<exists>c' r'. deploy_cancel 9 ''d'' ''anyone'' (sample_cluster DS_success) = Inr (c', namespace_for ''x'') \<and>
     get_row (deploy_records c') ''d'' = Some r' \<and> dr_status r' = DS_cancelled"
proof -
  let ?r = "sample_record\<lparr>dr_status := DS_success\<rparr>"
  have "get_live (deploy_records (sample_cluster DS_success)) ''d'' = Some ?r"
    "distinct (map row_id (deploy_records (sample_cluster DS_success)))" "dr_status ?r = DS_success"
    "get_row (instances (sample_cluster DS_success)) (dr_instance_id ?r) = Some fox" "ins_status fox = I_running"
    "dr_instance_id ?r = ''x''"
    by code_simp+
  with cancel_after_success [OF this(1-5), of 9 "''anyone''"] show ?thesis by auto
qed

theorem deploy_revisions_grow_witness:
  "\<exists>s' res. deploy_existing_instance (\<lambda>_. True) [] Map.empty 9 ''x'' None 1 [] None (sample_cluster DS_success) = (s', res) \<and>
     uq_deploy_records_instance_revision (deploy_records s')"
proof -
  obtain s' res where r: "deploy_existing_instance (\<lambda>_. True) [] Map.empty 9 ''x'' None 1 [] None (sample_cluster DS_success) = (s', res)"
    by (cases "deploy_existing_instance (\<lambda>_. True) [] Map.empty 9 ''x'' None 1 [] None (sample_cluster DS_success)")
  have "uq_deploy_records_instance_revision (deploy_records (sample_cluster DS_success))" by code_simp
  with deploy_revisions_grow [OF r] r show ?thesis by blast
qed

end
