(* ===== verification/Instances.thy ===== *)
theory Instances
  imports Deploy Log_Queries Messaging Harness_Api
begin

text \<open>
  Instances and their life cycle (\<^verbatim>\<open>app/api/v1/instances.py\<close>, \<^verbatim>\<open>app/schemas/instance.py\<close>,
  \<^verbatim>\<open>instance_actions.py\<close>): the factory that introduces them (\<^verbatim>\<open>app/services/instance_factory.py\<close>,
  \<^verbatim>\<open>app/core/workspace.py\<close>), the restart (\<^verbatim>\<open>app/services/instance_restart.py\<close>), the status that people
  see (\<^verbatim>\<open>app/core/avatar_status.py\<close>).
\<close>

section \<open>Display\<close>

fun status_text :: "instance_status \<Rightarrow> string" where
  "status_text I_creating = ''creating''" | "status_text I_pending = ''pending''"
| "status_text I_deploying = ''deploying''" | "status_text I_running = ''running''"
| "status_text I_restarting = ''restarting''" | "status_text I_failed = ''failed''"
| "status_text I_deleting = ''deleting''"

definition compute_avatar_display_status :: "string \<Rightarrow> bool \<Rightarrow> string" where
  "compute_avatar_display_status instance_status in_conversation =
     (let st = lower (strip instance_status)
      in if st = ''deleting'' then ''deleting'' else if st = ''restarting'' then ''restarting''
         else if st \<in> {''creating'', ''deploying''} then ''starting'' else if st = ''failed'' then ''start_failed''
         else if st = ''pending'' then ''stopped''
         else if st = ''running'' then (if in_conversation then ''busy'' else ''idle'') else ''idle'')"

record instance_out =
  io_row :: instance_row
  io_display_status :: "string option"
  io_in_conversation :: bool

definition instance_out_of :: "instance_row \<Rightarrow> 'z process_scheme \<Rightarrow> instance_out" where
  "instance_out_of i p =
     (let talking = instance_has_active_turn (row_id i) p
      in \<lparr>io_row = i, io_display_status = Some (compute_avatar_display_status (status_text (ins_status i)) talking),
          io_in_conversation = talking\<rparr>)"

section \<open>Spawning\<close>

definition generate_workspace_path :: "string \<Rightarrow> ident \<Rightarrow> string" where
  "generate_workspace_path slug iid = ''.pi/workspace/'' @ slug @ ''-'' @ take 8 iid @ ''/''"

text \<open>The first cell of the 40 by 40 grid, row by row, that is not occupied; else the corner.\<close>

definition grid :: "(int \<times> int) list" where
  "grid = concat (map (\<lambda>row. map (\<lambda>col. (int col * 120, int row * 120)) [0..<40]) [0..<40])"

definition free_cell :: "(int \<times> int) list \<Rightarrow> int \<times> int" where
  "free_cell occupied = (case first_where (\<lambda>c. c \<notin> set occupied) grid of None \<Rightarrow> (0, 0) | Some c \<Rightarrow> c)"

definition instance_event :: "string \<Rightarrow> ident option \<Rightarrow> ident option \<Rightarrow> json_obj \<Rightarrow> event_args" where
  "instance_event ty uid iid payload = \<lparr>ea_type = ty, ea_actor_type = ''user'', ea_actor_id = uid,
     ea_resource_type = Some ''instance'', ea_resource_id = iid, ea_payload = payload, ea_request_id = None\<rparr>"

definition knowledge_warning :: "string list \<Rightarrow> json_obj" where
  "knowledge_warning missing = [(''missing'', JList (map JStr missing))]"

definition emit_inconsistent ::
    "'z db_scheme handlers \<Rightarrow> timestamp \<Rightarrow> ident option \<Rightarrow> ident \<Rightarrow> ident \<Rightarrow> string list option \<Rightarrow> 'z db_scheme \<Rightarrow> 'z db_scheme" where
  "emit_inconsistent hs now uid iid eid warning s =
     (case warning of
        None \<Rightarrow> s
      | Some missing \<Rightarrow> fst (emit hs now (instance_event INSTANCE_KNOWLEDGE_INCONSISTENT uid (Some iid)
          (knowledge_warning missing @ [(''entity_id'', JStr eid)])) s))"

record introduction =
  intro_path :: "string option"
  intro_config :: "json_obj option"
  intro_namespace_match :: bool
  intro_ensure_hash :: bool
  intro_conflict :: "(string \<times> string) option"

definition conflict_of :: "introduction \<Rightarrow> eyot_error" where
  "conflict_of opts = (case intro_conflict opts of
      Some (code, key) \<Rightarrow> ConflictError code key
    | None \<Rightarrow> ConflictError ''instance.entity_already_introduced'' ''errors.instance.entity_already_introduced'')"

text \<open>The fingerprint of the new Instance, and the Entity as the introduction leaves it.\<close>

definition spawn_hash ::
    "(string \<Rightarrow> string) \<Rightarrow> timestamp \<Rightarrow> introduction \<Rightarrow> entity \<Rightarrow> 'z db_scheme \<Rightarrow> ('z db_scheme \<times> entity \<times> string) result" where
  "spawn_hash sha now opts e s =
     (if intro_ensure_hash opts \<and> truthy (migration_hash e) then Inr (s, e, the (migration_hash e))
      else case compute_entity_migration_hash sha e s of
             Inl err \<Rightarrow> Inl err
           | Inr h \<Rightarrow>
               if intro_ensure_hash opts
               then let e1 = touch now (e\<lparr>migration_hash := Some h\<rparr>)
                    in Inr (s\<lparr>entities := update_where (\<lambda>r. row_id r = row_id e) (\<lambda>_. e1) (entities s)\<rparr>, e1, h)
               else Inr (s, e, h))"

text \<open>The configuration that the Instance starts with and the warning that comes with it.\<close>

definition spawn_config ::
    "introduction \<Rightarrow> entity \<Rightarrow> ident \<Rightarrow> 'z db_scheme \<Rightarrow> (json_obj \<times> string list option) result" where
  "spawn_config opts e ws s =
     (case resolve_instance_agent_config e s of
        Inl err \<Rightarrow> Inl err
      | Inr config \<Rightarrow>
         (case build_spawn_knowledge_payload e (Some ws) s of
            Inl err \<Rightarrow> Inl err
          | Inr payload \<Rightarrow>
             (case check_knowledge_consistency e s of
                Inl err \<Rightarrow> Inl err
              | Inr warning \<Rightarrow>
                 (let rc = jset ''agent_config'' (JObj config) (case intro_config opts of None \<Rightarrow> [] | Some ob \<Rightarrow> ob)
                  in Inr (case payload of None \<Rightarrow> rc | Some k \<Rightarrow> jset ''knowledge'' (JObj k) rc, warning)))))"

definition new_instance :: "ident \<Rightarrow> timestamp \<Rightarrow> ident \<Rightarrow> ident \<Rightarrow> string \<Rightarrow> json_obj \<Rightarrow> ident \<Rightarrow> string \<Rightarrow> instance_row" where
  "new_instance i now eid ws path rc proxy h = \<lparr>row_id = i, created_at = now, updated_at = now, deleted_at = None,
     ins_entity_id = eid, ins_workspace_id = ws, workspace_path = Some path, ins_status = I_creating,
     runtime_config = Some rc, proxy_token = Some proxy, active_hash = Some h\<rparr>"

definition new_instance_seat :: "ident \<Rightarrow> timestamp \<Rightarrow> ident \<Rightarrow> ident \<Rightarrow> int \<times> int \<Rightarrow> membership" where
  "new_instance_seat i now ws iid cell = \<lparr>row_id = i, created_at = now, updated_at = now, deleted_at = None,
     mem_workspace_id = ws, mem_user_id = None, mem_instance_id = Some iid, posx = fst cell, posy = snd cell,
     mem_permissions = None\<rparr>"

text \<open>
  The row is flushed outside the \<open>try\<close> that turns integrity errors into conflicts, and the seat is
  flushed with the first event, so every integrity error here is an unhandled one.
\<close>

definition place_at ::
    "'z db_scheme handlers \<Rightarrow> timestamp \<Rightarrow> ident \<Rightarrow> entity \<Rightarrow> string \<Rightarrow> json_obj \<Rightarrow> string \<Rightarrow> string list option
     \<Rightarrow> ident option \<Rightarrow> 'z db_scheme \<Rightarrow> ('z db_scheme \<times> instance_row \<times> membership) result" where
  "place_at hs now ws e path rc h warning uid s =
     (let s1 = take_id s;
          i = new_instance (new_id s1) now (row_id e) ws path rc (new_id s) h;
          s2 = (take_id s1)\<lparr>instances := instances s @ [i]\<rparr>;
          m = new_instance_seat (new_id s2) now ws (row_id i) (free_cell (map (\<lambda>m. (posx m, posy m))
                (filter (\<lambda>m. mem_workspace_id m = ws \<and> live m) (memberships s))));
          s3 = (take_id s2)\<lparr>memberships := memberships s @ [m]\<rparr>
      in if \<not> instances_integrity s2 i \<or> \<not> memberships_integrity s2 (memberships s3) m then Inl unhandled_error
         else Inr (emit_inconsistent hs now uid (row_id i) (row_id e) warning
                (fst (emit hs now (instance_event INSTANCE_CREATED uid (Some (row_id i))
                  [(''workspace_path'', JStr path), (''workspace_id'', JStr ws)]) s3)), i, m))"

definition place_instance ::
    "'z db_scheme handlers \<Rightarrow> timestamp \<Rightarrow> ident \<Rightarrow> entity \<Rightarrow> string option \<Rightarrow> json_obj \<Rightarrow> string \<Rightarrow> string list option
     \<Rightarrow> ident option \<Rightarrow> 'z db_scheme \<Rightarrow> ('z db_scheme \<times> instance_row \<times> membership) result" where
  "place_instance hs now ws e path rc h warning uid s =
     (if truthy path then place_at hs now ws e (the path) rc h warning uid s
      else place_at hs now ws e (generate_workspace_path (ent_slug e) (new_id s)) rc h warning uid (take_id s))"

definition create_introduced_instance ::
    "(string \<Rightarrow> string) \<Rightarrow> 'z db_scheme handlers \<Rightarrow> timestamp \<Rightarrow> ident \<Rightarrow> ident \<Rightarrow> introduction \<Rightarrow> ident option \<Rightarrow> 'z db_scheme
     \<Rightarrow> ('z db_scheme \<times> instance_row \<times> membership \<times> string list option) result" where
  "create_introduced_instance sha hs now eid ws opts uid s =
     (case get_live (workspaces s) ws of
        None \<Rightarrow> Inl (NotFoundError ''workspace.not_found'' ''errors.workspace.not_found'')
      | Some w \<Rightarrow>
         (case get_live (entities s) eid of
            None \<Rightarrow> Inl (NotFoundError ''entity.not_found'' ''errors.entity.not_found'')
          | Some e \<Rightarrow>
             if intro_namespace_match opts \<and> ent_namespace_id e \<noteq> ws_namespace_id w
             then Inl (ConflictError ''entity.namespace_mismatch'' ''errors.entity.namespace_mismatch'')
             else (case scalar_one_or_none (filter (\<lambda>i. ins_workspace_id i = ws \<and> ins_entity_id i = eid \<and> live i)
                          (instances s)) of
                     Inl err \<Rightarrow> Inl err
                   | Inr (Some i) \<Rightarrow> Inl (conflict_of opts)
                   | Inr None \<Rightarrow>
                      (case spawn_hash sha now opts e s of
                         Inl err \<Rightarrow> Inl err
                       | Inr (s1, e1, h) \<Rightarrow>
                          (case spawn_config opts e1 ws s1 of
                             Inl err \<Rightarrow> Inl err
                           | Inr (rc, warning) \<Rightarrow>
                              map_sum id (\<lambda>(s2, i, m). (s2, i, m, warning))
                                (place_instance hs now ws e1 (intro_path opts) rc h warning uid s1))))))"

record instance_create =
  ic_entity_id :: ident
  ic_workspace_id :: ident
  ic_workspace_path :: "string option"
  ic_runtime_config :: "json_obj option"

definition create_instance ::
    "(string \<Rightarrow> string) \<Rightarrow> 'z db_scheme handlers \<Rightarrow> timestamp \<Rightarrow> instance_create \<Rightarrow> ident \<Rightarrow> ident option \<Rightarrow> 'z db_scheme
     \<Rightarrow> ('z db_scheme \<times> instance_row \<times> string list option) result" where
  "create_instance sha hs now b uid x_org s =
     (case get_live (entities s) (ic_entity_id b) of
        None \<Rightarrow> Inl (NotFoundError ''entity.not_found'' ''errors.entity.not_found'')
      | Some e \<Rightarrow>
         (case get_live (workspaces s) (ic_workspace_id b) of
            None \<Rightarrow> Inl (NotFoundError ''workspace.not_found'' ''errors.workspace.not_found'')
          | Some w \<Rightarrow>
             (case require_workspace_permission uid (ic_workspace_id b) ''can_edit_workspace'' x_org s of
                Inl err \<Rightarrow> Inl err
              | Inr _ \<Rightarrow>
                 map_sum id (\<lambda>(s1, i, _, warning). (s1, i, warning))
                   (create_introduced_instance sha hs now (ic_entity_id b) (ic_workspace_id b)
                      \<lparr>intro_path = ic_workspace_path b, intro_config = ic_runtime_config b,
                       intro_namespace_match = False, intro_ensure_hash = False,
                       intro_conflict = Some (''instance.already_exists'', ''errors.instance.already_exists'')\<rparr>
                      (Some uid) s))))"

section \<open>Reads\<close>

definition list_instances ::
    "ident \<Rightarrow> ident option \<Rightarrow> int \<Rightarrow> int \<Rightarrow> ident option \<Rightarrow> ident option \<Rightarrow> string option \<Rightarrow> 'z process_scheme
     \<Rightarrow> instance_out offset_page result" where
  "list_instances uid x_org limit offset eid ws st p =
     (case (case ws of None \<Rightarrow> Inr () | Some w \<Rightarrow> require_workspace_permission uid w ''can_view_workspace'' x_org p) of
        Inl e \<Rightarrow> Inl e
      | Inr _ \<Rightarrow>
         (if min limit 200 < 0 \<or> offset < 0 then Inl unhandled_error
          else let mine = map mem_workspace_id (filter (\<lambda>m. mem_user_id m = Some uid \<and> live m) (memberships p));
                   rows = sort_key created_at (filter (\<lambda>i. live i \<and>
                     (case eid of None \<Rightarrow> True | Some e \<Rightarrow> ins_entity_id i = e) \<and>
                     (case ws of None \<Rightarrow> ins_workspace_id i \<in> set mine | Some w \<Rightarrow> ins_workspace_id i = w) \<and>
                     (case st of None \<Rightarrow> True | Some x \<Rightarrow> status_text (ins_status i) = x)) (instances p));
                   page = paginate_offset rows (nat offset) (nat (min limit 200))
               in Inr \<lparr>op_items = map (\<lambda>i. instance_out_of i p) (op_items page), op_offset = op_offset page,
                       op_limit = op_limit page, op_total = op_total page\<rparr>))"

definition instance_with_permission ::
    "ident \<Rightarrow> string \<Rightarrow> ident \<Rightarrow> ident option \<Rightarrow> 'z db_scheme \<Rightarrow> instance_row result" where
  "instance_with_permission iid atom uid x_org s =
     (case get_instance_or_404 iid s of
        Inl e \<Rightarrow> Inl e
      | Inr i \<Rightarrow> map_sum id (\<lambda>_. i) (require_workspace_permission uid (ins_workspace_id i) atom x_org s))"

definition get_instance :: "ident \<Rightarrow> ident \<Rightarrow> ident option \<Rightarrow> 'z process_scheme \<Rightarrow> instance_out result" where
  "get_instance iid uid x_org p =
     map_sum id (\<lambda>i. instance_out_of i p) (instance_with_permission iid ''can_view_workspace'' uid x_org p)"

definition instance_tunnel_status :: "wire \<Rightarrow> ident \<Rightarrow> ident \<Rightarrow> ident option \<Rightarrow> 'z process_scheme \<Rightarrow> bool result" where
  "instance_tunnel_status net iid uid x_org p =
     map_sum id (\<lambda>_. is_connected net iid p) (instance_with_permission iid ''can_view_workspace'' uid x_org p)"

definition resolve_instance_knowledge ::
    "ident \<Rightarrow> ident \<Rightarrow> ident option \<Rightarrow> 'z db_scheme \<Rightarrow> knowledge_entry list result" where
  "resolve_instance_knowledge iid uid x_org s =
     map_sum id (\<lambda>i. resolve_knowledge_for_instance i s) (instance_with_permission iid ''can_view_workspace'' uid x_org s)"

section \<open>Changes\<close>

record instance_update =
  iu_runtime_config :: "json_obj patch"
  iu_workspace_path :: "string patch"

definition update_instance ::
    "timestamp \<Rightarrow> ident \<Rightarrow> instance_update \<Rightarrow> ident \<Rightarrow> ident option \<Rightarrow> 'z db_scheme
     \<Rightarrow> ('z db_scheme \<times> instance_row) result" where
  "update_instance now iid b uid x_org s =
     (case instance_with_permission iid ''can_edit_workspace'' uid x_org s of
        Inl e \<Rightarrow> Inl e
      | Inr i \<Rightarrow>
         (let i1 = modified now i (i\<lparr>
                runtime_config := (case iu_runtime_config b of None \<Rightarrow> runtime_config i | Some rc \<Rightarrow> rc),
                workspace_path := (case iu_workspace_path b of None \<Rightarrow> workspace_path i | Some p \<Rightarrow> p)\<rparr>);
              s1 = replace_instance i1 s
          in if uq_instances_workspace_path (instances s1) then Inr (s1, i1)
             else Inl (ConflictError ''instance.workspace_path_taken'' ''errors.instance.workspace_path_taken'')))"

definition delete_instance ::
    "'z cluster_scheme handlers \<Rightarrow> timestamp \<Rightarrow> ident \<Rightarrow> ident \<Rightarrow> ident option \<Rightarrow> 'z cluster_scheme \<Rightarrow> 'z cluster_scheme result" where
  "delete_instance hs now iid uid x_org c =
     (case instance_with_permission iid ''can_edit_workspace'' uid x_org c of
        Inl e \<Rightarrow> Inl e
      | Inr i \<Rightarrow>
         if ins_status i = I_deleting then Inr c
         else (let running = ins_status i = I_running;
                   c1 = (if running then scale_instance_runtime iid 0 c else c);
                   previous = (if running then I_pending else ins_status i);
                   c2 = replace_instance (touch now (i\<lparr>ins_status := I_deleting\<rparr>)) c1;
                   c3 = fst (emit hs now (instance_event INSTANCE_DELETED (Some uid) (Some iid)
                          [(''previous_status'', JStr (status_text previous))]) c2);
                   seats = map row_id (filter (\<lambda>m. mem_instance_id m = Some iid \<and> live m) (memberships c3));
                   c4 = c3\<lparr>memberships := update_where (\<lambda>m. mem_instance_id m = Some iid \<and> live m)
                             (soft_delete now) (memberships c3)\<rparr>;
                   c5 = c4\<lparr>passages := fst (soft_delete_passages_touching now seats (passages c4))\<rparr>;
                   c6 = c5\<lparr>instances := update_where (\<lambda>r. row_id r = iid) (soft_delete now) (instances c5)\<rparr>
               in Inr (teardown_instance_namespace iid c6)))"

definition update_transition ::
    "'z db_scheme handlers \<Rightarrow> timestamp \<Rightarrow> ident \<Rightarrow> instance_status list \<Rightarrow> instance_status \<Rightarrow> string \<Rightarrow> json_obj
     \<Rightarrow> ident \<Rightarrow> ident option \<Rightarrow> 'z db_scheme \<Rightarrow> ('z db_scheme \<times> instance_row) result" where
  "update_transition hs now iid allowed new ty payload uid x_org s =
     (case instance_with_permission iid ''can_edit_workspace'' uid x_org s of
        Inl e \<Rightarrow> Inl e
      | Inr i \<Rightarrow>
         if ins_status i \<notin> set allowed
         then Inl (ConflictError ''instance.invalid_transition'' ''errors.instance.invalid_transition'')
         else (let i1 = modified now i (i\<lparr>ins_status := new\<rparr>)
               in Inr (fst (emit hs now (instance_event ty (Some uid) (Some iid) payload) (replace_instance i1 s)), i1)))"

definition start_instance where
  "start_instance hs now iid uid x_org s =
     update_transition hs now iid [I_pending, I_deploying] I_running INSTANCE_STARTED [] uid x_org s"

definition stop_instance ::
    "'z cluster_scheme handlers \<Rightarrow> timestamp \<Rightarrow> ident \<Rightarrow> ident \<Rightarrow> ident option \<Rightarrow> 'z cluster_scheme
     \<Rightarrow> ('z cluster_scheme \<times> instance_row) result" where
  "stop_instance hs now iid uid x_org c =
     map_sum id (\<lambda>(c1, i). (scale_instance_runtime iid 0 c1, i))
       (update_transition hs now iid [I_running] I_pending INSTANCE_STOPPED [] uid x_org c)"

definition fail_instance where
  "fail_instance hs now iid reason uid x_org s =
     update_transition hs now iid [I_creating, I_pending, I_deploying, I_running, I_restarting, I_failed, I_deleting]
       I_failed INSTANCE_FAILED [(''reason'', JStr reason)] uid x_org s"

section \<open>Inject\<close>

definition ACTIVE_INSTANCE_STATUSES :: "instance_status list" where
  "ACTIVE_INSTANCE_STATUSES = [I_running, I_pending, I_creating, I_deploying]"

definition derive_delivery_mode :: "instance_row \<Rightarrow> 'z db_scheme \<Rightarrow> string" where
  "derive_delivery_mode i s =
     (case live_loop_state (row_id i) s of
        Some st \<Rightarrow> if loop_status st = L_running then ''soft_inject'' else ''wake''
      | None \<Rightarrow> if ins_status i \<in> set ACTIVE_INSTANCE_STATUSES then ''soft_inject'' else ''wake'')"

record inject_body =
  ib_kind :: string
  ib_delivery_mode :: "string option"
  ib_tldr :: "string option"
  ib_content_refs :: "json list"
  ib_gene_ids :: "string list"
  ib_capability_ids :: "string list"
  ib_report :: "json_obj option"

definition inject_enqueue_body :: "inject_body \<Rightarrow> unit result" where
  "inject_enqueue_body b =
     (if ib_kind b \<notin> set INJECT_KINDS \<or> (case ib_delivery_mode b of None \<Rightarrow> False | Some m \<Rightarrow> m \<notin> set DELIVERY_MODES)
      then Inl request_validation_error
      else validate_tldr (ib_tldr b) (report_prose_length (map_option JObj (ib_report b))))"

definition inject_payload :: "inject_body \<Rightarrow> json_obj" where
  "inject_payload b =
     [(''content_refs'', JList (ib_content_refs b)), (''gene_ids'', JList (map JStr (ib_gene_ids b))),
      (''capability_ids'', JList (map JStr (ib_capability_ids b)))] @
     (case ib_report b of None \<Rightarrow> [] | Some r \<Rightarrow> [(''report'', JObj r)]) @
     (if truthy (ib_tldr b) then [(''tldr'', JStr (the (ib_tldr b)))] else [])"

definition inject_instance ::
    "'z db_scheme handlers \<Rightarrow> timestamp \<Rightarrow> ident \<Rightarrow> inject_body \<Rightarrow> ident \<Rightarrow> ident option \<Rightarrow> 'z db_scheme
     \<Rightarrow> ('z db_scheme \<times> inject_row \<times> string) result" where
  "inject_instance hs now iid b uid x_org s =
     (case inject_enqueue_body b of
        Inl e \<Rightarrow> Inl e
      | Inr _ \<Rightarrow>
         (case instance_with_permission iid ''can_edit_workspace'' uid x_org s of
            Inl e \<Rightarrow> Inl e
          | Inr i \<Rightarrow>
             (let mode = str_or (ib_delivery_mode b) (derive_delivery_mode i s)
              in map_sum id (\<lambda>(s1, r). (s1, r, mode))
                   (enqueue_inject hs now iid (ib_kind b) mode (inject_payload b) (ib_tldr b) s))))"

section \<open>Deployment\<close>

definition is_k8s_available :: "(string \<Rightarrow> string option) \<Rightarrow> bool \<Rightarrow> bool" where
  "is_k8s_available getenv has_account =
     ((case getenv ''EYOT_K8S_DISABLED'' of None \<Rightarrow> True | Some v \<Rightarrow> lower v \<noteq> ''true'') \<and>
      (has_account \<or> getenv ''KUBECONFIG'' \<noteq> None \<or> getenv ''GATEWAY_KUBECONFIG'' \<noteq> None))"

definition refresh_instance_agent_config ::
    "(string \<Rightarrow> string) \<Rightarrow> 'z db_scheme handlers \<Rightarrow> timestamp \<Rightarrow> instance_row \<Rightarrow> ident option \<Rightarrow> 'z db_scheme
     \<Rightarrow> ('z db_scheme \<times> string list option) result" where
  "refresh_instance_agent_config sha hs now i uid s =
     (case get_live (entities s) (ins_entity_id i) of
        None \<Rightarrow> Inr (s, None)
      | Some e \<Rightarrow>
         (case resolve_instance_agent_config e s of
            Inl err \<Rightarrow> Inl err
          | Inr config \<Rightarrow>
             (case compute_entity_migration_hash sha e s of
                Inl err \<Rightarrow> Inl err
              | Inr h \<Rightarrow>
                 (case check_knowledge_consistency e s of
                    Inl err \<Rightarrow> Inl err
                  | Inr warning \<Rightarrow>
                     (let i1 = modified now i (i\<lparr>runtime_config := Some (jset ''agent_config'' (JObj config) (config_of i)),
                                active_hash := Some h\<rparr>)
                      in Inr (emit_inconsistent hs now uid (row_id i) (row_id e) warning (replace_instance i1 s), warning))))))"

datatype deployed = Transitioned instance_row | Deploying ident deploy_ctx "string list option"

record environment =
  en_getenv :: "string \<Rightarrow> string option"
  en_service_account :: bool
  en_sha :: "string \<Rightarrow> string"
  en_compose :: "json_obj \<Rightarrow> bool"
  en_provider :: "ident \<Rightarrow> (string \<times> string) list"

definition deploy_instance_endpoint ::
    "environment \<Rightarrow> 'z cluster_scheme handlers \<Rightarrow> timestamp \<Rightarrow> ident \<Rightarrow> ident \<Rightarrow> ident option \<Rightarrow> 'z cluster_scheme
     \<Rightarrow> ('z cluster_scheme \<times> deployed) result" where
  "deploy_instance_endpoint env hs now iid uid x_org c =
     (case instance_with_permission iid ''can_edit_workspace'' uid x_org c of
        Inl e \<Rightarrow> Inl e
      | Inr i \<Rightarrow>
         (case refresh_instance_agent_config (en_sha env) hs now i (Some uid) c of
            Inl e \<Rightarrow> Inl e
          | Inr (c1, warning) \<Rightarrow>
             if \<not> is_k8s_available (en_getenv env) (en_service_account env)
             then map_sum id (\<lambda>(c2, i1). (c2, Transitioned i1))
                    (update_transition hs now iid [I_creating, I_restarting] I_deploying INSTANCE_DEPLOYED [] uid x_org c1)
             else (case deploy_existing_instance (en_compose env) (en_provider env iid) (en_getenv env) now iid None 1 []
                          (Some uid) c1 of
                     (_, Inl e) \<Rightarrow> Inl e
                   | (c2, Inr (rid, x)) \<Rightarrow> Inr (execute_deploy_pipeline x c2, Deploying rid x warning))))"

section \<open>Restart\<close>

record restart_outcome =
  ro_old_hash :: "string option"
  ro_new_hash :: "string option"
  ro_status_after :: instance_status
  ro_record_id :: "ident option"
  ro_deploy_started :: bool

text \<open>When starting the deployment raises, what it had flushed is committed with the failure.\<close>

definition restart_instance_runtime ::
    "environment \<Rightarrow> 'z cluster_scheme handlers \<Rightarrow> timestamp \<Rightarrow> instance_row \<Rightarrow> entity \<Rightarrow> ident \<Rightarrow> string option \<Rightarrow> bool
     \<Rightarrow> 'z cluster_scheme \<Rightarrow> 'z cluster_scheme \<times> restart_outcome" where
  "restart_instance_runtime env hs now i e by reason force c =
     (let running = ins_status i = I_running;
          c1 = (if running then scale_instance_runtime (row_id i) 0 c else c);
          i1 = touch now (i\<lparr>ins_status := I_deploying, active_hash := migration_hash e\<rparr>);
          c2 = fst (emit hs now (instance_event INSTANCE_RESTARTED (Some by) (Some (row_id i))
                 [(''old_hash'', opt_json (active_hash i)), (''new_hash'', opt_json (migration_hash e)),
                  (''reason'', opt_json reason), (''force'', JBool (force \<or> running))]) (replace_instance i1 c1));
          (c3, started) = (case deploy_existing_instance (en_compose env) (en_provider env (row_id i)) (en_getenv env) now
                                  (row_id i) None 1 [] (Some by) c2 of
              (d, Inr (rid, x)) \<Rightarrow> (execute_deploy_pipeline x d, Some rid)
            | (d, Inl _) \<Rightarrow> (d\<lparr>instances := update_where (\<lambda>r. row_id r = row_id i)
                                (\<lambda>r. modified now r (r\<lparr>ins_status := I_failed\<rparr>)) (instances d)\<rparr>, None));
          after = get_row (instances c3) (row_id i)
      in (c3, \<lparr>ro_old_hash = active_hash i, ro_new_hash = Option.bind after active_hash,
               ro_status_after = (case after of None \<Rightarrow> I_failed | Some r \<Rightarrow> ins_status r),
               ro_record_id = started, ro_deploy_started = (started \<noteq> None)\<rparr>))"

definition restart_instance ::
    "environment \<Rightarrow> 'z cluster_scheme handlers \<Rightarrow> timestamp \<Rightarrow> ident \<Rightarrow> string option \<Rightarrow> bool \<Rightarrow> ident \<Rightarrow> ident option
     \<Rightarrow> 'z cluster_scheme \<Rightarrow> ('z cluster_scheme \<times> restart_outcome) result" where
  "restart_instance env hs now iid reason force uid x_org c =
     (case get_instance_or_404 iid c of
        Inl e \<Rightarrow> Inl e
      | Inr i \<Rightarrow>
         (case get_live (entities c) (ins_entity_id i) of
            None \<Rightarrow> Inl (NotFoundError ''entity.not_found'' ''errors.entity.not_found'')
          | Some e \<Rightarrow>
             (case require_workspace_permission uid (ins_workspace_id i) ''can_operate_workspace'' x_org c of
                Inl err \<Rightarrow> Inl err
              | Inr _ \<Rightarrow> Inr (restart_instance_runtime env hs now i e uid reason force c))))"

text \<open>
  The loop over the batch: an Entity enters the cache before its deletion is looked at, so only the
  first Instance of a deleted Entity is skipped.
\<close>

fun resync_each :: "timestamp \<Rightarrow> instance_row list \<Rightarrow> (ident \<times> entity) list \<Rightarrow> 'z db_scheme
    \<Rightarrow> 'z db_scheme \<times> ident list \<times> ident list" where
  "resync_each now [] cache s = (s, [], [])"
| "resync_each now (i # is) cache s =
     (let resync = (\<lambda>e cache1. case resync_each now is cache1 (replace_instance
              (modified now i (i\<lparr>active_hash := migration_hash e, ins_status := I_restarting\<rparr>)) s) of
            (s1, done, skipped) \<Rightarrow> (s1, row_id i # done, skipped));
          skip = (\<lambda>cache1. case resync_each now is cache1 s of (s1, done, skipped) \<Rightarrow> (s1, done, row_id i # skipped))
      in case map_of cache (ins_entity_id i) of
           Some e \<Rightarrow> resync e cache
         | None \<Rightarrow>
            (case get_row (entities s) (ins_entity_id i) of
               None \<Rightarrow> skip cache
             | Some e \<Rightarrow> (if live e then resync e ((ins_entity_id i, e) # cache)
                          else skip ((ins_entity_id i, e) # cache))))"

definition batch_restart_instances ::
    "'z db_scheme handlers \<Rightarrow> timestamp \<Rightarrow> ident list \<Rightarrow> string option \<Rightarrow> ident \<Rightarrow> ident option \<Rightarrow> 'z db_scheme
     \<Rightarrow> ('z db_scheme \<times> ident list \<times> ident list) result" where
  "batch_restart_instances hs now ids reason uid x_org s =
     (if ids = [] then Inl request_validation_error
      else let found = filter (\<lambda>i. row_id i \<in> set ids \<and> live i) (instances s)
           in if \<not> list_all (\<lambda>i. i \<in> row_id ` set found) ids
              then Inl (NotFoundError ''instance.not_found'' ''errors.instance.not_found'')
              else (case require_workspace_permission uid (ins_workspace_id (hd found)) ''can_operate_workspace'' x_org s of
                      Inl e \<Rightarrow> Inl e
                    | Inr _ \<Rightarrow>
                       if list_ex (\<lambda>i. ins_status i = I_running) found
                       then Inl (ConflictError ''instance.batch_has_running'' ''errors.instance.batch_has_running'')
                       else (case resync_each now found [] s of
                               (s1, restarted, skipped) \<Rightarrow>
                                 Inr (fst (emit hs now (instance_event INSTANCE_BATCH_RESTARTED (Some uid) None
                                   [(''instance_ids'', JList (map JStr ids)), (''reason'', opt_json reason),
                                    (''restarted_count'', JInt (int (length restarted)))]) s1), restarted, skipped))))"

end
