(* ===== verification/Instances_Props.thy ===== *)
theory Instances_Props
  imports Instances Deploy_Props Capabilities_Props Permissions_Props
begin

text \<open>
  What becomes of Instances: the table along every run of the endpoints and the pipelines, the
  outcome of an introduction and of a deletion, and where the endpoints do not keep their promises.
\<close>

section \<open>Frames\<close>

text \<open>Handlers of the events of Instances leave the rows of the topology and the identifiers alone.\<close>

definition place_frame :: "'z db_scheme \<Rightarrow> 'z db_scheme \<Rightarrow> bool" where
  "place_frame s t \<longleftrightarrow> instances t = instances s \<and> memberships t = memberships s \<and> passages t = passages s \<and>
     id_source t = id_source s \<and> id_next s \<le> id_next t"

definition instance_types :: "string list" where
  "instance_types = [INSTANCE_CREATED, INSTANCE_DEPLOYED, INSTANCE_STARTED, INSTANCE_RESTARTED, INSTANCE_STOPPED,
     INSTANCE_FAILED, INSTANCE_DELETED, INSTANCE_BATCH_RESTARTED, INSTANCE_KNOWLEDGE_INCONSISTENT]"

definition instance_handlers :: "'z db_scheme handlers \<Rightarrow> bool" where
  "instance_handlers hs = handlers_respect place_frame (\<lambda>e. ev_type e \<in> set instance_types) hs"

lemma place_frame_order: "reflp place_frame" "transp place_frame"
  by (auto simp: place_frame_def reflp_def transp_def)

lemma emit_place_frame:
  "instance_handlers hs \<Longrightarrow> ea_type a \<in> set instance_types \<Longrightarrow> place_frame s (fst (emit hs now a s))"
  unfolding instance_handlers_def
  by (rule emit_respects [OF place_frame_order, of "\<lambda>e. ev_type e \<in> set instance_types"])
    (auto simp: place_frame_def take_id_def)

lemma instance_event_type [simp]: "ea_type (instance_event ty u i p) = ty"
  by (simp add: instance_event_def)

lemma instance_types_in [simp]:
  "INSTANCE_CREATED \<in> set instance_types" "INSTANCE_DEPLOYED \<in> set instance_types"
  "INSTANCE_STARTED \<in> set instance_types" "INSTANCE_RESTARTED \<in> set instance_types"
  "INSTANCE_STOPPED \<in> set instance_types" "INSTANCE_FAILED \<in> set instance_types"
  "INSTANCE_DELETED \<in> set instance_types" "INSTANCE_BATCH_RESTARTED \<in> set instance_types"
  "INSTANCE_KNOWLEDGE_INCONSISTENT \<in> set instance_types"
  by (simp_all add: instance_types_def)

lemma emit_frame_simps:
  assumes "instance_handlers hs" and "ty \<in> set instance_types"
  shows "instances (fst (emit hs now (instance_event ty u i p) s)) = instances s"
    "memberships (fst (emit hs now (instance_event ty u i p) s)) = memberships s"
    "passages (fst (emit hs now (instance_event ty u i p) s)) = passages s"
    "id_source (fst (emit hs now (instance_event ty u i p) s)) = id_source s"
    "id_next s \<le> id_next (fst (emit hs now (instance_event ty u i p) s))"
  using emit_place_frame [OF assms(1), of "instance_event ty u i p" s now] assms(2) by (auto simp: place_frame_def)

lemma emit_inconsistent_frame:
  assumes "instance_handlers hs"
  shows "place_frame s (emit_inconsistent hs now u i e w s)"
  using emit_place_frame [OF assms, of _ s] place_frame_order(1)
  by (auto simp: emit_inconsistent_def reflp_def split: option.splits)

section \<open>The table of Instances\<close>

text \<open>A row keeps its identity, and one that is deleted keeps everything.\<close>

definition keeps :: "instance_row \<Rightarrow> instance_row \<Rightarrow> bool" where
  "keeps i j \<longleftrightarrow> row_id j = row_id i \<and> ins_entity_id j = ins_entity_id i \<and> ins_workspace_id j = ins_workspace_id i \<and>
     proxy_token j = proxy_token i \<and> created_at j = created_at i \<and> (live i \<or> j = i)"

lemma keeps_refl [simp]: "keeps i i"
  by (simp add: keeps_def)

lemma keeps_trans: "keeps i j \<Longrightarrow> keeps j k \<Longrightarrow> keeps i k"
  by (auto simp: keeps_def)

lemma keeps_modified: "keeps i j \<Longrightarrow> live i \<Longrightarrow> keeps i (modified now i j)"
  by (auto simp: keeps_def modified_def touch_def)

text \<open>Most changes keep the path too, and all but the deletion keep a row live.\<close>

definition fading :: "instance_row \<Rightarrow> instance_row \<Rightarrow> bool" where
  "fading i j \<longleftrightarrow> keeps i j \<and> workspace_path j = workspace_path i"

definition steady :: "instance_row \<Rightarrow> instance_row \<Rightarrow> bool" where
  "steady i j \<longleftrightarrow> fading i j \<and> live j = live i"

lemma steady_refl [simp]: "fading i i" "steady i i"
  by (simp_all add: fading_def steady_def)

lemma steady_modified: "steady i j \<Longrightarrow> live i \<Longrightarrow> steady i (modified now i j)"
  by (auto simp: steady_def fading_def keeps_def modified_def touch_def live_def)

lemma steady_fields:
  "live i \<Longrightarrow> steady i (i\<lparr>ins_status := st\<rparr>)" "live i \<Longrightarrow> steady i (i\<lparr>runtime_config := rc\<rparr>)"
  "live i \<Longrightarrow> steady i (i\<lparr>active_hash := h\<rparr>)" "live i \<Longrightarrow> steady i (i\<lparr>active_hash := h, ins_status := st\<rparr>)"
  "live i \<Longrightarrow> steady i (i\<lparr>ins_status := st, active_hash := h\<rparr>)"
  "live i \<Longrightarrow> steady i (i\<lparr>runtime_config := rc, active_hash := h\<rparr>)"
  "live i \<Longrightarrow> steady i j \<Longrightarrow> steady i (touch now j)"
  by (auto simp: steady_def fading_def keeps_def live_def touch_def)

lemma steady_trans: "steady i j \<Longrightarrow> steady j k \<Longrightarrow> steady i k"
  by (auto simp: steady_def fading_def intro: keeps_trans)

lemma fading_trans: "fading i j \<Longrightarrow> fading j k \<Longrightarrow> fading i k"
  by (auto simp: fading_def intro: keeps_trans)

lemma all2_update_where:
  assumes "\<And>r. R r r" and "\<And>r. r \<in> set rows \<Longrightarrow> P r \<Longrightarrow> R r (f r)"
  shows "list_all2 R rows (update_where P f rows)"
  using assms(2) by (induction rows) (simp_all add: assms(1))

lemma all2_source: "list_all2 R xs ys \<Longrightarrow> y \<in> set ys \<Longrightarrow> \<exists>x \<in> set xs. R x y"
  by (induction rule: list_all2_induct) auto

lemma unique_on_all2:
  assumes "list_all2 R xs ys" and "unique_on P key xs" and "\<And>i j. R i j \<Longrightarrow> P j \<Longrightarrow> P i \<and> key j = key i"
  shows "unique_on P key ys"
  using assms(1,2)
proof (induction rule: list_all2_induct)
  case (Cons i xs j ys)
  have "\<exists>i' \<in> set xs. R i' k" if "k \<in> set ys" for k
    by (rule all2_source [OF Cons.hyps(2) that])
  then show ?case using Cons assms(3) by simp metis
qed simp

lemma fading_keeps: "list_all2 fading xs ys \<Longrightarrow> list_all2 keeps xs ys"
  by (erule list_all2_mono) (simp add: fading_def)

lemma steady_fading: "list_all2 steady xs ys \<Longrightarrow> list_all2 fading xs ys"
  by (erule list_all2_mono) (simp add: steady_def)

lemma fading_paths:
  "list_all2 fading xs ys \<Longrightarrow> uq_instances_workspace_path xs \<Longrightarrow> uq_instances_workspace_path ys"
  unfolding uq_instances_workspace_path_def
  by (erule (1) unique_on_all2) (auto simp: fading_def keeps_def)

lemma keeps_entities:
  "list_all2 keeps xs ys \<Longrightarrow> uq_instances_workspace_entity xs \<Longrightarrow> uq_instances_workspace_entity ys"
  unfolding uq_instances_workspace_entity_def
  by (erule (1) unique_on_all2) (auto simp: keeps_def)

lemma keeps_ids: "list_all2 keeps xs ys \<Longrightarrow> map row_id ys = map row_id xs"
  by (induction rule: list_all2_induct) (auto simp: keeps_def)

definition instances_advance :: "instance_row list \<Rightarrow> instance_row list \<Rightarrow> bool" where
  "instances_advance xs ys \<longleftrightarrow> (\<exists>old new. ys = old @ new \<and> list_all2 keeps xs old)"

lemma advance_keeps: "list_all2 keeps xs ys \<Longrightarrow> instances_advance xs ys"
  unfolding instances_advance_def by (intro exI [of _ ys] exI [of _ "[]"]) simp

lemma instances_advance_refl [simp]: "instances_advance xs xs"
  by (rule advance_keeps) (simp add: list_all2_same)

lemma instances_advance_trans:
  assumes "instances_advance xs ys" and "instances_advance ys zs"
  shows "instances_advance xs zs"
proof -
  obtain o1 n1 where b: "ys = o1 @ n1" "list_all2 keeps xs o1" using assms(1) by (auto simp: instances_advance_def)
  obtain o2 n2 where c: "zs = o2 @ n2" "list_all2 keeps ys o2" using assms(2) by (auto simp: instances_advance_def)
  obtain oa od where o2: "o2 = oa @ od" "list_all2 keeps o1 oa" using c(2) b(1) by (auto simp: list_all2_append1)
  have "list_all2 keeps xs oa" using list_all2_trans [OF keeps_trans b(2) o2(2)] .
  then show ?thesis using c(1) o2(1) unfolding instances_advance_def by (intro exI [of _ oa] exI [of _ "od @ n2"]) simp
qed

section \<open>Steps\<close>

text \<open>A change of the table by which nothing is added.\<close>

definition kept :: "(instance_row \<Rightarrow> instance_row \<Rightarrow> bool) \<Rightarrow> 'z db_scheme \<Rightarrow> 'z db_scheme \<Rightarrow> bool" where
  "kept R s t \<longleftrightarrow> list_all2 R (instances s) (instances t) \<and> id_source t = id_source s \<and> id_next s \<le> id_next t"

lemma kept_refl [simp]: "kept steady s s"
  by (simp add: kept_def list_all2_same)

lemma kept_trans: "kept steady s t \<Longrightarrow> kept steady t u \<Longrightarrow> kept steady s u"
  unfolding kept_def by (auto intro: list_all2_trans [of steady steady steady] steady_trans)

lemma frame_kept: "place_frame s t \<Longrightarrow> kept steady s t"
  by (simp add: kept_def place_frame_def list_all2_same)

lemma kept_ids: "kept steady s t \<Longrightarrow> map row_id (instances t) = map row_id (instances s)"
  by (auto simp: kept_def intro: keeps_ids fading_keeps steady_fading)

lemma emit_kept: "instance_handlers hs \<Longrightarrow> ty \<in> set instance_types \<Longrightarrow> kept steady s (fst (emit hs now (instance_event ty u i p) s))"
  by (simp add: frame_kept emit_place_frame)

lemma kept_records [simp]:
  "kept R s (t\<lparr>deploy_records := ds\<rparr>) = kept R s t" "kept R s (t\<lparr>memberships := ms\<rparr>) = kept R s t"
  "kept R s (t\<lparr>passages := ps\<rparr>) = kept R s t" "kept R s (t\<lparr>entities := es\<rparr>) = kept R s t"
  by (simp_all add: kept_def)

lemma kept_take: "kept steady s t \<Longrightarrow> kept steady s (take_id t)"
  by (simp add: kept_def)

text \<open>The rows of a table without repeated identifiers that have the identifier of a live row.\<close>

lemma only_row:
  assumes "distinct (map row_id rows)" and "get_live rows iid = Some i" and "r \<in> set rows" and "row_id r = iid"
  shows "r = i"
  using assms same_id_row by blast

lemma replace_kept:
  assumes "distinct (map row_id (instances s))" and "get_live (instances s) iid = Some i" and "steady i j"
  shows "kept steady s (replace_instance j s)"
proof -
  have "row_id j = iid" using assms(3) get_live_SomeD [OF assms(2)] by (simp add: steady_def fading_def keeps_def)
  then have "list_all2 steady (instances s) (update_where (\<lambda>r. row_id r = row_id j) (\<lambda>_. j) (instances s))"
    using only_row [OF assms(1,2)] assms(3) by (intro all2_update_where) auto
  then show ?thesis by (simp add: kept_def replace_instance_def)
qed

lemma map_sum_Inr: "map_sum id f r = Inr y \<longleftrightarrow> (\<exists>x. r = Inr x \<and> y = f x)"
  by (cases r) auto

lemma guardD: "instance_with_permission iid atom uid x_org s = Inr i \<Longrightarrow> get_live (instances s) iid = Some i"
  by (cases "get_live (instances s) iid";
      cases "require_workspace_permission uid (ins_workspace_id (the (get_live (instances s) iid))) atom x_org s")
    (simp_all add: instance_with_permission_def get_instance_or_404_def)

lemma transition_kept:
  assumes "instance_handlers hs" and "distinct (map row_id (instances s))" and "ty \<in> set instance_types"
    and "update_transition hs now iid allowed new ty payload uid x_org s = Inr (t, j)"
  shows "kept steady s t"
proof -
  obtain i where i: "get_live (instances s) iid = Some i"
    and t: "t = fst (emit hs now (instance_event ty (Some uid) (Some iid) payload)
      (replace_instance (modified now i (i\<lparr>ins_status := new\<rparr>)) s))"
    using assms(4) by (auto simp: update_transition_def Let_def split: sum.splits if_splits dest: guardD)
  have "live i" using get_live_SomeD [OF i] by simp
  with replace_kept [OF assms(2) i] have "kept steady s (replace_instance (modified now i (i\<lparr>ins_status := new\<rparr>)) s)"
    by (simp add: steady_modified steady_fields)
  from kept_trans [OF this emit_kept [OF assms(1,3)]] show ?thesis unfolding t .
qed

lemma refresh_kept:
  assumes "instance_handlers hs" and "distinct (map row_id (instances s))" and "get_live (instances s) iid = Some i"
    and "refresh_instance_agent_config sha hs now i uid s = Inr (t, w)"
  shows "kept steady s t"
proof -
  have live: "live i" using get_live_SomeD [OF assms(3)] by simp
  have replaced: "kept steady s (replace_instance (modified now i (i\<lparr>runtime_config := rc, active_hash := h\<rparr>)) s)" for rc h
    using replace_kept [OF assms(2,3)] live by (simp add: steady_modified steady_fields)
  show ?thesis
  proof (cases "get_live (entities s) (ins_entity_id i)")
    case None
    with assms(4) show ?thesis by (simp add: refresh_instance_agent_config_def)
  next
    case (Some e)
    then obtain rc h where "t = emit_inconsistent hs now uid (row_id i) (row_id e) w
        (replace_instance (modified now i (i\<lparr>runtime_config := rc, active_hash := h\<rparr>)) s)"
      using assms(4) by (simp add: refresh_instance_agent_config_def Let_def split: sum.splits) blast
    with kept_trans [OF replaced frame_kept [OF emit_inconsistent_frame [OF assms(1)]]] show ?thesis by simp
  qed
qed

lemma bundle_kept:
  assumes "distinct (map row_id (instances s))"
  shows "kept steady s (fst (build_agent_bundle compose now iid s))"
proof (cases "get_live (instances s) iid")
  case (Some i)
  have live: "live i" using get_live_SomeD [OF Some] by simp
  have "kept steady s (replace_instance (modified now i (i\<lparr>runtime_config := rc\<rparr>)) s)" for rc
    using replace_kept [OF assms Some] live by (simp add: steady_modified steady_fields)
  with Some show ?thesis by (auto simp: build_agent_bundle_def Let_def split: option.splits sum.splits)
qed (simp add: build_agent_bundle_def)

lemma deploy_existing_kept:
  assumes "distinct (map row_id (instances s))"
  shows "kept steady s (fst (deploy_existing_instance compose pi getenv now iid version n extra uid s))"
proof -
  let ?t = "\<lambda>r. (take_id s)\<lparr>deploy_records := deploy_records s @ [r]\<rparr>"
  have "kept steady s (fst (build_agent_bundle compose now iid (?t r)))" for r
  proof (rule kept_trans [of s "?t r"])
    show "kept steady s (?t r)" by (simp add: kept_take)
    show "kept steady (?t r) (fst (build_agent_bundle compose now iid (?t r)))"
      by (rule bundle_kept) (simp add: take_id_def assms)
  qed
  then show ?thesis
    by (auto simp: deploy_existing_instance_def Let_def split: option.splits prod.splits sum.splits) (metis fst_conv)+
qed

section \<open>Introduction\<close>

lemma spawn_hash_instances:
  assumes "spawn_hash sha now opts e s = Inr (t, e1, h)"
  shows "instances t = instances s" "memberships t = memberships s" "id_source t = id_source s" "id_next t = id_next s"
    "row_id e1 = row_id e" "workspaces t = workspaces s"
  using assms by (auto simp: spawn_hash_def Let_def split: if_splits sum.splits)

text \<open>What placing an Instance leaves: one row and one seat more, both checked by the database.\<close>

definition seat_cell :: "ident \<Rightarrow> 'z db_scheme \<Rightarrow> int \<times> int" where
  "seat_cell ws s = free_cell (map (\<lambda>m. (posx m, posy m)) (filter (\<lambda>m. mem_workspace_id m = ws \<and> live m) (memberships s)))"

definition placed :: "ident \<Rightarrow> ident \<Rightarrow> instance_row \<Rightarrow> membership \<Rightarrow> 'z db_scheme \<Rightarrow> 'z db_scheme \<Rightarrow> bool" where
  "placed ws eid i m s t \<longleftrightarrow>
     instances t = instances s @ [i] \<and> live i \<and> ins_status i = I_creating \<and> ins_workspace_id i = ws \<and> ins_entity_id i = eid \<and>
     memberships t = memberships s @ [m] \<and> live m \<and> mem_workspace_id m = ws \<and> mem_instance_id m = Some (row_id i) \<and>
     mem_user_id m = None \<and> (posx m, posy m) = seat_cell ws s \<and> passages t = passages s \<and>
     uq_instances_workspace_path (instances t) \<and> uq_instances_workspace_entity (instances t) \<and>
     uq_memberships_workspace_pos (memberships t) \<and> uq_memberships_workspace_instance (memberships t) \<and>
     id_source t = id_source s \<and> id_next s < id_next t \<and> row_id i \<in> id_source s ` {id_next s ..< id_next t}"

lemma place_at_effect:
  assumes "instance_handlers hs" and "place_at hs now ws e path rc h warning uid s = Inr (t, i, m)"
  shows "placed ws (row_id e) i m s t"
proof -
  let ?s1 = "take_id s"
  let ?i = "new_instance (new_id ?s1) now (row_id e) ws path rc (new_id s) h"
  let ?s2 = "(take_id ?s1)\<lparr>instances := instances s @ [?i]\<rparr>"
  let ?m = "new_instance_seat (new_id ?s2) now ws (row_id ?i) (seat_cell ws s)"
  let ?s3 = "(take_id ?s2)\<lparr>memberships := memberships s @ [?m]\<rparr>"
  let ?u = "fst (emit hs now (instance_event INSTANCE_CREATED uid (Some (row_id ?i))
    [(''workspace_path'', JStr path), (''workspace_id'', JStr ws)]) ?s3)"
  from assms(2) have ok: "instances_integrity ?s2 ?i" "memberships_integrity ?s2 (memberships ?s3) ?m"
    and r: "i = ?i" "m = ?m" "t = emit_inconsistent hs now uid (row_id ?i) (row_id e) warning ?u"
    unfolding place_at_def Let_def seat_cell_def [symmetric] by (auto split: if_splits)
  have "place_frame ?s3 ?u" by (rule emit_place_frame [OF assms(1)]) simp
  moreover have "place_frame ?u t" unfolding r(3) by (rule emit_inconsistent_frame [OF assms(1)])
  ultimately have f: "instances t = instances s @ [?i]" "memberships t = memberships s @ [?m]" "passages t = passages s"
    "id_source t = id_source s" "Suc (Suc (id_next s)) < id_next t"
    by (auto simp: place_frame_def take_id_def)
  have "row_id ?i = id_source s (Suc (id_next s))" by (simp add: new_instance_def new_id_def take_id_def)
  then have "row_id ?i \<in> id_source s ` {id_next s ..< id_next t}" using f(5) by auto
  then show ?thesis
    using ok f unfolding placed_def r(1,2)
    by (simp add: new_instance_def new_instance_seat_def live_def instances_integrity_def memberships_integrity_def)
qed

lemma place_effect:
  assumes "instance_handlers hs" and "place_instance hs now ws e path rc h warning uid s = Inr (t, i, m)"
  shows "placed ws (row_id e) i m s t"
proof (cases "truthy path")
  case True
  with assms(2) place_at_effect [OF assms(1)] show ?thesis by (simp add: place_instance_def)
next
  case False
  with assms(2) place_at_effect [OF assms(1), of now ws e _ rc h warning uid "take_id s" t i m]
  have "placed ws (row_id e) i m (take_id s) t" by (simp add: place_instance_def)
  then show ?thesis by (auto simp: placed_def seat_cell_def)
qed

lemma introduceD:
  assumes "create_introduced_instance sha hs now eid ws opts uid s = Inr (t, i, m, w)"
  obtains e s1 e1 h rc where "get_live (entities s) eid = Some e" "spawn_hash sha now opts e s = Inr (s1, e1, h)"
    "place_instance hs now ws e1 (intro_path opts) rc h w uid s1 = Inr (t, i, m)"
proof -
  obtain e where e: "get_live (entities s) eid = Some e"
    using assms by (auto simp: create_introduced_instance_def split: option.splits)
  obtain s1 e1 h where s1: "spawn_hash sha now opts e s = Inr (s1, e1, h)"
    using assms e by (auto simp: create_introduced_instance_def split: option.splits if_splits sum.splits)
  obtain rc w1 where rc: "spawn_config opts e1 ws s1 = Inr (rc, w1)"
    using assms e s1 by (auto simp: create_introduced_instance_def split: option.splits if_splits sum.splits)
  have "map_sum id (\<lambda>(s2, i, m). (s2, i, m, w1)) (place_instance hs now ws e1 (intro_path opts) rc h w1 uid s1) = Inr (t, i, m, w)"
    using assms e s1 rc by (auto simp: create_introduced_instance_def split: option.splits if_splits sum.splits)
  then have "place_instance hs now ws e1 (intro_path opts) rc h w uid s1 = Inr (t, i, m)"
    by (cases "place_instance hs now ws e1 (intro_path opts) rc h w1 uid s1") auto
  with e s1 show thesis by (rule that)
qed

text \<open>The grid has 1600 cells, so with fewer seats the cell of a new seat is free.\<close>

lemma grid_cells: "distinct grid" "length grid = 1600"
proof -
  have "distinct (concat (map (\<lambda>row. map (\<lambda>col. (int col * 120, int row * 120)) xs) ys))"
    if "distinct xs" "distinct ys" for xs ys :: "nat list"
    using that(2) by (induction ys) (use that(1) in \<open>auto simp: distinct_map inj_on_def\<close>)
  then show "distinct grid" by (simp add: grid_def)
  have "length (concat (map (\<lambda>row. map (\<lambda>col. (int col * 120, int row * 120)) xs) ys)) = length ys * length xs"
    for xs ys :: "nat list"
    by (induction ys) simp_all
  from this [of "[0..<40]" "[0..<40]"] show "length grid = 1600" by (simp add: grid_def)
qed

lemma free_cell_fresh:
  assumes "length occupied < 1600"
  shows "free_cell occupied \<notin> set occupied"
proof (cases "first_where (\<lambda>c. c \<notin> set occupied) grid")
  case None
  then have "set grid \<subseteq> set occupied" by (auto simp: first_where_None_iff)
  then have "card (set grid) \<le> length occupied" by (meson card_length card_mono finite_set le_trans)
  with assms grid_cells show ?thesis by (simp add: distinct_card)
next
  case (Some c)
  then show ?thesis by (auto simp: free_cell_def dest: first_where_SomeD)
qed

section \<open>Deletion\<close>

lemma kept_more [simp]:
  "kept R s (ask_k8s q c) = kept R s c" "kept R (ask_k8s q c) t = kept R c t"
  "kept R s (c\<lparr>pipelines := ps\<rparr>) = kept R s c" "kept R s (publish x k st msg c) = kept R s c"
  "kept R s (update_record now rid f d) = kept R s d"
  by (simp_all add: kept_def ask_k8s_def publish_def update_record_def)

text \<open>The deletion as one description of the tables.\<close>

lemma delete_effect:
  assumes "instance_handlers hs" and "delete_instance hs now iid uid x_org c = Inr d"
    and "get_live (instances c) iid = Some i" and "ins_status i \<noteq> I_deleting" and "distinct (map row_id (instances c))"
  shows "instances d = update_where (\<lambda>r. row_id r = iid)
      (\<lambda>_. soft_delete now (touch now (i\<lparr>ins_status := I_deleting\<rparr>))) (instances c)"
    "memberships d = update_where (\<lambda>m. mem_instance_id m = Some iid \<and> live m) (soft_delete now) (memberships c)"
    "passages d = fst (soft_delete_passages_touching now
      (map row_id (filter (\<lambda>m. mem_instance_id m = Some iid \<and> live m) (memberships c))) (passages c))"
    "id_source d = id_source c" "id_next c \<le> id_next d"
proof -
  let ?i = "touch now (i\<lparr>ins_status := I_deleting\<rparr>)"
  let ?c1 = "if ins_status i = I_running then scale_instance_runtime iid 0 c else c"
  let ?a = "instance_event INSTANCE_DELETED (Some uid) (Some iid) [(''previous_status'',
    JStr (status_text (if ins_status i = I_running then I_pending else ins_status i)))]"
  let ?c3 = "fst (emit hs now ?a (replace_instance ?i ?c1))"
  have i: "row_id i = iid" using get_live_SomeD [OF assms(3)] by simp
  have guard: "instance_with_permission iid ''can_edit_workspace'' uid x_org c = Inr i"
  proof (cases "instance_with_permission iid ''can_edit_workspace'' uid x_org c")
    case (Inl e) with assms(2) show ?thesis by (simp add: delete_instance_def)
  next
    case (Inr j) with guardD [OF Inr] assms(3) show ?thesis by simp
  qed
  have c1: "instances ?c1 = instances c" "memberships ?c1 = memberships c" "passages ?c1 = passages c"
    "id_source ?c1 = id_source c" "id_next ?c1 = id_next c"
    by (simp_all add: scale_instance_runtime_def ask_k8s_def)
  have f: "instances ?c3 = update_where (\<lambda>r. row_id r = iid) (\<lambda>_. ?i) (instances c)" "memberships ?c3 = memberships c"
    "passages ?c3 = passages c" "id_source ?c3 = id_source c" "id_next c \<le> id_next ?c3"
    using emit_frame_simps [OF assms(1), of INSTANCE_DELETED, where s = "replace_instance ?i ?c1"] i c1
    by (simp_all add: replace_instance_def)
  have two: "update_where (\<lambda>r. row_id r = iid) (soft_delete now) (update_where (\<lambda>r. row_id r = iid) (\<lambda>_. ?i) rows) =
      update_where (\<lambda>r. row_id r = iid) (\<lambda>_. soft_delete now ?i) rows" for rows
    using i by (induction rows) auto
  from assms(2,4) guard f two show "instances d = update_where (\<lambda>r. row_id r = iid) (\<lambda>_. soft_delete now ?i) (instances c)"
    "memberships d = update_where (\<lambda>m. mem_instance_id m = Some iid \<and> live m) (soft_delete now) (memberships c)"
    "passages d = fst (soft_delete_passages_touching now
      (map row_id (filter (\<lambda>m. mem_instance_id m = Some iid \<and> live m) (memberships c))) (passages c))"
    "id_source d = id_source c" "id_next c \<le> id_next d"
    by (auto simp: delete_instance_def Let_def teardown_instance_namespace_def ask_k8s_def)
qed

lemma delete_kept:
  assumes "instance_handlers hs" and "delete_instance hs now iid uid x_org c = Inr d" and "distinct (map row_id (instances c))"
  shows "kept fading c d"
proof -
  have refl: "kept fading c c" by (simp add: kept_def list_all2_same)
  obtain i where i: "get_live (instances c) iid = Some i"
    using assms(2) guardD by (fastforce simp: delete_instance_def split: sum.splits)
  show ?thesis
  proof (cases "ins_status i = I_deleting")
    case True
    have "d = c" using assms(2) i True guardD by (fastforce simp: delete_instance_def split: sum.splits)
    with refl show ?thesis by simp
  next
    case False
    note e = delete_effect [OF assms(1,2) i False assms(3)]
    have "fading i (soft_delete now (touch now (i\<lparr>ins_status := I_deleting\<rparr>)))"
      using get_live_SomeD [OF i] by (simp add: fading_def keeps_def soft_delete_def touch_def)
    then have "list_all2 fading (instances c) (instances d)"
      unfolding e(1) using only_row [OF assms(3) i] by (intro all2_update_where) auto
    with e(4,5) show ?thesis by (simp add: kept_def)
  qed
qed

section \<open>Restarts\<close>

lemma status_kept: "kept steady s (set_status now iid st s)"
proof -
  have "list_all2 steady (instances s) (instances (set_status now iid st s))"
    unfolding set_status_def by (simp, rule all2_update_where) (simp_all add: steady_modified steady_fields)
  then show ?thesis by (simp add: kept_def set_status_def)
qed

lemma status_after: "kept steady s t \<Longrightarrow> kept steady s (set_status now iid st t)"
  using status_kept kept_trans by blast

lemma failed_kept: "kept steady s t \<Longrightarrow> kept steady s (pipeline_failed now x m t)"
  by (simp add: pipeline_failed_def teardown_instance_namespace_def status_after)

lemma pipeline_step_kept: "kept steady c (fst (pipeline_step now ans x st c))"
  by (auto simp: pipeline_step_def run_post_ready_instance_steps_def Let_def intro: status_after failed_kept
      split: stage.splits answer.splits option.splits)

lemma advance_kept: "kept steady c (advance_pipeline now ans rid c)"
proof (cases "first_where (\<lambda>(x, _). dc_record_id x = rid) (pipelines c)")
  case (Some p)
  obtain x st where p: "p = (x, st)" by (cases p)
  with Some pipeline_step_kept [of c now ans x st] show ?thesis
    by (cases "pipeline_step now ans x st c"; cases "snd (pipeline_step now ans x st c)") (auto simp: advance_pipeline_def)
qed (simp add: advance_pipeline_def)

lemma endpoint_kept:
  assumes "instance_handlers hs" and "distinct (map row_id (instances c))"
    and "deploy_instance_endpoint env hs now iid uid x_org c = Inr (d, out)"
  shows "kept steady c d"
proof -
  obtain i where i: "get_live (instances c) iid = Some i" "instance_with_permission iid ''can_edit_workspace'' uid x_org c = Inr i"
    using assms(3) guardD by (fastforce simp: deploy_instance_endpoint_def split: sum.splits)
  then obtain c1 w where c1: "refresh_instance_agent_config (en_sha env) hs now i (Some uid) c = Inr (c1, w)"
    using assms(3) by (auto simp: deploy_instance_endpoint_def split: sum.splits)
  have k: "kept steady c c1" by (rule refresh_kept [OF assms(1,2) i(1) c1])
  have ids: "distinct (map row_id (instances c1))" using kept_ids [OF k] assms(2) by simp
  show ?thesis
  proof (cases "is_k8s_available (en_getenv env) (en_service_account env)")
    case False
    then obtain j where "update_transition hs now iid [I_creating, I_restarting] I_deploying INSTANCE_DEPLOYED [] uid x_org c1 = Inr (d, j)"
      using assms(3) i(2) c1
      by (cases "update_transition hs now iid [I_creating, I_restarting] I_deploying INSTANCE_DEPLOYED [] uid x_org c1")
        (auto simp: deploy_instance_endpoint_def)
    from transition_kept [OF assms(1) ids _ this] k show ?thesis by (auto intro: kept_trans)
  next
    case True
    then obtain x where "d = execute_deploy_pipeline x (fst (deploy_existing_instance (en_compose env) (en_provider env iid)
        (en_getenv env) now iid None 1 [] (Some uid) c1))"
      using assms(3) i(2) c1 by (auto simp: deploy_instance_endpoint_def split: prod.splits sum.splits)
    then show ?thesis
      using kept_trans [OF k deploy_existing_kept [OF ids]] by (simp add: execute_deploy_pipeline_def)
  qed
qed

lemma failed_row_kept:
  assumes "kept steady s t" and "distinct (map row_id (instances s))" and "get_live (instances s) iid = Some i"
  shows "kept steady s (t\<lparr>instances := update_where (\<lambda>r. row_id r = iid)
    (\<lambda>r. modified now r (r\<lparr>ins_status := I_failed\<rparr>)) (instances t)\<rparr>)"
proof -
  have all2: "list_all2 steady (instances s) (instances t)" using assms(1) by (simp add: kept_def)
  have "live r" if r: "r \<in> set (instances t)" "row_id r = iid" for r
  proof -
    obtain q where q: "q \<in> set (instances s)" "steady q r" using all2_source [OF all2 r(1)] by blast
    then have "row_id q = iid" using r(2) by (simp add: steady_def fading_def keeps_def)
    with only_row [OF assms(2,3) q(1)] q(2) get_live_SomeD [OF assms(3)] show ?thesis by (simp add: steady_def)
  qed
  then have "list_all2 steady (instances t) (update_where (\<lambda>r. row_id r = iid)
      (\<lambda>r. modified now r (r\<lparr>ins_status := I_failed\<rparr>)) (instances t))"
    by (intro all2_update_where) (simp_all add: steady_modified steady_fields)
  then have "kept steady t (t\<lparr>instances := update_where (\<lambda>r. row_id r = iid)
      (\<lambda>r. modified now r (r\<lparr>ins_status := I_failed\<rparr>)) (instances t)\<rparr>)"
    by (simp add: kept_def)
  from kept_trans [OF assms(1) this] show ?thesis .
qed

lemma restart_kept:
  assumes "instance_handlers hs" and "distinct (map row_id (instances c))" and "get_live (instances c) iid = Some i"
  shows "kept steady c (fst (restart_instance_runtime env hs now i e uid reason force c))"
proof -
  have i: "row_id i = iid" "live i" using get_live_SomeD [OF assms(3)] by simp_all
  let ?c1 = "if ins_status i = I_running then scale_instance_runtime (row_id i) 0 c else c"
  let ?i = "touch now (i\<lparr>ins_status := I_deploying, active_hash := migration_hash e\<rparr>)"
  let ?c2 = "fst (emit hs now (instance_event INSTANCE_RESTARTED (Some uid) (Some (row_id i))
    [(''old_hash'', opt_json (active_hash i)), (''new_hash'', opt_json (migration_hash e)),
     (''reason'', opt_json reason), (''force'', JBool (force \<or> ins_status i = I_running))]) (replace_instance ?i ?c1))"
  let ?r = "deploy_existing_instance (en_compose env) (en_provider env (row_id i)) (en_getenv env) now (row_id i) None 1 []
    (Some uid) ?c2"
  have c1: "instances ?c1 = instances c" "kept steady c ?c1" by (simp_all add: scale_instance_runtime_def)
      (simp add: ask_k8s_def)
  have "steady i ?i" using i(2) by (simp add: steady_def fading_def keeps_def touch_def live_def)
  then have "kept steady ?c1 (replace_instance ?i ?c1)"
    using assms(2,3) c1(1) by (intro replace_kept [of _ iid]) simp_all
  from kept_trans [OF c1(2) this] have "kept steady c (replace_instance ?i ?c1)" .
  from kept_trans [OF this emit_kept [OF assms(1)]] have c2: "kept steady c ?c2" by simp
  have ids: "distinct (map row_id (instances ?c2))" using kept_ids [OF c2] assms(2) by simp
  have d: "kept steady c (fst ?r)" by (rule kept_trans [OF c2 deploy_existing_kept [OF ids]])
  have failed: "kept steady c ((fst ?r)\<lparr>instances := update_where (\<lambda>r. row_id r = row_id i)
      (\<lambda>r. modified now r (r\<lparr>ins_status := I_failed\<rparr>)) (instances (fst ?r))\<rparr>)"
    using failed_row_kept [OF d assms(2,3)] i(1) by simp
  show ?thesis
    unfolding restart_instance_runtime_def Let_def
    using d failed by (auto simp: execute_deploy_pipeline_def split: prod.splits sum.splits)
qed

section \<open>Batches\<close>

lemma get_live_replace:
  "get_live (update_where (\<lambda>r. row_id r = row_id j) (\<lambda>_. j) rows) k =
   (if k = row_id j \<and> live j \<and> fk_exists rows k then Some j
    else if k = row_id j then None else get_live rows k)"
  by (induction rows) (auto simp: fk_exists_def)

lemma get_live_fk: "get_live rows i = Some r \<Longrightarrow> fk_exists rows i"
  using get_live_SomeD [of rows i r] by (auto simp: fk_exists_def list_ex_iff)

definition resynced :: "timestamp \<Rightarrow> string option \<Rightarrow> instance_row \<Rightarrow> instance_row" where
  "resynced now h i = modified now i (i\<lparr>active_hash := h, ins_status := I_restarting\<rparr>)"

lemma resynced_simps: "live i \<Longrightarrow> steady i (resynced now h i)" "ins_status (resynced now h i) = I_restarting"
  "row_id (resynced now h i) = row_id i"
proof -
  show "ins_status (resynced now h i) = I_restarting"
    unfolding resynced_def by (subst modified_field) (simp_all add: touch_def)
qed (simp_all add: resynced_def steady_modified steady_fields)

lemma resync_one:
  assumes "distinct (map row_id (instances s))" and "get_live (instances s) (row_id i) = Some i"
  shows "kept steady s (replace_instance (resynced now h i) s)"
    "get_live (instances (replace_instance (resynced now h i) s)) (row_id i) = Some (resynced now h i)"
    "k \<noteq> row_id i \<Longrightarrow> get_live (instances (replace_instance (resynced now h i) s)) k = get_live (instances s) k"
    "distinct (map row_id (instances (replace_instance (resynced now h i) s)))"
proof -
  have live: "live i" using get_live_SomeD [OF assms(2)] by simp
  then have steady: "steady i (resynced now h i)" by (simp add: resynced_simps)
  then have l: "live (resynced now h i)" using live by (simp add: steady_def)
  show k: "kept steady s (replace_instance (resynced now h i) s)" by (rule replace_kept [OF assms steady])
  show "distinct (map row_id (instances (replace_instance (resynced now h i) s)))" using kept_ids [OF k] assms(1) by simp
  show "get_live (instances (replace_instance (resynced now h i) s)) (row_id i) = Some (resynced now h i)"
    "k \<noteq> row_id i \<Longrightarrow> get_live (instances (replace_instance (resynced now h i) s)) k = get_live (instances s) k"
    using l get_live_fk [OF assms(2)] get_live_replace [of "resynced now h i" "instances s"]
    by (simp_all add: replace_instance_def resynced_simps)
qed

lemma resync_Cons:
  "\<exists>h cache1. resync_each now (i # xs) cache s = (case resync_each now xs cache1 (replace_instance (resynced now h i) s) of
      (s1, dn, skipped) \<Rightarrow> (s1, row_id i # dn, skipped)) \<or>
    (resync_each now (i # xs) cache s = (case resync_each now xs cache1 s of
      (s1, dn, skipped) \<Rightarrow> (s1, dn, row_id i # skipped)) \<and>
     (\<forall>e. get_row (entities s) (ins_entity_id i) = Some e \<longrightarrow> \<not> live e))"
  by (auto simp: resynced_def [symmetric] Let_def split: option.splits)

lemma resync_rest:
  assumes "distinct (map row_id (instances s))" and "distinct (map row_id (i # xs))"
    and "\<forall>j \<in> set (i # xs). get_live (instances s) (row_id j) = Some j"
  shows "\<forall>j \<in> set xs. get_live (instances (replace_instance (resynced now h i) s)) (row_id j) = Some j"
proof
  fix j assume j: "j \<in> set xs"
  then have "row_id j \<in> row_id ` set xs" by simp
  then have "row_id j \<noteq> row_id i" using assms(2) by auto
  with resync_one(3) [of s i "row_id j" now h] assms(1,3) j
  show "get_live (instances (replace_instance (resynced now h i) s)) (row_id j) = Some j" by simp
qed

lemma resync_kept:
  assumes "distinct (map row_id (instances s))" and "distinct (map row_id xs)"
    and "\<forall>i \<in> set xs. get_live (instances s) (row_id i) = Some i"
  shows "kept steady s (fst (resync_each now xs cache s))"
  using assms
proof (induction xs arbitrary: cache s)
  case (Cons i xs)
  have i: "get_live (instances s) (row_id i) = Some i" using Cons.prems(3) by simp
  obtain h cache1 where "fst (resync_each now (i # xs) cache s) =
        fst (resync_each now xs cache1 (replace_instance (resynced now h i) s)) \<or>
      fst (resync_each now (i # xs) cache s) = fst (resync_each now xs cache1 s)"
    using resync_Cons [of now i xs cache s] unfolding case_prod_unfold by (metis fst_conv)
  moreover have "kept steady s (fst (resync_each now xs cache1 (replace_instance (resynced now h i) s)))"
  proof (rule kept_trans [OF resync_one(1) [OF Cons.prems(1) i]], rule Cons.IH)
    show "\<forall>j \<in> set xs. get_live (instances (replace_instance (resynced now h i) s)) (row_id j) = Some j"
      by (rule resync_rest [OF Cons.prems(1-3)])
  qed (use resync_one(4) [OF Cons.prems(1) i] Cons.prems(2) in auto)
  moreover have "kept steady s (fst (resync_each now xs cache1 s))" using Cons by simp
  ultimately show ?case by auto
qed simp

text \<open>When every Entity is there, every Instance of the batch is restarted.\<close>

lemma resync_all:
  assumes "distinct (map row_id (instances s))" and "distinct (map row_id xs)"
    and "\<forall>i \<in> set xs. get_live (instances s) (row_id i) = Some i"
    and "\<forall>i \<in> set xs. \<exists>e. get_row (entities s) (ins_entity_id i) = Some e \<and> live e"
  shows "\<exists>t. resync_each now xs cache s = (t, map row_id xs, []) \<and>
    (\<forall>i \<in> set xs. \<exists>h. get_live (instances t) (row_id i) = Some (resynced now h i)) \<and>
    (\<forall>k. k \<notin> row_id ` set xs \<longrightarrow> get_live (instances t) k = get_live (instances s) k)"
  using assms
proof (induction xs arbitrary: cache s)
  case (Cons i xs)
  have i: "get_live (instances s) (row_id i) = Some i" using Cons.prems(3) by simp
  obtain e where "get_row (entities s) (ins_entity_id i) = Some e \<and> live e" using Cons.prems(4) by auto
  then obtain h cache1 where r: "resync_each now (i # xs) cache s =
      (case resync_each now xs cache1 (replace_instance (resynced now h i) s) of (s1, dn, skipped) \<Rightarrow> (s1, row_id i # dn, skipped))"
    using resync_Cons [of now i xs cache s] by auto
  let ?s = "replace_instance (resynced now h i) s"
  have "\<exists>t. resync_each now xs cache1 ?s = (t, map row_id xs, []) \<and>
    (\<forall>i \<in> set xs. \<exists>h. get_live (instances t) (row_id i) = Some (resynced now h i)) \<and>
    (\<forall>k. k \<notin> row_id ` set xs \<longrightarrow> get_live (instances t) k = get_live (instances ?s) k)"
  proof (rule Cons.IH)
    show "\<forall>j \<in> set xs. get_live (instances ?s) (row_id j) = Some j"
      by (rule resync_rest [OF Cons.prems(1-3)])
    show "\<forall>j \<in> set xs. \<exists>e. get_row (entities ?s) (ins_entity_id j) = Some e \<and> live e"
      using Cons.prems(4) by (simp add: replace_instance_def)
  qed (use resync_one(4) [OF Cons.prems(1) i] Cons.prems(2) in auto)
  then obtain t where t: "resync_each now xs cache1 ?s = (t, map row_id xs, [])"
    "\<forall>i \<in> set xs. \<exists>h. get_live (instances t) (row_id i) = Some (resynced now h i)"
    "\<forall>k. k \<notin> row_id ` set xs \<longrightarrow> get_live (instances t) k = get_live (instances ?s) k" by blast
  have "row_id i \<notin> row_id ` set xs" using Cons.prems(2) by simp
  then have "get_live (instances t) (row_id i) = Some (resynced now h i)" using t(3) resync_one(2) [OF Cons.prems(1) i] by simp
  with r t resync_one(3) [OF Cons.prems(1) i] show ?case by auto
qed simp

text \<open>Of two Instances of a deleted Entity the first is skipped and the second restarted.\<close>

lemma deleted_entity_skips_first:
  assumes "get_row (entities s) (ins_entity_id i) = Some e" and "\<not> live e" and "ins_entity_id j = ins_entity_id i"
  shows "resync_each now [i, j] [] s =
    (replace_instance (modified now j (j\<lparr>active_hash := migration_hash e, ins_status := I_restarting\<rparr>)) s, [row_id j], [row_id i])"
  using assms by simp

lemma batch_found:
  assumes "distinct (map row_id (instances s))"
  shows "distinct (map row_id (filter (\<lambda>i. row_id i \<in> set ids \<and> live i) (instances s)))"
    "\<forall>i \<in> set (filter (\<lambda>i. row_id i \<in> set ids \<and> live i) (instances s)). get_live (instances s) (row_id i) = Some i"
  using assms get_live_unique [OF assms] by (auto simp: distinct_map_filter)

lemma batch_kept:
  assumes "instance_handlers hs" and "distinct (map row_id (instances s))"
    and "batch_restart_instances hs now ids reason uid x_org s = Inr (t, dn, sk)"
  shows "kept steady s t"
proof -
  let ?found = "filter (\<lambda>i. row_id i \<in> set ids \<and> live i) (instances s)"
  obtain s1 dn1 sk1 where r: "resync_each now ?found [] s = (s1, dn1, sk1)" by (cases "resync_each now ?found [] s")
  have k: "kept steady s s1" using resync_kept [OF assms(2) batch_found(1) [OF assms(2), of ids] batch_found(2) [OF assms(2), of ids], of now "[]"] r by simp
  have t: "t = fst (emit hs now (instance_event INSTANCE_BATCH_RESTARTED (Some uid) None
      [(''instance_ids'', JList (map JStr ids)), (''reason'', opt_json reason),
       (''restarted_count'', JInt (int (length dn1)))]) s1)"
    using assms(3) r by (auto simp: batch_restart_instances_def Let_def split: if_splits sum.splits)
  show ?thesis unfolding t by (rule kept_trans [OF k emit_kept [OF assms(1)]]) simp
qed

section \<open>The life of Instances\<close>

inductive instance_step ::
    "environment \<Rightarrow> 'z cluster_scheme handlers \<Rightarrow> 'z cluster_scheme \<Rightarrow> 'z cluster_scheme \<Rightarrow> bool"
  for env :: environment and hs :: "'z cluster_scheme handlers" where
  is_create: "create_instance (en_sha env) hs now b uid x_org c = Inr (d, out) \<Longrightarrow> instance_step env hs c d"
| is_update: "update_instance now iid u uid x_org c = Inr (d, j) \<Longrightarrow> instance_step env hs c d"
| is_start: "start_instance hs now iid uid x_org c = Inr (d, j) \<Longrightarrow> instance_step env hs c d"
| is_stop: "stop_instance hs now iid uid x_org c = Inr (d, j) \<Longrightarrow> instance_step env hs c d"
| is_fail: "fail_instance hs now iid reason uid x_org c = Inr (d, j) \<Longrightarrow> instance_step env hs c d"
| is_delete: "delete_instance hs now iid uid x_org c = Inr d \<Longrightarrow> instance_step env hs c d"
| is_deploy: "deploy_instance_endpoint env hs now iid uid x_org c = Inr (d, dep) \<Longrightarrow> instance_step env hs c d"
| is_restart: "restart_instance env hs now iid rsn force uid x_org c = Inr (d, outcome) \<Longrightarrow> instance_step env hs c d"
| is_batch: "batch_restart_instances hs now ids rsn uid x_org c = Inr (d, restarted) \<Longrightarrow> instance_step env hs c d"
| is_pipeline: "instance_step env hs c (advance_pipeline now ans rid c)"
| is_cancel: "deploy_cancel now rid uid c = Inr (d, ns) \<Longrightarrow> instance_step env hs c d"

definition instances_ok :: "'z db_scheme \<Rightarrow> bool" where
  "instances_ok s \<longleftrightarrow> inj (id_source s) \<and> distinct (map row_id (instances s)) \<and> row_id ` set (instances s) \<subseteq> used_ids s \<and>
     uq_instances_workspace_path (instances s) \<and> uq_instances_workspace_entity (instances s)"

text \<open>Every step changes rows, with the paths checked, or adds one.\<close>

definition changed :: "'z db_scheme \<Rightarrow> 'z db_scheme \<Rightarrow> bool" where
  "changed s t \<longleftrightarrow> kept fading s t \<or> kept keeps s t \<and> uq_instances_workspace_path (instances t) \<or>
     (\<exists>ws eid i m. placed ws eid i m s t)"

lemma steady_changed: "kept steady s t \<Longrightarrow> changed s t"
  by (auto simp: changed_def kept_def intro: steady_fading)

lemma update_changed:
  assumes "distinct (map row_id (instances s))" and "update_instance now iid u uid x_org s = Inr (t, j)"
  shows "changed s t"
proof -
  obtain i where i: "get_live (instances s) iid = Some i" "instance_with_permission iid ''can_edit_workspace'' uid x_org s = Inr i"
    using assms(2) guardD by (fastforce simp: update_instance_def split: sum.splits)
  obtain rc p where t: "t = replace_instance (modified now i (i\<lparr>runtime_config := rc, workspace_path := p\<rparr>)) s"
    and uq: "uq_instances_workspace_path (instances t)"
    using assms(2) i(2) by (auto simp: update_instance_def Let_def split: if_splits)
  let ?j = "modified now i (i\<lparr>runtime_config := rc, workspace_path := p\<rparr>)"
  have "keeps i ?j" using get_live_SomeD [OF i(1)] by (auto simp: keeps_def modified_def touch_def)
  moreover have "row_id ?j = iid" using get_live_SomeD [OF i(1)] by simp
  ultimately have "list_all2 keeps (instances s) (instances t)"
    unfolding t replace_instance_def using only_row [OF assms(1) i(1)] by (simp, intro all2_update_where) auto
  with uq t show ?thesis by (simp add: changed_def kept_def replace_instance_def)
qed

lemma create_placed:
  assumes "instance_handlers hs" and "create_introduced_instance sha hs now eid ws opts uid s = Inr (t, i, m, w)"
  shows "placed ws eid i m s t"
proof -
  obtain e s1 e1 h rc where e: "get_live (entities s) eid = Some e" "spawn_hash sha now opts e s = Inr (s1, e1, h)"
    "place_instance hs now ws e1 (intro_path opts) rc h w uid s1 = Inr (t, i, m)"
    using introduceD [OF assms(2)] .
  note same = spawn_hash_instances [OF e(2)]
  have "passages s1 = passages s" using e(2) by (auto simp: spawn_hash_def Let_def split: if_splits sum.splits)
  moreover have "row_id e1 = eid" using same(5) get_live_SomeD [OF e(1)] by simp
  ultimately show ?thesis using place_effect [OF assms(1) e(3)] same unfolding placed_def seat_cell_def by auto
qed

lemma step_changed:
  assumes "instance_handlers hs" and "instance_step env hs c d" and "distinct (map row_id (instances c))"
  shows "changed c d"
  using assms(2)
proof (cases rule: instance_step.cases)
  case (is_create now b uid x_org out)
  then obtain i m w opts where "create_introduced_instance (en_sha env) hs now (ic_entity_id b) (ic_workspace_id b) opts (Some uid) c
      = Inr (d, i, m, w)"
    by (auto simp: create_instance_def map_sum_Inr split: option.splits sum.splits)
  from create_placed [OF assms(1) this] show ?thesis by (auto simp: changed_def)
next
  case (is_update now iid u uid x_org j)
  then show ?thesis using update_changed assms(3) by blast
next
  case (is_start now iid uid x_org j)
  from transition_kept [OF assms(1,3) _ this [unfolded start_instance_def]] show ?thesis by (simp add: steady_changed)
next
  case (is_stop now iid uid x_org j)
  then obtain c1 where "update_transition hs now iid [I_running] I_pending INSTANCE_STOPPED [] uid x_org c = Inr (c1, j)"
    "d = scale_instance_runtime iid 0 c1"
    by (cases "update_transition hs now iid [I_running] I_pending INSTANCE_STOPPED [] uid x_org c") (auto simp: stop_instance_def)
  with transition_kept [OF assms(1,3) _ this(1)] show ?thesis by (simp add: scale_instance_runtime_def steady_changed)
next
  case (is_fail now iid reason uid x_org j)
  from transition_kept [OF assms(1,3) _ this [unfolded fail_instance_def]] show ?thesis by (simp add: steady_changed)
next
  case (is_delete now iid uid x_org)
  then show ?thesis using delete_kept [OF assms(1) _ assms(3)] by (auto simp: changed_def)
next
  case (is_deploy now iid uid x_org dep)
  then show ?thesis using endpoint_kept [OF assms(1,3)] steady_changed by blast
next
  case (is_restart now iid rsn force uid x_org outcome)
  then obtain i e where "get_live (instances c) iid = Some i"
    "d = fst (restart_instance_runtime env hs now i e uid rsn force c)"
    by (auto simp: restart_instance_def get_instance_or_404_def split: option.splits sum.splits) (metis fst_conv)
  with restart_kept [OF assms(1,3)] show ?thesis by (auto intro: steady_changed)
next
  case (is_batch now ids rsn uid x_org restarted)
  with batch_kept [OF assms(1,3), of now ids rsn uid x_org d "fst restarted" "snd restarted"] show ?thesis
    by (simp add: steady_changed)
next
  case (is_pipeline now ans rid)
  then show ?thesis using advance_kept steady_changed by blast
next
  case (is_cancel now rid uid ns)
  then have "instances d = instances c" "id_source d = id_source c" "id_next d = id_next c"
    by (auto simp: deploy_cancel_def cancel_deploy_def cancel_deploy_task_def update_record_def ask_k8s_def Let_def
        split: sum.splits option.splits if_splits)
  then show ?thesis by (intro steady_changed) (simp add: kept_def list_all2_same)
qed

lemma changed_ok:
  assumes "changed s t" and "instances_ok s"
  shows "instances_advance (instances s) (instances t) \<and> instances_ok t"
proof -
  have rows: "instances_advance (instances s) (instances t) \<and> instances_ok t"
    if k: "kept keeps s t" and uq: "uq_instances_workspace_path (instances t)"
  proof -
    have l: "list_all2 keeps (instances s) (instances t)" using k by (simp add: kept_def)
    have "used_ids s \<subseteq> used_ids t" using k by (intro used_ids_mono) (simp_all add: kept_def)
    moreover have ids: "map row_id (instances t) = map row_id (instances s)" by (rule keeps_ids [OF l])
    moreover have "row_id ` set (instances t) = row_id ` set (instances s)" using ids by (metis image_set)
    ultimately show ?thesis
      using advance_keeps [OF l] keeps_entities [OF l] uq assms(2) k by (auto simp: instances_ok_def kept_def)
  qed
  from assms(1) consider "kept fading s t" | "kept keeps s t" "uq_instances_workspace_path (instances t)" |
    ws eid i m where "placed ws eid i m s t" by (auto simp: changed_def)
  then show ?thesis
  proof cases
    case 1
    then show ?thesis
      using assms(2) by (intro rows) (auto simp: kept_def instances_ok_def intro: fading_keeps fading_paths)
  next
    case 2
    then show ?thesis by (rule rows)
  next
    case 3
    then have new: "instances t = instances s @ [i]" "row_id i \<in> id_source s ` {id_next s ..< id_next t}"
      "id_source t = id_source s" "id_next s < id_next t" by (simp_all add: placed_def)
    then have "row_id i \<notin> used_ids s" "row_id i \<in> used_ids t" "used_ids s \<subseteq> used_ids t"
      using assms(2) by (auto simp: used_ids_def instances_ok_def inj_eq)
    moreover have "instances_advance (instances s) (instances t)"
      unfolding instances_advance_def new(1) by (intro exI conjI) (auto simp: list_all2_same)
    ultimately show ?thesis using 3 assms(2) new by (auto simp: instances_ok_def placed_def)
  qed
qed

text \<open>
  C31. Whatever requests are made and however the pipelines of the deployments are interleaved with
  them, an Instance keeps its place, its Entity, its Workspace and its token, a deleted one never
  changes again, new ones are added behind with fresh identifiers, and no two live ones share a path or
  an Entity in a Workspace.
\<close>

theorem instances_lifecycle:
  assumes "instance_handlers hs" and "(instance_step env hs)\<^sup>*\<^sup>* c d" and "instances_ok c"
  shows "instances_advance (instances c) (instances d) \<and> instances_ok d"
  using assms(2)
proof (induction rule: rtranclp_induct)
  case base
  then show ?case using assms(3) by simp
next
  case (step d e)
  have "distinct (map row_id (instances d))" using step(3) by (simp add: instances_ok_def)
  from changed_ok [OF step_changed [OF assms(1) step(2) this]] step(3)
  show ?case by (blast intro: instances_advance_trans)
qed

section \<open>Outcomes\<close>

text \<open>
  A request that restarts a batch asks for the permission in the Workspace of the Instance that
  comes first only: the others are restarted too, also those whose Workspace refuses the user.
\<close>

theorem batch_restart_one_permission:
  assumes "instance_handlers hs" and "distinct (map row_id (instances s))" and "iid \<in> set ids"
    and "\<forall>k \<in> set ids. \<exists>i e. get_live (instances s) k = Some i \<and> ins_status i \<noteq> I_running \<and>
      get_row (entities s) (ins_entity_id i) = Some e \<and> live e"
    and "require_workspace_permission uid (ins_workspace_id (hd (filter (\<lambda>i. row_id i \<in> set ids \<and> live i) (instances s))))
      ''can_operate_workspace'' x_org s = Inr ()"
  shows "\<exists>t restarted j. batch_restart_instances hs now ids reason uid x_org s = Inr (t, restarted, []) \<and>
    set restarted = set ids \<and> get_live (instances t) iid = Some j \<and> ins_status j = I_restarting"
proof -
  let ?found = "filter (\<lambda>i. row_id i \<in> set ids \<and> live i) (instances s)"
  have each: "get_live (instances s) (row_id i) = Some i \<and> row_id i \<in> set ids" if "i \<in> set ?found" for i
    using that batch_found(2) [OF assms(2), of ids] by auto
  have entity: "ins_status i \<noteq> I_running \<and> (\<exists>e. get_row (entities s) (ins_entity_id i) = Some e \<and> live e)" if "i \<in> set ?found" for i
    using assms(4) each [OF that] by fastforce
  then have all: "\<forall>i \<in> set ?found. \<exists>e. get_row (entities s) (ins_entity_id i) = Some e \<and> live e" by blast
  obtain t where t: "resync_each now ?found [] s = (t, map row_id ?found, [])"
    "\<forall>i \<in> set ?found. \<exists>h. get_live (instances t) (row_id i) = Some (resynced now h i)"
    using resync_all [OF assms(2) batch_found [OF assms(2), of ids] all] by blast
  have idle: "\<not> list_ex (\<lambda>i. ins_status i = I_running) ?found" using entity by (auto simp: list_ex_iff)
  have here: "k \<in> row_id ` set ?found" if "k \<in> set ids" for k
  proof -
    from bspec [OF assms(4) that] obtain i where "get_live (instances s) k = Some i" by (elim exE conjE)
    from get_live_SomeD [OF this] that show ?thesis by force
  qed
  then have total: "list_all (\<lambda>k. k \<in> row_id ` set ?found) ids" unfolding list_all_iff by blast
  have same: "set (map row_id ?found) = set ids" using here each unfolding set_map by blast
  let ?t = "fst (emit hs now (instance_event INSTANCE_BATCH_RESTARTED (Some uid) None
    [(''instance_ids'', JList (map JStr ids)), (''reason'', opt_json reason),
     (''restarted_count'', JInt (int (length (map row_id ?found))))]) t)"
  obtain i where i: "i \<in> set ?found" "row_id i = iid" using here [OF assms(3)] by auto
  then obtain h where "get_live (instances t) iid = Some (resynced now h i)" using t(2) by blast
  then have "get_live (instances ?t) iid = Some (resynced now h i)" by (simp add: emit_frame_simps [OF assms(1)])
  moreover have "batch_restart_instances hs now ids reason uid x_org s = Inr (?t, map row_id ?found, [])"
    using assms(3,5) total idle t(1) unfolding batch_restart_instances_def Let_def by auto
  ultimately show ?thesis using same resynced_simps(2) by blast
qed

lemma path_twice:
  "i \<in> set rows \<Longrightarrow> live i \<Longrightarrow> workspace_path i = Some p \<Longrightarrow> live j \<Longrightarrow> workspace_path j = Some p \<Longrightarrow>
   \<not> uq_instances_workspace_path (rows @ [j])"
  by (auto simp: uq_instances_workspace_path_def unique_on_def) force

lemma options_path [simp]:
  "spawn_hash sha now (opts\<lparr>intro_path := q\<rparr>) e s = spawn_hash sha now opts e s"
  "spawn_config (opts\<lparr>intro_path := q\<rparr>) e ws s = spawn_config opts e ws s"
  "conflict_of (opts\<lparr>intro_path := q\<rparr>) = conflict_of opts"
  by (simp_all add: spawn_hash_def spawn_config_def conflict_of_def cong: sum.case_cong)

lemma introduce_taken:
  assumes "create_introduced_instance sha hs now eid ws opts uid s = Inr out" and "p \<noteq> []"
    and "j \<in> set (instances s)" and "live j" and "workspace_path j = Some p"
  shows "create_introduced_instance sha hs now eid ws (opts\<lparr>intro_path := Some p\<rparr>) uid s = Inl unhandled_error"
proof -
  have "place_instance hs now ws e (Some p) rc h warning uid s1 = Inl unhandled_error"
    if "instances s1 = instances s" for e rc h warning s1
    using path_twice [OF assms(3-5)] assms(2) that
    by (simp add: place_instance_def place_at_def Let_def instances_integrity_def new_instance_def live_def take_id_def)
  with assms(1) show ?thesis
    by (auto simp: create_introduced_instance_def split: option.splits sum.splits if_splits dest: spawn_hash_instances(1))
qed

text \<open>
  A request to create an Instance that would succeed with its own path is an unhandled error with
  the path of a live Instance, not the conflict that the request to change a path answers.
\<close>

theorem taken_path_unhandled:
  assumes "create_instance sha hs now b uid x_org s = Inr out" and "p \<noteq> []"
    and "j \<in> set (instances s)" and "live j" and "workspace_path j = Some p"
  shows "create_instance sha hs now (b\<lparr>ic_workspace_path := Some p\<rparr>) uid x_org s = Inl unhandled_error"
proof -
  let ?o = "\<lparr>intro_path = ic_workspace_path b, intro_config = ic_runtime_config b, intro_namespace_match = False,
    intro_ensure_hash = False, intro_conflict = Some (''instance.already_exists'', ''errors.instance.already_exists'')\<rparr>"
  let ?made = "\<lambda>opts. create_introduced_instance sha hs now (ic_entity_id b) (ic_workspace_id b) opts (Some uid) s"
  have same: "create_instance sha hs now (b\<lparr>ic_workspace_path := q\<rparr>) uid x_org s =
      map_sum id (\<lambda>(s1, i, _, warning). (s1, i, warning)) (?made (?o\<lparr>intro_path := q\<rparr>))" for q
    using assms(1) by (auto simp: create_instance_def split: option.splits sum.splits)
  from same [of "ic_workspace_path b"] assms(1) obtain r where "?made ?o = Inr r" by (cases "?made ?o") simp_all
  from introduce_taken [OF this assms(2-5)] same [of "Some p"] show ?thesis by simp
qed

text \<open>
  C34. Once an Instance is deleted it has no live seat, no live Passage touches one it had, no other
  Instance changed, and a topology that was a forest is one still.
\<close>

theorem delete_instance_detaches:
  assumes "instance_handlers hs" and "delete_instance hs now iid uid x_org c = Inr d"
    and "get_live (instances c) iid = Some i" and "ins_status i \<noteq> I_deleting" and "distinct (map row_id (instances c))"
    and "\<forall>m \<in> set (memberships c). row_id m \<noteq> []"
  shows "(\<forall>k. get_live (instances d) k = (if k = iid then None else get_live (instances c) k)) \<and>
    (\<forall>m \<in> set (memberships d). mem_instance_id m = Some iid \<longrightarrow> \<not> live m) \<and>
    (\<forall>m \<in> set (memberships c). \<forall>p \<in> set (passages d). mem_instance_id m = Some iid \<and> live m \<and> live p \<longrightarrow>
       from_membership_id p \<noteq> row_id m \<and> to_membership_id p \<noteq> row_id m) \<and>
    (topology_ok (passages c) \<longrightarrow> topology_ok (passages d))"
proof (intro conjI impI allI)
  note e = delete_effect [OF assms(1-5)]
  let ?j = "soft_delete now (touch now (i\<lparr>ins_status := I_deleting\<rparr>))"
  have j: "row_id ?j = iid" "\<not> live ?j" using get_live_SomeD [OF assms(3)] by (simp_all add: soft_delete_def live_def touch_def)
  show "get_live (instances d) k = (if k = iid then None else get_live (instances c) k)" for k
    unfolding e(1) using get_live_replace [of ?j "instances c" k] j by simp
  show "\<forall>m \<in> set (memberships d). mem_instance_id m = Some iid \<longrightarrow> \<not> live m"
    unfolding e(2) by (auto simp: soft_delete_def live_def elim!: update_whereE)
  show "\<forall>m \<in> set (memberships c). \<forall>p \<in> set (passages d). mem_instance_id m = Some iid \<and> live m \<and> live p \<longrightarrow>
       from_membership_id p \<noteq> row_id m \<and> to_membership_id p \<noteq> row_id m"
    unfolding e(3) using touching_survivor assms(6) by fastforce
  show "topology_ok (passages d)" if "topology_ok (passages c)" unfolding e(3) by (rule topology_ok_touching [OF that])
qed

section \<open>Instances to evaluate on\<close>

definition sample_root :: user where
  "sample_root = \<lparr>row_id = ''u'', created_at = 0, updated_at = 0, deleted_at = None, username = ''ann'', nickname = None,
     email = ''ann@x'', password_hash = ''h'', is_super_admin = True\<rparr>"

definition sample_env :: environment where
  "sample_env = \<lparr>en_getenv = Map.empty, en_service_account = False, en_sha = (\<lambda>x. x), en_compose = (\<lambda>_. True),
     en_provider = (\<lambda>_. [])\<rparr>"

text \<open>One Workspace with one Instance that has a seat, a Passage from that seat, and another Entity.\<close>

definition lively :: cluster where
  "lively = (sample_cluster DS_running)\<lparr>users := [sample_root], entities := [market_entity, market_entity\<lparr>row_id := ''e2''\<rparr>],
     instances := [fox\<lparr>row_id := sample_ids 9, workspace_path := Some ''den''\<rparr>], id_next := 10,
     memberships := [(sample_seat ''i'' 0)\<lparr>mem_user_id := None, mem_instance_id := Some (sample_ids 9)\<rparr>, sample_seat ''ii'' 1],
     passages := [sample_edge ''p'' ''i'' ''ii'' None]\<rparr>"

lemma instance_handlers_Nil [simp]: "instance_handlers []"
  by (simp add: instance_handlers_def handlers_respect_def)

lemma lively_ok: "instances_ok lively"
proof -
  have "distinct (map row_id (instances lively))" "uq_instances_workspace_path (instances lively)"
    "uq_instances_workspace_entity (instances lively)"
    by code_simp+
  moreover have "inj (id_source lively)" "row_id ` set (instances lively) \<subseteq> used_ids lively"
    using sample_ids_ok
    by (auto simp: lively_def sample_cluster_def sample_process_def used_ids_def empty_db_def
        db.defs world.defs process.defs cluster.defs)
  ultimately show ?thesis by (simp add: instances_ok_def)
qed

theorem instances_lifecycle_witness:
  "\<exists>d. start_instance [] 9 (sample_ids 9) ''u'' None (lively\<lparr>instances := map (ins_status_update (\<lambda>_. I_pending)) (instances lively)\<rparr>)
     = Inr d \<and> instances_ok (fst d)"
proof -
  let ?c = "lively\<lparr>instances := map (ins_status_update (\<lambda>_. I_pending)) (instances lively)\<rparr>"
  obtain d where d: "start_instance [] 9 (sample_ids 9) ''u'' None ?c = Inr d"
  proof -
    have "instance_with_permission (sample_ids 9) ''can_edit_workspace'' ''u'' None ?c = Inr (hd (instances ?c))"
      "ins_status (hd (instances ?c)) \<in> set [I_pending, I_deploying]"
      by code_simp+
    then show thesis by (intro that) (simp add: start_instance_def update_transition_def Let_def)
  qed
  have "list_all2 steady (instances lively) (instances ?c)"
    by (simp add: lively_def steady_def fading_def keeps_def live_def fox_def)
  then have "instances_ok ?c"
    using lively_ok changed_ok [OF steady_changed, of lively ?c] by (simp add: kept_def)
  moreover have "instance_step sample_env [] ?c (fst d)"
    by (rule is_start [of _ 9 "sample_ids 9" "''u''" None _ _ "snd d"]) (simp add: d)
  ultimately show ?thesis using instances_lifecycle [OF instance_handlers_Nil r_into_rtranclp, of sample_env ?c "fst d"] d by blast
qed

text \<open>Two Workspaces of two organizations; the user may operate the first.\<close>

definition two_places :: db where
  "two_places = member_store\<lparr>workspaces := workspaces member_store @ [(sample_workspace)\<lparr>row_id := ''v'', ws_namespace_id := ''t''\<rparr>],
     namespaces := namespaces member_store @ [(hd (namespaces member_store))\<lparr>row_id := ''t'', ns_org_id := ''o2''\<rparr>],
     user_genes := map (ug_slug_update (\<lambda>_. ''can_operate_workspace'')) (user_genes member_store),
     organization_contract_genes := [contract_gene_row ''cg'' 1 (''c'', ''g'')], entities := [market_entity],
     instances := [fox\<lparr>ins_status := I_failed\<rparr>, fox\<lparr>row_id := ''y'', ins_workspace_id := ''v'', ins_status := I_failed\<rparr>]\<rparr>"

theorem batch_restart_one_permission_witness:
  "require_workspace_permission ''u'' ''v'' ''can_operate_workspace'' (Some ''o'') two_places \<noteq> Inr () \<and>
   (\<exists>t restarted j. batch_restart_instances [] 9 [''x'', ''y''] None ''u'' (Some ''o'') two_places = Inr (t, restarted, []) \<and>
     get_live (instances t) ''y'' = Some j \<and> ins_workspace_id j = ''v'' \<and> ins_status j = I_restarting)"
proof -
  have d: "distinct (map row_id (instances two_places))" by code_simp
  have "list_all (\<lambda>k. \<exists>i e. get_live (instances two_places) k = Some i \<and> ins_status i \<noteq> I_running \<and>
      get_row (entities two_places) (ins_entity_id i) = Some e \<and> live e) [''x'', ''y'']"
    by (simp add: two_places_def fox_def live_def market_entity_def)
  then have all: "\<forall>k \<in> set [''x'', ''y'']. \<exists>i e. get_live (instances two_places) k = Some i \<and> ins_status i \<noteq> I_running \<and>
      get_row (entities two_places) (ins_entity_id i) = Some e \<and> live e" by simp
  have first: "require_workspace_permission ''u'' (ins_workspace_id (hd (filter (\<lambda>i. row_id i \<in> set [''x'', ''y''] \<and> live i)
      (instances two_places)))) ''can_operate_workspace'' (Some ''o'') two_places = Inr ()"
    by code_simp
  obtain t restarted j where r: "batch_restart_instances [] 9 [''x'', ''y''] None ''u'' (Some ''o'') two_places = Inr (t, restarted, [])"
    "get_live (instances t) ''y'' = Some j" "ins_status j = I_restarting"
    using batch_restart_one_permission [OF instance_handlers_Nil d _ all first, of "''y''" 9 None] by auto
  have "kept steady two_places t" by (rule batch_kept [OF instance_handlers_Nil d r(1)])
  with r(2) have "ins_workspace_id j = ''v''"
    using get_live_SomeD [OF r(2)]
    by (auto simp: kept_def two_places_def fox_def list_all2_Cons1 steady_def fading_def keeps_def)
  moreover have "require_workspace_permission ''u'' ''v'' ''can_operate_workspace'' (Some ''o'') two_places \<noteq> Inr ()"
    by code_simp
  ultimately show ?thesis using r by blast
qed

lemma lively_fields:
  "memberships lively = [(sample_seat ''i'' 0)\<lparr>mem_user_id := None, mem_instance_id := Some (sample_ids 9)\<rparr>, sample_seat ''ii'' 1]"
  "instances lively = [fox\<lparr>row_id := sample_ids 9, workspace_path := Some ''den''\<rparr>]"
  "id_source lively = sample_ids" "id_next lively = 10" "entities lively = [market_entity, market_entity\<lparr>row_id := ''e2''\<rparr>]" "workspaces lively = [sample_ws]"
  "row_id (entities lively ! 1) = ''e2''"
  by (simp_all add: lively_def sample_cluster_def sample_process_def empty_db_def market_entity_def sample_ws_def fk_exists_def
      db.defs world.defs process.defs cluster.defs)

lemma lively_places:
  "is_ok (place_instance [] 9 ''w'' (entities lively ! 1) (Some ''hut'') rc h w (Some ''u'') lively)"
proof -
  let ?i = "new_instance (new_id (take_id lively)) 9 ''e2'' ''w'' ''hut'' rc (new_id lively) h"
  let ?s = "(take_id (take_id lively))\<lparr>instances := instances lively @ [?i]\<rparr>"
  let ?m = "new_instance_seat (new_id ?s) 9 ''w'' (row_id ?i) (free_cell [(0, 0), (1, 0)])"
  have ids: "sample_ids 11 \<noteq> sample_ids 9" "sample_ids 9 \<noteq> sample_ids 11" using sample_ids_ok by (simp_all add: inj_eq)
  obtain x y where cell: "free_cell [(0, 0), (1, 0)] = (x, y)" by (cases "free_cell [(0, 0), (1, 0)]")
  have "instances_integrity ?s ?i"
    by (simp add: instances_integrity_def uq_instances_workspace_path_def uq_instances_workspace_entity_def unique_on_def
        new_instance_def live_def take_id_def lively_fields fox_def fk_exists_def sample_ws_def)
  moreover have "memberships_integrity ?s (memberships lively @ [?m]) ?m"
    using ids free_cell_fresh [of "[(0, 0), (1, 0)]"] unfolding cell
    by (simp add: memberships_integrity_def new_instance_seat_def lively_fields new_instance_def new_id_def take_id_def
        ck_memberships_exclusive_fk_def uq_memberships_workspace_user_def uq_memberships_workspace_instance_def
        uq_memberships_workspace_pos_def unique_on_def sample_seat_def live_def fk_exists_def
        sample_ws_def)
  ultimately show ?thesis
    by (simp add: place_instance_def place_at_def Let_def lively_fields sample_seat_def live_def)
qed

theorem taken_path_unhandled_witness:
  "create_instance (\<lambda>x. x) [] 9 \<lparr>ic_entity_id = ''e2'', ic_workspace_id = ''w'', ic_workspace_path = Some ''den'',
     ic_runtime_config = None\<rparr> ''u'' None lively = Inl unhandled_error"
proof -
  let ?b = "\<lparr>ic_entity_id = ''e2'', ic_workspace_id = ''w'', ic_workspace_path = Some ''hut'', ic_runtime_config = None\<rparr>"
  let ?o = "\<lparr>intro_path = Some ''hut'', intro_config = None, intro_namespace_match = False,
    intro_ensure_hash = False, intro_conflict = Some (''instance.already_exists'', ''errors.instance.already_exists'')\<rparr>"
  let ?e = "entities lively ! 1"
  have found: "get_live (entities lively) ''e2'' = Some ?e" "get_live (workspaces lively) ''w'' = Some sample_ws"
    "require_workspace_permission ''u'' ''w'' ''can_edit_workspace'' None lively = Inr ()"
    "scalar_one_or_none (filter (\<lambda>i. ins_workspace_id i = ''w'' \<and> ins_entity_id i = ''e2'' \<and> live i) (instances lively)) = Inr None"
    "is_ok (compute_entity_migration_hash (\<lambda>x. x) ?e lively)" "is_ok (spawn_config ?o ?e ''w'' lively)"
    by code_simp+
  from found(5) obtain h where h: "spawn_hash (\<lambda>x. x) 9 ?o ?e lively = Inr (lively, ?e, h)"
    by (auto simp: spawn_hash_def elim!: is_okE)
  from found(6) obtain rc w where c: "spawn_config ?o ?e ''w'' lively = Inr (rc, w)" by (auto elim!: is_okE)
  from lively_places [of rc h w] obtain t i m
    where "place_instance [] 9 ''w'' ?e (Some ''hut'') rc h w (Some ''u'') lively = Inr (t, i, m)" by (auto elim!: is_okE)
  then have "create_instance (\<lambda>x. x) [] 9 ?b ''u'' None lively = Inr (t, i, w)"
    using found(1-4) h c by (simp add: create_instance_def create_introduced_instance_def)
  from taken_path_unhandled [OF this, of "''den''" "hd (instances lively)"]
  show ?thesis by (simp add: lively_def fox_def live_def)
qed

theorem delete_instance_detaches_witness:
  "\<exists>d. delete_instance [] 9 (sample_ids 9) ''u'' None lively = Inr d \<and> get_live (instances d) (sample_ids 9) = None"
proof -
  let ?i = "hd (instances lively)"
  have i: "get_live (instances lively) (sample_ids 9) = Some ?i" "ins_status ?i \<noteq> I_deleting"
    "instance_with_permission (sample_ids 9) ''can_edit_workspace'' ''u'' None lively = Inr ?i"
    "distinct (map row_id (instances lively))" "list_all (\<lambda>m. row_id m \<noteq> []) (memberships lively)"
    by code_simp+
  then obtain d where d: "delete_instance [] 9 (sample_ids 9) ''u'' None lively = Inr d"
    by (simp add: delete_instance_def Let_def)
  have "\<forall>m \<in> set (memberships lively). row_id m \<noteq> []" using i(5) by (simp add: list_all_iff)
  from delete_instance_detaches [OF instance_handlers_Nil d i(1,2,4) this] d show ?thesis by auto
qed

end
