(* ===== verification/Disk.thy ===== *)
theory Disk
  imports Py_Str
begin

text \<open>
  The shared mount of a Workspace: the parts of \<^verbatim>\<open>os\<close>, \<^verbatim>\<open>posixpath\<close> and \<^verbatim>\<open>shutil\<close> in use, the path
  guards of \<^verbatim>\<open>app/core/dirs.py\<close> and the mirror of \<^verbatim>\<open>app/services/fornix_sync.py\<close>. A disk maps the
  components of an absolute path to what is there; the root is always a directory. An operation
  returns the disk it leaves and whether it raised; errors of the device are an argument.
\<close>

section \<open>Paths\<close>

abbreviation (input) slash :: char where
  "slash \<equiv> CHR ''/''"

definition rstrip_sep :: "string \<Rightarrow> string" where
  "rstrip_sep p = rev (dropWhile (\<lambda>c. c = slash) (rev p))"

definition strip_sep :: "string \<Rightarrow> string" where
  "strip_sep p = rstrip_sep (dropWhile (\<lambda>c. c = slash) p)"

definition ends_sep :: "string \<Rightarrow> bool" where
  "ends_sep p = (p \<noteq> [] \<and> last p = slash)"

definition path_join :: "string \<Rightarrow> string \<Rightarrow> string" where
  "path_join a b = (if starts_with ''/'' b then b else if a = [] \<or> ends_sep a then a @ b else a @ ''/'' @ b)"

definition path_head :: "string \<Rightarrow> string" where
  "path_head p = rev (dropWhile (\<lambda>c. c \<noteq> slash) (rev p))"

definition basename :: "string \<Rightarrow> string" where
  "basename p = rev (takeWhile (\<lambda>c. c \<noteq> slash) (rev p))"

definition dirname :: "string \<Rightarrow> string" where
  "dirname p = (if list_all (\<lambda>c. c = slash) (path_head p) then path_head p else rstrip_sep (path_head p))"

text \<open>The components that the operating system follows; no path of the model has one that is \<open>..\<close>.\<close>

definition resolve :: "string \<Rightarrow> string list" where
  "resolve p = filter (\<lambda>c. c \<noteq> [] \<and> c \<noteq> ''.'') (split_on slash p)"

section \<open>The disk\<close>

datatype node = Dir | File string

type_synonym disk = "string list \<Rightarrow> node option"

definition look :: "disk \<Rightarrow> string list \<Rightarrow> node option" where
  "look d p = (if p = [] then Some Dir else d p)"

text \<open>A path that ends in a slash names a directory or nothing.\<close>

definition stat :: "string \<Rightarrow> disk \<Rightarrow> node option" where
  "stat p d = (case look d (resolve p) of
      Some (File c) \<Rightarrow> (if ends_sep p then None else Some (File c))
    | n \<Rightarrow> n)"

definition is_file :: "node option \<Rightarrow> bool" where
  "is_file n = (case n of Some (File _) \<Rightarrow> True | _ \<Rightarrow> False)"

definition makedirs :: "string \<Rightarrow> disk \<Rightarrow> disk \<times> bool" where
  "makedirs p d =
     (if list_ex (\<lambda>q. is_file (look d q)) (prefixes (resolve p)) then (d, True)
      else ((\<lambda>q. if q \<noteq> [] \<and> q \<in> set (prefixes (resolve p)) \<and> d q = None then Some Dir else d q), False))"

definition write_text :: "string \<Rightarrow> string \<Rightarrow> disk \<Rightarrow> disk \<times> bool" where
  "write_text p content d =
     (let q = resolve p
      in if look d q = Some Dir \<or> ends_sep p \<or> look d (butlast q) \<noteq> Some Dir then (d, True)
         else (d(q \<mapsto> File content), False))"

definition read_text :: "string \<Rightarrow> disk \<Rightarrow> string option" where
  "read_text p d = (case stat p d of Some (File c) \<Rightarrow> Some c | _ \<Rightarrow> None)"

definition rename_tree :: "string list \<Rightarrow> string list \<Rightarrow> disk \<Rightarrow> disk" where
  "rename_tree s t d =
     (\<lambda>q. if prefix t q then d (s @ drop (length t) q) else if prefix s q then None else d q)"

text \<open>\<open>shutil.move\<close>: into a directory that is there, else to the new name; a directory not into itself.\<close>

definition shutil_move :: "string \<Rightarrow> string \<Rightarrow> disk \<Rightarrow> disk \<times> bool" where
  "shutil_move src dst d =
     (let s = resolve src; inside = (stat dst d = Some Dir);
          t = (if inside then resolve (path_join dst (basename (rstrip_sep src))) else resolve dst)
      in if inside \<and> resolve dst = s then (d, False)
         else if inside \<and> look d t \<noteq> None then (d, True)
         else case stat src d of
                None \<Rightarrow> (d, True)
              | Some n \<Rightarrow> if n = Dir \<and> prefix s t then (d, True) else (rename_tree s t d, False))"

definition remove_tree :: "string \<Rightarrow> disk \<Rightarrow> disk" where
  "remove_tree p d = (\<lambda>q. if prefix (resolve p) q then None else d q)"

section \<open>Path guards (core/dirs.py)\<close>

definition has_traversal :: "string \<Rightarrow> bool" where
  "has_traversal v = (''..'' \<in> set (split_on slash v))"

definition shared_host_path :: "string \<Rightarrow> string \<Rightarrow> string option" where
  "shared_host_path ws root = (if has_traversal ws then None else Some (rstrip_sep root @ ''/'' @ ws @ ''/shared''))"

definition guarded :: "string \<Rightarrow> string \<Rightarrow> string option" where
  "guarded v path = (if has_traversal v then None else Some path)"

definition INSTANCE_ROOT_SUBDIRS :: "string list" where
  "INSTANCE_ROOT_SUBDIRS = [''work'', ''memory'', ''.pi'', ''shared'']"

definition entity_dir :: "string \<Rightarrow> string option" where
  "entity_dir slug = guarded slug (''.pi/'' @ slug @ ''/'')"

definition instance_data_subdir :: "string \<Rightarrow> string option" where
  "instance_data_subdir name =
     (if has_traversal name \<or> name \<notin> set INSTANCE_ROOT_SUBDIRS then None else Some (name @ ''/''))"

definition workspace_dir :: "string \<Rightarrow> string option" where
  "workspace_dir iid = guarded iid (''workspace/'' @ iid @ ''/'')"

definition fornix_dir :: "string \<Rightarrow> string option" where
  "fornix_dir ws = guarded ws (''fornix/'' @ ws @ ''/'')"

definition vault_dir :: "string \<Rightarrow> string option" where
  "vault_dir ws = guarded ws (''vault/'' @ ws @ ''/'')"

definition memory_export_path :: "string \<Rightarrow> string option" where
  "memory_export_path slug = guarded slug (''memory/'' @ slug @ ''.jsonl'')"

section \<open>The mirror (services/fornix_sync.py)\<close>

definition mirror_abs_path :: "string \<Rightarrow> string \<Rightarrow> string option \<Rightarrow> string \<Rightarrow> string option" where
  "mirror_abs_path root ws parent name =
     (if has_traversal ws \<or> (case parent of None \<Rightarrow> False | Some p \<Rightarrow> has_traversal p) \<or> has_traversal name then None
      else let rel = (if \<not> truthy parent then name else strip_sep (the parent) @ ''/'' @ name)
           in map_option (\<lambda>r. path_join r rel) (shared_host_path ws root))"

definition put_text :: "string \<Rightarrow> string \<Rightarrow> disk \<Rightarrow> disk \<times> bool" where
  "put_text target content d =
     (case makedirs (if dirname target = [] then ''.'' else dirname target) d of
        (d1, True) \<Rightarrow> (d1, True)
      | (d1, False) \<Rightarrow> write_text target content d1)"

definition drop_path :: "string \<Rightarrow> disk \<Rightarrow> disk \<times> bool" where
  "drop_path target d =
     (case stat target d of
        None \<Rightarrow> (d, False)
      | Some Dir \<Rightarrow> (remove_tree target d, False)
      | Some (File _) \<Rightarrow> (d(resolve target := None), False))"

definition sync_write ::
    "string \<Rightarrow> bool \<Rightarrow> string \<Rightarrow> string option \<Rightarrow> string \<Rightarrow> string option \<Rightarrow> bool \<Rightarrow> disk \<Rightarrow> disk \<times> bool" where
  "sync_write root io ws parent name content is_dir d =
     (case mirror_abs_path root ws parent name of
        None \<Rightarrow> (d, True)
      | Some target \<Rightarrow>
          if io then (d, True)
          else if is_dir then makedirs target d
          else put_text target (str_or content []) d)"

text \<open>A \<open>None\<close> for the new name, from an explicit null, is a \<open>TypeError\<close>.\<close>

definition sync_move ::
    "string \<Rightarrow> bool \<Rightarrow> string \<Rightarrow> string option \<Rightarrow> string \<Rightarrow> string option \<Rightarrow> string option \<Rightarrow> disk \<Rightarrow> disk \<times> bool" where
  "sync_move root io ws src_parent src_name dst_parent dst_name d =
     (case (mirror_abs_path root ws src_parent src_name,
            case dst_name of None \<Rightarrow> None | Some n \<Rightarrow> mirror_abs_path root ws dst_parent n) of
        (Some src, Some dst) \<Rightarrow>
          (if io \<or> stat src d = Some Dir \<and> is_file (stat dst d) then (d, True)
           else case makedirs (if dirname dst = [] then ''.'' else dirname dst) d of
                  (d1, True) \<Rightarrow> (d1, True)
                | (d1, False) \<Rightarrow> shutil_move src dst d1)
      | _ \<Rightarrow> (d, True))"

definition sync_remove :: "string \<Rightarrow> bool \<Rightarrow> string \<Rightarrow> string option \<Rightarrow> string \<Rightarrow> disk \<Rightarrow> disk \<times> bool" where
  "sync_remove root io ws parent name d =
     (case mirror_abs_path root ws parent name of
        None \<Rightarrow> (d, True)
      | Some target \<Rightarrow>
          if io then (d, True)
          else drop_path target d)"

section \<open>Components\<close>

lemma split_on_sep_append: "split_on c (a @ c # b) = split_on c a @ split_on c b"
  by (induction c a rule: split_on.induct) (auto split: list.splits)

lemma resolve_Nil [simp]: "resolve [] = []"
  by (simp add: resolve_def)

lemma resolve_append [simp]: "resolve (a @ CHR ''/'' # b) = resolve a @ resolve b"
  by (simp add: resolve_def split_on_sep_append)

lemma resolve_Cons [simp]: "resolve (CHR ''/'' # b) = resolve b"
  using resolve_append [of "[]" b] by simp

lemma resolve_word: "slash \<notin> set w \<Longrightarrow> resolve w = (if w = [] \<or> w = ''.'' then [] else [w])"
  by (simp add: resolve_def split_on_word)

lemma resolve_rstrip [simp]: "resolve (rstrip_sep p) = resolve p"
proof (induction p rule: rev_induct)
  case (snoc c p)
  have "resolve (p @ [slash]) = resolve p" using resolve_append [of p "[]"] by simp
  with snoc show ?case by (simp add: rstrip_sep_def)
qed (simp add: rstrip_sep_def)

lemma resolve_lstrip [simp]: "resolve (dropWhile (\<lambda>c. c = slash) p) = resolve p"
  by (induction p) auto

lemma resolve_strip [simp]: "resolve (strip_sep p) = resolve p"
  by (simp add: strip_sep_def)

lemma head_base: "path_head p @ basename p = p"
proof -
  have "rev (takeWhile (\<lambda>c. c \<noteq> slash) (rev p) @ dropWhile (\<lambda>c. c \<noteq> slash) (rev p)) = p"
    unfolding takeWhile_dropWhile_id by simp
  then show ?thesis by (simp only: rev_append path_head_def basename_def)
qed

lemma head_cases: obtains "path_head p = []" | h where "path_head p = h @ ''/''"
proof (cases "dropWhile (\<lambda>c. c \<noteq> slash) (rev p)")
  case (Cons c cs)
  then have "c = slash" by (simp add: dropWhile_eq_Cons_conv)
  with Cons show ?thesis by (intro that(2) [of "rev cs"]) (simp add: path_head_def)
qed (simp add: path_head_def that)

lemma basename_word: "slash \<notin> set (basename p)"
  by (auto simp: basename_def dest: set_takeWhileD)

lemma resolve_dirname: "resolve p = resolve (dirname p) @ resolve (basename p)"
proof -
  have "resolve (dirname p) = resolve (path_head p)" by (simp add: dirname_def)
  moreover have "resolve (path_head p @ basename p) = resolve (path_head p) @ resolve (basename p)"
    by (rule head_cases [of p]) (simp_all add: resolve_append [of _ "[]", simplified])
  ultimately show ?thesis by (simp add: head_base)
qed

lemma resolve_basename: "resolve (basename p) = (if basename p = [] \<or> basename p = ''.'' then [] else [basename p])"
  by (simp add: resolve_word basename_word)

section \<open>Contents\<close>

definition content_at :: "disk \<Rightarrow> string list \<Rightarrow> string option" where
  "content_at d q = (case look d q of Some (File c) \<Rightarrow> Some c | _ \<Rightarrow> None)"

lemma read_content: "read_text p d = Some c \<Longrightarrow> content_at d (resolve p) = Some c"
  by (auto simp: read_text_def content_at_def stat_def split: option.splits node.splits if_splits)

lemma content_read: "\<not> ends_sep p \<Longrightarrow> read_text p d = content_at d (resolve p)"
  by (auto simp: read_text_def content_at_def stat_def split: option.splits node.splits)

lemma makedirs_content [simp]: "makedirs p d = (d1, r) \<Longrightarrow> content_at d1 q = content_at d q"
  by (auto simp: makedirs_def content_at_def look_def split: if_splits option.splits node.splits)

lemma write_content:
  "write_text p c d = (d1, False) \<Longrightarrow> content_at d1 q = (if q = resolve p then Some c else content_at d q)"
  by (auto simp: write_text_def content_at_def look_def Let_def split: if_splits option.splits node.splits)

text \<open>What the mirror of a set of files needs of the disk.\<close>

locale file_mirror =
  fixes put :: "'p \<Rightarrow> string \<Rightarrow> 'd \<Rightarrow> 'd \<times> bool" and remove :: "'p \<Rightarrow> 'd \<Rightarrow> 'd \<times> bool"
    and loc :: "'p \<Rightarrow> 'k" and plain :: "'p \<Rightarrow> bool" and content :: "'d \<Rightarrow> 'k \<Rightarrow> string option"
  assumes put_law: "put p c d = (d', False) \<Longrightarrow> content d' k = (if k = loc p then Some c else content d k)"
    and remove_law: "remove p d = (d', False) \<Longrightarrow> plain p \<Longrightarrow> content d (loc p) \<noteq> None \<Longrightarrow>
      content d' k = (if k = loc p then None else content d k)"
begin

definition holds :: "'d \<Rightarrow> ('k \<times> string) set \<Rightarrow> bool" where
  "holds d fs \<longleftrightarrow> (\<forall>(k, c) \<in> fs. content d k = Some c)"

lemma holds_put: "put p c d = (d', False) \<Longrightarrow> holds d fs \<Longrightarrow> loc p \<notin> fst ` fs \<Longrightarrow> holds d' (insert (loc p, c) fs)"
  by (force simp: holds_def put_law)

lemma holds_remove:
  assumes "remove p d = (d', False)" and "plain p" and "holds d fs" and "(loc p, c) \<in> fs"
  shows "holds d' {f \<in> fs. fst f \<noteq> loc p}"
proof -
  have "content d (loc p) \<noteq> None" using assms(3,4) by (auto simp: holds_def)
  with remove_law [OF assms(1,2)] assms(3) show ?thesis by (auto simp: holds_def)
qed

lemma put_back:
  assumes "remove p d = (d1, False)" and "plain p" and "content d (loc p) = Some c" and "put p c d1 = (d2, False)"
  shows "content d2 k = content d k"
  using put_law [OF assms(4)] remove_law [OF assms(1,2)] assms(3) by simp

end

lemma put_text_content:
  assumes "put_text p c d = (d1, False)"
  shows "content_at d1 q = (if q = resolve p then Some c else content_at d q)"
proof -
  obtain d0 where "makedirs (if dirname p = [] then ''.'' else dirname p) d = (d0, False)" "write_text p c d0 = (d1, False)"
    using assms by (auto simp: put_text_def split: prod.splits bool.splits)
  then show ?thesis using write_content makedirs_content by simp
qed

lemma drop_path_content:
  assumes "drop_path p d = (d1, False)" and "\<not> ends_sep p" and "content_at d (resolve p) \<noteq> None"
  shows "content_at d1 q = (if q = resolve p then None else content_at d q)"
  using assms
  by (auto simp: drop_path_def stat_def content_at_def look_def split: option.splits node.splits if_splits)

interpretation disk: file_mirror put_text drop_path resolve "\<lambda>p. \<not> ends_sep p" content_at
  by unfold_locales (simp_all add: put_text_content drop_path_content)

end
