(* ===== verification/Central_Hub.thy ===== *)
theory Central_Hub
  imports Instances Disk
begin

text \<open>
  The central hub of a Workspace (\<^verbatim>\<open>app/api/v1/central_hubs.py\<close>, \<^verbatim>\<open>app/models/central_hub.py\<close>): its notes,
  the file tree with its mirror on the shared mount, the vault, the kanban cards, the schedules and the
  cerebellum (\<^verbatim>\<open>ensure_cerebellum_entity_and_instance\<close> of \<^verbatim>\<open>app/core/cerebellum_migration.py\<close>). Requests
  that touch the mount return the state also when they fail: the disk keeps what was done to it and the
  failure is on the audit log.
\<close>

section \<open>Tables\<close>

record fornix_file = base_row +
  ff_workspace_id :: ident
  ff_central_hub_id :: ident
  ff_name :: string
  ff_parent_path :: "string option"
  storage_key :: string
  ff_content_type :: "string option"
  file_size :: "int option"
  ff_content :: "string option"
  is_directory :: bool
  uploader_user_id :: "ident option"
  uploader_instance_id :: "ident option"

record vault = base_row +
  va_workspace_id :: ident

record vault_entry = base_row +
  ve_vault_id :: ident
  ve_source_type :: string
  source_ref :: "string option"
  archived_key :: "string option"
  ve_value :: "json option"
  archived_at :: "timestamp option"

record kanban = base_row +
  kb_central_hub_id :: ident
  kb_title :: string
  kb_description :: "string option"
  kb_status :: string
  assignee_entity_id :: "ident option"
  kb_position :: int
  due_at :: "timestamp option"

record schedule = base_row +
  sc_central_hub_id :: ident
  sc_name :: string
  cron_expr :: string
  action_payload :: "json_obj option"
  sc_enabled :: bool
  last_run_at :: "timestamp option"
  next_run_at :: "timestamp option"

text \<open>A unique index takes nulls as distinct, so it says nothing of the files without a parent.\<close>

definition uq_fornix_files_path :: "fornix_file list \<Rightarrow> bool" where
  "uq_fornix_files_path = unique_on (\<lambda>f. live f \<and> ff_parent_path f \<noteq> None)
     (\<lambda>f. (ff_workspace_id f, ff_parent_path f, ff_name f))"

definition uq_fornix_files_storage_key :: "fornix_file list \<Rightarrow> bool" where
  "uq_fornix_files_storage_key = unique_on (\<lambda>_. True) storage_key"

definition ck_fornix_files_exclusive_uploader :: "fornix_file list \<Rightarrow> bool" where
  "ck_fornix_files_exclusive_uploader =
     list_all (\<lambda>f. (uploader_user_id f \<noteq> None) \<noteq> (uploader_instance_id f \<noteq> None))"

definition uq_vaults_workspace :: "vault list \<Rightarrow> bool" where
  "uq_vaults_workspace = unique_on live va_workspace_id"

definition uq_frontal_lobe_kanbans_hub_position :: "kanban list \<Rightarrow> bool" where
  "uq_frontal_lobe_kanbans_hub_position = unique_on live (\<lambda>k. (kb_central_hub_id k, kb_position k))"

record brain = cluster +
  fornix_files :: "fornix_file list"
  vaults :: "vault list"
  vault_entries :: "vault_entry list"
  kanbans :: "kanban list"
  schedules :: "schedule list"
  disk :: disk

text \<open>The mount: its root, whether the device fails at this request, and the text of the exception.\<close>

record mount =
  mt_root :: string
  mt_fails :: bool
  mt_error :: string

definition user_event :: "string \<Rightarrow> string \<Rightarrow> ident \<Rightarrow> ident option \<Rightarrow> json_obj \<Rightarrow> event_args" where
  "user_event ty rt uid rid payload = \<lparr>ea_type = ty, ea_actor_type = ''user'', ea_actor_id = Some uid,
     ea_resource_type = Some rt, ea_resource_id = rid, ea_payload = payload, ea_request_id = None\<rparr>"

section \<open>Helpers\<close>

definition split_parent_path :: "string option \<Rightarrow> string option \<times> string" where
  "split_parent_path parent =
     (if \<not> truthy parent then (None, [])
      else let clean = strip_sep (the parent)
           in if clean = [] then (None, [])
              else (if dirname clean = [] then None else Some (''/'' @ dirname clean), basename clean))"

definition new_central_hub :: "ident \<Rightarrow> timestamp \<Rightarrow> ident \<Rightarrow> central_hub" where
  "new_central_hub i now ws = \<lparr>row_id = i, created_at = now, updated_at = now, deleted_at = None,
     ch_workspace_id = ws, ch_content = None, manual_notes = None\<rparr>"

definition get_or_create_central_hub :: "timestamp \<Rightarrow> ident \<Rightarrow> 'z db_scheme \<Rightarrow> ('z db_scheme \<times> central_hub) result" where
  "get_or_create_central_hub now ws s =
     (case scalar_one_or_none (filter (\<lambda>h. ch_workspace_id h = ws \<and> live h) (central_hubs s)) of
        Inl e \<Rightarrow> Inl e
      | Inr (Some h) \<Rightarrow> Inr (s, h)
      | Inr None \<Rightarrow>
          (let h = new_central_hub (new_id s) now ws
           in if \<not> fk_exists (workspaces s) ws then Inl unhandled_error
              else Inr ((take_id s)\<lparr>central_hubs := central_hubs s @ [h]\<rparr>, h)))"

definition get_or_create_vault :: "timestamp \<Rightarrow> ident \<Rightarrow> 'z brain_scheme \<Rightarrow> ('z brain_scheme \<times> vault) result" where
  "get_or_create_vault now ws s =
     (case scalar_one_or_none (filter (\<lambda>v. va_workspace_id v = ws \<and> live v) (vaults s)) of
        Inl e \<Rightarrow> Inl e
      | Inr (Some v) \<Rightarrow> Inr (s, v)
      | Inr None \<Rightarrow>
          (let v = \<lparr>row_id = new_id s, created_at = now, updated_at = now, deleted_at = None, va_workspace_id = ws\<rparr>
           in if \<not> fk_exists (workspaces s) ws then Inl unhandled_error
              else Inr ((take_id s)\<lparr>vaults := vaults s @ [v]\<rparr>, v)))"

text \<open>\<open>col == None\<close> is \<open>IS NULL\<close>, so a missing parent is matched like any other.\<close>

definition at_path :: "ident \<Rightarrow> string option \<Rightarrow> string \<Rightarrow> fornix_file \<Rightarrow> bool" where
  "at_path ws parent name f \<longleftrightarrow> ff_workspace_id f = ws \<and> ff_parent_path f = parent \<and> ff_name f = name \<and> live f"

definition parent_directory_not_found :: eyot_error where
  "parent_directory_not_found =
     NotFoundError ''central_hub.parent_directory_not_found'' ''errors.central_hub.parent_directory_not_found''"

definition validate_parent_directory :: "ident \<Rightarrow> string option \<Rightarrow> 'z brain_scheme \<Rightarrow> unit result" where
  "validate_parent_directory ws parent s =
     (case parent of
        None \<Rightarrow> Inr ()
      | Some p \<Rightarrow>
         (case split_parent_path (Some p) of
            (dir, name) \<Rightarrow>
             (case scalar_one_or_none (filter (\<lambda>f. at_path ws dir name f \<and> is_directory f) (fornix_files s)) of
                Inl e \<Rightarrow> Inl e
              | Inr None \<Rightarrow> Inl parent_directory_not_found
              | Inr (Some _) \<Rightarrow> Inr ())))"

definition duplicate_path :: eyot_error where
  "duplicate_path = ConflictError ''central_hub.fornix.duplicate_path'' ''errors.central_hub.fornix.duplicate_path''"

definition sync_failed_error :: eyot_error where
  "sync_failed_error = InternalError ''central_hub.fornix.sync_failed'' ''errors.central_hub.fornix.sync_failed''"

text \<open>The session goes back to the state \<open>s\<close> at the start of the request; what the disk is now stays.\<close>

definition raise_sync_failed ::
    "mount \<Rightarrow> 'z brain_scheme handlers \<Rightarrow> timestamp \<Rightarrow> ident \<Rightarrow> ident \<Rightarrow> nat \<Rightarrow> disk \<Rightarrow> 'z brain_scheme
     \<Rightarrow> 'z brain_scheme \<times> 'a result" where
  "raise_sync_failed mt hs now ws fid next d s =
     (fst (emit hs now (system_event FORNIX_SYNC_FAILED ''fornix_file'' fid
        [(''workspace_id'', JStr ws), (''file_id'', JStr fid), (''error'', JStr (mt_error mt))])
        (s\<lparr>id_next := next, disk := d\<rparr>)),
      Inl sync_failed_error)"

definition file_not_found :: eyot_error where
  "file_not_found = NotFoundError ''central_hub.fornix.file_not_found'' ''errors.central_hub.file_not_found''"

text \<open>\<open>SELECT ... WHERE id = i AND workspace_id = w AND deleted_at IS NULL\<close> or 404.\<close>

definition find_file :: "ident \<Rightarrow> ident \<Rightarrow> 'z brain_scheme \<Rightarrow> fornix_file result" where
  "find_file ws fid s =
     (case scalar_one_or_none (filter (\<lambda>f. row_id f = fid \<and> ff_workspace_id f = ws \<and> live f) (fornix_files s)) of
        Inl e \<Rightarrow> Inl e | Inr None \<Rightarrow> Inl file_not_found | Inr (Some f) \<Rightarrow> Inr f)"

definition files_integrity :: "'z brain_scheme \<Rightarrow> fornix_file \<Rightarrow> bool" where
  "files_integrity s f \<longleftrightarrow>
     fk_exists (workspaces s) (ff_workspace_id f) \<and> fk_exists (central_hubs s) (ff_central_hub_id f) \<and>
     opt_ref (users s) (uploader_user_id f) \<and> opt_ref (instances s) (uploader_instance_id f) \<and>
     uq_fornix_files_path (fornix_files s) \<and> uq_fornix_files_storage_key (fornix_files s) \<and>
     ck_fornix_files_exclusive_uploader (fornix_files s)"

definition set_file :: "fornix_file \<Rightarrow> 'z brain_scheme \<Rightarrow> 'z brain_scheme" where
  "set_file f s = s\<lparr>fornix_files := update_where (\<lambda>r. row_id r = row_id f) (\<lambda>_. f) (fornix_files s)\<rparr>"

section \<open>Notes\<close>

definition read_central_hub ::
    "timestamp \<Rightarrow> ident \<Rightarrow> ident \<Rightarrow> ident option \<Rightarrow> 'z brain_scheme \<Rightarrow> ('z brain_scheme \<times> central_hub) result" where
  "read_central_hub now ws uid x_org s =
     (case require_workspace_permission uid ws ''can_view_workspace'' x_org s of
        Inl e \<Rightarrow> Inl e
      | Inr _ \<Rightarrow>
         (case get_or_create_central_hub now ws s of
            Inl e \<Rightarrow> Inl e
          | Inr (s1, h) \<Rightarrow> map_sum id (\<lambda>(s2, _). (s2, h)) (get_or_create_vault now ws s1)))"

record central_hub_update =
  hu_content :: "string patch"
  hu_manual_notes :: "string patch"

definition update_central_hub ::
    "timestamp \<Rightarrow> ident \<Rightarrow> central_hub_update \<Rightarrow> ident \<Rightarrow> ident option \<Rightarrow> 'z db_scheme \<Rightarrow> ('z db_scheme \<times> central_hub) result" where
  "update_central_hub now ws b uid x_org s =
     (case require_workspace_permission uid ws ''can_edit_workspace'' x_org s of
        Inl e \<Rightarrow> Inl e
      | Inr _ \<Rightarrow>
         (case get_or_create_central_hub now ws s of
            Inl e \<Rightarrow> Inl e
          | Inr (s1, h) \<Rightarrow>
             (let h1 = modified now h (h\<lparr>
                    ch_content := (case hu_content b of None \<Rightarrow> ch_content h | Some v \<Rightarrow> v),
                    manual_notes := (case hu_manual_notes b of None \<Rightarrow> manual_notes h | Some v \<Rightarrow> v)\<rparr>)
              in Inr (s1\<lparr>central_hubs := update_where (\<lambda>r. row_id r = row_id h) (\<lambda>_. h1) (central_hubs s1)\<rparr>, h1))))"

section \<open>Files\<close>

definition page_bounds :: "int \<Rightarrow> int \<Rightarrow> unit result" where
  "page_bounds limit offset = (if limit < 1 \<or> 200 < limit \<or> offset < 0 then Inl request_validation_error else Inr ())"

definition list_files ::
    "ident \<Rightarrow> ident \<Rightarrow> ident option \<Rightarrow> string option \<Rightarrow> int \<Rightarrow> int \<Rightarrow> 'z brain_scheme \<Rightarrow> fornix_file offset_page result" where
  "list_files ws uid x_org parent limit offset s =
     (case page_bounds limit offset of
        Inl e \<Rightarrow> Inl e
      | Inr _ \<Rightarrow>
         (case require_workspace_permission uid ws ''can_view_workspace'' x_org s of
            Inl e \<Rightarrow> Inl e
          | Inr _ \<Rightarrow> Inr (paginate_offset (sort_key ff_name (filter (\<lambda>f. ff_workspace_id f = ws \<and> live f \<and>
              (parent = None \<or> ff_parent_path f = parent)) (fornix_files s))) (nat offset) (nat limit))))"

definition get_file :: "ident \<Rightarrow> ident \<Rightarrow> ident \<Rightarrow> ident option \<Rightarrow> 'z brain_scheme \<Rightarrow> fornix_file result" where
  "get_file ws fid uid x_org s =
     (case require_workspace_permission uid ws ''can_view_workspace'' x_org s of
        Inl e \<Rightarrow> Inl e | Inr _ \<Rightarrow> find_file ws fid s)"

record file_create =
  fc_name :: string
  fc_parent_path :: "string option"
  fc_storage_key :: string
  fc_content_type :: "string option"
  fc_file_size :: "int option"
  fc_is_directory :: bool
  fc_content :: "string option"

definition new_file :: "ident \<Rightarrow> timestamp \<Rightarrow> ident \<Rightarrow> ident \<Rightarrow> file_create \<Rightarrow> string \<Rightarrow> ident \<Rightarrow> fornix_file" where
  "new_file i now ws hub b key uid = \<lparr>row_id = i, created_at = now, updated_at = now, deleted_at = None,
     ff_workspace_id = ws, ff_central_hub_id = hub, ff_name = fc_name b, ff_parent_path = fc_parent_path b,
     storage_key = key, ff_content_type = fc_content_type b, file_size = fc_file_size b, ff_content = fc_content b,
     is_directory = fc_is_directory b, uploader_user_id = Some uid, uploader_instance_id = None\<rparr>"

definition directory_cannot_have_content :: eyot_error where
  "directory_cannot_have_content =
     ConflictError ''central_hub.directory_cannot_have_content'' ''errors.central_hub.directory_cannot_have_content''"

text \<open>Everything before the mirror: the checks, and the row as the database takes it.\<close>

definition insert_file ::
    "timestamp \<Rightarrow> ident \<Rightarrow> file_create \<Rightarrow> ident \<Rightarrow> ident option \<Rightarrow> 'z brain_scheme \<Rightarrow> ('z brain_scheme \<times> fornix_file) result" where
  "insert_file now ws b uid x_org s =
     (if 255 < length (fc_name b) then Inl request_validation_error
      else case require_workspace_permission uid ws ''can_edit_workspace'' x_org s of
        Inl e \<Rightarrow> Inl e
      | Inr _ \<Rightarrow>
         (case validate_parent_directory ws (fc_parent_path b) s of
            Inl e \<Rightarrow> Inl e
          | Inr _ \<Rightarrow>
             if fc_is_directory b \<and> (fc_content_type b \<noteq> None \<or> fc_file_size b \<noteq> None)
             then Inl directory_cannot_have_content
             else (case scalar_one_or_none (filter (at_path ws (fc_parent_path b) (fc_name b)) (fornix_files s)) of
                     Inl e \<Rightarrow> Inl e
                   | Inr (Some _) \<Rightarrow> Inl duplicate_path
                   | Inr None \<Rightarrow>
                      (let drawn = (fc_storage_key b = []); key = (if drawn then new_id s else fc_storage_key b);
                           s0 = (if drawn then take_id s else s)
                       in case get_or_create_central_hub now ws s0 of
                            Inl e \<Rightarrow> Inl e
                          | Inr (s1, h) \<Rightarrow>
                             (let f = new_file (new_id s1) now ws (row_id h) b key uid;
                                  s2 = (take_id s1)\<lparr>fornix_files := fornix_files s1 @ [f]\<rparr>
                              in if files_integrity s2 f then Inr (s2, f) else Inl unhandled_error)))))"

definition created_event :: "ident \<Rightarrow> ident \<Rightarrow> fornix_file \<Rightarrow> event_args" where
  "created_event ws uid f = user_event FORNIX_FILE_CREATED ''fornix_file'' uid (Some (row_id f))
     [(''workspace_id'', JStr ws), (''name'', JStr (ff_name f)), (''parent_path'', opt_json (ff_parent_path f)),
      (''is_directory'', JBool (is_directory f))]"

definition create_file ::
    "mount \<Rightarrow> 'z brain_scheme handlers \<Rightarrow> timestamp \<Rightarrow> ident \<Rightarrow> file_create \<Rightarrow> ident \<Rightarrow> ident option \<Rightarrow> 'z brain_scheme
     \<Rightarrow> 'z brain_scheme \<times> fornix_file result" where
  "create_file mt hs now ws b uid x_org s =
     (case insert_file now ws b uid x_org s of
        Inl e \<Rightarrow> (s, Inl e)
      | Inr (s1, f) \<Rightarrow>
         (case sync_write (mt_root mt) (mt_fails mt) ws (fc_parent_path b) (fc_name b) (fc_content b) (fc_is_directory b) (disk s1) of
            (d, True) \<Rightarrow> raise_sync_failed mt hs now ws (row_id f) (id_next s1) d s
          | (d, False) \<Rightarrow> (fst (emit hs now (created_event ws uid f) (s1\<lparr>disk := d\<rparr>)), Inr f)))"

record file_update =
  fu_name :: "string patch"
  fu_parent_path :: "string patch"

text \<open>
  The new name may be null, which only the mirror notices. The row is flushed with the event, after
  the move on the disk.
\<close>

definition update_file ::
    "mount \<Rightarrow> 'z brain_scheme handlers \<Rightarrow> timestamp \<Rightarrow> ident \<Rightarrow> ident \<Rightarrow> file_update \<Rightarrow> ident \<Rightarrow> ident option \<Rightarrow> 'z brain_scheme
     \<Rightarrow> 'z brain_scheme \<times> fornix_file result" where
  "update_file mt hs now ws fid b uid x_org s =
     (case require_workspace_permission uid ws ''can_edit_workspace'' x_org s of
        Inl e \<Rightarrow> (s, Inl e)
      | Inr _ \<Rightarrow>
         (case find_file ws fid s of
            Inl e \<Rightarrow> (s, Inl e)
          | Inr f \<Rightarrow>
             (let name = (case fu_name b of None \<Rightarrow> Some (ff_name f) | Some n \<Rightarrow> n);
                  parent = (case fu_parent_path b of None \<Rightarrow> ff_parent_path f | Some p \<Rightarrow> p);
                  changed = (parent \<noteq> ff_parent_path f \<or> name \<noteq> Some (ff_name f))
              in case (case fu_parent_path b of
                         Some (Some p) \<Rightarrow> (if Some p \<noteq> ff_parent_path f then validate_parent_directory ws (Some p) s else Inr ())
                       | _ \<Rightarrow> Inr ()) of
                   Inl e \<Rightarrow> (s, Inl e)
                 | Inr _ \<Rightarrow>
                    (case (if changed then sync_move (mt_root mt) (mt_fails mt) ws (ff_parent_path f) (ff_name f) parent name (disk s)
                           else (disk s, False)) of
                       (d, True) \<Rightarrow> raise_sync_failed mt hs now ws (row_id f) (id_next s) d s
                     | (d, False) \<Rightarrow>
                        (let f1 = modified now f (f\<lparr>ff_name := the name, ff_parent_path := parent\<rparr>);
                             s1 = (set_file f1 s)\<lparr>disk := d\<rparr>
                         in if \<not> uq_fornix_files_path (fornix_files s1) then (s\<lparr>disk := d\<rparr>, Inl unhandled_error)
                            else (fst (emit hs now (user_event FORNIX_FILE_UPDATED ''fornix_file'' uid (Some (row_id f))
                                    [(''workspace_id'', JStr ws), (''file_id'', JStr fid)]) s1), Inr f1))))))"

definition directory_not_empty :: eyot_error where
  "directory_not_empty = ConflictError ''central_hub.directory_not_empty'' ''errors.central_hub.directory_not_empty''"

definition target_path :: "fornix_file \<Rightarrow> string" where
  "target_path f = (if truthy (ff_parent_path f) then the (ff_parent_path f) @ ''/'' @ ff_name f else ''/'' @ ff_name f)"

definition delete_file ::
    "mount \<Rightarrow> 'z brain_scheme handlers \<Rightarrow> timestamp \<Rightarrow> ident \<Rightarrow> ident \<Rightarrow> ident \<Rightarrow> ident option \<Rightarrow> 'z brain_scheme
     \<Rightarrow> 'z brain_scheme \<times> unit result" where
  "delete_file mt hs now ws fid uid x_org s =
     (case require_workspace_permission uid ws ''can_edit_workspace'' x_org s of
        Inl e \<Rightarrow> (s, Inl e)
      | Inr _ \<Rightarrow>
         (case find_file ws fid s of
            Inl e \<Rightarrow> (s, Inl e)
          | Inr f \<Rightarrow>
             if is_directory f \<and> list_ex (\<lambda>g. ff_workspace_id g = ws \<and> ff_parent_path g = Some (target_path f) \<and> live g)
                  (fornix_files s)
             then (s, Inl directory_not_empty)
             else (case sync_remove (mt_root mt) (mt_fails mt) ws (ff_parent_path f) (ff_name f) (disk s) of
                     (d, True) \<Rightarrow> raise_sync_failed mt hs now ws (row_id f) (id_next s) d s
                   | (d, False) \<Rightarrow> ((set_file (soft_delete now f) s)\<lparr>disk := d\<rparr>, Inr ()))))"

section \<open>The vault\<close>

definition read_vault ::
    "timestamp \<Rightarrow> ident \<Rightarrow> ident \<Rightarrow> ident option \<Rightarrow> 'z brain_scheme \<Rightarrow> ('z brain_scheme \<times> vault) result" where
  "read_vault now ws uid x_org s =
     (case require_workspace_permission uid ws ''can_view_workspace'' x_org s of
        Inl e \<Rightarrow> Inl e | Inr _ \<Rightarrow> get_or_create_vault now ws s)"

text \<open>Newest first; a vault made for the listing is not committed.\<close>

definition archive_key :: "vault_entry \<Rightarrow> int \<times> int" where
  "archive_key e = (case archived_at e of None \<Rightarrow> (0, 0) | Some t \<Rightarrow> (1, - t))"

definition list_vault_entries ::
    "timestamp \<Rightarrow> ident \<Rightarrow> ident \<Rightarrow> ident option \<Rightarrow> string option \<Rightarrow> string option \<Rightarrow> int \<Rightarrow> int \<Rightarrow> 'z brain_scheme
     \<Rightarrow> vault_entry offset_page result" where
  "list_vault_entries now ws uid x_org st key limit offset s =
     (case page_bounds limit offset of
        Inl e \<Rightarrow> Inl e
      | Inr _ \<Rightarrow>
         (case read_vault now ws uid x_org s of
            Inl e \<Rightarrow> Inl e
          | Inr (s1, v) \<Rightarrow> Inr (paginate_offset (sort_key archive_key (filter (\<lambda>e. ve_vault_id e = row_id v \<and> live e \<and>
              (case st of None \<Rightarrow> True | Some t \<Rightarrow> ve_source_type e = t) \<and>
              (case (key, archived_key e) of
                 (None, _) \<Rightarrow> True | (Some _, None) \<Rightarrow> False
               | (Some k, Some a) \<Rightarrow> sql_like (lower (''%'' @ k @ ''%'')) (lower a)))
              (vault_entries s1))) (nat offset) (nat limit))))"

definition cannot_archive_directory :: eyot_error where
  "cannot_archive_directory =
     ConflictError ''central_hub.fornix.cannot_archive_directory'' ''errors.central_hub.fornix.cannot_archive_directory''"

definition new_entry :: "ident \<Rightarrow> timestamp \<Rightarrow> ident \<Rightarrow> fornix_file \<Rightarrow> vault_entry" where
  "new_entry i now vid f = \<lparr>row_id = i, created_at = now, updated_at = now, deleted_at = None,
     ve_vault_id = vid, ve_source_type = ''fornix_file'', source_ref = Some (row_id f), archived_key = Some (storage_key f),
     ve_value = Some (JObj [(''name'', JStr (ff_name f)), (''parent_path'', opt_json (ff_parent_path f)),
       (''is_directory'', JBool (is_directory f)), (''content'', opt_json (ff_content f))]),
     archived_at = Some now\<rparr>"

text \<open>The identifier of the entry is drawn when it is flushed with the event, so the payload has none.\<close>

definition archive_file_to_vault ::
    "mount \<Rightarrow> 'z brain_scheme handlers \<Rightarrow> timestamp \<Rightarrow> ident \<Rightarrow> ident \<Rightarrow> ident \<Rightarrow> ident option \<Rightarrow> 'z brain_scheme
     \<Rightarrow> 'z brain_scheme \<times> vault_entry result" where
  "archive_file_to_vault mt hs now ws fid uid x_org s =
     (case require_workspace_permission uid ws ''can_edit_workspace'' x_org s of
        Inl e \<Rightarrow> (s, Inl e)
      | Inr _ \<Rightarrow>
         (case find_file ws fid s of
            Inl e \<Rightarrow> (s, Inl e)
          | Inr f \<Rightarrow>
             if is_directory f then (s, Inl cannot_archive_directory)
             else (case get_or_create_vault now ws s of
                     Inl e \<Rightarrow> (s, Inl e)
                   | Inr (s1, v) \<Rightarrow>
                      (case sync_remove (mt_root mt) (mt_fails mt) ws (ff_parent_path f) (ff_name f) (disk s1) of
                         (d, True) \<Rightarrow> raise_sync_failed mt hs now ws (row_id f) (id_next s1) d s
                       | (d, False) \<Rightarrow>
                          (let e = new_entry (new_id s1) now (row_id v) f;
                               s2 = (set_file (soft_delete now f) (take_id s1))\<lparr>vault_entries := vault_entries s1 @ [e], disk := d\<rparr>
                           in (fst (emit hs now (user_event FORNIX_FILE_ARCHIVED ''fornix_file'' uid (Some fid)
                                 [(''workspace_id'', JStr ws), (''vault_entry_id'', JNull), (''storage_key'', JStr (storage_key f))]) s2),
                               Inr e))))))"

text \<open>What the entry remembers of its file.\<close>

definition archived_text :: "json_obj \<Rightarrow> string \<Rightarrow> string option" where
  "archived_text ob k = (case jget ob k of Some (JStr x) \<Rightarrow> Some x | _ \<Rightarrow> None)"

definition archived_value :: "vault_entry \<Rightarrow> json_obj" where
  "archived_value e = (case ve_value e of Some (JObj ob) \<Rightarrow> ob | _ \<Rightarrow> [])"

definition source_of :: "vault_entry \<Rightarrow> 'z brain_scheme \<Rightarrow> fornix_file option" where
  "source_of e s = (if truthy (source_ref e) then get_row (fornix_files s) (the (source_ref e)) else None)"

definition entry_not_found :: eyot_error where
  "entry_not_found = NotFoundError ''central_hub.vault.entry_not_found'' ''errors.central_hub.vault.entry_not_found''"

text \<open>
  A file that is still in the table comes back as it was, wherever it was; its flush is with the event.
  Otherwise a new row is made, and flushed before the mirror.
\<close>

definition restored_file ::
    "timestamp \<Rightarrow> ident \<Rightarrow> vault_entry \<Rightarrow> ident \<Rightarrow> 'z brain_scheme \<Rightarrow> ('z brain_scheme \<times> fornix_file) result" where
  "restored_file now ws e uid s =
     (case source_of e s of
        Some f \<Rightarrow>
          (let f1 = modified now f (f\<lparr>ff_content := (case archived_text (archived_value e) ''content'' of
                 None \<Rightarrow> ff_content f | Some c \<Rightarrow> Some c), deleted_at := None\<rparr>)
           in Inr (set_file f1 s, f1))
      | None \<Rightarrow>
         (case get_or_create_central_hub now ws s of
            Inl err \<Rightarrow> Inl err
          | Inr (s1, h) \<Rightarrow>
             (let drawn = \<not> truthy (archived_key e); key = (if drawn then new_id s1 else the (archived_key e));
                  s2 = (if drawn then take_id s1 else s1);
                  f = new_file (new_id s2) now ws (row_id h)
                    \<lparr>fc_name = str_or (archived_text (archived_value e) ''name'') (str_or (archived_key e) ''restored.txt''),
                     fc_parent_path = archived_text (archived_value e) ''parent_path'', fc_storage_key = key,
                     fc_content_type = None, fc_file_size = None,
                     fc_is_directory = json_true (jget_null (archived_value e) ''is_directory''),
                     fc_content = archived_text (archived_value e) ''content''\<rparr> key uid;
                  s3 = (take_id s2)\<lparr>fornix_files := fornix_files s2 @ [f]\<rparr>
              in if files_integrity s3 f then Inr (s3, f) else Inl unhandled_error)))"

definition restore_target :: "vault_entry \<Rightarrow> 'z brain_scheme \<Rightarrow> string option \<times> string" where
  "restore_target e s =
     (case source_of e s of
        Some f \<Rightarrow> (ff_parent_path f, ff_name f)
      | None \<Rightarrow> (archived_text (archived_value e) ''parent_path'',
                 str_or (archived_text (archived_value e) ''name'') (str_or (archived_key e) ''restored.txt'')))"

definition restore_vault_entry ::
    "mount \<Rightarrow> 'z brain_scheme handlers \<Rightarrow> timestamp \<Rightarrow> ident \<Rightarrow> ident \<Rightarrow> ident \<Rightarrow> ident option \<Rightarrow> 'z brain_scheme
     \<Rightarrow> 'z brain_scheme \<times> fornix_file result" where
  "restore_vault_entry mt hs now ws eid uid x_org s =
     (case require_workspace_permission uid ws ''can_edit_workspace'' x_org s of
        Inl err \<Rightarrow> (s, Inl err)
      | Inr _ \<Rightarrow>
         (case get_or_create_vault now ws s of
            Inl err \<Rightarrow> (s, Inl err)
          | Inr (s1, v) \<Rightarrow>
             (case scalar_one_or_none (filter (\<lambda>e. row_id e = eid \<and> ve_vault_id e = row_id v \<and> live e) (vault_entries s1)) of
                Inl err \<Rightarrow> (s, Inl err)
              | Inr None \<Rightarrow> (s, Inl entry_not_found)
              | Inr (Some e) \<Rightarrow>
                 (case restore_target e s1 of
                    (parent, name) \<Rightarrow>
                     (case scalar_one_or_none (filter (\<lambda>f. at_path ws parent name f \<and>
                              (case source_of e s1 of None \<Rightarrow> True | Some g \<Rightarrow> row_id f \<noteq> row_id g)) (fornix_files s1)) of
                        Inl err \<Rightarrow> (s, Inl err)
                      | Inr (Some _) \<Rightarrow> (s, Inl duplicate_path)
                      | Inr None \<Rightarrow>
                         (case restored_file now ws e uid s1 of
                            Inl err \<Rightarrow> (s, Inl err)
                          | Inr (s2, f) \<Rightarrow>
                             (case sync_write (mt_root mt) (mt_fails mt) ws (ff_parent_path f) (ff_name f) (ff_content f)
                                     (is_directory f) (disk s2) of
                                (d, True) \<Rightarrow> raise_sync_failed mt hs now ws (row_id f) (id_next s2) d s
                              | (d, False) \<Rightarrow>
                                 (let s3 = s2\<lparr>vault_entries := update_where (\<lambda>r. row_id r = eid) (soft_delete now)
                                             (vault_entries s2), disk := d\<rparr>
                                  in if \<not> uq_fornix_files_path (fornix_files s3) then (s\<lparr>disk := d\<rparr>, Inl unhandled_error)
                                     else (fst (emit hs now (user_event FORNIX_FILE_RESTORED ''fornix_file'' uid (Some (row_id f))
                                             [(''workspace_id'', JStr ws), (''vault_entry_id'', JStr eid),
                                              (''storage_key'', JStr (storage_key f))]) s3), Inr f)))))))))"

end
