(* ===== verification/Hub_Tree.thy ===== *)
theory Hub_Tree
  imports Central_Hub
begin

text \<open>
  The file tree of the Workspaces and its mirror on the shared mount: canonical paths, where a row lies
  on the disk, and what one step of the tree keeps, over the interface \<open>file_mirror\<close> of the disk.
\<close>

section \<open>Canonical paths\<close>

definition canonical_name :: "string \<Rightarrow> bool" where
  "canonical_name n \<longleftrightarrow> n \<noteq> [] \<and> n \<noteq> ''.'' \<and> n \<noteq> ''..'' \<and> slash \<notin> set n"

definition dir_path :: "string list \<Rightarrow> string" where
  "dir_path cs = concat (map ((@) ''/'') cs)"

definition comps :: "string option \<Rightarrow> string list" where
  "comps parent = resolve (str_or parent [])"

definition parent_of :: "string list \<Rightarrow> string option" where
  "parent_of cs = (if cs = [] then None else Some (dir_path cs))"

definition canonical_parent :: "string option \<Rightarrow> bool" where
  "canonical_parent parent \<longleftrightarrow> list_all canonical_name (comps parent) \<and> parent = parent_of (comps parent)"

lemma dir_path_simps [simp]: "dir_path [] = []" "dir_path (c # cs) = slash # c @ dir_path cs"
  "dir_path (cs @ ds) = dir_path cs @ dir_path ds"
  by (simp_all add: dir_path_def)

lemma split_on_name: "slash \<notin> set w \<Longrightarrow> split_on slash (w @ CHR ''/'' # p) = w # split_on slash p"
  by (simp add: split_on_sep_append split_on_word)

lemma split_dir_path: "list_all canonical_name cs \<Longrightarrow> split_on slash (dir_path cs) = [] # cs"
proof (induction cs)
  case (Cons c cs)
  show ?case
  proof (cases cs)
    case Nil with Cons show ?thesis by (simp add: split_on_word canonical_name_def)
  next
    case (Cons d ds)
    moreover have "canonical_name c" "split_on slash (dir_path cs) = [] # cs" using Cons.prems Cons.IH by simp_all
    ultimately show ?thesis by (simp add: split_on_name canonical_name_def)
  qed
qed simp

lemma resolve_name [simp]: "canonical_name n \<Longrightarrow> resolve n = [n]"
  by (simp add: resolve_word canonical_name_def)

lemma resolve_dir_path [simp]: "list_all canonical_name cs \<Longrightarrow> resolve (dir_path cs) = cs"
  by (simp add: resolve_def split_dir_path) (simp add: filter_id_conv list_all_iff canonical_name_def)

lemma comps_parent [simp]: "list_all canonical_name cs \<Longrightarrow> comps (parent_of cs) = cs"
  by (cases cs) (simp_all add: comps_def parent_of_def str_or_def resolve_dir_path [of "_ # _", simplified])

lemma canonical_parentI [simp]: "list_all canonical_name cs \<Longrightarrow> canonical_parent (parent_of cs)"
  by (simp add: canonical_parent_def)

lemma canonical_parentE:
  assumes "canonical_parent p"
  obtains cs where "list_all canonical_name cs" "p = parent_of cs" "comps p = cs"
  using assms unfolding canonical_parent_def by blast

lemma no_traversal: "canonical_name n \<Longrightarrow> \<not> has_traversal n"
  "list_all canonical_name cs \<Longrightarrow> \<not> has_traversal (dir_path cs)"
  by (auto simp: has_traversal_def split_on_word split_dir_path canonical_name_def list_all_iff)

text \<open>The last character of a name is no slash, so nothing is stripped at the end of a path.\<close>

lemma rstrip_name [simp]: "canonical_name n \<Longrightarrow> rstrip_sep (p @ n) = p @ n"
proof -
  assume "canonical_name n"
  then obtain m c where "n = m @ [c]" "c \<noteq> slash" by (cases n rule: rev_cases) (auto simp: canonical_name_def)
  then show ?thesis by (simp add: rstrip_sep_def)
qed

lemma strip_dir_path:
  assumes "list_all canonical_name (c # cs)"
  shows "strip_sep (dir_path (c # cs)) = c @ dir_path cs"
proof -
  have "dropWhile (\<lambda>x. x = slash) (dir_path (c # cs)) = c @ dir_path cs"
    using assms by (cases c) (auto simp: canonical_name_def)
  moreover have "rstrip_sep (c @ dir_path cs) = c @ dir_path cs"
  proof (cases cs rule: rev_cases)
    case Nil with assms show ?thesis using rstrip_name [of c "[]"] by simp
  next
    case (snoc ds d)
    with assms show ?thesis using rstrip_name [of d "c @ dir_path ds @ ''/''"] by simp
  qed
  ultimately show ?thesis by (simp add: strip_sep_def)
qed

lemma all_but_slash: "slash \<notin> set n \<Longrightarrow> takeWhile (\<lambda>x. x \<noteq> slash) (rev n) = rev n" "slash \<notin> set n \<Longrightarrow> dropWhile (\<lambda>x. x \<noteq> slash) (rev n) = []"
  by (auto simp: takeWhile_eq_all_conv dropWhile_eq_Nil_conv)

lemma basename_name [simp]: "canonical_name n \<Longrightarrow> basename (p @ CHR ''/'' # n) = n" "canonical_name n \<Longrightarrow> basename n = n"
  by (simp_all add: basename_def canonical_name_def takeWhile_append all_but_slash)

lemma head_name: "canonical_name n \<Longrightarrow> path_head (p @ CHR ''/'' # n) = p @ ''/''" "canonical_name n \<Longrightarrow> path_head n = []"
  by (simp_all add: path_head_def canonical_name_def dropWhile_append all_but_slash)

lemma dirname_name [simp]:
  assumes "canonical_name n"
  shows "canonical_name c \<Longrightarrow> dirname ((p @ c) @ CHR ''/'' # n) = p @ c" "dirname n = []"
proof -
  assume "canonical_name c"
  then have "\<not> list_all (\<lambda>x. x = slash) (p @ c @ ''/'')" by (cases c) (auto simp: canonical_name_def)
  moreover have "rstrip_sep ((p @ c) @ ''/'') = p @ c" using \<open>canonical_name c\<close> rstrip_name [of c p] by (simp add: rstrip_sep_def)
  ultimately show "dirname ((p @ c) @ CHR ''/'' # n) = p @ c" using head_name(1) [OF assms, of "p @ c"] by (simp add: dirname_def)
qed (simp add: dirname_def head_name assms)

section \<open>Where a row lies\<close>

definition row_path :: "fornix_file \<Rightarrow> string list" where
  "row_path f = comps (ff_parent_path f) @ [ff_name f]"

definition spot :: "fornix_file \<Rightarrow> ident \<times> string list" where
  "spot f = (ff_workspace_id f, row_path f)"

definition place_on :: "string \<Rightarrow> ident \<times> string list \<Rightarrow> string list" where
  "place_on root x = resolve root @ [fst x, ''shared''] @ snd x"

definition canonical_file :: "fornix_file \<Rightarrow> bool" where
  "canonical_file f \<longleftrightarrow> canonical_name (ff_workspace_id f) \<and> canonical_parent (ff_parent_path f) \<and> canonical_name (ff_name f)"

definition text_of :: "fornix_file \<Rightarrow> string" where
  "text_of f = str_or (ff_content f) []"

lemma place_on_inj [simp]: "place_on root x = place_on root y \<longleftrightarrow> x = y"
  by (auto simp: place_on_def prod_eq_iff)

lemma place_on_prefix: "prefix (place_on root (ws, p)) (place_on root (ws', q)) \<longleftrightarrow> ws = ws' \<and> prefix p q"
  by (auto simp: place_on_def)

text \<open>The path that the mirror uses for a canonical row.\<close>

lemma not_ends_name [simp]: "canonical_name n \<Longrightarrow> \<not> ends_sep (p @ n)"
  by (cases n rule: rev_cases) (auto simp: ends_sep_def canonical_name_def)

lemma mirror_canonical:
  assumes "canonical_name ws" "canonical_parent parent" "canonical_name name"
  obtains target where "mirror_abs_path root ws parent name = Some target" "\<not> ends_sep target"
    "resolve target = place_on root (ws, comps parent @ [name])"
proof -
  obtain cs where cs: "list_all canonical_name cs" "parent = parent_of cs" "comps parent = cs"
    using canonical_parentE [OF assms(2)] .
  define rel where "rel = (if \<not> truthy parent then name else strip_sep (the parent) @ ''/'' @ name)"
  have tr: "\<not> has_traversal ws" "\<not> has_traversal name" "\<not> (case parent of None \<Rightarrow> False | Some p \<Rightarrow> has_traversal p)"
    using assms cs no_traversal by (auto simp: parent_of_def split: option.splits)
  have rel: "resolve rel = cs @ [name]" "\<not> starts_with ''/'' rel" "\<exists>p. rel = p @ name"
  proof -
    show "resolve rel = cs @ [name]"
      using assms(3) cs by (cases cs) (simp_all add: rel_def parent_of_def resolve_dir_path [of "_ # _", simplified])
    show "\<not> starts_with ''/'' rel"
    proof (cases cs)
      case Nil
      then show ?thesis using assms(3) cs by (cases name) (auto simp: rel_def parent_of_def starts_with_def canonical_name_def)
    next
      case (Cons c ds)
      then have "rel = c @ dir_path ds @ ''/'' @ name"
        using cs strip_dir_path [of c ds] by (simp add: rel_def parent_of_def)
      moreover have "c \<noteq> []" "slash \<notin> set c" using cs Cons by (auto simp: canonical_name_def)
      ultimately show ?thesis by (cases c) (auto simp: starts_with_def)
    qed
    show "\<exists>p. rel = p @ name"
    proof (cases "truthy parent")
      case True then show ?thesis by (intro exI [of _ "strip_sep (the parent) @ ''/''"]) (simp add: rel_def)
    next
      case False then show ?thesis by (intro exI [of _ "[]"]) (simp add: rel_def)
    qed
  qed
  define r where "r = rstrip_sep root @ ''/'' @ ws @ ''/shared''"
  have "\<not> ends_sep r" "r \<noteq> []" by (simp_all add: r_def ends_sep_def)
  with rel(2) have "path_join r rel = r @ ''/'' @ rel" by (simp add: path_join_def)
  then have "mirror_abs_path root ws parent name = Some (r @ ''/'' @ rel)"
    using tr by (simp add: mirror_abs_path_def shared_host_path_def r_def rel_def Let_def)
  moreover have "\<not> ends_sep (r @ ''/'' @ rel)"
    using rel(3) not_ends_name [OF assms(3)] by (metis append.assoc)
  moreover have "resolve (r @ ''/'' @ rel) = place_on root (ws, comps parent @ [name])"
  proof -
    have "resolve (''shared'' @ CHR ''/'' # rel) = ''shared'' # cs @ [name]"
      unfolding resolve_append rel(1) by (simp add: resolve_word)
    then show ?thesis using cs(3) assms(1) by (simp add: r_def place_on_def)
  qed
  ultimately show thesis by (rule that)
qed

text \<open>Rows with canonical parents are told apart by their place.\<close>

lemma canonical_parent_eq:
  assumes "canonical_parent p" "canonical_parent q"
  shows "p = q \<longleftrightarrow> comps p = comps q"
  using canonical_parentE [OF assms(1)] canonical_parentE [OF assms(2)] by metis

lemma at_path_spot:
  assumes "canonical_file f" "canonical_parent parent"
  shows "at_path ws parent name f \<longleftrightarrow> live f \<and> spot f = (ws, comps parent @ [name])"
  using assms canonical_parent_eq [of "ff_parent_path f" parent]
  by (auto simp: at_path_def spot_def row_path_def canonical_file_def)

lemma split_parent_canonical:
  assumes "list_all canonical_name (cs @ [c])"
  shows "split_parent_path (Some (dir_path (cs @ [c]))) = (parent_of cs, c)"
proof (cases cs rule: rev_cases)
  case Nil
  then show ?thesis using assms strip_dir_path [of c "[]"]
    by (simp add: split_parent_path_def Let_def parent_of_def canonical_name_def dirname_def path_head_def all_but_slash basename_def)
next
  case (snoc ds d)
  obtain e es where e: "cs = e # es" using snoc by (metis append_is_Nil_conv neq_Nil_conv)
  then have st: "strip_sep (dir_path (cs @ [c])) = (e @ dir_path es) @ CHR ''/'' # c"
    using assms strip_dir_path [of e "es @ [c]"] by simp
  have "\<exists>p. e @ dir_path es = p @ d"
  proof (cases es rule: rev_cases)
    case Nil then show ?thesis using snoc e by (intro exI [of _ "[]"]) simp
  next
    case (snoc fs f) then show ?thesis using \<open>cs = ds @ [d]\<close> e by (intro exI [of _ "e @ dir_path fs @ ''/''"]) simp
  qed
  then obtain p where "e @ dir_path es = p @ d" by blast
  moreover have "canonical_name c" "canonical_name d" using assms snoc by auto
  moreover have "p @ d \<noteq> []" using \<open>canonical_name d\<close> by (auto simp: canonical_name_def)
  ultimately have "dirname (strip_sep (dir_path (cs @ [c]))) = e @ dir_path es"
    "basename (strip_sep (dir_path (cs @ [c]))) = c" "e @ dir_path es \<noteq> []"
    using st dirname_name(1) [of c d p] basename_name(1) [of c "p @ d"] by simp_all
  with st e show ?thesis by (simp add: split_parent_path_def Let_def parent_of_def)
qed

text \<open>A directory is empty when no live row has its path as its parent.\<close>

lemma target_path_canonical:
  assumes "canonical_file f"
  shows "Some (target_path f) = parent_of (row_path f)" "list_all canonical_name (row_path f)"
proof -
  obtain cs where cs: "list_all canonical_name cs" "ff_parent_path f = parent_of cs" "comps (ff_parent_path f) = cs"
    using assms canonical_parentE unfolding canonical_file_def by metis
  then show "Some (target_path f) = parent_of (row_path f)"
    by (cases cs) (simp_all add: target_path_def parent_of_def row_path_def)
  show "list_all canonical_name (row_path f)" using cs assms by (simp add: row_path_def canonical_file_def)
qed

section \<open>Trees and their mirror\<close>

text \<open>
  The live rows \<open>L\<close> of a disk \<open>d\<close>: no two at one place, every parent is a live directory, and the content
  of every file is what the disk holds at its place.
\<close>

definition tree_rows :: "fornix_file set \<Rightarrow> bool" where
  "tree_rows L \<longleftrightarrow> (\<forall>f \<in> L. canonical_file f) \<and> inj_on spot L \<and>
     (\<forall>f \<in> L. comps (ff_parent_path f) \<noteq> [] \<longrightarrow>
        (\<exists>g \<in> L. is_directory g \<and> spot g = (ff_workspace_id f, comps (ff_parent_path f))))"

definition mirror_of :: "string \<Rightarrow> fornix_file set \<Rightarrow> (string list \<times> string) set" where
  "mirror_of root L = (\<lambda>f. (place_on root (spot f), text_of f)) ` {f \<in> L. \<not> is_directory f}"

definition tree_ok :: "string \<Rightarrow> fornix_file set \<Rightarrow> disk \<Rightarrow> bool" where
  "tree_ok root L d \<longleftrightarrow> tree_rows L \<and> disk.holds d (mirror_of root L)"

lemma holds_same: "disk.holds d fs \<Longrightarrow> (\<And>q. content_at d' q = content_at d q) \<Longrightarrow> disk.holds d' fs"
  by (auto simp: disk.holds_def)

lemma tree_same: "tree_ok root L d \<Longrightarrow> (\<And>q. content_at d' q = content_at d q) \<Longrightarrow> tree_ok root L d'"
  by (auto simp: tree_ok_def intro: holds_same)

lemma tree_rows_insert:
  assumes "tree_rows L" "canonical_file f" "spot f \<notin> spot ` L"
    "comps (ff_parent_path f) \<noteq> [] \<Longrightarrow> \<exists>g \<in> L. is_directory g \<and> spot g = (ff_workspace_id f, comps (ff_parent_path f))"
  shows "tree_rows (insert f L)"
  using assms unfolding tree_rows_def by (auto simp: inj_on_insert)

lemma tree_put:
  assumes "tree_ok root L d" "tree_rows (insert f L)" "spot f \<notin> spot ` L" "\<not> is_directory f"
    and put: "put_text target (text_of f) d = (d', False)" "resolve target = place_on root (spot f)"
  shows "tree_ok root (insert f L) d'"
proof -
  have "mirror_of root (insert f L) = insert (resolve target, text_of f) (mirror_of root L)"
    using assms(4) put(2) by (auto simp: mirror_of_def)
  moreover have "resolve target \<notin> fst ` mirror_of root L"
    using assms(3) put(2) by (auto simp: mirror_of_def)
  ultimately show ?thesis using assms(1,2) disk.holds_put [OF put(1)] by (simp add: tree_ok_def)
qed

lemma tree_add_directory:
  assumes "tree_ok root L d" "tree_rows (insert f L)" "is_directory f" "\<And>q. content_at d' q = content_at d q"
  shows "tree_ok root (insert f L) d'"
proof -
  have "mirror_of root (insert f L) = mirror_of root L" using assms(3) by (auto simp: mirror_of_def)
  with assms holds_same [of d _ d'] show ?thesis by (auto simp: tree_ok_def)
qed

text \<open>The parent of a live row is a directory that is live; what is below an empty directory is not live.\<close>

lemma tree_ancestor:
  assumes "tree_rows L" "g \<in> L" "prefix p (row_path g)" "p \<noteq> []" "p \<noteq> row_path g"
  shows "\<exists>h \<in> L. ff_workspace_id h = ff_workspace_id g \<and> comps (ff_parent_path h) = p"
  using assms(2,3,5)
proof (induction "length (row_path g)" arbitrary: g rule: less_induct)
  case less
  have p: "prefix p (comps (ff_parent_path g))" using less.prems(2,3) by (auto simp: row_path_def)
  show ?case
  proof (cases "comps (ff_parent_path g) = p")
    case False
    then obtain h where h: "h \<in> L" "spot h = (ff_workspace_id g, comps (ff_parent_path g))"
      using assms(1,4) p less.prems(1) unfolding tree_rows_def by (metis prefix_Nil)
    have "\<exists>k \<in> L. ff_workspace_id k = ff_workspace_id h \<and> comps (ff_parent_path k) = p"
      by (rule less.hyps) (use h p False in \<open>auto simp: spot_def row_path_def\<close>)
    then show ?thesis using h by (auto simp: spot_def)
  qed (use less.prems in blast)
qed

lemma tree_rows_remove:
  assumes "tree_rows L" "f \<in> L"
    and "\<And>g. g \<in> L \<Longrightarrow> is_directory f \<Longrightarrow> ff_workspace_id g = ff_workspace_id f \<Longrightarrow> comps (ff_parent_path g) \<noteq> row_path f"
  shows "tree_rows (L - {f})"
  unfolding tree_rows_def
proof (intro conjI ballI impI)
  fix g assume g: "g \<in> L - {f}" "comps (ff_parent_path g) \<noteq> []"
  then obtain h where h: "h \<in> L" "is_directory h" "spot h = (ff_workspace_id g, comps (ff_parent_path g))"
    using assms(1) unfolding tree_rows_def by blast
  then have "h \<noteq> f" using assms(3) [of g] g(1) by (auto simp: spot_def)
  with h show "\<exists>h \<in> L - {f}. is_directory h \<and> spot h = (ff_workspace_id g, comps (ff_parent_path g))" by blast
qed (use assms(1) in \<open>auto simp: tree_rows_def inj_on_diff\<close>)

lemma tree_drop:
  assumes ok: "tree_ok root L d" and f: "f \<in> L" "\<not> is_directory f"
    and drop: "drop_path target d = (d', False)" "resolve target = place_on root (spot f)" "\<not> ends_sep target"
  shows "tree_ok root (L - {f}) d'"
proof -
  have rows: "tree_rows L" and m: "(resolve target, text_of f) \<in> mirror_of root L"
    using ok f drop(2) by (auto simp: tree_ok_def mirror_of_def)
  have "disk.holds d' {x \<in> mirror_of root L. fst x \<noteq> resolve target}"
    using ok disk.holds_remove [OF drop(1,3) _ m] by (simp add: tree_ok_def)
  moreover have "{x \<in> mirror_of root L. fst x \<noteq> resolve target} = mirror_of root (L - {f})"
    using rows f drop(2) unfolding tree_rows_def mirror_of_def by (auto dest: inj_onD)
  ultimately show ?thesis using tree_rows_remove [OF rows f(1)] f(2) by (simp add: tree_ok_def)
qed

lemma tree_drop_directory:
  assumes ok: "tree_ok root L d" and f: "f \<in> L" "is_directory f"
    and empty: "\<And>g. g \<in> L \<Longrightarrow> ff_workspace_id g = ff_workspace_id f \<Longrightarrow> comps (ff_parent_path g) \<noteq> row_path f"
    and drop: "drop_path target d = (d', False)" "resolve target = place_on root (spot f)"
  shows "tree_ok root (L - {f}) d'"
proof -
  have rows: "tree_rows L" using ok by (simp add: tree_ok_def)
  have same: "content_at d' q = content_at d q" if "\<not> prefix (resolve target) q" for q
  proof -
    have "d' q = d q"
      using drop(1) that by (auto simp: drop_path_def remove_tree_def split: option.splits node.splits)
    then show ?thesis by (simp add: content_at_def look_def)
  qed
  have "content_at d' k = Some c" if kc: "(k, c) \<in> mirror_of root (L - {f})" for k c
  proof -
    obtain g where g: "g \<in> L" "g \<noteq> f" "\<not> is_directory g" "k = place_on root (spot g)" "c = text_of g"
      using kc by (auto simp: mirror_of_def)
    have "\<not> prefix (place_on root (spot f)) k"
    proof
      assume "prefix (place_on root (spot f)) k"
      then have pre: "ff_workspace_id f = ff_workspace_id g" "prefix (row_path f) (row_path g)"
        using g(4) by (simp_all add: spot_def place_on_prefix)
      have "row_path f \<noteq> row_path g" 
        using rows f(1) g(1,2) pre(1) inj_onD [of spot L f g] by (auto simp: tree_rows_def spot_def)
      then obtain h where "h \<in> L" "ff_workspace_id h = ff_workspace_id g" "comps (ff_parent_path h) = row_path f"
        using tree_ancestor [OF rows g(1) pre(2)] by (auto simp: row_path_def)
      with empty pre(1) show False by metis
    qed
    then have "content_at d' k = content_at d k" using same drop(2) by simp
    also have "\<dots> = Some c" using ok g by (auto simp: tree_ok_def disk.holds_def mirror_of_def)
    finally show ?thesis .
  qed
  then have "disk.holds d' (mirror_of root (L - {f}))" by (auto simp: disk.holds_def)
  with tree_rows_remove [OF rows f(1)] empty show ?thesis by (simp add: tree_ok_def)
qed

end
