(* ===== verification/Hub_Internal.thy ===== *)
theory Hub_Internal
  imports Central_Hub Pod_Control
begin

text \<open>
  What a pod asks of the hub and of the topology (\<^verbatim>\<open>app/api/v1/internal.py\<close>, \<^verbatim>\<open>app/schemas/internal.py\<close>,
  \<^verbatim>\<open>app/core/glow.py\<close>): files of the shared mount, its neighbours with their glow, and reports. Every
  request carries the token that all pods share.
\<close>

section \<open>Paths\<close>

definition split_hub_path :: "string \<Rightarrow> (string option \<times> string) option" where
  "split_hub_path path =
     (let clean = strip_sep path
      in if clean = [] then None
         else Some (if dirname clean = [] then None else Some (''/'' @ dirname clean), basename clean))"

record hub_ref =
  hr_scope :: string
  hr_path :: string
  hr_label :: "string option"

definition bad_request :: "string \<Rightarrow> string \<Rightarrow> eyot_error" where
  "bad_request code key = EyotError code key 400"

section \<open>Reads\<close>

definition read_ref :: "string \<Rightarrow> ident \<Rightarrow> hub_ref \<Rightarrow> 'z brain_scheme \<Rightarrow> (string \<times> string) result" where
  "read_ref root ws ref s =
     (if hr_scope ref \<noteq> ''hub'' then Inl (bad_request ''internal.hub.invalid_scope'' ''errors.internal.hub.invalid_scope'')
      else case (if has_traversal (hr_path ref) then None else split_hub_path (hr_path ref)) of
             None \<Rightarrow> Inl (bad_request ''internal.hub.path_invalid'' ''errors.internal.hub.path_invalid'')
           | Some (parent, name) \<Rightarrow>
              (case mirror_abs_path root ws parent name of
                 None \<Rightarrow> Inl unhandled_error
               | Some target \<Rightarrow>
                  (case read_text target (disk s) of
                     None \<Rightarrow> Inl (NotFoundError ''internal.hub.file_not_found'' ''errors.internal.hub.file_not_found'')
                   | Some c \<Rightarrow> Inr (hr_path ref, c))))"

fun read_refs :: "string \<Rightarrow> ident \<Rightarrow> hub_ref list \<Rightarrow> 'z brain_scheme \<Rightarrow> (string \<times> string) list result" where
  "read_refs root ws [] s = Inr []"
| "read_refs root ws (r # rs) s =
     (case read_ref root ws r s of
        Inl e \<Rightarrow> Inl e
      | Inr f \<Rightarrow> map_sum id ((#) f) (read_refs root ws rs s))"

definition internal_hub_read ::
    "string \<Rightarrow> string option \<Rightarrow> string \<Rightarrow> ident \<Rightarrow> hub_ref list \<Rightarrow> 'z brain_scheme \<Rightarrow> (string \<times> string) list result" where
  "internal_hub_read tok header root ws refs s =
     (case verify_internal_token tok header of
        Inl e \<Rightarrow> Inl e
      | Inr _ \<Rightarrow>
         if refs = [] \<or> list_ex (\<lambda>r. hr_scope r \<notin> {''hub'', ''instance''}) refs then Inl request_validation_error
         else read_refs root ws refs s)"

section \<open>Writes\<close>

record hub_write =
  hw_workspace_id :: ident
  hw_instance_id :: ident
  hw_scope :: string
  hw_path :: string
  hw_text :: string

definition instance_event_of :: "string \<Rightarrow> string \<Rightarrow> ident \<Rightarrow> ident \<Rightarrow> json_obj \<Rightarrow> event_args" where
  "instance_event_of ty rt iid rid payload = \<lparr>ea_type = ty, ea_actor_type = ''instance'', ea_actor_id = Some iid,
     ea_resource_type = Some rt, ea_resource_id = Some rid, ea_payload = payload, ea_request_id = None\<rparr>"

definition shared_file :: "ident \<Rightarrow> timestamp \<Rightarrow> ident \<Rightarrow> hub_write \<Rightarrow> string option \<Rightarrow> string \<Rightarrow> string \<Rightarrow> fornix_file" where
  "shared_file i now hub b parent name key = \<lparr>row_id = i, created_at = now, updated_at = now, deleted_at = None,
     ff_workspace_id = hw_workspace_id b, ff_central_hub_id = hub, ff_name = name, ff_parent_path = parent,
     storage_key = key, ff_content_type = None, file_size = Some (int (length (hw_text b))), ff_content = Some (hw_text b),
     is_directory = False, uploader_user_id = None, uploader_instance_id = Some (hw_instance_id b)\<rparr>"

definition shared_parent :: "ident \<Rightarrow> string option \<Rightarrow> 'z brain_scheme \<Rightarrow> unit result" where
  "shared_parent ws parent s =
     (case parent of
        None \<Rightarrow> Inr ()
      | Some p \<Rightarrow>
         (case split_hub_path p of
            None \<Rightarrow> Inl unhandled_error
          | Some (dir, name) \<Rightarrow>
             (case scalar_one_or_none (filter (\<lambda>f. at_path ws dir name f \<and> is_directory f) (fornix_files s)) of
                Inl e \<Rightarrow> Inl e
              | Inr None \<Rightarrow> Inl parent_directory_not_found
              | Inr (Some _) \<Rightarrow> Inr ())))"

text \<open>The row before the mirror, as the database takes it.\<close>

definition insert_shared ::
    "timestamp \<Rightarrow> hub_write \<Rightarrow> string option \<Rightarrow> string \<Rightarrow> 'z brain_scheme \<Rightarrow> ('z brain_scheme \<times> fornix_file) result" where
  "insert_shared now b parent name s =
     (case shared_parent (hw_workspace_id b) parent s of
        Inl e \<Rightarrow> Inl e
      | Inr _ \<Rightarrow>
         (case scalar_one_or_none (filter (at_path (hw_workspace_id b) parent name) (fornix_files s)) of
            Inl e \<Rightarrow> Inl e
          | Inr (Some _) \<Rightarrow> Inl duplicate_path
          | Inr None \<Rightarrow>
             (case get_or_create_central_hub now (hw_workspace_id b) s of
                Inl e \<Rightarrow> Inl e
              | Inr (s1, h) \<Rightarrow>
                 (let f = shared_file (new_id (take_id s1)) now (row_id h) b parent name (new_id s1);
                      s2 = (take_id (take_id s1))\<lparr>fornix_files := fornix_files s1 @ [f]\<rparr>
                  in if files_integrity s2 f then Inr (s2, f) else Inl unhandled_error))))"

definition hub_write_shared ::
    "mount \<Rightarrow> 'z brain_scheme handlers \<Rightarrow> timestamp \<Rightarrow> hub_write \<Rightarrow> 'z brain_scheme \<Rightarrow> 'z brain_scheme \<times> fornix_file result" where
  "hub_write_shared mt hs now b s =
     (case split_hub_path (hw_path b) of
        None \<Rightarrow> (s, Inl (bad_request ''internal.hub.path_invalid'' ''errors.internal.hub.path_invalid''))
      | Some (parent, name) \<Rightarrow>
         (case insert_shared now b parent name s of
            Inl e \<Rightarrow> (s, Inl e)
          | Inr (s1, f) \<Rightarrow>
             (case sync_write (mt_root mt) (mt_fails mt) (hw_workspace_id b) parent name (Some (hw_text b)) False (disk s1) of
                (d, True) \<Rightarrow> raise_sync_failed mt hs now (hw_workspace_id b) (row_id f) (id_next s1) d s
              | (d, False) \<Rightarrow>
                 (fst (emit hs now (instance_event_of FORNIX_FILE_CREATED ''fornix_file'' (hw_instance_id b) (row_id f)
                    [(''workspace_id'', JStr (hw_workspace_id b)), (''name'', JStr name), (''parent_path'', opt_json parent),
                     (''is_directory'', JBool False), (''scope'', JStr ''shared'')]) (s1\<lparr>disk := d\<rparr>)), Inr f))))"

text \<open>Files below \<^verbatim>\<open>work/\<close> are the pod's own: only the log hears of them.\<close>

definition hub_write_work ::
    "'z brain_scheme handlers \<Rightarrow> timestamp \<Rightarrow> hub_write \<Rightarrow> 'z brain_scheme \<Rightarrow> 'z brain_scheme result" where
  "hub_write_work hs now b s =
     (if \<not> starts_with ''work/'' (hw_path b) \<or> length (hw_path b) \<le> length ''work/''
      then Inl (bad_request ''internal.hub.work_path_invalid'' ''errors.internal.hub.work_path_invalid'')
      else Inr (fst (emit hs now (instance_event_of FORNIX_FILE_WRITTEN ''instance'' (hw_instance_id b) (hw_instance_id b)
             [(''workspace_id'', JStr (hw_workspace_id b)), (''scope'', JStr ''work''), (''path'', JStr (hw_path b)),
              (''content_length'', JInt (int (length (hw_text b))))]) s)))"

definition internal_hub_write ::
    "mount \<Rightarrow> string \<Rightarrow> string option \<Rightarrow> 'z brain_scheme handlers \<Rightarrow> timestamp \<Rightarrow> hub_write \<Rightarrow> 'z brain_scheme
     \<Rightarrow> 'z brain_scheme \<times> fornix_file option result" where
  "internal_hub_write mt tok header hs now b s =
     (case verify_internal_token tok header of
        Inl e \<Rightarrow> (s, Inl e)
      | Inr _ \<Rightarrow>
         if hw_scope b \<notin> {''work'', ''shared''} then (s, Inl request_validation_error)
         else if has_traversal (hw_path b)
         then (s, Inl (bad_request ''internal.hub.path_traversal'' ''errors.internal.hub.path_traversal''))
         else (case get_live (instances s) (hw_instance_id b) of
                 None \<Rightarrow> (s, Inl (NotFoundError ''internal.hub.instance_not_found'' ''errors.internal.hub.instance_not_found''))
               | Some _ \<Rightarrow>
                  if hw_scope b = ''work''
                  then (case hub_write_work hs now b s of Inl e \<Rightarrow> (s, Inl e) | Inr s1 \<Rightarrow> (s1, Inr None))
                  else (case hub_write_shared mt hs now b s of (s1, r) \<Rightarrow> (s1, map_sum id Some r))))"

section \<open>Topology\<close>

definition loop_text :: "loop_status_t \<Rightarrow> string" where
  "loop_text st = (case st of L_idle \<Rightarrow> ''idle'' | L_running \<Rightarrow> ''running'' | L_paused \<Rightarrow> ''paused''
     | L_interrupted \<Rightarrow> ''interrupted'' | L_completed \<Rightarrow> ''completed'' | L_failed \<Rightarrow> ''failed'')"

type_synonym glow = "string \<times> string"

definition loop_status_to_glow :: "string \<Rightarrow> glow" where
  "loop_status_to_glow st =
     (if st = ''running'' then (''#10b981'', ''strong'') else if st = ''idle'' then (''#eab308'', ''medium'')
      else if st = ''paused'' then (''#94a3b8'', ''weak'') else if st = ''interrupted'' then (''#ef4444'', ''medium'')
      else if st = ''completed'' then (''#3b82f6'', ''low'') else if st = ''failed'' then (''#dc2626'', ''strong'')
      else (''#94a3b8'', ''weak''))"

definition avatar_display_status_to_glow :: "string \<Rightarrow> glow" where
  "avatar_display_status_to_glow st =
     (if st = ''busy'' then (''#10b981'', ''strong'') else if st = ''idle'' then (''#eab308'', ''medium'')
      else if st = ''stopped'' then (''#94a3b8'', ''weak'') else if st = ''starting'' then (''#3b82f6'', ''medium'')
      else if st = ''restarting'' then (''#f59e0b'', ''medium'') else if st = ''deleting'' then (''#94a3b8'', ''weak'')
      else if st = ''start_failed'' then (''#dc2626'', ''strong'') else (''#94a3b8'', ''weak''))"

definition user_membership_glow :: glow where
  "user_membership_glow = (''#4f46e5'', ''medium'')"

text \<open>A dictionary made of the rows: the last one of an Instance counts.\<close>

definition loop_status_of :: "ident \<Rightarrow> 'z db_scheme \<Rightarrow> string" where
  "loop_status_of iid s =
     (case first_where (\<lambda>l. ls_instance_id l = iid \<and> live l) (rev (loop_states s)) of
        None \<Rightarrow> ''idle'' | Some l \<Rightarrow> loop_text (loop_status l))"

record snapshot =
  sn_membership_id :: ident
  sn_entity_slug :: "string option"
  sn_loop_status :: "string option"
  sn_glow :: glow

definition entity_slug_of :: "instance_row option \<Rightarrow> 'z db_scheme \<Rightarrow> string option" where
  "entity_slug_of i s = map_option ent_slug (Option.bind i (\<lambda>r. get_live (entities s) (ins_entity_id r)))"

definition neighbor_snapshot :: "membership \<Rightarrow> 'z db_scheme \<Rightarrow> snapshot" where
  "neighbor_snapshot m s =
     (if mem_user_id m \<noteq> None
      then \<lparr>sn_membership_id = row_id m, sn_entity_slug = None, sn_loop_status = None, sn_glow = user_membership_glow\<rparr>
      else let iid = str_or (mem_instance_id m) []; st = (if iid = [] then ''idle'' else loop_status_of iid s)
           in \<lparr>sn_membership_id = row_id m, sn_entity_slug = entity_slug_of (get_live (instances s) iid) s,
               sn_loop_status = Some st, sn_glow = loop_status_to_glow st\<rparr>)"

definition neighbor_snapshots :: "ident list \<Rightarrow> 'z db_scheme \<Rightarrow> snapshot list" where
  "neighbor_snapshots ids s = map (\<lambda>m. neighbor_snapshot m s) (List.map_filter (get_live (memberships s)) ids)"

definition internal_topology ::
    "string \<Rightarrow> string option \<Rightarrow> ident \<Rightarrow> 'z db_scheme \<Rightarrow> (snapshot \<times> snapshot list) result" where
  "internal_topology tok header iid s =
     (case verify_internal_token tok header of
        Inl e \<Rightarrow> Inl e
      | Inr _ \<Rightarrow>
         (case get_live (instances s) iid of
            None \<Rightarrow> Inl (NotFoundError ''internal.topology.instance_not_found'' ''errors.internal.topology.instance_not_found'')
          | Some i \<Rightarrow>
             (case scalar_one_or_none (filter (\<lambda>m. mem_workspace_id m = ins_workspace_id i \<and>
                      mem_instance_id m = Some (row_id i) \<and> live m) (memberships s)) of
                Inl e \<Rightarrow> Inl e
              | Inr None \<Rightarrow> Inl (NotFoundError ''internal.topology.membership_not_found''
                  ''errors.internal.topology.membership_not_found'')
              | Inr (Some m) \<Rightarrow>
                 (let st = loop_status_of iid s
                  in Inr (\<lparr>sn_membership_id = row_id m, sn_entity_slug = entity_slug_of (Some i) s, sn_loop_status = Some st,
                           sn_glow = loop_status_to_glow st\<rparr>,
                          neighbor_snapshots (neighbor_membership_ids (passages s) (ins_workspace_id i) (row_id m)) s)))))"

section \<open>Reports\<close>

record report_request =
  rr_workspace_id :: ident
  rr_instance_id :: ident
  rr_tldr :: "string option"
  rr_outcome :: string
  rr_changes :: "string list"
  rr_validation :: "string list"
  rr_blockers :: "string list"
  rr_content_refs :: "hub_ref list"

definition ref_json :: "hub_ref \<Rightarrow> json" where
  "ref_json r = JObj [(''scope'', JStr (hr_scope r)), (''path'', JStr (hr_path r)), (''label'', opt_json (hr_label r))]"

definition report_request_ok :: "report_request \<Rightarrow> unit result" where
  "report_request_ok b =
     (if rr_outcome b \<notin> {''ok'', ''blocked'', ''failed''} \<or> list_ex (\<lambda>r. hr_scope r \<notin> {''hub'', ''instance''}) (rr_content_refs b)
      then Inl request_validation_error
      else validate_tldr (rr_tldr b) (sum_list (map length (rr_changes b @ rr_validation b @ rr_blockers b))))"

definition internal_report ::
    "string \<Rightarrow> string option \<Rightarrow> 'z db_scheme handlers \<Rightarrow> timestamp \<Rightarrow> report_request \<Rightarrow> 'z db_scheme \<Rightarrow> 'z db_scheme result" where
  "internal_report tok header hs now b s =
     (case verify_internal_token tok header of
        Inl e \<Rightarrow> Inl e
      | Inr _ \<Rightarrow>
         (case report_request_ok b of
            Inl e \<Rightarrow> Inl e
          | Inr _ \<Rightarrow> Inr (fst (emit hs now (instance_event_of HARNESS_REPORT_RECEIVED ''instance'' (rr_instance_id b) (rr_instance_id b)
              [(''workspace_id'', JStr (rr_workspace_id b)), (''tldr'', opt_json (rr_tldr b)), (''outcome'', JStr (rr_outcome b)),
               (''changes'', JList (map JStr (rr_changes b))), (''validation'', JList (map JStr (rr_validation b))),
               (''blockers'', JList (map JStr (rr_blockers b))), (''content_refs'', JList (map ref_json (rr_content_refs b)))]) s))))"

end
