(* ===== verification/Brain_Regions.thy ===== *)
theory Brain_Regions
  imports Central_Hub
begin

text \<open>
  The other regions of the hub (\<^verbatim>\<open>app/api/v1/central_hubs.py\<close>, \<^verbatim>\<open>app/schemas/brain_regions.py\<close>): kanban
  cards, schedules with their runner (\<^verbatim>\<open>app/core/brainstem_runner.py\<close>), and the cerebellum of a Workspace
  (\<^verbatim>\<open>app/core/cerebellum_migration.py\<close>). The library that reads cron expressions is the argument
  \<open>cron\<close>: the first time after another, or \<open>None\<close> for an expression it rejects.
\<close>

section \<open>Kanban\<close>

text \<open>What every request on cards and schedules begins with: the permission, then the hub.\<close>

definition hub_for ::
    "timestamp \<Rightarrow> ident \<Rightarrow> string \<Rightarrow> ident \<Rightarrow> ident option \<Rightarrow> 'z db_scheme \<Rightarrow> ('z db_scheme \<times> central_hub) result" where
  "hub_for now ws atom uid x_org s =
     (case require_workspace_permission uid ws atom x_org s of
        Inl e \<Rightarrow> Inl e | Inr _ \<Rightarrow> get_or_create_central_hub now ws s)"

definition kanbans_integrity :: "'z brain_scheme \<Rightarrow> kanban \<Rightarrow> bool" where
  "kanbans_integrity s k \<longleftrightarrow> fk_exists (central_hubs s) (kb_central_hub_id k) \<and> opt_ref (entities s) (assignee_entity_id k) \<and>
     uq_frontal_lobe_kanbans_hub_position (kanbans s)"

definition list_frontal_kanbans ::
    "timestamp \<Rightarrow> ident \<Rightarrow> ident \<Rightarrow> ident option \<Rightarrow> int \<Rightarrow> int \<Rightarrow> 'z brain_scheme \<Rightarrow> kanban offset_page result" where
  "list_frontal_kanbans now ws uid x_org limit offset s =
     (case page_bounds limit offset of
        Inl e \<Rightarrow> Inl e
      | Inr _ \<Rightarrow>
         (case hub_for now ws ''can_view_workspace'' uid x_org s of
            Inl e \<Rightarrow> Inl e
          | Inr (s1, h) \<Rightarrow> Inr (paginate_offset (sort_key kb_position
              (filter (\<lambda>k. kb_central_hub_id k = row_id h \<and> live k) (kanbans s1))) (nat offset) (nat limit))))"

record kanban_create =
  kc_title :: string
  kc_description :: "string option"
  kc_status :: string
  kc_assignee_entity_id :: "ident option"
  kc_position :: int
  kc_due_at :: "timestamp option"

definition new_kanban :: "ident \<Rightarrow> timestamp \<Rightarrow> ident \<Rightarrow> kanban_create \<Rightarrow> kanban" where
  "new_kanban i now hub b = \<lparr>row_id = i, created_at = now, updated_at = now, deleted_at = None,
     kb_central_hub_id = hub, kb_title = kc_title b, kb_description = kc_description b, kb_status = kc_status b,
     assignee_entity_id = kc_assignee_entity_id b, kb_position = kc_position b, due_at = kc_due_at b\<rparr>"

definition create_frontal_kanban ::
    "timestamp \<Rightarrow> ident \<Rightarrow> kanban_create \<Rightarrow> ident \<Rightarrow> ident option \<Rightarrow> 'z brain_scheme \<Rightarrow> ('z brain_scheme \<times> kanban) result" where
  "create_frontal_kanban now ws b uid x_org s =
     (case hub_for now ws ''can_edit_workspace'' uid x_org s of
        Inl e \<Rightarrow> Inl e
      | Inr (s1, h) \<Rightarrow>
         (let k = new_kanban (new_id s1) now (row_id h) b;
              s2 = (take_id s1)\<lparr>kanbans := kanbans s1 @ [k]\<rparr>
          in if kanbans_integrity s2 k then Inr (s2, k) else Inl unhandled_error))"

record kanban_update =
  ku_title :: "string patch"
  ku_description :: "string patch"
  ku_status :: "string patch"
  ku_assignee_entity_id :: "ident patch"
  ku_position :: "int patch"
  ku_due_at :: "timestamp patch"

text \<open>A field of a patch on a nullable column, and on one that is not: there a null is refused by the database.\<close>

definition patched :: "'a patch \<Rightarrow> 'a option \<Rightarrow> 'a option" where
  "patched p old = (case p of None \<Rightarrow> old | Some v \<Rightarrow> v)"

definition patched_value :: "'a patch \<Rightarrow> 'a \<Rightarrow> 'a" where
  "patched_value p old = (case p of Some (Some v) \<Rightarrow> v | _ \<Rightarrow> old)"

definition not_null :: "'a patch \<Rightarrow> bool" where
  "not_null p = (p \<noteq> Some None)"

definition kanban_not_found :: eyot_error where
  "kanban_not_found = NotFoundError ''central_hub.frontal_kanban_not_found'' ''errors.central_hub.frontal_kanban_not_found''"

definition find_kanban :: "ident \<Rightarrow> ident \<Rightarrow> 'z brain_scheme \<Rightarrow> kanban result" where
  "find_kanban hub kid s =
     (case scalar_one_or_none (filter (\<lambda>k. row_id k = kid \<and> kb_central_hub_id k = hub \<and> live k) (kanbans s)) of
        Inl e \<Rightarrow> Inl e | Inr None \<Rightarrow> Inl kanban_not_found | Inr (Some k) \<Rightarrow> Inr k)"

definition set_kanban :: "kanban \<Rightarrow> 'z brain_scheme \<Rightarrow> 'z brain_scheme" where
  "set_kanban k s = s\<lparr>kanbans := update_where (\<lambda>r. row_id r = row_id k) (\<lambda>_. k) (kanbans s)\<rparr>"

definition update_frontal_kanban ::
    "timestamp \<Rightarrow> ident \<Rightarrow> ident \<Rightarrow> kanban_update \<Rightarrow> ident \<Rightarrow> ident option \<Rightarrow> 'z brain_scheme \<Rightarrow> ('z brain_scheme \<times> kanban) result" where
  "update_frontal_kanban now ws kid b uid x_org s =
     (case hub_for now ws ''can_edit_workspace'' uid x_org s of
        Inl e \<Rightarrow> Inl e
      | Inr (s1, h) \<Rightarrow>
         (case find_kanban (row_id h) kid s1 of
            Inl e \<Rightarrow> Inl e
          | Inr k \<Rightarrow>
             (let k1 = modified now k (k\<lparr>kb_title := patched_value (ku_title b) (kb_title k),
                         kb_description := patched (ku_description b) (kb_description k),
                         kb_status := patched_value (ku_status b) (kb_status k),
                         assignee_entity_id := patched (ku_assignee_entity_id b) (assignee_entity_id k),
                         kb_position := patched_value (ku_position b) (kb_position k),
                         due_at := patched (ku_due_at b) (due_at k)\<rparr>);
                  s2 = set_kanban k1 s1
              in if not_null (ku_title b) \<and> not_null (ku_status b) \<and> not_null (ku_position b) \<and> kanbans_integrity s2 k1
                 then Inr (s2, k1) else Inl unhandled_error)))"

definition delete_frontal_kanban ::
    "timestamp \<Rightarrow> ident \<Rightarrow> ident \<Rightarrow> ident \<Rightarrow> ident option \<Rightarrow> 'z brain_scheme \<Rightarrow> 'z brain_scheme result" where
  "delete_frontal_kanban now ws kid uid x_org s =
     (case hub_for now ws ''can_edit_workspace'' uid x_org s of
        Inl e \<Rightarrow> Inl e
      | Inr (s1, h) \<Rightarrow> map_sum id (\<lambda>k. set_kanban (soft_delete now k) s1) (find_kanban (row_id h) kid s1))"

section \<open>Schedules\<close>

type_synonym cron_reader = "string \<Rightarrow> timestamp \<Rightarrow> timestamp option"

definition compute_next_run_at :: "cron_reader \<Rightarrow> string \<Rightarrow> timestamp \<Rightarrow> timestamp option" where
  "compute_next_run_at cron expr base = cron expr base"

definition list_brainstem_schedules ::
    "timestamp \<Rightarrow> ident \<Rightarrow> ident \<Rightarrow> ident option \<Rightarrow> int \<Rightarrow> int \<Rightarrow> 'z brain_scheme \<Rightarrow> schedule offset_page result" where
  "list_brainstem_schedules now ws uid x_org limit offset s =
     (case page_bounds limit offset of
        Inl e \<Rightarrow> Inl e
      | Inr _ \<Rightarrow>
         (case hub_for now ws ''can_view_workspace'' uid x_org s of
            Inl e \<Rightarrow> Inl e
          | Inr (s1, h) \<Rightarrow> Inr (paginate_offset (sort_key sc_name
              (filter (\<lambda>k. sc_central_hub_id k = row_id h \<and> live k) (schedules s1))) (nat offset) (nat limit))))"

record schedule_create =
  scc_name :: string
  scc_cron_expr :: string
  scc_action_payload :: "json_obj option"
  scc_enabled :: bool

definition new_schedule :: "cron_reader \<Rightarrow> ident \<Rightarrow> timestamp \<Rightarrow> ident \<Rightarrow> schedule_create \<Rightarrow> schedule" where
  "new_schedule cron i now hub b = \<lparr>row_id = i, created_at = now, updated_at = now, deleted_at = None,
     sc_central_hub_id = hub, sc_name = scc_name b, cron_expr = scc_cron_expr b, action_payload = scc_action_payload b,
     sc_enabled = scc_enabled b, last_run_at = None, next_run_at = compute_next_run_at cron (scc_cron_expr b) now\<rparr>"

text \<open>The identifier is drawn at the flush of the event, whose resource is therefore null.\<close>

definition create_brainstem_schedule ::
    "cron_reader \<Rightarrow> 'z brain_scheme handlers \<Rightarrow> timestamp \<Rightarrow> ident \<Rightarrow> schedule_create \<Rightarrow> ident \<Rightarrow> ident option \<Rightarrow> 'z brain_scheme
     \<Rightarrow> ('z brain_scheme \<times> schedule) result" where
  "create_brainstem_schedule cron hs now ws b uid x_org s =
     (case hub_for now ws ''can_edit_workspace'' uid x_org s of
        Inl e \<Rightarrow> Inl e
      | Inr (s1, h) \<Rightarrow>
         (let sc = new_schedule cron (new_id s1) now (row_id h) b;
              s2 = (take_id s1)\<lparr>schedules := schedules s1 @ [sc]\<rparr>
          in Inr (fst (emit hs now (user_event SCHEDULE_CREATED ''brainstem_schedule'' uid None
                    [(''cron_expr'', JStr (cron_expr sc))]) s2), sc)))"

definition schedule_not_found :: eyot_error where
  "schedule_not_found =
     NotFoundError ''central_hub.brainstem_schedule_not_found'' ''errors.central_hub.brainstem_schedule_not_found''"

definition find_schedule :: "ident \<Rightarrow> ident \<Rightarrow> 'z brain_scheme \<Rightarrow> schedule result" where
  "find_schedule hub i s =
     (case scalar_one_or_none (filter (\<lambda>k. row_id k = i \<and> sc_central_hub_id k = hub \<and> live k) (schedules s)) of
        Inl e \<Rightarrow> Inl e | Inr None \<Rightarrow> Inl schedule_not_found | Inr (Some k) \<Rightarrow> Inr k)"

definition set_schedule :: "schedule \<Rightarrow> 'z brain_scheme \<Rightarrow> 'z brain_scheme" where
  "set_schedule k s = s\<lparr>schedules := update_where (\<lambda>r. row_id r = row_id k) (\<lambda>_. k) (schedules s)\<rparr>"

record schedule_update =
  su_name :: "string patch"
  su_cron_expr :: "string patch"
  su_action_payload :: "json_obj patch"
  su_enabled :: "bool patch"

definition update_brainstem_schedule ::
    "cron_reader \<Rightarrow> timestamp \<Rightarrow> ident \<Rightarrow> ident \<Rightarrow> schedule_update \<Rightarrow> ident \<Rightarrow> ident option \<Rightarrow> 'z brain_scheme
     \<Rightarrow> ('z brain_scheme \<times> schedule) result" where
  "update_brainstem_schedule cron now ws i b uid x_org s =
     (case hub_for now ws ''can_edit_workspace'' uid x_org s of
        Inl e \<Rightarrow> Inl e
      | Inr (s1, h) \<Rightarrow>
         (case find_schedule (row_id h) i s1 of
            Inl e \<Rightarrow> Inl e
          | Inr sc \<Rightarrow>
             if \<not> (not_null (su_name b) \<and> not_null (su_cron_expr b) \<and> not_null (su_enabled b)) then Inl unhandled_error
             else (let expr = patched_value (su_cron_expr b) (cron_expr sc);
                       sc1 = modified now sc (sc\<lparr>sc_name := patched_value (su_name b) (sc_name sc), cron_expr := expr,
                               action_payload := patched (su_action_payload b) (action_payload sc),
                               sc_enabled := patched_value (su_enabled b) (sc_enabled sc),
                               next_run_at := (if su_cron_expr b = None then next_run_at sc
                                               else compute_next_run_at cron expr now)\<rparr>)
                   in Inr (set_schedule sc1 s1, sc1))))"

definition delete_brainstem_schedule ::
    "'z brain_scheme handlers \<Rightarrow> timestamp \<Rightarrow> ident \<Rightarrow> ident \<Rightarrow> ident \<Rightarrow> ident option \<Rightarrow> 'z brain_scheme \<Rightarrow> 'z brain_scheme result" where
  "delete_brainstem_schedule hs now ws i uid x_org s =
     (case hub_for now ws ''can_edit_workspace'' uid x_org s of
        Inl e \<Rightarrow> Inl e
      | Inr (s1, h) \<Rightarrow>
         (case find_schedule (row_id h) i s1 of
            Inl e \<Rightarrow> Inl e
          | Inr sc \<Rightarrow> Inr (fst (emit hs now (user_event SCHEDULE_CANCELLED ''brainstem_schedule'' uid (Some (row_id sc))
                       [(''enabled'', JBool False)]) (set_schedule (soft_delete now sc) s1)))))"

section \<open>The runner\<close>

text \<open>\<open>json.dumps(..., ensure_ascii=False)\<close>: only quotes, backslashes and control characters are escaped.\<close>

definition plain_string :: "string \<Rightarrow> string" where
  "plain_string s = CHR 0x22 # concat (map (\<lambda>c. if 127 \<le> (of_char c :: nat) then [c] else escape_char c) s) @ [CHR 0x22]"

fun json_plain :: "json \<Rightarrow> string" where
  "json_plain (JStr s) = plain_string s"
| "json_plain (JList js) = ''['' @ join '','' (map json_plain js) @ '']''"
| "json_plain (JObj ob) = ''{'' @ join '','' (map (\<lambda>(k, v). plain_string k @ '':'' @ json_plain v) ob) @ ''}''"
| "json_plain j = json_dumps False j"

definition payload_tldr :: "json_obj \<Rightarrow> string" where
  "payload_tldr payload = take 200 (json_plain (JObj payload))"

text \<open>A mode that cannot be hashed and a tldr that is no text raise.\<close>

definition payload_mode :: "json_obj \<Rightarrow> string result" where
  "payload_mode payload =
     (case jget payload ''delivery_mode'' of
        None \<Rightarrow> Inr ''wake''
      | Some (JStr m) \<Rightarrow> Inr (if m \<in> set DELIVERY_MODES then m else ''wake'')
      | Some (JList _) \<Rightarrow> Inl unhandled_error
      | Some (JObj _) \<Rightarrow> Inl unhandled_error
      | Some _ \<Rightarrow> Inr ''wake'')"

definition payload_summary :: "json_obj \<Rightarrow> string result" where
  "payload_summary payload =
     (if json_true (jget_null payload ''tldr'')
      then (case jget_null payload ''tldr'' of JStr t \<Rightarrow> Inr t | _ \<Rightarrow> Inl unhandled_error)
      else Inr (payload_tldr payload))"

definition fire_schedule ::
    "'z brain_scheme handlers \<Rightarrow> timestamp \<Rightarrow> schedule \<Rightarrow> 'z brain_scheme \<Rightarrow> 'z brain_scheme result" where
  "fire_schedule hs now sc s =
     (let payload = (case action_payload sc of None \<Rightarrow> [] | Some ob \<Rightarrow> ob)
      in if \<not> json_true (jget_null payload ''instance_id'') then Inr s
         else case payload_mode payload of
                Inl e \<Rightarrow> Inl e
              | Inr mode \<Rightarrow>
                 (case payload_summary payload of
                    Inl e \<Rightarrow> Inl e
                  | Inr tldr \<Rightarrow> map_sum id fst (enqueue_inject hs now (py_str (jget_null payload ''instance_id''))
                                  ''collab_inject'' mode payload (Some tldr) s)))"

definition due :: "timestamp \<Rightarrow> schedule \<Rightarrow> bool" where
  "due now sc \<longleftrightarrow> sc_enabled sc \<and> live sc \<and> (case next_run_at sc of None \<Rightarrow> False | Some t \<Rightarrow> t \<le> now)"

definition reprimed :: "cron_reader \<Rightarrow> timestamp \<Rightarrow> schedule \<Rightarrow> schedule" where
  "reprimed cron now sc = modified now sc
     (sc\<lparr>last_run_at := Some now, next_run_at := compute_next_run_at cron (cron_expr sc) now\<rparr>)"

fun fire_each :: "cron_reader \<Rightarrow> 'z brain_scheme handlers \<Rightarrow> timestamp \<Rightarrow> schedule list \<Rightarrow> 'z brain_scheme \<Rightarrow> 'z brain_scheme result" where
  "fire_each cron hs now [] s = Inr s"
| "fire_each cron hs now (sc # scs) s =
     (case fire_schedule hs now sc s of
        Inl e \<Rightarrow> Inl e
      | Inr s1 \<Rightarrow>
         (let sc1 = reprimed cron now sc
          in fire_each cron hs now scs (fst (emit hs now (system_event SCHEDULE_FIRED ''brainstem_schedule'' (row_id sc)
               [(''cron_expr'', JStr (cron_expr sc)),
                (''next_run_at'', case next_run_at sc1 of None \<Rightarrow> JNull | Some t \<Rightarrow> JStr (isoformat t))])
               (set_schedule sc1 s1)))))"

definition brainstem_tick ::
    "cron_reader \<Rightarrow> 'z brain_scheme handlers \<Rightarrow> timestamp \<Rightarrow> 'z brain_scheme \<Rightarrow> ('z brain_scheme \<times> nat) result" where
  "brainstem_tick cron hs now s =
     (let scs = sort_key (\<lambda>sc. the (next_run_at sc)) (filter (due now) (schedules s))
      in map_sum id (\<lambda>s1. (s1, length scs)) (fire_each cron hs now scs s))"

text \<open>One turn of the loop: a tick that raises is logged, and its transaction rolled back.\<close>

definition runner_tick :: "cron_reader \<Rightarrow> 'z brain_scheme handlers \<Rightarrow> timestamp \<Rightarrow> 'z brain_scheme \<Rightarrow> 'z brain_scheme" where
  "runner_tick cron hs now s = (case brainstem_tick cron hs now s of Inl _ \<Rightarrow> s | Inr (s1, _) \<Rightarrow> s1)"

section \<open>The cerebellum\<close>

text \<open>The loop that looks for a free suffix ends, since the suffixed slugs are different.\<close>

lemma str_of_nat_inj: "str_of_nat i = str_of_nat j \<Longrightarrow> i = j"
  using parse_str_of_nat by (metis option.inject)

function (sequential) free_suffix :: "string \<Rightarrow> string list \<Rightarrow> nat \<Rightarrow> string" where
  "free_suffix base taken i =
     (let c = base @ ''-'' @ str_of_nat i in if c \<in> set taken then free_suffix base taken (i + 1) else c)"
  by pat_completeness auto

termination
proof (relation "measure (\<lambda>(base, taken, i). card {c \<in> set taken. \<exists>j \<ge> i. c = base @ ''-'' @ str_of_nat j})")
  fix base i c and taken :: "string list"
  assume c: "c = base @ ''-'' @ str_of_nat i" "c \<in> set taken"
  let ?from = "\<lambda>i. {c \<in> set taken. \<exists>j \<ge> i. c = base @ ''-'' @ str_of_nat j}"
  have "c \<in> ?from i" using c by auto
  moreover have "c \<notin> ?from (i + 1)" using c(1) str_of_nat_inj by fastforce
  moreover have "?from (i + 1) \<subseteq> ?from i" using Suc_leD by fastforce
  ultimately have "?from (i + 1) \<subset> ?from i" by blast
  then have "card (?from (i + 1)) < card (?from i)" by (intro psubset_card_mono) simp
  then show "((base, taken, i + 1), base, taken, i) \<in> measure (\<lambda>(base, taken, i). card {c \<in> set taken. \<exists>j \<ge> i. c = base @ ''-'' @ str_of_nat j})"
    by simp
qed simp

declare free_suffix.simps [simp del]

definition runtime_unique_slug :: "ident \<Rightarrow> string \<Rightarrow> 'z db_scheme \<Rightarrow> string" where
  "runtime_unique_slug ns base s =
     (let taken = map ent_slug (filter (\<lambda>e. ent_namespace_id e = ns \<and> live e) (entities s))
      in if base \<in> set taken then free_suffix base taken 2 else base)"

definition new_cerebellum :: "ident \<Rightarrow> timestamp \<Rightarrow> ident \<Rightarrow> string \<Rightarrow> entity" where
  "new_cerebellum i now ns slug = \<lparr>row_id = i, created_at = now, updated_at = now, deleted_at = None,
     ent_namespace_id = ns, ent_name = ''cerebellum'', ent_slug = slug, preset_slug = Some ''cerebellum-baseclass'',
     display_name = None, display_color = None, system_prompt = None, config_override = None, has_knowledge = None,
     migration_hash = None, is_cerebellum = True\<rparr>"

definition new_cerebellum_instance :: "ident \<Rightarrow> timestamp \<Rightarrow> ident \<Rightarrow> ident \<Rightarrow> string \<Rightarrow> ident \<Rightarrow> instance_row" where
  "new_cerebellum_instance i now eid ws path tok = \<lparr>row_id = i, created_at = now, updated_at = now, deleted_at = None,
     ins_entity_id = eid, ins_workspace_id = ws, workspace_path = Some path, ins_status = I_creating,
     runtime_config = None, proxy_token = Some tok, active_hash = None\<rparr>"

definition entities_integrity :: "'z db_scheme \<Rightarrow> entity \<Rightarrow> bool" where
  "entities_integrity s e \<longleftrightarrow> fk_exists (namespaces s) (ent_namespace_id e) \<and>
     uq_entities_namespace_slug (entities s) \<and> uq_entities_cerebellum_per_ns (entities s)"

definition ensure_cerebellum_entity :: "timestamp \<Rightarrow> workspace \<Rightarrow> 'z db_scheme \<Rightarrow> ('z db_scheme \<times> entity) result" where
  "ensure_cerebellum_entity now w s =
     (case scalar_one_or_none (filter (\<lambda>e. ent_namespace_id e = ws_namespace_id w \<and> is_cerebellum e \<and> live e) (entities s)) of
        Inl err \<Rightarrow> Inl err
      | Inr (Some e) \<Rightarrow> Inr (s, e)
      | Inr None \<Rightarrow>
         (let e = new_cerebellum (new_id s) now (ws_namespace_id w) (runtime_unique_slug (ws_namespace_id w) ''cerebellum'' s);
              s1 = (take_id s)\<lparr>entities := entities s @ [e]\<rparr>
          in if entities_integrity s1 e then Inr (s1, e) else Inl unhandled_error))"

definition ensure_cerebellum_instance ::
    "timestamp \<Rightarrow> ident \<Rightarrow> entity \<Rightarrow> 'z db_scheme \<Rightarrow> ('z db_scheme \<times> instance_row) result" where
  "ensure_cerebellum_instance now ws e s =
     (case scalar_one_or_none (filter (\<lambda>i. ins_entity_id i = row_id e \<and> ins_workspace_id i = ws \<and> live i) (instances s)) of
        Inl err \<Rightarrow> Inl err
      | Inr (Some i) \<Rightarrow> Inr (s, i)
      | Inr None \<Rightarrow>
         (let s1 = take_id s; s2 = take_id s1;
              i = new_cerebellum_instance (new_id s2) now (row_id e) ws (generate_workspace_path (ent_slug e) (new_id s)) (new_id s1);
              s3 = (take_id s2)\<lparr>instances := instances s @ [i]\<rparr>
          in if instances_integrity s3 i then Inr (s3, i) else Inl unhandled_error))"

definition ensure_cerebellum_entity_and_instance ::
    "timestamp \<Rightarrow> ident \<Rightarrow> 'z db_scheme \<Rightarrow> ('z db_scheme \<times> entity \<times> instance_row) result" where
  "ensure_cerebellum_entity_and_instance now ws s =
     (case get_live (workspaces s) ws of
        None \<Rightarrow> Inl (NotFoundError ''workspace.not_found'' ''errors.workspace.not_found'')
      | Some w \<Rightarrow>
         (case ensure_cerebellum_entity now w s of
            Inl err \<Rightarrow> Inl err
          | Inr (s1, e) \<Rightarrow> map_sum id (\<lambda>(s2, i). (s2, e, i)) (ensure_cerebellum_instance now ws e s1)))"

definition cerebellum_for ::
    "timestamp \<Rightarrow> ident \<Rightarrow> string \<Rightarrow> ident \<Rightarrow> ident option \<Rightarrow> 'z db_scheme \<Rightarrow> ('z db_scheme \<times> entity \<times> instance_row) result" where
  "cerebellum_for now ws atom uid x_org s =
     (case require_workspace_permission uid ws atom x_org s of
        Inl e \<Rightarrow> Inl e | Inr _ \<Rightarrow> ensure_cerebellum_entity_and_instance now ws s)"

record cerebellum_out =
  co_entity_id :: ident
  co_instance_id :: ident
  co_workspace_id :: ident
  co_name :: string
  co_slug :: string
  co_preset_slug :: "string option"
  co_system_prompt :: "string option"
  co_status :: instance_status

definition cerebellum_out_of :: "entity \<Rightarrow> instance_row \<Rightarrow> ident \<Rightarrow> cerebellum_out" where
  "cerebellum_out_of e i ws = \<lparr>co_entity_id = row_id e, co_instance_id = row_id i, co_workspace_id = ws, co_name = ent_name e,
     co_slug = ent_slug e, co_preset_slug = preset_slug e, co_system_prompt = system_prompt e, co_status = ins_status i\<rparr>"

definition read_cerebellum ::
    "timestamp \<Rightarrow> ident \<Rightarrow> ident \<Rightarrow> ident option \<Rightarrow> 'z db_scheme \<Rightarrow> ('z db_scheme \<times> cerebellum_out) result" where
  "read_cerebellum now ws uid x_org s =
     map_sum id (\<lambda>(s1, e, i). (s1, cerebellum_out_of e i ws)) (cerebellum_for now ws ''can_view_workspace'' uid x_org s)"

record cerebellum_update =
  cu_name :: "string patch"
  cu_system_prompt :: "string patch"
  cu_preset_slug :: "string patch"

definition update_cerebellum ::
    "timestamp \<Rightarrow> ident \<Rightarrow> cerebellum_update \<Rightarrow> ident \<Rightarrow> ident option \<Rightarrow> 'z db_scheme \<Rightarrow> ('z db_scheme \<times> cerebellum_out) result" where
  "update_cerebellum now ws b uid x_org s =
     (case cerebellum_for now ws ''can_edit_workspace'' uid x_org s of
        Inl err \<Rightarrow> Inl err
      | Inr (s1, e, i) \<Rightarrow>
         if \<not> not_null (cu_name b) then Inl unhandled_error
         else (let e1 = modified now e (e\<lparr>ent_name := patched_value (cu_name b) (ent_name e),
                           system_prompt := patched (cu_system_prompt b) (system_prompt e),
                           preset_slug := patched (cu_preset_slug b) (preset_slug e)\<rparr>)
               in Inr (s1\<lparr>entities := update_where (\<lambda>r. row_id r = row_id e) (\<lambda>_. e1) (entities s1)\<rparr>,
                       cerebellum_out_of e1 i ws)))"

definition restart_cerebellum ::
    "environment \<Rightarrow> 'z cluster_scheme handlers \<Rightarrow> timestamp \<Rightarrow> ident \<Rightarrow> ident \<Rightarrow> ident option \<Rightarrow> 'z cluster_scheme
     \<Rightarrow> ('z cluster_scheme \<times> restart_outcome) result" where
  "restart_cerebellum env hs now ws uid x_org c =
     map_sum id (\<lambda>(c1, e, i). restart_instance_runtime env hs now i e uid None False c1)
       (cerebellum_for now ws ''can_operate_workspace'' uid x_org c)"

end
