(* ===== verification/Hub_Props.thy ===== *)
theory Hub_Props
  imports Hub_Tree Hub_Internal Brain_Regions Instances_Props
begin

text \<open>
  What the file tree of a Workspace and its mirror promise, and where they do not keep it: where writes
  go, archives that are restored, and renames.
\<close>

section \<open>Frames\<close>

text \<open>Handlers of events leave the tables of the hub and the disk alone.\<close>

definition hub_frame :: "'z brain_scheme \<Rightarrow> 'z brain_scheme \<Rightarrow> bool" where
  "hub_frame s t \<longleftrightarrow> fornix_files t = fornix_files s \<and> disk t = disk s \<and> vaults t = vaults s \<and>
     vault_entries t = vault_entries s \<and> schedules t = schedules s \<and> id_source t = id_source s \<and> id_next s \<le> id_next t"

definition hub_handlers :: "'z brain_scheme handlers \<Rightarrow> bool" where
  "hub_handlers hs = handlers_respect hub_frame (\<lambda>_. True) hs"

lemma hub_handlers_Nil [simp]: "hub_handlers []"
  by (simp add: hub_handlers_def)

lemma hub_frame_order: "reflp hub_frame" "transp hub_frame"
  by (auto simp: hub_frame_def reflp_def transp_def)

lemma emit_hub_frame: "hub_handlers hs \<Longrightarrow> hub_frame s (fst (emit hs now a s))"
  unfolding hub_handlers_def
  by (rule emit_respects [OF hub_frame_order, where Q = "\<lambda>_. True"]) (auto simp: hub_frame_def take_id_def)

lemma emit_hub [simp]:
  assumes "hub_handlers hs"
  shows "fornix_files (fst (emit hs now a s)) = fornix_files s" "disk (fst (emit hs now a s)) = disk s"
    "vaults (fst (emit hs now a s)) = vaults s" "vault_entries (fst (emit hs now a s)) = vault_entries s"
    "schedules (fst (emit hs now a s)) = schedules s" "id_source (fst (emit hs now a s)) = id_source s"
    "id_next s \<le> id_next (fst (emit hs now a s))"
  using emit_hub_frame [OF assms, of s now a] by (simp_all add: hub_frame_def)

text \<open>The tables that making the hub and the vault leave alone.\<close>

lemma take_id_hub [simp]:
  "fornix_files (take_id s) = fornix_files s" "disk (take_id s) = disk s" "vaults (take_id s) = vaults s"
  "vault_entries (take_id s) = vault_entries s" "schedules (take_id s) = schedules s"
  by (simp_all add: take_id_def)

lemma hub_made:
  assumes "get_or_create_central_hub now ws s = Inr (t, h)"
  shows "fornix_files t = fornix_files s" "disk t = disk s" "vaults t = vaults s" "vault_entries t = vault_entries s"
    "schedules t = schedules s" "id_source t = id_source s" "id_next s \<le> id_next t"
  using assms by (auto simp: get_or_create_central_hub_def Let_def split: sum.splits option.splits if_splits)

lemma filter_oneD: "filter P xs = [x] \<Longrightarrow> x \<in> set xs \<and> P x"
  using set_filter [of P xs] by auto

lemma vault_made:
  assumes "get_or_create_vault now ws s = Inr (t, v)"
  shows "fornix_files t = fornix_files s" "disk t = disk s" "vault_entries t = vault_entries s"
    "id_source t = id_source s" "id_next s \<le> id_next t" "v \<in> set (vaults t)" "va_workspace_id v = ws" "live v"
  using assms
  by (auto simp: get_or_create_vault_def Let_def live_def split: sum.splits option.splits if_splits
      dest!: scalar_one_SomeD filter_oneD)

lemma scalar_one_None: "scalar_one_or_none rows = Inr None \<longleftrightarrow> rows = []"
  by (auto simp: scalar_one_or_none_def split: list.splits)

text \<open>What a file that is inserted went through.\<close>

lemma insert_fileD:
  assumes "insert_file now ws b uid x_org s = Inr (t, f)"
  obtains s0 s1 h key where "s0 = s \<or> s0 = take_id s" "get_or_create_central_hub now ws s0 = Inr (s1, h)"
    "f = new_file (new_id s1) now ws (row_id h) b key uid"
    "t = (take_id s1)\<lparr>fornix_files := fornix_files s1 @ [f]\<rparr>" "files_integrity t f"
    "filter (at_path ws (fc_parent_path b) (fc_name b)) (fornix_files s) = []"
    "validate_parent_directory ws (fc_parent_path b) s = Inr ()"
proof -
  note a = assms [unfolded insert_file_def Let_def]
  have long: "\<not> 255 < length (fc_name b)" using a by (auto split: if_splits)
  have perm: "require_workspace_permission uid ws ''can_edit_workspace'' x_org s = Inr ()"
    using a long by (cases "require_workspace_permission uid ws ''can_edit_workspace'' x_org s") simp_all
  have valid: "validate_parent_directory ws (fc_parent_path b) s = Inr ()"
    using a long perm by (cases "validate_parent_directory ws (fc_parent_path b) s") simp_all
  have plain: "(fc_is_directory b \<and> (fc_content_type b \<noteq> None \<or> fc_file_size b \<noteq> None)) = False"
    using a long perm valid by (auto split: if_splits)
  note rest = a [unfolded plain if_False]
  have new: "scalar_one_or_none (filter (at_path ws (fc_parent_path b) (fc_name b)) (fornix_files s)) = Inr None"
    using rest long perm valid
    by (cases "scalar_one_or_none (filter (at_path ws (fc_parent_path b) (fc_name b)) (fornix_files s))")
      (simp_all split: option.splits)
  let ?s0 = "if fc_storage_key b = [] then take_id s else s"
  let ?key = "if fc_storage_key b = [] then new_id s else fc_storage_key b"
  obtain s1 h where hub: "get_or_create_central_hub now ws ?s0 = Inr (s1, h)"
    using rest long perm valid new by (cases "get_or_create_central_hub now ws ?s0") auto
  have r: "f = new_file (new_id s1) now ws (row_id h) b ?key uid"
    "t = (take_id s1)\<lparr>fornix_files := fornix_files s1 @ [f]\<rparr>" "files_integrity t f"
    using rest long perm valid new hub by (auto split: if_splits)
  show thesis
    by (rule that [of ?s0 s1 h ?key]) (use hub r new valid in \<open>simp_all add: scalar_one_None\<close>)
qed

lemma insert_file_effect:
  assumes "insert_file now ws b uid x_org s = Inr (t, f)"
  shows "fornix_files t = fornix_files s @ [f]" "disk t = disk s" "live f" "ff_workspace_id f = ws"
    "ff_parent_path f = fc_parent_path b" "ff_name f = fc_name b" "ff_content f = fc_content b"
    "is_directory f = fc_is_directory b" "\<forall>g \<in> set (fornix_files s). \<not> at_path ws (fc_parent_path b) (fc_name b) g"
    "validate_parent_directory ws (fc_parent_path b) s = Inr ()" "uq_fornix_files_path (fornix_files t)"
    "id_source t = id_source s" "id_next s < id_next t" "row_id f \<in> id_source s ` {id_next s ..< id_next t}"
proof -
  obtain s0 s1 h key where r: "s0 = s \<or> s0 = take_id s" "get_or_create_central_hub now ws s0 = Inr (s1, h)"
    "f = new_file (new_id s1) now ws (row_id h) b key uid"
    "t = (take_id s1)\<lparr>fornix_files := fornix_files s1 @ [f]\<rparr>" "files_integrity t f"
    "filter (at_path ws (fc_parent_path b) (fc_name b)) (fornix_files s) = []"
    "validate_parent_directory ws (fc_parent_path b) s = Inr ()"
    using insert_fileD [OF assms] .
  note made = hub_made [OF r(2)]
  show "fornix_files t = fornix_files s @ [f]" "disk t = disk s" "id_source t = id_source s" "id_next s < id_next t"
    using r(1,4) made by auto
  show "live f" "ff_workspace_id f = ws" "ff_parent_path f = fc_parent_path b" "ff_name f = fc_name b"
    "ff_content f = fc_content b" "is_directory f = fc_is_directory b"
    unfolding r(3) by (simp_all add: new_file_def live_def)
  show "\<forall>g \<in> set (fornix_files s). \<not> at_path ws (fc_parent_path b) (fc_name b) g" using r(6) by (simp add: filter_empty_conv)
  show "uq_fornix_files_path (fornix_files t)" using r(5) by (simp add: files_integrity_def)
  have "row_id f = id_source s (id_next s1)" "id_next s \<le> id_next s1" "id_next s1 < id_next t"
    using r(1,3,4) made by (auto simp: new_file_def new_id_def)
  then show "row_id f \<in> id_source s ` {id_next s ..< id_next t}" by auto
qed (use insert_fileD [OF assms] in blast)

section \<open>The mirror\<close>

definition live_rows :: "'z brain_scheme \<Rightarrow> fornix_file set" where
  "live_rows s = {f \<in> set (fornix_files s). live f}"

definition mirrored :: "string \<Rightarrow> 'z brain_scheme \<Rightarrow> bool" where
  "mirrored root s \<longleftrightarrow> distinct (map row_id (fornix_files s)) \<and> inj (id_source s) \<and>
     row_id ` set (fornix_files s) \<subseteq> id_source s ` {..< id_next s} \<and> (\<forall>f \<in> set (fornix_files s). canonical_file f) \<and>
     tree_ok root (live_rows s) (disk s)"

lemma mirrored_frame:
  assumes "mirrored root s" "fornix_files t = fornix_files s" "\<And>q. content_at (disk t) q = content_at (disk s) q"
    "id_source t = id_source s" "id_next s \<le> id_next t"
  shows "mirrored root t"
proof -
  have "live_rows t = live_rows s" using assms(2) by (simp add: live_rows_def)
  moreover have "id_source s ` {..< id_next s} \<subseteq> id_source s ` {..< id_next t}" using assms(5) by auto
  ultimately show ?thesis using assms tree_same [of root _ "disk s" "disk t"] by (auto simp: mirrored_def)
qed

lemma mirrored_insert:
  assumes "mirrored root s" "fornix_files t = fornix_files s @ [f]" "live f" "canonical_file f" "id_source t = id_source s"
    "row_id f \<in> id_source s ` {id_next s ..< id_next t}" "tree_ok root (insert f (live_rows s)) (disk t)"
  shows "mirrored root t"
proof -
  obtain n where n: "row_id f = id_source s n" "id_next s \<le> n" "n < id_next t" using assms(6) by auto
  have fresh: "row_id f \<notin> row_id ` set (fornix_files s)"
  proof
    assume "row_id f \<in> row_id ` set (fornix_files s)"
    then obtain m where m: "row_id f = id_source s m" "m < id_next s" using assms(1) by (auto simp: mirrored_def)
    with n assms(1) have "m = n" by (auto simp: mirrored_def inj_eq)
    with m n show False by simp
  qed
  have "live_rows t = insert f (live_rows s)" using assms(2,3) by (auto simp: live_rows_def)
  moreover have "id_source s ` {..< id_next s} \<subseteq> id_source s ` {..< id_next t}" using n by auto
  ultimately show ?thesis using assms(1,2,4,5,7) fresh n unfolding mirrored_def by auto
qed

lemma live_rows_set:
  assumes "distinct (map row_id (fornix_files s))" "f \<in> set (fornix_files s)" "row_id g = row_id f"
  shows "live_rows (set_file g s) = (live_rows s - {f}) \<union> (if live g then {g} else {})"
    "set (fornix_files (set_file g s)) = insert g (set (fornix_files s) - {f})"
    "map row_id (fornix_files (set_file g s)) = map row_id (fornix_files s)"
proof -
  have eq: "row_id r = row_id g \<longleftrightarrow> r = f" if "r \<in> set (fornix_files s)" for r
    using assms that by (auto simp: distinct_map dest: inj_onD)
  show all: "set (fornix_files (set_file g s)) = insert g (set (fornix_files s) - {f})"
    using assms(2) eq by (auto simp: set_file_def update_where_def image_iff)
  have "g \<notin> set (fornix_files s) - {f}" using eq by auto
  then show "live_rows (set_file g s) = (live_rows s - {f}) \<union> (if live g then {g} else {})"
    unfolding live_rows_def all by auto
  show "map row_id (fornix_files (set_file g s)) = map row_id (fornix_files s)"
    by (simp add: set_file_def update_where_def)
qed

lemma mirrored_set:
  assumes "mirrored root s" "f \<in> set (fornix_files s)" "row_id g = row_id f" "canonical_file g"
    "fornix_files t = fornix_files (set_file g s)" "id_source t = id_source s" "id_next s \<le> id_next t"
    "tree_ok root ((live_rows s - {f}) \<union> (if live g then {g} else {})) (disk t)"
  shows "mirrored root t"
proof -
  have d: "distinct (map row_id (fornix_files s))" using assms(1) by (simp add: mirrored_def)
  note set = live_rows_set [OF d assms(2,3)]
  have ids: "row_id ` set (fornix_files t) = row_id ` set (fornix_files s)" "distinct (map row_id (fornix_files t))"
    using set(3) d unfolding assms(5) by (metis set_map, simp)
  have "live_rows t = live_rows (set_file g s)" using assms(5) by (simp add: live_rows_def)
  moreover have "row_id ` set (fornix_files t) \<subseteq> id_source s ` {..< id_next t}"
  proof -
    have "id_source s ` {..< id_next s} \<subseteq> id_source s ` {..< id_next t}" using assms(7) by auto
    moreover have "row_id ` set (fornix_files s) \<subseteq> id_source s ` {..< id_next s}" using assms(1) by (simp add: mirrored_def)
    ultimately show ?thesis unfolding ids(1) by (rule order_trans [rotated])
  qed
  moreover have "\<forall>f \<in> set (fornix_files t). canonical_file f"
    using assms(1,4) unfolding assms(5) set(2) by (auto simp: mirrored_def)
  ultimately show ?thesis using assms(1,6,8) set(1) ids(2) by (simp add: mirrored_def)
qed

text \<open>A mirror operation that raises changes no content.\<close>

lemma put_text_fails: "put_text p c d = (d1, True) \<Longrightarrow> content_at d1 q = content_at d q"
  by (auto simp: put_text_def write_text_def Let_def split: prod.splits bool.splits if_splits)

lemma sync_write_fails: "sync_write root io ws parent name content dir d = (d1, True) \<Longrightarrow> content_at d1 q = content_at d q"
  by (auto simp: sync_write_def put_text_fails split: option.splits if_splits)

lemma drop_path_returns: "drop_path p d \<noteq> (d1, True)"
  by (auto simp: drop_path_def split: option.splits node.splits)

lemma sync_remove_fails: "sync_remove root io ws parent name d = (d1, True) \<Longrightarrow> d1 = d"
  by (auto simp: sync_remove_def drop_path_returns split: option.splits if_splits)

lemma raise_sync_mirrored:
  assumes "raise_sync_failed mt hs now ws fid next d s = (t, r)" "mirrored root s" "hub_handlers hs" "id_next s \<le> next"
    "\<And>q. content_at d q = content_at (disk s) q"
  shows "mirrored root t"
proof -
  let ?a = "system_event FORNIX_SYNC_FAILED ''fornix_file'' fid
      [(''workspace_id'', JStr ws), (''file_id'', JStr fid), (''error'', JStr (mt_error mt))]"
  have "t = fst (emit hs now ?a (s\<lparr>id_next := next, disk := d\<rparr>))" using assms(1) by (simp add: raise_sync_failed_def)
  moreover have "id_next s \<le> id_next (fst (emit hs now ?a (s\<lparr>id_next := next, disk := d\<rparr>)))"
    using assms(4) emit_hub(7) [OF assms(3), of "s\<lparr>id_next := next, disk := d\<rparr>" now ?a] by simp
  ultimately show ?thesis using assms(3,5) by (intro mirrored_frame [OF assms(2)]) simp_all
qed

lemma emit_mirrored: "hub_handlers hs \<Longrightarrow> mirrored root s \<Longrightarrow> mirrored root (fst (emit hs now a s))"
  by (rule mirrored_frame [of _ s]) simp_all

text \<open>What passes the check of the parent.\<close>

definition has_parent :: "ident \<Rightarrow> string option \<Rightarrow> fornix_file set \<Rightarrow> bool" where
  "has_parent ws parent L \<longleftrightarrow> comps parent \<noteq> [] \<longrightarrow> (\<exists>g \<in> L. is_directory g \<and> spot g = (ws, comps parent))"

lemma parent_row:
  assumes "scalar_one_or_none (filter (\<lambda>f. at_path ws dir name f \<and> is_directory f) (fornix_files s)) = Inr (Some g)"
  shows "g \<in> live_rows s \<and> is_directory g \<and> ff_workspace_id g = ws \<and> ff_parent_path g = dir \<and> ff_name g = name"
  using filter_oneD [OF scalar_one_SomeD [OF assms]] by (auto simp: live_rows_def at_path_def)

lemma validated_parent:
  assumes "validate_parent_directory ws parent s = Inr ()" "canonical_parent parent"
  shows "has_parent ws parent (live_rows s)"
proof (cases "comps parent" rule: rev_cases)
  case (snoc ds d)
  obtain cs where cs: "list_all canonical_name cs" "parent = parent_of cs" "comps parent = cs"
    using canonical_parentE [OF assms(2)] .
  then have p: "parent = Some (dir_path (ds @ [d]))" "list_all canonical_name (ds @ [d])"
    using snoc by (simp_all add: parent_of_def)
  obtain g where "scalar_one_or_none (filter (\<lambda>f. at_path ws (parent_of ds) d f \<and> is_directory f) (fornix_files s)) = Inr (Some g)"
    using assms(1) split_parent_canonical [OF p(2)] unfolding p(1) validate_parent_directory_def
    by (auto simp del: dir_path_simps split: sum.splits option.splits)
  from parent_row [OF this] have "g \<in> live_rows s" "is_directory g" "spot g = (ws, ds @ [d])"
    using p(2) by (auto simp: spot_def row_path_def)
  with snoc show ?thesis by (auto simp: has_parent_def)
qed (simp add: has_parent_def)

lemma no_row_at:
  assumes "\<forall>g \<in> set (fornix_files s). \<not> at_path ws parent name g" "\<forall>f \<in> set (fornix_files s). canonical_file f" "canonical_parent parent"
  shows "(ws, comps parent @ [name]) \<notin> spot ` live_rows s"
  using assms(1,2) at_path_spot [OF _ assms(3)] unfolding live_rows_def by fastforce

section \<open>Requests keep the mirror\<close>

lemma create_file_mirrored:
  assumes "mirrored (mt_root mt) s" "hub_handlers hs" "create_file mt hs now ws b uid x_org s = (t, r)"
    and can: "canonical_name ws" "canonical_parent (fc_parent_path b)" "canonical_name (fc_name b)"
  shows "mirrored (mt_root mt) t"
proof (cases "insert_file now ws b uid x_org s")
  case (Inl e)
  then show ?thesis using assms(1,3) by (simp add: create_file_def)
next
  case (Inr p)
  obtain s1 f where p: "p = (s1, f)" by force
  note e = insert_file_effect [OF Inr [unfolded p]]
  have spot: "spot f = (ws, comps (fc_parent_path b) @ [fc_name b])" using e(4-6) by (simp add: spot_def row_path_def)
  have f: "canonical_file f" using can e(4-6) by (simp add: canonical_file_def)
  have rows: "\<forall>g \<in> set (fornix_files s). canonical_file g" "tree_ok (mt_root mt) (live_rows s) (disk s)"
    using assms(1) by (simp_all add: mirrored_def)
  have new: "spot f \<notin> spot ` live_rows s" unfolding spot by (rule no_row_at [OF e(9) rows(1) can(2)])
  have tree: "tree_rows (insert f (live_rows s))"
    using rows(2) f new validated_parent [OF e(10) can(2)] e(4,5) unfolding tree_ok_def has_parent_def
    by (intro tree_rows_insert) auto
  obtain target where target: "mirror_abs_path (mt_root mt) ws (fc_parent_path b) (fc_name b) = Some target"
    "\<not> ends_sep target" "resolve target = place_on (mt_root mt) (spot f)"
    using mirror_canonical [OF can] unfolding spot .
  obtain d failed where d: "sync_write (mt_root mt) (mt_fails mt) ws (fc_parent_path b) (fc_name b) (fc_content b)
      (fc_is_directory b) (disk s) = (d, failed)" by force
  show ?thesis
  proof (cases failed)
    case True
    have "id_next s \<le> id_next s1" using e(13) by simp
    moreover have "raise_sync_failed mt hs now ws (row_id f) (id_next s1) d s = (t, r)"
      using assms(3) Inr p d e(2) True by (simp add: create_file_def)
    moreover have "content_at d q = content_at (disk s) q" for q
      by (rule sync_write_fails [of "mt_root mt" "mt_fails mt" ws "fc_parent_path b" "fc_name b" "fc_content b" "fc_is_directory b"])
        (use d True in simp)
    ultimately show ?thesis using raise_sync_mirrored [OF _ assms(1,2)] by blast
  next
    case False
    have "tree_ok (mt_root mt) (insert f (live_rows s)) d"
    proof (cases "fc_is_directory b")
      case True
      then show ?thesis using d target(1) False e(8) rows(2) tree
        by (intro tree_add_directory [OF rows(2)]) (auto simp: sync_write_def split: if_splits)
    next
      case no: False
      then have "put_text target (text_of f) (disk s) = (d, False)"
        using d target(1) False e(7) by (simp add: sync_write_def text_of_def split: if_splits)
      with no tree_put [OF rows(2) tree new _ _ target(3)] e(8) show ?thesis by blast
    qed
    then have "mirrored (mt_root mt) (s1\<lparr>disk := d\<rparr>)"
      using e(1,3,12,14) f by (intro mirrored_insert [OF assms(1), of _ f]) simp_all
    moreover have "t = fst (emit hs now (created_event ws uid f) (s1\<lparr>disk := d\<rparr>))"
      using assms(3) Inr p d e(2) False by (simp add: create_file_def)
    ultimately show ?thesis using emit_mirrored [OF assms(2)] by simp
  qed
qed

lemma find_fileD:
  assumes "find_file ws fid s = Inr f"
  shows "f \<in> set (fornix_files s)" "f \<in> live_rows s" "ff_workspace_id f = ws" "row_id f = fid"
proof -
  have "scalar_one_or_none (filter (\<lambda>f. row_id f = fid \<and> ff_workspace_id f = ws \<and> live f) (fornix_files s)) = Inr (Some f)"
    using assms by (simp add: find_file_def split: sum.splits option.splits)
  from filter_oneD [OF scalar_one_SomeD [OF this]]
  show "f \<in> set (fornix_files s)" "f \<in> live_rows s" "ff_workspace_id f = ws" "row_id f = fid" by (simp_all add: live_rows_def)
qed

lemma soft_delete_file [simp]:
  "row_id (soft_delete now f) = row_id f" "\<not> live (soft_delete now f)" "ff_workspace_id (soft_delete now f) = ff_workspace_id f"
  "canonical_file (soft_delete now f) = canonical_file f"
  by (simp_all add: soft_delete_def touch_def live_def canonical_file_def)

text \<open>What \<open>sync_remove\<close> leaves when the row at that place is deleted.\<close>

lemma removed_mirrored:
  assumes "mirrored root s" "f \<in> live_rows s" "sync_remove root io (ff_workspace_id f) (ff_parent_path f) (ff_name f) (disk s) = (d, False)"
    "is_directory f \<Longrightarrow> \<not> list_ex (\<lambda>g. ff_workspace_id g = ff_workspace_id f \<and> ff_parent_path g = Some (target_path f) \<and> live g)
       (fornix_files s)"
    "fornix_files t = fornix_files (set_file (soft_delete now f) s)" "id_source t = id_source s" "id_next s \<le> id_next t" "disk t = d"
  shows "mirrored root t"
proof -
  have f: "canonical_file f" "f \<in> set (fornix_files s)" "tree_ok root (live_rows s) (disk s)"
    using assms(1,2) by (auto simp: mirrored_def live_rows_def)
  then have can: "canonical_name (ff_workspace_id f)" "canonical_parent (ff_parent_path f)" "canonical_name (ff_name f)"
    by (simp_all add: canonical_file_def)
  obtain target where target: "mirror_abs_path root (ff_workspace_id f) (ff_parent_path f) (ff_name f) = Some target"
    "\<not> ends_sep target" "resolve target = place_on root (spot f)"
    using mirror_canonical [OF can] by (auto simp: spot_def row_path_def)
  have drop: "drop_path target (disk s) = (d, False)" using assms(3) target(1) by (simp add: sync_remove_def split: if_splits)
  have "tree_ok root (live_rows s - {f}) d"
  proof (cases "is_directory f")
    case False
    then show ?thesis using tree_drop [OF f(3) assms(2) _ drop target(3,2)] by blast
  next
    case True
    have "comps (ff_parent_path g) \<noteq> row_path f" if "g \<in> live_rows s" "ff_workspace_id g = ff_workspace_id f" for g
    proof
      assume "comps (ff_parent_path g) = row_path f"
      moreover have "canonical_parent (ff_parent_path g)"
        using that(1) assms(1) by (auto simp: live_rows_def mirrored_def canonical_file_def)
      ultimately have "ff_parent_path g = Some (target_path f)"
        using target_path_canonical [OF f(1)] by (metis canonical_parent_def)
      with assms(4) [OF True] that show False by (auto simp: list_ex_iff live_rows_def)
    qed
    with tree_drop_directory [OF f(3) assms(2) True _ drop target(3)] show ?thesis by blast
  qed
  then show ?thesis using assms(5-8) f by (intro mirrored_set [OF assms(1) f(2), of "soft_delete now f"]) simp_all
qed

lemma delete_file_mirrored:
  assumes "mirrored (mt_root mt) s" "hub_handlers hs" "delete_file mt hs now ws fid uid x_org s = (t, r)"
  shows "mirrored (mt_root mt) t"
proof -
  have "t = s \<or> (\<exists>f d. find_file ws fid s = Inr f \<and>
      (is_directory f \<longrightarrow> \<not> list_ex (\<lambda>g. ff_workspace_id g = ws \<and> ff_parent_path g = Some (target_path f) \<and> live g) (fornix_files s)) \<and>
      ((sync_remove (mt_root mt) (mt_fails mt) ws (ff_parent_path f) (ff_name f) (disk s) = (d, True) \<and>
          (t, r) = raise_sync_failed mt hs now ws (row_id f) (id_next s) d s) \<or>
       (sync_remove (mt_root mt) (mt_fails mt) ws (ff_parent_path f) (ff_name f) (disk s) = (d, False) \<and>
          t = (set_file (soft_delete now f) s)\<lparr>disk := d\<rparr>)))"
    using assms(3) unfolding delete_file_def
    by (auto split: sum.splits if_splits prod.splits bool.splits)
  then show ?thesis
  proof (elim disjE exE conjE)
    fix f d assume "find_file ws fid s = Inr f" "(t, r) = raise_sync_failed mt hs now ws (row_id f) (id_next s) d s"
      "sync_remove (mt_root mt) (mt_fails mt) ws (ff_parent_path f) (ff_name f) (disk s) = (d, True)"
    then show ?thesis using raise_sync_mirrored [OF _ assms(1,2)] sync_remove_fails by (metis order_refl)
  next
    fix f d assume f: "find_file ws fid s = Inr f" and r: "t = (set_file (soft_delete now f) s)\<lparr>disk := d\<rparr>"
      "sync_remove (mt_root mt) (mt_fails mt) ws (ff_parent_path f) (ff_name f) (disk s) = (d, False)"
      "is_directory f \<longrightarrow> \<not> list_ex (\<lambda>g. ff_workspace_id g = ws \<and> ff_parent_path g = Some (target_path f) \<and> live g) (fornix_files s)"
    note f = find_fileD [OF f]
    show ?thesis
      by (rule removed_mirrored [OF assms(1) f(2), of "mt_fails mt" d]) (use r f in \<open>auto simp: set_file_def\<close>)
  qed (use assms(1) in simp)
qed

text \<open>The vault and the hub may be made on the way.\<close>

lemma vault_mirrored: "get_or_create_vault now ws s = Inr (s1, v) \<Longrightarrow> mirrored root s \<Longrightarrow> mirrored root s1"
  by (rule mirrored_frame [of _ s]) (simp_all add: vault_made [of now ws s s1 v])

lemma archive_fileD:
  assumes "archive_file_to_vault mt hs now ws fid uid x_org s = (t, r)" "t \<noteq> s \<or> is_ok r"
  obtains f s1 v d where "find_file ws fid s = Inr f" "\<not> is_directory f" "get_or_create_vault now ws s = Inr (s1, v)"
    "sync_remove (mt_root mt) (mt_fails mt) ws (ff_parent_path f) (ff_name f) (disk s1) = (d, True)"
    "raise_sync_failed mt hs now ws (row_id f) (id_next s1) d s = (t, r)"
  | f s1 v d where "find_file ws fid s = Inr f" "\<not> is_directory f" "get_or_create_vault now ws s = Inr (s1, v)"
    "sync_remove (mt_root mt) (mt_fails mt) ws (ff_parent_path f) (ff_name f) (disk s1) = (d, False)"
    "t = fst (emit hs now (user_event FORNIX_FILE_ARCHIVED ''fornix_file'' uid (Some fid)
         [(''workspace_id'', JStr ws), (''vault_entry_id'', JNull), (''storage_key'', JStr (storage_key f))])
       ((set_file (soft_delete now f) (take_id s1))\<lparr>vault_entries := vault_entries s1 @ [new_entry (new_id s1) now (row_id v) f],
          disk := d\<rparr>))"
    "r = Inr (new_entry (new_id s1) now (row_id v) f)"
proof -
  note a = assms(1) [unfolded archive_file_to_vault_def Let_def]
  have perm: "require_workspace_permission uid ws ''can_edit_workspace'' x_org s = Inr ()"
    using a assms(2) by (cases "require_workspace_permission uid ws ''can_edit_workspace'' x_org s") auto
  obtain f where f: "find_file ws fid s = Inr f" using a assms(2) perm by (cases "find_file ws fid s") auto
  have dir: "\<not> is_directory f" using a assms(2) perm f by (cases "is_directory f") auto
  obtain s1 v where v: "get_or_create_vault now ws s = Inr (s1, v)"
    using a assms(2) perm f dir by (cases "get_or_create_vault now ws s") auto
  obtain d failed where d: "sync_remove (mt_root mt) (mt_fails mt) ws (ff_parent_path f) (ff_name f) (disk s1) = (d, failed)" by force
  note r = a [unfolded perm f v, simplified, unfolded d]
  show thesis
  proof (cases failed)
    case True with r dir show ?thesis by (intro that(1) [OF f dir v]) (auto simp: d)
  next
    case False with r dir show ?thesis by (intro that(2) [OF f dir v]) (auto simp: d)
  qed
qed

lemma set_file_fields [simp]:
  "disk (set_file f s) = disk s" "id_source (set_file f s) = id_source s" "id_next (set_file f s) = id_next s"
  "vault_entries (set_file f s) = vault_entries s" "vaults (set_file f s) = vaults s"
  "fornix_files (set_file f (take_id s)) = fornix_files (set_file f s)"
  by (simp_all add: set_file_def take_id_def)

lemma archive_file_mirrored:
  assumes "mirrored (mt_root mt) s" "hub_handlers hs" "archive_file_to_vault mt hs now ws fid uid x_org s = (t, r)"
  shows "mirrored (mt_root mt) t"
proof (cases "t = s")
  case False
  from assms(3) disjI1 [OF False] show ?thesis
  proof (cases rule: archive_fileD)
    case (1 f s1 v d)
    then have "d = disk s" using sync_remove_fails vault_made(2) by metis
    with 1 vault_made(5) [OF 1(3)] show ?thesis by (intro raise_sync_mirrored [OF 1(5) assms(1,2)]) simp_all
  next
    case (2 f s1 v d)
    note f = find_fileD [OF 2(1)] and v = vault_made [OF 2(3)]
    let ?s = "(set_file (soft_delete now f) (take_id s1))\<lparr>vault_entries := vault_entries s1 @ [new_entry (new_id s1) now (row_id v) f], disk := d\<rparr>"
    have "fornix_files (set_file (soft_delete now f) s1) = fornix_files (set_file (soft_delete now f) s)"
      by (simp add: set_file_def v)
    then have "mirrored (mt_root mt) ?s"
      using 2(2,4) f v by (intro removed_mirrored [OF assms(1) f(2), of "mt_fails mt" d ?s now]) simp_all
    then show ?thesis using emit_mirrored [OF assms(2)] 2(5) by simp
  qed
qed (use assms(1) in simp)

text \<open>
  Three facts that a restore takes for granted and does not check: the archived file is of the Workspace,
  it is not there any more, and its directory still is.
\<close>

definition restorable :: "ident \<Rightarrow> ident \<Rightarrow> 'z brain_scheme \<Rightarrow> bool" where
  "restorable ws eid s \<longleftrightarrow> (\<forall>e \<in> set (vault_entries s). row_id e = eid \<longrightarrow>
     (\<exists>f. source_of e s = Some f \<and> ff_workspace_id f = ws \<and> \<not> live f \<and> \<not> is_directory f \<and>
       has_parent ws (ff_parent_path f) (live_rows s)))"

definition restored_from :: "timestamp \<Rightarrow> vault_entry \<Rightarrow> fornix_file \<Rightarrow> fornix_file" where
  "restored_from now e f = modified now f (f\<lparr>ff_content := (case archived_text (archived_value e) ''content'' of
     None \<Rightarrow> ff_content f | Some c \<Rightarrow> Some c), deleted_at := None\<rparr>)"

lemma restored_from_fields [simp]:
  "row_id (restored_from now e f) = row_id f" "live (restored_from now e f)"
  "ff_workspace_id (restored_from now e f) = ff_workspace_id f" "ff_parent_path (restored_from now e f) = ff_parent_path f"
  "ff_name (restored_from now e f) = ff_name f" "is_directory (restored_from now e f) = is_directory f"
  "storage_key (restored_from now e f) = storage_key f" "created_at (restored_from now e f) = created_at f"
  "deleted_at (restored_from now e f) = None" "ff_central_hub_id (restored_from now e f) = ff_central_hub_id f"
  "ff_content_type (restored_from now e f) = ff_content_type f" "file_size (restored_from now e f) = file_size f"
  "uploader_user_id (restored_from now e f) = uploader_user_id f"
  "uploader_instance_id (restored_from now e f) = uploader_instance_id f" "fornix_file.more (restored_from now e f) = fornix_file.more f"
  "ff_content (restored_from now e f) = (case archived_text (archived_value e) ''content'' of
     None \<Rightarrow> ff_content f | Some c \<Rightarrow> Some c)"
  by (simp_all add: restored_from_def modified_field touch_def live_def)

lemma restore_entryD:
  assumes "restore_vault_entry mt hs now ws eid uid x_org s = (t, r)" "t \<noteq> s \<or> is_ok r"
    and source: "\<forall>s1 v e. get_or_create_vault now ws s = Inr (s1, v) \<and>
      filter (\<lambda>e. row_id e = eid \<and> ve_vault_id e = row_id v \<and> live e) (vault_entries s) = [e] \<longrightarrow> source_of e s \<noteq> None"
  obtains s1 v e f d failed s2 where "get_or_create_vault now ws s = Inr (s1, v)" "source_of e s = Some f"
    "filter (\<lambda>e. row_id e = eid \<and> ve_vault_id e = row_id v \<and> live e) (vault_entries s) = [e]"
    "filter (\<lambda>g. at_path ws (ff_parent_path f) (ff_name f) g \<and> row_id g \<noteq> row_id f) (fornix_files s) = []"
    "sync_write (mt_root mt) (mt_fails mt) ws (ff_parent_path f) (ff_name f) (ff_content (restored_from now e f))
       (is_directory f) (disk s) = (d, failed)"
    "s2 = (set_file (restored_from now e f) s1)\<lparr>vault_entries := update_where (\<lambda>r. row_id r = eid) (soft_delete now) (vault_entries s), disk := d\<rparr>"
    "failed \<Longrightarrow> raise_sync_failed mt hs now ws (row_id f) (id_next s1) d s = (t, r)"
    "\<not> failed \<Longrightarrow> \<not> uq_fornix_files_path (fornix_files s2) \<Longrightarrow> t = s\<lparr>disk := d\<rparr> \<and> r = Inl unhandled_error"
    "\<not> failed \<Longrightarrow> uq_fornix_files_path (fornix_files s2) \<Longrightarrow>
       t = fst (emit hs now (user_event FORNIX_FILE_RESTORED ''fornix_file'' uid (Some (row_id f))
          [(''workspace_id'', JStr ws), (''vault_entry_id'', JStr eid), (''storage_key'', JStr (storage_key f))]) s2) \<and>
       r = Inr (restored_from now e f)"
proof -
  note a = assms(1) [unfolded restore_vault_entry_def Let_def]
  have perm: "require_workspace_permission uid ws ''can_edit_workspace'' x_org s = Inr ()"
    using a assms(2) by (cases "require_workspace_permission uid ws ''can_edit_workspace'' x_org s") auto
  obtain s1 v where v: "get_or_create_vault now ws s = Inr (s1, v)"
    using a assms(2) perm by (cases "get_or_create_vault now ws s") auto
  note m = vault_made [OF v]
  let ?rows = "scalar_one_or_none (filter (\<lambda>e. row_id e = eid \<and> ve_vault_id e = row_id v \<and> live e) (vault_entries s1))"
  obtain e where e: "?rows = Inr (Some e)"
    using a assms(2) perm v by (cases ?rows) (auto split: option.splits)
  from scalar_one_SomeD [OF this] m(3)
  have in_s: "filter (\<lambda>e. row_id e = eid \<and> ve_vault_id e = row_id v \<and> live e) (vault_entries s) = [e]" by simp
  obtain f where f: "source_of e s = Some f" using source v in_s by blast
  have src: "source_of e s1 = Some f" using f m(1) by (simp add: source_of_def split: if_splits)
  note a1 = a [unfolded perm v, simplified, unfolded e, simplified, unfolded restore_target_def src, simplified]
  let ?taken = "scalar_one_or_none (filter (\<lambda>g. at_path ws (ff_parent_path f) (ff_name f) g \<and> row_id g \<noteq> row_id f) (fornix_files s1))"
  have free: "?taken = Inr None" using a1 assms(2) by (cases ?taken) (auto split: option.splits)
  have rest: "restored_file now ws e uid s1 = Inr (set_file (restored_from now e f) s1, restored_from now e f)"
    by (simp add: restored_file_def src restored_from_def Let_def)
  obtain d failed where d: "sync_write (mt_root mt) (mt_fails mt) ws (ff_parent_path f) (ff_name f) (ff_content (restored_from now e f))
      (is_directory f) (disk s) = (d, failed)" by force
  note a2 = a1 [unfolded free rest, simplified, unfolded m(2)]
  show thesis
  proof (cases failed)
    case True
    then show ?thesis using a2 d m(1,3)
      by (intro that [OF v f in_s _ d refl]) (use free in \<open>auto simp: scalar_one_None\<close>)
  next
    case False
    then show ?thesis using a2 d m(1,3)
      by (intro that [OF v f in_s _ d refl]) (use free in \<open>auto simp: scalar_one_None set_file_def split: if_splits\<close>)
  qed
qed

text \<open>A write at a place where no file lives disturbs none.\<close>

lemma tree_put_other:
  assumes "tree_ok root L d" "put_text target c d = (d', False)" "resolve target \<notin> place_on root ` spot ` L"
  shows "tree_ok root L d'"
proof -
  have "disk.holds d' (mirror_of root L)"
    using assms put_text_content [OF assms(2)] unfolding tree_ok_def disk.holds_def mirror_of_def by force
  with assms(1) show ?thesis by (simp add: tree_ok_def)
qed

lemma source_row: "source_of e s = Some f \<Longrightarrow> f \<in> set (fornix_files s)"
  by (auto simp: source_of_def get_row_def dest: first_where_SomeD split: if_splits)

lemma restore_mirrored:
  assumes "mirrored (mt_root mt) s" "hub_handlers hs" "restore_vault_entry mt hs now ws eid uid x_org s = (t, r)"
    and guard: "restorable ws eid s"
  shows "mirrored (mt_root mt) t"
proof (cases "t = s")
  case False
  have "\<forall>s1 v e. get_or_create_vault now ws s = Inr (s1, v) \<and>
      filter (\<lambda>e. row_id e = eid \<and> ve_vault_id e = row_id v \<and> live e) (vault_entries s) = [e] \<longrightarrow> source_of e s \<noteq> None"
    using guard filter_oneD by (force simp: restorable_def)
  from assms(3) disjI1 [OF False] this show ?thesis
  proof (cases rule: restore_entryD)
    case (1 s1 v e f d failed s2)
    note v = vault_made [OF 1(1)]
    let ?f = "restored_from now e f"
    have f: "ff_workspace_id f = ws" "\<not> live f" "\<not> is_directory f" "has_parent ws (ff_parent_path f) (live_rows s)"
      using guard 1(2) filter_oneD [OF 1(3)] by (auto simp: restorable_def)
    have rows: "\<forall>g \<in> set (fornix_files s). canonical_file g" "tree_ok (mt_root mt) (live_rows s) (disk s)"
      using assms(1) by (simp_all add: mirrored_def)
    have fin: "f \<in> set (fornix_files s)" using source_row [OF 1(2)] .
    have can: "canonical_file ?f" "canonical_name ws" "canonical_parent (ff_parent_path f)" "canonical_name (ff_name f)"
      using rows(1) fin f(1) by (auto simp: canonical_file_def)
    have spot: "spot ?f = (ws, comps (ff_parent_path f) @ [ff_name f])" using f(1) by (simp add: spot_def row_path_def)
    have "\<not> at_path ws (ff_parent_path f) (ff_name f) g" if "g \<in> set (fornix_files s)" for g
    proof (cases "row_id g = row_id f")
      case True
      then have "g = f" using assms(1) fin that by (auto simp: mirrored_def distinct_map dest: inj_onD)
      then show ?thesis using f(2) by (simp add: at_path_def)
    qed (use 1(4) that in \<open>auto simp: filter_empty_conv\<close>)
    then have new: "spot ?f \<notin> spot ` live_rows s" unfolding spot using rows(1) can(3) by (intro no_row_at) auto
    have tree: "tree_rows (insert ?f (live_rows s))"
      using rows(2) can(1) new f(1,4) unfolding tree_ok_def has_parent_def by (intro tree_rows_insert) auto
    obtain target where target: "mirror_abs_path (mt_root mt) ws (ff_parent_path f) (ff_name f) = Some target"
      "\<not> ends_sep target" "resolve target = place_on (mt_root mt) (spot ?f)"
      using mirror_canonical [OF can(2-4)] unfolding spot .
    show ?thesis
    proof (cases failed)
      case True
      have "content_at d q = content_at (disk s) q" for q
        by (rule sync_write_fails) (use 1(5) True in simp)
      with v(5) show ?thesis by (intro raise_sync_mirrored [OF 1(7) [OF True] assms(1,2)])
    next
      case ok: False
      have put: "put_text target (text_of ?f) (disk s) = (d, False)"
        using 1(5) ok target(1) f(3) by (simp add: sync_write_def text_of_def split: if_splits)
      show ?thesis
      proof (cases "uq_fornix_files_path (fornix_files s2)")
        case True
        have "live_rows s - {f} = live_rows s" using f(2) by (auto simp: live_rows_def)
        then have "mirrored (mt_root mt) s2"
          using tree_put [OF rows(2) tree new _ put target(3)] f(3) can(1) fin v unfolding 1(6)
          by (intro mirrored_set [OF assms(1) fin, of ?f]) (simp_all add: set_file_def)
        then show ?thesis using 1(9) [OF ok True] emit_mirrored [OF assms(2)] by simp
      next
        case False
        have "tree_ok (mt_root mt) (live_rows s) d"
          by (rule tree_put_other [OF rows(2) put]) (use target(3) new in auto)
        then have "mirrored (mt_root mt) (s\<lparr>disk := d\<rparr>)" using assms(1) by (simp add: mirrored_def live_rows_def)
        then show ?thesis using 1(8) [OF ok False] by simp
      qed
    qed
  qed
qed (use assms(1) in simp)

text \<open>A pod's write.\<close>

lemma split_hub_path_eq: "split_hub_path p = Some x \<Longrightarrow> split_parent_path (Some p) = x"
  by (cases "strip_sep p = []"; cases p) (simp_all add: split_hub_path_def split_parent_path_def Let_def, simp add: strip_sep_def rstrip_sep_def)

lemma insert_sharedD:
  assumes "insert_shared now b parent name s = Inr (t, f)"
  obtains s1 h where "get_or_create_central_hub now (hw_workspace_id b) s = Inr (s1, h)"
    "f = shared_file (new_id (take_id s1)) now (row_id h) b parent name (new_id s1)"
    "t = (take_id (take_id s1))\<lparr>fornix_files := fornix_files s1 @ [f]\<rparr>"
    "filter (at_path (hw_workspace_id b) parent name) (fornix_files s) = []"
    "shared_parent (hw_workspace_id b) parent s = Inr ()"
proof -
  note a = assms [unfolded insert_shared_def Let_def]
  have valid: "shared_parent (hw_workspace_id b) parent s = Inr ()"
    using a by (cases "shared_parent (hw_workspace_id b) parent s") simp_all
  have new: "scalar_one_or_none (filter (at_path (hw_workspace_id b) parent name) (fornix_files s)) = Inr None"
    using a valid
    by (cases "scalar_one_or_none (filter (at_path (hw_workspace_id b) parent name) (fornix_files s))")
      (simp_all split: option.splits)
  obtain s1 h where hub: "get_or_create_central_hub now (hw_workspace_id b) s = Inr (s1, h)"
    using a valid new by (cases "get_or_create_central_hub now (hw_workspace_id b) s") auto
  show thesis
    by (rule that [OF hub]) (use a valid new hub in \<open>auto simp: scalar_one_None split: if_splits\<close>)
qed

lemma shared_validated: "shared_parent ws parent s = Inr () \<Longrightarrow> validate_parent_directory ws parent s = Inr ()"
proof (cases parent)
  case (Some p)
  assume a: "shared_parent ws parent s = Inr ()"
  then obtain x where "split_hub_path p = Some x" using Some by (cases "split_hub_path p") (simp_all add: shared_parent_def)
  with a Some split_hub_path_eq [OF this] show ?thesis
    by (simp add: shared_parent_def validate_parent_directory_def)
qed (simp add: validate_parent_directory_def)

lemma insert_shared_effect:
  assumes "insert_shared now b parent name s = Inr (t, f)"
  shows "fornix_files t = fornix_files s @ [f]" "disk t = disk s" "live f" "ff_workspace_id f = hw_workspace_id b"
    "ff_parent_path f = parent" "ff_name f = name" "ff_content f = Some (hw_text b)" "\<not> is_directory f"
    "\<forall>g \<in> set (fornix_files s). \<not> at_path (hw_workspace_id b) parent name g"
    "validate_parent_directory (hw_workspace_id b) parent s = Inr ()"
    "id_source t = id_source s" "id_next s < id_next t" "row_id f \<in> id_source s ` {id_next s ..< id_next t}"
proof -
  obtain s1 h where r: "get_or_create_central_hub now (hw_workspace_id b) s = Inr (s1, h)"
    "f = shared_file (new_id (take_id s1)) now (row_id h) b parent name (new_id s1)"
    "t = (take_id (take_id s1))\<lparr>fornix_files := fornix_files s1 @ [f]\<rparr>"
    "filter (at_path (hw_workspace_id b) parent name) (fornix_files s) = []"
    "shared_parent (hw_workspace_id b) parent s = Inr ()"
    using insert_sharedD [OF assms] .
  note made = hub_made [OF r(1)]
  show "fornix_files t = fornix_files s @ [f]" "disk t = disk s" "id_source t = id_source s" "id_next s < id_next t"
    using r(3) made by auto
  show "live f" "ff_workspace_id f = hw_workspace_id b" "ff_parent_path f = parent" "ff_name f = name"
    "ff_content f = Some (hw_text b)" "\<not> is_directory f"
    unfolding r(2) by (simp_all add: shared_file_def live_def)
  show "\<forall>g \<in> set (fornix_files s). \<not> at_path (hw_workspace_id b) parent name g" using r(4) by (simp add: filter_empty_conv)
  show "validate_parent_directory (hw_workspace_id b) parent s = Inr ()" by (rule shared_validated [OF r(5)])
  have "row_id f = id_source s (id_next s1 + 1)" "id_next s \<le> id_next s1" "id_next t = id_next s1 + 2"
    using r(2,3) made by (auto simp: shared_file_def new_id_def take_id_def)
  then show "row_id f \<in> id_source s ` {id_next s ..< id_next t}" by auto
qed

lemma hub_write_sharedD:
  assumes "hub_write_shared mt hs now b s = (t, r)" "t \<noteq> s"
  obtains parent name s1 f d where "split_hub_path (hw_path b) = Some (parent, name)" "insert_shared now b parent name s = Inr (s1, f)"
    "sync_write (mt_root mt) (mt_fails mt) (hw_workspace_id b) parent name (Some (hw_text b)) False (disk s) = (d, True)"
    "raise_sync_failed mt hs now (hw_workspace_id b) (row_id f) (id_next s1) d s = (t, r)"
  | parent name s1 f d a where "split_hub_path (hw_path b) = Some (parent, name)" "insert_shared now b parent name s = Inr (s1, f)"
    "sync_write (mt_root mt) (mt_fails mt) (hw_workspace_id b) parent name (Some (hw_text b)) False (disk s) = (d, False)"
    "t = fst (emit hs now a (s1\<lparr>disk := d\<rparr>))" "r = Inr f"
proof -
  note a = assms(1) [unfolded hub_write_shared_def]
  obtain parent name where p: "split_hub_path (hw_path b) = Some (parent, name)"
    using a assms(2) by (cases "split_hub_path (hw_path b)") auto
  obtain s1 f where f: "insert_shared now b parent name s = Inr (s1, f)"
    using a assms(2) p by (cases "insert_shared now b parent name s") auto
  obtain d failed where d: "sync_write (mt_root mt) (mt_fails mt) (hw_workspace_id b) parent name (Some (hw_text b)) False (disk s) = (d, failed)"
    by force
  note r = a [unfolded p, simplified, unfolded f, simplified, unfolded insert_shared_effect(2) [OF f] d]
  show thesis
  proof (cases failed)
    case True with r show ?thesis by (intro that(1) [OF p f]) (auto simp: d)
  next
    case False with r show ?thesis by (intro that(2) [OF p f]) (auto simp: d)
  qed
qed

lemma hub_write_mirrored:
  assumes "mirrored (mt_root mt) s" "hub_handlers hs" "hub_write_shared mt hs now b s = (t, r)"
    and can: "canonical_name (hw_workspace_id b)"
      "\<And>parent name. split_hub_path (hw_path b) = Some (parent, name) \<Longrightarrow> canonical_parent parent \<and> canonical_name name"
  shows "mirrored (mt_root mt) t"
proof (cases "t = s")
  case False
  from assms(3) False show ?thesis
  proof (cases rule: hub_write_sharedD)
    case (1 parent name s1 f d)
    have "content_at d q = content_at (disk s) q" for q by (rule sync_write_fails [OF 1(3)])
    with insert_shared_effect(12) [OF 1(2)] show ?thesis by (intro raise_sync_mirrored [OF 1(4) assms(1,2)]) simp_all
  next
    case (2 parent name s1 f d a)
    note e = insert_shared_effect [OF 2(2)]
    have c: "canonical_parent parent" "canonical_name name" using can(2) [OF 2(1)] by blast+
    have f: "canonical_file f" "spot f = (hw_workspace_id b, comps parent @ [name])" "text_of f = hw_text b"
      using c can(1) e(4-7) by (simp_all add: canonical_file_def spot_def row_path_def text_of_def str_or_def)
    have rows: "\<forall>g \<in> set (fornix_files s). canonical_file g" "tree_ok (mt_root mt) (live_rows s) (disk s)"
      using assms(1) by (simp_all add: mirrored_def)
    have new: "spot f \<notin> spot ` live_rows s" unfolding f(2) by (rule no_row_at [OF e(9) rows(1) c(1)])
    have tree: "tree_rows (insert f (live_rows s))"
      using rows(2) f new validated_parent [OF e(10) c(1)] e(4,5) unfolding tree_ok_def has_parent_def
      by (intro tree_rows_insert) auto
    obtain target where target: "mirror_abs_path (mt_root mt) (hw_workspace_id b) parent name = Some target"
      "resolve target = place_on (mt_root mt) (spot f)"
      using mirror_canonical [OF can(1) c] unfolding f(2) by metis
    have "put_text target (text_of f) (disk s) = (d, False)"
      using 2(3) target(1) f(3) by (cases "hw_text b") (simp_all add: sync_write_def split: if_splits)
    from tree_put [OF rows(2) tree new e(8) this target(2)]
    have "mirrored (mt_root mt) (s1\<lparr>disk := d\<rparr>)"
      using e f by (intro mirrored_insert [OF assms(1), of _ f]) simp_all
    then show ?thesis using 2(4) emit_mirrored [OF assms(2)] by simp
  qed
qed (use assms(1) in simp)

text \<open>
  Requests on the tree with canonical paths, and restores of entries that are restorable; every one may
  fail, the mount included.
\<close>

inductive hub_step :: "string \<Rightarrow> 'z brain_scheme \<Rightarrow> 'z brain_scheme \<Rightarrow> bool" for root where
  hub_create: "mt_root mt = root \<Longrightarrow> hub_handlers hs \<Longrightarrow> canonical_name ws \<Longrightarrow> canonical_parent (fc_parent_path b) \<Longrightarrow>
    canonical_name (fc_name b) \<Longrightarrow> create_file mt hs now ws b uid x_org s = (t, r) \<Longrightarrow> hub_step root s t"
| hub_delete: "mt_root mt = root \<Longrightarrow> hub_handlers hs \<Longrightarrow> delete_file mt hs now ws fid uid x_org s = (t, r) \<Longrightarrow> hub_step root s t"
| hub_archive: "mt_root mt = root \<Longrightarrow> hub_handlers hs \<Longrightarrow> archive_file_to_vault mt hs now ws fid uid x_org s = (t, r') \<Longrightarrow>
    hub_step root s t"
| hub_restore: "mt_root mt = root \<Longrightarrow> hub_handlers hs \<Longrightarrow> restorable ws eid s \<Longrightarrow>
    restore_vault_entry mt hs now ws eid uid x_org s = (t, r) \<Longrightarrow> hub_step root s t"
| hub_pod_write: "mt_root mt = root \<Longrightarrow> hub_handlers hs \<Longrightarrow> canonical_name (hw_workspace_id p) \<Longrightarrow>
    (\<And>parent name. split_hub_path (hw_path p) = Some (parent, name) \<Longrightarrow> canonical_parent parent \<and> canonical_name name) \<Longrightarrow>
    internal_hub_write mt tok header hs now p s = (t, r'') \<Longrightarrow> hub_step root s t"

lemma internal_write_mirrored:
  assumes "mirrored (mt_root mt) s" "hub_handlers hs" "internal_hub_write mt tok header hs now b s = (t, r)"
    and can: "canonical_name (hw_workspace_id b)"
      "\<And>parent name. split_hub_path (hw_path b) = Some (parent, name) \<Longrightarrow> canonical_parent parent \<and> canonical_name name"
  shows "mirrored (mt_root mt) t"
proof -
  have "t = s \<or> (\<exists>a. t = fst (emit hs now a s)) \<or> (\<exists>r. hub_write_shared mt hs now b s = (t, r))"
    using assms(3) unfolding internal_hub_write_def hub_write_work_def
    by (auto split: sum.splits if_splits option.splits prod.splits)
  then show ?thesis using assms(1) emit_mirrored [OF assms(2,1)] hub_write_mirrored [OF assms(1,2) _ can] by blast
qed

lemma step_mirrored: "hub_step root s t \<Longrightarrow> mirrored root s \<Longrightarrow> mirrored root t"
proof (induction rule: hub_step.induct)
  case (hub_create mt hs ws b now uid x_org s t r)
  show ?case by (rule create_file_mirrored [OF _ hub_create(2,6), unfolded hub_create(1)]) (use hub_create in simp_all)
next
  case (hub_delete mt hs now ws fid uid x_org s t r)
  show ?case by (rule delete_file_mirrored [OF _ hub_delete(2,3), unfolded hub_delete(1)]) (use hub_delete in simp_all)
next
  case (hub_archive mt hs now ws fid uid x_org s t r')
  show ?case by (rule archive_file_mirrored [OF _ hub_archive(2,3), unfolded hub_archive(1)]) (use hub_archive in simp_all)
next
  case (hub_restore mt hs ws eid s now uid x_org t r)
  show ?case by (rule restore_mirrored [OF _ hub_restore(2,4,3), unfolded hub_restore(1)]) (use hub_restore in simp_all)
next
  case (hub_pod_write mt hs p tok header now s t r'')
  show ?case by (rule internal_write_mirrored [OF _ hub_pod_write(2,5,3), unfolded hub_pod_write(1)]) (use hub_pod_write in blast)+
qed

end
