(* ===== verification/Hub_Laws.thy ===== *)
theory Hub_Laws
  imports Hub_Props
begin

text \<open>
  The properties of the hub's file tree and their witnesses: what the mirror promises along runs, the
  round trip through the vault, and three ways in which it fails.
\<close>

section \<open>Pods read what the rows say\<close>

lemma split_hub_canonical:
  assumes "list_all canonical_name (cs @ [c])"
  shows "split_hub_path (dir_path (cs @ [c])) = Some (parent_of cs, c)"
proof -
  obtain e es where e: "cs @ [c] = e # es" by (cases "cs @ [c]") auto
  have "e \<noteq> []" using assms unfolding e by (simp add: canonical_name_def)
  then have "strip_sep (dir_path (cs @ [c])) \<noteq> []" using strip_dir_path [of e es] assms unfolding e by simp
  then have "split_hub_path (dir_path (cs @ [c])) \<noteq> None" by (simp add: split_hub_path_def Let_def)
  then show ?thesis using split_hub_path_eq [of "dir_path (cs @ [c])"] split_parent_canonical [OF assms] by (cases "split_hub_path (dir_path (cs @ [c]))") auto
qed

lemma live_content:
  assumes "mirrored root s" "f \<in> live_rows s" "\<not> is_directory f"
  shows "content_at (disk s) (place_on root (spot f)) = Some (text_of f)"
  using assms by (auto simp: mirrored_def tree_ok_def disk.holds_def mirror_of_def)

lemma read_mirrored:
  assumes "mirrored root s" "f \<in> live_rows s" "\<not> is_directory f"
  shows "read_ref root (ff_workspace_id f) \<lparr>hr_scope = ''hub'', hr_path = dir_path (row_path f), hr_label = l\<rparr> s =
    Inr (dir_path (row_path f), text_of f)"
proof -
  have f: "canonical_file f" using assms(1,2) by (auto simp: mirrored_def live_rows_def)
  then have can: "canonical_name (ff_workspace_id f)" "canonical_parent (ff_parent_path f)" "canonical_name (ff_name f)"
    by (simp_all add: canonical_file_def)
  note path = target_path_canonical(2) [OF f]
  have par: "parent_of (comps (ff_parent_path f)) = ff_parent_path f" using can(2) by (simp add: canonical_parent_def)
  have split: "split_hub_path (dir_path (row_path f)) = Some (ff_parent_path f, ff_name f)"
    using split_hub_canonical [OF path [unfolded row_path_def]] unfolding row_path_def par .
  obtain target where target: "mirror_abs_path root (ff_workspace_id f) (ff_parent_path f) (ff_name f) = Some target"
    "\<not> ends_sep target" "resolve target = place_on root (spot f)"
    using mirror_canonical [OF can] by (auto simp: spot_def row_path_def)
  have "read_text target (disk s) = Some (text_of f)"
    unfolding content_read [OF target(2)] target(3) by (rule live_content [OF assms])
  then show ?thesis using no_traversal(2) [OF path] split target(1) by (simp add: read_ref_def del: dir_path_simps)
qed


section \<open>There and back\<close>

lemma restored_same:
  assumes "live f"
  shows "restored_from later (new_entry i now vid f) (soft_delete now f) =
    f\<lparr>updated_at := updated_at (restored_from later (new_entry i now vid f) (soft_delete now f))\<rparr>"
proof -
  have "archived_text (archived_value (new_entry i now vid f)) ''content'' = ff_content f"
    by (cases "ff_content f") (simp_all add: archived_text_def archived_value_def new_entry_def jget_def opt_json_def)
  then show ?thesis using assms
    by (intro fornix_file.equality) (simp_all add: soft_delete_def touch_def live_def split: option.splits)
qed

lemma archive_then_vault:
  assumes "get_or_create_vault now ws s = Inr (s1, v)" "vaults t = vaults s1"
  shows "get_or_create_vault later ws t = Inr (t, v)"
proof -
  have "scalar_one_or_none (filter (\<lambda>v. va_workspace_id v = ws \<and> live v) (vaults s1)) = Inr (Some v)"
    using assms(1)
    by (auto simp: get_or_create_vault_def Let_def live_def scalar_one_or_none_def split: sum.splits option.splits if_splits list.splits)
  then show ?thesis using assms(2) by (simp add: get_or_create_vault_def)
qed

lemma update_where_twice:
  assumes "distinct (map row_id rows)" "f \<in> set rows" "row_id g = row_id f" "row_id h = row_id f"
  shows "update_where (\<lambda>r. row_id r = row_id f) (\<lambda>_. h) (update_where (\<lambda>r. row_id r = row_id f) (\<lambda>_. g) rows) =
    update_where (\<lambda>r. row_id r = row_id f) (\<lambda>_. h) rows"
  by (simp add: update_where_def assms)

lemma entry_found:
  assumes "scalar_one_or_none (filter P xs) = Inr (Some e)" "x \<in> set xs" "P x"
  shows "e = x"
proof -
  have "x \<in> set (filter P xs)" using assms(2,3) by simp
  then show ?thesis using scalar_one_SomeD [OF assms(1)] by simp
qed

lemma get_row_updated:
  "r \<in> set rows \<Longrightarrow> row_id r = i \<Longrightarrow> row_id g = i \<Longrightarrow> get_row (update_where (\<lambda>r. row_id r = i) (\<lambda>_. g) rows) i = Some g"
  unfolding get_row_def by (induction rows) auto


section \<open>Where the mirror fails\<close>

text \<open>C39. The name of a new file may be an absolute path: the file is then written there on the host, wherever
  the mount is.\<close>

theorem absolute_name_escapes:
  assumes "hub_handlers hs" and "fc_name b = ''/'' @ p" and "\<not> truthy (fc_parent_path b)" and "\<not> fc_is_directory b"
    and "create_file mt hs now ws b uid x_org s = (t, Inr f)"
  shows "content_at (disk t) (resolve p) = Some (str_or (fc_content b) [])"
proof -
  obtain s1 where s1: "insert_file now ws b uid x_org s = Inr (s1, f)"
    "\<exists>d. sync_write (mt_root mt) (mt_fails mt) ws (fc_parent_path b) (fc_name b) (fc_content b) False (disk s1) = (d, False) \<and>
       t = fst (emit hs now (created_event ws uid f) (s1\<lparr>disk := d\<rparr>))"
    using assms(4,5) by (auto simp: create_file_def raise_sync_failed_def split: sum.splits prod.splits bool.splits)
  then obtain d where d: "sync_write (mt_root mt) (mt_fails mt) ws (fc_parent_path b) (fc_name b) (fc_content b) False (disk s) = (d, False)"
    "disk t = d"
    using insert_file_effect(2) [OF s1(1)] emit_hub(2) [OF assms(1)] by auto
  obtain target where "mirror_abs_path (mt_root mt) ws (fc_parent_path b) (fc_name b) = Some target"
    "put_text target (str_or (fc_content b) []) (disk s) = (d, False)"
    using d(1) by (auto simp: sync_write_def split: option.splits if_splits)
  moreover from this(1) have "target = ''/'' @ p"
    using assms(2,3) by (auto simp: mirror_abs_path_def path_join_def starts_with_def Let_def split: if_splits)
  ultimately show ?thesis using put_text_content [of target _ "disk s" d] d(2) by simp
qed

lemma basename_head: "\<not> starts_with ''/'' (basename p)"
  using basename_word [of p] by (cases "basename p") (auto simp: starts_with_def)

lemma moved_away:
  assumes "shutil_move src dst d = (d', False)" "\<not> ends_sep dst" "dst \<noteq> []"
    "\<not> prefix (resolve dst) q" "prefix (resolve src) q" "resolve dst \<noteq> resolve src" "q \<noteq> []"
  shows "content_at d' q = None"
proof -
  have "resolve (path_join dst (basename (rstrip_sep src))) = resolve dst @ resolve (basename (rstrip_sep src))"
    using assms(2,3) basename_head by (simp add: path_join_def)
  then have "\<not> prefix (resolve (path_join dst (basename (rstrip_sep src)))) q" using assms(4) by (auto simp: prefix_def)
  then have "d' q = None"
    using assms(1,4-6) by (auto simp: shutil_move_def rename_tree_def Let_def split: if_splits option.splits)
  then show ?thesis using assms(7) by (simp add: content_at_def look_def)
qed

lemma renamed:
  assumes "update_file mt hs now ws fid \<lparr>fu_name = Some (Some n), fu_parent_path = None\<rparr> uid x_org s = (t, Inr g)"
    "find_file ws fid s = Inr f" "n \<noteq> ff_name f" "hub_handlers hs"
  shows "sync_move (mt_root mt) (mt_fails mt) ws (ff_parent_path f) (ff_name f) (ff_parent_path f) (Some n) (disk s) = (disk t, False)"
    "fornix_files t = fornix_files (set_file g s)" "row_id g = row_id f"
proof -
  let ?g = "modified now f (f\<lparr>ff_name := n\<rparr>)"
  note a = assms(1) [unfolded update_file_def assms(2) Let_def]
  have perm: "require_workspace_permission uid ws ''can_edit_workspace'' x_org s = Inr ()"
    using a by (cases "require_workspace_permission uid ws ''can_edit_workspace'' x_org s") auto
  obtain d failed where d: "sync_move (mt_root mt) (mt_fails mt) ws (ff_parent_path f) (ff_name f) (ff_parent_path f) (Some n) (disk s) = (d, failed)"
    by force
  have ok: "\<not> failed" using a perm d assms(3) by (auto simp: raise_sync_failed_def)
  have "uq_fornix_files_path (fornix_files (set_file ?g s))"
    using a perm d assms(3) ok by (auto split: if_splits)
  then have r: "t = fst (emit hs now (user_event FORNIX_FILE_UPDATED ''fornix_file'' uid (Some (row_id f))
      [(''workspace_id'', JStr ws), (''file_id'', JStr fid)]) ((set_file ?g s)\<lparr>disk := d\<rparr>))" "g = ?g"
    using a perm d assms(3) ok by auto
  show "sync_move (mt_root mt) (mt_fails mt) ws (ff_parent_path f) (ff_name f) (ff_parent_path f) (Some n) (disk s) = (disk t, False)"
    using d ok r(1) emit_hub(2) [OF assms(4)] by simp
  show "fornix_files t = fornix_files (set_file g s)" using r emit_hub(1) [OF assms(4)] by simp
  show "row_id g = row_id f" using r(2) by (simp add: modified_field)
qed

text \<open>C40. Renaming a directory strands the files in it: their rows stay live under the old path, where a pod does
  not find them any more.\<close>

theorem directory_rename_strands_files:
  assumes "mirrored (mt_root mt) s" and "hub_handlers hs"
    and "find_file ws fid s = Inr g" and "is_directory g" and "canonical_name n" and "n \<noteq> ff_name g"
    and "update_file mt hs now ws fid \<lparr>fu_name = Some (Some n), fu_parent_path = None\<rparr> uid x_org s = (t, Inr g')"
    and "f \<in> set (fornix_files s)" and "live f" and "\<not> is_directory f"
    and "ff_workspace_id f = ws" and "ff_parent_path f = Some (target_path g)"
  shows "f \<in> set (fornix_files t) \<and>
    read_ref (mt_root mt) ws \<lparr>hr_scope = ''hub'', hr_path = dir_path (row_path f), hr_label = l\<rparr> t =
      Inl (NotFoundError ''internal.hub.file_not_found'' ''errors.internal.hub.file_not_found'')"
proof
  note r = renamed [OF assms(7,3,6,2)] and g = find_fileD [OF assms(3)]
  have dist: "distinct (map row_id (fornix_files s))" and can_all: "\<forall>f \<in> set (fornix_files s). canonical_file f"
    using assms(1) by (simp_all add: mirrored_def)
  have "f \<noteq> g" using assms(4,10) by blast
  then show "f \<in> set (fornix_files t)" unfolding r(2) live_rows_set(2) [OF dist g(1) r(3)] using assms(8) by simp
  have f: "canonical_file f" "canonical_name ws" "canonical_parent (ff_parent_path f)" "canonical_name (ff_name f)"
    "canonical_parent (ff_parent_path g)" "canonical_name (ff_name g)"
    using can_all assms(8,11) g(1) by (auto simp: canonical_file_def)
  have path: "row_path f = row_path g @ [ff_name f]"
    using target_path_canonical [OF can_all [rule_format, OF g(1)]] assms(12) by (simp add: row_path_def)
  obtain src where src: "mirror_abs_path (mt_root mt) ws (ff_parent_path g) (ff_name g) = Some src" "\<not> ends_sep src"
    "resolve src = place_on (mt_root mt) (ws, row_path g)"
    using mirror_canonical [OF f(2,5,6)] unfolding row_path_def .
  obtain dst where dst: "mirror_abs_path (mt_root mt) ws (ff_parent_path g) n = Some dst" "\<not> ends_sep dst"
    "resolve dst = place_on (mt_root mt) (ws, comps (ff_parent_path g) @ [n])"
    using mirror_canonical [OF f(2,5) assms(5)] .
  obtain d1 where d1: "shutil_move src dst d1 = (disk t, False)"
    using r(1) src(1) dst(1) by (auto simp: sync_move_def split: if_splits prod.splits bool.splits)
  have "dst \<noteq> []" using dst(3) by (auto simp: place_on_def)
  have gone: "content_at (disk t) (place_on (mt_root mt) (ws, row_path f)) = None"
  proof (rule moved_away [OF d1 dst(2) \<open>dst \<noteq> []\<close>])
    show "\<not> prefix (resolve dst) (place_on (mt_root mt) (ws, row_path f))"
      using assms(6) unfolding dst(3) path by (auto simp: place_on_prefix row_path_def)
    show "prefix (resolve src) (place_on (mt_root mt) (ws, row_path f))" unfolding src(3) path by (simp add: place_on_prefix)
    show "resolve dst \<noteq> resolve src" using assms(6) unfolding dst(3) src(3) by (simp add: row_path_def)
    show "place_on (mt_root mt) (ws, row_path f) \<noteq> []" by (simp add: place_on_def)
  qed
  obtain target where target: "mirror_abs_path (mt_root mt) ws (ff_parent_path f) (ff_name f) = Some target" "\<not> ends_sep target"
    "resolve target = place_on (mt_root mt) (ws, row_path f)"
    using mirror_canonical [OF f(2,3,4)] unfolding row_path_def .
  have names: "list_all canonical_name (row_path f)" using target_path_canonical(2) [OF f(1)] .
  have "parent_of (comps (ff_parent_path f)) = ff_parent_path f" using f(3) by (simp add: canonical_parent_def)
  then have "split_hub_path (dir_path (row_path f)) = Some (ff_parent_path f, ff_name f)"
    using split_hub_canonical [OF names [unfolded row_path_def]] unfolding row_path_def by simp
  moreover have "read_text target (disk t) = None" unfolding content_read [OF target(2)] target(3) by (rule gone)
  ultimately show "read_ref (mt_root mt) ws \<lparr>hr_scope = ''hub'', hr_path = dir_path (row_path f), hr_label = l\<rparr> t =
      Inl (NotFoundError ''internal.hub.file_not_found'' ''errors.internal.hub.file_not_found'')"
    using no_traversal(2) [OF names] target(1) by (simp add: read_ref_def del: dir_path_simps)
qed

section \<open>A tree to evaluate on\<close>

definition filed_row :: "nat \<Rightarrow> string \<Rightarrow> string option \<Rightarrow> string option \<Rightarrow> fornix_file" where
  "filed_row n name parent content = \<lparr>row_id = sample_ids n, created_at = 0, updated_at = 0, deleted_at = None,
     ff_workspace_id = ''w'', ff_central_hub_id = ''h'', ff_name = name, ff_parent_path = parent, storage_key = sample_ids n,
     ff_content_type = None, file_size = None, ff_content = content, is_directory = (content = None),
     uploader_user_id = Some ''u'', uploader_instance_id = None\<rparr>"

definition filed :: brain where
  "filed = (cluster.extend lively (brain.fields
     [filed_row 2 ''docs'' None None, filed_row 3 ''a'' (Some ''/docs'') (Some ''hi'')]
     [\<lparr>row_id = ''v'', created_at = 0, updated_at = 0, deleted_at = None, va_workspace_id = ''w''\<rparr>] [] [] []
     [[''mnt''] \<mapsto> Dir, [''mnt'', ''w''] \<mapsto> Dir, [''mnt'', ''w'', ''shared''] \<mapsto> Dir,
      [''mnt'', ''w'', ''shared'', ''docs''] \<mapsto> Dir, [''mnt'', ''w'', ''shared'', ''docs'', ''a''] \<mapsto> File ''hi'']))
     \<lparr>central_hubs := [new_central_hub ''h'' 0 ''w'']\<rparr>"

definition mnt :: mount where
  "mnt = \<lparr>mt_root = ''/mnt'', mt_fails = False, mt_error = []\<rparr>"

lemma filed_mirrored: "mirrored ''/mnt'' filed"
proof -
  let ?docs = "filed_row 2 ''docs'' None None" and ?a = "filed_row 3 ''a'' (Some ''/docs'') (Some ''hi'')"
  have rows: "fornix_files filed = [?docs, ?a]" "id_source filed = sample_ids" "id_next filed = 10"
    by (simp_all add: filed_def cluster.defs brain.defs lively_def sample_cluster_def sample_process_def empty_db_def
        db.defs world.defs process.defs)
  have live: "live_rows filed = {?docs, ?a}" by (auto simp: live_rows_def rows filed_row_def live_def)
  have spots: "spot ?docs = (''w'', [''docs''])" "spot ?a = (''w'', [''docs'', ''a''])" "comps (ff_parent_path ?docs) = []"
    "comps (ff_parent_path ?a) = [''docs'']" "canonical_file ?docs" "canonical_file ?a"
    "content_at (disk filed) (place_on ''/mnt'' (spot ?a)) = Some (text_of ?a)" "is_directory ?docs" "\<not> is_directory ?a"
    "ff_workspace_id ?a = ''w''"
    by code_simp+
  have "tree_ok ''/mnt'' {?docs, ?a} (disk filed)"
    using spots by (auto simp: tree_ok_def tree_rows_def disk.holds_def mirror_of_def)
  moreover have "distinct (map row_id [?docs, ?a])" "row_id ` set [?docs, ?a] \<subseteq> sample_ids ` {..< 10}"
    by (simp_all add: filed_row_def sample_ids_ok inj_eq [OF sample_ids_ok(1)])
  ultimately show ?thesis using sample_ids_ok(1) spots(5,6) unfolding mirrored_def live rows by simp
qed

definition entry_a :: vault_entry where
  "entry_a = new_entry (sample_ids 10) 9 ''v'' (filed_row 3 ''a'' (Some ''/docs'') (Some ''hi''))"

definition archived_a :: "event_row list \<Rightarrow> nat \<Rightarrow> brain" where
  "archived_a evs n = filed\<lparr>fornix_files := [filed_row 2 ''docs'' None None, soft_delete 9 (filed_row 3 ''a'' (Some ''/docs'') (Some ''hi''))],
     vault_entries := [entry_a], disk := fst (sync_remove ''/mnt'' False ''w'' (Some ''/docs'') ''a'' (disk filed)),
     events := evs, id_next := n\<rparr>"

lemma archived_sample:
  "\<exists>evs n. archive_file_to_vault mnt [] 9 ''w'' (sample_ids 3) ''u'' None filed = (archived_a evs n, Inr entry_a)"
proof -
  let ?a = "filed_row 3 ''a'' (Some ''/docs'') (Some ''hi'')" and ?v = "\<lparr>row_id = ''v'', created_at = 0, updated_at = 0, deleted_at = None, va_workspace_id = ''w''\<rparr>"
  have f: "require_workspace_permission ''u'' ''w'' ''can_edit_workspace'' None filed = Inr ()"
    "find_file ''w'' (sample_ids 3) filed = Inr ?a" "\<not> is_directory ?a" "new_id filed = sample_ids 10"
    "\<not> snd (sync_remove ''/mnt'' False ''w'' (ff_parent_path ?a) (ff_name ?a) (disk filed))"
    "ff_parent_path ?a = Some ''/docs''" "ff_name ?a = ''a''"
    by code_simp+
  obtain d where d: "sync_remove ''/mnt'' False ''w'' (Some ''/docs'') ''a'' (disk filed) = (d, False)"
    using f(5-7) by (cases "sync_remove ''/mnt'' False ''w'' (Some ''/docs'') ''a'' (disk filed)") simp
  have v: "get_or_create_vault 9 ''w'' filed = Inr (filed, ?v)" "vault_entries filed = []"
    by (simp_all add: get_or_create_vault_def filed_def cluster.defs brain.defs live_def scalar_one_or_none_def)
  have set: "update_where (\<lambda>r. row_id r = row_id (soft_delete 9 ?a)) (\<lambda>_. soft_delete 9 ?a) (fornix_files filed) =
      [filed_row 2 ''docs'' None None, soft_delete 9 ?a]"
    by (simp add: filed_def cluster.defs brain.defs filed_row_def inj_eq [OF sample_ids_ok(1)])
  let ?ev = "user_event FORNIX_FILE_ARCHIVED ''fornix_file'' ''u'' (Some (sample_ids 3))
      [(''workspace_id'', JStr ''w''), (''vault_entry_id'', JNull), (''storage_key'', JStr (storage_key ?a))]"
  let ?t = "(set_file (soft_delete 9 ?a) (take_id filed))\<lparr>vault_entries := [entry_a], disk := d\<rparr>"
  have "archive_file_to_vault mnt [] 9 ''w'' (sample_ids 3) ''u'' None filed = (fst (emit [] 9 ?ev ?t), Inr entry_a)"
    unfolding archive_file_to_vault_def f(1,2) v(1) using f(3-7) d v(2)
    by (simp add: mnt_def Let_def entry_a_def)
  moreover have "fst (emit [] 9 ?ev ?t) = archived_a (events filed @ [new_event 9 ?ev ?t]) (id_next filed + 2)"
    using set d by (simp add: emit_def set_file_def take_id_def archived_a_def Let_def)
  ultimately show ?thesis by metis
qed

lemma restore_ok:
  assumes "require_workspace_permission uid ws ''can_edit_workspace'' x_org s = Inr ()" "get_or_create_vault now ws s = Inr (s, v)"
    "scalar_one_or_none (filter (\<lambda>e. row_id e = eid \<and> ve_vault_id e = row_id v \<and> live e) (vault_entries s)) = Inr (Some e)"
    "source_of e s = Some f"
    "scalar_one_or_none (filter (\<lambda>g. at_path ws (ff_parent_path f) (ff_name f) g \<and> row_id g \<noteq> row_id f) (fornix_files s)) = Inr None"
    "\<not> snd (sync_write (mt_root mt) (mt_fails mt) ws (ff_parent_path f) (ff_name f) (ff_content (restored_from now e f)) (is_directory f) (disk s))"
    "uq_fornix_files_path (fornix_files (set_file (restored_from now e f) s))"
  shows "\<exists>u g. restore_vault_entry mt hs now ws eid uid x_org s = (u, Inr g)"
proof -
  obtain d where "sync_write (mt_root mt) (mt_fails mt) ws (ff_parent_path f) (ff_name f) (ff_content (restored_from now e f)) (is_directory f) (disk s) = (d, False)"
    using assms(6) by (cases "sync_write (mt_root mt) (mt_fails mt) ws (ff_parent_path f) (ff_name f) (ff_content (restored_from now e f)) (is_directory f) (disk s)") simp
  moreover have "restored_file now ws e uid s = Inr (set_file (restored_from now e f) s, restored_from now e f)"
    using assms(4) by (simp add: restored_file_def restored_from_def Let_def)
  moreover have "restore_target e s = (ff_parent_path f, ff_name f)" using assms(4) by (simp add: restore_target_def)
  ultimately show ?thesis using assms by (simp add: restore_vault_entry_def Let_def)
qed

lemma restored_sample:
  "\<exists>u g. restore_vault_entry mnt [] 12 ''w'' (row_id entry_a) ''u'' None (archived_a evs n) = (u, Inr g)"
proof -
  let ?s = "archived_a evs n" and ?a = "soft_delete 9 (filed_row 3 ''a'' (Some ''/docs'') (Some ''hi''))"
  have "get_or_create_vault 12 ''w'' ?s = Inr (?s, hd (vaults filed))"
    by (simp add: get_or_create_vault_def archived_a_def filed_def cluster.defs brain.defs live_def scalar_one_or_none_def)
  then show ?thesis by (rule restore_ok [where e = entry_a and f = ?a, rotated]) code_simp+
qed


definition new_note :: "string \<Rightarrow> string option \<Rightarrow> file_create" where
  "new_note name parent = \<lparr>fc_name = name, fc_parent_path = parent, fc_storage_key = ''k'', fc_content_type = None,
     fc_file_size = None, fc_is_directory = False, fc_content = Some ''yo''\<rparr>"

lemma create_ok:
  assumes "is_ok (insert_file now ws b uid x_org s)"
    "\<not> snd (sync_write (mt_root mt) (mt_fails mt) ws (fc_parent_path b) (fc_name b) (fc_content b) (fc_is_directory b) (disk s))"
  shows "\<exists>t f. create_file mt hs now ws b uid x_org s = (t, Inr f)"
proof -
  obtain s1 f where f: "insert_file now ws b uid x_org s = Inr (s1, f)" using assms(1) by (auto elim!: is_okE)
  show ?thesis using assms(2) f insert_file_effect(2) [OF f]
    by (cases "sync_write (mt_root mt) (mt_fails mt) ws (fc_parent_path b) (fc_name b) (fc_content b) (fc_is_directory b) (disk s)")
      (simp add: create_file_def)
qed

lemma created:
  assumes "create_file mt hs now ws b uid x_org s = (t, Inr f)" "hub_handlers hs"
  shows "f \<in> set (fornix_files t)" "live f" "is_directory f = fc_is_directory b" "ff_content f = fc_content b"
    "ff_workspace_id f = ws" "ff_parent_path f = fc_parent_path b" "ff_name f = fc_name b"
proof -
  have "\<exists>s1 d a. insert_file now ws b uid x_org s = Inr (s1, f) \<and> t = fst (emit hs now a (s1\<lparr>disk := d\<rparr>))"
    using assms(1) by (auto simp: create_file_def raise_sync_failed_def split: sum.splits prod.splits bool.splits)
  then obtain s1 d a where r: "insert_file now ws b uid x_org s = Inr (s1, f)" "t = fst (emit hs now a (s1\<lparr>disk := d\<rparr>))" by blast
  note e = insert_file_effect [OF r(1)]
  show "f \<in> set (fornix_files t)" unfolding r(2) emit_hub(1) [OF assms(2)] using e(1) by simp
  show "live f" "is_directory f = fc_is_directory b" "ff_content f = fc_content b"
    "ff_workspace_id f = ws" "ff_parent_path f = fc_parent_path b" "ff_name f = fc_name b"
    using e(3-8) by simp_all
qed


theorem absolute_name_escapes_witness:
  "\<exists>t f. create_file mnt [] 9 ''w'' (new_note ''/etc/x'' None) ''u'' None filed = (t, Inr f) \<and> content_at (disk t) [''etc'', ''x''] = Some ''yo''"
proof -
  let ?b = "new_note ''/etc/x'' None"
  have "is_ok (insert_file 9 ''w'' ?b ''u'' None filed)"
    "\<not> snd (sync_write (mt_root mnt) (mt_fails mnt) ''w'' (fc_parent_path ?b) (fc_name ?b) (fc_content ?b) (fc_is_directory ?b) (disk filed))"
    by code_simp+
  from create_ok [OF this, of "[]"] obtain t f where t: "create_file mnt [] 9 ''w'' ?b ''u'' None filed = (t, Inr f)" by blast
  have b: "fc_name ?b = ''/'' @ ''etc/x''" "\<not> truthy (fc_parent_path ?b)" "\<not> fc_is_directory ?b" "resolve ''etc/x'' = [''etc'', ''x'']"
    "str_or (fc_content ?b) [] = ''yo''"
    by code_simp+
  from absolute_name_escapes [OF hub_handlers_Nil b(1-3) t] t show ?thesis unfolding b(4,5) by blast
qed

lemma update_ok:
  assumes "require_workspace_permission uid ws ''can_edit_workspace'' x_org s = Inr ()" "find_file ws fid s = Inr f"
    "\<not> snd (sync_move (mt_root mt) (mt_fails mt) ws (ff_parent_path f) (ff_name f) (ff_parent_path f) (Some n) (disk s))"
    "uq_fornix_files_path (fornix_files (set_file (modified now f (f\<lparr>ff_name := n\<rparr>)) s))" "n \<noteq> ff_name f"
  shows "\<exists>t g. update_file mt hs now ws fid \<lparr>fu_name = Some (Some n), fu_parent_path = None\<rparr> uid x_org s = (t, Inr g)"
proof -
  obtain d where "sync_move (mt_root mt) (mt_fails mt) ws (ff_parent_path f) (ff_name f) (ff_parent_path f) (Some n) (disk s) = (d, False)"
    using assms(3)
    by (cases "sync_move (mt_root mt) (mt_fails mt) ws (ff_parent_path f) (ff_name f) (ff_parent_path f) (Some n) (disk s)") simp
  with assms(1,2,4,5) show ?thesis by (simp add: update_file_def Let_def)
qed

theorem directory_rename_strands_files_witness:
  "\<exists>t g. update_file mnt [] 9 ''w'' (sample_ids 2) \<lparr>fu_name = Some (Some ''old''), fu_parent_path = None\<rparr> ''u'' None filed = (t, Inr g) \<and>
     filed_row 3 ''a'' (Some ''/docs'') (Some ''hi'') \<in> set (fornix_files t) \<and>
     read_ref ''/mnt'' ''w'' \<lparr>hr_scope = ''hub'', hr_path = ''/docs/a'', hr_label = None\<rparr> t =
       Inl (NotFoundError ''internal.hub.file_not_found'' ''errors.internal.hub.file_not_found'')"
proof -
  let ?docs = "filed_row 2 ''docs'' None None" and ?a = "filed_row 3 ''a'' (Some ''/docs'') (Some ''hi'')"
  have u: "require_workspace_permission ''u'' ''w'' ''can_edit_workspace'' None filed = Inr ()"
    "find_file ''w'' (sample_ids 2) filed = Inr ?docs"
    "\<not> snd (sync_move (mt_root mnt) (mt_fails mnt) ''w'' (ff_parent_path ?docs) (ff_name ?docs) (ff_parent_path ?docs) (Some ''old'') (disk filed))"
    "uq_fornix_files_path (fornix_files (set_file (modified 9 ?docs (?docs\<lparr>ff_name := ''old''\<rparr>)) filed))" "''old'' \<noteq> ff_name ?docs"
    by code_simp+
  from update_ok [OF this, of "[]"] obtain t g where
    t: "update_file mnt [] 9 ''w'' (sample_ids 2) \<lparr>fu_name = Some (Some ''old''), fu_parent_path = None\<rparr> ''u'' None filed = (t, Inr g)" by blast
  have m: "mirrored (mt_root mnt) filed" using filed_mirrored by (simp add: mnt_def)
  have a: "is_directory ?docs" "canonical_name ''old''" "live ?a" "\<not> is_directory ?a" "ff_workspace_id ?a = ''w''"
    "ff_parent_path ?a = Some (target_path ?docs)" "dir_path (row_path ?a) = ''/docs/a''"
    by code_simp+
  have "?a \<in> set (fornix_files filed)" by (simp add: filed_def cluster.defs brain.defs)
  from directory_rename_strands_files [OF m hub_handlers_Nil u(2) a(1,2) u(5) t this a(3-6), of None] t
  show ?thesis unfolding a(7) by (auto simp: mnt_def)
qed

end
