(* ===== verification/Brain_Props.thy ===== *)
theory Brain_Props
  imports Hub_Laws
begin

text \<open>
  The schedules of the hub under the runner, and the cerebellum of a Workspace: what a tick leaves, the
  schedule that stops all others, and that the cerebellum is made once.
\<close>

section \<open>The runner\<close>

lemma enqueue_schedules:
  assumes "hub_handlers hs" "enqueue_inject hs now iid kind mode payload tldr s = Inr (t, r)"
  shows "schedules t = schedules s"
  using assms
  by (auto simp: enqueue_inject_def emit_learning_injected_def set_inject_def Let_def split: sum.splits if_splits)

lemma map_sum_InrD: "map_sum f g x = Inr y \<Longrightarrow> \<exists>z. x = Inr z \<and> y = g z"
  by (cases x) auto

lemma fire_schedules:
  assumes "hub_handlers hs" "fire_schedule hs now sc s = Inr t"
  shows "schedules t = schedules s"
  using assms(2) by (auto simp: fire_schedule_def Let_def split: if_splits sum.splits dest!: map_sum_InrD enqueue_schedules [OF assms(1)])

text \<open>Each schedule of a list with different identifiers is written once.\<close>

definition written :: "('k \<Rightarrow> 'k) \<Rightarrow> ('k \<Rightarrow> ident) \<Rightarrow> 'k list \<Rightarrow> 'k list \<Rightarrow> 'k list" where
  "written f key ks rows = map (\<lambda>r. case first_where (\<lambda>k. key k = key r) ks of None \<Rightarrow> r | Some k \<Rightarrow> f k) rows"

lemma written_Cons:
  assumes "key k \<notin> key ` set ks" "key (f k) = key k"
  shows "written f key ks (update_where (\<lambda>r. key r = key k) (\<lambda>_. f k) rows) = written f key (k # ks) rows"
proof -
  have "first_where (\<lambda>x. key x = key k) ks = None" using assms(1) by (auto simp: first_where_None_iff rev_image_eqI)
  then show ?thesis using assms(2) by (auto simp: written_def update_where_def)
qed

lemma reprimed_id [simp]: "row_id (reprimed cron now sc) = row_id sc"
  by (simp add: reprimed_def modified_field)

lemma fire_each_schedules:
  assumes "hub_handlers hs" "distinct (map row_id scs)" "fire_each cron hs now scs s = Inr t"
  shows "schedules t = written (reprimed cron now) row_id scs (schedules s)"
  using assms(2,3)
proof (induction scs arbitrary: s)
  case Nil
  then show ?case by (simp add: written_def)
next
  case (Cons sc scs)
  obtain s1 where s1: "fire_schedule hs now sc s = Inr s1" using Cons.prems(2) by (cases "fire_schedule hs now sc s") auto
  then show ?case
    using Cons.IH [of "fst (emit hs now _ (set_schedule (reprimed cron now sc) s1))"] Cons.prems assms(1)
      fire_schedules [OF assms(1) s1] written_Cons [of row_id sc scs "reprimed cron now" "schedules s"]
    by (auto simp: Let_def set_schedule_def)
qed

lemma first_where_distinct:
  "distinct (map key ks) \<Longrightarrow> k \<in> set ks \<Longrightarrow> first_where (\<lambda>x. key x = key k) ks = Some k"
  by (induction ks) (auto simp: image_iff)

lemma written_subset:
  assumes "distinct (map key rows)" "distinct (map key ks)" "set ks = {r \<in> set rows. P r}"
  shows "written f key ks rows = map (\<lambda>r. if P r then f r else r) rows"
  unfolding written_def
proof (rule map_cong [OF refl])
  fix r assume r: "r \<in> set rows"
  show "(case first_where (\<lambda>k. key k = key r) ks of None \<Rightarrow> r | Some k \<Rightarrow> f k) = (if P r then f r else r)"
  proof (cases "P r")
    case True
    then show ?thesis using first_where_distinct [OF assms(2), of r] assms(3) r by simp
  next
    case False
    have "first_where (\<lambda>k. key k = key r) ks = None"
      unfolding first_where_None_iff using assms(1,3) r False by (auto simp: distinct_map dest: inj_onD)
    with False show ?thesis by simp
  qed
qed

lemma distinct_sort_filter: "distinct (map key rows) \<Longrightarrow> distinct (map key (sort_key g (filter P rows)))"
  by (simp add: distinct_map inj_on_def)


text \<open>A payload with a summary that the inject queue refuses.\<close>

definition poison :: "schedule \<Rightarrow> bool" where
  "poison sc = (case action_payload sc of None \<Rightarrow> False | Some ob \<Rightarrow> json_true (jget_null ob ''instance_id'') \<and>
     (case jget ob ''tldr'' of Some (JStr x) \<Rightarrow> 200 < length x | _ \<Rightarrow> False))"

lemma poison_fails: "poison sc \<Longrightarrow> \<exists>e. fire_schedule hs now sc s = Inl e"
  by (auto simp: poison_def fire_schedule_def payload_summary_def jget_null_def enqueue_inject_def validate_tldr_def
      TLDR_MAX_CHARS_def Let_def split: option.splits json.splits sum.splits if_splits)

lemma poison_stops: "poison sc \<Longrightarrow> sc \<in> set scs \<Longrightarrow> \<exists>e. fire_each cron hs now scs s = Inl e"
proof (induction scs arbitrary: s)
  case (Cons k scs)
  then show ?case using poison_fails [of k hs now s] by (cases "fire_schedule hs now k s") (auto simp: Let_def)
qed simp

text \<open>C38. One due schedule whose payload carries a tldr of more than 200 characters stops the runner for good: at
  every later tick nothing at all is fired, in any Workspace.\<close>

theorem poison_schedule_blocks:
  assumes "sc \<in> set (schedules s)" and "due now sc" and "poison sc" and "now \<le> later"
  shows "runner_tick cron hs later s = s"
proof -
  have "due later sc" using assms(2,4) by (auto simp: due_def split: option.splits)
  then have "sc \<in> set (sort_key (\<lambda>sc. the (next_run_at sc)) (filter (due later) (schedules s)))" using assms(1) by simp
  from poison_stops [OF assms(3) this]
  obtain e where "fire_each cron hs later (sort_key (\<lambda>sc. the (next_run_at sc)) (filter (due later) (schedules s))) s = Inl e" ..
  then show ?thesis by (simp add: runner_tick_def brainstem_tick_def Let_def)
qed

section \<open>The cerebellum\<close>

text \<open>The Entity and the Instance of a Workspace's cerebellum are made once: asking again finds them.\<close>

theorem cerebellum_made_once:
  assumes "ensure_cerebellum_entity_and_instance now ws s = Inr (t, e, i)"
  shows "ensure_cerebellum_entity_and_instance later ws t = Inr (t, e, i)"
proof -
  obtain w where w: "get_live (workspaces s) ws = Some w"
    using assms by (auto simp: ensure_cerebellum_entity_and_instance_def split: option.splits)
  obtain s1 where s1: "ensure_cerebellum_entity now w s = Inr (s1, e)" "ensure_cerebellum_instance now ws e s1 = Inr (t, i)"
    using assms w by (auto simp: ensure_cerebellum_entity_and_instance_def map_sum_def split: sum.splits)
  let ?P = "\<lambda>e. ent_namespace_id e = ws_namespace_id w \<and> is_cerebellum e \<and> live e"
  have e: "scalar_one_or_none (filter ?P (entities s1)) = Inr (Some e)" "workspaces s1 = workspaces s"
    using s1(1)
    by (auto simp: ensure_cerebellum_entity_def Let_def new_cerebellum_def live_def scalar_one_or_none_def take_id_def
        split: sum.splits option.splits if_splits list.splits)
  have i: "scalar_one_or_none (filter (\<lambda>r. ins_entity_id r = row_id e \<and> ins_workspace_id r = ws \<and> live r) (instances t)) = Inr (Some i)"
    "entities t = entities s1" "workspaces t = workspaces s1"
    using s1(2)
    by (auto simp: ensure_cerebellum_instance_def Let_def new_cerebellum_instance_def live_def scalar_one_or_none_def take_id_def
        split: sum.splits option.splits if_splits list.splits)
  show ?thesis
    using w e i
    by (simp add: ensure_cerebellum_entity_and_instance_def ensure_cerebellum_entity_def ensure_cerebellum_instance_def)
qed

section \<open>Schedules to evaluate on\<close>

definition planned :: "nat \<Rightarrow> timestamp \<Rightarrow> json_obj \<Rightarrow> schedule" where
  "planned n next ob = \<lparr>row_id = sample_ids n, created_at = 0, updated_at = 0, deleted_at = None, sc_central_hub_id = ''h'',
     sc_name = ''tick'', cron_expr = ''* * * * *'', action_payload = Some ob, sc_enabled = True, last_run_at = None,
     next_run_at = Some next\<rparr>"

definition every_minute :: cron_reader where
  "every_minute _ base = Some (base + 60000000)"

definition quiet_plans :: brain where
  "quiet_plans = filed\<lparr>schedules := [planned 4 5 [(''note'', JStr ''hello'')], planned 5 70 []]\<rparr>"

definition housed :: brain where
  "housed = filed\<lparr>entities := [market_entity], instances := [], namespaces := [\<lparr>row_id = ''n'', created_at = 0, updated_at = 0, deleted_at = None, ns_org_id = ''o'',
     ns_slug = ''s'', ns_name = ''S'', ns_description = None, ns_tags = None\<rparr>]\<rparr>"


definition poisoned :: brain where
  "poisoned = quiet_plans\<lparr>schedules := planned 6 6 [(''instance_id'', JStr ''x''), (''tldr'', JStr (replicate 201 CHR ''x''))] #
     schedules quiet_plans\<rparr>"

theorem poison_schedule_blocks_witness: "runner_tick every_minute [] 1000000 poisoned = poisoned"
proof -
  have "hd (schedules poisoned) \<in> set (schedules poisoned)" by (simp add: poisoned_def)
  moreover have "due 9 (hd (schedules poisoned))" "poison (hd (schedules poisoned))"
    by (simp_all add: poisoned_def planned_def due_def live_def poison_def jget_null_def jget_def)
  ultimately show ?thesis by (rule poison_schedule_blocks) simp
qed

theorem cerebellum_made_once_witness:
  "\<exists>t e i. ensure_cerebellum_entity_and_instance 9 ''w'' housed = Inr (t, e, i) \<and>
     ensure_cerebellum_entity_and_instance 12 ''w'' t = Inr (t, e, i)"
proof -
  have "is_ok (ensure_cerebellum_entity_and_instance 9 ''w'' housed)" by code_simp
  then obtain t e i where "ensure_cerebellum_entity_and_instance 9 ''w'' housed = Inr (t, e, i)" by (auto elim!: is_okE)
  with cerebellum_made_once [OF this, of 12] show ?thesis by blast
qed

end
