(* ===== verification/Organizations.thy ===== *)
theory Organizations
  imports Permissions Log_Queries Brain_Regions
begin

text \<open>
  Organizations and their members (\<^verbatim>\<open>app/api/v1/organizations.py\<close>, \<^verbatim>\<open>app/schemas/organization.py\<close>,
  \<^verbatim>\<open>app/core/gene_atoms.py\<close>, \<^verbatim>\<open>app/core/slug.py\<close>): creation with a contract that holds every atom, the
  guard against an Organization without a manager, and the cascade of a deletion. The state \<open>tenancy\<close>
  adds the tables of the providers.
\<close>

section \<open>Slugs (core/slug.py)\<close>

definition kebab :: "string \<Rightarrow> bool" where
  "kebab s = list_all (\<lambda>w. w \<noteq> [] \<and> list_all (\<lambda>c. CHR ''a'' \<le> c \<and> c \<le> CHR ''z'' \<or> CHR ''0'' \<le> c \<and> c \<le> CHR ''9'') w)
     (split_on CHR ''-'' s)"

text \<open>The \<open>$\<close> of the pattern also matches before a newline at the end.\<close>

definition validate_slug :: "string \<Rightarrow> bool" where
  "validate_slug s = (kebab s \<or> s \<noteq> [] \<and> last s = CHR 0x0A \<and> kebab (butlast s))"

section \<open>The atoms (core/gene_atoms.py)\<close>

definition ATOM_CATALOG :: "(string \<times> effect_scope) list" where
  "ATOM_CATALOG = [(''can_manage_organization'', S_org), (''can_manage_org_members'', S_org),
     (''can_manage_namespace'', S_namespace), (''can_manage_workspace'', S_workspace), (''can_edit_workspace'', S_workspace),
     (''can_view_workspace'', S_workspace), (''can_operate_workspace'', S_workspace), (''can_manage_genes'', S_org),
     (''can_manage_capabilities'', S_org), (''can_manage_ai_genes'', S_org), (''can_clone_base_class'', S_org),
     (''can_clone_entity'', S_namespace), (''can_clone_organization'', S_org), (''can_clone_workspace'', S_workspace),
     (''can_manage_knowledge'', S_org), (''can_manage_meetings'', S_workspace)]"

definition ORG_OWNER_ATOMS :: "string list" where
  "ORG_OWNER_ATOMS = map fst ATOM_CATALOG"

definition new_atom_gene :: "ident \<Rightarrow> timestamp \<Rightarrow> string \<times> effect_scope \<Rightarrow> user_gene" where
  "new_atom_gene i now a = \<lparr>row_id = i, created_at = now, updated_at = now, deleted_at = None, ug_slug = fst a, ug_name = fst a,
     ug_kind = ''builtin'', effect_scope = snd a, ug_description = Some (''Atomic permission: '' @ fst a)\<rparr>"

definition ensure_atom_gene :: "timestamp \<Rightarrow> string \<times> effect_scope \<Rightarrow> 'z db_scheme \<Rightarrow> 'z db_scheme result" where
  "ensure_atom_gene now a s =
     (case scalar_one_or_none (filter (\<lambda>g. ug_slug g = fst a \<and> live g) (user_genes s)) of
        Inl e \<Rightarrow> Inl e
      | Inr None \<Rightarrow> Inr ((take_id s)\<lparr>user_genes := user_genes s @ [new_atom_gene (new_id s) now a]\<rparr>)
      | Inr (Some g) \<Rightarrow> Inr (s\<lparr>user_genes := update_where (\<lambda>r. row_id r = row_id g)
          (\<lambda>_. modified now g (g\<lparr>effect_scope := snd a, ug_kind := ''builtin''\<rparr>)) (user_genes s)\<rparr>))"

fun ensure_each :: "timestamp \<Rightarrow> (string \<times> effect_scope) list \<Rightarrow> 'z db_scheme \<Rightarrow> 'z db_scheme result" where
  "ensure_each now [] s = Inr s"
| "ensure_each now (a # as) s = (case ensure_atom_gene now a s of Inl e \<Rightarrow> Inl e | Inr s1 \<Rightarrow> ensure_each now as s1)"

definition ensure_atom_genes :: "timestamp \<Rightarrow> 'z db_scheme \<Rightarrow> 'z db_scheme result" where
  "ensure_atom_genes now s = ensure_each now ATOM_CATALOG s"

section \<open>Providers\<close>

record organization_provider = base_row +
  pv_organization_id :: ident
  pv_origin :: string
  catalog_provider_id :: "string option"
  pv_name :: string
  pv_slug :: string
  request_format :: string
  base_url :: "string option"
  api_key_ref :: string
  default_model :: string
  models_allowlist :: "string list option"
  model_overrides :: "json_obj option"
  verify_ssl :: bool
  models_endpoint_mode :: string
  models_base_url :: "string option"
  pv_enabled :: bool
  last_test_status :: "string option"
  last_tested_at :: "timestamp option"
  last_test_detail :: "json_obj option"

record provider_default = base_row +
  pd_base_class_id :: ident
  pd_provider_id :: ident
  pd_model :: string

definition uq_organization_providers_org_slug :: "organization_provider list \<Rightarrow> bool" where
  "uq_organization_providers_org_slug = unique_on live (\<lambda>p. (pv_organization_id p, pv_slug p))"

definition uq_organization_providers_org_catalog :: "organization_provider list \<Rightarrow> bool" where
  "uq_organization_providers_org_catalog =
     unique_on (\<lambda>p. live p \<and> pv_origin p = ''catalog'' \<and> catalog_provider_id p \<noteq> None) (\<lambda>p. (pv_organization_id p, catalog_provider_id p))"

definition uq_base_class_provider_defaults_base_class :: "provider_default list \<Rightarrow> bool" where
  "uq_base_class_provider_defaults_base_class = unique_on live pd_base_class_id"

definition uq_organizations_slug :: "organization list \<Rightarrow> bool" where
  "uq_organizations_slug = unique_on live org_slug"

record tenancy = brain +
  providers :: "organization_provider list"
  provider_defaults :: "provider_default list"

section \<open>Organizations\<close>

record organization_create =
  or_slug :: string
  or_name :: string
  or_description :: "string option"
  or_use_proxy :: bool
  or_proxy_host :: "string option"
  or_proxy_port :: "int option"
  or_proxy_username :: "string option"
  or_proxy_password :: "string option"

definition slug_taken :: eyot_error where
  "slug_taken = ConflictError ''organization.slug_taken'' ''errors.organization.slug_taken''"

definition organization_not_found :: eyot_error where
  "organization_not_found = NotFoundError ''organization.not_found'' ''errors.organization.not_found''"

definition new_organization :: "ident \<Rightarrow> timestamp \<Rightarrow> organization_create \<Rightarrow> organization" where
  "new_organization i now b = \<lparr>row_id = i, created_at = now, updated_at = now, deleted_at = None, org_slug = or_slug b,
     org_name = or_name b, org_description = or_description b, system_hub_provider_id = None, system_hub_model = None,
     cerebellum_default_provider_id = None, cerebellum_default_model = None, use_proxy = or_use_proxy b,
     proxy_host = or_proxy_host b, proxy_port = or_proxy_port b, proxy_username = or_proxy_username b,
     proxy_password = or_proxy_password b\<rparr>"

definition create_organization ::
    "timestamp \<Rightarrow> organization_create \<Rightarrow> ident \<Rightarrow> 'z db_scheme \<Rightarrow> ('z db_scheme \<times> organization) result" where
  "create_organization now b uid s =
     (if \<not> validate_slug (or_slug b) \<or> 255 < length (or_slug b) \<or> or_name b = [] \<or> 255 < length (or_name b)
      then Inl request_validation_error
      else case scalar_one_or_none (filter (\<lambda>x. org_slug x = or_slug b \<and> live x) (organizations s)) of
             Inl e \<Rightarrow> Inl e
           | Inr (Some _) \<Rightarrow> Inl slug_taken
           | Inr None \<Rightarrow>
              (let x = new_organization (new_id s) now b; s1 = (take_id s)\<lparr>organizations := organizations s @ [x]\<rparr>
               in case ensure_atom_genes now s1 of
                    Inl e \<Rightarrow> Inl e
                  | Inr s2 \<Rightarrow>
                     (case ensure_org_contract now (row_id x) uid None s2 of
                        Inl e \<Rightarrow> Inl e
                      | Inr (s3, c) \<Rightarrow> map_sum id (\<lambda>s4. (s4, x)) (grant_atoms now (row_id c) ORG_OWNER_ATOMS s3))))"

definition get_default_org :: "'z db_scheme \<Rightarrow> organization result" where
  "get_default_org s =
     (case scalar_one_or_none (filter (\<lambda>x. org_slug x = ''default'' \<and> live x) (organizations s)) of
        Inl e \<Rightarrow> Inl e | Inr None \<Rightarrow> Inl organization_not_found | Inr (Some x) \<Rightarrow> Inr x)"

text \<open>Who is not a member gets the same answer as for an Organization that does not exist.\<close>

definition get_org_for_user :: "current_user \<Rightarrow> ident \<Rightarrow> 'z db_scheme \<Rightarrow> organization result" where
  "get_org_for_user cu oid s =
     (case get_live (organizations s) oid of
        None \<Rightarrow> Inl organization_not_found
      | Some x \<Rightarrow>
          if cu_is_super_admin cu then Inr x
          else (case scalar_one_or_none (member_contracts (cu_user_id cu) oid s) of
                  Inl e \<Rightarrow> Inl e
                | Inr None \<Rightarrow> Inl organization_not_found
                | Inr (Some _) \<Rightarrow> if has_atom (cu_user_id cu) oid s then Inr x else Inl organization_not_found))"

definition list_organizations :: "current_user \<Rightarrow> int \<Rightarrow> int \<Rightarrow> 'z db_scheme \<Rightarrow> organization offset_page result" where
  "list_organizations cu limit offset s =
     (case page_bounds limit offset of
        Inl e \<Rightarrow> Inl e
      | Inr _ \<Rightarrow> Inr (paginate_offset (sort_key created_at
          [x. x \<leftarrow> organizations s, c \<leftarrow> organization_contracts s,
              oc_organization_id c = row_id x \<and> oc_user_id c = cu_user_id cu \<and> live c \<and> live x \<and>
              list_ex (\<lambda>cg. ocg_contract_id cg = row_id c \<and> live cg) (organization_contract_genes s)])
          (nat offset) (nat limit)))"

definition get_organization :: "current_user \<Rightarrow> ident \<Rightarrow> 'z db_scheme \<Rightarrow> organization result" where
  "get_organization = get_org_for_user"

record organization_update =
  ou_slug :: "string patch"
  ou_name :: "string patch"
  ou_description :: "string patch"
  ou_system_hub_provider_id :: "ident patch"
  ou_system_hub_model :: "string patch"
  ou_cerebellum_default_provider_id :: "ident patch"
  ou_cerebellum_default_model :: "string patch"
  ou_use_proxy :: "bool patch"
  ou_proxy_host :: "string patch"
  ou_proxy_port :: "int patch"
  ou_proxy_username :: "string patch"
  ou_proxy_password :: "string patch"

definition apply_org_slug_guards :: "organization \<Rightarrow> string patch \<Rightarrow> unit result" where
  "apply_org_slug_guards x slug =
     (case slug of
        Some (Some n) \<Rightarrow>
          (if n \<noteq> org_slug x \<and> (n = ''default'' \<or> org_slug x = ''default'')
           then Inl (ForbiddenError ''organization.default_slug_readonly'' ''errors.organization.default_slug_readonly'')
           else Inr ())
      | _ \<Rightarrow> Inr ())"

definition ensure_org_slug_unique :: "organization \<Rightarrow> string \<Rightarrow> 'z db_scheme \<Rightarrow> unit result" where
  "ensure_org_slug_unique x n s =
     (case scalar_one_or_none (filter (\<lambda>y. org_slug y = n \<and> live y \<and> row_id y \<noteq> row_id x) (organizations s)) of
        Inl e \<Rightarrow> Inl e | Inr None \<Rightarrow> Inr () | Inr (Some _) \<Rightarrow> Inl slug_taken)"

definition set_organization :: "organization \<Rightarrow> 'z db_scheme \<Rightarrow> 'z db_scheme" where
  "set_organization x s = s\<lparr>organizations := update_where (\<lambda>r. row_id r = row_id x) (\<lambda>_. x) (organizations s)\<rparr>"

text \<open>
  What both routes do with the patch: a null slug is dropped, a null for another column that has none
  fails at the flush, and the providers only have to exist.
\<close>

definition patch_organization ::
    "timestamp \<Rightarrow> organization \<Rightarrow> organization_update \<Rightarrow> 'z tenancy_scheme \<Rightarrow> ('z tenancy_scheme \<times> organization) result" where
  "patch_organization now x b s =
     (case apply_org_slug_guards x (ou_slug b) of
        Inl e \<Rightarrow> Inl e
      | Inr _ \<Rightarrow>
         (case (case ou_slug b of
                  Some (Some n) \<Rightarrow> (if n \<noteq> org_slug x then ensure_org_slug_unique x n s else Inr ())
                | _ \<Rightarrow> Inr ()) of
            Inl e \<Rightarrow> Inl e
          | Inr _ \<Rightarrow>
             (let y = modified now x (x\<lparr>org_slug := patched_value (ou_slug b) (org_slug x), org_name := patched_value (ou_name b) (org_name x),
                     org_description := patched (ou_description b) (org_description x),
                     system_hub_provider_id := patched (ou_system_hub_provider_id b) (system_hub_provider_id x),
                     system_hub_model := patched (ou_system_hub_model b) (system_hub_model x),
                     cerebellum_default_provider_id := patched (ou_cerebellum_default_provider_id b) (cerebellum_default_provider_id x),
                     cerebellum_default_model := patched (ou_cerebellum_default_model b) (cerebellum_default_model x),
                     use_proxy := patched_value (ou_use_proxy b) (use_proxy x), proxy_host := patched (ou_proxy_host b) (proxy_host x),
                     proxy_port := patched (ou_proxy_port b) (proxy_port x),
                     proxy_username := patched (ou_proxy_username b) (proxy_username x),
                     proxy_password := patched (ou_proxy_password b) (proxy_password x)\<rparr>)
              in if not_null (ou_name b) \<and> not_null (ou_use_proxy b) \<and>
                   opt_ref (providers s) (system_hub_provider_id y) \<and> opt_ref (providers s) (cerebellum_default_provider_id y)
                 then Inr (set_organization y s, y) else Inl unhandled_error)))"

definition slug_ok :: "string patch \<Rightarrow> bool" where
  "slug_ok p = (case p of Some (Some n) \<Rightarrow> validate_slug n | _ \<Rightarrow> True)"

definition update_default_organization ::
    "timestamp \<Rightarrow> organization_update \<Rightarrow> current_user \<Rightarrow> 'z tenancy_scheme \<Rightarrow> ('z tenancy_scheme \<times> organization) result" where
  "update_default_organization now b cu s =
     (if \<not> slug_ok (ou_slug b) then Inl request_validation_error
      else case require_super_admin cu of
             Inl e \<Rightarrow> Inl e
           | Inr _ \<Rightarrow> (case get_default_org s of Inl e \<Rightarrow> Inl e | Inr x \<Rightarrow> patch_organization now x b s))"

text \<open>Most requests on an Organization begin with membership and a permission on it.\<close>

definition org_with_permission :: "current_user \<Rightarrow> ident \<Rightarrow> string \<Rightarrow> 'z db_scheme \<Rightarrow> organization result" where
  "org_with_permission cu oid atom s =
     (case get_org_for_user cu oid s of
        Inl e \<Rightarrow> Inl e
      | Inr x \<Rightarrow> map_sum id (\<lambda>_. x) (require_permission (cu_user_id cu) atom (Some (row_id x)) None None s))"

definition update_organization ::
    "timestamp \<Rightarrow> ident \<Rightarrow> organization_update \<Rightarrow> current_user \<Rightarrow> 'z tenancy_scheme \<Rightarrow> ('z tenancy_scheme \<times> organization) result" where
  "update_organization now oid b cu s =
     (if \<not> slug_ok (ou_slug b) then Inl request_validation_error
      else case org_with_permission cu oid ''can_manage_organization'' s of
             Inl e \<Rightarrow> Inl e
           | Inr x \<Rightarrow> patch_organization now x b s)"

section \<open>Deletion\<close>

definition retire :: "timestamp \<Rightarrow> ('r base_row_scheme \<Rightarrow> bool) \<Rightarrow> 'r base_row_scheme list \<Rightarrow> 'r base_row_scheme list" where
  "retire now P rows = update_where (\<lambda>r. P r \<and> live r) (soft_delete now) rows"

definition ids_where :: "('r base_row_scheme \<Rightarrow> bool) \<Rightarrow> 'r base_row_scheme list \<Rightarrow> ident list" where
  "ids_where P rows = map row_id (filter (\<lambda>r. P r \<and> live r) rows)"

definition cascade_organization :: "timestamp \<Rightarrow> ident \<Rightarrow> 'z tenancy_scheme \<Rightarrow> 'z tenancy_scheme" where
  "cascade_organization now oid s =
     (let cs = ids_where (\<lambda>c. oc_organization_id c = oid) (organization_contracts s);
          ns = ids_where (\<lambda>n. ns_org_id n = oid) (namespaces s);
          ncs = ids_where (\<lambda>c. nc_namespace_id c \<in> set ns) (namespace_contracts s);
          ws = ids_where (\<lambda>w. ws_namespace_id w \<in> set ns) (workspaces s);
          es = ids_where (\<lambda>e. ent_namespace_id e \<in> set ns) (entities s);
          ps = ids_where (\<lambda>p. pv_organization_id p = oid) (providers s)
      in s\<lparr>organization_contract_genes := retire now (\<lambda>g. ocg_contract_id g \<in> set cs) (organization_contract_genes s),
           namespace_contract_genes := retire now (\<lambda>g. ncg_contract_id g \<in> set ncs) (namespace_contract_genes s),
           entity_capabilities := retire now (\<lambda>l. ec_entity_id l \<in> set es) (entity_capabilities s),
           entity_ai_genes := retire now (\<lambda>l. eg_entity_id l \<in> set es) (entity_ai_genes s),
           memberships := retire now (\<lambda>m. mem_workspace_id m \<in> set ws) (memberships s),
           passages := retire now (\<lambda>p. psg_workspace_id p \<in> set ws) (passages s),
           instances := retire now (\<lambda>i. ins_workspace_id i \<in> set ws) (instances s),
           provider_defaults := retire now (\<lambda>d. pd_provider_id d \<in> set ps) (provider_defaults s),
           providers := retire now (\<lambda>p. pv_organization_id p = oid) (providers s),
           knowledge_entries := retire now (\<lambda>k. kn_organization_id k = Some oid) (knowledge_entries s),
           knowledge_dimensions := retire now (\<lambda>k. kd_organization_id k = Some oid) (knowledge_dimensions s),
           workspaces := retire now (\<lambda>w. ws_namespace_id w \<in> set ns) (workspaces s),
           entities := retire now (\<lambda>e. ent_namespace_id e \<in> set ns) (entities s),
           namespaces := retire now (\<lambda>n. ns_org_id n = oid) (namespaces s),
           namespace_contracts := retire now (\<lambda>c. nc_namespace_id c \<in> set ns) (namespace_contracts s),
           organization_contracts := retire now (\<lambda>c. oc_organization_id c = oid) (organization_contracts s),
           organizations := retire now (\<lambda>x. row_id x = oid) (organizations s)\<rparr>)"

definition delete_organization :: "timestamp \<Rightarrow> ident \<Rightarrow> current_user \<Rightarrow> 'z tenancy_scheme \<Rightarrow> 'z tenancy_scheme result" where
  "delete_organization now oid cu s =
     map_sum id (\<lambda>_. cascade_organization now oid s) (org_with_permission cu oid ''can_manage_organization'' s)"

section \<open>Members\<close>

definition atoms_known :: "string list \<Rightarrow> bool" where
  "atoms_known slugs = list_all (\<lambda>x. x \<in> set ORG_OWNER_ATOMS) slugs"

text \<open>The genes of the slugs; the catalog is written first when there is a slug at all.\<close>

definition atom_genes :: "timestamp \<Rightarrow> string list \<Rightarrow> 'z db_scheme \<Rightarrow> ('z db_scheme \<times> user_gene list) result" where
  "atom_genes now slugs s =
     (if slugs = [] then Inr (s, [])
      else if \<not> atoms_known slugs then Inl (ValidationError ''user_gene.not_found'' ''errors.user_gene.not_found'')
      else case ensure_atom_genes now s of
             Inl e \<Rightarrow> Inl e
           | Inr s1 \<Rightarrow> Inr (s1, List.map_filter (gene_by_slug s1) (remdups slugs)))"

text \<open>The wildcards of the needle are escaped, so \<open>ILIKE\<close> compares a prefix.\<close>

definition has_prefix_ci :: "string \<Rightarrow> string \<Rightarrow> bool" where
  "has_prefix_ci needle x = starts_with (lower needle) (lower x)"

definition user_not_found :: eyot_error where
  "user_not_found = NotFoundError ''user.not_found'' ''errors.user.not_found''"

definition resolve_unique_user :: "string \<Rightarrow> 'z db_scheme \<Rightarrow> user result" where
  "resolve_unique_user q s =
     (case filter (\<lambda>u. live u \<and> (has_prefix_ci (strip q) (username u) \<or> has_prefix_ci (strip q) (email u))) (users s) of
        [] \<Rightarrow> Inl user_not_found
      | [u] \<Rightarrow> Inr u
      | _ \<Rightarrow> Inl (ValidationError ''organization.member_ambiguous'' ''errors.organization.member_ambiguous''))"

definition contract_not_found :: eyot_error where
  "contract_not_found = NotFoundError ''organization_contract.not_found'' ''errors.organization_contract.not_found''"

definition get_org_contract :: "ident \<Rightarrow> ident \<Rightarrow> 'z db_scheme \<Rightarrow> organization_contract result" where
  "get_org_contract oid cid s =
     (case get_live (organization_contracts s) cid of
        None \<Rightarrow> Inl contract_not_found
      | Some c \<Rightarrow> if oc_organization_id c = oid then Inr c else Inl contract_not_found)"

record member_item =
  mi_id :: ident
  mi_user :: user
  mi_atoms :: "user_gene list"

definition contract_genes_of :: "ident \<Rightarrow> 'z db_scheme \<Rightarrow> user_gene list" where
  "contract_genes_of cid s = [g. cg \<leftarrow> organization_contract_genes s, g \<leftarrow> user_genes s,
     ocg_user_gene_id cg = row_id g \<and> ocg_contract_id cg = cid \<and> live cg \<and> live g]"

definition org_member_item :: "organization_contract \<Rightarrow> 'z db_scheme \<Rightarrow> member_item option" where
  "org_member_item c s = map_option (\<lambda>u. \<lparr>mi_id = row_id c, mi_user = u,
     mi_atoms = sort_key ug_slug (contract_genes_of (row_id c) s)\<rparr>) (get_row (users s) (oc_user_id c))"

definition MANAGE_ATOMS :: "string list" where
  "MANAGE_ATOMS = [''can_manage_organization'', ''can_manage_org_members'']"

definition org_has_other_manage_holder :: "ident \<Rightarrow> ident \<Rightarrow> 'z db_scheme \<Rightarrow> bool" where
  "org_has_other_manage_holder oid cid s =
     list_ex (\<lambda>x. x \<in> set MANAGE_ATOMS) (org_slugs (\<lambda>c. oc_organization_id c = oid \<and> row_id c \<noteq> cid) s)"

definition cannot_lock_self :: eyot_error where
  "cannot_lock_self = EyotError ''errors.org.cannot_lock_self'' ''organization.cannot_lock_self'' 400"

text \<open>\<open>None\<close> for the wanted atoms is a deletion.\<close>

definition guard_cannot_lock_self ::
    "current_user \<Rightarrow> ident \<Rightarrow> organization_contract \<Rightarrow> string list option \<Rightarrow> 'z db_scheme \<Rightarrow> unit result" where
  "guard_cannot_lock_self cu oid c desired s =
     (if cu_is_super_admin cu \<or> oc_user_id c \<noteq> cu_user_id cu then Inr ()
      else case desired of
             None \<Rightarrow> (if org_has_other_manage_holder oid (row_id c) s then Inr () else Inl cannot_lock_self)
           | Some slugs \<Rightarrow>
               if ''can_manage_org_members'' \<in> ug_slug ` set (contract_genes_of (row_id c) s) \<and> ''can_manage_org_members'' \<notin> set slugs
               then Inl cannot_lock_self
               else if list_ex (\<lambda>x. x \<in> set slugs) MANAGE_ATOMS \<or> org_has_other_manage_holder oid (row_id c) s then Inr ()
               else Inl cannot_lock_self)"

definition list_org_members :: "ident \<Rightarrow> current_user \<Rightarrow> int \<Rightarrow> int \<Rightarrow> 'z db_scheme \<Rightarrow> member_item offset_page result" where
  "list_org_members oid cu limit offset s =
     (case page_bounds limit offset of
        Inl e \<Rightarrow> Inl e
      | Inr _ \<Rightarrow>
         (case get_org_for_user cu oid s of
            Inl e \<Rightarrow> Inl e
          | Inr x \<Rightarrow>
              if \<not> cu_is_super_admin cu \<and>
                 {''can_view_workspace'', ''can_manage_org_members''} \<inter> list_grant_slugs (cu_user_id cu) (Some (row_id x)) None s = {}
              then Inl (ForbiddenError ''permission.denied'' ''errors.permission.denied'')
              else (let page = paginate_offset (sort_key created_at (filter (\<lambda>c. oc_organization_id c = row_id x \<and> live c)
                          (organization_contracts s))) (nat offset) (nat limit)
                    in Inr \<lparr>op_items = List.map_filter (\<lambda>c. org_member_item c s) (op_items page), op_offset = op_offset page,
                            op_limit = op_limit page, op_total = op_total page\<rparr>)))"

definition member_exists :: eyot_error where
  "member_exists = ConflictError ''organization.member_exists'' ''errors.organization.member_exists''"

record member_create =
  mc_user_id :: "ident option"
  mc_q :: "string option"
  mc_atom_slugs :: "string list"

definition member_create_ok :: "member_create \<Rightarrow> bool" where
  "member_create_ok b \<longleftrightarrow> (mc_user_id b = None) \<noteq> (mc_q b = None) \<and>
     (case mc_user_id b of None \<Rightarrow> True | Some u \<Rightarrow> u \<noteq> [] \<and> length u \<le> 36) \<and>
     (case mc_q b of None \<Rightarrow> True | Some q \<Rightarrow> length q \<le> 255)"

definition member_user :: "member_create \<Rightarrow> 'z db_scheme \<Rightarrow> user result" where
  "member_user b s =
     (case mc_user_id b of
        Some u \<Rightarrow> (case get_live (users s) u of None \<Rightarrow> Inl user_not_found | Some r \<Rightarrow> Inr r)
      | None \<Rightarrow> resolve_unique_user (str_or (mc_q b) []) s)"

definition item_or_404 :: "organization_contract \<Rightarrow> 'z db_scheme \<Rightarrow> ('z db_scheme \<times> member_item) result" where
  "item_or_404 c s = (case org_member_item c s of None \<Rightarrow> Inl user_not_found | Some i \<Rightarrow> Inr (s, i))"

definition create_org_member ::
    "timestamp \<Rightarrow> ident \<Rightarrow> member_create \<Rightarrow> current_user \<Rightarrow> 'z db_scheme \<Rightarrow> ('z db_scheme \<times> member_item) result" where
  "create_org_member now oid b cu s =
     (if \<not> member_create_ok b then Inl request_validation_error
      else case org_with_permission cu oid ''can_manage_org_members'' s of
             Inl e \<Rightarrow> Inl e
           | Inr x \<Rightarrow>
              (case member_user b s of
                 Inl e \<Rightarrow> Inl e
               | Inr u \<Rightarrow>
                  (case scalar_one_or_none (filter (\<lambda>c. oc_organization_id c = row_id x \<and> oc_user_id c = row_id u \<and> live c)
                           (organization_contracts s)) of
                     Inl e \<Rightarrow> Inl e
                   | Inr (Some _) \<Rightarrow> Inl member_exists
                   | Inr None \<Rightarrow>
                      (case atom_genes now (mc_atom_slugs b) s of
                         Inl e \<Rightarrow> Inl e
                       | Inr (s1, _) \<Rightarrow>
                          (case ensure_org_contract now (row_id x) (row_id u) None s1 of
                             Inl _ \<Rightarrow> Inl member_exists
                           | Inr (s2, c) \<Rightarrow>
                              (case grant_atoms now (row_id c) (mc_atom_slugs b) s2 of
                                 Inl e \<Rightarrow> Inl e
                               | Inr s3 \<Rightarrow> item_or_404 c s3))))))"

text \<open>The new links are made in the order of the request; the code takes them out of a set.\<close>

fun add_links :: "timestamp \<Rightarrow> ident \<Rightarrow> ident list \<Rightarrow> 'z db_scheme \<Rightarrow> 'z db_scheme" where
  "add_links now cid [] s = s"
| "add_links now cid (g # gs) s = add_links now cid gs ((take_id s)\<lparr>organization_contract_genes :=
     organization_contract_genes s @ [contract_gene_row (new_id s) now (cid, g)]\<rparr>)"

definition replace_atoms :: "timestamp \<Rightarrow> ident \<Rightarrow> ident list \<Rightarrow> 'z db_scheme \<Rightarrow> 'z db_scheme" where
  "replace_atoms now cid desired s =
     (let current = map ocg_user_gene_id (filter (\<lambda>l. ocg_contract_id l = cid \<and> live l) (organization_contract_genes s))
      in add_links now cid (filter (\<lambda>g. g \<notin> set current) desired)
           (s\<lparr>organization_contract_genes := retire now (\<lambda>l. ocg_contract_id l = cid \<and> ocg_user_gene_id l \<notin> set desired)
                (organization_contract_genes s)\<rparr>))"

definition update_org_member_atoms ::
    "timestamp \<Rightarrow> ident \<Rightarrow> ident \<Rightarrow> string list \<Rightarrow> current_user \<Rightarrow> 'z db_scheme \<Rightarrow> ('z db_scheme \<times> member_item) result" where
  "update_org_member_atoms now oid cid slugs cu s =
     (case org_with_permission cu oid ''can_manage_org_members'' s of
        Inl e \<Rightarrow> Inl e
      | Inr x \<Rightarrow>
         (case get_org_contract (row_id x) cid s of
            Inl e \<Rightarrow> Inl e
          | Inr c \<Rightarrow>
             (case atom_genes now slugs s of
                Inl e \<Rightarrow> Inl e
              | Inr (s1, genes) \<Rightarrow>
                 (case guard_cannot_lock_self cu (row_id x) c (Some slugs) s1 of
                    Inl e \<Rightarrow> Inl e
                  | Inr _ \<Rightarrow> item_or_404 c (replace_atoms now (row_id c) (remdups (map row_id genes)) s1)))))"

definition delete_org_member :: "timestamp \<Rightarrow> ident \<Rightarrow> ident \<Rightarrow> current_user \<Rightarrow> 'z db_scheme \<Rightarrow> 'z db_scheme result" where
  "delete_org_member now oid cid cu s =
     (case org_with_permission cu oid ''can_manage_org_members'' s of
        Inl e \<Rightarrow> Inl e
      | Inr x \<Rightarrow>
         (case get_org_contract (row_id x) cid s of
            Inl e \<Rightarrow> Inl e
          | Inr c \<Rightarrow>
             (case guard_cannot_lock_self cu (row_id x) c None s of
                Inl e \<Rightarrow> Inl e
              | Inr _ \<Rightarrow> Inr (s\<lparr>
                  organization_contract_genes := retire now (\<lambda>l. ocg_contract_id l = row_id c) (organization_contract_genes s),
                  organization_contracts := update_where (\<lambda>r. row_id r = row_id c) (soft_delete now) (organization_contracts s)\<rparr>))))"

end
