(* ===== verification/Org_Members.thy ===== *)
theory Org_Members
  imports Organizations Permissions_Props Deploy_Props
begin

text \<open>
  What the requests on Organizations do to grants: every step keeps the grants of the contracts it does
  not name, creation gives every atom, and the guard keeps a manager in every Organization.
\<close>

lemma map_sum_is_Inr: "map_sum id f r = Inr v \<longleftrightarrow> (\<exists>w. r = Inr w \<and> v = f w)"
  by (cases r) auto

section \<open>Identifiers\<close>

definition fresh_table :: "'a base_row_scheme list \<Rightarrow> ident set \<Rightarrow> bool" where
  "fresh_table rows used \<longleftrightarrow> distinct (map row_id rows) \<and> row_id ` set rows \<subseteq> used"

definition org_ids_ok :: "'z db_scheme \<Rightarrow> bool" where
  "org_ids_ok s \<longleftrightarrow> inj (id_source s) \<and> fresh_table (organization_contracts s) (used_ids s) \<and>
     fresh_table (user_genes s) (used_ids s) \<and> fresh_table (organizations s) (used_ids s)"

lemma fresh_append:
  "fresh_table rows used \<Longrightarrow> row_id r \<notin> used \<Longrightarrow> fresh_table (rows @ [r]) (insert (row_id r) used)"
  by (auto simp: fresh_table_def)

lemma fresh_mono: "fresh_table rows used \<Longrightarrow> used \<subseteq> used' \<Longrightarrow> fresh_table rows used'"
  by (auto simp: fresh_table_def)

lemma fresh_map: "map row_id rows' = map row_id rows \<Longrightarrow> fresh_table rows' used = fresh_table rows used"
  unfolding fresh_table_def by (metis set_map)

lemma used_ids_tables [simp]:
  "used_ids (s\<lparr>user_genes := x1\<rparr>) = used_ids s" "used_ids (s\<lparr>organization_contracts := x2\<rparr>) = used_ids s"
  "used_ids (s\<lparr>organization_contract_genes := x3\<rparr>) = used_ids s" "used_ids (s\<lparr>organizations := x4\<rparr>) = used_ids s"
  by (simp_all add: used_ids_def)

section \<open>Growth\<close>

text \<open>Outside the contracts of \<open>K\<close> no grant is lost, and who the users are does not change.\<close>

definition grows :: "ident set \<Rightarrow> 'z db_scheme \<Rightarrow> 'z db_scheme \<Rightarrow> bool" where
  "grows K s t \<longleftrightarrow> users t = users s \<and>
     (\<forall>c \<in> set (organization_contracts s). live c \<and> row_id c \<notin> K \<longrightarrow> c \<in> set (organization_contracts t)) \<and>
     (\<forall>g \<in> set (user_genes s). live g \<longrightarrow> (\<exists>h \<in> set (user_genes t). live h \<and> row_id h = row_id g \<and> ug_slug h = ug_slug g)) \<and>
     (\<forall>k \<in> links contract_gene_key (organization_contract_genes s). fst k \<notin> K \<longrightarrow>
        k \<in> links contract_gene_key (organization_contract_genes t))"

lemma grows_refl [simp]: "grows K s s"
  by (auto simp: grows_def)

lemma grows_trans: "grows K s t \<Longrightarrow> grows K t u \<Longrightarrow> grows K s u"
  unfolding grows_def by (metis (no_types, lifting))

lemma grows_weaken: "grows {} s t \<Longrightarrow> grows K s t"
  by (auto simp: grows_def)

lemma grows_slugs:
  assumes "grows K s t" and "a \<in> set (org_slugs P s)" and "\<And>c. P c \<Longrightarrow> row_id c \<notin> K"
  shows "a \<in> set (org_slugs P t)"
proof -
  from assms(2) obtain c g where c: "c \<in> set (organization_contracts s)" "P c" "live c"
    and g: "g \<in> set (user_genes s)" "live g" "ug_slug g = a"
    and l: "(row_id c, row_id g) \<in> links contract_gene_key (organization_contract_genes s)"
    by (auto simp: in_org_slugs)
  have k: "row_id c \<notin> K" using assms(3) c(2) .
  from assms(1) g obtain h where h: "h \<in> set (user_genes t)" "live h" "row_id h = row_id g" "ug_slug h = a"
    unfolding grows_def by metis
  have "c \<in> set (organization_contracts t)" using assms(1) c k unfolding grows_def by blast
  moreover have "(row_id c, row_id h) \<in> links contract_gene_key (organization_contract_genes t)"
    using assms(1) l k unfolding grows_def h(3) by (metis fst_conv)
  ultimately show ?thesis unfolding in_org_slugs using c(2,3) h by (intro bexI [of _ c] conjI bexI [of _ h]) simp_all
qed

section \<open>The atoms\<close>

text \<open>What a step leaves as it is while it writes genes.\<close>

definition same_orgs :: "'z db_scheme \<Rightarrow> 'z db_scheme \<Rightarrow> bool" where
  "same_orgs s t \<longleftrightarrow> organizations t = organizations s \<and> users t = users s"

lemma same_orgs_refl [simp]: "same_orgs s s"
  by (simp add: same_orgs_def)

lemma same_orgs_trans: "same_orgs s t \<Longrightarrow> same_orgs t u \<Longrightarrow> same_orgs s u"
  by (simp add: same_orgs_def)

lemma gene_by_slug_ex: "gene_by_slug s a \<noteq> None \<longleftrightarrow> (\<exists>g \<in> set (user_genes s). ug_slug g = a \<and> live g)"
  by (auto simp: gene_by_slug_def first_where_None_iff)

lemma ensure_atom_gene_effect:
  assumes "org_ids_ok s" and "ensure_atom_gene now a s = Inr t"
  shows "org_ids_ok t \<and> grows {} s t \<and> same_orgs s t \<and> organization_contracts t = organization_contracts s \<and>
    organization_contract_genes t = organization_contract_genes s \<and> gene_by_slug t (fst a) \<noteq> None"
proof -
  consider (new) "t = (take_id s)\<lparr>user_genes := user_genes s @ [new_atom_gene (new_id s) now a]\<rparr>"
    | (old) g where "filter (\<lambda>g. ug_slug g = fst a \<and> live g) (user_genes s) = [g]"
        "t = s\<lparr>user_genes := update_where (\<lambda>r. row_id r = row_id g)
          (\<lambda>_. modified now g (g\<lparr>effect_scope := snd a, ug_kind := ''builtin''\<rparr>)) (user_genes s)\<rparr>"
    using assms(2) by (auto simp: ensure_atom_gene_def split: sum.splits option.splits dest!: scalar_one_SomeD)
  then show ?thesis
  proof cases
    case new
    have "new_id s \<notin> used_ids s" using assms(1) new_id_fresh [of s] by (simp add: org_ids_ok_def)
    then have "org_ids_ok t"
      using assms(1) fresh_append [of "user_genes s" "used_ids s" "new_atom_gene (new_id s) now a"]
      by (auto simp: org_ids_ok_def new new_atom_gene_def intro: fresh_mono)
    moreover have "gene_by_slug t (fst a) \<noteq> None"
      unfolding gene_by_slug_ex by (simp add: new new_atom_gene_def live_def)
    moreover have "grows {} s t" by (auto simp: grows_def new)
    ultimately show ?thesis by (simp add: new same_orgs_def)
  next
    case old
    let ?h = "modified now g (g\<lparr>effect_scope := snd a, ug_kind := ''builtin''\<rparr>)"
    have h: "row_id ?h = row_id g" "ug_slug ?h = ug_slug g" "live ?h = live g"
      by (simp_all add: modified_def touch_def live_def)
    have "g \<in> set (filter (\<lambda>g. ug_slug g = fst a \<and> live g) (user_genes s))" unfolding old(1) by simp
    then have g: "g \<in> set (user_genes s)" "ug_slug g = fst a" "live g" by simp_all
    have d: "distinct (map row_id (user_genes s))" using assms(1) by (simp add: org_ids_ok_def fresh_table_def)
    have row: "\<exists>q \<in> set (user_genes t). live q \<and> row_id q = row_id r \<and> ug_slug q = ug_slug r"
      if "r \<in> set (user_genes s)" "live r" for r
    proof (cases "row_id r = row_id g")
      case True
      with same_row [OF d that(1) g(1)] have "r = g" by simp
      then show ?thesis using update_where_hit [OF that(1), of "\<lambda>r. row_id r = row_id g" "\<lambda>_. ?h"] h that(2) by (auto simp: old(2))
    qed (use that in \<open>auto simp: old(2) intro!: update_where_keep bexI [of _ r]\<close>)
    have "map row_id (user_genes t) = map row_id (user_genes s)"
      by (simp add: old(2) map_update_where h)
    then have "org_ids_ok t" using assms(1) fresh_map [of "user_genes t" "user_genes s"] by (simp add: org_ids_ok_def old(2))
    moreover have "grows {} s t" using row by (auto simp: grows_def old(2))
    moreover have "gene_by_slug t (fst a) \<noteq> None" unfolding gene_by_slug_ex using row [OF g(1,3)] g(2) by (auto intro: bexI)
    ultimately show ?thesis by (simp add: old(2) same_orgs_def)
  qed
qed

lemma grows_gene: "grows K s t \<Longrightarrow> gene_by_slug s a \<noteq> None \<Longrightarrow> gene_by_slug t a \<noteq> None"
  unfolding gene_by_slug_ex grows_def by metis

lemma ensure_each_effect:
  assumes "org_ids_ok s" and "ensure_each now as s = Inr t"
  shows "org_ids_ok t \<and> grows {} s t \<and> same_orgs s t \<and> organization_contracts t = organization_contracts s \<and>
    organization_contract_genes t = organization_contract_genes s \<and> (\<forall>a \<in> set as. gene_by_slug t (fst a) \<noteq> None)"
  using assms
proof (induction as arbitrary: s)
  case (Cons a as)
  from Cons.prems(2) obtain s1 where s1: "ensure_atom_gene now a s = Inr s1" "ensure_each now as s1 = Inr t"
    by (auto split: sum.splits)
  note e = ensure_atom_gene_effect [OF Cons.prems(1) s1(1)]
  note f = Cons.IH [OF conjunct1 [OF e] s1(2)]
  have "gene_by_slug t (fst a) \<noteq> None" using grows_gene [of "{}" s1 t "fst a"] e f by simp
  moreover have "grows {} s t" using grows_trans [of "{}" s s1 t] e f by simp
  moreover have "same_orgs s t" using same_orgs_trans [of s s1 t] e f by simp
  ultimately show ?case using e f by simp
qed simp

lemma ensure_atom_genes_effect:
  assumes "org_ids_ok s" and "ensure_atom_genes now s = Inr t"
  shows "org_ids_ok t" "grows {} s t" "same_orgs s t" "organization_contracts t = organization_contracts s"
    "organization_contract_genes t = organization_contract_genes s" "a \<in> set ORG_OWNER_ATOMS \<Longrightarrow> gene_by_slug t a \<noteq> None"
proof -
  note e = ensure_each_effect [OF assms(1) assms(2) [unfolded ensure_atom_genes_def]]
  then show "org_ids_ok t" "grows {} s t" "same_orgs s t" "organization_contracts t = organization_contracts s"
    "organization_contract_genes t = organization_contract_genes s" by simp_all
  show "a \<in> set ORG_OWNER_ATOMS \<Longrightarrow> gene_by_slug t a \<noteq> None" using e by (auto simp: ORG_OWNER_ATOMS_def)
qed

section \<open>Granting\<close>

lemma org_contract_effect:
  assumes "org_ids_ok s" and "ensure_org_contract now org uid pack s = Inr (t, c)"
  shows "org_ids_ok t" "grows {} s t" "same_orgs s t" "user_genes t = user_genes s" "live c" "oc_organization_id c = org"
    "c \<in> set (organization_contracts t)" "member_contracts uid org t = [c]"
proof -
  let ?found = "filter (\<lambda>c. oc_organization_id c = org \<and> oc_user_id c = uid \<and> live c) (organization_contracts s)"
  have m: "member_contracts uid org s = ?found" unfolding member_contracts_def by (rule filter_cong) auto
  consider (old) "t = s" "?found = [c]"
    | (new) "t = (take_id s)\<lparr>organization_contracts := organization_contracts s @ [c]\<rparr>" "row_id c = new_id s"
        "live c" "oc_user_id c = uid" "oc_organization_id c = org" "?found = []"
    using assms(2) by (auto simp: ensure_org_contract_def Let_def live_def scalar_one_or_none_def
        split: sum.splits option.splits if_splits list.splits)
  then have "org_ids_ok t \<and> grows {} s t \<and> same_orgs s t \<and> user_genes t = user_genes s \<and> live c \<and> oc_organization_id c = org \<and>
    c \<in> set (organization_contracts t) \<and> member_contracts uid org t = [c]"
  proof cases
    case old
    have "c \<in> set ?found" unfolding old(2) by simp
    then have "live c" "oc_organization_id c = org" "c \<in> set (organization_contracts s)" by simp_all
    with old assms(1) m show ?thesis by simp
  next
    case new
    have "new_id s \<notin> used_ids s" using assms(1) new_id_fresh [of s] by (simp add: org_ids_ok_def)
    then have "org_ids_ok t"
      using assms(1) fresh_append [of "organization_contracts s" "used_ids s" c]
      by (auto simp: org_ids_ok_def new intro: fresh_mono)
    moreover have "member_contracts uid org t = [c]"
      using new m by (simp add: member_contracts_def)
    ultimately show ?thesis using new by (auto simp: grows_def same_orgs_def)
  qed
  then show "org_ids_ok t" "grows {} s t" "same_orgs s t" "user_genes t = user_genes s" "live c" "oc_organization_id c = org"
    "c \<in> set (organization_contracts t)" "member_contracts uid org t = [c]" by blast+
qed

lemma grant_atom_grows:
  assumes "org_ids_ok s" and "grant_atom now k s = Inr t"
  shows "org_ids_ok t \<and> grows {} s t \<and> same_orgs s t \<and> user_genes t = user_genes s \<and>
    organization_contracts t = organization_contracts s \<and> k \<in> links contract_gene_key (organization_contract_genes t)"
proof -
  consider (old) x where "t = s" "x \<in> set (organization_contract_genes s)" "contract_gene_key x = k" "live x"
    | (new) "t = (take_id s)\<lparr>organization_contract_genes := organization_contract_genes s @ [contract_gene_row (new_id s) now k]\<rparr>"
  proof (cases "find_link contract_gene_key k (organization_contract_genes s)")
    case (Inr r)
    show ?thesis
    proof (cases r)
      case None
      then show ?thesis using Inr assms(2) by (intro new) (auto simp: grant_atom_def attach_link_def split: if_splits)
    next
      case (Some x)
      have "x \<in> set (filter (\<lambda>x. contract_gene_key x = k \<and> live x) (organization_contract_genes s))"
        using scalar_one_SomeD [of _ x] Inr Some unfolding find_link_def by fastforce
      then show ?thesis using Inr Some assms(2) by (intro old [of x]) (auto simp: grant_atom_def attach_link_def)
    qed
  qed (use assms(2) in \<open>auto simp: grant_atom_def attach_link_def\<close>)
  then show ?thesis
  proof cases
    case old
    then show ?thesis using assms(1) by (auto simp: in_links)
  next
    case new
    have r: "live (contract_gene_row (new_id s) now k)" "contract_gene_key (contract_gene_row (new_id s) now k) = k"
      by (simp_all add: contract_gene_row_def live_def contract_gene_key_def)
    then show ?thesis using assms(1) unfolding new
      by (auto simp: org_ids_ok_def grows_def same_orgs_def links_append intro: fresh_mono)
  qed
qed

lemma grant_each_grows:
  assumes "org_ids_ok s" and "grant_each now cid slugs s = Inr t"
  shows "org_ids_ok t \<and> grows {} s t \<and> same_orgs s t \<and> user_genes t = user_genes s \<and>
    organization_contracts t = organization_contracts s \<and>
    (\<forall>a \<in> set slugs. \<exists>g. gene_by_slug s a = Some g \<and> (cid, row_id g) \<in> links contract_gene_key (organization_contract_genes t))"
  using assms
proof (induction slugs arbitrary: s)
  case (Cons a slugs)
  from Cons.prems(2) obtain g s1 where g: "gene_by_slug s a = Some g" and s1: "grant_atom now (cid, row_id g) s = Inr s1"
    "grant_each now cid slugs s1 = Inr t"
    by (auto split: sum.splits option.splits)
  note e = grant_atom_grows [OF Cons.prems(1) s1(1)]
  note f = Cons.IH [OF conjunct1 [OF e] s1(2)]
  have "gene_by_slug s1 b = gene_by_slug s b" for b using e by (simp add: gene_by_slug_def)
  moreover have "(cid, row_id g) \<in> links contract_gene_key (organization_contract_genes t)"
    using e f unfolding grows_def by blast
  moreover have "grows {} s t" using grows_trans [of "{}" s s1 t] e f by simp
  moreover have "same_orgs s t" using same_orgs_trans [of s s1 t] e f by simp
  ultimately show ?case using g e f by auto
qed simp

lemma grant_atoms_grows:
  assumes "org_ids_ok s" and "grant_atoms now cid slugs s = Inr t"
  shows "org_ids_ok t" "grows {} s t" "same_orgs s t" "user_genes t = user_genes s"
    "organization_contracts t = organization_contracts s"
    "a \<in> set slugs \<Longrightarrow> \<exists>g. gene_by_slug s a = Some g \<and> (cid, row_id g) \<in> links contract_gene_key (organization_contract_genes t)"
proof -
  have "t = s \<and> slugs = [] \<or> grant_each now cid slugs s = Inr t" using assms(2) by (auto simp: grant_atoms_def split: if_splits)
  then have "org_ids_ok t \<and> grows {} s t \<and> same_orgs s t \<and> user_genes t = user_genes s \<and>
    organization_contracts t = organization_contracts s \<and>
    (\<forall>a \<in> set slugs. \<exists>g. gene_by_slug s a = Some g \<and> (cid, row_id g) \<in> links contract_gene_key (organization_contract_genes t))"
    using assms(1) grant_each_grows [OF assms(1)] by auto
  then show "org_ids_ok t" "grows {} s t" "same_orgs s t" "user_genes t = user_genes s"
    "organization_contracts t = organization_contracts s"
    "a \<in> set slugs \<Longrightarrow> \<exists>g. gene_by_slug s a = Some g \<and> (cid, row_id g) \<in> links contract_gene_key (organization_contract_genes t)"
    by blast+
qed

section \<open>Creation\<close>

lemma create_organization_cases:
  assumes "create_organization now b uid s = Inr (t, x)"
  obtains s2 s3 c where "x = new_organization (new_id s) now b"
    "ensure_atom_genes now ((take_id s)\<lparr>organizations := organizations s @ [x]\<rparr>) = Inr s2"
    "ensure_org_contract now (row_id x) uid None s2 = Inr (s3, c)" "grant_atoms now (row_id c) ORG_OWNER_ATOMS s3 = Inr t"
  using assms that by (auto simp: create_organization_def Let_def map_sum_is_Inr split: if_splits sum.splits option.splits)

lemma created_organization:
  assumes ok: "org_ids_ok s" and c: "create_organization now b uid s = Inr (t, x)"
  shows "org_ids_ok t" "grows {} s t" "users t = users s" "organizations t = organizations s @ [x]" "live x"
    "row_id x \<notin> row_id ` set (organizations s)" "\<exists>d. member_contracts uid (row_id x) t = [d]"
    "a \<in> set ORG_OWNER_ATOMS \<Longrightarrow> org_holds uid (row_id x) a t"
proof -
  from create_organization_cases [OF c] obtain s2 s3 d where x: "x = new_organization (new_id s) now b"
    and s2: "ensure_atom_genes now ((take_id s)\<lparr>organizations := organizations s @ [x]\<rparr>) = Inr s2"
    and s3: "ensure_org_contract now (row_id x) uid None s2 = Inr (s3, d)" and t: "grant_atoms now (row_id d) ORG_OWNER_ATOMS s3 = Inr t"
    by blast
  let ?s1 = "(take_id s)\<lparr>organizations := organizations s @ [x]\<rparr>"
  have fresh: "row_id x \<notin> used_ids s" using ok new_id_fresh [of s] by (simp add: org_ids_ok_def x new_organization_def)
  have "row_id x = new_id s" by (simp add: x new_organization_def)
  then have s1: "org_ids_ok ?s1"
    using ok fresh fresh_append [of "organizations s" "used_ids s" x] by (auto simp: org_ids_ok_def intro: fresh_mono)
  note e2 = ensure_atom_genes_effect [OF s1 s2]
  note e3 = org_contract_effect [OF e2(1) s3]
  note e4 = grant_atoms_grows [OF e3(1) t]
  have "grows {} s ?s1" by (auto simp: grows_def)
  with e2(2) e3(2) e4(2) show "grows {} s t" by (blast intro: grows_trans)
  show "org_ids_ok t" by (fact e4(1))
  have "same_orgs ?s1 t" using e2(3) e3(3) e4(3) by (blast intro: same_orgs_trans)
  then show "users t = users s" "organizations t = organizations s @ [x]" by (simp_all add: same_orgs_def)
  show "live x" by (simp add: x new_organization_def live_def)
  show "row_id x \<notin> row_id ` set (organizations s)" using ok fresh by (auto simp: org_ids_ok_def fresh_table_def)
  show "\<exists>d. member_contracts uid (row_id x) t = [d]" using e3(8) e4(5) by (simp add: member_contracts_def)
  show "org_holds uid (row_id x) a t" if "a \<in> set ORG_OWNER_ATOMS"
  proof -
    from e4(6) [OF that] obtain g where g: "gene_by_slug s3 a = Some g"
      "(row_id d, row_id g) \<in> links contract_gene_key (organization_contract_genes t)" by blast
    have "d \<in> set (member_contracts uid (row_id x) s3)" by (simp add: e3(8))
    then have "oc_user_id d = uid" by (simp add: member_contracts_def)
    then show ?thesis using g e3(5-7) e4(4,5) gene_by_slug_SomeD [OF g(1)] unfolding org_holds_def by auto
  qed
qed

section \<open>A tenant to evaluate on\<close>

definition sample_tenants :: tenancy where
  "sample_tenants = (brain.extend (cluster.extend (sample_cluster DS_running) (brain.fields [] [] [] [] [] Map.empty)) (tenancy.fields [] []))
     \<lparr>id_source := sample_ids, id_next := 10, organizations := [], namespaces := [], users := [base_row.extend (tenant_row ''u'')
        (user.fields ''ann'' None ''ann@x'' ''h'' False)], user_genes := [], organization_contracts := [], organization_contract_genes := [],
      namespace_contracts := [], namespace_contract_genes := [], workspaces := [], entities := [], instances := [], base_classes := []\<rparr>"

definition ann :: current_user where
  "ann = \<lparr>cu_user_id = ''u'', cu_is_super_admin = False, cu_token = None\<rparr>"

definition world_of_ann :: organization_create where
  "world_of_ann = \<lparr>or_slug = ''ann'', or_name = ''Ann'', or_description = None, or_use_proxy = False, or_proxy_host = None,
     or_proxy_port = None, or_proxy_username = None, or_proxy_password = None\<rparr>"

lemma sample_tenants_ok: "org_ids_ok sample_tenants"
  by (simp add: org_ids_ok_def sample_tenants_def fresh_table_def sample_ids_ok)

lemma sample_creates: "is_ok (create_organization 1 world_of_ann ''u'' sample_tenants)"
  by code_simp

end
