(* ===== verification/Llm_Client.thy ===== *)
theory Llm_Client
  imports Overlay Agent_Loop "HOL-Library.AList"
begin

text \<open>
  The client of the language models (\<^verbatim>\<open>app/services/llm/llm_client.py\<close>): what is sent for each request
  format and how an answer becomes one response or a stream of tokens, and the registry of clients
  (\<^verbatim>\<open>app/services/llm/provider_router.py\<close>). The SDKs and the HTTP library are a parameter: a function
  from the call to the text of an exception or the reply.
\<close>

section \<open>JSON the way Python reads it\<close>

fun type_name :: "json \<Rightarrow> string" where
  "type_name JNull = ''NoneType''"
| "type_name (JBool _) = ''bool''"
| "type_name (JInt _) = ''int''"
| "type_name (JSeconds _) = ''float''"
| "type_name (JStr _) = ''str''"
| "type_name (JList _) = ''list''"
| "type_name (JObj _) = ''dict''"

definition and_then :: "'e + 'a \<Rightarrow> ('a \<Rightarrow> 'e + 'b) \<Rightarrow> 'e + 'b" where
  "and_then r f = (case r of Inl e \<Rightarrow> Inl e | Inr v \<Rightarrow> f v)"

lemma and_then_simps [simp]: "and_then (Inl e) f = Inl e" "and_then (Inr v) f = f v"
  by (simp_all add: and_then_def)

text \<open>\<open>j.get(k)\<close> and \<open>for x in j\<close>.\<close>

definition attr_get :: "json \<Rightarrow> string \<Rightarrow> string + json" where
  "attr_get j k = (case j of JObj ob \<Rightarrow> Inr (jget_null ob k)
     | _ \<Rightarrow> Inl (CHR 0x27 # type_name j @ CHR 0x27 # '' object has no attribute '' @ CHR 0x27 # ''get'' @ [CHR 0x27]))"

definition json_iter :: "json \<Rightarrow> string + json list" where
  "json_iter j = (case j of JList xs \<Rightarrow> Inr xs | JObj ob \<Rightarrow> Inr (map (\<lambda>(k, _). JStr k) ob) | JStr s \<Rightarrow> Inr (map (\<lambda>c. JStr [c]) s)
     | _ \<Rightarrow> Inl (CHR 0x27 # type_name j @ CHR 0x27 # '' object is not iterable''))"

definition json_text :: "json \<Rightarrow> string + string" where
  "json_text j = (case j of JStr s \<Rightarrow> Inr s
     | _ \<Rightarrow> Inl (''can only concatenate str (not '' @ CHR 0x22 # type_name j @ CHR 0x22 # '') to str''))"

definition json_int :: "json \<Rightarrow> string + int" where
  "json_int j =
     (case j of JInt i \<Rightarrow> Inr i | JBool b \<Rightarrow> Inr (if b then 1 else 0)
      | JSeconds n \<Rightarrow> Inr (if n < 0 then - (- n div 1000000) else n div 1000000)
      | JStr s \<Rightarrow> (case parse_int s of Some i \<Rightarrow> Inr i
                 | None \<Rightarrow> Inl (''invalid literal for int() with base 10: '' @ repr_str s))
      | _ \<Rightarrow> Inl (''int() argument must be a string, a bytes-like object or a real number, not '' @ CHR 0x27 # type_name j @ [CHR 0x27]))"

definition rstrip_char :: "char \<Rightarrow> string \<Rightarrow> string" where
  "rstrip_char c s = rev (dropWhile (\<lambda>d. d = c) (rev s))"

section \<open>Clients\<close>

datatype llm_error = LLMError (le_key: string) (le_message: string)

record llm_client =
  cl_provider_type :: string
  cl_api_key :: string
  cl_base_url :: "string option"
  cl_default_model :: string
  cl_verify_ssl :: bool
  cl_format :: string

definition LEGACY_TO_FORMAT :: "(string \<times> string) list" where
  "LEGACY_TO_FORMAT = [(''openai-compatible'', ''completion''), (''openai-responses'', ''response''),
     (''anthropic'', ''anthropic''), (''custom'', ''completion''), (''gemini'', ''gemini'')]"

definition lookup_or :: "(string \<times> 'a) list \<Rightarrow> string \<Rightarrow> 'a \<Rightarrow> 'a" where
  "lookup_or al k d = (case map_of al k of None \<Rightarrow> d | Some v \<Rightarrow> v)"

definition new_client ::
    "string \<Rightarrow> string \<Rightarrow> string option \<Rightarrow> string \<Rightarrow> bool \<Rightarrow> string option \<Rightarrow> llm_error + llm_client" where
  "new_client ptype key url model verify format =
     (let f = str_or format (lookup_or LEGACY_TO_FORMAT ptype ''completion'')
      in if f \<in> {''completion'', ''response'', ''anthropic'', ''gemini''}
         then Inr \<lparr>cl_provider_type = ptype, cl_api_key = key, cl_base_url = url, cl_default_model = model,
                cl_verify_ssl = verify, cl_format = f\<rparr>
         else Inl (LLMError ''errors.llm.unknown_provider''
                (''Unknown request_format/provider_type: '' @ f @ ''/'' @ ptype)))"

record llm_message =
  lm_role :: string
  lm_content :: string

datatype sdk_call =
    Chat_Completions string "llm_message list" int json
  | Responses_Create string string int json
  | Messages_Create string "llm_message list" int json "string option"
  | Generate_Content string string json

text \<open>
  The replies: choices with their content and finish reason; output text; content blocks, with no
  text for those that have none; a status, a body and what \<open>resp.json()\<close> makes of it.
\<close>

datatype sdk_reply =
    Chat_Reply "(string option \<times> string option) list" "(int \<times> int) option" string
  | Responses_Reply "string option" "(int \<times> int) option" string
  | Messages_Reply "string option list" "(int \<times> int) option" string "string option"
  | Http_Reply int string "string + json"

definition tokens :: "(int \<times> int) option \<Rightarrow> int \<times> int" where
  "tokens usage = (case usage of None \<Rightarrow> (0, 0) | Some u \<Rightarrow> u)"

definition complete_openai_chat :: "sdk_reply \<Rightarrow> string + llm_response" where
  "complete_openai_chat r =
     (case r of
        Chat_Reply ((c, fin) # _) usage m \<Rightarrow>
          Inr \<lparr>lr_content = str_or c [], lr_prompt_tokens = fst (tokens usage), lr_completion_tokens = snd (tokens usage),
             lr_model = m, lr_stop_reason = str_or fin ''stop''\<rparr>
      | _ \<Rightarrow> Inl ''list index out of range'')"

definition responses_input :: "llm_message list \<Rightarrow> string" where
  "responses_input msgs = (if msgs = [] then [] else lm_content (last msgs))"

definition complete_openai_responses :: "sdk_reply \<Rightarrow> string + llm_response" where
  "complete_openai_responses r =
     (case r of
        Responses_Reply out usage m \<Rightarrow>
          Inr \<lparr>lr_content = (case out of None \<Rightarrow> [] | Some t \<Rightarrow> t), lr_prompt_tokens = fst (tokens usage),
             lr_completion_tokens = snd (tokens usage), lr_model = m, lr_stop_reason = ''stop''\<rparr>
      | _ \<Rightarrow> Inl ''unexpected reply'')"

text \<open>Anthropic takes one system text beside the messages: the last one given, unless it is empty.\<close>

definition anthropic_system :: "llm_message list \<Rightarrow> string option" where
  "anthropic_system msgs =
     (case filter (\<lambda>m. lm_role m = ''system'') msgs of
        [] \<Rightarrow> None | ms \<Rightarrow> if lm_content (last ms) = [] then None else Some (lm_content (last ms)))"

definition complete_anthropic :: "sdk_reply \<Rightarrow> string + llm_response" where
  "complete_anthropic r =
     (case r of
        Messages_Reply blocks usage m reason \<Rightarrow>
          Inr \<lparr>lr_content = concat (List.map_filter id blocks), lr_prompt_tokens = fst (tokens usage),
             lr_completion_tokens = snd (tokens usage), lr_model = m, lr_stop_reason = str_or reason ''end_turn''\<rparr>
      | _ \<Rightarrow> Inl ''unexpected reply'')"

section \<open>Gemini\<close>

definition text_part :: "string \<Rightarrow> json" where
  "text_part t = JObj [(''text'', JStr t)]"

definition gemini_content :: "llm_message \<Rightarrow> json" where
  "gemini_content m = JObj [(''role'', JStr (if lm_role m = ''assistant'' then ''model'' else ''user'')),
     (''parts'', JList [text_part (lm_content m)])]"

definition gemini_body :: "llm_message list \<Rightarrow> int \<Rightarrow> json \<Rightarrow> json" where
  "gemini_body msgs mt temp =
     (let systems = map lm_content (filter (\<lambda>m. lm_role m = ''system'') msgs)
      in JObj ([(''contents'', JList (map gemini_content (filter (\<lambda>m. lm_role m \<noteq> ''system'') msgs))),
           (''generationConfig'', JObj [(''maxOutputTokens'', JInt mt), (''temperature'', temp)])] @
           (if systems = [] then [] else [(''systemInstruction'', JObj [(''parts'', JList [text_part (join [CHR 0x0A] systems)])])])))"

definition gemini_url :: "llm_client \<Rightarrow> string \<Rightarrow> string" where
  "gemini_url c model = rstrip_char CHR ''/'' (str_or (cl_base_url c) ''https://generativelanguage.googleapis.com/v1beta'')
     @ ''/models/'' @ model @ '':generateContent''"

fun concat_each :: "('j \<Rightarrow> string + string) \<Rightarrow> 'j list \<Rightarrow> string + string" where
  "concat_each f [] = Inr []"
| "concat_each f (j # js) = and_then (f j) (\<lambda>t. and_then (concat_each f js) (\<lambda>u. Inr (t @ u)))"

definition part_text :: "json \<Rightarrow> string + string" where
  "part_text part = and_then (attr_get part ''text'') (\<lambda>t. json_text (json_or t (JStr [])))"

definition candidate_text :: "json \<Rightarrow> string + string" where
  "candidate_text cand =
     and_then (attr_get cand ''content'') (\<lambda>c.
     and_then (attr_get (json_or c (JObj [])) ''parts'') (\<lambda>ps.
     and_then (json_iter (json_or ps (JList []))) (concat_each part_text)))"

definition gemini_text :: "json \<Rightarrow> string + string" where
  "gemini_text data = and_then (attr_get data ''candidates'') (\<lambda>cs.
     and_then (json_iter (json_or cs (JList []))) (concat_each candidate_text))"

definition token_count :: "json \<Rightarrow> string \<Rightarrow> string + int" where
  "token_count usage k = and_then (attr_get usage k) (\<lambda>n. json_int (json_or n (JInt 0)))"

definition gemini_response :: "string \<Rightarrow> json \<Rightarrow> string + llm_response" where
  "gemini_response model data =
     and_then (gemini_text data) (\<lambda>t.
     and_then (attr_get data ''usageMetadata'') (\<lambda>u.
     and_then (token_count (json_or u (JObj [])) ''promptTokenCount'') (\<lambda>p.
     and_then (token_count (json_or u (JObj [])) ''candidatesTokenCount'') (\<lambda>q.
       Inr \<lparr>lr_content = t, lr_prompt_tokens = p, lr_completion_tokens = q, lr_model = model, lr_stop_reason = ''stop''\<rparr>))))"

definition complete_gemini :: "string \<Rightarrow> sdk_reply \<Rightarrow> string + llm_response" where
  "complete_gemini model r =
     (case r of
        Http_Reply status body data \<Rightarrow>
          (if 400 \<le> status then Inl (''Gemini HTTP '' @ str_of_int status @ '': '' @ take 500 body)
           else and_then data (gemini_response model))
      | _ \<Rightarrow> Inl ''unexpected reply'')"

section \<open>complete and stream\<close>

definition sdk_request :: "llm_client \<Rightarrow> llm_message list \<Rightarrow> int \<Rightarrow> json \<Rightarrow> string \<Rightarrow> sdk_call" where
  "sdk_request c msgs mt temp model =
     (if cl_format c = ''anthropic''
      then Messages_Create model (filter (\<lambda>m. lm_role m \<noteq> ''system'') msgs) mt temp (anthropic_system msgs)
      else if cl_format c = ''response'' then Responses_Create model (responses_input msgs) mt temp
      else if cl_format c = ''gemini'' then Generate_Content (gemini_url c model) (cl_api_key c) (gemini_body msgs mt temp)
      else Chat_Completions model msgs mt temp)"

definition read_reply :: "llm_client \<Rightarrow> string \<Rightarrow> sdk_reply \<Rightarrow> string + llm_response" where
  "read_reply c model =
     (if cl_format c = ''anthropic'' then complete_anthropic
      else if cl_format c = ''response'' then complete_openai_responses
      else if cl_format c = ''gemini'' then complete_gemini model
      else complete_openai_chat)"

text \<open>Every exception, the client's own and those of the SDK, leaves as the same kind of error.\<close>

definition call_failed :: "string \<Rightarrow> llm_error" where
  "call_failed = LLMError ''errors.llm.call_failed''"

definition complete ::
    "(llm_client \<Rightarrow> sdk_call \<Rightarrow> string + sdk_reply) \<Rightarrow> llm_client \<Rightarrow> llm_message list \<Rightarrow> int \<Rightarrow> json \<Rightarrow> string option \<Rightarrow>
     llm_error + llm_response" where
  "complete sdk c msgs mt temp model =
     (let m = str_or model (cl_default_model c)
      in map_sum call_failed id (and_then (sdk c (sdk_request c msgs mt temp m)) (read_reply c m)))"

record llm_chunk =
  tc_token :: string
  tc_finish :: "string option"

text \<open>
  An event of the SDK's stream: the finish reason and the text of the first choice, when it has one.
  The stream ends, or breaks with an exception.
\<close>

type_synonym stream_event = "(string option \<times> string option) option"

fun chunks :: "string option \<Rightarrow> stream_event list \<Rightarrow> llm_chunk list \<times> string option" where
  "chunks fin [] = ([], fin)"
| "chunks fin (None # es) = chunks fin es"
| "chunks fin (Some (f, d) # es) =
     (let (cs, last_fin) = chunks (if truthy f then f else fin) es
      in ((if truthy d then [\<lparr>tc_token = the d, tc_finish = None\<rparr>] else []) @ cs, last_fin))"

definition stream_openai_chat :: "stream_event list \<Rightarrow> string option \<Rightarrow> llm_chunk list \<times> llm_error option" where
  "stream_openai_chat es broken =
     (case broken of
        Some e \<Rightarrow> (fst (chunks None es), Some (call_failed e))
      | None \<Rightarrow> (fst (chunks None es) @ [\<lparr>tc_token = [], tc_finish = Some (str_or (snd (chunks None es)) ''stop'')\<rparr>], None))"

definition single_chunk :: "llm_response \<Rightarrow> llm_chunk" where
  "single_chunk r = (if lr_content r \<noteq> [] then \<lparr>tc_token = lr_content r, tc_finish = Some (lr_stop_reason r)\<rparr>
     else \<lparr>tc_token = [], tc_finish = Some (str_or (Some (lr_stop_reason r)) ''stop'')\<rparr>)"

definition stream ::
    "(llm_client \<Rightarrow> sdk_call \<Rightarrow> string + sdk_reply) \<Rightarrow> (llm_client \<Rightarrow> sdk_call \<Rightarrow> stream_event list \<times> string option) \<Rightarrow>
     llm_client \<Rightarrow> llm_message list \<Rightarrow> int \<Rightarrow> json \<Rightarrow> string option \<Rightarrow> llm_chunk list \<times> llm_error option" where
  "stream sdk open_stream c msgs mt temp model =
     (if cl_format c = ''completion''
      then (let (es, broken) = open_stream c (Chat_Completions (str_or model (cl_default_model c)) msgs mt temp)
            in stream_openai_chat es broken)
      else case complete sdk c msgs mt temp (Some (str_or model (cl_default_model c))) of
             Inl e \<Rightarrow> ([], Some e)
           | Inr r \<Rightarrow> ([single_chunk r], None))"

definition API_KEY_ENV :: "(string \<times> string) list" where
  "API_KEY_ENV = [(''openai-compatible'', ''OPENAI_API_KEY''), (''openai-responses'', ''OPENAI_API_KEY''),
     (''anthropic'', ''ANTHROPIC_API_KEY''), (''custom'', ''CUSTOM_LLM_API_KEY''), (''gemini'', ''GEMINI_API_KEY'')]"

type_synonym process_env = "string \<Rightarrow> string option"

definition make_client_from_env :: "process_env \<Rightarrow> string \<Rightarrow> string \<Rightarrow> llm_error + llm_client" where
  "make_client_from_env environ ptype model =
     new_client ptype (case environ (lookup_or API_KEY_ENV ptype ''OPENAI_API_KEY'') of None \<Rightarrow> [] | Some k \<Rightarrow> k)
       (if ptype \<in> {''openai-compatible'', ''custom''} then environ ''OPENAI_BASE_URL'' else None) model True None"

section \<open>The registry of clients (provider_router.py)\<close>

record provider_config =
  pc_provider_type :: string
  pc_api_key :: string
  pc_base_url :: "string option"
  pc_default_model :: string

record provider_router =
  configs :: "(string \<times> provider_config) list"
  clients :: "(string \<times> llm_client) list"

datatype router_error = ProviderNotFoundError string | Client_Error llm_error

definition register :: "string \<Rightarrow> provider_config \<Rightarrow> provider_router \<Rightarrow> provider_router" where
  "register name cfg r = r\<lparr>configs := AList.update name cfg (configs r), clients := AList.delete name (clients r)\<rparr>"

definition client_of :: "provider_config \<Rightarrow> llm_error + llm_client" where
  "client_of cfg = new_client (pc_provider_type cfg) (pc_api_key cfg) (pc_base_url cfg) (pc_default_model cfg) True None"

definition get_client :: "string \<Rightarrow> provider_router \<Rightarrow> (router_error + llm_client) \<times> provider_router" where
  "get_client name r =
     (case map_of (configs r) name of
        None \<Rightarrow> (Inl (ProviderNotFoundError name), r)
      | Some cfg \<Rightarrow>
         (case map_of (clients r) name of
            Some c \<Rightarrow> (Inr c, r)
          | None \<Rightarrow> (case client_of cfg of
                      Inl e \<Rightarrow> (Inl (Client_Error e), r)
                    | Inr c \<Rightarrow> (Inr c, r\<lparr>clients := AList.update name c (clients r)\<rparr>))))"

definition list_providers :: "provider_router \<Rightarrow> string list" where
  "list_providers r = sort (map fst (configs r))"

definition has_provider :: "string \<Rightarrow> provider_router \<Rightarrow> bool" where
  "has_provider name r = (map_of (configs r) name \<noteq> None)"

definition unregister :: "string \<Rightarrow> provider_router \<Rightarrow> provider_router" where
  "unregister name r = r\<lparr>configs := AList.delete name (configs r), clients := AList.delete name (clients r)\<rparr>"

section \<open>Facts\<close>

text \<open>The tokens of a stream are the texts of its events, whatever lies between them.\<close>

lemma chunks_text: "concat (map tc_token (fst (chunks fin es))) = concat (map (\<lambda>e. case e of Some (_, Some d) \<Rightarrow> d | _ \<Rightarrow> []) es)"
  by (induction fin es rule: chunks.induct) (auto simp: Let_def split: prod.splits option.splits)

lemma stream_text:
  "cl_format c = ''completion'' \<Longrightarrow> open_stream c (Chat_Completions (str_or model (cl_default_model c)) msgs mt temp) = (es, broken) \<Longrightarrow>
   concat (map tc_token (fst (stream sdk open_stream c msgs mt temp model))) =
     concat (map (\<lambda>e. case e of Some (_, Some d) \<Rightarrow> d | _ \<Rightarrow> []) es)"
  by (simp add: stream_def stream_openai_chat_def chunks_text split: option.splits)

text \<open>The response format sends the last message alone: the system text of the callers is lost.\<close>

lemma response_format_sends_last:
  "cl_format c = ''response'' \<Longrightarrow> msgs \<noteq> [] \<Longrightarrow> sdk_request c msgs mt temp m = sdk_request c [last msgs] mt temp m"
  by (simp add: sdk_request_def responses_input_def)

text \<open>A cached client is always the one its present configuration gives.\<close>

definition router_ok :: "provider_router \<Rightarrow> bool" where
  "router_ok r \<longleftrightarrow> (\<forall>name c. map_of (clients r) name = Some c \<longrightarrow>
     (\<exists>cfg. map_of (configs r) name = Some cfg \<and> client_of cfg = Inr c))"

lemma router_okD: "router_ok r \<Longrightarrow> map_of (clients r) name = Some c \<Longrightarrow>
    \<exists>cfg. map_of (configs r) name = Some cfg \<and> client_of cfg = Inr c"
  by (simp add: router_ok_def)

lemma router_ok_steps [inv_intros]:
  "router_ok r \<Longrightarrow> router_ok (register name cfg r)" "router_ok r \<Longrightarrow> router_ok (unregister name r)"
  "router_ok r \<Longrightarrow> router_ok (snd (get_client name r))"
  by (auto simp: router_ok_def register_def unregister_def get_client_def AList.update_conv' AList.delete_conv'
      split: option.splits sum.splits if_splits)

lemma get_client_configs [simp]: "configs (snd (get_client name r)) = configs r"
  by (simp add: get_client_def split: option.splits sum.splits)

definition router_get :: "(string \<Rightarrow> provider_config option) \<Rightarrow> string \<Rightarrow> router_error + llm_client" where
  "router_get m name = (case m name of None \<Rightarrow> Inl (ProviderNotFoundError name) | Some cfg \<Rightarrow> map_sum Client_Error id (client_of cfg))"

lemma get_client_spec:
  assumes "router_ok r"
  shows "fst (get_client name r) = router_get (map_of (configs r)) name"
proof (cases "map_of (clients r) name")
  case None
  then show ?thesis by (simp add: get_client_def router_get_def split: option.splits sum.splits)
next
  case (Some c)
  with router_okD [OF assms] obtain cfg where "map_of (configs r) name = Some cfg" "client_of cfg = Inr c" by blast
  then show ?thesis using Some by (simp add: get_client_def router_get_def)
qed

section \<open>Programs over the registry\<close>

datatype 'c registry_op = Register string 'c | Get_Client string | Unregister string

fun answers :: "(string \<Rightarrow> 'c \<Rightarrow> 's \<Rightarrow> 's) \<Rightarrow> (string \<Rightarrow> 's \<Rightarrow> 's) \<Rightarrow> (string \<Rightarrow> 's \<Rightarrow> 'r \<times> 's) \<Rightarrow>
    'c registry_op list \<Rightarrow> 's \<Rightarrow> 'r list" where
  "answers put out get [] s = []"
| "answers put out get (Register name cfg # ops) s = answers put out get ops (put name cfg s)"
| "answers put out get (Unregister name # ops) s = answers put out get ops (out name s)"
| "answers put out get (Get_Client name # ops) s = fst (get name s) # answers put out get ops (snd (get name s))"

text \<open>A registry that keeps configurations and may keep more: its lookups depend on the configurations alone.\<close>

locale client_registry =
  fixes ok :: "'s \<Rightarrow> bool"
    and conf :: "'s \<Rightarrow> string \<Rightarrow> 'c option"
    and put :: "string \<Rightarrow> 'c \<Rightarrow> 's \<Rightarrow> 's"
    and out :: "string \<Rightarrow> 's \<Rightarrow> 's"
    and get :: "string \<Rightarrow> 's \<Rightarrow> 'r \<times> 's"
    and look :: "(string \<Rightarrow> 'c option) \<Rightarrow> string \<Rightarrow> 'r"
  assumes put_laws: "ok s \<Longrightarrow> ok (put name cfg s)" "conf (put name cfg s) = (conf s)(name \<mapsto> cfg)"
    and out_laws: "ok s \<Longrightarrow> ok (out name s)" "conf (out name s) = (conf s)(name := None)"
    and get_laws: "ok s \<Longrightarrow> ok (snd (get name s))" "conf (snd (get name s)) = conf s"
      "ok s \<Longrightarrow> fst (get name s) = look (conf s) name"
begin

lemma answers_by_configuration:
  "ok s \<Longrightarrow> answers put out get ops s =
     answers (\<lambda>name cfg m. m(name \<mapsto> cfg)) (\<lambda>name m. m(name := None)) (\<lambda>name m. (look m name, m)) ops (conf s)"
proof (induction ops arbitrary: s)
  case (Cons op ops)
  then show ?case by (cases op) (simp_all only: answers.simps put_laws out_laws get_laws fst_conv snd_conv)
qed simp

end

interpretation clients: client_registry router_ok "\<lambda>r. map_of (configs r)" register unregister get_client router_get
proof unfold_locales
  fix s :: provider_router and name cfg
  show "map_of (configs (register name cfg s)) = (map_of (configs s))(name \<mapsto> cfg)"
    by (simp add: register_def fun_eq_iff AList.update_conv)
  show "map_of (configs (unregister name s)) = (map_of (configs s))(name := None)"
    by (simp add: unregister_def fun_eq_iff AList.delete_conv)
qed (simp_all add: router_ok_steps get_client_spec)

definition router_answers :: "provider_config registry_op list \<Rightarrow> provider_router \<Rightarrow> (router_error + llm_client) list" where
  "router_answers = answers register unregister get_client"

definition uncached_answers :: "provider_config registry_op list \<Rightarrow> (string \<Rightarrow> provider_config option) \<Rightarrow> (router_error + llm_client) list" where
  "uncached_answers = answers (\<lambda>name cfg m. m(name \<mapsto> cfg)) (\<lambda>name m. m(name := None)) (\<lambda>name m. (router_get m name, m))"

text \<open>
  The registry's cache cannot be seen: in every sequence of registrations, removals and lookups
  on a new registry each lookup answers what building a client from the configuration registered last
  under that name gives, and a name that is not registered is refused.
\<close>

theorem router_cache_transparent:
  "router_answers ops \<lparr>configs = [], clients = []\<rparr> = uncached_answers ops Map.empty"
  using clients.answers_by_configuration [of "\<lparr>configs = [], clients = []\<rparr>" ops]
  by (simp add: router_ok_def router_answers_def uncached_answers_def)

end
