(* ===== verification/Model_Catalog.thy ===== *)
theory Model_Catalog
  imports Llm_Client
begin

text \<open>
  The catalog of models (\<^verbatim>\<open>app/services/llm/model_catalog.py\<close>): entries read from the document of
  models.dev, the snapshot served before the first answer and kept when a refresh fails, and the
  helpers on providers of \<^verbatim>\<open>app/services/llm/org_provider.py\<close> that need no row. The entries keep the JSON
  values of the document, which nothing checks.
\<close>

section \<open>Names and formats (org_provider.py)\<close>

definition occurs_in :: "string \<Rightarrow> string \<Rightarrow> bool" where
  "occurs_in p s = list_ex (starts_with p) (suffixes s)"

definition kebab_char :: "char \<Rightarrow> bool" where
  "kebab_char c = (CHR ''a'' \<le> c \<and> c \<le> CHR ''z'' \<or> CHR ''0'' \<le> c \<and> c \<le> CHR ''9'')"

text \<open>\<open>re.sub\<close> of a maximal run of other characters by one hyphen.\<close>

fun hyphenate :: "string \<Rightarrow> string" where
  "hyphenate [] = []"
| "hyphenate (c # s) =
     (if kebab_char c then c # hyphenate s else CHR ''-'' # hyphenate (dropWhile (\<lambda>d. \<not> kebab_char d) s))"

definition strip_char :: "char \<Rightarrow> string \<Rightarrow> string" where
  "strip_char c s = rstrip_char c (dropWhile (\<lambda>d. d = c) s)"

definition slugify :: "string \<Rightarrow> string" where
  "slugify v = (let s = strip_char CHR ''-'' (hyphenate (lower (strip v))) in if s = [] then ''provider'' else s)"

definition NPM_TO_FORMAT :: "(string \<times> string) list" where
  "NPM_TO_FORMAT = [(''@ai-sdk/openai'', ''completion''), (''@ai-sdk/openai-compatible'', ''completion''),
     (''@ai-sdk/azure'', ''completion''), (''@ai-sdk/anthropic'', ''anthropic''), (''@ai-sdk/google'', ''gemini''),
     (''@ai-sdk/google-vertex'', ''gemini'')]"

definition infer_request_format :: "json_obj \<Rightarrow> string" where
  "infer_request_format d =
     (case (case jget_null d ''npm'' of JStr n \<Rightarrow> map_of NPM_TO_FORMAT n | _ \<Rightarrow> None) of
        Some f \<Rightarrow> f
      | None \<Rightarrow>
         (let blob = lower (py_str (json_or (jget_null d ''id'') (JStr []))) @ '' '' @
                     lower (py_str (json_or (jget_null d ''name'') (JStr [])))
          in if occurs_in ''anthropic'' blob \<or> occurs_in ''claude'' blob then ''anthropic''
             else if occurs_in ''gemini'' blob \<or> occurs_in ''google'' blob then ''gemini''
             else ''completion''))"

definition resolve_api_key :: "process_env \<Rightarrow> string \<Rightarrow> llm_error + string" where
  "resolve_api_key environ ref =
     (if strip ref = [] then Inl (LLMError ''errors.llm.api_key_missing'' ''API key is empty'')
      else Inr (str_or (environ (strip ref)) (strip ref)))"

definition FORMAT_TO_PROVIDER_TYPE :: "(string \<times> string) list" where
  "FORMAT_TO_PROVIDER_TYPE = [(''completion'', ''openai-compatible''), (''response'', ''openai-responses''),
     (''anthropic'', ''anthropic''), (''gemini'', ''gemini'')]"

definition request_format_to_provider_type :: "string \<Rightarrow> string" where
  "request_format_to_provider_type f = lookup_or FORMAT_TO_PROVIDER_TYPE f ''openai-compatible''"

section \<open>Entries\<close>

record model_info =
  mo_id :: string
  mo_name :: json
  mo_provider :: string
  mo_context_length :: json
  mo_pricing :: json
  mo_description :: json
  mo_reasoning :: "bool option"
  mo_tool_call :: "bool option"
  mo_attachment :: "bool option"
  mo_modalities :: "json_obj option"
  mo_limit_output :: json
  mo_cost :: json

record provider_info =
  pi_id :: string
  pi_name :: string
  pi_api :: json
  pi_format :: string
  pi_model_count :: nat
  pi_doc :: json
  pi_raw :: json_obj

definition builtin_model :: "string \<times> string \<times> string \<times> int \<Rightarrow> model_info" where
  "builtin_model m = (case m of (i, n, p, c) \<Rightarrow> \<lparr>mo_id = i, mo_name = JStr n, mo_provider = p, mo_context_length = JInt c,
     mo_pricing = JNull, mo_description = JNull, mo_reasoning = None, mo_tool_call = None, mo_attachment = None,
     mo_modalities = None, mo_limit_output = JNull, mo_cost = JNull\<rparr>)"

definition BUILTIN_FALLBACK :: "(string \<times> string \<times> string \<times> int) list" where
  "BUILTIN_FALLBACK = [
     (''gpt-4o'', ''GPT-4o'', ''openai'', 128000), (''gpt-4o-mini'', ''GPT-4o Mini'', ''openai'', 128000),
     (''gpt-4-turbo'', ''GPT-4 Turbo'', ''openai'', 128000), (''gpt-3.5-turbo'', ''GPT-3.5 Turbo'', ''openai'', 16385),
     (''o1-preview'', ''o1 Preview'', ''openai'', 128000), (''o1-mini'', ''o1 Mini'', ''openai'', 128000),
     (''claude-3-5-sonnet-latest'', ''Claude 3.5 Sonnet'', ''anthropic'', 200000),
     (''claude-3-5-haiku-latest'', ''Claude 3.5 Haiku'', ''anthropic'', 200000),
     (''claude-3-opus-latest'', ''Claude 3 Opus'', ''anthropic'', 200000),
     (''gemini-2.0-flash'', ''Gemini 2.0 Flash'', ''google'', 1000000), (''gemini-1.5-pro'', ''Gemini 1.5 Pro'', ''google'', 2000000),
     (''deepseek-chat'', ''DeepSeek Chat'', ''deepseek'', 64000), (''deepseek-reasoner'', ''DeepSeek Reasoner'', ''deepseek'', 64000),
     (''qwen2.5-72b-instruct'', ''Qwen 2.5 72B Instruct'', ''alibaba'', 131072),
     (''llama-3.3-70b-instruct'', ''Llama 3.3 70B'', ''meta'', 131072),
     (''mistral-large-latest'', ''Mistral Large'', ''mistral'', 128000), (''command-r-plus'', ''Command R+'', ''cohere'', 128000),
     (''grok-2'', ''Grok 2'', ''xai'', 131072), (''yi-large'', ''Yi Large'', ''zeroone'', 32768),
     (''moonshot-v1-128k'', ''Moonshot v1 128k'', ''moonshot'', 131072)]"

definition BUILTIN_PROVIDERS :: "json_obj list" where
  "BUILTIN_PROVIDERS = [
     [(''id'', JStr ''openai''), (''name'', JStr ''OpenAI''), (''api'', JStr ''https://api.openai.com/v1''),
      (''npm'', JStr ''@ai-sdk/openai'')],
     [(''id'', JStr ''anthropic''), (''name'', JStr ''Anthropic''), (''api'', JStr ''https://api.anthropic.com''),
      (''npm'', JStr ''@ai-sdk/anthropic'')],
     [(''id'', JStr ''google''), (''name'', JStr ''Google''), (''api'', JStr ''https://generativelanguage.googleapis.com/v1beta''),
      (''npm'', JStr ''@ai-sdk/google'')]]"

definition build_builtin_fallback :: "model_info list" where
  "build_builtin_fallback = map builtin_model BUILTIN_FALLBACK"

definition builtin_provider_info :: "json_obj \<Rightarrow> provider_info" where
  "builtin_provider_info p =
     \<lparr>pi_id = py_str (jget_null p ''id''), pi_name = py_str (jget_null p ''name''), pi_api = jget_null p ''api'',
      pi_format = infer_request_format p,
      pi_model_count = length (filter (\<lambda>m. fst (snd (snd m)) = py_str (jget_null p ''id'')) BUILTIN_FALLBACK),
      pi_doc = JNull, pi_raw = p\<rparr>"

definition builtin_provider_infos :: "provider_info list" where
  "builtin_provider_infos = map builtin_provider_info BUILTIN_PROVIDERS"

definition providers_from_raw :: "json_obj \<Rightarrow> provider_info list" where
  "providers_from_raw data = List.map_filter (\<lambda>(pid, d). case d of
     JObj ob \<Rightarrow> (let enriched = jset ''id'' (JStr pid) ob
       in Some \<lparr>pi_id = pid, pi_name = py_str (json_or (jget_null ob ''name'') (JStr pid)), pi_api = jget_null ob ''api'',
            pi_format = infer_request_format enriched,
            pi_model_count = (case json_or (jget_null ob ''models'') (JObj []) of JObj ms \<Rightarrow> length ms | _ \<Rightarrow> 0),
            pi_doc = jget_null ob ''doc'', pi_raw = enriched\<rparr>)
     | _ \<Rightarrow> None) data"

definition obj_field :: "json \<Rightarrow> string \<Rightarrow> json" where
  "obj_field j k = (case j of JObj ob \<Rightarrow> jget_null ob k | _ \<Rightarrow> JNull)"

definition bool_field :: "json_obj \<Rightarrow> string \<Rightarrow> bool option" where
  "bool_field ob k = (case jget_null ob k of JBool b \<Rightarrow> Some b | _ \<Rightarrow> None)"

definition parse_model :: "string \<Rightarrow> string \<Rightarrow> json_obj \<Rightarrow> model_info" where
  "parse_model pid mid ob =
     \<lparr>mo_id = mid, mo_name = (case jget ob ''name'' of None \<Rightarrow> JStr mid | Some n \<Rightarrow> n), mo_provider = pid,
      mo_context_length = obj_field (jget_null ob ''limit'') ''context'', mo_pricing = jget_null ob ''cost'',
      mo_description = jget_null ob ''description'', mo_reasoning = bool_field ob ''reasoning'',
      mo_tool_call = bool_field ob ''tool_call'', mo_attachment = bool_field ob ''attachment'',
      mo_modalities = (case jget_null ob ''modalities'' of JObj m \<Rightarrow> Some m | _ \<Rightarrow> None),
      mo_limit_output = obj_field (jget_null ob ''limit'') ''output'', mo_cost = jget_null ob ''cost''\<rparr>"

definition parse_provider_models :: "string \<times> json \<Rightarrow> model_info list" where
  "parse_provider_models e =
     (case e of
        (pid, JObj ob) \<Rightarrow>
          (case jget ob ''models'' of
             Some (JObj ms) \<Rightarrow> List.map_filter (\<lambda>(mid, d). case d of JObj m \<Rightarrow> Some (parse_model pid mid m) | _ \<Rightarrow> None) ms
           | _ \<Rightarrow> [])
      | _ \<Rightarrow> [])"

definition parse_models :: "json_obj \<Rightarrow> model_info list" where
  "parse_models data = concat (map parse_provider_models data)"

section \<open>What the modalities say\<close>

definition modality_set :: "json_obj option \<Rightarrow> string \<Rightarrow> string set option" where
  "modality_set m k =
     (case m of
        None \<Rightarrow> None
      | Some ob \<Rightarrow> (case jget_null ob k of JList xs \<Rightarrow> Some (set (map (\<lambda>x. lower (py_str x)) xs)) | _ \<Rightarrow> None))"

definition infer_vision :: "json_obj option \<Rightarrow> bool option \<Rightarrow> bool option" where
  "infer_vision m attachment =
     (case modality_set m ''input'' of Some ins \<Rightarrow> Some (''image'' \<in> ins \<or> attachment = Some True) | None \<Rightarrow> attachment)"

definition infer_image_gen :: "json_obj option \<Rightarrow> bool option" where
  "infer_image_gen m = map_option (\<lambda>outs. ''image'' \<in> outs) (modality_set m ''output'')"

definition infer_video :: "json_obj option \<Rightarrow> bool option" where
  "infer_video m = map_option (\<lambda>ins. ''video'' \<in> ins) (modality_set m ''input'')"

definition infer_model_type :: "json_obj option \<Rightarrow> string option" where
  "infer_model_type m =
     (case (modality_set m ''input'', modality_set m ''output'') of
        (Some ins, Some outs) \<Rightarrow>
          (if ''audio'' \<in> ins \<and> ''audio'' \<in> outs then Some ''realtime''
           else if ''text'' \<in> ins \<and> ''audio'' \<in> outs then Some ''tts''
           else if ''audio'' \<in> ins \<and> ''text'' \<in> outs then Some ''asr''
           else if ''image'' \<in> outs \<and> ''image'' \<notin> ins then Some ''image''
           else if ''video'' \<in> outs then Some ''video''
           else if ''text'' \<in> ins \<and> ''text'' \<in> outs then Some ''chat'' else None)
      | _ \<Rightarrow> None)"

section \<open>The catalog\<close>

record catalog =
  ca_models :: "model_info list option"
  ca_providers :: "provider_info list option"
  ca_raw :: "json_obj option"
  ca_time :: timestamp
  ca_degraded :: bool
  ca_source :: string
  ca_ttl :: timestamp
  ca_refreshing :: bool

definition CACHE_TTL_SECONDS :: int where
  "CACHE_TTL_SECONDS = 7 * 24 * 3600"

definition new_catalog :: "timestamp \<Rightarrow> catalog" where
  "new_catalog ttl = \<lparr>ca_models = None, ca_providers = None, ca_raw = None, ca_time = 0, ca_degraded = False,
     ca_source = ''empty'', ca_ttl = ttl, ca_refreshing = False\<rparr>"

definition apply_raw :: "timestamp \<Rightarrow> json_obj \<Rightarrow> string \<Rightarrow> bool \<Rightarrow> catalog \<Rightarrow> catalog" where
  "apply_raw now raw source degraded c = c\<lparr>ca_models := Some (parse_models raw), ca_providers := Some (providers_from_raw raw),
     ca_raw := Some raw, ca_time := now, ca_degraded := degraded, ca_source := source\<rparr>"

text \<open>The bundled file: no file and a file that is not JSON are the same \<open>None\<close>.\<close>

definition load_bundled_raw :: "json option \<Rightarrow> json_obj option" where
  "load_bundled_raw file = (case file of Some (JObj ob) \<Rightarrow> (if ob = [] then None else Some ob) | _ \<Rightarrow> None)"

definition fresh :: "timestamp \<Rightarrow> catalog \<Rightarrow> bool" where
  "fresh now c \<longleftrightarrow> now - ca_time c < ca_ttl c"

definition maybe_schedule_refresh :: "timestamp \<Rightarrow> catalog \<Rightarrow> catalog" where
  "maybe_schedule_refresh now c =
     (if ca_refreshing c \<or> ca_source c = ''live'' \<and> fresh now c then c else c\<lparr>ca_refreshing := True\<rparr>)"

definition load_snapshot :: "timestamp \<Rightarrow> json option \<Rightarrow> catalog \<Rightarrow> catalog" where
  "load_snapshot now file c =
     (case load_bundled_raw file of
        Some raw \<Rightarrow> apply_raw now raw ''bundled'' True c
      | None \<Rightarrow> c\<lparr>ca_degraded := True, ca_source := ''builtin'', ca_raw := None, ca_models := Some build_builtin_fallback,
          ca_providers := Some builtin_provider_infos, ca_time := now\<rparr>)"

definition cached_models :: "catalog \<Rightarrow> model_info list" where
  "cached_models c = (case ca_models c of None \<Rightarrow> [] | Some ms \<Rightarrow> ms)"

definition get_fresh :: "timestamp \<Rightarrow> json option \<Rightarrow> catalog \<Rightarrow> model_info list \<times> catalog" where
  "get_fresh now file c =
     (if ca_models c \<noteq> None \<and> fresh now c then (cached_models c, c)
      else (let c1 = maybe_schedule_refresh now (if ca_models c = None then load_snapshot now file c else c)
            in (cached_models c1, c1)))"

datatype fetched = Fetch_Ok json_obj | Fetch_Timeout | Fetch_Error | Fetch_Cancelled

definition refresh_in_background :: "timestamp \<Rightarrow> fetched \<Rightarrow> catalog \<Rightarrow> catalog" where
  "refresh_in_background now r c =
     (let c1 = c\<lparr>ca_refreshing := False\<rparr>
      in case r of Fetch_Ok raw \<Rightarrow> apply_raw now raw ''live'' False c1
         | Fetch_Cancelled \<Rightarrow> c1 | Fetch_Timeout \<Rightarrow> c1\<lparr>ca_time := now\<rparr> | Fetch_Error \<Rightarrow> c1\<lparr>ca_time := now\<rparr>)"

text \<open>\<open>_fetch_raw\<close>: an exception of the request or its status, else the document.\<close>

definition fetch_raw :: "json option \<Rightarrow> fetched" where
  "fetch_raw r = (case r of Some (JObj ob) \<Rightarrow> Fetch_Ok ob | _ \<Rightarrow> Fetch_Error)"

definition list_models :: "timestamp \<Rightarrow> json option \<Rightarrow> string option \<Rightarrow> catalog \<Rightarrow> model_info list \<times> catalog" where
  "list_models now file p c =
     (let (ms, c1) = get_fresh now file c
      in (case p of None \<Rightarrow> ms | Some pid \<Rightarrow> filter (\<lambda>m. mo_provider m = pid) ms, c1))"

definition matches :: "string \<Rightarrow> string \<Rightarrow> string \<Rightarrow> bool" where
  "matches q i n \<longleftrightarrow> occurs_in (lower q) (lower i) \<or> occurs_in (lower q) (lower n)"

definition known_providers :: "catalog \<Rightarrow> provider_info list" where
  "known_providers c = (case ca_providers c of Some (p # ps) \<Rightarrow> p # ps | _ \<Rightarrow> builtin_provider_infos)"

definition list_catalog_providers :: "timestamp \<Rightarrow> json option \<Rightarrow> string option \<Rightarrow> catalog \<Rightarrow> (provider_info list \<times> bool) \<times> catalog" where
  "list_catalog_providers now file q c =
     (let c1 = snd (get_fresh now file c)
      in ((if truthy q then filter (\<lambda>p. matches (the q) (pi_id p) (pi_name p)) (known_providers c1) else known_providers c1,
           ca_degraded c1), c1))"

definition get_catalog_provider :: "timestamp \<Rightarrow> json option \<Rightarrow> string \<Rightarrow> catalog \<Rightarrow> provider_info option \<times> catalog" where
  "get_catalog_provider now file pid c =
     (let ((ps, _), c1) = list_catalog_providers now file None c in (find (\<lambda>p. pi_id p = pid) ps, c1))"

definition list_models_for_catalog_provider ::
    "timestamp \<Rightarrow> json option \<Rightarrow> string \<Rightarrow> catalog \<Rightarrow> (model_info list \<times> bool) \<times> catalog" where
  "list_models_for_catalog_provider now file pid c =
     (let (ms, c1) = list_models now file (Some pid) c in ((ms, ca_degraded c1), c1))"

section \<open>Facts\<close>

lemma get_fresh_models: "ca_models (snd (get_fresh now file c)) \<noteq> None"
  by (auto simp: get_fresh_def Let_def maybe_schedule_refresh_def load_snapshot_def apply_raw_def split: option.splits)

text \<open>Whatever becomes of the refreshes, the models that are served once are never lost.\<close>

lemma refresh_keeps_models:
  "ca_models c \<noteq> None \<Longrightarrow> ca_models (refresh_in_background now r c) \<noteq> None"
  "(\<forall>raw. r \<noteq> Fetch_Ok raw) \<Longrightarrow> ca_models (refresh_in_background now r c) = ca_models c"
  by (auto simp: refresh_in_background_def apply_raw_def Let_def split: fetched.splits)

text \<open>
  A refresh that fails counts as an answer: the snapshot passes for fresh, and nothing asks again,
  for the whole week.
\<close>

lemma failed_refresh_pins_snapshot:
  assumes "r = Fetch_Timeout \<or> r = Fetch_Error" and "ca_models c \<noteq> None" and "t < now + ca_ttl c"
  shows "get_fresh t file (refresh_in_background now r c) = (cached_models c, refresh_in_background now r c)"
  using assms by (auto simp: get_fresh_def refresh_in_background_def fresh_def cached_models_def)

lemma slugify_nonempty: "slugify v \<noteq> []"
  by (simp add: slugify_def Let_def)

end
