(* ===== verification/Org_Providers.thy ===== *)
theory Org_Providers
  imports Organizations Model_Catalog
begin

text \<open>
  The providers of an Organization and what is bound to them (\<^verbatim>\<open>app/api/v1/organizations.py\<close>, the rest
  of \<^verbatim>\<open>app/services/llm/org_provider.py\<close>): creation from the catalog or by hand, the list of models asked
  of a remote endpoint, the test call, the bindings of the hub, the cerebellum and the BaseClasses, and
  the reads of the catalog (\<^verbatim>\<open>app/api/v1/provider_catalog.py\<close>, \<^verbatim>\<open>app/api/v1/model_catalog.py\<close>).
\<close>

section \<open>The outside\<close>

record models_request =
  rq_url :: string
  rq_headers :: "(string \<times> string) list"
  rq_verify :: bool

text \<open>
  What is not in the store: the process environment, the HTTP GET (an exception, or a status, a body
  and what \<open>resp.json()\<close> makes of it), the model SDKs, the conversion Pydantic makes of a value to an
  integer, and the bundled file of the catalog.
\<close>

record outside =
  environ :: process_env
  http_get :: "models_request \<Rightarrow> string + (int \<times> string \<times> (string + json))"
  sdk :: "llm_client \<Rightarrow> sdk_call \<Rightarrow> string + sdk_reply"
  as_int :: "json \<Rightarrow> int option"
  bundled :: "json option"

record site = tenancy +
  model_catalog :: catalog

section \<open>Asking an endpoint for its models (org_provider.py)\<close>

definition build_llm_client ::
    "outside \<Rightarrow> organization_provider \<Rightarrow> string option \<Rightarrow> llm_error + llm_client" where
  "build_llm_client out p model = and_then (resolve_api_key (environ out) (api_key_ref p)) (\<lambda>key.
     new_client (request_format_to_provider_type (request_format p)) key (base_url p) (str_or model (default_model p))
       (verify_ssl p) (Some (request_format p)))"

definition ends_with :: "string \<Rightarrow> string \<Rightarrow> bool" where
  "ends_with x s = starts_with (rev x) (rev s)"

definition models_url_from_parts :: "string option \<Rightarrow> string \<Rightarrow> string option \<Rightarrow> string + string" where
  "models_url_from_parts url mode models_url =
     (if mode = ''separate''
      then (let base = rstrip_char CHR ''/'' (str_or models_url [])
            in if base = [] then Inl ''models_base_url is empty''
               else if ends_with ''/models'' base then Inr base else Inr (base @ ''/models''))
      else (let base = rstrip_char CHR ''/'' (str_or url [])
            in if base = [] then Inl ''base_url is empty'' else Inr (base @ ''/models'')))"

definition models_headers :: "string \<Rightarrow> string \<Rightarrow> (string \<times> string) list" where
  "models_headers format key =
     (if format = ''anthropic'' then [(''x-api-key'', key), (''anthropic-version'', ''2023-06-01'')]
      else [(''Authorization'', ''Bearer '' @ key)])"

record found_model =
  fm_id :: string
  fm_name :: string
  fm_provider :: string
  fm_context_length :: json

definition found_of :: "string \<Rightarrow> json \<Rightarrow> found_model option" where
  "found_of slug j =
     (case j of
        JObj ob \<Rightarrow>
          (let mid = json_or (jget_null ob ''id'') (jget_null ob ''name'')
           in if json_true mid
              then Some \<lparr>fm_id = py_str mid, fm_name = py_str (json_or (jget_null ob ''name'') mid), fm_provider = slug,
                     fm_context_length = jget_null ob ''context_length''\<rparr>
              else None)
      | _ \<Rightarrow> None)"

definition parse_found :: "string \<Rightarrow> json \<Rightarrow> found_model list" where
  "parse_found slug data =
     (case (case data of JObj ob \<Rightarrow> jget_null ob ''data'' | _ \<Rightarrow> data) of
        JList xs \<Rightarrow> List.map_filter (found_of slug) xs | _ \<Rightarrow> [])"

definition endpoint_request ::
    "outside \<Rightarrow> string \<Rightarrow> string option \<Rightarrow> string \<Rightarrow> bool \<Rightarrow> string \<Rightarrow> string option \<Rightarrow> string + models_request" where
  "endpoint_request out ref url format verify mode models_url =
     and_then (map_sum le_message id (resolve_api_key (environ out) ref)) (\<lambda>key.
     and_then (models_url_from_parts url mode models_url) (\<lambda>u.
       Inr \<lparr>rq_url = u, rq_headers = models_headers format key, rq_verify = verify\<rparr>))"

definition read_models :: "string \<Rightarrow> string + (int \<times> string \<times> (string + json)) \<Rightarrow> string + found_model list" where
  "read_models slug r = and_then r (\<lambda>(status, body, data).
     if 400 \<le> status then Inl (''HTTP '' @ str_of_int status @ '': '' @ take 300 body)
     else map_sum id (parse_found slug) data)"

definition fetch_models_from_endpoint ::
    "outside \<Rightarrow> string \<Rightarrow> string option \<Rightarrow> string \<Rightarrow> bool \<Rightarrow> string \<Rightarrow> string option \<Rightarrow> string \<Rightarrow> found_model list \<times> string option" where
  "fetch_models_from_endpoint out ref url format verify mode models_url slug =
     (case and_then (endpoint_request out ref url format verify mode models_url) (\<lambda>rq. read_models slug (http_get out rq)) of
        Inl e \<Rightarrow> ([], Some e) | Inr items \<Rightarrow> (items, None))"

definition fetch_custom_models :: "outside \<Rightarrow> organization_provider \<Rightarrow> found_model list \<times> string option" where
  "fetch_custom_models out p = fetch_models_from_endpoint out (api_key_ref p) (base_url p) (request_format p) (verify_ssl p)
     (models_endpoint_mode p) (models_base_url p) (pv_slug p)"

section \<open>Answers\<close>

record model_out =
  mu_id :: string
  mu_name :: string
  mu_provider :: string
  mu_context_length :: "int option"
  mu_description :: "string option"
  mu_reasoning :: "bool option"
  mu_tool_call :: "bool option"
  mu_attachment :: "bool option"
  mu_modalities :: "json_obj option"
  mu_limit_output :: "int option"
  mu_cost :: "json_obj option"

definition plain_model :: "string \<Rightarrow> string \<Rightarrow> string \<Rightarrow> int option \<Rightarrow> model_out" where
  "plain_model i n p ctx = \<lparr>mu_id = i, mu_name = n, mu_provider = p, mu_context_length = ctx, mu_description = None,
     mu_reasoning = None, mu_tool_call = None, mu_attachment = None, mu_modalities = None, mu_limit_output = None, mu_cost = None\<rparr>"

text \<open>A value the schema does not take is an exception nobody catches.\<close>

definition int_or_none :: "outside \<Rightarrow> json \<Rightarrow> int option result" where
  "int_or_none out j = (if j = JNull then Inr None
     else case as_int out j of None \<Rightarrow> Inl unhandled_error | Some i \<Rightarrow> Inr (Some i))"

definition str_field :: "json \<Rightarrow> string result" where
  "str_field j = (case j of JStr s \<Rightarrow> Inr s | _ \<Rightarrow> Inl unhandled_error)"

definition str_or_none :: "json \<Rightarrow> string option result" where
  "str_or_none j = (case j of JNull \<Rightarrow> Inr None | JStr s \<Rightarrow> Inr (Some s) | _ \<Rightarrow> Inl unhandled_error)"

definition obj_or_none :: "json \<Rightarrow> json_obj option result" where
  "obj_or_none j = (case j of JNull \<Rightarrow> Inr None | JObj ob \<Rightarrow> Inr (Some ob) | _ \<Rightarrow> Inl unhandled_error)"

definition found_out :: "outside \<Rightarrow> found_model \<Rightarrow> model_out result" where
  "found_out out f = and_then (int_or_none out (fm_context_length f)) (\<lambda>ctx.
     Inr (plain_model (fm_id f) (fm_name f) (fm_provider f) ctx))"

definition model_out_of :: "outside \<Rightarrow> model_info \<Rightarrow> model_out result" where
  "model_out_of out m = and_then (str_field (mo_name m)) (\<lambda>n. and_then (int_or_none out (mo_context_length m)) (\<lambda>ctx.
     Inr (plain_model (mo_id m) n (mo_provider m) ctx)))"

definition full_model_out :: "outside \<Rightarrow> model_info \<Rightarrow> model_out result" where
  "full_model_out out m =
     and_then (model_out_of out m) (\<lambda>r. and_then (str_or_none (mo_description m)) (\<lambda>d.
     and_then (int_or_none out (mo_limit_output m)) (\<lambda>lim. and_then (obj_or_none (mo_cost m)) (\<lambda>cost.
       Inr (r\<lparr>mu_description := d, mu_reasoning := mo_reasoning m, mu_tool_call := mo_tool_call m,
         mu_attachment := mo_attachment m, mu_modalities := mo_modalities m, mu_limit_output := lim, mu_cost := cost\<rparr>)))))"

fun each_ok :: "('a \<Rightarrow> 'b result) \<Rightarrow> 'a list \<Rightarrow> 'b list result" where
  "each_ok f [] = Inr []"
| "each_ok f (x # xs) = and_then (f x) (\<lambda>y. and_then (each_ok f xs) (\<lambda>ys. Inr (y # ys)))"

record models_out =
  mz_items :: "model_out list"
  mz_degraded :: bool
  mz_default_model :: "string option"
  mz_error :: "string option"

section \<open>Providers of one Organization\<close>

definition provider_not_found :: eyot_error where
  "provider_not_found = NotFoundError ''organization_provider.not_found'' ''errors.organization_provider.not_found''"

definition get_org_provider_row :: "ident \<Rightarrow> ident \<Rightarrow> 'z tenancy_scheme \<Rightarrow> organization_provider result" where
  "get_org_provider_row oid pid s =
     (case scalar_one_or_none (filter (\<lambda>p. row_id p = pid \<and> pv_organization_id p = oid \<and> live p) (providers s)) of
        Inl e \<Rightarrow> Inl e | Inr None \<Rightarrow> Inl provider_not_found | Inr (Some p) \<Rightarrow> Inr p)"

definition list_provider_rows :: "organization \<Rightarrow> bool option \<Rightarrow> 'z tenancy_scheme \<Rightarrow> organization_provider list" where
  "list_provider_rows x enabled s =
     sort_key (\<lambda>p. - created_at p) (filter (\<lambda>p. pv_organization_id p = row_id x \<and> live p \<and>
       (case enabled of None \<Rightarrow> True | Some b \<Rightarrow> pv_enabled p = b)) (providers s))"

record provider_create =
  prc_origin :: string
  prc_catalog_provider_id :: "string option"
  prc_name :: "string option"
  prc_slug :: "string option"
  prc_request_format :: "string option"
  prc_base_url :: "string option"
  prc_api_key_ref :: string
  prc_default_model :: "string option"
  prc_models_allowlist :: "string list option"
  prc_verify_ssl :: bool
  prc_models_endpoint_mode :: string
  prc_models_base_url :: "string option"
  prc_enabled :: bool

definition FORMATS :: "string list" where
  "FORMATS = [''completion'', ''response'', ''anthropic'', ''gemini'']"

definition MODES :: "string list" where
  "MODES = [''inherit'', ''separate'']"

definition provider_create_ok :: "provider_create \<Rightarrow> bool" where
  "provider_create_ok b \<longleftrightarrow> prc_origin b \<in> {''catalog'', ''custom''} \<and> prc_models_endpoint_mode b \<in> set MODES \<and>
     (case prc_request_format b of None \<Rightarrow> True | Some f \<Rightarrow> f \<in> set FORMATS) \<and>
     (if prc_origin b = ''catalog'' then truthy (prc_catalog_provider_id b)
      else truthy (prc_name b) \<and> prc_request_format b \<noteq> None \<and> truthy (prc_default_model b) \<and> truthy (prc_base_url b)) \<and>
     (prc_models_endpoint_mode b = ''separate'' \<longrightarrow> truthy (prc_models_base_url b))"

definition new_provider ::
    "ident \<Rightarrow> timestamp \<Rightarrow> ident \<Rightarrow> provider_create \<Rightarrow> string option \<Rightarrow> string \<Rightarrow> string \<Rightarrow> string \<Rightarrow> string option \<Rightarrow> string \<Rightarrow>
     string list option \<Rightarrow> organization_provider" where
  "new_provider i now oid b cat name slug format url model allow =
     \<lparr>row_id = i, created_at = now, updated_at = now, deleted_at = None, pv_organization_id = oid, pv_origin = prc_origin b,
      catalog_provider_id = cat, pv_name = name, pv_slug = slug, request_format = format, base_url = url,
      api_key_ref = prc_api_key_ref b, default_model = model, models_allowlist = allow, model_overrides = None,
      verify_ssl = prc_verify_ssl b, models_endpoint_mode = prc_models_endpoint_mode b, models_base_url = prc_models_base_url b,
      pv_enabled = prc_enabled b, last_test_status = None, last_tested_at = None, last_test_detail = None\<rparr>"

text \<open>The insert: only the indexes of the table can refuse it, and that is not handled.\<close>

definition insert_provider :: "organization_provider \<Rightarrow> 'z tenancy_scheme \<Rightarrow> ('z tenancy_scheme \<times> organization_provider) result" where
  "insert_provider p s =
     (if uq_organization_providers_org_slug (providers s @ [p]) \<and> uq_organization_providers_org_catalog (providers s @ [p])
      then Inr ((take_id s)\<lparr>providers := providers s @ [p]\<rparr>, p) else Inl unhandled_error)"

definition create_catalog_provider ::
    "timestamp \<Rightarrow> outside \<Rightarrow> organization \<Rightarrow> provider_create \<Rightarrow> 'z site_scheme \<Rightarrow> ('z site_scheme \<times> organization_provider) result" where
  "create_catalog_provider now out x b s =
     (let cid = str_or (prc_catalog_provider_id b) [] in
      case scalar_one_or_none (filter (\<lambda>p. pv_organization_id p = row_id x \<and> catalog_provider_id p = Some cid \<and>
               pv_origin p = ''catalog'' \<and> live p) (providers s)) of
        Inl e \<Rightarrow> Inl e
      | Inr (Some _) \<Rightarrow> Inl (ConflictError ''organization_provider.catalog_already_enabled''
                               ''errors.organization_provider.catalog_already_enabled'')
      | Inr None \<Rightarrow>
         (let (entry, c1) = get_catalog_provider now (bundled out) cid (model_catalog s);
              ((models, _), c2) = list_models_for_catalog_provider now (bundled out) cid c1
          in case entry of
               None \<Rightarrow> Inl (NotFoundError ''provider_catalog.not_found'' ''errors.provider_catalog.not_found'')
             | Some e \<Rightarrow>
                and_then (if prc_base_url b \<noteq> None then Inr (prc_base_url b) else str_or_none (pi_api e)) (\<lambda>url.
                  insert_provider (new_provider (new_id s) now (row_id x) b (Some cid) (str_or (prc_name b) (pi_name e))
                      (str_or (prc_slug b) (slugify cid)) (case prc_request_format b of Some f \<Rightarrow> f | None \<Rightarrow> pi_format e) url
                      (str_or (prc_default_model b) (if models = [] then ''gpt-4o-mini'' else mo_id (hd models)))
                      (if prc_models_allowlist b = None \<and> models \<noteq> [] then Some (map mo_id models) else prc_models_allowlist b))
                    (s\<lparr>model_catalog := c2\<rparr>))))"

definition create_custom_provider ::
    "timestamp \<Rightarrow> organization \<Rightarrow> provider_create \<Rightarrow> 'z tenancy_scheme \<Rightarrow> ('z tenancy_scheme \<times> organization_provider) result" where
  "create_custom_provider now x b s =
     (let slug = str_or (prc_slug b) (slugify (str_or (prc_name b) ''custom'')) in
      case scalar_one_or_none (filter (\<lambda>p. pv_organization_id p = row_id x \<and> pv_slug p = slug \<and> live p) (providers s)) of
        Inl e \<Rightarrow> Inl e
      | Inr (Some _) \<Rightarrow> Inl (ConflictError ''organization_provider.slug_taken'' ''errors.organization_provider.slug_taken'')
      | Inr None \<Rightarrow> insert_provider (new_provider (new_id s) now (row_id x) b None (str_or (prc_name b) []) slug
                       (str_or (prc_request_format b) []) (prc_base_url b) (str_or (prc_default_model b) [])
                       (prc_models_allowlist b)) s)"

definition create_provider_row ::
    "timestamp \<Rightarrow> outside \<Rightarrow> organization \<Rightarrow> provider_create \<Rightarrow> 'z site_scheme \<Rightarrow> ('z site_scheme \<times> organization_provider) result" where
  "create_provider_row now out x b s =
     (if prc_origin b = ''catalog'' then create_catalog_provider now out x b s else create_custom_provider now x b s)"

record provider_update =
  pu_name :: "string patch"
  pu_request_format :: "string patch"
  pu_base_url :: "string patch"
  pu_api_key_ref :: "string patch"
  pu_default_model :: "string patch"
  pu_models_allowlist :: "string list patch"
  pu_model_overrides :: "json_obj patch"
  pu_verify_ssl :: "bool patch"
  pu_models_endpoint_mode :: "string patch"
  pu_models_base_url :: "string patch"
  pu_enabled :: "bool patch"

definition provider_update_ok :: "provider_update \<Rightarrow> bool" where
  "provider_update_ok b \<longleftrightarrow>
     (case pu_request_format b of Some (Some f) \<Rightarrow> f \<in> set FORMATS | _ \<Rightarrow> True) \<and>
     (case pu_models_endpoint_mode b of Some (Some m) \<Rightarrow> m \<in> set MODES | _ \<Rightarrow> True)"

definition set_provider :: "organization_provider \<Rightarrow> 'z tenancy_scheme \<Rightarrow> 'z tenancy_scheme" where
  "set_provider p s = s\<lparr>providers := update_where (\<lambda>r. row_id r = row_id p) (\<lambda>_. p) (providers s)\<rparr>"

definition update_provider_row ::
    "timestamp \<Rightarrow> organization \<Rightarrow> ident \<Rightarrow> provider_update \<Rightarrow> 'z tenancy_scheme \<Rightarrow> ('z tenancy_scheme \<times> organization_provider) result" where
  "update_provider_row now x pid b s = and_then (get_org_provider_row (row_id x) pid s) (\<lambda>p.
     let q = modified now p (p\<lparr>pv_name := patched_value (pu_name b) (pv_name p),
           request_format := patched_value (pu_request_format b) (request_format p), base_url := patched (pu_base_url b) (base_url p),
           api_key_ref := patched_value (pu_api_key_ref b) (api_key_ref p),
           default_model := patched_value (pu_default_model b) (default_model p),
           models_allowlist := patched (pu_models_allowlist b) (models_allowlist p),
           model_overrides := patched (pu_model_overrides b) (model_overrides p),
           verify_ssl := patched_value (pu_verify_ssl b) (verify_ssl p),
           models_endpoint_mode := patched_value (pu_models_endpoint_mode b) (models_endpoint_mode p),
           models_base_url := patched (pu_models_base_url b) (models_base_url p),
           pv_enabled := patched_value (pu_enabled b) (pv_enabled p)\<rparr>)
     in if not_null (pu_name b) \<and> not_null (pu_request_format b) \<and> not_null (pu_api_key_ref b) \<and> not_null (pu_default_model b) \<and>
          not_null (pu_verify_ssl b) \<and> not_null (pu_models_endpoint_mode b) \<and> not_null (pu_enabled b)
        then Inr (set_provider q s, q) else Inl unhandled_error)"

definition delete_provider_row :: "timestamp \<Rightarrow> organization \<Rightarrow> ident \<Rightarrow> 'z tenancy_scheme \<Rightarrow> 'z tenancy_scheme result" where
  "delete_provider_row now x pid s =
     map_sum id (\<lambda>p. set_provider (soft_delete now p) s) (get_org_provider_row (row_id x) pid s)"

section \<open>Lists of models\<close>

record preview_request =
  pq_api_key_ref :: string
  pq_base_url :: "string option"
  pq_request_format :: string
  pq_verify_ssl :: bool
  pq_models_endpoint_mode :: string
  pq_models_base_url :: "string option"
  pq_catalog_provider_id :: "string option"

definition preview_request_ok :: "preview_request \<Rightarrow> bool" where
  "preview_request_ok b \<longleftrightarrow> pq_request_format b \<in> set FORMATS \<and> pq_models_endpoint_mode b \<in> set MODES"

definition preview_fetch :: "outside \<Rightarrow> preview_request \<Rightarrow> string option \<Rightarrow> string \<Rightarrow> found_model list \<times> string option" where
  "preview_fetch out b url slug = fetch_models_from_endpoint out (pq_api_key_ref b) url (pq_request_format b) (pq_verify_ssl b)
     (pq_models_endpoint_mode b) (pq_models_base_url b) slug"

text \<open>
  The endpoint in the catalog entry is tried when there is a key; only a text has an \<open>rstrip\<close>. Its models
  come before those of the catalog, when there are any.
\<close>

definition preview_live :: "outside \<Rightarrow> preview_request \<Rightarrow> provider_info option \<Rightarrow> found_model list option result" where
  "preview_live out b entry =
     (let api = (case entry of None \<Rightarrow> JNull | Some e \<Rightarrow> pi_api e)
      in if json_true api \<and> pq_api_key_ref b \<noteq> []
         then (case api of
                 JStr url \<Rightarrow>
                   (case preview_fetch out b (Some url) (str_or (pq_catalog_provider_id b) []) of
                      (x # xs, None) \<Rightarrow> Inr (Some (x # xs)) | _ \<Rightarrow> Inr None)
               | _ \<Rightarrow> if strip (pq_api_key_ref b) = [] \<or> pq_models_endpoint_mode b = ''separate''
                      then (case preview_fetch out b None (str_or (pq_catalog_provider_id b) []) of
                              (x # xs, None) \<Rightarrow> Inr (Some (x # xs)) | _ \<Rightarrow> Inr None)
                      else Inl unhandled_error)
         else Inr None)"

definition preview_models_of :: "timestamp \<Rightarrow> outside \<Rightarrow> preview_request \<Rightarrow> 'z site_scheme \<Rightarrow> ('z site_scheme \<times> models_out) result" where
  "preview_models_of now out b s =
     (if truthy (pq_catalog_provider_id b) \<and> \<not> truthy (pq_base_url b)
      then (let cid = str_or (pq_catalog_provider_id b) [];
                ((models, degraded), c1) = list_models_for_catalog_provider now (bundled out) cid (model_catalog s);
                (entry, c2) = get_catalog_provider now (bundled out) cid c1;
                s1 = s\<lparr>model_catalog := c2\<rparr>
            in and_then (preview_live out b entry) (\<lambda>live_items.
                 case live_items of
                   Some fs \<Rightarrow> and_then (each_ok (found_out out) fs) (\<lambda>items.
                     Inr (s1, \<lparr>mz_items = items, mz_degraded = False, mz_default_model = None, mz_error = None\<rparr>))
                 | None \<Rightarrow> and_then (each_ok (model_out_of out) models) (\<lambda>items.
                     Inr (s1, \<lparr>mz_items = items, mz_degraded = degraded, mz_default_model = None, mz_error = None\<rparr>))))
      else (let (fs, err) = preview_fetch out b (pq_base_url b) ''custom''
            in and_then (each_ok (found_out out) fs) (\<lambda>items.
                 Inr (s, \<lparr>mz_items = items, mz_degraded = False, mz_default_model = None, mz_error = err\<rparr>))))"

definition refreshed_items ::
    "timestamp \<Rightarrow> outside \<Rightarrow> organization_provider \<Rightarrow> catalog \<Rightarrow> ((model_out list \<times> bool \<times> string option) \<times> catalog) result" where
  "refreshed_items now out p c =
     (if pv_origin p = ''catalog'' \<and> truthy (catalog_provider_id p)
      then (let (raw, err) = (if truthy (base_url p) then fetch_custom_models out p else ([], None))
            in if raw \<noteq> [] \<and> \<not> truthy err
               then and_then (each_ok (found_out out) raw) (\<lambda>items. Inr ((items, False, err), c))
               else (let ((models, degraded), c1) = list_models_for_catalog_provider now (bundled out) (str_or (catalog_provider_id p) []) c
                     in and_then (each_ok (model_out_of out) models) (\<lambda>items. Inr ((items, degraded, None), c1))))
      else (let (raw, err) = fetch_custom_models out p
            in and_then (each_ok (found_out out) raw) (\<lambda>items. Inr ((items, False, err), c))))"

definition refresh_models_of ::
    "timestamp \<Rightarrow> outside \<Rightarrow> organization \<Rightarrow> ident \<Rightarrow> 'z site_scheme \<Rightarrow> ('z site_scheme \<times> models_out) result" where
  "refresh_models_of now out x pid s =
     and_then (get_org_provider_row (row_id x) pid s) (\<lambda>p.
     and_then (refreshed_items now out p (model_catalog s)) (\<lambda>((items, degraded, err), c1).
       let s1 = s\<lparr>model_catalog := c1\<rparr>;
           ids = map mu_id items;
           q = modified now p (p\<lparr>models_allowlist := Some ids,
                 default_model := (if default_model p \<in> set ids then default_model p else hd ids)\<rparr>)
       in if items = [] then Inr (s1, \<lparr>mz_items = [], mz_degraded = degraded, mz_default_model = Some (default_model p), mz_error = err\<rparr>)
          else Inr (set_provider q s1, \<lparr>mz_items = items, mz_degraded = degraded, mz_default_model = Some (default_model q), mz_error = err\<rparr>)))"

section \<open>The test call\<close>

text \<open>\<open>ms\<close> is what the monotonic clock gives for the call.\<close>

definition test_provider_row ::
    "timestamp \<Rightarrow> int \<Rightarrow> outside \<Rightarrow> organization \<Rightarrow> ident \<Rightarrow> 'z tenancy_scheme \<Rightarrow> ('z tenancy_scheme \<times> string \<times> json_obj) result" where
  "test_provider_row now ms out x pid s = and_then (get_org_provider_row (row_id x) pid s) (\<lambda>p.
     let (status, detail) =
           (case and_then (build_llm_client out p None) (\<lambda>c.
                   complete (sdk out) c [\<lparr>lm_role = ''user'', lm_content = ''ping''\<rparr>] 8 (JInt 0) None) of
              Inr r \<Rightarrow> (''ok'', [(''latency_ms'', JInt ms), (''model'', JStr (lr_model r)), (''preview'', JStr (take 80 (lr_content r)))])
            | Inl e \<Rightarrow> (''error'', [(''latency_ms'', JInt ms), (''error'', JStr (take 500 (le_message e)))]));
         q = touch now (p\<lparr>last_test_status := Some status, last_test_detail := Some detail, last_tested_at := Some now\<rparr>)
     in Inr (set_provider q s, status, detail))"

section \<open>Bindings\<close>

datatype default_target = Target_base_class | Target_system_hub | Target_cerebellum

record set_default_request =
  sd_target :: default_target
  sd_model :: string
  sd_base_class_ids :: "ident list option"

definition set_default_ok :: "set_default_request \<Rightarrow> bool" where
  "set_default_ok b \<longleftrightarrow> sd_target b \<noteq> Target_base_class \<or> (\<exists>i ids. sd_base_class_ids b = Some (i # ids))"

lemma set_default_ok_code [code]:
  "set_default_ok b = (sd_target b \<noteq> Target_base_class \<or> (case sd_base_class_ids b of Some (i # ids) \<Rightarrow> True | _ \<Rightarrow> False))"
  by (auto simp: set_default_ok_def split: option.splits list.splits)

definition new_default :: "ident \<Rightarrow> timestamp \<Rightarrow> ident \<Rightarrow> ident \<Rightarrow> string \<Rightarrow> provider_default" where
  "new_default i now bc p m = \<lparr>row_id = i, created_at = now, updated_at = now, deleted_at = None, pd_base_class_id = bc,
     pd_provider_id = p, pd_model = m\<rparr>"

definition bind_base_class ::
    "timestamp \<Rightarrow> ident \<Rightarrow> string \<Rightarrow> ident \<Rightarrow> 'z tenancy_scheme \<Rightarrow> 'z tenancy_scheme result" where
  "bind_base_class now pid model bc s =
     (if get_live (base_classes s) bc = None then Inl (NotFoundError ''base_class.not_found'' ''errors.base_class.not_found'')
      else case scalar_one_or_none (filter (\<lambda>d. pd_base_class_id d = bc \<and> live d) (provider_defaults s)) of
             Inl e \<Rightarrow> Inl e
           | Inr None \<Rightarrow> Inr ((take_id s)\<lparr>provider_defaults := provider_defaults s @ [new_default (new_id s) now bc pid model]\<rparr>)
           | Inr (Some d) \<Rightarrow> Inr (s\<lparr>provider_defaults := update_where (\<lambda>r. row_id r = row_id d)
               (\<lambda>_. modified now d (d\<lparr>pd_provider_id := pid, pd_model := model\<rparr>)) (provider_defaults s)\<rparr>))"

fun bind_each :: "timestamp \<Rightarrow> ident \<Rightarrow> string \<Rightarrow> ident list \<Rightarrow> 'z tenancy_scheme \<Rightarrow> 'z tenancy_scheme result" where
  "bind_each now pid model [] s = Inr s"
| "bind_each now pid model (bc # bcs) s = and_then (bind_base_class now pid model bc s) (bind_each now pid model bcs)"

definition set_default_row ::
    "timestamp \<Rightarrow> organization \<Rightarrow> ident \<Rightarrow> set_default_request \<Rightarrow> 'z tenancy_scheme \<Rightarrow> 'z tenancy_scheme result" where
  "set_default_row now x pid b s = and_then (get_org_provider_row (row_id x) pid s) (\<lambda>p.
     case sd_target b of
       Target_system_hub \<Rightarrow> Inr (set_organization (modified now x (x\<lparr>system_hub_provider_id := Some (row_id p),
         system_hub_model := Some (sd_model b)\<rparr>)) s)
     | Target_cerebellum \<Rightarrow> Inr (set_organization (modified now x (x\<lparr>cerebellum_default_provider_id := Some (row_id p),
         cerebellum_default_model := Some (sd_model b)\<rparr>)) s)
     | Target_base_class \<Rightarrow> bind_each now (row_id p) (sd_model b) (case sd_base_class_ids b of None \<Rightarrow> [] | Some ids \<Rightarrow> ids) s)"

record binding_update =
  bu_provider_id :: "ident patch"
  bu_model :: "string patch"

definition binding_provider_ok :: "organization \<Rightarrow> binding_update \<Rightarrow> 'z tenancy_scheme \<Rightarrow> unit result" where
  "binding_provider_ok x b s =
     (case bu_provider_id b of
        Some (Some pid) \<Rightarrow> map_sum id (\<lambda>_. ()) (get_org_provider_row (row_id x) pid s) | _ \<Rightarrow> Inr ())"

definition update_hub_binding ::
    "timestamp \<Rightarrow> organization \<Rightarrow> binding_update \<Rightarrow> 'z tenancy_scheme \<Rightarrow> ('z tenancy_scheme \<times> organization) result" where
  "update_hub_binding now x b s = and_then (binding_provider_ok x b s) (\<lambda>_.
     let y = modified now x (x\<lparr>system_hub_provider_id := patched (bu_provider_id b) (system_hub_provider_id x),
           system_hub_model := patched (bu_model b) (system_hub_model x)\<rparr>)
     in Inr (set_organization y s, y))"

definition update_cerebellum_binding ::
    "timestamp \<Rightarrow> organization \<Rightarrow> binding_update \<Rightarrow> 'z tenancy_scheme \<Rightarrow> ('z tenancy_scheme \<times> organization) result" where
  "update_cerebellum_binding now x b s = and_then (binding_provider_ok x b s) (\<lambda>_.
     let y = modified now x (x\<lparr>cerebellum_default_provider_id := patched (bu_provider_id b) (cerebellum_default_provider_id x),
           cerebellum_default_model := patched (bu_model b) (cerebellum_default_model x)\<rparr>)
     in Inr (set_organization y s, y))"

record hub_out =
  ho_provider_id :: "ident option"
  ho_model :: "string option"
  ho_configured :: bool

definition system_hub_out :: "organization \<Rightarrow> hub_out" where
  "system_hub_out x = \<lparr>ho_provider_id = system_hub_provider_id x, ho_model = system_hub_model x,
     ho_configured = (truthy (system_hub_provider_id x) \<and> truthy (system_hub_model x))\<rparr>"

definition cerebellum_binding_out :: "organization \<Rightarrow> ident option \<times> string option" where
  "cerebellum_binding_out x = (cerebellum_default_provider_id x, cerebellum_default_model x)"

end
