(* ===== verification/Org_Routes.thy ===== *)
theory Org_Routes
  imports Org_Providers
begin

text \<open>
  The requests on providers and bindings: the aliases for the default Organization, whose writes are for
  super admins, and their twins for any Organization, whose writes need \<open>can_manage_organization\<close> there
  (\<^verbatim>\<open>app/api/v1/organizations.py\<close>); the reads of the catalog and the description assistant
  (\<^verbatim>\<open>app/api/v1/provider_catalog.py\<close>, \<^verbatim>\<open>app/api/v1/model_catalog.py\<close>, \<^verbatim>\<open>app/api/v1/system_hub.py\<close>).
\<close>

section \<open>Who may\<close>

definition on_default_org :: "current_user \<Rightarrow> 'z db_scheme \<Rightarrow> (organization \<Rightarrow> 'b result) \<Rightarrow> 'b result" where
  "on_default_org cu s f = and_then (require_super_admin cu) (\<lambda>_. and_then (get_default_org s) f)"

definition on_org :: "current_user \<Rightarrow> ident \<Rightarrow> 'z db_scheme \<Rightarrow> (organization \<Rightarrow> 'b result) \<Rightarrow> 'b result" where
  "on_org cu oid s f = and_then (org_with_permission cu oid ''can_manage_organization'' s) f"

definition checked :: "bool \<Rightarrow> 'b result \<Rightarrow> 'b result" where
  "checked ok r = (if ok then r else Inl request_validation_error)"

section \<open>The default Organization\<close>

definition get_default_organization :: "'z db_scheme \<Rightarrow> organization result" where
  "get_default_organization = get_default_org"

definition list_default_providers :: "bool option \<Rightarrow> 'z tenancy_scheme \<Rightarrow> organization_provider list result" where
  "list_default_providers enabled s = and_then (get_default_org s) (\<lambda>x. Inr (list_provider_rows x enabled s))"

definition create_provider ::
    "timestamp \<Rightarrow> outside \<Rightarrow> provider_create \<Rightarrow> current_user \<Rightarrow> 'z site_scheme \<Rightarrow> ('z site_scheme \<times> organization_provider) result" where
  "create_provider now out b cu s = checked (provider_create_ok b) (on_default_org cu s (\<lambda>x. create_provider_row now out x b s))"

definition get_provider :: "ident \<Rightarrow> 'z tenancy_scheme \<Rightarrow> organization_provider result" where
  "get_provider pid s = and_then (get_default_org s) (\<lambda>x. get_org_provider_row (row_id x) pid s)"

definition update_provider ::
    "timestamp \<Rightarrow> ident \<Rightarrow> provider_update \<Rightarrow> current_user \<Rightarrow> 'z tenancy_scheme \<Rightarrow> ('z tenancy_scheme \<times> organization_provider) result" where
  "update_provider now pid b cu s = checked (provider_update_ok b) (on_default_org cu s (\<lambda>x. update_provider_row now x pid b s))"

definition delete_provider :: "timestamp \<Rightarrow> ident \<Rightarrow> current_user \<Rightarrow> 'z tenancy_scheme \<Rightarrow> 'z tenancy_scheme result" where
  "delete_provider now pid cu s = on_default_org cu s (\<lambda>x. delete_provider_row now x pid s)"

definition preview_provider_models ::
    "timestamp \<Rightarrow> outside \<Rightarrow> preview_request \<Rightarrow> current_user \<Rightarrow> 'z site_scheme \<Rightarrow> ('z site_scheme \<times> models_out) result" where
  "preview_provider_models now out b cu s = checked (preview_request_ok b) (on_default_org cu s (\<lambda>_. preview_models_of now out b s))"

definition refresh_provider_models ::
    "timestamp \<Rightarrow> outside \<Rightarrow> ident \<Rightarrow> current_user \<Rightarrow> 'z site_scheme \<Rightarrow> ('z site_scheme \<times> models_out) result" where
  "refresh_provider_models now out pid cu s = on_default_org cu s (\<lambda>x. refresh_models_of now out x pid s)"

definition test_provider ::
    "timestamp \<Rightarrow> int \<Rightarrow> outside \<Rightarrow> ident \<Rightarrow> current_user \<Rightarrow> 'z tenancy_scheme \<Rightarrow> ('z tenancy_scheme \<times> string \<times> json_obj) result" where
  "test_provider now ms out pid cu s = on_default_org cu s (\<lambda>x. test_provider_row now ms out x pid s)"

definition set_default ::
    "timestamp \<Rightarrow> ident \<Rightarrow> set_default_request \<Rightarrow> current_user \<Rightarrow> 'z tenancy_scheme \<Rightarrow> 'z tenancy_scheme result" where
  "set_default now pid b cu s = checked (set_default_ok b) (on_default_org cu s (\<lambda>x. set_default_row now x pid b s))"

definition get_system_hub :: "'z db_scheme \<Rightarrow> hub_out result" where
  "get_system_hub s = map_sum id system_hub_out (get_default_org s)"

definition update_system_hub ::
    "timestamp \<Rightarrow> binding_update \<Rightarrow> current_user \<Rightarrow> 'z tenancy_scheme \<Rightarrow> ('z tenancy_scheme \<times> organization) result" where
  "update_system_hub now b cu s = on_default_org cu s (\<lambda>x. update_hub_binding now x b s)"

definition get_cerebellum_defaults :: "'z db_scheme \<Rightarrow> (ident option \<times> string option) result" where
  "get_cerebellum_defaults s = map_sum id cerebellum_binding_out (get_default_org s)"

definition update_cerebellum_defaults ::
    "timestamp \<Rightarrow> binding_update \<Rightarrow> current_user \<Rightarrow> 'z tenancy_scheme \<Rightarrow> ('z tenancy_scheme \<times> organization) result" where
  "update_cerebellum_defaults now b cu s = on_default_org cu s (\<lambda>x. update_cerebellum_binding now x b s)"

section \<open>Any Organization\<close>

definition list_org_providers :: "ident \<Rightarrow> current_user \<Rightarrow> bool option \<Rightarrow> 'z tenancy_scheme \<Rightarrow> organization_provider list result" where
  "list_org_providers oid cu enabled s = and_then (get_org_for_user cu oid s) (\<lambda>x. Inr (list_provider_rows x enabled s))"

definition create_org_provider ::
    "timestamp \<Rightarrow> outside \<Rightarrow> ident \<Rightarrow> provider_create \<Rightarrow> current_user \<Rightarrow> 'z site_scheme \<Rightarrow>
     ('z site_scheme \<times> organization_provider) result" where
  "create_org_provider now out oid b cu s =
     checked (provider_create_ok b) (on_org cu oid s (\<lambda>x. create_provider_row now out x b s))"

definition get_org_provider :: "ident \<Rightarrow> ident \<Rightarrow> current_user \<Rightarrow> 'z tenancy_scheme \<Rightarrow> organization_provider result" where
  "get_org_provider oid pid cu s = and_then (get_org_for_user cu oid s) (\<lambda>x. get_org_provider_row (row_id x) pid s)"

definition update_org_provider ::
    "timestamp \<Rightarrow> ident \<Rightarrow> ident \<Rightarrow> provider_update \<Rightarrow> current_user \<Rightarrow> 'z tenancy_scheme \<Rightarrow>
     ('z tenancy_scheme \<times> organization_provider) result" where
  "update_org_provider now oid pid b cu s =
     checked (provider_update_ok b) (on_org cu oid s (\<lambda>x. update_provider_row now x pid b s))"

definition delete_org_provider :: "timestamp \<Rightarrow> ident \<Rightarrow> ident \<Rightarrow> current_user \<Rightarrow> 'z tenancy_scheme \<Rightarrow> 'z tenancy_scheme result" where
  "delete_org_provider now oid pid cu s = on_org cu oid s (\<lambda>x. delete_provider_row now x pid s)"

definition preview_org_provider_models ::
    "timestamp \<Rightarrow> outside \<Rightarrow> ident \<Rightarrow> preview_request \<Rightarrow> current_user \<Rightarrow> 'z site_scheme \<Rightarrow> ('z site_scheme \<times> models_out) result" where
  "preview_org_provider_models now out oid b cu s =
     checked (preview_request_ok b) (on_org cu oid s (\<lambda>_. preview_models_of now out b s))"

definition refresh_org_provider_models ::
    "timestamp \<Rightarrow> outside \<Rightarrow> ident \<Rightarrow> ident \<Rightarrow> current_user \<Rightarrow> 'z site_scheme \<Rightarrow> ('z site_scheme \<times> models_out) result" where
  "refresh_org_provider_models now out oid pid cu s = on_org cu oid s (\<lambda>x. refresh_models_of now out x pid s)"

definition test_org_provider ::
    "timestamp \<Rightarrow> int \<Rightarrow> outside \<Rightarrow> ident \<Rightarrow> ident \<Rightarrow> current_user \<Rightarrow> 'z tenancy_scheme \<Rightarrow>
     ('z tenancy_scheme \<times> string \<times> json_obj) result" where
  "test_org_provider now ms out oid pid cu s = on_org cu oid s (\<lambda>x. test_provider_row now ms out x pid s)"

definition set_org_provider_default ::
    "timestamp \<Rightarrow> ident \<Rightarrow> ident \<Rightarrow> set_default_request \<Rightarrow> current_user \<Rightarrow> 'z tenancy_scheme \<Rightarrow> 'z tenancy_scheme result" where
  "set_org_provider_default now oid pid b cu s =
     checked (set_default_ok b) (on_org cu oid s (\<lambda>x. set_default_row now x pid b s))"

definition get_org_system_hub :: "ident \<Rightarrow> current_user \<Rightarrow> 'z db_scheme \<Rightarrow> hub_out result" where
  "get_org_system_hub oid cu s = map_sum id system_hub_out (get_org_for_user cu oid s)"

definition update_org_system_hub ::
    "timestamp \<Rightarrow> ident \<Rightarrow> binding_update \<Rightarrow> current_user \<Rightarrow> 'z tenancy_scheme \<Rightarrow> ('z tenancy_scheme \<times> organization) result" where
  "update_org_system_hub now oid b cu s = on_org cu oid s (\<lambda>x. update_hub_binding now x b s)"

definition get_org_cerebellum_defaults :: "ident \<Rightarrow> current_user \<Rightarrow> 'z db_scheme \<Rightarrow> (ident option \<times> string option) result" where
  "get_org_cerebellum_defaults oid cu s = map_sum id cerebellum_binding_out (get_org_for_user cu oid s)"

definition update_org_cerebellum_defaults ::
    "timestamp \<Rightarrow> ident \<Rightarrow> binding_update \<Rightarrow> current_user \<Rightarrow> 'z tenancy_scheme \<Rightarrow> ('z tenancy_scheme \<times> organization) result" where
  "update_org_cerebellum_defaults now oid b cu s = on_org cu oid s (\<lambda>x. update_cerebellum_binding now x b s)"

section \<open>Reads of the catalog\<close>

record catalog_entry_out =
  ce_id :: string
  ce_name :: string
  ce_api :: "string option"
  ce_format :: string
  ce_model_count :: nat
  ce_doc :: "string option"

definition entry_out :: "provider_info \<Rightarrow> catalog_entry_out result" where
  "entry_out p = and_then (str_or_none (pi_api p)) (\<lambda>api. and_then (str_or_none (pi_doc p)) (\<lambda>doc.
     Inr \<lparr>ce_id = pi_id p, ce_name = pi_name p, ce_api = api, ce_format = pi_format p, ce_model_count = pi_model_count p,
        ce_doc = doc\<rparr>))"

definition list_provider_catalog ::
    "timestamp \<Rightarrow> outside \<Rightarrow> string option \<Rightarrow> 'z site_scheme \<Rightarrow> ('z site_scheme \<times> catalog_entry_out list \<times> bool) result" where
  "list_provider_catalog now out q s =
     (let ((ps, degraded), c) = list_catalog_providers now (bundled out) q (model_catalog s)
      in and_then (each_ok entry_out ps) (\<lambda>items. Inr (s\<lparr>model_catalog := c\<rparr>, items, degraded)))"

text \<open>\<open>m.name.lower()\<close> needs a text, but is only computed when the identifier does not match.\<close>

fun search_models :: "string \<Rightarrow> model_info list \<Rightarrow> model_info list result" where
  "search_models q [] = Inr []"
| "search_models q (m # ms) =
     and_then (if occurs_in (lower q) (lower (mo_id m)) then Inr True
               else map_sum id (\<lambda>n. occurs_in (lower q) (lower n)) (str_field (mo_name m))) (\<lambda>keep.
     and_then (search_models q ms) (\<lambda>rest. Inr (if keep then m # rest else rest)))"

definition list_catalog_provider_models ::
    "timestamp \<Rightarrow> outside \<Rightarrow> string \<Rightarrow> string option \<Rightarrow> 'z site_scheme \<Rightarrow> ('z site_scheme \<times> models_out) result" where
  "list_catalog_provider_models now out cid q s =
     (let (entry, c1) = get_catalog_provider now (bundled out) cid (model_catalog s);
          ((models, degraded), c2) = list_models_for_catalog_provider now (bundled out) cid c1
      in if entry = None then Inl (NotFoundError ''provider_catalog.not_found'' ''errors.provider_catalog.not_found'')
         else and_then (if truthy q then search_models (the q) models else Inr models) (\<lambda>ms.
              and_then (each_ok (model_out_of out) ms) (\<lambda>items.
                Inr (s\<lparr>model_catalog := c2\<rparr>, \<lparr>mz_items = items, mz_degraded = degraded, mz_default_model = None, mz_error = None\<rparr>))))"

text \<open>\<open>db.get\<close> finds deleted rows too.\<close>

definition scoped_org :: "ident \<Rightarrow> ident option \<Rightarrow> 'z db_scheme \<Rightarrow> organization result" where
  "scoped_org uid x_org s = and_then (resolve_current_org_id uid x_org s) (\<lambda>o'.
     case o' of
       None \<Rightarrow> get_default_org s
     | Some oid \<Rightarrow> (case get_row (organizations s) oid of
                     None \<Rightarrow> Inl organization_not_found
                   | Some x \<Rightarrow> if live x then Inr x else Inl organization_not_found))"

text \<open>Of models with one identifier the last in the catalog counts.\<close>

definition allowed_items :: "outside \<Rightarrow> organization_provider \<Rightarrow> string list \<Rightarrow> model_info list \<Rightarrow> model_out list result" where
  "allowed_items out p allow models =
     each_ok (\<lambda>mid. case map_of (rev (map (\<lambda>m. (mo_id m, m)) models)) mid of
        None \<Rightarrow> Inr (plain_model mid mid (pv_slug p) None) | Some m \<Rightarrow> full_model_out out m) allow"

definition with_default_model :: "organization_provider \<Rightarrow> model_out list \<Rightarrow> model_out list" where
  "with_default_model p items =
     (if list_ex (\<lambda>i. mu_id i = default_model p) items then items
      else plain_model (default_model p) (default_model p) (pv_slug p) None # items)"

definition catalog_items ::
    "timestamp \<Rightarrow> outside \<Rightarrow> organization_provider \<Rightarrow> bool \<Rightarrow> catalog \<Rightarrow> ((model_out list \<times> bool \<times> string option) \<times> catalog) result" where
  "catalog_items now out p refresh c =
     (let allow = (case models_allowlist p of None \<Rightarrow> [] | Some xs \<Rightarrow> xs) in
      if allow \<noteq> [] \<and> \<not> refresh
      then (let (models, c1) = list_models now (bundled out) None c
            in and_then (allowed_items out p allow models) (\<lambda>items. Inr ((items, False, None), c1)))
      else if pv_origin p = ''catalog'' \<and> truthy (catalog_provider_id p)
      then (let ((models, degraded), c1) = list_models_for_catalog_provider now (bundled out) (str_or (catalog_provider_id p) []) c
            in and_then (each_ok (model_out_of out) models) (\<lambda>items.
                 Inr ((if allow \<noteq> [] then filter (\<lambda>i. mu_id i \<in> set allow) items else items, degraded, None), c1)))
      else (let (raw, err) = fetch_custom_models out p
            in and_then (each_ok (found_out out) raw) (\<lambda>items. Inr ((with_default_model p items, False, err), c))))"

definition get_model_catalog ::
    "timestamp \<Rightarrow> outside \<Rightarrow> ident \<Rightarrow> string option \<Rightarrow> bool \<Rightarrow> ident option \<Rightarrow> current_user \<Rightarrow> 'z site_scheme \<Rightarrow>
     ('z site_scheme \<times> models_out) result" where
  "get_model_catalog now out pid q refresh x_org cu s =
     and_then (scoped_org (cu_user_id cu) x_org s) (\<lambda>x.
     and_then (get_org_provider_row (row_id x) pid s) (\<lambda>p.
     and_then (catalog_items now out p refresh (model_catalog s)) (\<lambda>((items, degraded, err), c).
       Inr (s\<lparr>model_catalog := c\<rparr>,
         \<lparr>mz_items = (if truthy q then filter (\<lambda>i. matches (the q) (mu_id i) (mu_name i)) items else items),
          mz_degraded = (pv_origin p = ''catalog'' \<and> degraded), mz_default_model = Some (default_model p), mz_error = err\<rparr>))))"

section \<open>The description assistant (system_hub.py)\<close>

text \<open>The Chinese texts of the prompts are two functions of the kind, the name and the present text.\<close>

record prompts =
  system_prompt :: "string \<Rightarrow> string"
  user_block :: "string \<Rightarrow> string \<Rightarrow> string \<Rightarrow> string"

record description_request =
  dr_name :: string
  dr_description :: "string option"
  dr_kind :: string

definition DESCRIPTION_KINDS :: "string list" where
  "DESCRIPTION_KINDS = [''entity'', ''world'', ''namespace'', ''gene'', ''generic'']"

definition description_kind :: "description_request \<Rightarrow> string" where
  "description_kind b = (let k = lower (strip (str_or (Some (dr_kind b)) ''entity''))
     in if k \<in> set DESCRIPTION_KINDS then k else ''generic'')"

definition hub_error :: "string \<Rightarrow> eyot_error" where
  "hub_error what = ValidationError (''system_hub.'' @ what) (''errors.system_hub.'' @ what)"

text \<open>The provider the hub of an Organization is bound to: wherever it comes from, if it is live and enabled.\<close>

definition hub_provider :: "organization \<Rightarrow> 'z tenancy_scheme \<Rightarrow> organization_provider result" where
  "hub_provider x s =
     (if \<not> truthy (system_hub_provider_id x) then Inl (hub_error ''provider_not_set'')
      else if \<not> truthy (system_hub_model x) then Inl (hub_error ''model_not_set'')
      else case scalar_one_or_none (filter (\<lambda>p. Some (row_id p) = system_hub_provider_id x \<and> live p \<and> pv_enabled p) (providers s)) of
             Inl e \<Rightarrow> Inl e | Inr None \<Rightarrow> Inl (hub_error ''provider_unavailable'') | Inr (Some p) \<Rightarrow> Inr p)"

definition generate_description ::
    "outside \<Rightarrow> prompts \<Rightarrow> description_request \<Rightarrow> current_user \<Rightarrow> ident option \<Rightarrow> 'z tenancy_scheme \<Rightarrow> string result" where
  "generate_description out pr b cu x_org s =
     checked (dr_name b \<noteq> [] \<and> length (dr_name b) \<le> 255) (and_then (scoped_org (cu_user_id cu) x_org s) (\<lambda>x.
     and_then (hub_provider x s) (\<lambda>p.
       let k = description_kind b;
           msgs = [\<lparr>lm_role = ''system'', lm_content = system_prompt pr k\<rparr>,
                   \<lparr>lm_role = ''user'', lm_content = user_block pr k (dr_name b) (strip (str_or (dr_description b) []))\<rparr>]
       in case and_then (build_llm_client out p (system_hub_model x)) (\<lambda>c.
                 complete (sdk out) c msgs 800 (JSeconds 500000) (system_hub_model x)) of
            Inl e \<Rightarrow> Inl (ValidationError ''system_hub.generation_failed'' (le_key e))
          | Inr r \<Rightarrow> (if strip (lr_content r) = [] then Inl (hub_error ''empty_response'') else Inr (strip (lr_content r))))))"

end
