(* ===== verification/Pi_Env.thy ===== *)
theory Pi_Env
  imports Org_Providers
begin

text \<open>
  The provider an Instance is given and the environment its pod gets from it
  (\<^verbatim>\<open>app/services/llm/instance_pi_env.py\<close>): the binding of its BaseClass before those of its
  Organization, then any enabled provider of the Organization.
\<close>

definition PROVIDER_ENV_KEYS :: "(string \<times> string) list" where
  "PROVIDER_ENV_KEYS = [(''anthropic'', ''ANTHROPIC_API_KEY''), (''openai'', ''OPENAI_API_KEY''), (''deepseek'', ''DEEPSEEK_API_KEY''),
     (''google'', ''GEMINI_API_KEY''), (''gemini'', ''GEMINI_API_KEY''), (''groq'', ''GROQ_API_KEY''), (''mistral'', ''MISTRAL_API_KEY''),
     (''xai'', ''XAI_API_KEY''), (''openrouter'', ''OPENROUTER_API_KEY''), (''together'', ''TOGETHER_API_KEY''),
     (''fireworks'', ''FIREWORKS_API_KEY''), (''minimax'', ''MINIMAX_API_KEY''), (''kimi'', ''KIMI_API_KEY''),
     (''kimi-coding'', ''KIMI_API_KEY'')]"

text \<open>The first candidate that is a key, or that contains one (the first in the table), decides.\<close>

definition env_key_in :: "string \<Rightarrow> string option" where
  "env_key_in raw = (case map_of PROVIDER_ENV_KEYS raw of
     Some e \<Rightarrow> Some e | None \<Rightarrow> map_option snd (find (\<lambda>(k, _). occurs_in k raw) PROVIDER_ENV_KEYS))"

definition pi_env_key_for_provider :: "organization_provider \<Rightarrow> string" where
  "pi_env_key_for_provider p =
     (case List.map_filter env_key_in [lower (str_or (catalog_provider_id p) []), lower (pv_slug p), lower (pv_name p)] of
        e # _ \<Rightarrow> e
      | [] \<Rightarrow> if request_format p = ''anthropic'' then ''ANTHROPIC_API_KEY''
              else if request_format p = ''gemini'' then ''GEMINI_API_KEY'' else ''OPENAI_API_KEY'')"

definition pi_provider_id :: "organization_provider \<Rightarrow> string" where
  "pi_provider_id p = strip (str_or (catalog_provider_id p) (str_or (Some (pv_slug p)) ''openai''))"

type_synonym env_vars = "(string \<times> string) list"

definition set_env :: "bool \<Rightarrow> string \<Rightarrow> string \<Rightarrow> env_vars \<Rightarrow> env_vars" where
  "set_env b k v env = (if b then AList.update k v env else env)"

definition provider_to_pi_env :: "process_env \<Rightarrow> organization_provider \<Rightarrow> string option \<Rightarrow> env_vars" where
  "provider_to_pi_env env p model =
     (case resolve_api_key env (api_key_ref p) of
        Inl _ \<Rightarrow> []
      | Inr key \<Rightarrow>
         (let name = pi_env_key_for_provider p;
              url = rstrip_char CHR ''/'' (str_or (base_url p) []);
              m = strip (str_or model (default_model p));
              pid = pi_provider_id p
          in set_env True ''PI_PROVIDER'' pid
             (set_env (m \<noteq> []) ''PI_MODEL'' (if CHR ''/'' \<in> set m then m else pid @ ''/'' @ m)
             (set_env (truthy (base_url p)) ''PI_BASE_URL'' url
             (set_env (truthy (base_url p)) ''OPENAI_BASE_URL'' url
             (set_env (name \<noteq> ''OPENAI_API_KEY'' \<and> request_format p \<in> {''completion'', ''response''}) ''OPENAI_API_KEY'' key
                [(name, key)]))))))"

definition load_org_for_instance :: "instance_row \<Rightarrow> 'z db_scheme \<Rightarrow> organization option" where
  "load_org_for_instance i s =
     Option.bind (get_live (entities s) (ins_entity_id i)) (\<lambda>e.
     Option.bind (get_live (namespaces s) (ent_namespace_id e)) (\<lambda>n. get_row (organizations s) (ns_org_id n)))"

definition usable_provider :: "ident \<Rightarrow> 'z tenancy_scheme \<Rightarrow> organization_provider option" where
  "usable_provider pid s =
     (case get_row (providers s) pid of Some p \<Rightarrow> (if live p \<and> pv_enabled p then Some p else None) | None \<Rightarrow> None)"

definition base_class_binding :: "entity \<Rightarrow> 'z tenancy_scheme \<Rightarrow> provider_default option result" where
  "base_class_binding e s =
     (case (if truthy (preset_slug e) then find_preset (candidate_slugs (str_or (preset_slug e) [])) s else None) of
        None \<Rightarrow> Inr None
      | Some bc \<Rightarrow> scalar_one_or_none (filter (\<lambda>d. pd_base_class_id d = row_id bc \<and> live d) (provider_defaults s)))"

definition bound_provider :: "provider_default option \<Rightarrow> 'z tenancy_scheme \<Rightarrow> (organization_provider \<times> string) option" where
  "bound_provider d s = Option.bind d (\<lambda>d. map_option (\<lambda>p. (p, pd_model d)) (usable_provider (pd_provider_id d) s))"

definition org_binding :: "ident option \<Rightarrow> string option \<Rightarrow> 'z tenancy_scheme \<Rightarrow> (organization_provider \<times> string) option" where
  "org_binding pid model s =
     (if truthy pid then map_option (\<lambda>p. (p, str_or model (default_model p))) (usable_provider (the pid) s) else None)"

definition any_provider :: "ident \<Rightarrow> 'z tenancy_scheme \<Rightarrow> (organization_provider \<times> string) option" where
  "any_provider oid s =
     (case sort_key created_at (filter (\<lambda>p. pv_organization_id p = oid \<and> pv_enabled p \<and> live p) (providers s)) of
        [] \<Rightarrow> None | p # _ \<Rightarrow> Some (p, default_model p))"

fun first_some :: "'a option list \<Rightarrow> 'a option" where
  "first_some [] = None"
| "first_some (None # xs) = first_some xs"
| "first_some (Some x # xs) = Some x"

definition resolve_provider_for_instance :: "ident \<Rightarrow> 'z tenancy_scheme \<Rightarrow> (organization_provider \<times> string) option result" where
  "resolve_provider_for_instance iid s =
     (case get_live (instances s) iid of
        None \<Rightarrow> Inr None
      | Some i \<Rightarrow>
         (case get_live (entities s) (ins_entity_id i) of
            None \<Rightarrow> Inr None
          | Some e \<Rightarrow>
             (case base_class_binding e s of
                Inl err \<Rightarrow> Inl err
              | Inr d \<Rightarrow>
                 (case bound_provider d s of
                    Some r \<Rightarrow> Inr (Some r)
                  | None \<Rightarrow>
                     (case load_org_for_instance i s of
                        None \<Rightarrow> Inr None
                      | Some x \<Rightarrow> if \<not> live x then Inr None
                          else Inr (first_some [org_binding (system_hub_provider_id x) (system_hub_model x) s,
                            org_binding (cerebellum_default_provider_id x) (cerebellum_default_model x) s,
                            any_provider (row_id x) s]))))))"

definition resolve_pi_env_for_instance :: "process_env \<Rightarrow> ident \<Rightarrow> 'z tenancy_scheme \<Rightarrow> env_vars result" where
  "resolve_pi_env_for_instance env iid s =
     map_sum id (\<lambda>r. case r of None \<Rightarrow> [] | Some (p, m) \<Rightarrow> provider_to_pi_env env p (Some m)) (resolve_provider_for_instance iid s)"

definition redact_env_for_snapshot :: "env_vars \<Rightarrow> env_vars" where
  "redact_env_for_snapshot env = map (\<lambda>(k, v).
     (k, if list_ex (\<lambda>x. occurs_in x (upper_ascii k)) [''KEY'', ''TOKEN'', ''SECRET'', ''PASSWORD''] then ''***'' else v)) env"

end
