(* ===== verification/Org_Props.thy ===== *)
theory Org_Props
  imports Org_Members Org_Routes Pi_Env
begin

text \<open>
  Properties of Organizations: none loses its last manager to its members; a deleted one is closed, and
  the others do not notice.
\<close>

section \<open>Who may\<close>

text \<open>A caller who is no super admin, neither in the token nor in the store.\<close>

definition plain_caller :: "'z db_scheme \<Rightarrow> current_user \<Rightarrow> bool" where
  "plain_caller s cu \<longleftrightarrow> \<not> cu_is_super_admin cu \<and> list_all (\<lambda>u. row_id u = cu_user_id cu \<longrightarrow> \<not> is_super_admin u) (users s)"

lemma plain_caller_users: "users t = users s \<Longrightarrow> plain_caller t cu = plain_caller s cu"
  by (simp add: plain_caller_def)

lemma get_org_for_user_row: "get_org_for_user cu oid s = Inr x \<Longrightarrow> get_live (organizations s) oid = Some x"
  by (auto simp: get_org_for_user_def split: option.splits sum.splits if_splits)

lemma require_org_permission:
  assumes "require_permission uid atom (Some oid) None None s = Inr ()" and "get_live (users s) uid = Some u" "\<not> is_super_admin u"
  shows "org_holds uid oid atom s"
proof -
  have "resolve_org_ns (Some oid) None None s = Inr (Some oid, None)" by (simp add: resolve_org_ns_def)
  then have "atom \<in> list_grant_slugs uid (Some oid) None s" using assms by (simp add: require_permission_def split: if_splits)
  then show ?thesis by (simp add: in_list_grant_slugs)
qed

lemma org_with_permissionD:
  assumes "org_with_permission cu oid atom s = Inr x" and "plain_caller s cu"
  shows "get_live (organizations s) oid = Some x" "row_id x = oid" "org_holds (cu_user_id cu) oid atom s"
proof -
  from assms(1) have x: "get_org_for_user cu oid s = Inr x" and r: "require_permission (cu_user_id cu) atom (Some (row_id x)) None None s = Inr ()"
    by (auto simp: org_with_permission_def map_sum_is_Inr split: sum.splits)
  show g: "get_live (organizations s) oid = Some x" by (rule get_org_for_user_row [OF x])
  show i: "row_id x = oid" using get_live_SomeD [OF g] by simp
  obtain u where u: "get_live (users s) (cu_user_id cu) = Some u"
    using r by (auto simp: require_permission_def split: option.splits)
  have "\<not> is_super_admin u" using get_live_SomeD [OF u] assms(2) by (auto simp: plain_caller_def list_all_iff)
  with require_org_permission r u show "org_holds (cu_user_id cu) oid atom s" unfolding i by blast
qed

lemma get_org_contractD:
  "get_org_contract oid cid s = Inr c \<Longrightarrow> c \<in> set (organization_contracts s) \<and> live c \<and> row_id c = cid \<and> oc_organization_id c = oid"
  by (auto simp: get_org_contract_def dest: get_live_SomeD split: option.splits if_splits)

section \<open>Managers\<close>

definition has_manager :: "(organization_contract \<Rightarrow> bool) \<Rightarrow> 'z db_scheme \<Rightarrow> bool" where
  "has_manager P s = list_ex (\<lambda>a. a \<in> set (org_slugs P s)) MANAGE_ATOMS"

definition all_managed :: "'z db_scheme \<Rightarrow> bool" where
  "all_managed s = list_all (\<lambda>x. live x \<longrightarrow> has_manager (\<lambda>c. oc_organization_id c = row_id x) s) (organizations s)"

lemma has_manager_grows:
  assumes "grows K s t" and "has_manager P s" and "\<And>c. P c \<Longrightarrow> row_id c \<notin> K"
  shows "has_manager P t"
  using assms grows_slugs [OF assms(1) _ assms(3)] unfolding has_manager_def list_ex_iff by blast

lemma slugs_mono: "a \<in> set (org_slugs P s) \<Longrightarrow> (\<And>c. P c \<Longrightarrow> Q c) \<Longrightarrow> a \<in> set (org_slugs Q s)"
  unfolding in_org_slugs by blast

lemma has_manager_mono: "has_manager P s \<Longrightarrow> (\<And>c. P c \<Longrightarrow> Q c) \<Longrightarrow> has_manager Q s"
  unfolding has_manager_def list_ex_iff using slugs_mono by blast

lemma has_manager_holds:
  "a \<in> set MANAGE_ATOMS \<Longrightarrow> org_holds uid oid a s \<Longrightarrow> has_manager (\<lambda>c. oc_organization_id c = oid \<and> oc_user_id c = uid) s"
  unfolding has_manager_def list_ex_iff in_org_slugs org_holds_def by blast

text \<open>What the guard leaves: a manager by another contract, or a wish that makes the member one.\<close>

lemma guard_leaves_manager:
  assumes ok: "org_ids_ok s" and plain: "plain_caller s cu"
    and p: "org_with_permission cu oid ''can_manage_org_members'' s = Inr x" and c: "c \<in> set (organization_contracts s)"
    and grow: "grows {} s t" "organization_contracts t = organization_contracts s"
    and g: "guard_cannot_lock_self cu oid c desired t = Inr ()"
  shows "has_manager (\<lambda>d. oc_organization_id d = oid \<and> row_id d \<noteq> row_id c) t \<or>
    (\<exists>slugs. desired = Some slugs \<and> (\<exists>a \<in> set MANAGE_ATOMS. a \<in> set slugs))"
proof (cases "oc_user_id c = cu_user_id cu")
  case True
  with g plain show ?thesis
    by (auto simp: guard_cannot_lock_self_def plain_caller_def org_has_other_manage_holder_def has_manager_def list_ex_iff
        split: option.splits if_splits)
next
  case False
  have "has_manager (\<lambda>d. oc_organization_id d = oid \<and> oc_user_id d = cu_user_id cu) s"
    using has_manager_holds [OF _ org_with_permissionD(3) [OF p plain]] by (simp add: MANAGE_ATOMS_def)
  then have "has_manager (\<lambda>d. oc_organization_id d = oid \<and> oc_user_id d = cu_user_id cu) t"
    by (rule has_manager_grows [OF grow(1)]) simp
  then obtain a where a: "a \<in> set MANAGE_ATOMS" "a \<in> set (org_slugs (\<lambda>d. oc_organization_id d = oid \<and> oc_user_id d = cu_user_id cu) t)"
    by (auto simp: has_manager_def list_ex_iff)
  have "distinct (map row_id (organization_contracts t))" using ok grow(2) by (simp add: org_ids_ok_def fresh_table_def)
  then have "d = c" if "d \<in> set (organization_contracts t)" "row_id d = row_id c" for d
    using same_row that c grow(2) by metis
  then have "a \<in> set (org_slugs (\<lambda>d. oc_organization_id d = oid \<and> row_id d \<noteq> row_id c) t)"
    using a(2) False unfolding in_org_slugs by metis
  then show ?thesis using a(1) by (auto simp: has_manager_def list_ex_iff)
qed

section \<open>Links that go and come\<close>

lemma links_retire:
  "links key (retire now P rows) = key ` set (filter (\<lambda>r. live r \<and> \<not> P r) rows)"
proof -
  have "filter live (retire now P rows) = filter (\<lambda>r. live r \<and> \<not> P r) rows"
    unfolding retire_def by (induction rows) auto
  then show ?thesis by (simp add: links_def)
qed

lemma retire_ids [simp]: "map row_id (retire now P rows) = map row_id rows"
  by (simp add: retire_def map_update_where)

lemma add_links_effect:
  "org_ids_ok s \<Longrightarrow> org_ids_ok (add_links now cid gs s) \<and> same_orgs s (add_links now cid gs s) \<and>
   organization_contracts (add_links now cid gs s) = organization_contracts s \<and> user_genes (add_links now cid gs s) = user_genes s \<and>
   links contract_gene_key (organization_contract_genes (add_links now cid gs s)) =
     links contract_gene_key (organization_contract_genes s) \<union> Pair cid ` set gs"
proof (induction gs arbitrary: s)
  case (Cons g gs)
  let ?s = "(take_id s)\<lparr>organization_contract_genes := organization_contract_genes s @ [contract_gene_row (new_id s) now (cid, g)]\<rparr>"
  have "org_ids_ok ?s" using Cons.prems by (auto simp: org_ids_ok_def intro: fresh_mono)
  moreover have "same_orgs s ?s" by (simp add: same_orgs_def)
  moreover have "links contract_gene_key (organization_contract_genes ?s) = insert (cid, g) (links contract_gene_key (organization_contract_genes s))"
    by (simp add: links_append contract_gene_row_def live_def contract_gene_key_def)
  ultimately show ?case using Cons.IH [of ?s] by (auto simp: same_orgs_def)
qed simp

lemma replace_atoms_effect:
  assumes "org_ids_ok s"
  shows "org_ids_ok (replace_atoms now cid ds s)" "same_orgs s (replace_atoms now cid ds s)"
    "organization_contracts (replace_atoms now cid ds s) = organization_contracts s"
    "user_genes (replace_atoms now cid ds s) = user_genes s" "grows {cid} s (replace_atoms now cid ds s)"
    "d \<in> set ds \<Longrightarrow> (cid, d) \<in> links contract_gene_key (organization_contract_genes (replace_atoms now cid ds s))"
proof -
  let ?rows = "retire now (\<lambda>l. ocg_contract_id l = cid \<and> ocg_user_gene_id l \<notin> set ds) (organization_contract_genes s)"
  let ?s = "s\<lparr>organization_contract_genes := ?rows\<rparr>"
  let ?cur = "map ocg_user_gene_id (filter (\<lambda>l. ocg_contract_id l = cid \<and> live l) (organization_contract_genes s))"
  let ?t = "replace_atoms now cid ds s"
  have "org_ids_ok ?s" using assms by (simp add: org_ids_ok_def)
  note e = add_links_effect [OF this, of now cid "filter (\<lambda>g. g \<notin> set ?cur) ds"]
  have t: "?t = add_links now cid (filter (\<lambda>g. g \<notin> set ?cur) ds) ?s" by (simp add: replace_atoms_def Let_def)
  show "org_ids_ok ?t" "same_orgs s ?t" "organization_contracts ?t = organization_contracts s" "user_genes ?t = user_genes s"
    using e by (simp_all add: t same_orgs_def)
  have L: "links contract_gene_key (organization_contract_genes ?t) =
      contract_gene_key ` set (filter (\<lambda>r. live r \<and> \<not> (ocg_contract_id r = cid \<and> ocg_user_gene_id r \<notin> set ds)) (organization_contract_genes s))
      \<union> Pair cid ` set (filter (\<lambda>g. g \<notin> set ?cur) ds)"
    using e by (simp add: t links_retire)
  show "grows {cid} s ?t"
    unfolding grows_def L using e by (auto simp: t same_orgs_def in_links contract_gene_key_def)
  show "(cid, d) \<in> links contract_gene_key (organization_contract_genes ?t)" if "d \<in> set ds"
  proof (cases "d \<in> set ?cur")
    case True
    then obtain l where "l \<in> set (organization_contract_genes s)" "ocg_contract_id l = cid" "live l" "ocg_user_gene_id l = d" by auto
    then show ?thesis unfolding L using that by (force simp: contract_gene_key_def)
  next
    case False
    then show ?thesis unfolding L using that by simp
  qed
qed

section \<open>Every Organization keeps a manager\<close>

datatype org_request =
    Create_Org organization_create current_user
  | Update_Org ident organization_update current_user
  | Delete_Org ident current_user
  | Add_Member ident member_create current_user
  | Set_Member_Atoms ident ident "string list" current_user
  | Remove_Member ident ident current_user

fun caller :: "org_request \<Rightarrow> current_user" where
  "caller (Create_Org _ cu) = cu"
| "caller (Update_Org _ _ cu) = cu"
| "caller (Delete_Org _ cu) = cu"
| "caller (Add_Member _ _ cu) = cu"
| "caller (Set_Member_Atoms _ _ _ cu) = cu"
| "caller (Remove_Member _ _ cu) = cu"

text \<open>A request that fails leaves the store as it was.\<close>

fun handle_org :: "timestamp \<Rightarrow> org_request \<Rightarrow> 'z tenancy_scheme \<Rightarrow> 'z tenancy_scheme result" where
  "handle_org now (Create_Org b cu) s = map_sum id fst (create_organization now b (cu_user_id cu) s)"
| "handle_org now (Update_Org oid b cu) s = map_sum id fst (update_organization now oid b cu s)"
| "handle_org now (Delete_Org oid cu) s = delete_organization now oid cu s"
| "handle_org now (Add_Member oid b cu) s = map_sum id fst (create_org_member now oid b cu s)"
| "handle_org now (Set_Member_Atoms oid cid slugs cu) s = map_sum id fst (update_org_member_atoms now oid cid slugs cu s)"
| "handle_org now (Remove_Member oid cid cu) s = delete_org_member now oid cid cu s"

definition org_run :: "(timestamp \<times> org_request) list \<Rightarrow> 'z tenancy_scheme \<Rightarrow> 'z tenancy_scheme" where
  "org_run = fold (\<lambda>(now, r) s. keep_state s (handle_org now r s))"

definition org_ok :: "'z db_scheme \<Rightarrow> bool" where
  "org_ok s \<longleftrightarrow> org_ids_ok s \<and> all_managed s"

lemma all_managed_grows:
  assumes "all_managed s" and "grows {} s t"
    and "\<forall>x \<in> set (organizations t). live x \<longrightarrow> (\<exists>y \<in> set (organizations s). live y \<and> row_id y = row_id x)"
  shows "all_managed t"
  using assms has_manager_grows [OF assms(2)] unfolding all_managed_def list_all_iff by (metis empty_iff)

lemma avoid_contracts:
  assumes "has_manager Q s" and "\<forall>d \<in> set (organization_contracts s). live d \<and> Q d \<longrightarrow> row_id d \<notin> K"
  shows "has_manager (\<lambda>d. Q d \<and> row_id d \<notin> K) s"
  using assms unfolding has_manager_def list_ex_iff in_org_slugs by blast

lemma all_managed_but_one:
  assumes "org_ok s" and "grows {row_id c} s t" and "same_orgs s t" and c: "c \<in> set (organization_contracts s)"
    and "has_manager (\<lambda>d. oc_organization_id d = oc_organization_id c) t"
  shows "all_managed t"
proof -
  have d: "distinct (map row_id (organization_contracts s))" using assms(1) by (simp add: org_ok_def org_ids_ok_def fresh_table_def)
  have "has_manager (\<lambda>d. oc_organization_id d = row_id x) t" if x: "x \<in> set (organizations s)" "live x" for x
  proof (cases "row_id x = oc_organization_id c")
    case False
    have "has_manager (\<lambda>d. oc_organization_id d = row_id x) s" using assms(1) x by (auto simp: org_ok_def all_managed_def list_all_iff)
    then have "has_manager (\<lambda>d. oc_organization_id d = row_id x \<and> row_id d \<notin> {row_id c}) s"
    proof (rule avoid_contracts, intro ballI impI)
      fix e assume "e \<in> set (organization_contracts s)" "live e \<and> oc_organization_id e = row_id x"
      then show "row_id e \<notin> {row_id c}" using same_row [OF d, of e c] c False by auto
    qed
    then have "has_manager (\<lambda>d. oc_organization_id d = row_id x \<and> row_id d \<notin> {row_id c}) t"
      by (rule has_manager_grows [OF assms(2)]) simp
    then show ?thesis by (rule has_manager_mono) simp
  qed (use assms(5) in simp)
  then show ?thesis using assms(3) by (auto simp: all_managed_def list_all_iff same_orgs_def)
qed

lemma atom_genes_effect:
  assumes "org_ids_ok s" and "atom_genes now slugs s = Inr (t, genes)"
  shows "org_ids_ok t" "grows {} s t" "same_orgs s t" "organization_contracts t = organization_contracts s"
    "a \<in> set slugs \<Longrightarrow> \<exists>g. gene_by_slug t a = Some g \<and> g \<in> set genes"
proof -
  consider (none) "slugs = []" "t = s"
    | (some) "atoms_known slugs" "ensure_atom_genes now s = Inr t" "genes = List.map_filter (gene_by_slug t) (remdups slugs)"
    using assms(2) by (auto simp: atom_genes_def split: if_splits sum.splits)
  then have "org_ids_ok t \<and> grows {} s t \<and> same_orgs s t \<and> organization_contracts t = organization_contracts s \<and>
    (a \<in> set slugs \<longrightarrow> (\<exists>g. gene_by_slug t a = Some g \<and> g \<in> set genes))"
  proof cases
    case none
    then show ?thesis using assms(1) by simp
  next
    case some
    note e = ensure_atom_genes_effect [OF assms(1) some(2)]
    have "\<exists>g. gene_by_slug t a = Some g \<and> g \<in> set genes" if "a \<in> set slugs"
    proof -
      have "a \<in> set ORG_OWNER_ATOMS" using some(1) that by (simp add: atoms_known_def list_all_iff)
      then obtain g where g: "gene_by_slug t a = Some g" using e(6) by blast
      then have "g \<in> set genes" using that unfolding some(3) List.map_filter_def by force
      with g show ?thesis by blast
    qed
    then show ?thesis using e(1-4) by blast
  qed
  then show "org_ids_ok t" "grows {} s t" "same_orgs s t" "organization_contracts t = organization_contracts s"
    "a \<in> set slugs \<Longrightarrow> \<exists>g. gene_by_slug t a = Some g \<and> g \<in> set genes" by blast+
qed

lemma set_atoms_keeps:
  assumes ok: "org_ok s" and plain: "plain_caller s cu"
    and r: "update_org_member_atoms now oid cid slugs cu s = Inr (t, i)"
  shows "org_ok t" "users t = users s"
proof -
  obtain x c s1 genes where x: "org_with_permission cu oid ''can_manage_org_members'' s = Inr x"
    and c: "get_org_contract (row_id x) cid s = Inr c" and g: "atom_genes now slugs s = Inr (s1, genes)"
    and gd: "guard_cannot_lock_self cu (row_id x) c (Some slugs) s1 = Inr ()"
    and t: "t = replace_atoms now (row_id c) (remdups (map row_id genes)) s1"
    using r by (auto simp: update_org_member_atoms_def item_or_404_def split: sum.splits option.splits)
  have ids: "org_ids_ok s" using ok by (simp add: org_ok_def)
  note xo = org_with_permissionD [OF x plain]
  note cd = get_org_contractD [OF c]
  note a = atom_genes_effect [OF ids g]
  note e = replace_atoms_effect [OF a(1), where now = now and cid = "row_id c" and ds = "remdups (map row_id genes)", folded t]
  have grow: "grows {row_id c} s t" using grows_weaken [OF a(2)] e(5) by (rule grows_trans)
  have "has_manager (\<lambda>d. oc_organization_id d = oid \<and> row_id d \<noteq> row_id c) s1 \<or> (\<exists>b \<in> set MANAGE_ATOMS. b \<in> set slugs)"
    using guard_leaves_manager [OF ids plain x conjunct1 [OF cd] a(2,4) gd [unfolded xo(2)]] by simp
  then have "has_manager (\<lambda>d. oc_organization_id d = oid) t"
  proof
    assume "has_manager (\<lambda>d. oc_organization_id d = oid \<and> row_id d \<noteq> row_id c) s1"
    then have "has_manager (\<lambda>d. oc_organization_id d = oid \<and> row_id d \<noteq> row_id c) t"
      by (rule has_manager_grows [OF e(5)]) simp
    then show ?thesis by (rule has_manager_mono) simp
  next
    assume "\<exists>b \<in> set MANAGE_ATOMS. b \<in> set slugs"
    then obtain b where b: "b \<in> set MANAGE_ATOMS" "b \<in> set slugs" by blast
    from a(5) [OF b(2)] obtain h where h: "gene_by_slug s1 b = Some h" "h \<in> set genes" by blast
    then have "(row_id c, row_id h) \<in> links contract_gene_key (organization_contract_genes t)" by (intro e(6)) simp
    then have "b \<in> set (org_slugs (\<lambda>d. oc_organization_id d = oid) t)"
      using cd gene_by_slug_SomeD [OF h(1)] unfolding in_org_slugs e(3,4) a(4) by (auto simp: xo(2))
    with b(1) show ?thesis by (auto simp: has_manager_def list_ex_iff)
  qed
  moreover have "same_orgs s t" using a(3) e(2) by (rule same_orgs_trans)
  ultimately show "org_ok t" "users t = users s"
    using all_managed_but_one [OF ok grow] cd e(1) by (auto simp: org_ok_def xo(2) same_orgs_def)
qed

lemma remove_member_keeps:
  assumes ok: "org_ok s" and plain: "plain_caller s cu" and r: "delete_org_member now oid cid cu s = Inr t"
  shows "org_ok t" "users t = users s"
proof -
  obtain x c where x: "org_with_permission cu oid ''can_manage_org_members'' s = Inr x"
    and c: "get_org_contract (row_id x) cid s = Inr c" and gd: "guard_cannot_lock_self cu (row_id x) c None s = Inr ()"
    and t: "t = s\<lparr>organization_contract_genes := retire now (\<lambda>l. ocg_contract_id l = row_id c) (organization_contract_genes s),
                  organization_contracts := update_where (\<lambda>r. row_id r = row_id c) (soft_delete now) (organization_contracts s)\<rparr>"
    using r by (auto simp: delete_org_member_def split: sum.splits)
  have ids: "org_ids_ok s" using ok by (simp add: org_ok_def)
  note xo = org_with_permissionD [OF x plain]
  note cd = get_org_contractD [OF c]
  have "map row_id (organization_contracts t) = map row_id (organization_contracts s)" by (simp add: t map_update_where)
  then have ids': "org_ids_ok t" using ids fresh_map [of "organization_contracts t" "organization_contracts s"] by (simp add: org_ids_ok_def t)
  have grow: "grows {row_id c} s t"
    unfolding grows_def by (auto simp: t links_retire in_links contract_gene_key_def intro!: update_where_keep)
  have "has_manager (\<lambda>d. oc_organization_id d = oid \<and> row_id d \<noteq> row_id c) s"
    using guard_leaves_manager [OF ids plain x conjunct1 [OF cd] grows_refl refl gd [unfolded xo(2)]] by simp
  then have "has_manager (\<lambda>d. oc_organization_id d = oid \<and> row_id d \<noteq> row_id c) t"
    by (rule has_manager_grows [OF grow]) simp
  then have "has_manager (\<lambda>d. oc_organization_id d = oid) t" by (rule has_manager_mono) simp
  then show "org_ok t" "users t = users s"
    using all_managed_but_one [OF ok grow] cd ids' by (auto simp: org_ok_def xo(2) same_orgs_def t)
qed

lemma create_keeps:
  assumes ok: "org_ok s" and r: "create_organization now b uid s = Inr (t, x)"
  shows "org_ok t" "users t = users s"
proof -
  have ids: "org_ids_ok s" using ok by (simp add: org_ok_def)
  note c = created_organization [OF ids r]
  have "has_manager (\<lambda>d. oc_organization_id d = row_id y) t" if y: "y \<in> set (organizations t)" "live y" for y
  proof (cases "y = x")
    case True
    have m: "''can_manage_organization'' \<in> set MANAGE_ATOMS" "''can_manage_organization'' \<in> set ORG_OWNER_ATOMS"
      by (simp_all add: MANAGE_ATOMS_def ORG_OWNER_ATOMS_def ATOM_CATALOG_def)
    show ?thesis by (rule has_manager_mono [OF has_manager_holds [OF m(1) c(8) [OF m(2)]]]) (simp add: True)
  next
    case False
    then have "y \<in> set (organizations s)" using y c(4) by simp
    then have "has_manager (\<lambda>d. oc_organization_id d = row_id y) s" using ok y(2) by (auto simp: org_ok_def all_managed_def list_all_iff)
    then show ?thesis by (rule has_manager_grows [OF c(2)]) simp
  qed
  then show "org_ok t" using c(1) by (simp add: org_ok_def all_managed_def list_all_iff)
  show "users t = users s" by (fact c(3))
qed

lemma add_member_keeps:
  assumes ok: "org_ok s" and r: "create_org_member now oid b cu s = Inr (t, i)"
  shows "org_ok t" "users t = users s"
proof -
  obtain org uid s1 genes s2 c where s1: "atom_genes now (mc_atom_slugs b) s = Inr (s1, genes)"
    and s2: "ensure_org_contract now org uid None s1 = Inr (s2, c)" and t: "grant_atoms now (row_id c) (mc_atom_slugs b) s2 = Inr t"
    using r by (auto simp: create_org_member_def item_or_404_def split: if_splits sum.splits option.splits)
  have ids: "org_ids_ok s" using ok by (simp add: org_ok_def)
  note a = atom_genes_effect [OF ids s1]
  note e = org_contract_effect [OF a(1) s2]
  note g = grant_atoms_grows [OF e(1) t]
  have "grows {} s t" using grows_trans [OF grows_trans [OF a(2) e(2)] g(2)] .
  moreover have "same_orgs s t" using same_orgs_trans [OF same_orgs_trans [OF a(3) e(3)] g(3)] .
  ultimately show "org_ok t" "users t = users s"
    using ok g(1) all_managed_grows [of s t] by (auto simp: org_ok_def same_orgs_def)
qed

lemma patch_organization_row:
  assumes "patch_organization now x b s = Inr (t, y)"
  shows "t = set_organization y s" "row_id y = row_id x" "deleted_at y = deleted_at x"
proof -
  obtain f where y: "y = modified now x (f x)" "row_id (f x) = row_id x" "deleted_at (f x) = deleted_at x" and t: "t = set_organization y s"
    using assms unfolding patch_organization_def Let_def
    by (auto split: sum.splits if_splits)
  then show "t = set_organization y s" "row_id y = row_id x" "deleted_at y = deleted_at x"
    by (simp_all add: modified_def touch_def)
qed

lemma patch_keeps:
  assumes ok: "org_ok s" and x: "get_live (organizations s) oid = Some x" and r: "patch_organization now x b s = Inr (t, y)"
  shows "org_ok t" "users t = users s"
proof -
  note p = patch_organization_row [OF r]
  have xs: "x \<in> set (organizations s)" "live x" using get_live_SomeD [OF x] by simp_all
  have "map row_id (organizations t) = map row_id (organizations s)"
    by (simp add: p(1) set_organization_def map_update_where)
  then have "org_ids_ok t" using ok fresh_map [of "organizations t" "organizations s"]
    by (simp add: org_ok_def org_ids_ok_def p(1) set_organization_def used_ids_def)
  moreover have "grows {} s t" by (auto simp: grows_def p(1) set_organization_def)
  moreover have "\<forall>z \<in> set (organizations t). live z \<longrightarrow> (\<exists>w \<in> set (organizations s). live w \<and> row_id w = row_id z)"
    using xs p(2) by (auto simp: p(1) set_organization_def elim!: update_whereE)
  ultimately show "org_ok t" using all_managed_grows ok unfolding org_ok_def by blast
  show "users t = users s" by (simp add: p(1) set_organization_def)
qed

section \<open>Deletion\<close>

lemma cascade_tables:
  assumes "t = cascade_organization now oid s"
  shows "organizations t = retire now (\<lambda>x. row_id x = oid) (organizations s)"
    "organization_contracts t = retire now (\<lambda>c. oc_organization_id c = oid) (organization_contracts s)"
    "organization_contract_genes t = retire now (\<lambda>g. ocg_contract_id g \<in> set (ids_where (\<lambda>c. oc_organization_id c = oid)
       (organization_contracts s))) (organization_contract_genes s)"
    "users t = users s" "user_genes t = user_genes s" "id_source t = id_source s" "id_next t = id_next s"
  by (simp_all add: assms cascade_organization_def Let_def)

lemma in_ids_where: "i \<in> set (ids_where P rows) \<longleftrightarrow> (\<exists>r \<in> set rows. row_id r = i \<and> P r \<and> live r)"
  by (auto simp: ids_where_def)

lemma in_retire: "r \<in> set (retire now P rows) \<and> live r \<longleftrightarrow> r \<in> set rows \<and> live r \<and> \<not> P r"
proof -
  have "\<not> live (soft_delete now q)" for q :: "'a base_row_scheme" by simp
  then show ?thesis unfolding retire_def in_update_where_iff by (metis (full_types))
qed

lemma delete_keeps:
  assumes ok: "org_ok s" and r: "delete_organization now oid cu s = Inr t"
  shows "org_ok t" "users t = users s"
proof -
  have t: "t = cascade_organization now oid s" using r by (auto simp: delete_organization_def map_sum_is_Inr)
  note ct = cascade_tables [OF t]
  let ?K = "set (ids_where (\<lambda>c. oc_organization_id c = oid) (organization_contracts s))"
  have ids: "org_ids_ok s" using ok by (simp add: org_ok_def)
  have u: "used_ids t = used_ids s" by (simp add: used_ids_def ct)
  have "org_ids_ok t"
    using ids fresh_map [of "organizations t" "organizations s"] fresh_map [of "organization_contracts t" "organization_contracts s"]
    by (simp add: org_ids_ok_def ct u)
  have grow: "grows ?K s t"
    unfolding grows_def ct(3,4,5) links_retire
  proof (intro conjI ballI impI refl)
    fix c assume c: "c \<in> set (organization_contracts s)" "live c \<and> row_id c \<notin> ?K"
    then have "oc_organization_id c \<noteq> oid" by (auto simp: in_ids_where)
    then show "c \<in> set (organization_contracts t)" using c in_retire unfolding ct(2) by blast
  qed (auto simp: in_links contract_gene_key_def image_iff)
  have d: "distinct (map row_id (organization_contracts s))" using ids by (simp add: org_ids_ok_def fresh_table_def)
  have "has_manager (\<lambda>c. oc_organization_id c = row_id x) t" if x: "x \<in> set (organizations t)" "live x" for x
  proof -
    from x in_retire [of x now "\<lambda>x. row_id x = oid" "organizations s"] have xs: "x \<in> set (organizations s)" "row_id x \<noteq> oid"
      unfolding ct(1) by auto
    have "has_manager (\<lambda>c. oc_organization_id c = row_id x) s" using ok xs x(2) by (auto simp: org_ok_def all_managed_def list_all_iff)
    then have "has_manager (\<lambda>c. oc_organization_id c = row_id x \<and> row_id c \<notin> ?K) s"
    proof (rule avoid_contracts, intro ballI impI notI)
      fix e assume e: "e \<in> set (organization_contracts s)" "live e \<and> oc_organization_id e = row_id x" "row_id e \<in> ?K"
      then obtain c where "c \<in> set (organization_contracts s)" "row_id c = row_id e" "oc_organization_id c = oid" by (auto simp: in_ids_where)
      then show False using same_row [OF d, of c e] e xs(2) by auto
    qed
    then have "has_manager (\<lambda>c. oc_organization_id c = row_id x \<and> row_id c \<notin> ?K) t" by (rule has_manager_grows [OF grow]) simp
    then show ?thesis by (rule has_manager_mono) simp
  qed
  with \<open>org_ids_ok t\<close> show "org_ok t" by (simp add: org_ok_def all_managed_def list_all_iff)
  show "users t = users s" by (fact ct(4))
qed

lemma org_request_keeps:
  assumes "org_ok s" and "plain_caller s (caller r)" and "handle_org now r s = Inr t"
  shows "org_ok t \<and> users t = users s"
proof (cases r)
  case (Create_Org b cu)
  then show ?thesis using assms create_keeps [OF assms(1)] by (auto simp: map_sum_is_Inr)
next
  case (Update_Org oid b cu)
  then obtain x y where x: "org_with_permission cu oid ''can_manage_organization'' s = Inr x" "patch_organization now x b s = Inr (t, y)"
    using assms(3) by (auto simp: map_sum_is_Inr update_organization_def split: if_splits sum.splits)
  from org_with_permissionD(1) [OF x(1)] assms(2) Update_Org have "get_live (organizations s) oid = Some x" by simp
  from patch_keeps [OF assms(1) this x(2)] show ?thesis by simp
next
  case (Delete_Org oid cu)
  then show ?thesis using assms delete_keeps [OF assms(1)] by auto
next
  case (Add_Member oid b cu)
  then show ?thesis using assms add_member_keeps [OF assms(1)] by (auto simp: map_sum_is_Inr)
next
  case (Set_Member_Atoms oid cid slugs cu)
  then show ?thesis using assms set_atoms_keeps [OF assms(1)] by (auto simp: map_sum_is_Inr)
next
  case (Remove_Member oid cid cu)
  then show ?thesis using assms remove_member_keeps [OF assms(1)] by auto
qed

text \<open>
  C17. No Organization is left without a manager: in every run of requests on Organizations and their
  members by callers who are no super admins (creation, update, deletion, a new member, a member's
  atoms replaced, a member removed) every Organization that is live afterwards has a live contract
  that carries \<open>can_manage_organization\<close> or \<open>can_manage_org_members\<close>, if that was so before.\<close>

theorem org_keeps_manager:
  assumes "org_ids_ok s" and "all_managed s" and "list_all (\<lambda>(now, r). plain_caller s (caller r)) rs"
  shows "all_managed (org_run rs s)"
proof -
  have "org_ok s \<Longrightarrow> list_all (\<lambda>(now, r). plain_caller s (caller r)) rs \<Longrightarrow> org_ok (org_run rs s)" for s :: "'a tenancy_scheme"
  proof (induction rs arbitrary: s)
    case (Cons q rs)
    obtain now r where q: "q = (now, r)" by (cases q)
    let ?t = "keep_state s (handle_org now r s)"
    have "org_ok ?t \<and> users ?t = users s"
      using org_request_keeps [OF Cons.prems(1), of r now] Cons.prems q by (auto simp: keep_state_def split: sum.splits)
    then have "org_ok (org_run rs ?t)" using Cons by (intro Cons.IH) (simp_all add: q plain_caller_users [of ?t s])
    then show ?case by (simp add: org_run_def q)
  qed (simp add: org_run_def)
  with assms show ?thesis by (simp add: org_ok_def)
qed

section \<open>A deleted Organization\<close>

definition distinct_ids :: "'a base_row_scheme list \<Rightarrow> bool" where
  "distinct_ids rows = distinct (map row_id rows)"

definition tenant_ids_ok :: "'z db_scheme \<Rightarrow> bool" where
  "tenant_ids_ok s \<longleftrightarrow> distinct_ids (workspaces s) \<and> distinct_ids (namespaces s) \<and> distinct_ids (organization_contracts s) \<and>
     distinct_ids (namespace_contracts s)"

lemma cascade_scopes:
  assumes "t = cascade_organization now oid s"
  shows "workspaces t = retire now (\<lambda>w. ws_namespace_id w \<in> set (ids_where (\<lambda>n. ns_org_id n = oid) (namespaces s))) (workspaces s)"
    "namespaces t = retire now (\<lambda>n. ns_org_id n = oid) (namespaces s)"
    "namespace_contracts t = retire now (\<lambda>c. nc_namespace_id c \<in> set (ids_where (\<lambda>n. ns_org_id n = oid) (namespaces s))) (namespace_contracts s)"
    "namespace_contract_genes t = retire now (\<lambda>g. ncg_contract_id g \<in> set (ids_where (\<lambda>c. nc_namespace_id c \<in>
       set (ids_where (\<lambda>n. ns_org_id n = oid) (namespaces s))) (namespace_contracts s))) (namespace_contract_genes s)"
  by (simp_all add: assms cascade_organization_def Let_def)

text \<open>Links that leave a retired set of contracts alone are those of the contracts outside it.\<close>

lemma retired_link:
  assumes "\<And>g. fst (key g) = i g"
  shows "k \<in> links key (retire now (\<lambda>g. i g \<in> K) rows) \<longleftrightarrow> k \<in> links key rows \<and> fst k \<notin> K"
  unfolding links_retire in_links using assms by (auto simp: image_iff)

lemma kept_contract:
  assumes "distinct_ids rows"
  shows "c \<in> set (retire now P rows) \<and> live c \<and> Q c \<longleftrightarrow> c \<in> set rows \<and> live c \<and> Q c \<and> row_id c \<notin> set (ids_where P rows)"
proof -
  have "c \<in> set rows \<Longrightarrow> live c \<Longrightarrow> row_id c \<in> set (ids_where P rows) \<longleftrightarrow> P c"
    using same_row [of rows] assms unfolding distinct_ids_def in_ids_where by metis
  then show ?thesis using in_retire [of c now P rows] by auto
qed

lemma org_holds_kept:
  assumes "tenant_ids_ok s" and t: "t = cascade_organization now oid s" and "o' \<noteq> oid"
  shows "org_holds u o' a t = org_holds u o' a s"
proof -
  let ?P = "\<lambda>c. oc_organization_id c = oid"
  have d: "distinct_ids (organization_contracts s)" using assms(1) by (simp add: tenant_ids_ok_def)
  have c: "c \<in> set (organization_contracts t) \<and> live c \<and> oc_user_id c = u \<and> oc_organization_id c = o' \<longleftrightarrow>
      c \<in> set (organization_contracts s) \<and> live c \<and> (oc_user_id c = u \<and> oc_organization_id c = o') \<and>
      row_id c \<notin> set (ids_where ?P (organization_contracts s))" for c
    unfolding cascade_tables(2) [OF t] using kept_contract [OF d, of c now ?P "\<lambda>c. oc_user_id c = u \<and> oc_organization_id c = o'"] by blast
  have k: "row_id c \<notin> set (ids_where ?P (organization_contracts s))"
    if "c \<in> set (organization_contracts s)" "live c" "oc_organization_id c = o'" for c
    using that assms(3) d same_row [of "organization_contracts s" _ c] unfolding in_ids_where distinct_ids_def by metis
  have l: "(row_id c, j) \<in> links contract_gene_key (organization_contract_genes t) \<longleftrightarrow>
      (row_id c, j) \<in> links contract_gene_key (organization_contract_genes s) \<and> row_id c \<notin> set (ids_where ?P (organization_contracts s))" for c :: organization_contract and j
    unfolding cascade_tables(3) [OF t] by (subst retired_link) (simp_all add: contract_gene_key_def)
  show ?thesis
    unfolding org_holds_def cascade_tables(5) [OF t] l using c k by blast
qed

lemma ns_holds_kept:
  assumes "tenant_ids_ok s" and t: "t = cascade_organization now oid s" and n: "n \<notin> set (ids_where (\<lambda>n. ns_org_id n = oid) (namespaces s))"
  shows "ns_holds u n a t = ns_holds u n a s"
proof -
  let ?N = "set (ids_where (\<lambda>n. ns_org_id n = oid) (namespaces s))"
  let ?P = "\<lambda>c. nc_namespace_id c \<in> ?N"
  let ?key = "\<lambda>cg. (ncg_contract_id cg, ncg_user_gene_id cg)"
  have d: "distinct_ids (namespace_contracts s)" using assms(1) by (simp add: tenant_ids_ok_def)
  have c: "c \<in> set (namespace_contracts t) \<and> live c \<and> nc_user_id c = u \<and> nc_namespace_id c = n \<longleftrightarrow>
      c \<in> set (namespace_contracts s) \<and> live c \<and> (nc_user_id c = u \<and> nc_namespace_id c = n) \<and>
      row_id c \<notin> set (ids_where ?P (namespace_contracts s))" for c
    unfolding cascade_scopes(3) [OF t] using kept_contract [OF d, of c now ?P "\<lambda>c. nc_user_id c = u \<and> nc_namespace_id c = n"] by blast
  have k: "row_id c \<notin> set (ids_where ?P (namespace_contracts s))"
    if "c \<in> set (namespace_contracts s)" "live c" "nc_namespace_id c = n" for c
    using that n d same_row [of "namespace_contracts s" _ c] unfolding in_ids_where [of _ ?P] distinct_ids_def by metis
  have l: "(row_id c, j) \<in> links ?key (namespace_contract_genes t) \<longleftrightarrow>
      (row_id c, j) \<in> links ?key (namespace_contract_genes s) \<and> row_id c \<notin> set (ids_where ?P (namespace_contracts s))" for c :: namespace_contract and j
    unfolding cascade_scopes(4) [OF t] by (subst retired_link) simp_all
  show ?thesis
    unfolding ns_holds_def cascade_tables(5) [OF t] l using c k by blast
qed

lemma get_live_retire:
  assumes "distinct_ids rows" and "r \<in> set rows" and "live r"
  shows "get_live (retire now P rows) (row_id r) = (if P r then None else Some r)"
proof (cases "P r")
  case True
  have "\<not> live q" if "q \<in> set (retire now P rows)" "row_id q = row_id r" for q
  proof
    assume "live q"
    with that in_retire [of q now P rows] have "q \<in> set rows" "\<not> P q" by auto
    with that(2) same_row [of rows q r] assms True show False by (auto simp: distinct_ids_def)
  qed
  with True show ?thesis by (auto simp: get_live_None_iff)
next
  case False
  have "r \<in> set (retire now P rows)" using in_retire [of r now P rows] assms False by blast
  moreover have "distinct (map row_id (retire now P rows))" using assms(1) by (simp add: distinct_ids_def)
  ultimately have "get_live (retire now P rows) (row_id r) = Some r" using assms(3) by (blast intro: get_live_unique)
  with False show ?thesis by simp
qed

text \<open>
  C18. Deleting an Organization closes its workspaces to every user who is no super admin, whatever
  the atom and the header, and changes no answer for the workspaces of the other Organizations.\<close>

theorem deleted_organization_closed:
  assumes "tenant_ids_ok s" and "delete_organization now oid cu s = Inr t"
    and u: "get_live (users s) uid = Some u" "\<not> is_super_admin u"
    and w: "w \<in> set (workspaces s)" "live w" and n: "n \<in> set (namespaces s)" "live n" "ws_namespace_id w = row_id n"
  shows "if ns_org_id n = oid
    then require_workspace_permission uid (row_id w) atom x_org t = Inl (NotFoundError ''workspace.not_found'' ''errors.workspace.not_found'')
    else require_workspace_permission uid (row_id w) atom x_org t = require_workspace_permission uid (row_id w) atom x_org s"
proof -
  have t: "t = cascade_organization now oid s" using assms(2) by (auto simp: delete_organization_def map_sum_is_Inr)
  let ?N = "set (ids_where (\<lambda>n. ns_org_id n = oid) (namespaces s))"
  have d: "distinct_ids (workspaces s)" "distinct_ids (namespaces s)" using assms(1) by (simp_all add: tenant_ids_ok_def)
  have in_N: "row_id n \<in> ?N \<longleftrightarrow> ns_org_id n = oid"
    using same_row [of "namespaces s" _ n] n d(2) unfolding in_ids_where distinct_ids_def by metis
  have u': "get_live (users t) uid = Some u" using u(1) by (simp add: cascade_tables(4) [OF t])
  have wt: "get_live (workspaces t) (row_id w) = (if ns_org_id n = oid then None else Some w)"
    unfolding cascade_scopes(1) [OF t] by (simp add: get_live_retire [OF d(1) w] n(3) in_N)
  show ?thesis
  proof (cases "ns_org_id n = oid")
    case True
    then show ?thesis using u(2) u' wt by (simp add: require_workspace_permission_def require_permission_def resolve_org_ns_def)
  next
    case False
    have ws: "get_live (workspaces s) (row_id w) = Some w" using get_live_unique w d(1) by (auto simp: distinct_ids_def)
    have ns: "get_live (namespaces s) (row_id n) = Some n" using get_live_unique n d(2) by (auto simp: distinct_ids_def)
    have nt: "get_live (namespaces t) (row_id n) = Some n"
      unfolding cascade_scopes(2) [OF t] using False by (simp add: get_live_retire [OF d(2) n(1,2)])
    have res: "resolve_org_ns x_org None (Some (row_id w)) t = resolve_org_ns x_org None (Some (row_id w)) s"
      using False wt ws ns nt n(3) by (simp add: resolve_org_ns_def)
    have gr: "list_grant_slugs uid o' n' t = list_grant_slugs uid o' n' s"
      if "resolve_org_ns x_org None (Some (row_id w)) s = Inr (o', n')" for o' n'
    proof -
      from that ws ns n(3) have "n' = Some (row_id n)" "o' = None \<or> o' = Some (ns_org_id n)"
        by (auto simp: resolve_org_ns_def truthy_def split: if_splits)
      then show ?thesis
        using org_holds_kept [OF assms(1) t False] ns_holds_kept [OF assms(1) t] in_N False
        by (auto simp: set_eq_iff in_list_grant_slugs)
    qed
    show ?thesis
      using False u u' res gr by (auto simp: require_workspace_permission_def require_permission_def split: sum.splits)
  qed
qed

section \<open>Witnesses\<close>

definition ann_leaves :: "(timestamp \<times> org_request) list" where
  "ann_leaves = [(1, Create_Org world_of_ann ann), (2, Remove_Member (sample_ids 10) (sample_ids 27) ann)]"

text \<open>Ann makes an Organization and tries to leave it.\<close>

theorem org_keeps_manager_witness:
  "all_managed (org_run ann_leaves sample_tenants) \<and>
   (case handle_org 2 (Remove_Member (sample_ids 10) (sample_ids 27) ann) (org_run [(1, Create_Org world_of_ann ann)] sample_tenants) of
      Inl e \<Rightarrow> e = cannot_lock_self | Inr _ \<Rightarrow> False)"
proof -
  have "all_managed sample_tenants" "list_all (\<lambda>(now, r). plain_caller sample_tenants (caller r)) ann_leaves" by code_simp+
  from org_keeps_manager [OF sample_tenants_ok this]
  have "all_managed (org_run ann_leaves sample_tenants)" .
  moreover have "case handle_org 2 (Remove_Member (sample_ids 10) (sample_ids 27) ann) (org_run [(1, Create_Org world_of_ann ann)] sample_tenants) of
      Inl e \<Rightarrow> e = cannot_lock_self | Inr _ \<Rightarrow> False" by code_simp
  ultimately show ?thesis by blast
qed

definition atom_row :: "ident \<Rightarrow> string \<Rightarrow> user_gene" where
  "atom_row i slug = new_atom_gene i 0 (slug, S_org)"

definition two_tenants :: tenancy where
  "two_tenants = sample_tenants\<lparr>organizations := [new_organization ''o'' 0 world_of_ann],
     user_genes := [atom_row ''g'' ''can_manage_organization'', atom_row ''g2'' ''can_view_workspace''],
     organization_contracts := [base_row.extend (tenant_row ''c'') (organization_contract.fields ''o'' ''u'' None)],
     organization_contract_genes := [contract_gene_row ''l'' 0 (''c'', ''g''), contract_gene_row ''l2'' 0 (''c'', ''g2'')],
     namespaces := [base_row.extend (tenant_row ''n'') (namespace.fields ''o'' ''n'' ''N'' None None),
                    base_row.extend (tenant_row ''n2'') (namespace.fields ''o2'' ''n'' ''N'' None None)],
     workspaces := [base_row.extend (tenant_row ''w'') (workspace.fields ''n'' ''W'' ''w''),
                    base_row.extend (tenant_row ''w2'') (workspace.fields ''n2'' ''W'' ''w'')]\<rparr>"

theorem deleted_organization_closed_witness:
  "\<exists>t. delete_organization 3 ''o'' ann two_tenants = Inr t \<and>
     require_workspace_permission ''u'' ''w'' ''can_view_workspace'' None two_tenants = Inr () \<and>
     require_workspace_permission ''u'' ''w'' ''can_view_workspace'' None t
       = Inl (NotFoundError ''workspace.not_found'' ''errors.workspace.not_found'')"
proof -
  have "is_ok (delete_organization 3 ''o'' ann two_tenants)" by code_simp
  then obtain t where t: "delete_organization 3 ''o'' ann two_tenants = Inr t" by (rule is_okE)
  have ok: "tenant_ids_ok two_tenants" by code_simp
  let ?u = "hd (users two_tenants)" and ?w = "hd (workspaces two_tenants)" and ?n = "hd (namespaces two_tenants)"
  have u: "get_live (users two_tenants) ''u'' = Some ?u" "\<not> is_super_admin ?u" by code_simp+
  have w: "?w \<in> set (workspaces two_tenants)" "live ?w" by code_simp+
  have n: "?n \<in> set (namespaces two_tenants)" "live ?n" "ws_namespace_id ?w = row_id ?n" by code_simp+
  have i: "ns_org_id ?n = ''o''" "row_id ?w = ''w''" by code_simp+
  have "require_workspace_permission ''u'' ''w'' ''can_view_workspace'' None two_tenants = Inr ()" by code_simp
  with deleted_organization_closed [OF ok t u w n, of "''can_view_workspace''" None] i t show ?thesis by simp
qed

end
