(* ===== verification/Provider_Props.thy ===== *)
theory Provider_Props
  imports Org_Props
begin

text \<open>
  Properties of the providers: any user can have the environment of the process sent to a server, the
  binding of a BaseClass crosses Organizations, and the hub of an Organization can be bound to the
  provider of another one.
\<close>

section \<open>Who made an Organization may do everything on it\<close>

lemma creator_may:
  assumes ok: "org_ids_ok s" and u: "get_live (users s) (cu_user_id cu) = Some u"
    and c: "create_organization now b (cu_user_id cu) s = Inr (t, x)" and a: "a \<in> set ORG_OWNER_ATOMS"
  shows "org_with_permission cu (row_id x) a t = Inr x"
proof -
  note e = created_organization [OF ok c]
  have x: "get_live (organizations t) (row_id x) = Some x"
  proof -
    have "distinct (map row_id (organizations t))" using e(1) by (simp add: org_ids_ok_def fresh_table_def)
    then show ?thesis by (rule get_live_unique) (simp_all add: e(4,5))
  qed
  obtain d where d: "member_contracts (cu_user_id cu) (row_id x) t = [d]" using e(7) by blast
  have h: "org_holds (cu_user_id cu) (row_id x) a t" by (rule e(8) [OF a])
  then obtain c i where c: "c \<in> set (member_contracts (cu_user_id cu) (row_id x) t)"
    and l: "(row_id c, i) \<in> links contract_gene_key (organization_contract_genes t)"
    unfolding org_holds_def member_contracts_def by auto
  then have "c = d" using d by simp
  then have "has_atom (cu_user_id cu) (row_id x) t"
    using l by (auto simp: has_atom_def d list_ex_iff in_links contract_gene_key_def)
  then have g: "get_org_for_user cu (row_id x) t = Inr x" using x d by (simp add: get_org_for_user_def)
  have "a \<in> list_grant_slugs (cu_user_id cu) (Some (row_id x)) None t" using h by (simp add: in_list_grant_slugs)
  then have "require_permission (cu_user_id cu) a (Some (row_id x)) None None t = Inr ()"
    using u by (simp add: require_permission_def resolve_org_ns_def e(3))
  with g show ?thesis by (simp add: org_with_permission_def)
qed

section \<open>The environment of the process\<close>

text \<open>A server that lists the headers it was sent as its models, and the request that asks it.\<close>

definition echo_server :: "models_request \<Rightarrow> string + (int \<times> string \<times> (string + json))" where
  "echo_server rq = Inr (200, [], Inr (JObj [(''data'', JList (map (\<lambda>(_, v). JObj [(''id'', JStr v)]) (rq_headers rq)))]))"

definition probe :: "string \<Rightarrow> string \<Rightarrow> preview_request" where
  "probe name url = \<lparr>pq_api_key_ref = name, pq_base_url = Some url, pq_request_format = ''completion'', pq_verify_ssl = True,
     pq_models_endpoint_mode = ''inherit'', pq_models_base_url = None, pq_catalog_provider_id = None\<rparr>"

lemma probe_fetches:
  assumes "environ out name = Some v" "v \<noteq> []" "strip name = name" "name \<noteq> []" "rstrip_char CHR ''/'' url \<noteq> []"
    and "http_get out = echo_server"
  shows "preview_models_of now out (probe name url) s =
    Inr (s, \<lparr>mz_items = [plain_model (''Bearer '' @ v) (''Bearer '' @ v) ''custom'' None], mz_degraded = False,
      mz_default_model = None, mz_error = None\<rparr>)"
proof -
  have "url \<noteq> []" using assms(5) by (auto simp: rstrip_char_def)
  then have "endpoint_request out name (Some url) ''completion'' True ''inherit'' None =
      Inr \<lparr>rq_url = rstrip_char CHR ''/'' url @ ''/models'', rq_headers = [(''Authorization'', ''Bearer '' @ v)], rq_verify = True\<rparr>"
    using assms(1-5) by (simp add: endpoint_request_def resolve_api_key_def models_url_from_parts_def models_headers_def Let_def)
  then have "preview_fetch out (probe name url) (Some url) ''custom'' =
      ([\<lparr>fm_id = ''Bearer '' @ v, fm_name = ''Bearer '' @ v, fm_provider = ''custom'', fm_context_length = JNull\<rparr>], None)"
    by (simp add: preview_fetch_def probe_def fetch_models_from_endpoint_def read_models_def assms(6) echo_server_def
        parse_found_def found_of_def jget_null_def json_or_def py_str_def List.map_filter_def Let_def)
  then show ?thesis
    by (simp add: preview_models_of_def probe_def found_out_def int_or_none_def)
qed


section \<open>Bindings of BaseClasses\<close>

definition defaults_ok :: "'z tenancy_scheme \<Rightarrow> bool" where
  "defaults_ok s \<longleftrightarrow> inj (id_source s) \<and> fresh_table (provider_defaults s) (used_ids s)"

definition bound :: "ident \<Rightarrow> ident \<Rightarrow> string \<Rightarrow> 'z tenancy_scheme \<Rightarrow> bool" where
  "bound bc pid model s \<longleftrightarrow>
     (\<exists>d. filter (\<lambda>d. pd_base_class_id d = bc \<and> live d) (provider_defaults s) = [d] \<and> pd_provider_id d = pid \<and> pd_model d = model)"

lemma update_where_one:
  assumes "distinct (map row_id rows)" and "d \<in> set rows"
  shows "update_where (\<lambda>r. row_id r = row_id d) (\<lambda>_. d') rows = map (\<lambda>r. if r = d then d' else r) rows"
proof -
  have "row_id r = row_id d \<longleftrightarrow> r = d" if "r \<in> set rows" for r using same_row [OF assms(1) that assms(2)] by auto
  then show ?thesis unfolding update_where_def by (intro map_cong) auto
qed

lemma filter_replace_other: "\<not> P d \<Longrightarrow> \<not> P d' \<Longrightarrow> filter P (map (\<lambda>r. if r = d then d' else r) rows) = filter P rows"
  by (induction rows) auto

lemma filter_replace_own:
  "P d' \<Longrightarrow> filter P rows = [d] \<Longrightarrow> filter P (map (\<lambda>r. if r = d then d' else r) rows) = [d']"
proof (induction rows)
  case (Cons r rows)
  show ?case
  proof (cases "P r")
    case True
    with Cons.prems have "r = d" "filter P rows = []" by simp_all
    moreover have "P d" using True \<open>r = d\<close> by simp
    ultimately have "filter P (map (\<lambda>r. if r = d then d' else r) rows) = []" by (auto simp: filter_empty_conv)
    with Cons.prems(1) \<open>r = d\<close> show ?thesis by simp
  next
    case False
    with Cons.prems have "filter P rows = [d]" by simp
    then have "d \<in> set (filter P rows)" by simp
    then have "r \<noteq> d" using False by auto
    then show ?thesis using Cons.IH [OF Cons.prems(1) \<open>filter P rows = [d]\<close>] False by simp
  qed
qed simp

lemma bind_base_class_effect:
  assumes ok: "defaults_ok s" and b: "bind_base_class now pid model bc s = Inr t"
  shows "defaults_ok t" "bound bc pid model t" "bound bc' pid model s \<Longrightarrow> bound bc' pid model t"
    "\<exists>ds k. t = s\<lparr>id_next := k, provider_defaults := ds\<rparr>"
proof -
  let ?F = "\<lambda>bc. filter (\<lambda>d. pd_base_class_id d = bc \<and> live d)"
  consider (new) "?F bc (provider_defaults s) = []"
      "t = (take_id s)\<lparr>provider_defaults := provider_defaults s @ [new_default (new_id s) now bc pid model]\<rparr>"
    | (old) d where "?F bc (provider_defaults s) = [d]" "t = s\<lparr>provider_defaults := update_where (\<lambda>r. row_id r = row_id d)
        (\<lambda>_. modified now d (d\<lparr>pd_provider_id := pid, pd_model := model\<rparr>)) (provider_defaults s)\<rparr>"
    using b by (auto simp: bind_base_class_def scalar_one_or_none_def split: if_splits sum.splits option.splits list.splits)
  then have "defaults_ok t \<and> bound bc pid model t \<and> (bound bc' pid model s \<longrightarrow> bound bc' pid model t) \<and>
    (\<exists>ds k. t = s\<lparr>id_next := k, provider_defaults := ds\<rparr>)"
  proof cases
    case new
    have "new_id s \<notin> used_ids s" using ok new_id_fresh [of s] by (simp add: defaults_ok_def)
    then have "defaults_ok t"
      using ok fresh_append [of "provider_defaults s" "used_ids s" "new_default (new_id s) now bc pid model"]
      by (simp add: defaults_ok_def new(2) new_default_def used_ids_def take_id_def new_id_def lessThan_Suc)
    moreover have "?F q (provider_defaults t) = ?F q (provider_defaults s) @ (if q = bc then [new_default (new_id s) now bc pid model] else [])" for q
      by (simp add: new(2) new_default_def live_def take_id_def)
    then have "bound bc pid model t" "bound bc' pid model s \<longrightarrow> bound bc' pid model t"
      using new(1) by (auto simp: bound_def new_default_def)
    moreover have "\<exists>ds k. t = s\<lparr>id_next := k, provider_defaults := ds\<rparr>"
      unfolding new(2) take_id_def by (rule exI, rule exI) simp
    ultimately show ?thesis by blast
  next
    case old
    let ?d = "modified now d (d\<lparr>pd_provider_id := pid, pd_model := model\<rparr>)"
    have d': "row_id ?d = row_id d" "pd_base_class_id ?d = pd_base_class_id d" "live ?d = live d" "pd_provider_id ?d = pid" "pd_model ?d = model"
      by (simp_all add: modified_def touch_def live_def)
        (metis provider_default.select_convs provider_default.surjective provider_default.update_convs)+
    have dist: "distinct (map row_id (provider_defaults s))" using ok by (simp add: defaults_ok_def fresh_table_def)
    have "d \<in> set (?F bc (provider_defaults s))" unfolding old(1) by simp
    then have d: "d \<in> set (provider_defaults s)" "pd_base_class_id d = bc" "live d" by simp_all
    have "map row_id (provider_defaults t) = map row_id (provider_defaults s)" by (simp add: old(2) map_update_where d'(1))
    then have "defaults_ok t" using ok fresh_map [of "provider_defaults t" "provider_defaults s"]
      by (simp add: defaults_ok_def old(2) used_ids_def)
    moreover have t: "provider_defaults t = map (\<lambda>r. if r = d then ?d else r) (provider_defaults s)"
      unfolding old(2) by (simp add: update_where_one [OF dist d(1)])
    have B: "bound bc pid model t"
      using filter_replace_own [OF _ old(1), of ?d] d d' unfolding bound_def t by simp
    moreover have "bound bc' pid model s \<longrightarrow> bound bc' pid model t"
    proof (cases "bc' = bc")
      case False
      then have "?F bc' (provider_defaults t) = ?F bc' (provider_defaults s)"
        unfolding t using d d' by (intro filter_replace_other) simp_all
      then show ?thesis by (simp add: bound_def)
    qed (use B in simp)
    moreover have "\<exists>ds k. t = s\<lparr>id_next := k, provider_defaults := ds\<rparr>"
      unfolding old(2) by (rule exI, rule exI [of _ "id_next s"]) simp
    ultimately show ?thesis by blast
  qed
  then show "defaults_ok t" "bound bc pid model t" "bound bc' pid model s \<Longrightarrow> bound bc' pid model t"
    "\<exists>ds k. t = s\<lparr>id_next := k, provider_defaults := ds\<rparr>" by blast+
qed

lemma bind_each_effect:
  assumes "defaults_ok s" and "bind_each now pid model bcs s = Inr t"
  shows "defaults_ok t \<and> (\<forall>bc. bc \<in> set bcs \<or> bound bc pid model s \<longrightarrow> bound bc pid model t) \<and>
    (\<exists>ds k. t = s\<lparr>id_next := k, provider_defaults := ds\<rparr>)"
  using assms
proof (induction bcs arbitrary: s)
  case Nil
  have "s = s\<lparr>id_next := id_next s, provider_defaults := provider_defaults s\<rparr>" by simp
  with Nil show ?case by (metis bind_each.simps(1) empty_iff list.set(1) sum.inject(2))
next
  case (Cons bc bcs)
  then obtain s1 where s1: "bind_base_class now pid model bc s = Inr s1" and r: "bind_each now pid model bcs s1 = Inr t"
    by (auto simp: and_then_def split: sum.splits)
  note e = bind_base_class_effect [OF Cons.prems(1) s1]
  note f = Cons.IH [OF e(1) r]
  obtain ds k ds' k' where "s1 = s\<lparr>id_next := k, provider_defaults := ds\<rparr>" "t = s1\<lparr>id_next := k', provider_defaults := ds'\<rparr>"
    using e(4) f by blast
  then have "t = s\<lparr>id_next := k', provider_defaults := ds'\<rparr>" by simp
  moreover have "bound b pid model t" if "b \<in> set (bc # bcs) \<or> bound b pid model s" for b
    using that e(2,3) f by auto
  ultimately show ?case using f by blast
qed

lemma get_org_provider_rowD:
  "get_org_provider_row oid pid s = Inr p \<Longrightarrow> p \<in> set (providers s) \<and> row_id p = pid \<and> live p \<and> pv_organization_id p = oid"
proof -
  assume "get_org_provider_row oid pid s = Inr p"
  then have "filter (\<lambda>p. row_id p = pid \<and> pv_organization_id p = oid \<and> live p) (providers s) = [p]"
    by (auto simp: get_org_provider_row_def split: sum.splits option.splits dest!: scalar_one_SomeD)
  then have "p \<in> set (filter (\<lambda>p. row_id p = pid \<and> pv_organization_id p = oid \<and> live p) (providers s))" by simp
  then show ?thesis by simp
qed

lemma get_row_unique: "distinct_ids rows \<Longrightarrow> r \<in> set rows \<Longrightarrow> get_row rows (row_id r) = Some r"
  unfolding get_row_def distinct_ids_def
  by (rule first_where_unique) (auto dest: same_row)

text \<open>
  C20. The binding of a BaseClass crosses Organizations: after the manager of one Organization has made
  his provider the default of a BaseClass, every live Instance whose Entity is of that BaseClass, in
  whichever Organization, is given that provider and that model, and its pod the environment of the
  provider.\<close>

theorem base_class_binding_crosses_organizations:
  assumes ok: "defaults_ok s" "distinct_ids (providers s)"
    and set: "set_org_provider_default now oid pid b cu s = Inr t"
    and b: "sd_target b = Target_base_class" "sd_base_class_ids b = Some bcs" "row_id bc \<in> set bcs"
    and p: "p \<in> set (providers s)" "row_id p = pid" "pv_enabled p"
    and i: "get_live (instances s) iid = Some i" "get_live (entities s) (ins_entity_id i) = Some e"
    and preset: "preset_slug e = Some ps" "ps \<noteq> []" "find_preset (candidate_slugs ps) s = Some bc"
  shows "resolve_provider_for_instance iid t = Inr (Some (p, sd_model b)) \<and>
    resolve_pi_env_for_instance env iid t = Inr (provider_to_pi_env env p (Some (sd_model b)))"
proof -
  obtain x where r: "set_default_row now x pid b s = Inr t"
    using set by (auto simp: set_org_provider_default_def checked_def on_org_def and_then_def split: if_splits sum.splits)
  then obtain q where q: "get_org_provider_row (row_id x) pid s = Inr q" "bind_each now (row_id q) (sd_model b) bcs s = Inr t"
    using b by (auto simp: set_default_row_def and_then_def split: sum.splits)
  note qd = get_org_provider_rowD [OF q(1)]
  have "q = p" using same_row [of "providers s" q p] qd p ok(2) by (simp add: distinct_ids_def)
  note e = bind_each_effect [OF ok(1) q(2)]
  obtain ds k where t: "t = s\<lparr>id_next := k, provider_defaults := ds\<rparr>" using e by blast
  obtain d where d: "filter (\<lambda>d. pd_base_class_id d = row_id bc \<and> live d) (provider_defaults t) = [d]"
      "pd_provider_id d = row_id p" "pd_model d = sd_model b"
    using e b(3) by (auto simp: bound_def \<open>q = p\<close>)
  have same: "instances t = instances s" "entities t = entities s" "providers t = providers s" "base_classes t = base_classes s"
    by (simp_all add: t)
  have "usable_provider (row_id p) t = Some p"
    using get_row_unique [OF ok(2) p(1)] p(3) qd \<open>q = p\<close> by (simp add: usable_provider_def same)
  moreover have "base_class_binding e t = Inr (Some d)"
    using preset d(1) by (simp add: base_class_binding_def find_preset_def same)
  ultimately have "resolve_provider_for_instance iid t = Inr (Some (p, sd_model b))"
    using i d by (simp add: resolve_provider_for_instance_def bound_provider_def same)
  then show ?thesis by (simp add: resolve_pi_env_for_instance_def)
qed

section \<open>Bindings of the hub\<close>

lemma filter_row: "distinct (map row_id rows) \<Longrightarrow> p \<in> set rows \<Longrightarrow> filter (\<lambda>q. row_id q = row_id p) rows = [p]"
  by (induction rows) (auto simp: filter_empty_conv image_iff)

definition rebind_hub :: "ident \<Rightarrow> string \<Rightarrow> organization_update" where
  "rebind_hub pid m = \<lparr>ou_slug = None, ou_name = None, ou_description = None, ou_system_hub_provider_id = Some (Some pid),
     ou_system_hub_model = Some (Some m), ou_cerebellum_default_provider_id = None, ou_cerebellum_default_model = None,
     ou_use_proxy = None, ou_proxy_host = None, ou_proxy_port = None, ou_proxy_username = None, ou_proxy_password = None\<rparr>"

text \<open>
  The hub can be bound to the provider of another Organization: the request made for the binding
  does not find that provider, the update of the Organization takes it, and the hub then speaks
  through it, with its key.\<close>

theorem hub_bound_to_foreign_provider:
  assumes may: "org_with_permission cu oid ''can_manage_organization'' s = Inr x" and "distinct_ids (providers s)"
    and p: "p \<in> set (providers s)" "live p" "pv_enabled p" "pv_organization_id p \<noteq> row_id x" "row_id p \<noteq> []" "m \<noteq> []"
    and fk: "opt_ref (providers s) (cerebellum_default_provider_id x)"
  shows "update_org_system_hub now oid \<lparr>bu_provider_id = Some (Some (row_id p)), bu_model = Some (Some m)\<rparr> cu s = Inl provider_not_found \<and>
    (\<exists>t y. update_organization now oid (rebind_hub (row_id p) m) cu s = Inr (t, y) \<and> row_id y = row_id x \<and> hub_provider y t = Inr p)"
proof -
  have only: "filter (\<lambda>q. row_id q = row_id p \<and> P q) (providers s) = (if P p then [p] else [])" for P
  proof -
    have "filter P (filter (\<lambda>q. row_id q = row_id p) (providers s)) = filter P [p]"
      using filter_row [of "providers s" p] assms(2) p(1) by (simp add: distinct_ids_def)
    then show ?thesis by (simp add: conj_commute)
  qed
  have none: "get_org_provider_row (row_id x) (row_id p) s = Inl provider_not_found"
    unfolding get_org_provider_row_def only using p(4) by simp
  define y where "y = modified now x (x\<lparr>system_hub_provider_id := Some (row_id p), system_hub_model := Some m\<rparr>)"
  define t where "t = set_organization y s"
  have f: "system_hub_provider_id y = Some (row_id p)" "system_hub_model y = Some m"
    "cerebellum_default_provider_id y = cerebellum_default_provider_id x"
    unfolding y_def by (subst modified_field; simp add: touch_def)+
  have "opt_ref (providers s) (system_hub_provider_id y)" using p(1) f(1) by (auto simp: opt_ref_def fk_exists_def list_ex_iff)
  then have "patch_organization now x (rebind_hub (row_id p) m) s = Inr (t, y)"
    using fk f(3) by (simp add: patch_organization_def rebind_hub_def apply_org_slug_guards_def Let_def patched_def patched_value_def
        not_null_def y_def t_def)
  note y = this f(1,2)
  note row = patch_organization_row [OF y(1)]
  have "providers t = providers s" by (simp add: row(1) set_organization_def)
  then have "hub_provider y t = Inr p"
    using p y(2,3) only [of "\<lambda>q. live q \<and> pv_enabled q"] by (simp add: hub_provider_def)
  moreover have "update_organization now oid (rebind_hub (row_id p) m) cu s = Inr (t, y)"
    using may y(1) by (simp add: update_organization_def slug_ok_def rebind_hub_def)
  moreover have "update_org_system_hub now oid \<lparr>bu_provider_id = Some (Some (row_id p)), bu_model = Some (Some m)\<rparr> cu s = Inl provider_not_found"
    using may none by (simp add: update_org_system_hub_def on_org_def update_hub_binding_def binding_provider_ok_def)
  ultimately show ?thesis using row(2) by blast
qed

section \<open>Witnesses\<close>

definition site_of :: "tenancy \<Rightarrow> site" where
  "site_of s = tenancy.extend s (site.fields (new_catalog 0))"

definition leaky :: outside where
  "leaky = \<lparr>environ = (\<lambda>n. if n = ''DATABASE_URL'' then Some ''secret'' else None), http_get = echo_server,
     sdk = (\<lambda>_ _. Inl []), as_int = (\<lambda>_. None), bundled = None\<rparr>"


definition ann_provider :: organization_provider where
  "ann_provider = base_row.extend (tenant_row ''p'') (organization_provider.fields ''o'' ''custom'' None ''P'' ''p'' ''completion''
     (Some ''http://evil'') ''key'' ''m'' None None True ''inherit'' None True None None None)"

definition shared_class :: base_class where
  "shared_class = base_row.extend (tenant_row ''b'') (base_class.fields ''fox'' ''Fox'' None None None None ''system'' None None None None)"

text \<open>The Instance belongs to the Organization \<open>o2\<close>, the provider to \<open>o\<close>.\<close>

definition two_sites :: site where
  "two_sites = (site_of two_tenants)\<lparr>providers := [ann_provider], base_classes := [shared_class],
     entities := [base_row.extend (tenant_row ''e'') (entity.fields ''n2'' ''E'' ''e'' (Some ''fox'') None None None None None None False)],
     instances := [base_row.extend (tenant_row ''i'') (instance_row.fields ''e'' ''w2'' None I_running None None None)]\<rparr>"

theorem base_class_binding_crosses_organizations_witness:
  "\<exists>t. set_org_provider_default 4 ''o'' ''p'' \<lparr>sd_target = Target_base_class, sd_model = ''m'', sd_base_class_ids = Some [''b'']\<rparr>
      ann two_sites = Inr t \<and> resolve_provider_for_instance ''i'' t = Inr (Some (ann_provider, ''m''))"
proof -
  let ?b = "\<lparr>sd_target = Target_base_class, sd_model = ''m'', sd_base_class_ids = Some [''b'']\<rparr>"
  have "is_ok (set_org_provider_default 4 ''o'' ''p'' ?b ann two_sites)" by code_simp
  then obtain t where t: "set_org_provider_default 4 ''o'' ''p'' ?b ann two_sites = Inr t" by (rule is_okE)
  have ok: "defaults_ok two_sites" "distinct_ids (providers two_sites)"
    by (simp_all add: defaults_ok_def two_sites_def site_of_def two_tenants_def sample_tenants_def tenancy.defs brain.defs
        sample_ids_ok fresh_table_def distinct_ids_def)
  have b: "sd_target ?b = Target_base_class" "sd_base_class_ids ?b = Some [''b'']" "row_id shared_class \<in> set [''b'']"
    by (simp_all add: shared_class_def tenant_row_def base_row.defs)
  have p: "ann_provider \<in> set (providers two_sites)" "row_id ann_provider = ''p''" "pv_enabled ann_provider"
    by (simp_all add: two_sites_def ann_provider_def tenant_row_def base_row.defs organization_provider.defs)
  let ?i = "hd (instances two_sites)" and ?e = "hd (entities two_sites)"
  have i: "get_live (instances two_sites) ''i'' = Some ?i" "get_live (entities two_sites) (ins_entity_id ?i) = Some ?e" by code_simp+
  have c: "preset_slug ?e = Some ''fox''" "''fox'' \<noteq> []" "find_preset (candidate_slugs ''fox'') two_sites = Some shared_class" by code_simp+
  from base_class_binding_crosses_organizations [OF ok t b p i c, of Map.empty] t show ?thesis by simp
qed

theorem hub_bound_to_foreign_provider_witness:
  "\<exists>t y. update_organization 4 ''o'' (rebind_hub ''q'' ''m'') ann (two_sites\<lparr>providers := [ann_provider\<lparr>row_id := ''q'', pv_organization_id := ''o2''\<rparr>]\<rparr>)
      = Inr (t, y) \<and> hub_provider y t = Inr (ann_provider\<lparr>row_id := ''q'', pv_organization_id := ''o2''\<rparr>)"
proof -
  let ?p = "ann_provider\<lparr>row_id := ''q'', pv_organization_id := ''o2''\<rparr>"
  let ?s = "two_sites\<lparr>providers := [?p]\<rparr>" and ?x = "new_organization ''o'' 0 world_of_ann"
  have may: "org_with_permission ann ''o'' ''can_manage_organization'' ?s = Inr ?x" by code_simp
  have d: "distinct_ids (providers ?s)" by (simp add: distinct_ids_def)
  have p: "?p \<in> set (providers ?s)" "live ?p" "pv_enabled ?p" "pv_organization_id ?p \<noteq> row_id ?x" "row_id ?p \<noteq> []" "''m'' \<noteq> []"
    by (simp_all add: ann_provider_def tenant_row_def base_row.defs organization_provider.defs live_def new_organization_def)
  have fk: "opt_ref (providers ?s) (cerebellum_default_provider_id ?x)" by (simp add: opt_ref_def new_organization_def)
  have "row_id ?p = ''q''" by simp
  with hub_bound_to_foreign_provider [OF may d p fk, of 4] show ?thesis by auto
qed

end
