(* ===== verification/Spec2Isabelle.thy ===== *)
theory Spec2Isabelle
  imports Messaging Inject_Queue Task_Queue Harness Slash_Parser Composer_Runs Routing_Props Permissions_Props
    Capabilities_Props Agent_Loop_Props Pod_Props Directive_Router_Props Log_Queries_Props Meetings_Props Deploy_Props
    Instances_Props Hub_Laws Brain_Props Provider_Props
begin

text \<open>
  \<^bold>\<open>Verification development of the eyot backend.\<close>

  \<^bold>\<open>The program.\<close> The backend (\<^verbatim>\<open>src/eyot-backend/app\<close>, paths below are relative to it) runs a
  collaboration world in which people and AI Instances work together. A person or an Instance sits
  in a Workspace through a Membership; two Memberships may talk only over an active Passage, and the
  Passages of a Workspace form a forest. A person writes a turn in the slash protocol; the parser
  splits it into directives, the router checks the Passage of each addressee, enqueues an inject for
  its Instance and opens a Composer turn, whose reply streams back over the Tunnel of an Instance
  Host or from the language model. Instances run agent loops; the harness supervisor watches them
  through audit events, trips circuit breakers and sends kill commands. Authorisation rests on
  contracts that carry atomic permissions, and what an Entity can do is the union of its junction
  rows and its genes, fingerprinted by a migration hash.

  \<^bold>\<open>State.\<close> The relational store is the record \<open>db\<close> of \<open>Models\<close>: one list of rows per table, in
  insertion order, and the stream of identifiers that \<open>uuid4\<close> hands out. Process memory extends it
  in layers, as the code's module-level state does: \<open>world\<close> (\<open>Harness\<close>) adds the supervisor's
  registry, \<open>process\<close> (\<open>Composer\<close>) the turn table, the Tunnel registry and what was sent.
  An operation is a function from the state to a new state, or to \<open>result = eyot_error + _\<close> when it
  can raise; an unhandled exception is the value \<open>unhandled_error\<close>, the 500 envelope of
  \<open>main.py\<close>. A request that fails leaves the store as it was: the session is rolled back.

  \<^bold>\<open>Theories, in the order of the code's layers.\<close>
  \<^item> \<open>Prelude\<close>, \<open>Py_Str\<close>, \<open>Py_Json\<close>: errors (\<open>core/errors.py\<close>), JSON, list and string operations of
    Python as far as the source uses them.
  \<^item> \<open>Models\<close>: the rows of \<open>models/*.py\<close>, their unique indexes and check constraints.
  \<^item> \<open>Passages\<close> (\<open>core/passages.py\<close>, \<open>topology.py\<close>, \<open>topology_cleanup.py\<close>) and \<open>Messaging\<close>
    (\<open>api/v1/messaging.py\<close>, \<open>schemas/membership.py\<close>, \<open>schemas/passage.py\<close>): the graph of seats and
    its endpoints. The breadth-first check decides connectivity, and endpoint runs keep forests,
    unique seats and no Passage at a deleted seat.
  \<^item> \<open>Events\<close> (\<open>core/events.py\<close>, \<open>core/event_types.py\<close>): \<open>emit\<close> appends to the audit log, then runs the
    handlers whose pattern matches; a handler that raises is skipped.
  \<^item> \<open>Priority_Inbox\<close>: the contract of a queue ordered by a key, as a locale; \<open>Inject_Queue\<close>
    (\<open>core/inject_queue.py\<close>, \<open>schemas/internal.py\<close>) and \<open>Task_Queue\<close> (\<open>core/queue.py\<close>) interpret it.
    An inject is delivered at most once and its status only moves forward; tasks are conserved along
    every interleaving of the worker, and no wakeup is lost.
  \<^item> \<open>Harness\<close> (\<open>core/harness_supervisor.py\<close>, \<open>harness_breakers.py\<close>, \<open>harness_handlers.py\<close>,
    \<open>continuation.py\<close>, \<open>todo_enforcer.py\<close>): after a checkpoint a loop is within its limits or a kill is
    on the log.
  \<^item> \<open>Slash_Parser\<close> (\<open>core/slash_parser.py\<close>, \<open>schemas/slash.py\<close>): the turn parser and its round trip.
  \<^item> \<open>Transcript\<close> (\<open>services/composer_transcript.py\<close>), \<open>Composer\<close>, \<open>Composer_Runs\<close>
    (\<open>core/composer_turns.py\<close>, \<open>services/tunnel/*.py\<close>, the stream of \<open>api/v1/composer.py\<close>): the persisted
    transcript follows the turns along every interleaving.
  \<^item> \<open>Routing\<close>, \<open>Routing_Props\<close> (\<open>core/message_router.py\<close>): delivery needs a Passage; the account of what
    routing leaves; routing is total on a well-formed store.
  \<^item> \<open>Permissions\<close>, \<open>Permissions_Props\<close> (\<open>core/permissions.py\<close>, \<open>org_contract.py\<close>, \<open>org_scope.py\<close>,
    \<open>scope_guard.py\<close>): who passes a workspace check, what granting adds, tenant isolation.
  \<^item> \<open>Link_Table\<close>: the attach and detach pattern of junction tables over an arbitrary table, and the
    locale of its set semantics; \<open>Capabilities\<close>, \<open>Capabilities_Props\<close> (\<open>core/capabilities.py\<close>,
    \<open>core/migration_hash.py\<close>) interpret it four times and \<open>Permissions_Props\<close> once.
  \<^item> \<open>Agent_Loop\<close>, \<open>Agent_Loop_Props\<close> (\<^verbatim>\<open>agent_runtime/loop.py\<close>, local mode): the loop makes at most as many
    iterations as its database limit, returns when the model stops failing, and does not otherwise.
  \<^item> \<open>Pod_Control\<close>, \<open>Pod_Props\<close> (\<^verbatim>\<open>agent_runtime/loop.py\<close> in K8s mode, \<^verbatim>\<open>safe_point.py\<close>, \<^verbatim>\<open>k8s_adapter.py\<close>,
    \<^verbatim>\<open>api/v1/internal.py\<close>): a pod beside the backend over exchanges that can be lost.
  \<^item> \<open>Activation\<close> (\<^verbatim>\<open>core/activation.py\<close>, \<^verbatim>\<open>activation_consumer.py\<close>), \<open>Harness_Api\<close> (\<^verbatim>\<open>api/v1/harness.py\<close>),
    \<open>Directive_Router\<close>, \<open>Directive_Router_Props\<close> (\<^verbatim>\<open>core/directive_router.py\<close>, \<^verbatim>\<open>preset_registry.py\<close>): turns with
    control, learning and plain directives, against the operator's endpoints.
  \<^item> \<open>Py_Time\<close>, \<open>Base64\<close> (the parts of Python's \<^verbatim>\<open>datetime\<close> and \<^verbatim>\<open>base64\<close> in use), \<open>Log_Queries\<close>,
    \<open>Log_Queries_Props\<close> (\<^verbatim>\<open>core/pagination.py\<close>, \<^verbatim>\<open>api/v1/events.py\<close>, \<^verbatim>\<open>api/v1/memory.py\<close>): paged reads; the
    audit log is read completely, the memory log never past its first page.
  \<^item> \<open>Meetings\<close>, \<open>Meetings_Props\<close> (\<^verbatim>\<open>api/v1/meetings.py\<close>, \<^verbatim>\<open>meetings_actions.py\<close>, \<^verbatim>\<open>core/meeting_wake.py\<close>):
    the life cycle of meetings, and the wake matrix over their participants.
  \<^item> \<open>Overlay\<close> (\<^verbatim>\<open>core/overlay.py\<close>, \<^verbatim>\<open>preset_aliases.py\<close>), \<open>Knowledge\<close> (\<^verbatim>\<open>core/knowledge.py\<close>,
    \<^verbatim>\<open>knowledge_spawn.py\<close>): what an Instance is configured with; the winning rows are exactly the first
    visible ones of their keys.
  \<^item> \<open>Deploy\<close>, \<open>Deploy_Props\<close> (\<^verbatim>\<open>services/deploy_service.py\<close>, \<^verbatim>\<open>api/v1/deploy.py\<close>): records and pipelines as
    tasks that read the answers of the cluster (\<open>cluster\<close> extends \<open>process\<close> by the tasks, the requests made
    and the progress published); a pipeline settles within 310 answers.
  \<^item> \<open>Instances\<close>, \<open>Instances_Props\<close> (\<^verbatim>\<open>api/v1/instances.py\<close>, \<^verbatim>\<open>services/instance_factory.py\<close>,
    \<^verbatim>\<open>instance_restart.py\<close>): the table of Instances along runs of the endpoints and the pipelines.
  \<^item> \<open>Disk\<close> (the parts of \<^verbatim>\<open>os\<close> and \<^verbatim>\<open>shutil\<close> in use, \<^verbatim>\<open>core/dirs.py\<close>, \<^verbatim>\<open>services/fornix_sync.py\<close>),
    \<open>Central_Hub\<close> (\<^verbatim>\<open>api/v1/central_hubs.py\<close>, \<^verbatim>\<open>models/central_hub.py\<close>: notes, files, vault), \<open>Hub_Internal\<close>
    (\<^verbatim>\<open>api/v1/internal.py\<close>: files, topology and reports of pods) and \<open>Brain_Regions\<close> (kanban cards, schedules
    with \<^verbatim>\<open>core/brainstem_runner.py\<close>, the cerebellum with \<^verbatim>\<open>core/cerebellum_migration.py\<close>). The state
    \<open>brain\<close> adds their tables and the disk, a map from the components of a path to a directory or a file.
    \<open>Hub_Tree\<close>, \<open>Hub_Props\<close>, \<open>Hub_Laws\<close>: along runs with canonical paths the mount holds what the rows say,
    over the interface \<open>file_mirror\<close> that the disk interprets; the round trip through the vault; where
    absolute names and renames of directories break it. \<open>Brain_Props\<close>: a tick fires what is due, once; one
    bad payload stops all schedules; the cerebellum is made once.
  \<^item> \<open>Organizations\<close> (\<^verbatim>\<open>api/v1/organizations.py\<close>, \<^verbatim>\<open>core/gene_atoms.py\<close>, \<^verbatim>\<open>core/slug.py\<close>): Organizations,
    their members and the cascade of a deletion, over the state \<open>tenancy\<close>, which adds the providers and their
    bindings to \<open>brain\<close>. \<open>Org_Members\<close>, \<open>Org_Props\<close>: no run of members' requests takes the last manager from
    an Organization; a deleted one is closed and the others do not notice.
  \<^item> \<open>Llm_Client\<close> (\<^verbatim>\<open>services/llm/llm_client.py\<close>, \<^verbatim>\<open>provider_router.py\<close>): what is sent in each request format, how
    answers are read, and the registry of clients, whose cache the locale \<open>client_registry\<close> shows to be
    invisible. \<open>Model_Catalog\<close> (\<^verbatim>\<open>services/llm/model_catalog.py\<close>): the catalog of models and its refreshes.
  \<^item> \<open>Org_Providers\<close>, \<open>Org_Routes\<close> (the providers and bindings of \<^verbatim>\<open>api/v1/organizations.py\<close> in both families
    of routes, \<^verbatim>\<open>services/llm/org_provider.py\<close>, \<^verbatim>\<open>api/v1/provider_catalog.py\<close>, \<^verbatim>\<open>model_catalog.py\<close>,
    \<^verbatim>\<open>system_hub.py\<close>) and \<open>Pi_Env\<close> (\<^verbatim>\<open>services/llm/instance_pi_env.py\<close>), over the state \<open>site\<close> (\<open>tenancy\<close> with
    the catalog). \<open>Provider_Props\<close>: any user reads the environment of the process, and the bindings of a
    BaseClass and of a hub cross Organizations.

  \<^bold>\<open>Parameters.\<close> The identifier stream, the clock (an argument \<open>now\<close> of each operation, an exact
  count of microseconds), the sockets of the Tunnel, the chunks of the language model, the wording
  of the cerebellum's template reply, SHA-256, the outcomes of model
  calls and what other tasks do meanwhile, the root of the mount and whether its device fails, the
  reader of cron expressions, which exchanges of a pod are lost, and the handlers other
  modules register; for the language models (\<open>outside\<close>, \<open>prompts\<close>) the environment of the process, the
  HTTP GET, the SDKs, Pydantic's conversion to an integer, the bundled catalog file and the wording of
  the prompts. \<open>Deploy\<close> takes the environment of a pod as a parameter; \<open>Pi_Env\<close> is the function behind it.

  \<^bold>\<open>Conventions.\<close> A query without an order returns rows in table order; an ordered one is a stable
  sort, strings by code point. A flushed write is visible to the next query of the same session.
  Foreign keys and unique indexes are checked when a row is flushed. Identifiers are strings;
  \<open>string\<close> stands for text of code points below 256. Python integers are unbounded.

  \<^bold>\<open>Recursion and bounds.\<close> The breadth-first search ends because the unvisited seats decrease; the
  parser recurses on the shrinking rest of its line; the worker is a step function, and its runs are
  lists of steps. The agent loop is a partial
  function to an option, \<open>None\<close> when it never ends. No definition uses fuel that a run could exhaust.

  \<^bold>\<open>Not modelled.\<close> The manifests sent to Kubernetes, DNS of Instances (effects on other
  systems), paths of the mount with a component \<open>..\<close> (they are refused), the lengths of text columns, logging, configuration, middleware and
  the OpenAPI document; password hashing and tokens; the seeding scripts and their constant data. The
  components listed as not modelled in the manifest name the rest, one reason each.
\<close>

end
